(* ===== verification/Prelude.thy ===== *)
theory Prelude
  imports Main "HOL-Library.Word" "HOL-Library.Multiset" "HOL-Library.Monad_Syntax"
begin

text \<open>
  Shared vocabulary of the development: machine integers, time, bounds-checked vector access, and
  the computations in which every store operation is written.

  A store operation is a computation \<open>('s, 'a) comp\<close> over the record \<open>'s\<close> that models the
  store. Its outcome is \<open>Returns a\<close>, \<open>Panics\<close> or \<open>Diverges\<close> (a loop that used up the fuel of
  the model), and \<^emph>\<open>the state is kept on every outcome\<close>: a Rust panic unwinds, and the cache
  behind the lock is what the panic left behind. User callbacks (\<open>on_evict\<close>, the factories of the
  get-or-set operations) may panic, so the state in which they are called matters.
\<close>

section \<open>Machine integers and time\<close>

text \<open>
  Counters are 64-bit words: \<open>AtomicU64::fetch_add\<close> wraps around. A \<open>usize\<close> that indexes or
  measures a collection is a \<open>nat\<close> (a \<open>Vec\<close> never holds more than \<open>isize::MAX\<close> elements);
  where a \<open>usize\<close> can overflow, the bound is written out. An \<open>Instant\<close> and a \<open>Duration\<close> count
  nanoseconds; both types are bounded, and \<open>Instant::checked_add\<close> returns \<open>None\<close> past the bound.
\<close>

type_synonym u64 = "64 word"
type_synonym usize = nat
type_synonym instant = nat
type_synonym duration = nat

definition usize_max :: usize where
  "usize_max = 2 ^ 64 - 1"

definition usize_checked_add :: "usize \<Rightarrow> usize \<Rightarrow> usize option" where
  "usize_checked_add a b = (if a + b \<le> usize_max then Some (a + b) else None)"

definition usize_checked_mul :: "usize \<Rightarrow> usize \<Rightarrow> usize option" where
  "usize_checked_mul a b = (if a * b \<le> usize_max then Some (a * b) else None)"

definition usize_saturating_add :: "usize \<Rightarrow> usize \<Rightarrow> usize" where
  "usize_saturating_add a b = min usize_max (a + b)"

definition instant_max :: instant where
  "instant_max = (2 ^ 63 - 1) * 10 ^ 9 + 999999999"

definition instant_checked_add :: "instant \<Rightarrow> duration \<Rightarrow> instant option" where
  "instant_checked_add t d = (if t + d \<le> instant_max then Some (t + d) else None)"

text \<open>Evaluation compares with the bounds as binary integers.\<close>

lemma instant_checked_add_code [code]:
  "instant_checked_add t d =
     (if int (t + d) \<le> 9223372036854775807999999999 then Some (t + d) else None)"
  by (simp add: instant_checked_add_def instant_max_def of_nat_le_iff flip: of_nat_add)

lemma usize_checked_add_code [code]:
  "usize_checked_add a b = (if int (a + b) \<le> 18446744073709551615 then Some (a + b) else None)"
  by (simp add: usize_checked_add_def usize_max_def flip: of_nat_add)

lemma usize_checked_mul_code [code]:
  "usize_checked_mul a b = (if int (a * b) \<le> 18446744073709551615 then Some (a * b) else None)"
  by (simp add: usize_checked_mul_def usize_max_def flip: of_nat_mult)

lemma usize_saturating_add_code [code]:
  "usize_saturating_add a b = (if int (a + b) \<le> 18446744073709551615 then a + b else usize_max)"
  by (simp add: usize_saturating_add_def usize_max_def flip: of_nat_add)

section \<open>Bounds-checked vectors\<close>

text \<open>Indexing a \<open>Vec\<close> out of range panics: \<open>None\<close> stands for that panic.\<close>

definition vget :: "'a list \<Rightarrow> usize \<Rightarrow> 'a option" where
  "vget xs i = (if i < length xs then Some (xs ! i) else None)"

definition vupd :: "usize \<Rightarrow> ('a \<Rightarrow> 'a) \<Rightarrow> 'a list \<Rightarrow> 'a list option" where
  "vupd i f xs = (if i < length xs then Some (xs[i := f (xs ! i)]) else None)"

lemma vget_Some [simp]: "i < length xs \<Longrightarrow> vget xs i = Some (xs ! i)"
  by (simp add: vget_def)

lemma vget_eq_Some_iff: "vget xs i = Some x \<longleftrightarrow> i < length xs \<and> xs ! i = x"
  by (auto simp: vget_def)

lemma vupd_Some [simp]: "i < length xs \<Longrightarrow> vupd i f xs = Some (xs[i := f (xs ! i)])"
  by (simp add: vupd_def)

section \<open>Computations\<close>

datatype 'a outcome = Returns 'a | Panics | Diverges

type_synonym ('s, 'a) comp = "'s \<Rightarrow> 'a outcome \<times> 's"

definition ret :: "'a \<Rightarrow> ('s, 'a) comp" where
  "ret x = (\<lambda>s. (Returns x, s))"

definition panic :: "('s, 'a) comp" where
  "panic = (\<lambda>s. (Panics, s))"

definition andthen :: "('s, 'a) comp \<Rightarrow> ('a \<Rightarrow> ('s, 'b) comp) \<Rightarrow> ('s, 'b) comp" where
  "andthen m f = (\<lambda>s. case m s of
       (Returns x, t) \<Rightarrow> f x t
     | (Panics, t) \<Rightarrow> (Panics, t)
     | (Diverges, t) \<Rightarrow> (Diverges, t))"

definition get_state :: "('s, 's) comp" where
  "get_state = (\<lambda>s. (Returns s, s))"

definition modify :: "('s \<Rightarrow> 's) \<Rightarrow> ('s, unit) comp" where
  "modify f = (\<lambda>s. (Returns (), f s))"

definition cwhen :: "bool \<Rightarrow> ('s, unit) comp \<Rightarrow> ('s, unit) comp" where
  "cwhen b m = (if b then m else ret ())"

text \<open>An expression that panics when it is \<open>None\<close> (\<open>expect\<close>, an index out of range).\<close>

definition expect :: "'a option \<Rightarrow> ('s, 'a) comp" where
  "expect x = (case x of None \<Rightarrow> panic | Some a \<Rightarrow> ret a)"

text \<open>The value a user closure produced: it returned a value or it panicked.\<close>

definition run_closure :: "'a outcome \<Rightarrow> ('s, 'a) comp" where
  "run_closure r = (\<lambda>s. (r, s))"

text \<open>
  Awaiting a future: it resolves, it panics, or it is dropped before it resolves (the future that
  awaits it was cancelled; \<open>Diverges\<close> stands for it). The state at the point of the \<open>await\<close> stays.
\<close>

definition await :: "'a outcome \<Rightarrow> ('s, 'a) comp" where
  "await fut = (\<lambda>s. (fut, s))"

lemma await_run_closure: "await = run_closure"
  by (simp add: await_def run_closure_def fun_eq_iff)

primrec foreach :: "'a list \<Rightarrow> ('a \<Rightarrow> ('s, unit) comp) \<Rightarrow> ('s, unit) comp" where
  "foreach [] body = ret ()"
| "foreach (x # xs) body = andthen (body x) (\<lambda>_. foreach xs body)"

text \<open>
  Invoking an \<open>on_evict\<close> callback. The callback is user code: the model records the call in the
  trace of the store (reached through \<open>upd\<close>) and asks the callback whether it returned (\<open>True\<close>)
  or panicked (\<open>False\<close>).
\<close>

type_synonym ('k, 'v) callback = "'k \<Rightarrow> 'v \<Rightarrow> bool"
type_synonym ('k, 'v) trace = "('k \<times> 'v) list"

definition notify :: "((('k, 'v) trace \<Rightarrow> ('k, 'v) trace) \<Rightarrow> 's \<Rightarrow> 's) \<Rightarrow>
    ('k, 'v) callback option \<Rightarrow> 'k \<Rightarrow> 'v \<Rightarrow> ('s, unit) comp" where
  "notify upd cb k v = (case cb of
       None \<Rightarrow> ret ()
     | Some f \<Rightarrow> (\<lambda>s. (if f k v then Returns () else Panics, upd (\<lambda>tr. tr @ [(k, v)]) s)))"

text \<open>
  Filtering with a user predicate that may panic (\<open>None\<close>): the closure runs on the elements in order,
  and a panic abandons the whole pass.
\<close>

type_synonym ('k, 'v) predicate = "'k \<Rightarrow> 'v \<Rightarrow> bool option"

fun filter_closure :: "('a \<Rightarrow> bool option) \<Rightarrow> 'a list \<Rightarrow> 'a list option" where
  "filter_closure p [] = Some []"
| "filter_closure p (x # xs) = do {
     b \<leftarrow> p x;
     ys \<leftarrow> filter_closure p xs;
     Some (if b then x # ys else ys)
   }"

lemma filter_closure_total:
  "(\<And>x. x \<in> set xs \<Longrightarrow> p x = Some (P x)) \<Longrightarrow> filter_closure p xs = Some (filter P xs)"
  by (induction xs) auto

lemma filter_closure_panic:
  "x \<in> set xs \<Longrightarrow> p x = None \<Longrightarrow> filter_closure p xs = None"
  by (induction xs) (auto split: Option.bind_splits)

lemma filter_closure_map:
  "filter_closure p (map f xs) = map_option (map f) (filter_closure (\<lambda>x. p (f x)) xs)"
  by (induction xs) (auto split: Option.bind_splits)

lemma filter_closure_cong:
  "(\<And>x. x \<in> set xs \<Longrightarrow> p x = p' x) \<Longrightarrow> filter_closure p xs = filter_closure p' xs"
  by (induction xs) (auto split: Option.bind_splits)

lemma filter_closure_Some:
  "filter_closure p xs = Some ys \<Longrightarrow> ys = filter (\<lambda>x. p x = Some True) xs"
  by (induction xs arbitrary: ys) (auto split: Option.bind_splits if_splits)

definition as_result :: "('s, 'a) comp \<Rightarrow> ('a \<Rightarrow> 'r) \<Rightarrow> ('s, 'r) comp" where
  "as_result m f = andthen m (\<lambda>x. ret (f x))"

named_theorems comp_simps \<open>computations applied to a state\<close>

lemma ret_apply [comp_simps]: "ret x s = (Returns x, s)"
  by (simp add: ret_def)

lemma panic_apply [comp_simps]: "panic s = (Panics, s)"
  by (simp add: panic_def)

lemma get_state_apply [comp_simps]: "get_state s = (Returns s, s)"
  by (simp add: get_state_def)

lemma modify_apply [comp_simps]: "modify f s = (Returns (), f s)"
  by (simp add: modify_def)

lemma run_closure_apply [comp_simps]: "run_closure r s = (r, s)"
  by (simp add: run_closure_def)

lemma expect_Some [comp_simps]: "expect (Some a) = ret a"
  by (simp add: expect_def)

lemma expect_None [comp_simps]: "expect None = panic"
  by (simp add: expect_def)

lemma cwhen_True [comp_simps]: "cwhen True m = m"
  by (simp add: cwhen_def)

lemma cwhen_False [comp_simps]: "cwhen False m = ret ()"
  by (simp add: cwhen_def)

lemma andthen_apply [comp_simps]:
  "andthen m f s = (case m s of (Returns x, t) \<Rightarrow> f x t | (Panics, t) \<Rightarrow> (Panics, t)
     | (Diverges, t) \<Rightarrow> (Diverges, t))"
  by (simp add: andthen_def)

lemma andthen_Returns: "m s = (Returns x, t) \<Longrightarrow> andthen m f s = f x t"
  by (simp add: andthen_def)

lemma andthen_get_state: "andthen get_state f s = f s s"
  by (simp add: andthen_def get_state_def)

lemma andthen_run_closure: "andthen (run_closure (Returns x)) f = f x"
  by (simp add: andthen_def run_closure_def)

lemma andthen_assoc: "andthen (andthen m f) g = andthen m (\<lambda>x. andthen (f x) g)"
  by (auto simp: andthen_def fun_eq_iff split: prod.splits outcome.splits)

lemma andthen_ret [simp]: "andthen (ret x) f = f x"
  by (simp add: andthen_def ret_def)

lemma andthen_panic [simp]: "andthen panic f = panic"
  by (simp add: andthen_def panic_def)

text \<open>Moving a continuation into the branches of a computation.\<close>

lemma andthen_option:
  "andthen (case x of None \<Rightarrow> m | Some a \<Rightarrow> f a) g =
     (case x of None \<Rightarrow> andthen m g | Some a \<Rightarrow> andthen (f a) g)"
  by (simp split: option.split)

lemma andthen_sum:
  "andthen (case x of Inl a \<Rightarrow> m a | Inr a \<Rightarrow> f a) g =
     (case x of Inl a \<Rightarrow> andthen (m a) g | Inr a \<Rightarrow> andthen (f a) g)"
  by (simp split: sum.split)

lemma andthen_if: "andthen (if b then m else n) g = (if b then andthen m g else andthen n g)"
  by simp

lemma andthen_run_closure_map:
  "andthen (run_closure (map_outcome h f)) g = andthen (run_closure f) (\<lambda>x. g (h x))"
  by (cases f) (auto simp: andthen_def run_closure_def)

lemmas andthen_push = andthen_assoc andthen_option andthen_sum andthen_if andthen_run_closure_map

text \<open>The callback returns on every argument: the assumption under which no eviction panics.\<close>

definition quiet :: "('k, 'v) callback option \<Rightarrow> bool" where
  "quiet cb \<longleftrightarrow> (\<forall>f. cb = Some f \<longrightarrow> (\<forall>k v. f k v))"

definition cb_ok :: "('k, 'v) callback option \<Rightarrow> 'k \<Rightarrow> 'v \<Rightarrow> bool" where
  "cb_ok cb k v = (case cb of None \<Rightarrow> True | Some f \<Rightarrow> f k v)"

text \<open>The calls a callback receives for a list of evicted entries.\<close>

definition cb_calls :: "('k, 'v) callback option \<Rightarrow> ('k, 'v) trace \<Rightarrow> ('k, 'v) trace" where
  "cb_calls cb kvs = (case cb of None \<Rightarrow> [] | Some _ \<Rightarrow> kvs)"

lemma cb_ok_None [simp]: "cb_ok None k v"
  by (simp add: cb_ok_def)

lemma quiet_None [simp]: "quiet None"
  by (simp add: quiet_def)

lemma quiet_cb_ok [simp]: "quiet cb \<Longrightarrow> cb_ok cb k v"
  by (cases cb) (auto simp: quiet_def cb_ok_def)

lemma cb_calls_Nil [simp]: "cb_calls cb [] = []"
  by (simp add: cb_calls_def split: option.splits)

lemma cb_calls_append: "cb_calls cb (xs @ ys) = cb_calls cb xs @ cb_calls cb ys"
  by (simp add: cb_calls_def split: option.splits)

lemma cb_calls_None [simp]: "cb_calls None xs = []"
  by (simp add: cb_calls_def)

lemma cb_calls_Some [simp]: "cb_calls (Some f) xs = xs"
  by (simp add: cb_calls_def)

lemma notify_apply:
  assumes "\<And>s. upd (\<lambda>tr. tr) s = s"
  shows "notify upd cb k v s =
    (if cb_ok cb k v then Returns () else Panics, upd (\<lambda>tr. tr @ cb_calls cb [(k, v)]) s)"
  using assms by (cases cb) (simp_all add: notify_def cb_ok_def ret_def)

lemma not_Panics_cases: "r = Returns () \<or> r = Panics \<or> r = Diverges"
  by (cases r) auto

section \<open>Functional refinement\<close>

text \<open>
  \<open>refines I av m n\<close>: from every state that satisfies \<open>I\<close>, the concrete computation \<open>m\<close> keeps \<open>I\<close>
  and does what the abstract computation \<open>n\<close> does on the abstraction of the state: the same outcome
  (panics included), and the abstraction of the state it leaves.
\<close>

definition refines_at :: "('c \<Rightarrow> bool) \<Rightarrow> ('c \<Rightarrow> 'a) \<Rightarrow> ('c, 'r) comp \<Rightarrow> ('a, 'r) comp \<Rightarrow> 'c \<Rightarrow> bool" where
  "refines_at I av m n c \<longleftrightarrow> I (snd (m c)) \<and> n (av c) = (fst (m c), av (snd (m c)))"

definition refines :: "('c \<Rightarrow> bool) \<Rightarrow> ('c \<Rightarrow> 'a) \<Rightarrow> ('c, 'r) comp \<Rightarrow> ('a, 'r) comp \<Rightarrow> bool" where
  "refines I av m n \<longleftrightarrow> (\<forall>c. I c \<longrightarrow> refines_at I av m n c)"

named_theorems refines_rules \<open>refinement of composed computations\<close>

lemma refinesI: "(\<And>c. I c \<Longrightarrow> refines_at I av m n c) \<Longrightarrow> refines I av m n"
  by (simp add: refines_def)

lemma refines_atI: "m c = (r, c') \<Longrightarrow> I c' \<Longrightarrow> n (av c) = (r, av c') \<Longrightarrow> refines_at I av m n c"
  by (simp add: refines_at_def)

lemma refinesD:
  assumes "refines I av m n" "I c"
  shows "I (snd (m c))" "n (av c) = (fst (m c), av (snd (m c)))"
  using assms by (auto simp: refines_def refines_at_def)

lemma refines_result:
  assumes "refines I av m n" "I c" "m c = (r, d)"
  shows "I d" "n (av c) = (r, av d)"
  using refinesD [OF assms(1,2)] assms(3) by simp_all

lemma refines_via:
  "\<lbrakk>refines I av m n; I c'; op c = m c'; aop (av c) = n (av c')\<rbrakk> \<Longrightarrow> refines_at I av op aop c"
  by (simp add: refines_def refines_at_def)

lemma refines_ret [refines_rules]: "refines I av (ret x) (ret x)"
  by (simp add: refines_def refines_at_def ret_def)

lemma refines_panic [refines_rules]: "refines I av panic panic"
  by (simp add: refines_def refines_at_def panic_def)

lemma refines_run_closure [refines_rules]: "refines I av (run_closure r) (run_closure r)"
  by (simp add: refines_def refines_at_def run_closure_def)

lemma refines_expect [refines_rules]: "refines I av (expect x) (expect x)"
  by (cases x) (simp_all add: expect_def refines_rules)

lemma refines_modify:
  "(\<And>c. I c \<Longrightarrow> I (f c) \<and> g (av c) = av (f c)) \<Longrightarrow> refines I av (modify f) (modify g)"
  by (simp add: refines_def refines_at_def modify_def)

lemma refines_andthen [refines_rules]:
  assumes "refines I av m n" "\<And>x. refines I av (f x) (g x)"
  shows "refines I av (andthen m f) (andthen n g)"
proof (rule refinesI)
  fix c assume c: "I c"
  obtain r c' where m: "m c = (r, c')" by force
  with refinesD [OF assms(1) c] have "I c'" "n (av c) = (r, av c')" by auto
  with m show "refines_at I av (andthen m f) (andthen n g) c"
    using refinesD [OF assms(2)] by (cases r) (auto simp: andthen_def refines_at_def)
qed

lemma refines_read:
  "(\<And>c. I c \<Longrightarrow> refines I av (f c) (g (av c))) \<Longrightarrow> refines I av (andthen get_state f) (andthen get_state g)"
  by (simp add: refines_def refines_at_def andthen_def get_state_def)

lemma refines_if [refines_rules]:
  "refines I av m n \<Longrightarrow> refines I av m' n' \<Longrightarrow> refines I av (if b then m else m') (if b then n else n')"
  by simp

lemma refines_cwhen [refines_rules]: "refines I av m n \<Longrightarrow> refines I av (cwhen b m) (cwhen b n)"
  by (simp add: cwhen_def refines_ret)

lemma refines_foreach [refines_rules]:
  "(\<And>x. refines I av (f x) (g x)) \<Longrightarrow> refines I av (foreach xs f) (foreach xs g)"
  by (induction xs) (auto intro!: refines_rules)

lemma refines_prod [refines_rules]:
  "(\<And>a b. refines I av (f a b) (g a b)) \<Longrightarrow>
     refines I av (case x of (a, b) \<Rightarrow> f a b) (case x of (a, b) \<Rightarrow> g a b)"
  by (cases x) simp

lemma refines_option [refines_rules]:
  "refines I av m n \<Longrightarrow> (\<And>a. refines I av (f a) (g a)) \<Longrightarrow>
     refines I av (case x of None \<Rightarrow> m | Some a \<Rightarrow> f a) (case x of None \<Rightarrow> n | Some a \<Rightarrow> g a)"
  by (cases x) simp_all

lemma refines_sum [refines_rules]:
  "(\<And>a. refines I av (m a) (n a)) \<Longrightarrow> (\<And>a. refines I av (f a) (g a)) \<Longrightarrow>
     refines I av (case x of Inl a \<Rightarrow> m a | Inr a \<Rightarrow> f a) (case x of Inl a \<Rightarrow> n a | Inr a \<Rightarrow> g a)"
  by (cases x) simp_all

lemma refines_as_result [refines_rules]:
  "refines I av m n \<Longrightarrow> refines I av (as_result m f) (as_result n f)"
  unfolding as_result_def by (intro refines_rules)

section \<open>Generic lemmas\<close>

lemma apsnd_id_eq [simp]: "apsnd id = id"
  by (auto simp: fun_eq_iff)

lemma find_map: "find P (map f xs) = map_option f (find (P \<circ> f) xs)"
  by (induction xs) auto

lemma remove1_filter_distinct:
  assumes "distinct (map f xs)" "x \<in> set xs"
  shows "remove1 x xs = filter (\<lambda>y. f y \<noteq> f x) xs"
proof -
  have "remove1 x xs = filter ((\<noteq>) x) xs"
    using assms(1) by (simp add: distinct_remove1_removeAll distinct_map removeAll_filter_not_eq)
  also have "\<dots> = filter (\<lambda>y. f y \<noteq> f x) xs"
    using assms by (intro filter_cong refl) (metis distinct_map inj_onD)
  finally show ?thesis .
qed

lemma remove1_last: "distinct xs \<Longrightarrow> xs \<noteq> [] \<Longrightarrow> remove1 (last xs) xs = butlast xs"
  by (cases xs rule: rev_cases) (auto simp: remove1_append)

lemma last_notin_butlast: "distinct xs \<Longrightarrow> xs \<noteq> [] \<Longrightarrow> last xs \<notin> set (butlast xs)"
  by (cases xs rule: rev_cases) auto

lemma distinct_map_remove1: "distinct (map f xs) \<Longrightarrow> distinct (map f (remove1 x xs))"
  by (metis distinct_map distinct_remove1 inj_on_subset set_remove1_subset)

lemma distinct_map_filter_eq:
  "distinct (map f xs) \<Longrightarrow> x \<in> set xs \<Longrightarrow> filter (\<lambda>y. f y = f x) xs = [x]"
  by (induction xs) (auto simp: filter_empty_conv image_iff)

lemma find_distinct_map:
  "distinct (map f xs) \<Longrightarrow> x \<in> set xs \<Longrightarrow> f x = q \<Longrightarrow> find (\<lambda>y. f y = q) xs = Some x"
  by (induction xs) (auto simp: image_iff)

lemma find_eq_None_iff: "find P xs = None \<longleftrightarrow> (\<forall>x\<in>set xs. \<not> P x)"
  by (induction xs) auto

lemma find_SomeD: "find P xs = Some x \<Longrightarrow> x \<in> set xs \<and> P x"
  by (induction xs) (auto split: if_splits)

lemma length_filter_split: "length (filter P xs) + length (filter (\<lambda>x. \<not> P x) xs) = length xs"
  by (induction xs) auto

end
