(* ===== verification/Store_Common.thy ===== *)
theory Store_Common
  imports Prelude
begin

text \<open>
  The parts of \<open>src/stores/mod.rs\<close> that the stores share: the error types of builders and setters
  with the messages their \<open>Display\<close> implementations print, the striped hit/miss counter, the
  \<open>CacheValue\<close> wrapper of the order methods and the \<open>TimedEntry\<close> of the TTL stores.
\<close>

section \<open>Errors\<close>

datatype build_error =
    MissingRequired string
  | InvalidValue (be_field: string) (be_reason: string)

fun build_error_display :: "build_error \<Rightarrow> string" where
  "build_error_display (MissingRequired field) = ''required field `'' @ field @ ''` was not set''"
| "build_error_display (InvalidValue field reason) =
     ''invalid value for field `'' @ field @ ''`: '' @ reason"

datatype set_max_size_error = ZeroMaxSize | CapacityOverflow

fun set_max_size_error_display :: "set_max_size_error \<Rightarrow> string" where
  "set_max_size_error_display ZeroMaxSize = ''max_size must be greater than zero''"
| "set_max_size_error_display CapacityOverflow =
     ''max_size is too large to divide across the shard count without overflowing usize''"

datatype set_ttl_error = ZeroTtl

fun set_ttl_error_display :: "set_ttl_error \<Rightarrow> string" where
  "set_ttl_error_display ZeroTtl = ''ttl must be greater than zero''"

definition validate_ttl :: "duration \<Rightarrow> build_error + unit" where
  "validate_ttl ttl =
     (if ttl = 0 then Inl (InvalidValue ''ttl'' ''must be greater than zero'') else Inr ())"


section \<open>Striped counters\<close>

text \<open>
  A counter is a vector of \<open>STRIPE_COUNT\<close> slots. \<open>increment\<close> bumps the slot of the calling thread:
  \<open>thread_stripe\<close> numbers the threads in the order of their first call, modulo the number of slots,
  so the slot is a parameter below \<open>STRIPE_COUNT\<close>. Slots wrap around at \<open>2 ^ 64\<close>.
\<close>

definition STRIPE_COUNT :: usize where
  "STRIPE_COUNT = 16"

record striped_counter =
  slots :: "u64 list"

definition sc_new :: striped_counter where
  "sc_new = \<lparr>slots = replicate STRIPE_COUNT 0\<rparr>"

definition thread_stripe :: "usize \<Rightarrow> usize" where
  "thread_stripe thread_number = thread_number mod STRIPE_COUNT"

definition sc_increment :: "usize \<Rightarrow> striped_counter \<Rightarrow> striped_counter" where
  "sc_increment thread_number c =
     (let i = thread_stripe thread_number in c\<lparr>slots := (slots c)[i := slots c ! i + 1]\<rparr>)"

definition sc_increment_mut :: "striped_counter \<Rightarrow> striped_counter" where
  "sc_increment_mut c = c\<lparr>slots := (slots c)[0 := slots c ! 0 + 1]\<rparr>"

definition sc_load :: "striped_counter \<Rightarrow> u64" where
  "sc_load c = sum_list (slots c)"

definition sc_reset :: "striped_counter \<Rightarrow> striped_counter" where
  "sc_reset c = c\<lparr>slots := map (\<lambda>_. 0) (slots c)\<rparr>"

definition sc_snapshot :: "striped_counter \<Rightarrow> striped_counter" where
  "sc_snapshot c = (let total = sc_load c; new = sc_new in new\<lparr>slots := (slots new)[0 := total]\<rparr>)"

definition sc_wf :: "striped_counter \<Rightarrow> bool" where
  "sc_wf c \<longleftrightarrow> length (slots c) = STRIPE_COUNT"

lemma thread_stripe_bound [simp]: "thread_stripe n < STRIPE_COUNT"
  by (simp add: thread_stripe_def STRIPE_COUNT_def)

lemma sum_list_bump:
  fixes xs :: "u64 list"
  shows "i < length xs \<Longrightarrow> sum_list (xs[i := xs ! i + 1]) = sum_list xs + 1"
  by (induction xs arbitrary: i) (auto simp: nth_Cons' list_update_code split: nat.splits)

lemma sc_wf_simps [simp]:
  "sc_wf sc_new" "sc_wf c \<Longrightarrow> sc_wf (sc_increment n c)" "sc_wf c \<Longrightarrow> sc_wf (sc_increment_mut c)"
  "sc_wf c \<Longrightarrow> sc_wf (sc_reset c)" "sc_wf (sc_snapshot c)"
  by (simp_all add: sc_wf_def sc_new_def sc_increment_def sc_increment_mut_def sc_reset_def
      sc_snapshot_def Let_def)

lemma sum_list_replicate_0 [simp]: "sum_list (replicate n (0 :: u64)) = 0"
  by (induction n) auto

lemma STRIPE_COUNT_pos: "0 < STRIPE_COUNT"
  by (simp add: STRIPE_COUNT_def)

lemma replicate_stripes: "replicate STRIPE_COUNT x = x # replicate (STRIPE_COUNT - 1) x"
  by (metis STRIPE_COUNT_pos Suc_pred' replicate_Suc)

lemma sc_load_simps [simp]:
  "sc_load sc_new = 0" "sc_load (sc_reset c) = 0"
  "sc_wf c \<Longrightarrow> sc_load (sc_increment n c) = sc_load c + 1"
  "sc_wf c \<Longrightarrow> sc_load (sc_increment_mut c) = sc_load c + 1"
  "sc_load (sc_snapshot c) = sc_load c"
proof -
  show "sc_wf c \<Longrightarrow> sc_load (sc_increment_mut c) = sc_load c + 1"
    using sum_list_bump [of 0 "slots c"]
    by (simp add: sc_load_def sc_increment_mut_def sc_wf_def STRIPE_COUNT_pos)
  show "sc_load (sc_snapshot c) = sc_load c"
    by (simp add: sc_load_def sc_snapshot_def sc_new_def replicate_stripes Let_def)
qed (simp_all add: sc_load_def sc_new_def sc_reset_def sc_increment_def sc_wf_def Let_def
      sum_list_bump map_replicate_const)

section \<open>Values with metadata\<close>

record ('v, 'm) cache_value =
  cv_value :: 'v
  cv_meta :: 'm

definition cache_value_new :: "'v \<Rightarrow> 'm \<Rightarrow> ('v, 'm) cache_value" where
  "cache_value_new v m = \<lparr>cv_value = v, cv_meta = m\<rparr>"

definition into_values :: "('v, 'm) cache_value list \<Rightarrow> 'v list" where
  "into_values xs = map cv_value xs"

definition into_values_pairs :: "('k \<times> ('v, 'm) cache_value) list \<Rightarrow> 'v list" where
  "into_values_pairs xs = map (\<lambda>(_, v). cv_value v) xs"

text \<open>An entry of the TTL stores: \<open>None\<close> never expires.\<close>

record 'v timed_entry =
  te_expires_at :: "instant option"
  te_value :: 'v

end
