(* ===== verification/Lru_List.thy ===== *)
theory Lru_List
  imports Store_Common
begin

text \<open>
  \<open>src/lru_list.rs\<close>: the doubly linked recency list of the LRU stores, kept in a vector of cells.
  Cell 0 is the sentinel of the cyclic list of free cells, cell 1 the sentinel of the cyclic list
  of occupied cells. Operations index the vector, which panics out of range, and \<open>expect\<close> a
  value; both panics are \<open>None\<close> here, and the representation invariant \<open>ll_rep\<close> shows that no
  operation of a cache reaches them.

  \<open>ll_rep l occ free\<close> relates a cell vector to the slot numbers of its occupied list (most
  recently used first) and of its free list. Every operation is characterised by what it does to
  these two lists.
\<close>

record 'a list_entry =
  le_value :: "'a option"
  le_next :: usize
  le_prev :: usize

record 'a lru_list =
  ll_values :: "'a list_entry list"

abbreviation (input) FREE :: usize where "FREE \<equiv> 0"
abbreviation (input) OCCUPIED :: usize where "OCCUPIED \<equiv> 1"

definition ll_sentinels :: "'a list_entry list" where
  "ll_sentinels = [\<lparr>le_value = None, le_next = 0, le_prev = 0\<rparr>,
                   \<lparr>le_value = None, le_next = 1, le_prev = 1\<rparr>]"

text \<open>
  Reserving memory can fail; whether it does for \<open>n\<close> cells is a parameter. \<open>Vec::with_capacity\<close>
  then panics, \<open>try_reserve_exact\<close> returns an error.
\<close>

definition ll_with_capacity :: "(usize \<Rightarrow> bool) \<Rightarrow> usize \<Rightarrow> 'a lru_list option" where
  "ll_with_capacity alloc capacity =
     (if alloc (usize_saturating_add capacity 2) then Some \<lparr>ll_values = ll_sentinels\<rparr> else None)"

definition ll_try_with_capacity ::
    "(usize \<Rightarrow> bool) \<Rightarrow> usize \<Rightarrow> build_error + 'a lru_list" where
  "ll_try_with_capacity alloc capacity =
     (case usize_checked_add capacity 2 of
        None \<Rightarrow> Inl (InvalidValue ''max_size'' ''capacity overflow'')
      | Some cap \<Rightarrow>
          if alloc cap then Inr \<lparr>ll_values = ll_sentinels\<rparr>
          else Inl (InvalidValue ''max_size'' ''allocation failed''))"

definition ll_unlink :: "usize \<Rightarrow> 'a lru_list \<Rightarrow> 'a lru_list option" where
  "ll_unlink index l = do {
     e \<leftarrow> vget (ll_values l) index;
     let prv = le_prev e;
     let nxt = le_next e;
     vs1 \<leftarrow> vupd prv (\<lambda>c. c\<lparr>le_next := nxt\<rparr>) (ll_values l);
     vs2 \<leftarrow> vupd nxt (\<lambda>c. c\<lparr>le_prev := prv\<rparr>) vs1;
     Some (l\<lparr>ll_values := vs2\<rparr>)
   }"

definition ll_link_after :: "usize \<Rightarrow> usize \<Rightarrow> 'a lru_list \<Rightarrow> 'a lru_list option" where
  "ll_link_after index prv l = do {
     p \<leftarrow> vget (ll_values l) prv;
     let nxt = le_next p;
     vs1 \<leftarrow> vupd index (\<lambda>c. c\<lparr>le_prev := prv\<rparr>) (ll_values l);
     vs2 \<leftarrow> vupd index (\<lambda>c. c\<lparr>le_next := nxt\<rparr>) vs1;
     vs3 \<leftarrow> vupd prv (\<lambda>c. c\<lparr>le_next := index\<rparr>) vs2;
     vs4 \<leftarrow> vupd nxt (\<lambda>c. c\<lparr>le_prev := index\<rparr>) vs3;
     Some (l\<lparr>ll_values := vs4\<rparr>)
   }"

definition ll_move_to_front :: "usize \<Rightarrow> 'a lru_list \<Rightarrow> 'a lru_list option" where
  "ll_move_to_front index l = do {
     l1 \<leftarrow> ll_unlink index l;
     ll_link_after index OCCUPIED l1
   }"

definition ll_push_front :: "'a \<Rightarrow> 'a lru_list \<Rightarrow> (usize \<times> 'a lru_list) option" where
  "ll_push_front v l = do {
     free \<leftarrow> vget (ll_values l) FREE;
     vs0 \<leftarrow> (if le_next free = FREE
            then (let vs = ll_values l @ [\<lparr>le_value = None, le_next = FREE, le_prev = FREE\<rparr>]
                  in vupd FREE (\<lambda>c. c\<lparr>le_next := length vs - 1\<rparr>) vs)
            else Some (ll_values l));
     free' \<leftarrow> vget vs0 FREE;
     let index = le_next free';
     vs1 \<leftarrow> vupd index (\<lambda>c. c\<lparr>le_value := Some v\<rparr>) vs0;
     l1 \<leftarrow> ll_unlink index (l\<lparr>ll_values := vs1\<rparr>);
     l2 \<leftarrow> ll_link_after index OCCUPIED l1;
     Some (index, l2)
   }"

definition ll_remove :: "usize \<Rightarrow> 'a lru_list \<Rightarrow> ('a \<times> 'a lru_list) option" where
  "ll_remove index l = do {
     l1 \<leftarrow> ll_unlink index l;
     l2 \<leftarrow> ll_link_after index FREE l1;
     e \<leftarrow> vget (ll_values l2) index;
     v \<leftarrow> le_value e;
     vs \<leftarrow> vupd index (\<lambda>c. c\<lparr>le_value := None\<rparr>) (ll_values l2);
     Some (v, l2\<lparr>ll_values := vs\<rparr>)
   }"

definition ll_back :: "'a lru_list \<Rightarrow> usize option" where
  "ll_back l = map_option le_prev (vget (ll_values l) OCCUPIED)"

definition ll_get :: "usize \<Rightarrow> 'a lru_list \<Rightarrow> 'a option" where
  "ll_get index l = do { e \<leftarrow> vget (ll_values l) index; le_value e }"

text \<open>
  \<open>get_mut\<close> hands out a mutable reference; the model takes what the holder of the reference writes
  through it as a function on the value.
\<close>

definition ll_get_mut :: "usize \<Rightarrow> ('a \<Rightarrow> 'a) \<Rightarrow> 'a lru_list \<Rightarrow> ('a \<times> 'a lru_list) option" where
  "ll_get_mut index f l = do {
     e \<leftarrow> vget (ll_values l) index;
     v \<leftarrow> le_value e;
     vs \<leftarrow> vupd index (\<lambda>c. c\<lparr>le_value := Some (f v)\<rparr>) (ll_values l);
     Some (v, l\<lparr>ll_values := vs\<rparr>)
   }"

definition ll_set :: "usize \<Rightarrow> 'a \<Rightarrow> 'a lru_list \<Rightarrow> ('a option \<times> 'a lru_list) option" where
  "ll_set index v l = do {
     e \<leftarrow> vget (ll_values l) index;
     vs \<leftarrow> vupd index (\<lambda>c. c\<lparr>le_value := Some v\<rparr>) (ll_values l);
     Some (le_value e, l\<lparr>ll_values := vs\<rparr>)
   }"

definition ll_clear :: "'a lru_list \<Rightarrow> 'a lru_list" where
  "ll_clear l = l\<lparr>ll_values := ll_sentinels\<rparr>"

text \<open>
  \<open>drain_into\<close> walks the occupied chain; the walk is a loop, with the number of cells as fuel
  (\<open>None\<close> is a panic or a walk that did not reach the sentinel).
\<close>

fun ll_drain_loop :: "nat \<Rightarrow> usize \<Rightarrow> 'a list_entry list \<Rightarrow> 'a list \<Rightarrow> 'a list option" where
  "ll_drain_loop 0 index vs out = None"
| "ll_drain_loop (Suc n) index vs out =
     (if index = OCCUPIED then Some out
      else do {
        e \<leftarrow> vget vs index;
        vs' \<leftarrow> vupd index (\<lambda>c. c\<lparr>le_value := None\<rparr>) vs;
        ll_drain_loop n (le_next e) vs'
          (case le_value e of None \<Rightarrow> out | Some v \<Rightarrow> out @ [v])
      })"

definition ll_drain_into :: "'a list \<Rightarrow> 'a lru_list \<Rightarrow> ('a list \<times> 'a lru_list) option" where
  "ll_drain_into out l = do {
     e \<leftarrow> vget (ll_values l) OCCUPIED;
     out' \<leftarrow> ll_drain_loop (length (ll_values l)) (le_next e) (ll_values l) out;
     Some (out', ll_clear l)
   }"

text \<open>
  The iterators: \<open>next\<close> returns \<open>None\<close> at the sentinel. The value iterator yields
  \<open>value.as_ref()\<close>, so an empty cell would also end it.
\<close>

definition ll_iter_next :: "'a lru_list \<Rightarrow> usize \<Rightarrow> ('a option \<times> usize) option" where
  "ll_iter_next l index = do {
     e \<leftarrow> vget (ll_values l) index;
     let nxt = le_next e;
     if nxt = OCCUPIED then Some (None, index)
     else do { c \<leftarrow> vget (ll_values l) nxt; Some (le_value c, nxt) }
   }"

definition ll_index_next :: "'a lru_list \<Rightarrow> usize \<Rightarrow> (usize option \<times> usize) option" where
  "ll_index_next l index = do {
     e \<leftarrow> vget (ll_values l) index;
     let nxt = le_next e;
     if nxt = OCCUPIED then Some (None, index) else Some (Some nxt, nxt)
   }"

fun ll_collect :: "nat \<Rightarrow> (usize \<Rightarrow> ('b option \<times> usize) option) \<Rightarrow> usize \<Rightarrow> 'b list option" where
  "ll_collect 0 nxt index = None"
| "ll_collect (Suc n) nxt index = do {
     (item, index') \<leftarrow> nxt index;
     (case item of
        None \<Rightarrow> Some []
      | Some x \<Rightarrow> do { xs \<leftarrow> ll_collect n nxt index'; Some (x # xs) })
   }"

definition ll_iter :: "'a lru_list \<Rightarrow> 'a list option" where
  "ll_iter l = ll_collect (length (ll_values l)) (ll_iter_next l) OCCUPIED"

definition ll_iter_indices :: "'a lru_list \<Rightarrow> usize list option" where
  "ll_iter_indices l = ll_collect (length (ll_values l)) (ll_index_next l) OCCUPIED"

section \<open>Chains\<close>

text \<open>
  \<open>chain nx pv a xs b\<close>: following \<open>nx\<close> from \<open>a\<close> visits \<open>xs\<close> and arrives at \<open>b\<close>, and \<open>pv\<close>
  leads back the same way. A cyclic list with sentinel \<open>a\<close> is \<open>chain nx pv a xs a\<close>.
\<close>

fun chain :: "(nat \<Rightarrow> nat) \<Rightarrow> (nat \<Rightarrow> nat) \<Rightarrow> nat \<Rightarrow> nat list \<Rightarrow> nat \<Rightarrow> bool" where
  "chain nx pv a [] b \<longleftrightarrow> nx a = b \<and> pv b = a"
| "chain nx pv a (x # xs) b \<longleftrightarrow> nx a = x \<and> pv x = a \<and> chain nx pv x xs b"

lemma chain_append:
  "chain nx pv a (xs @ y # ys) b \<longleftrightarrow> chain nx pv a xs y \<and> chain nx pv y ys b"
  by (induction xs arbitrary: a) auto

lemma chain_cong:
  "\<lbrakk>\<And>i. i \<in> set (a # xs) \<Longrightarrow> nx i = nx' i; \<And>i. i \<in> set (xs @ [b]) \<Longrightarrow> pv i = pv' i\<rbrakk>
   \<Longrightarrow> chain nx pv a xs b = chain nx' pv' a xs b"
  by (induction xs arbitrary: a) auto

lemma chain_next: "chain nx pv a xs b \<Longrightarrow> nx a = hd (xs @ [b])"
  by (cases xs) auto

lemma chain_prev: "chain nx pv a xs b \<Longrightarrow> pv b = last (a # xs)"
  by (induction xs arbitrary: a) auto

lemma chain_upd_next [simp]:
  "j \<notin> set (a # xs) \<Longrightarrow> chain (nx(j := v)) pv a xs b = chain nx pv a xs b"
  by (rule chain_cong) auto

lemma chain_upd_prev [simp]:
  "j \<notin> set (xs @ [b]) \<Longrightarrow> chain nx (pv(j := v)) a xs b = chain nx pv a xs b"
  by (rule chain_cong) auto

lemma chain_unlink:
  assumes "chain nx pv a (ys @ i # zs) b" "distinct (a # ys @ i # zs)" "b \<notin> set (ys @ i # zs)"
  shows "chain (nx(pv i := nx i)) (pv(nx i := pv i)) a (ys @ zs) b"
  using assms
proof (induction ys arbitrary: a)
  case Nil
  show ?case
  proof (cases zs)
    case Nil
    then show ?thesis using Nil.prems by simp
  next
    case (Cons z zs')
    then have z: "nx i = z" "pv i = a" "chain nx pv z zs' b" "pv z = i"
      using Nil.prems by auto
    have "chain (nx(a := z)) (pv(z := a)) z zs' b"
      using z Nil.prems Cons by (subst chain_upd_next chain_upd_prev; auto)+
    then show ?thesis by (simp only: z Cons append_Nil chain.simps fun_upd_same)
  qed
next
  case (Cons y ys)
  have c: "chain nx pv y (ys @ i # zs) b" and ay: "nx a = y" "pv y = a"
    using Cons.prems(1) by auto
  have "chain nx pv y ys i" "chain nx pv i zs b"
    using c by (auto simp: chain_append)
  then have "pv i \<in> set (y # ys)" and "nx i \<in> set (zs @ [b])"
    using chain_prev [of nx pv y ys i] chain_next [of nx pv i zs b] by (auto simp: hd_append)
  then have p: "pv i \<noteq> a" and n: "nx i \<noteq> y"
    using Cons.prems by auto
  have "chain (nx(pv i := nx i)) (pv(nx i := pv i)) y (ys @ zs) b"
    using Cons.prems c by (intro Cons.IH) auto
  moreover have "(nx(pv i := nx i)) a = y" "(pv(nx i := pv i)) y = a"
    using ay p n by (simp_all only: fun_upd_apply if_not_P not_sym split: if_splits)
  ultimately show ?case by (simp only: chain.simps append_Cons)
qed

lemma chain_link:
  assumes "chain nx pv a xs b" "i \<notin> set (a # b # xs)" "distinct (a # xs)" "b \<notin> set xs"
  shows "chain (nx(i := nx a, a := i)) (pv(i := a, nx a := i)) a (i # xs) b"
proof (cases xs)
  case Nil
  then show ?thesis using assms by auto
next
  case (Cons x ys)
  have x: "nx a = x" "chain nx pv x ys b" using assms(1) Cons by auto
  have "chain (nx(i := x, a := i)) (pv(i := a, x := i)) x ys b"
    using assms Cons x(2) by (subst chain_upd_next chain_upd_prev; auto)+
  then show ?thesis using Cons assms(2) x(1) by (simp del: fun_upd_apply) simp
qed

section \<open>The representation invariant\<close>

definition nxv :: "'a list_entry list \<Rightarrow> nat \<Rightarrow> nat" where
  "nxv vs i = le_next (vs ! i)"

definition pvv :: "'a list_entry list \<Rightarrow> nat \<Rightarrow> nat" where
  "pvv vs i = le_prev (vs ! i)"

definition linked :: "'a list_entry list \<Rightarrow> nat \<Rightarrow> nat list \<Rightarrow> bool" where
  "linked vs a xs \<longleftrightarrow> chain (nxv vs) (pvv vs) a xs a"

definition ll_rep :: "'a lru_list \<Rightarrow> nat list \<Rightarrow> nat list \<Rightarrow> bool" where
  "ll_rep l occ free \<longleftrightarrow>
     linked (ll_values l) OCCUPIED occ \<and> linked (ll_values l) FREE free \<and>
     distinct (FREE # OCCUPIED # occ @ free) \<and>
     set (FREE # OCCUPIED # occ @ free) = {..<length (ll_values l)} \<and>
     (\<forall>i < length (ll_values l). le_value (ll_values l ! i) \<noteq> None \<longleftrightarrow> i \<in> set occ)"

text \<open>The value in an occupied slot.\<close>

definition ll_at :: "'a lru_list \<Rightarrow> nat \<Rightarrow> 'a" where
  "ll_at l i = the (le_value (ll_values l ! i))"

lemma nxv_update [simp]:
  "p < length vs \<Longrightarrow> nxv (vs[p := c]) = (nxv vs)(p := le_next c)"
  "p < length vs \<Longrightarrow> pvv (vs[p := c]) = (pvv vs)(p := le_prev c)"
  by (auto simp: nxv_def pvv_def nth_list_update)

text \<open>The values of the cells, which relinking leaves alone.\<close>

definition vals :: "'a list_entry list \<Rightarrow> 'a option list" where
  "vals vs = map le_value vs"

lemma length_vals [simp]: "length (vals vs) = length vs"
  by (simp add: vals_def)

lemma vals_upd [simp]: "vals (vs[p := c]) = (vals vs)[p := le_value c]"
  by (simp add: vals_def map_update)

lemma vals_nth_update [simp]: "p < length vs \<Longrightarrow> (vals vs)[p := le_value (vs ! p)] = vals vs"
  by (simp add: vals_def list_update_same_conv)

lemma le_value_vals: "i < length vs \<Longrightarrow> le_value (vs ! i) = vals vs ! i"
  by (simp add: vals_def)

lemma linked_cong:
  assumes "\<And>i. i \<in> set (a # xs) \<Longrightarrow> nxv vs i = nxv vs' i \<and> pvv vs i = pvv vs' i"
  shows "linked vs a xs = linked vs' a xs"
  unfolding linked_def using assms by (intro chain_cong) auto

lemma linked_ends:
  assumes "linked vs a (ys @ i # zs)"
  shows "pvv vs i \<in> set (a # ys)" "nxv vs i \<in> set (zs @ [a])"
proof -
  have "chain (nxv vs) (pvv vs) a ys i" "chain (nxv vs) (pvv vs) i zs a"
    using assms by (auto simp: linked_def chain_append)
  then show "pvv vs i \<in> set (a # ys)" "nxv vs i \<in> set (zs @ [a])"
    using chain_prev [of "nxv vs" "pvv vs" a ys i] chain_next [of "nxv vs" "pvv vs" i zs a]
    by (auto simp: hd_append)
qed

lemma ll_unlink_linked:
  assumes "linked (ll_values l) a (ys @ i # zs)" "distinct (a # ys @ i # zs)"
    "set (a # ys @ i # zs) \<subseteq> {..<length (ll_values l)}"
    "linked (ll_values l) c ws" "set (c # ws) \<inter> set (a # ys @ i # zs) = {}"
  obtains vs where "ll_unlink i l = Some (l\<lparr>ll_values := vs\<rparr>)" "linked vs a (ys @ zs)"
    "linked vs c ws" "vals vs = vals (ll_values l)"
proof -
  let ?vs = "ll_values l"
  define p n where "p = pvv ?vs i" and "n = nxv ?vs i"
  have pn: "p \<in> set (a # ys)" "n \<in> set (zs @ [a])"
    using linked_ends [OF assms(1)] by (simp_all add: p_def n_def)
  then have b: "i < length ?vs" "p < length ?vs" "n < length ?vs"
    using assms(3) by auto
  define vs1 where "vs1 = ?vs[p := (?vs ! p)\<lparr>le_next := n\<rparr>]"
  define vs where "vs = vs1[n := (vs1 ! n)\<lparr>le_prev := p\<rparr>]"
  have b1: "n < length vs1" "vals vs1 = vals ?vs"
    using b by (simp_all add: vs1_def)
  have links: "nxv vs = (nxv ?vs)(p := n)" "pvv vs = (pvv ?vs)(n := p)"
    using b b1(1) by (auto simp: vs_def vs1_def fun_eq_iff nxv_def pvv_def nth_list_update)
  have "ll_unlink i l = Some (l\<lparr>ll_values := vs\<rparr>)"
    using b b1(1) by (simp add: ll_unlink_def Let_def vs_def vs1_def p_def n_def nxv_def pvv_def)
  moreover have "linked vs a (ys @ zs)"
    using chain_unlink [of "nxv ?vs" "pvv ?vs" a ys i zs a] assms(1,2)
    by (simp add: linked_def links p_def n_def)
  moreover have "linked vs c ws"
  proof -
    have "p \<notin> set (c # ws)" "n \<notin> set (c # ws)" using assms(5) pn by auto
    then show ?thesis using assms(4) by (auto simp: linked_def links)
  qed
  moreover have "vals vs = vals ?vs"
    using b1 vals_nth_update [of n vs1] by (simp add: vs_def)
  ultimately show ?thesis by (rule that)
qed

lemma ll_link_after_linked:
  assumes "linked (ll_values l) a xs" "distinct (i # a # xs)"
    "set (i # a # xs) \<subseteq> {..<length (ll_values l)}"
    "linked (ll_values l) c ws" "set (c # ws) \<inter> set (i # a # xs) = {}"
  obtains vs where "ll_link_after i a l = Some (l\<lparr>ll_values := vs\<rparr>)" "linked vs a (i # xs)"
    "linked vs c ws" "vals vs = vals (ll_values l)"
proof -
  let ?vs = "ll_values l"
  define n where "n = nxv ?vs a"
  have n: "n \<in> set (xs @ [a])"
    using assms(1) chain_next [of "nxv ?vs" "pvv ?vs" a xs a]
    by (auto simp: linked_def n_def hd_append)
  then have b: "i < length ?vs" "a < length ?vs" "n < length ?vs" "n \<noteq> i"
    using assms(2,3) by auto
  define vs1 where "vs1 = ?vs[i := (?vs ! i)\<lparr>le_prev := a\<rparr>]"
  define vs2 where "vs2 = vs1[i := (vs1 ! i)\<lparr>le_next := n\<rparr>]"
  define vs3 where "vs3 = vs2[a := (vs2 ! a)\<lparr>le_next := i\<rparr>]"
  define vs where "vs = vs3[n := (vs3 ! n)\<lparr>le_prev := i\<rparr>]"
  note defs = vs1_def vs2_def vs3_def vs_def
  have len: "length vs1 = length ?vs" "length vs2 = length ?vs" "length vs3 = length ?vs"
    by (simp_all add: defs)
  have links: "nxv vs = (nxv ?vs)(i := n, a := i)" "pvv vs = (pvv ?vs)(i := a, n := i)"
    using b assms(2) by (auto simp: defs fun_eq_iff nxv_def pvv_def nth_list_update)
  have "ll_link_after i a l = Some (l\<lparr>ll_values := vs\<rparr>)"
    using b len by (simp add: ll_link_after_def Let_def defs n_def nxv_def)
  moreover have "linked vs a (i # xs)"
    using chain_link [of "nxv ?vs" "pvv ?vs" a xs a i] assms(1,2)
    by (auto simp: linked_def links n_def simp del: chain.simps fun_upd_apply)
  moreover have "linked vs c ws"
  proof -
    have "i \<notin> set (c # ws)" "a \<notin> set (c # ws)" "n \<notin> set (c # ws)" using assms(5) n by auto
    then show ?thesis using assms(4) by (auto simp: linked_def links)
  qed
  moreover have "vals vs = vals ?vs"
  proof -
    have "vals vs1 = vals ?vs" using b by (simp add: vs1_def)
    moreover have "vals vs2 = vals vs1" using b len vals_nth_update [of i vs1] by (simp add: vs2_def)
    moreover have "vals vs3 = vals vs2" using b len vals_nth_update [of a vs2] by (simp add: vs3_def)
    moreover have "vals vs = vals vs3" using b len vals_nth_update [of n vs3] by (simp add: vs_def)
    ultimately show ?thesis by simp
  qed
  ultimately show ?thesis by (rule that)
qed

section \<open>Operations on represented lists\<close>

text \<open>The slots of the two lists, and the values of the occupied ones.\<close>

lemma ll_rep_slot:
  assumes "ll_rep l occ free"
  shows "FREE < length (ll_values l)" "OCCUPIED < length (ll_values l)"
    "i \<in> set occ \<Longrightarrow> i < length (ll_values l)" "i \<in> set free \<Longrightarrow> i < length (ll_values l)"
    "i \<in> set occ \<Longrightarrow> vals (ll_values l) ! i = Some (ll_at l i)"
proof -
  have s: "set (FREE # OCCUPIED # occ @ free) = {..<length (ll_values l)}"
    using assms by (simp add: ll_rep_def)
  then show b: "FREE < length (ll_values l)" "OCCUPIED < length (ll_values l)"
    and bo: "i \<in> set occ \<Longrightarrow> i < length (ll_values l)"
    and "i \<in> set free \<Longrightarrow> i < length (ll_values l)"
    by auto
  show "i \<in> set occ \<Longrightarrow> vals (ll_values l) ! i = Some (ll_at l i)"
    using assms bo by (auto simp: ll_rep_def ll_at_def vals_def)
qed

lemma ll_repI:
  assumes "linked vs OCCUPIED occ" "linked vs FREE free"
    "distinct (FREE # OCCUPIED # occ @ free)"
    "set (FREE # OCCUPIED # occ @ free) = {..<length vs}"
    "\<And>i. i < length vs \<Longrightarrow> vals vs ! i \<noteq> None \<longleftrightarrow> i \<in> set occ"
  shows "ll_rep (l\<lparr>ll_values := vs\<rparr>) occ free"
  using assms by (simp add: ll_rep_def vals_def)

lemma ll_repD:
  assumes "ll_rep l occ free"
  shows "linked (ll_values l) OCCUPIED occ" "linked (ll_values l) FREE free"
    "distinct (FREE # OCCUPIED # occ @ free)"
    "set (FREE # OCCUPIED # occ @ free) = {..<length (ll_values l)}"
    "\<And>i. i < length (ll_values l) \<Longrightarrow> vals (ll_values l) ! i \<noteq> None \<longleftrightarrow> i \<in> set occ"
  using assms by (simp_all add: ll_rep_def vals_def)

lemma ll_at_vals: "i < length vs \<Longrightarrow> ll_at (l\<lparr>ll_values := vs\<rparr>) i = the (vals vs ! i)"
  by (simp add: ll_at_def vals_def)

lemma length_eq_vals: "vals vs = vals vs' \<Longrightarrow> length vs = length vs'"
  by (metis length_vals)

lemma ll_rep_split:
  assumes "ll_rep l occ free" "occ = ys @ i # zs"
  shows "distinct (OCCUPIED # ys @ i # zs)" "distinct (FREE # free)"
    "set (OCCUPIED # ys @ i # zs) \<subseteq> {..<length (ll_values l)}"
    "set (FREE # free) \<subseteq> {..<length (ll_values l)}"
    "set (FREE # free) \<inter> set (OCCUPIED # ys @ i # zs) = {}"
    "remove1 i occ = ys @ zs"
  using ll_repD(3) [OF assms(1)] assms(2)
  unfolding ll_repD(4) [OF assms(1), symmetric] by (auto simp: remove1_append)

lemma ll_link_front:
  assumes "linked vs OCCUPIED xs" "linked vs FREE free"
    "distinct (FREE # OCCUPIED # (i # xs) @ free)"
    "set (FREE # OCCUPIED # (i # xs) @ free) = {..<length vs}"
    "\<And>j. j < length vs \<Longrightarrow> vals vs ! j \<noteq> None \<longleftrightarrow> j \<in> set (i # xs)"
  obtains ws where "ll_link_after i OCCUPIED (l\<lparr>ll_values := vs\<rparr>) = Some (l\<lparr>ll_values := ws\<rparr>)"
    "ll_rep (l\<lparr>ll_values := ws\<rparr>) (i # xs) free" "vals ws = vals vs"
proof -
  have sub: "set (i # OCCUPIED # xs) \<subseteq> {..<length vs}"
    unfolding assms(4) [symmetric] by auto
  obtain ws where k: "ll_link_after i OCCUPIED (l\<lparr>ll_values := vs\<rparr>) = Some (l\<lparr>ll_values := ws\<rparr>)"
    "linked ws OCCUPIED (i # xs)" "linked ws FREE free" "vals ws = vals vs"
    by (rule ll_link_after_linked [of "l\<lparr>ll_values := vs\<rparr>" OCCUPIED xs i FREE free])
      (use assms(1,2,3) sub in auto)
  have "length ws = length vs" using k(4) by (rule length_eq_vals)
  then have "ll_rep (l\<lparr>ll_values := ws\<rparr>) (i # xs) free"
    using assms(3-5) by (intro ll_repI k(2,3)) (simp_all add: k(4))
  with k(1,4) show ?thesis by (intro that)
qed

lemma ll_move_to_front_rep:
  assumes "ll_rep l occ free" "i \<in> set occ"
  obtains l' where "ll_move_to_front i l = Some l'" "ll_rep l' (i # remove1 i occ) free"
    "\<And>j. j \<in> set occ \<Longrightarrow> ll_at l' j = ll_at l j"
proof -
  note rep = ll_repD [OF assms(1)]
  obtain ys zs where occ: "occ = ys @ i # zs"
    using assms(2) by (metis split_list)
  note sp = ll_rep_split [OF assms(1) occ]
  obtain vs where u: "ll_unlink i l = Some (l\<lparr>ll_values := vs\<rparr>)" "linked vs OCCUPIED (ys @ zs)"
    "linked vs FREE free" "vals vs = vals (ll_values l)"
    using ll_unlink_linked [OF rep(1) [unfolded occ] sp(1,3) rep(2) sp(5)] by blast
  have len: "length vs = length (ll_values l)" using u(4) by (rule length_eq_vals)
  have d: "distinct (FREE # OCCUPIED # (i # ys @ zs) @ free)"
    using rep(3) occ by auto
  have e: "set (FREE # OCCUPIED # (i # ys @ zs) @ free) = {..<length vs}"
    unfolding len rep(4) [symmetric] occ by auto
  have v: "(vals vs ! j \<noteq> None) = (j \<in> set (i # ys @ zs))" if "j < length vs" for j
    using rep(5) [of j] that len u(4) occ by auto
  obtain ws where k: "ll_link_after i OCCUPIED (l\<lparr>ll_values := vs\<rparr>) = Some (l\<lparr>ll_values := ws\<rparr>)"
    "ll_rep (l\<lparr>ll_values := ws\<rparr>) (i # ys @ zs) free" "vals ws = vals vs"
    by (rule ll_link_front [OF u(2,3) d e v])
  have "ll_at (l\<lparr>ll_values := ws\<rparr>) j = ll_at l j" if "j \<in> set occ" for j
    using ll_rep_slot(3,5) [OF assms(1) that] k(3) u(4) length_eq_vals [OF k(3)] len
    by (simp add: ll_at_vals)
  then show ?thesis using u(1) k(1,2)
    by (intro that [of "l\<lparr>ll_values := ws\<rparr>"]) (simp_all add: ll_move_to_front_def sp(6))
qed

lemma ll_get_rep:
  assumes "ll_rep l occ free" "i \<in> set occ"
  shows "ll_get i l = Some (ll_at l i)"
  using ll_rep_slot(3,5) [OF assms] by (simp add: ll_get_def le_value_vals)

lemma ll_get_vacant:
  assumes "ll_rep l occ free" "i \<notin> set occ"
  shows "ll_get i l = None"
  using ll_repD(5) [OF assms(1), of i] assms(2) by (auto simp: ll_get_def vget_def le_value_vals)

lemma ll_set_rep:
  assumes "ll_rep l occ free" "i \<in> set occ"
  obtains l' where "ll_set i v l = Some (Some (ll_at l i), l')" "ll_rep l' occ free"
    "\<And>j. j \<in> set occ \<Longrightarrow> ll_at l' j = (if j = i then v else ll_at l j)"
proof -
  let ?vs = "ll_values l"
  note rep = ll_repD [OF assms(1)]
  note b = ll_rep_slot(3,5) [OF assms]
  define ws where "ws = ?vs[i := (?vs ! i)\<lparr>le_value := Some v\<rparr>]"
  have links: "nxv ws = nxv ?vs" "pvv ws = pvv ?vs" "length ws = length ?vs"
    "vals ws = (vals ?vs)[i := Some v]"
    using b(1) by (auto simp: ws_def nxv_def pvv_def fun_eq_iff nth_list_update)
  have "linked ws OCCUPIED occ" "linked ws FREE free"
    using rep(1,2) by (simp_all add: linked_def links)
  then have "ll_rep (l\<lparr>ll_values := ws\<rparr>) occ free"
    using rep(3,4) rep(5) assms(2) b(1) by (intro ll_repI) (auto simp: links nth_list_update)
  moreover have "ll_at (l\<lparr>ll_values := ws\<rparr>) j = (if j = i then v else ll_at l j)"
    if "j \<in> set occ" for j
    using ll_rep_slot(3,5) [OF assms(1) that] b by (simp add: ll_at_vals links nth_list_update)
  moreover have "ll_set i v l = Some (Some (ll_at l i), l\<lparr>ll_values := ws\<rparr>)"
    using b by (simp add: ll_set_def le_value_vals ws_def)
  ultimately show ?thesis by (intro that)
qed

lemma ll_get_mut_rep:
  assumes "ll_rep l occ free" "i \<in> set occ"
  obtains l' where "ll_get_mut i f l = Some (ll_at l i, l')" "ll_rep l' occ free"
    "\<And>j. j \<in> set occ \<Longrightarrow> ll_at l' j = (if j = i then f (ll_at l i) else ll_at l j)"
proof -
  have b: "i < length (ll_values l)" "le_value (ll_values l ! i) = Some (ll_at l i)"
    using ll_rep_slot(3,5) [OF assms] by (simp_all add: le_value_vals)
  obtain l' where s: "ll_set i (f (ll_at l i)) l = Some (Some (ll_at l i), l')" "ll_rep l' occ free"
    "\<And>j. j \<in> set occ \<Longrightarrow> ll_at l' j = (if j = i then f (ll_at l i) else ll_at l j)"
    using ll_set_rep [OF assms] by blast
  from b s(1) have "ll_get_mut i f l = Some (ll_at l i, l')"
    by (simp add: ll_get_mut_def ll_set_def)
  with s(2,3) show ?thesis by (intro that)
qed

lemma ll_back_rep:
  assumes "ll_rep l occ free" "occ \<noteq> []"
  shows "ll_back l = Some (last occ)"
proof -
  have "pvv (ll_values l) OCCUPIED = last (OCCUPIED # occ)"
    using ll_repD(1) [OF assms(1)] chain_prev unfolding linked_def by blast
  then show ?thesis
    using ll_rep_slot(2) [OF assms(1)] assms(2) by (simp add: ll_back_def pvv_def)
qed

lemma ll_remove_rep:
  assumes "ll_rep l occ free" "i \<in> set occ"
  obtains l' where "ll_remove i l = Some (ll_at l i, l')" "ll_rep l' (remove1 i occ) (i # free)"
    "\<And>j. j \<in> set occ \<Longrightarrow> j \<noteq> i \<Longrightarrow> ll_at l' j = ll_at l j"
proof -
  note rep = ll_repD [OF assms(1)]
  note b = ll_rep_slot(3,5) [OF assms]
  obtain ys zs where occ: "occ = ys @ i # zs"
    using assms(2) by (metis split_list)
  note sp = ll_rep_split [OF assms(1) occ]
  obtain vs where u: "ll_unlink i l = Some (l\<lparr>ll_values := vs\<rparr>)" "linked vs OCCUPIED (ys @ zs)"
    "linked vs FREE free" "vals vs = vals (ll_values l)"
    using ll_unlink_linked [OF rep(1) [unfolded occ] sp(1,3) rep(2) sp(5)] by blast
  have len: "length vs = length (ll_values l)" using u(4) by (rule length_eq_vals)
  obtain ws where k: "ll_link_after i FREE (l\<lparr>ll_values := vs\<rparr>) = Some (l\<lparr>ll_values := ws\<rparr>)"
    "linked ws FREE (i # free)" "linked ws OCCUPIED (ys @ zs)" "vals ws = vals vs"
    by (rule ll_link_after_linked [of "l\<lparr>ll_values := vs\<rparr>" FREE free i OCCUPIED "ys @ zs"])
      (use sp u len in auto)
  have lenw: "length ws = length (ll_values l)" using k(4) len by (metis length_vals)
  define xs where "xs = ws[i := (ws ! i)\<lparr>le_value := None\<rparr>]"
  have links: "nxv xs = nxv ws" "pvv xs = pvv ws" "length xs = length (ll_values l)"
    "vals xs = (vals (ll_values l))[i := None]"
    using b(1) lenw k(4) u(4)
    by (auto simp: xs_def nxv_def pvv_def fun_eq_iff nth_list_update)
  have "linked xs OCCUPIED (ys @ zs)" "linked xs FREE (i # free)"
    using k(2,3) by (simp_all add: linked_def links)
  moreover have "distinct (FREE # OCCUPIED # (ys @ zs) @ i # free)" "i \<notin> set (ys @ zs)"
    using rep(3) occ by auto
  moreover have "set (FREE # OCCUPIED # (ys @ zs) @ i # free) = {..<length xs}"
    unfolding links(3) rep(4) [symmetric] occ by auto
  ultimately have r: "ll_rep (l\<lparr>ll_values := xs\<rparr>) (remove1 i occ) (i # free)"
    unfolding sp(6) using rep(5) occ b(1)
    by (intro ll_repI) (auto simp: links nth_list_update)
  have v: "le_value (ws ! i) = Some (ll_at l i)"
    using b lenw k(4) u(4) by (simp add: le_value_vals)
  have "ll_remove i l = Some (ll_at l i, l\<lparr>ll_values := xs\<rparr>)"
    using u(1) k(1) b(1) lenw v by (simp add: ll_remove_def xs_def)
  moreover have "ll_at (l\<lparr>ll_values := xs\<rparr>) j = ll_at l j" if "j \<in> set occ" "j \<noteq> i" for j
    using ll_rep_slot(3,5) [OF assms(1) that(1)] that(2) by (simp add: ll_at_vals links)
  ultimately show ?thesis using r by (intro that)
qed

text \<open>
  Inserting takes the first free slot, or appends a cell when there is none. The new cell is put on
  the free list only half-way (the sentinel's \<open>prev\<close> is not set); unlinking it at once repairs that.
\<close>

lemma ll_push_prepare:
  assumes "ll_rep l occ free"
  obtains i vs free' where
    "ll_push_front v l = (do {
       l2 \<leftarrow> ll_link_after i OCCUPIED (l\<lparr>ll_values := vs\<rparr>); Some (i, l2) })"
    "linked vs OCCUPIED occ" "linked vs FREE free'"
    "distinct (FREE # OCCUPIED # (i # occ) @ free')"
    "set (FREE # OCCUPIED # (i # occ) @ free') = {..<length vs}"
    "\<And>j. j < length vs \<Longrightarrow>
       vals vs ! j = (if j = i then Some v else if j \<in> set occ then Some (ll_at l j) else None)"
proof (cases free)
  case (Cons i fs)
  let ?vs = "ll_values l"
  note rep = ll_repD [OF assms(1)]
  have i: "i < length ?vs" "FREE < length ?vs" "i \<noteq> FREE" "i \<notin> set occ"
    using rep(3) ll_rep_slot(1,4) [OF assms(1)] Cons by auto
  have nx: "le_next (?vs ! FREE) = i"
    using rep(2) Cons by (simp add: linked_def nxv_def)
  define vs1 where "vs1 = ?vs[i := (?vs ! i)\<lparr>le_value := Some v\<rparr>]"
  have links: "nxv vs1 = nxv ?vs" "pvv vs1 = pvv ?vs" "length vs1 = length ?vs"
    "vals vs1 = (vals ?vs)[i := Some v]"
    using i(1) by (auto simp: vs1_def nxv_def pvv_def fun_eq_iff nth_list_update)
  have sub: "set (FREE # [] @ i # fs) \<subseteq> {..<length vs1}"
    unfolding links(3) rep(4) [symmetric] Cons by auto
  obtain vs where u: "ll_unlink i (l\<lparr>ll_values := vs1\<rparr>) = Some (l\<lparr>ll_values := vs\<rparr>)"
    "linked vs FREE fs" "linked vs OCCUPIED occ" "vals vs = vals vs1"
    by (rule ll_unlink_linked [of "l\<lparr>ll_values := vs1\<rparr>" FREE "[]" i fs OCCUPIED occ])
      (use rep(1,2,3) sub Cons in \<open>auto simp: linked_def links\<close>)
  have len: "length vs = length ?vs" using u(4) links(3) by (metis length_vals)
  have "ll_push_front v l = (do {
      l2 \<leftarrow> ll_link_after i OCCUPIED (l\<lparr>ll_values := vs\<rparr>); Some (i, l2) })"
    using i nx u(1) by (simp add: ll_push_front_def vs1_def)
  moreover have "distinct (FREE # OCCUPIED # (i # occ) @ fs)"
    using rep(3) Cons by auto
  moreover have "set (FREE # OCCUPIED # (i # occ) @ fs) = {..<length vs}"
    unfolding len rep(4) [symmetric] Cons by auto
  moreover have "vals vs ! j =
      (if j = i then Some v else if j \<in> set occ then Some (ll_at l j) else None)"
    if "j < length vs" for j
    using that rep(5) [of j] ll_rep_slot(5) [OF assms(1), of j] i(1) len
    by (auto simp: u(4) links nth_list_update)
  ultimately show ?thesis using u(2,3) by (intro that)
next
  case Nil
  let ?vs = "ll_values l"
  let ?n = "length ?vs"
  note rep = ll_repD [OF assms(1)]
  have n: "FREE < ?n" "OCCUPIED < ?n" "le_next (?vs ! FREE) = FREE"
    using ll_rep_slot(1,2) [OF assms(1)] rep(2) Nil by (auto simp: linked_def nxv_def)
  define cell where "cell = \<lparr>le_value = Some v, le_next = FREE, le_prev = FREE\<rparr>"
  define vs where "vs = (?vs @ [cell])[FREE := (?vs ! FREE)\<lparr>le_next := FREE, le_prev := FREE\<rparr>]"
  have vs: "vs ! FREE = (?vs ! FREE)\<lparr>le_next := FREE, le_prev := FREE\<rparr>" "vs ! ?n = cell"
    "length vs = Suc ?n" "\<And>j. j < ?n \<Longrightarrow> j \<noteq> FREE \<Longrightarrow> vs ! j = ?vs ! j"
    using n(1) by (auto simp: vs_def nth_append)
  have "?n \<noteq> FREE" using n by simp
  then have "ll_push_front v l = (do {
      l2 \<leftarrow> ll_link_after ?n OCCUPIED (l\<lparr>ll_values := vs\<rparr>); Some (?n, l2) })"
    using n by (simp add: ll_push_front_def ll_unlink_def Let_def nth_append list_update_append
        vs_def cell_def split: if_splits)
  moreover have "linked vs OCCUPIED occ"
    using rep(1)
  proof (rule linked_cong [THEN iffD1, rotated])
    fix j assume "j \<in> set (OCCUPIED # occ)"
    then have "j < ?n" "j \<noteq> FREE"
      using rep(3) ll_rep_slot(2,3) [OF assms(1)] by auto
    then show "nxv ?vs j = nxv vs j \<and> pvv ?vs j = pvv vs j" by (simp add: nxv_def pvv_def vs)
  qed
  moreover have "linked vs FREE []"
    by (simp add: linked_def nxv_def pvv_def vs)
  moreover have "distinct (FREE # OCCUPIED # (?n # occ) @ [])"
    using rep(3) n ll_rep_slot(3) [OF assms(1)] by auto
  moreover have "set (FREE # OCCUPIED # (?n # occ) @ []) = {..<length vs}"
    unfolding vs(3) lessThan_Suc rep(4) [symmetric] Nil by auto
  moreover have "vals vs ! j =
      (if j = ?n then Some v else if j \<in> set occ then Some (ll_at l j) else None)"
    if "j < length vs" for j
  proof (cases "j = ?n")
    case True
    then show ?thesis using vs(2,3) by (simp add: vals_def cell_def)
  next
    case False
    then have "j < ?n" using that vs(3) by simp
    then have "vals vs ! j = vals ?vs ! j"
      using vs by (cases "j = FREE") (auto simp: vals_def)
    then show ?thesis
      using False \<open>j < ?n\<close> rep(5) [of j] ll_rep_slot(5) [OF assms(1), of j] by auto
  qed
  ultimately show ?thesis by (intro that)
qed

lemma ll_push_front_rep:
  assumes "ll_rep l occ free"
  obtains i l' free' where "ll_push_front v l = Some (i, l')" "ll_rep l' (i # occ) free'"
    "i \<notin> set occ" "ll_at l' i = v" "\<And>j. j \<in> set occ \<Longrightarrow> ll_at l' j = ll_at l j"
proof -
  obtain i vs free' where p:
    "ll_push_front v l = (do {
       l2 \<leftarrow> ll_link_after i OCCUPIED (l\<lparr>ll_values := vs\<rparr>); Some (i, l2) })"
    "linked vs OCCUPIED occ" "linked vs FREE free'"
    "distinct (FREE # OCCUPIED # (i # occ) @ free')"
    "set (FREE # OCCUPIED # (i # occ) @ free') = {..<length vs}"
    "\<And>j. j < length vs \<Longrightarrow>
       vals vs ! j = (if j = i then Some v else if j \<in> set occ then Some (ll_at l j) else None)"
    using ll_push_prepare [OF assms] by metis
  have "(vals vs ! j \<noteq> None) = (j \<in> set (i # occ))" if "j < length vs" for j
    using p(6) [OF that] by simp
  then obtain ws where k:
    "ll_link_after i OCCUPIED (l\<lparr>ll_values := vs\<rparr>) = Some (l\<lparr>ll_values := ws\<rparr>)"
    "ll_rep (l\<lparr>ll_values := ws\<rparr>) (i # occ) free'" "vals ws = vals vs"
    using ll_link_front [OF p(2-5)] by metis
  have len: "length ws = length vs" using k(3) by (rule length_eq_vals)
  have sub: "j < length vs" if "j \<in> set (i # occ)" for j
    using that unfolding lessThan_iff [symmetric] p(5) [symmetric] by auto
  have i: "i \<notin> set occ" using p(4) by auto
  moreover have "ll_at (l\<lparr>ll_values := ws\<rparr>) i = v"
    using sub [of i] p(6) [of i] by (simp add: ll_at_vals len k(3))
  moreover have "ll_at (l\<lparr>ll_values := ws\<rparr>) j = ll_at l j" if "j \<in> set occ" for j
    using that sub [of j] p(6) [of j] i by (auto simp: ll_at_vals len k(3))
  ultimately show ?thesis
    using p(1) k(1,2) by (intro that [of i "l\<lparr>ll_values := ws\<rparr>"]) simp_all
qed

section \<open>Walks\<close>

text \<open>The fuel of a walk, the number of cells, always suffices to reach the sentinel.\<close>

lemma ll_drain_loop_rep:
  assumes "chain (nxv vs) pv a rest OCCUPIED" "distinct rest" "OCCUPIED \<notin> set rest"
    "set rest \<subseteq> {..<length vs}" "\<And>j. j \<in> set rest \<Longrightarrow> vals vs ! j = Some (g j)" "length rest < n"
  shows "ll_drain_loop n (nxv vs a) vs out = Some (out @ map g rest)"
  using assms
proof (induction rest arbitrary: a vs n out)
  case Nil
  then show ?case by (cases n) auto
next
  case (Cons x rest)
  obtain m where n: "n = Suc m" using Cons.prems(6) by (cases n) auto
  have x: "nxv vs a = x" "x \<noteq> OCCUPIED" "x < length vs" "le_value (vs ! x) = Some (g x)"
    "chain (nxv vs) pv x rest OCCUPIED"
    using Cons.prems by (auto simp: le_value_vals)
  define ws where "ws = vs[x := (vs ! x)\<lparr>le_value := None\<rparr>]"
  have ws: "nxv ws = nxv vs" "vals ws = (vals vs)[x := None]" "length ws = length vs"
    using x(3) by (auto simp: ws_def nxv_def fun_eq_iff nth_list_update)
  have "ll_drain_loop m (nxv ws x) ws (out @ [g x]) = Some ((out @ [g x]) @ map g rest)"
    using Cons.prems x n by (intro Cons.IH) (auto simp: ws nth_list_update)
  then show ?case using x n by (simp add: ws_def nxv_def)
qed

lemma ll_rep_length: "ll_rep l occ free \<Longrightarrow> length occ < length (ll_values l)"
proof -
  assume r: "ll_rep l occ free"
  then have "card (set (FREE # OCCUPIED # occ @ free)) = length (ll_values l)"
    using ll_repD(4) [OF r] by simp
  moreover have "card (set (FREE # OCCUPIED # occ @ free)) = length (FREE # OCCUPIED # occ @ free)"
    using ll_repD(3) [OF r] by (rule distinct_card)
  ultimately show ?thesis by simp
qed

lemma ll_rep_sentinels: "ll_rep (l\<lparr>ll_values := ll_sentinels\<rparr>) [] []"
proof (rule ll_repI)
  show "set (FREE # OCCUPIED # [] @ []) = {..<length (ll_sentinels :: 'a list_entry list)}"
    by (auto simp: ll_sentinels_def)
  show "(vals ll_sentinels ! i \<noteq> None) = (i \<in> set [])"
    if "i < length (ll_sentinels :: 'a list_entry list)" for i
    using that by (auto simp: vals_def ll_sentinels_def less_Suc_eq)
qed (auto simp: linked_def nxv_def pvv_def ll_sentinels_def)

lemma ll_clear_rep: "ll_rep (ll_clear l) [] []"
  by (simp add: ll_clear_def ll_rep_sentinels)

lemma ll_new_rep: "ll_rep \<lparr>ll_values = ll_sentinels\<rparr> [] []"
  using ll_rep_sentinels [of "\<lparr>ll_values = ll_sentinels\<rparr>"] by simp

lemma ll_drain_into_rep:
  assumes "ll_rep l occ free"
  shows "ll_drain_into out l = Some (out @ map (ll_at l) occ, ll_clear l)"
proof -
  note rep = ll_repD [OF assms]
  have "ll_drain_loop (length (ll_values l)) (nxv (ll_values l) OCCUPIED) (ll_values l) out
      = Some (out @ map (ll_at l) occ)"
    using rep(1,3) ll_rep_slot(3,5) [OF assms] ll_rep_length [OF assms]
    by (intro ll_drain_loop_rep [where pv = "pvv (ll_values l)"]) (auto simp: linked_def)
  then show ?thesis
    using ll_rep_slot(2) [OF assms] by (simp add: ll_drain_into_def nxv_def)
qed

lemma ll_collect_values:
  assumes "chain (nxv (ll_values l)) pv a rest OCCUPIED" "OCCUPIED \<notin> set rest"
    "a < length (ll_values l)" "set rest \<subseteq> {..<length (ll_values l)}"
    "\<And>j. j \<in> set rest \<Longrightarrow> vals (ll_values l) ! j = Some (ll_at l j)" "length rest < n"
  shows "ll_collect n (ll_iter_next l) a = Some (map (ll_at l) rest) \<and>
    ll_collect n (ll_index_next l) a = Some rest"
  using assms
proof (induction rest arbitrary: a n)
  case Nil
  then obtain m where "n = Suc m" by (cases n) auto
  moreover have "le_next (ll_values l ! a) = OCCUPIED" using Nil.prems(1) by (simp add: nxv_def)
  ultimately show ?case
    using Nil.prems(3) by (simp add: ll_iter_next_def ll_index_next_def)
next
  case (Cons x rest)
  obtain m where n: "n = Suc m" "length rest < m" using Cons.prems(6) by (cases n) auto
  have x: "nxv (ll_values l) a = x" "x \<noteq> OCCUPIED" "x < length (ll_values l)"
    "le_value (ll_values l ! x) = Some (ll_at l x)"
    "chain (nxv (ll_values l)) pv x rest OCCUPIED"
    using Cons.prems by (auto simp: le_value_vals)
  have "ll_collect m (ll_iter_next l) x = Some (map (ll_at l) rest) \<and>
      ll_collect m (ll_index_next l) x = Some rest"
    using Cons.prems(2-5) x n(2) by (intro Cons.IH) auto
  moreover have "ll_iter_next l a = Some (Some (ll_at l x), x)" "ll_index_next l a = Some (Some x, x)"
    using x(1-4) Cons.prems(3) by (simp_all add: ll_iter_next_def ll_index_next_def nxv_def)
  ultimately show ?case using n(1) by simp
qed

lemma ll_iter_rep:
  assumes "ll_rep l occ free"
  shows "ll_iter l = Some (map (ll_at l) occ)" "ll_iter_indices l = Some occ"
proof -
  have "chain (nxv (ll_values l)) (pvv (ll_values l)) OCCUPIED occ OCCUPIED"
    using ll_repD(1) [OF assms] by (simp only: linked_def)
  moreover have "OCCUPIED \<notin> set occ" using ll_repD(3) [OF assms] by simp
  moreover have "set occ \<subseteq> {..<length (ll_values l)}" using ll_rep_slot(3) [OF assms] by blast
  ultimately show "ll_iter l = Some (map (ll_at l) occ)" "ll_iter_indices l = Some occ"
    unfolding ll_iter_def ll_iter_indices_def
    using ll_rep_slot(2,5) [OF assms] ll_rep_length [OF assms]
    by (blast dest: ll_collect_values)+
qed

end
