(* ===== verification/Hash_Table.thy ===== *)
theory Hash_Table
  imports Prelude
begin

text \<open>
  The interface of \<open>hashbrown::HashTable<usize>\<close>, the table of slot numbers behind the LRU stores.
  The table is a third-party package: its operations are a parameter (\<open>table_ops\<close>) of every
  definition that uses it, and the locale \<open>hash_table\<close> states what its documentation promises.

  The closures passed to the table are code of this crate and can panic (they index the recency
  list); a closure result \<open>None\<close> is such a panic, and the table promises nothing then. The table
  may call a closure on any of its entries, not only on those whose hash is the one searched for.
  \<open>entries t\<close> is the multiset of (hash at insertion, element) pairs in the table.
\<close>

record 't table_ops =
  ht_new :: "'t"
  ht_len :: "'t \<Rightarrow> usize"
  ht_find :: "u64 \<Rightarrow> (usize \<Rightarrow> bool option) \<Rightarrow> 't \<Rightarrow> usize option option"
  ht_remove :: "u64 \<Rightarrow> (usize \<Rightarrow> bool option) \<Rightarrow> 't \<Rightarrow> (usize \<times> 't) option option"
  ht_insert_unique :: "u64 \<Rightarrow> usize \<Rightarrow> (usize \<Rightarrow> u64 option) \<Rightarrow> 't \<Rightarrow> 't option"
  ht_clear :: "'t \<Rightarrow> 't"

text \<open>No closure call on an element of the table panics.\<close>

definition closure_total :: "(u64 \<times> usize) multiset \<Rightarrow> (usize \<Rightarrow> 'a option) \<Rightarrow> bool" where
  "closure_total m p \<longleftrightarrow> (\<forall>h i. (h, i) \<in># m \<longrightarrow> p i \<noteq> None)"

locale hash_table =
  fixes T :: "'t table_ops"
    and entries :: "'t \<Rightarrow> (u64 \<times> usize) multiset"
  assumes ht_new_entries: "entries (ht_new T) = {#}"
    and ht_clear_entries: "entries (ht_clear T t) = {#}"
    and ht_len_entries: "ht_len T t = size (entries t)"
    and ht_find_total: "closure_total (entries t) p \<Longrightarrow> ht_find T h p t \<noteq> None"
    and ht_find_sound: "\<lbrakk>closure_total (entries t) p; ht_find T h p t = Some (Some i)\<rbrakk>
      \<Longrightarrow> p i = Some True \<and> (\<exists>h'. (h', i) \<in># entries t)"
    and ht_find_complete: "\<lbrakk>closure_total (entries t) p; ht_find T h p t = Some None;
      (h, i) \<in># entries t\<rbrakk> \<Longrightarrow> p i = Some False"
    and ht_remove_total: "closure_total (entries t) p \<Longrightarrow> ht_remove T h p t \<noteq> None"
    and ht_remove_sound: "\<lbrakk>closure_total (entries t) p; ht_remove T h p t = Some (Some (i, t'))\<rbrakk>
      \<Longrightarrow> p i = Some True \<and> (\<exists>h'. (h', i) \<in># entries t \<and> entries t' = entries t - {#(h', i)#})"
    and ht_remove_complete: "\<lbrakk>closure_total (entries t) p; ht_remove T h p t = Some None;
      (h, i) \<in># entries t\<rbrakk> \<Longrightarrow> p i = Some False"
    and ht_insert_entries: "(\<And>h' j. (h', j) \<in># entries t \<Longrightarrow> hasher j = Some h')
      \<Longrightarrow> \<exists>t'. ht_insert_unique T h i hasher t = Some t' \<and> entries t' = add_mset (h, i) (entries t)"
begin

text \<open>
  What a client with unique elements relies on: if the closure selects exactly the elements that
  satisfy \<open>P\<close>, and at most one element of the table does, the searches find exactly that one.
\<close>

lemma ht_find_unique:
  assumes total: "\<And>h' j. (h', j) \<in># entries t \<Longrightarrow> p j = Some (P j)"
    and mem: "(h, i) \<in># entries t" "P i"
    and uniq: "\<And>h' j. (h', j) \<in># entries t \<Longrightarrow> P j \<Longrightarrow> j = i"
  shows "ht_find T h p t = Some (Some i)"
proof -
  have c: "closure_total (entries t) p" using total by (auto simp: closure_total_def)
  then obtain r where r: "ht_find T h p t = Some r" using ht_find_total by blast
  have "r \<noteq> None" using ht_find_complete [OF c _ mem(1)] r total [OF mem(1)] mem(2) by auto
  then obtain j where j: "r = Some j" by auto
  then obtain h' where "p j = Some True" "(h', j) \<in># entries t"
    using ht_find_sound [OF c] r by blast
  then have "j = i" using total uniq by fastforce
  then show ?thesis using r j by simp
qed

lemma ht_find_absent:
  assumes "\<And>h' j. (h', j) \<in># entries t \<Longrightarrow> p j = Some False"
  shows "ht_find T h p t = Some None"
proof -
  have c: "closure_total (entries t) p" using assms by (auto simp: closure_total_def)
  then obtain r where r: "ht_find T h p t = Some r" using ht_find_total by blast
  then show ?thesis using ht_find_sound [OF c, of h] assms by (cases r) fastforce+
qed

lemma ht_remove_unique:
  assumes total: "\<And>h' j. (h', j) \<in># entries t \<Longrightarrow> p j = Some (P j)"
    and mem: "(h, i) \<in># entries t" "P i"
    and uniq: "\<And>h' j. (h', j) \<in># entries t \<Longrightarrow> P j \<Longrightarrow> h' = h \<and> j = i"
  obtains t' where "ht_remove T h p t = Some (Some (i, t'))" "entries t' = entries t - {#(h, i)#}"
proof -
  have c: "closure_total (entries t) p" using total by (auto simp: closure_total_def)
  then obtain r where r: "ht_remove T h p t = Some r" using ht_remove_total by blast
  have "r \<noteq> None" using ht_remove_complete [OF c _ mem(1)] r total [OF mem(1)] mem(2) by (cases r) auto
  then obtain j t' where j: "r = Some (j, t')" by auto
  then obtain h' where h': "p j = Some True" "(h', j) \<in># entries t" "entries t' = entries t - {#(h', j)#}"
    using ht_remove_sound [OF c] r by blast
  then have "h' = h \<and> j = i" using total uniq by fastforce
  then show ?thesis using that r j h'(3) by simp
qed

lemma ht_remove_absent:
  assumes "\<And>h' j. (h', j) \<in># entries t \<Longrightarrow> p j = Some False"
  shows "ht_remove T h p t = Some None"
proof -
  have c: "closure_total (entries t) p" using assms by (auto simp: closure_total_def)
  then obtain r where r: "ht_remove T h p t = Some r" using ht_remove_total by blast
  then show ?thesis using ht_remove_sound [OF c, of h] assms by (cases r) fastforce+
qed

end

section \<open>A reference table\<close>

text \<open>
  An executable table that keeps the promises: a bucket list of (hash, element) pairs. It shows
  that the laws are satisfiable and lets concrete runs of the stores be evaluated.
\<close>

fun list_find :: "u64 \<Rightarrow> (usize \<Rightarrow> bool option) \<Rightarrow> (u64 \<times> usize) list \<Rightarrow> usize option option" where
  "list_find h p [] = Some None"
| "list_find h p ((h', i) # xs) =
     (if h' = h
      then (case p i of None \<Rightarrow> None | Some True \<Rightarrow> Some (Some i) | Some False \<Rightarrow> list_find h p xs)
      else list_find h p xs)"

fun list_remove :: "u64 \<Rightarrow> (usize \<Rightarrow> bool option) \<Rightarrow> (u64 \<times> usize) list
    \<Rightarrow> (usize \<times> (u64 \<times> usize) list) option option" where
  "list_remove h p [] = Some None"
| "list_remove h p ((h', i) # xs) =
     (if h' = h \<and> p i = None then None
      else if h' = h \<and> p i = Some True then Some (Some (i, xs))
      else map_option (map_option (apsnd ((#) (h', i)))) (list_remove h p xs))"

definition list_insert :: "u64 \<Rightarrow> usize \<Rightarrow> (usize \<Rightarrow> u64 option) \<Rightarrow> (u64 \<times> usize) list
    \<Rightarrow> (u64 \<times> usize) list option" where
  "list_insert h i hasher xs = Some ((h, i) # xs)"

definition list_table :: "(u64 \<times> usize) list table_ops" where
  "list_table = \<lparr>ht_new = [], ht_len = length, ht_find = list_find, ht_remove = list_remove,
     ht_insert_unique = list_insert, ht_clear = (\<lambda>_. [])\<rparr>"

lemma list_find_total: "closure_total (mset xs) p \<Longrightarrow> list_find h p xs \<noteq> None"
proof (induction h p xs rule: list_find.induct)
  case (2 h p h' i xs)
  have "closure_total (mset xs) p" "p i \<noteq> None"
    using 2(3) by (auto simp: closure_total_def)
  then show ?case using 2 by (cases "p i") (auto split: bool.splits)
qed simp

lemma list_find_sound:
  "list_find h p xs = Some (Some i) \<Longrightarrow> p i = Some True \<and> (\<exists>h'. (h', i) \<in> set xs)"
  by (induction h p xs rule: list_find.induct) (auto split: if_splits option.splits bool.splits)

lemma list_find_complete:
  "\<lbrakk>list_find h p xs = Some None; (h, i) \<in> set xs\<rbrakk> \<Longrightarrow> p i = Some False"
  by (induction h p xs rule: list_find.induct) (auto split: if_splits option.splits bool.splits)

lemma list_remove_total: "closure_total (mset xs) p \<Longrightarrow> list_remove h p xs \<noteq> None"
proof (induction h p xs rule: list_remove.induct)
  case (2 h p h' i xs)
  have "closure_total (mset xs) p" "p i \<noteq> None"
    using 2(2) by (auto simp: closure_total_def)
  then show ?case using 2 by auto
qed simp

lemma list_remove_sound:
  "list_remove h p xs = Some (Some (i, ys)) \<Longrightarrow>
     p i = Some True \<and> (h, i) \<in> set xs \<and> mset ys = mset xs - {#(h, i)#}"
proof (induction h p xs arbitrary: ys rule: list_remove.induct)
  case (2 h p h' j xs)
  show ?case
  proof (cases "h' = h \<and> p j = Some True")
    case True
    then show ?thesis using 2(2) by auto
  next
    case False
    then obtain zs where z: "list_remove h p xs = Some (Some (i, zs))" "ys = (h', j) # zs"
      using 2(2) by (auto split: if_splits)
    then have "p i = Some True \<and> (h, i) \<in> set xs \<and> mset zs = mset xs - {#(h, i)#}"
      using 2(1) False 2(2) by (auto split: if_splits)
    moreover have "(h', j) \<noteq> (h, i)" using False calculation by auto
    ultimately show ?thesis using z(2) by (auto simp: add_mset_remove_trivial_If)
  qed
qed simp

lemma list_remove_complete:
  "\<lbrakk>list_remove h p xs = Some None; (h, i) \<in> set xs; closure_total (mset xs) p\<rbrakk> \<Longrightarrow> p i = Some False"
proof (induction h p xs rule: list_remove.induct)
  case (2 h p h' j xs)
  have "closure_total (mset xs) p" "p j \<noteq> None" using 2(4) by (auto simp: closure_total_def)
  then show ?case using 2 by (auto split: if_splits)
qed simp

interpretation lt: hash_table list_table mset
  by unfold_locales
    (auto simp: list_table_def list_insert_def list_find_total list_remove_total
      dest: list_find_sound list_find_complete list_remove_sound list_remove_complete)

end
