(* ===== verification/Lru_Cache.thy ===== *)
theory Lru_Cache
  imports Lru_List Hash_Table
begin

text \<open>
  \<open>src/stores/lru.rs\<close>: \<open>LruCache\<close>, a \<open>HashTable\<close> of slot numbers over the recency list. The
  definitions follow the methods of the source; \<open>Lru_Spec\<close> and \<open>Lru_Refine\<close> show what they do.

  Parameters of the operations: the table operations \<open>T\<close> (a third-party package, \<open>Hash_Table\<close>), and
  \<open>bk\<close>, the \<open>Borrow\<close> of the key type: two keys are equal (\<open>==\<close>) when their borrowed forms are, so a
  stored key and a lookup key can be equal without being the same value. The hash builder is a field
  of the cache, as in the source, and hashes borrowed keys. \<open>lru_calls\<close> is not a field of the
  source: it is the trace of the calls \<open>on_evict\<close> has received.
\<close>

record ('k, 'v, 'q, 't) lru_cache =
  lru_store :: 't
  lru_hash_builder :: "'q \<Rightarrow> u64"
  lru_order :: "('k \<times> 'v) lru_list"
  lru_capacity :: usize
  lru_hits :: u64
  lru_misses :: u64
  lru_evictions :: u64
  lru_on_evict :: "('k, 'v) callback option"
  lru_track_hit_miss :: bool
  lru_calls :: "('k, 'v) trace"

section \<open>Building\<close>

record ('k, 'v, 'q) lru_builder =
  lrub_size :: "usize option"
  lrub_on_evict :: "('k, 'v) callback option"
  lrub_hasher :: "'q \<Rightarrow> u64"

definition lru_builder_default :: "('q \<Rightarrow> u64) \<Rightarrow> ('k, 'v, 'q) lru_builder" where
  "lru_builder_default hb = \<lparr>lrub_size = None, lrub_on_evict = None, lrub_hasher = hb\<rparr>"

definition lru_builder_max_size :: "usize \<Rightarrow> ('k, 'v, 'q) lru_builder \<Rightarrow> ('k, 'v, 'q) lru_builder" where
  "lru_builder_max_size n b = b\<lparr>lrub_size := Some n\<rparr>"

definition lru_builder_on_evict ::
    "('k, 'v) callback \<Rightarrow> ('k, 'v, 'q) lru_builder \<Rightarrow> ('k, 'v, 'q) lru_builder" where
  "lru_builder_on_evict f b = b\<lparr>lrub_on_evict := Some f\<rparr>"

definition lru_builder_hasher ::
    "('r \<Rightarrow> u64) \<Rightarrow> ('k, 'v, 'q) lru_builder \<Rightarrow> ('k, 'v, 'r) lru_builder" where
  "lru_builder_hasher h b =
     \<lparr>lrub_size = lrub_size b, lrub_on_evict = lrub_on_evict b, lrub_hasher = h\<rparr>"

text \<open>
  Building reserves the table and the list; whether a reservation of \<open>n\<close> elements succeeds is a
  parameter of each.
\<close>

definition lru_build :: "'t table_ops \<Rightarrow> (usize \<Rightarrow> bool) \<Rightarrow> (usize \<Rightarrow> bool) \<Rightarrow> ('k, 'v, 'q) lru_builder
    \<Rightarrow> build_error + ('k, 'v, 'q, 't) lru_cache" where
  "lru_build T table_alloc list_alloc b =
     (case lrub_size b of
        None \<Rightarrow> Inl (MissingRequired ''max_size'')
      | Some n \<Rightarrow>
          if n = 0 then Inl (InvalidValue ''max_size'' ''must be greater than zero'')
          else if \<not> table_alloc n then Inl (InvalidValue ''max_size'' ''allocation failed'')
          else (case ll_try_with_capacity list_alloc n of
              Inl e \<Rightarrow> Inl e
            | Inr ord \<Rightarrow> Inr \<lparr>lru_store = ht_new T, lru_hash_builder = lrub_hasher b, lru_order = ord,
                lru_capacity = n, lru_hits = 0, lru_misses = 0, lru_evictions = 0,
                lru_on_evict = lrub_on_evict b, lru_track_hit_miss = True, lru_calls = []\<rparr>))"

text \<open>\<open>LruCache::new\<close> panics (\<open>None\<close>) where building fails.\<close>

definition lru_new :: "'t table_ops \<Rightarrow> (usize \<Rightarrow> bool) \<Rightarrow> (usize \<Rightarrow> bool) \<Rightarrow> ('q \<Rightarrow> u64) \<Rightarrow> usize
    \<Rightarrow> ('k, 'v, 'q, 't) lru_cache option" where
  "lru_new T table_alloc list_alloc hb max_size =
     (case lru_build T table_alloc list_alloc (lru_builder_max_size max_size (lru_builder_default hb)) of
        Inl _ \<Rightarrow> None | Inr c \<Rightarrow> Some c)"

definition lru_clone :: "('k, 'v, 'q, 't) lru_cache \<Rightarrow> ('k, 'v, 'q, 't) lru_cache" where
  "lru_clone c = \<lparr>lru_store = lru_store c, lru_hash_builder = lru_hash_builder c,
     lru_order = lru_order c, lru_capacity = lru_capacity c, lru_hits = lru_hits c,
     lru_misses = lru_misses c, lru_evictions = lru_evictions c, lru_on_evict = lru_on_evict c,
     lru_track_hit_miss = lru_track_hit_miss c, lru_calls = lru_calls c\<rparr>"

section \<open>Parts of the operations\<close>

definition lru_on_order :: "(('k \<times> 'v) lru_list \<Rightarrow> ('a \<times> ('k \<times> 'v) lru_list) option)
    \<Rightarrow> (('k, 'v, 'q, 't) lru_cache, 'a) comp" where
  "lru_on_order f c = (case f (lru_order c) of
       None \<Rightarrow> (Panics, c)
     | Some (a, l) \<Rightarrow> (Returns a, c\<lparr>lru_order := l\<rparr>))"

definition lru_move :: "usize \<Rightarrow> (('k, 'v, 'q, 't) lru_cache, unit) comp" where
  "lru_move index = lru_on_order (\<lambda>l. map_option (Pair ()) (ll_move_to_front index l))"

definition lru_record_hit :: "(('k, 'v, 'q, 't) lru_cache, unit) comp" where
  "lru_record_hit = modify (\<lambda>c. if lru_track_hit_miss c then c\<lparr>lru_hits := lru_hits c + 1\<rparr> else c)"

definition lru_record_miss :: "(('k, 'v, 'q, 't) lru_cache, unit) comp" where
  "lru_record_miss = modify (\<lambda>c. if lru_track_hit_miss c then c\<lparr>lru_misses := lru_misses c + 1\<rparr> else c)"

definition lru_count_evictions :: "nat \<Rightarrow> (('k, 'v, 'q, 't) lru_cache, unit) comp" where
  "lru_count_evictions n = modify (\<lambda>c. c\<lparr>lru_evictions := lru_evictions c + of_nat n\<rparr>)"

definition lru_notify :: "'k \<Rightarrow> 'v \<Rightarrow> (('k, 'v, 'q, 't) lru_cache, unit) comp" where
  "lru_notify k v c = notify lru_calls_update (lru_on_evict c) k v c"

definition lru_hash :: "'q \<Rightarrow> ('k, 'v, 'q, 't) lru_cache \<Rightarrow> u64" where
  "lru_hash q c = lru_hash_builder c q"

definition lru_key_is :: "('k \<Rightarrow> 'q) \<Rightarrow> 'q \<Rightarrow> ('k, 'v, 'q, 't) lru_cache \<Rightarrow> usize \<Rightarrow> bool option" where
  "lru_key_is bk q c i = map_option (\<lambda>kv. q = bk (fst kv)) (ll_get i (lru_order c))"

definition lru_get_index :: "'t table_ops \<Rightarrow> ('k \<Rightarrow> 'q) \<Rightarrow> u64 \<Rightarrow> 'q
    \<Rightarrow> ('k, 'v, 'q, 't) lru_cache \<Rightarrow> usize option option" where
  "lru_get_index T bk h q c = ht_find T h (lru_key_is bk q c) (lru_store c)"

definition lru_insert_index :: "'t table_ops \<Rightarrow> ('k \<Rightarrow> 'q) \<Rightarrow> u64 \<Rightarrow> usize
    \<Rightarrow> (('k, 'v, 'q, 't) lru_cache, unit) comp" where
  "lru_insert_index T bk h index c =
     (case ht_insert_unique T h index
         (\<lambda>i. map_option (\<lambda>kv. lru_hash_builder c (bk (fst kv))) (ll_get i (lru_order c)))
         (lru_store c) of
        None \<Rightarrow> (Panics, c)
      | Some t \<Rightarrow> (Returns (), c\<lparr>lru_store := t\<rparr>))"

text \<open>
  Taking an entry out of the table: \<open>find_entry\<close> with a closure, then \<open>remove\<close>. \<open>None\<close> as a value
  means that the table has no such entry.
\<close>

definition lru_table_take :: "'t table_ops \<Rightarrow> u64 \<Rightarrow> (usize \<Rightarrow> bool option)
    \<Rightarrow> (('k, 'v, 'q, 't) lru_cache, usize option) comp" where
  "lru_table_take T h p c = (case ht_remove T h p (lru_store c) of
       None \<Rightarrow> (Panics, c)
     | Some None \<Rightarrow> (Returns None, c)
     | Some (Some (i, t)) \<Rightarrow> (Returns (Some i), c\<lparr>lru_store := t\<rparr>))"

definition lru_pop_raw_with_hash :: "'t table_ops \<Rightarrow> ('k \<Rightarrow> 'q) \<Rightarrow> u64 \<Rightarrow> 'q
    \<Rightarrow> (('k, 'v, 'q, 't) lru_cache, ('k \<times> 'v) option) comp" where
  "lru_pop_raw_with_hash T bk h q =
     andthen get_state (\<lambda>c.
     andthen (lru_table_take T h (lru_key_is bk q c)) (\<lambda>found.
     case found of
       None \<Rightarrow> ret None
     | Some index \<Rightarrow> andthen (lru_on_order (ll_remove index)) (\<lambda>kv. ret (Some kv))))"

definition lru_pop_raw :: "'t table_ops \<Rightarrow> ('k \<Rightarrow> 'q) \<Rightarrow> 'q
    \<Rightarrow> (('k, 'v, 'q, 't) lru_cache, ('k \<times> 'v) option) comp" where
  "lru_pop_raw T bk q = andthen get_state (\<lambda>c. lru_pop_raw_with_hash T bk (lru_hash q c) q)"

definition lru_remove_index :: "'t table_ops \<Rightarrow> ('k \<Rightarrow> 'q) \<Rightarrow> usize
    \<Rightarrow> (('k, 'v, 'q, 't) lru_cache, 'k \<times> 'v) comp" where
  "lru_remove_index T bk index =
     andthen get_state (\<lambda>c.
     andthen (expect (ll_get index (lru_order c))) (\<lambda>kv.
     andthen (lru_table_take T (lru_hash (bk (fst kv)) c) (\<lambda>i. Some (i = index))) (\<lambda>found.
     case found of
       None \<Rightarrow> panic
     | Some _ \<Rightarrow> lru_on_order (ll_remove index))))"

definition lru_drain_all :: "'t table_ops \<Rightarrow> (('k, 'v, 'q, 't) lru_cache, ('k \<times> 'v) list) comp" where
  "lru_drain_all T =
     andthen (lru_on_order (ll_drain_into [])) (\<lambda>drained.
     andthen (modify (\<lambda>c. c\<lparr>lru_store := ht_clear T (lru_store c)\<rparr>)) (\<lambda>_.
     ret drained))"

section \<open>Evicting over capacity\<close>

text \<open>The body of the loop of \<open>check_capacity\<close>: remove the least recently used entry, count, notify.\<close>

definition lru_evict_back :: "'t table_ops \<Rightarrow> ('k \<Rightarrow> 'q) \<Rightarrow> (('k, 'v, 'q, 't) lru_cache, unit) comp" where
  "lru_evict_back T bk =
     andthen get_state (\<lambda>c.
     andthen (expect (ll_back (lru_order c))) (\<lambda>index.
     andthen (expect (ll_get index (lru_order c))) (\<lambda>kv.
     andthen (lru_table_take T (lru_hash (bk (fst kv)) c) (lru_key_is bk (bk (fst kv)) c)) (\<lambda>found.
     case found of
       None \<Rightarrow> panic
     | Some _ \<Rightarrow>
         andthen (lru_on_order (ll_remove index)) (\<lambda>(k, v).
         andthen (lru_count_evictions 1) (\<lambda>_.
         lru_notify k v))))))"

fun lru_check_capacity_loop :: "nat \<Rightarrow> 't table_ops \<Rightarrow> ('k \<Rightarrow> 'q)
    \<Rightarrow> (('k, 'v, 'q, 't) lru_cache, unit) comp" where
  "lru_check_capacity_loop 0 T bk c =
     (if ht_len T (lru_store c) > lru_capacity c then (Diverges, c) else (Returns (), c))"
| "lru_check_capacity_loop (Suc n) T bk c =
     (if ht_len T (lru_store c) > lru_capacity c
      then andthen (lru_evict_back T bk) (\<lambda>_. lru_check_capacity_loop n T bk) c
      else (Returns (), c))"

definition lru_check_capacity :: "'t table_ops \<Rightarrow> ('k \<Rightarrow> 'q) \<Rightarrow> (('k, 'v, 'q, 't) lru_cache, unit) comp" where
  "lru_check_capacity T bk c = lru_check_capacity_loop (ht_len T (lru_store c)) T bk c"

fun lru_fit_loop :: "nat \<Rightarrow> 't table_ops \<Rightarrow> ('k \<Rightarrow> 'q) \<Rightarrow> (('k, 'v, 'q, 't) lru_cache, unit) comp" where
  "lru_fit_loop 0 T bk c =
     (if ht_len T (lru_store c) > lru_capacity c then (Diverges, c) else (Returns (), c))"
| "lru_fit_loop (Suc n) T bk c =
     (if ht_len T (lru_store c) > lru_capacity c
      then andthen (lru_check_capacity T bk) (\<lambda>_. lru_fit_loop n T bk) c
      else (Returns (), c))"

definition lru_set_max_size :: "'t table_ops \<Rightarrow> ('k \<Rightarrow> 'q) \<Rightarrow> usize
    \<Rightarrow> (('k, 'v, 'q, 't) lru_cache, usize option) comp" where
  "lru_set_max_size T bk max_size =
     (if max_size = 0 then panic
      else andthen get_state (\<lambda>c.
        andthen (modify (\<lambda>c. c\<lparr>lru_capacity := max_size\<rparr>)) (\<lambda>_.
        andthen (lru_fit_loop (ht_len T (lru_store c)) T bk) (\<lambda>_.
        ret (Some (lru_capacity c))))))"

definition lru_try_set_max_size :: "'t table_ops \<Rightarrow> ('k \<Rightarrow> 'q) \<Rightarrow> usize
    \<Rightarrow> (('k, 'v, 'q, 't) lru_cache, set_max_size_error + usize option) comp" where
  "lru_try_set_max_size T bk max_size =
     (if max_size = 0 then ret (Inl ZeroMaxSize)
      else andthen (lru_set_max_size T bk max_size) (\<lambda>p. ret (Inr p)))"

section \<open>Lookup\<close>

definition lru_get_if :: "'t table_ops \<Rightarrow> ('k \<Rightarrow> 'q) \<Rightarrow> 'q \<Rightarrow> ('v \<Rightarrow> bool)
    \<Rightarrow> (('k, 'v, 'q, 't) lru_cache, 'v option) comp" where
  "lru_get_if T bk q is_valid =
     andthen get_state (\<lambda>c.
     andthen (expect (lru_get_index T bk (lru_hash q c) q c)) (\<lambda>found.
     andthen (case found of
         None \<Rightarrow> ret None
       | Some index \<Rightarrow> andthen (expect (ll_get index (lru_order c))) (\<lambda>kv.
           ret (if is_valid (snd kv) then Some index else None))) (\<lambda>hit.
     case hit of
       Some index \<Rightarrow>
         andthen (lru_move index) (\<lambda>_.
         andthen lru_record_hit (\<lambda>_.
         andthen get_state (\<lambda>c1.
         andthen (expect (ll_get index (lru_order c1))) (\<lambda>kv.
         ret (Some (snd kv))))))
     | None \<Rightarrow> andthen lru_record_miss (\<lambda>_. ret None))))"

text \<open>
  \<open>get_mut_if\<close> returns a mutable reference to the value. \<open>upd\<close> is what the caller writes through it;
  the result is the value the reference showed.
\<close>

definition lru_get_mut_if :: "'t table_ops \<Rightarrow> ('k \<Rightarrow> 'q) \<Rightarrow> 'q \<Rightarrow> ('v \<Rightarrow> bool) \<Rightarrow> ('v \<Rightarrow> 'v)
    \<Rightarrow> (('k, 'v, 'q, 't) lru_cache, 'v option) comp" where
  "lru_get_mut_if T bk q is_valid upd =
     andthen get_state (\<lambda>c.
     andthen (expect (lru_get_index T bk (lru_hash q c) q c)) (\<lambda>found.
     andthen (case found of
         None \<Rightarrow> ret None
       | Some index \<Rightarrow> andthen (expect (ll_get index (lru_order c))) (\<lambda>kv.
           ret (if is_valid (snd kv) then Some index else None))) (\<lambda>hit.
     case hit of
       Some index \<Rightarrow>
         andthen (lru_move index) (\<lambda>_.
         andthen lru_record_hit (\<lambda>_.
         andthen (lru_on_order (ll_get_mut index (apsnd upd))) (\<lambda>kv.
         ret (Some (snd kv)))))
     | None \<Rightarrow> andthen lru_record_miss (\<lambda>_. ret None))))"

text \<open>
  Get-or-set. The outcome is (was present, was valid, displaced entry, current value); \<open>upd\<close> is
  written through the returned reference. The factory \<open>f\<close> is user code that runs at the point where
  the source calls it: after the counters, before anything is stored.
\<close>

type_synonym ('k, 'v) get_or_set_outcome = "bool \<times> bool \<times> ('k \<times> 'v) option \<times> 'v"

definition lru_get_or_set_with_if :: "'t table_ops \<Rightarrow> ('k \<Rightarrow> 'q) \<Rightarrow> 'k \<Rightarrow> 'v outcome \<Rightarrow> ('v \<Rightarrow> bool)
    \<Rightarrow> ('v \<Rightarrow> 'v) \<Rightarrow> (('k, 'v, 'q, 't) lru_cache, ('k, 'v) get_or_set_outcome) comp" where
  "lru_get_or_set_with_if T bk key f is_valid upd =
     andthen get_state (\<lambda>c.
     let h = lru_hash (bk key) c in
     andthen (expect (lru_get_index T bk h (bk key) c)) (\<lambda>found.
     case found of
       Some index \<Rightarrow>
         andthen (expect (ll_get index (lru_order c))) (\<lambda>cur.
         let replace_existing = \<not> is_valid (snd cur) in
         andthen (if replace_existing then lru_record_miss else lru_record_hit) (\<lambda>_.
         andthen (if replace_existing
                  then andthen (run_closure f) (\<lambda>v. lru_on_order (ll_set index (key, v)))
                  else ret None) (\<lambda>old_val.
         andthen (lru_move index) (\<lambda>_.
         andthen (lru_on_order (ll_get_mut index (apsnd upd))) (\<lambda>kv.
         ret (True, \<not> replace_existing, old_val, snd kv))))))
     | None \<Rightarrow>
         andthen lru_record_miss (\<lambda>_.
         andthen (run_closure f) (\<lambda>v.
         andthen (lru_on_order (ll_push_front (key, v))) (\<lambda>index.
         andthen (lru_insert_index T bk h index) (\<lambda>_.
         andthen (lru_check_capacity T bk) (\<lambda>_.
         andthen (lru_on_order (ll_get_mut index (apsnd upd))) (\<lambda>kv.
         ret (False, False, None, snd kv)))))))))"

text \<open>The fallible variant: the factory may also return an error, which leaves by the \<open>?\<close> operator.\<close>

definition lru_try_get_or_set_with_if :: "'t table_ops \<Rightarrow> ('k \<Rightarrow> 'q) \<Rightarrow> 'k \<Rightarrow> ('e + 'v) outcome
    \<Rightarrow> ('v \<Rightarrow> bool) \<Rightarrow> ('v \<Rightarrow> 'v)
    \<Rightarrow> (('k, 'v, 'q, 't) lru_cache, 'e + ('k, 'v) get_or_set_outcome) comp" where
  "lru_try_get_or_set_with_if T bk key f is_valid upd =
     andthen get_state (\<lambda>c.
     let h = lru_hash (bk key) c in
     andthen (expect (lru_get_index T bk h (bk key) c)) (\<lambda>found.
     case found of
       Some index \<Rightarrow>
         andthen (expect (ll_get index (lru_order c))) (\<lambda>cur.
         let replace_existing = \<not> is_valid (snd cur) in
         andthen (if replace_existing then lru_record_miss else lru_record_hit) (\<lambda>_.
         andthen (if replace_existing
                  then andthen (run_closure f) (\<lambda>r. case r of
                      Inl e \<Rightarrow> ret (Inl e)
                    | Inr v \<Rightarrow> andthen (lru_on_order (ll_set index (key, v))) (\<lambda>d. ret (Inr d)))
                  else ret (Inr None)) (\<lambda>r.
         case r of
           Inl e \<Rightarrow> ret (Inl e)
         | Inr old_val \<Rightarrow>
             andthen (lru_move index) (\<lambda>_.
             andthen (lru_on_order (ll_get_mut index (apsnd upd))) (\<lambda>kv.
             ret (Inr (True, \<not> replace_existing, old_val, snd kv)))))))
     | None \<Rightarrow>
         andthen lru_record_miss (\<lambda>_.
         andthen (run_closure f) (\<lambda>r.
         case r of
           Inl e \<Rightarrow> ret (Inl e)
         | Inr v \<Rightarrow>
             andthen (lru_on_order (ll_push_front (key, v))) (\<lambda>index.
             andthen (lru_insert_index T bk h index) (\<lambda>_.
             andthen (lru_check_capacity T bk) (\<lambda>_.
             andthen (lru_on_order (ll_get_mut index (apsnd upd))) (\<lambda>kv.
             ret (Inr (False, False, None, snd kv))))))))))"

section \<open>Removing by predicate\<close>

definition lru_doomed_indices :: "('k, 'v) predicate \<Rightarrow> ('k, 'v, 'q, 't) lru_cache \<Rightarrow> usize list option" where
  "lru_doomed_indices keep c = do {
     is \<leftarrow> ll_iter_indices (lru_order c);
     filter_closure (\<lambda>i. do { kv \<leftarrow> ll_get i (lru_order c); map_option Not (keep (fst kv) (snd kv)) }) is
   }"

definition lru_evict_index :: "'t table_ops \<Rightarrow> ('k \<Rightarrow> 'q) \<Rightarrow> usize
    \<Rightarrow> (('k, 'v, 'q, 't) lru_cache, unit) comp" where
  "lru_evict_index T bk index =
     andthen (lru_remove_index T bk index) (\<lambda>(k, v).
     andthen (lru_count_evictions 1) (\<lambda>_.
     lru_notify k v))"

definition lru_retain :: "'t table_ops \<Rightarrow> ('k \<Rightarrow> 'q) \<Rightarrow> ('k, 'v) predicate
    \<Rightarrow> (('k, 'v, 'q, 't) lru_cache, usize) comp" where
  "lru_retain T bk keep =
     andthen get_state (\<lambda>c.
     andthen (expect (lru_doomed_indices keep c)) (\<lambda>doomed.
     andthen (foreach doomed (lru_evict_index T bk)) (\<lambda>_.
     ret (length doomed))))"

section \<open>Asynchronous get-or-set\<close>

text \<open>The twins for asynchronous factories: the factory's future is awaited where the code calls it.\<close>

definition lru_get_or_set_with_if_async :: "'t table_ops \<Rightarrow> ('k \<Rightarrow> 'q) \<Rightarrow> 'k \<Rightarrow> 'v outcome \<Rightarrow> ('v \<Rightarrow> bool)
    \<Rightarrow> ('v \<Rightarrow> 'v) \<Rightarrow> (('k, 'v, 'q, 't) lru_cache, ('k, 'v) get_or_set_outcome) comp" where
  "lru_get_or_set_with_if_async T bk key f is_valid upd =
     andthen get_state (\<lambda>c.
     let h = lru_hash (bk key) c in
     andthen (expect (lru_get_index T bk h (bk key) c)) (\<lambda>found.
     case found of
       Some index \<Rightarrow>
         andthen (expect (ll_get index (lru_order c))) (\<lambda>cur.
         let replace_existing = \<not> is_valid (snd cur) in
         andthen (if replace_existing then lru_record_miss else lru_record_hit) (\<lambda>_.
         andthen (if replace_existing
                  then andthen (await f) (\<lambda>v. lru_on_order (ll_set index (key, v)))
                  else ret None) (\<lambda>old_val.
         andthen (lru_move index) (\<lambda>_.
         andthen (lru_on_order (ll_get_mut index (apsnd upd))) (\<lambda>kv.
         ret (True, \<not> replace_existing, old_val, snd kv))))))
     | None \<Rightarrow>
         andthen lru_record_miss (\<lambda>_.
         andthen (await f) (\<lambda>v.
         andthen (lru_on_order (ll_push_front (key, v))) (\<lambda>index.
         andthen (lru_insert_index T bk h index) (\<lambda>_.
         andthen (lru_check_capacity T bk) (\<lambda>_.
         andthen (lru_on_order (ll_get_mut index (apsnd upd))) (\<lambda>kv.
         ret (False, False, None, snd kv)))))))))"

definition lru_try_get_or_set_with_if_async :: "'t table_ops \<Rightarrow> ('k \<Rightarrow> 'q) \<Rightarrow> 'k \<Rightarrow> ('e + 'v) outcome
    \<Rightarrow> ('v \<Rightarrow> bool) \<Rightarrow> ('v \<Rightarrow> 'v)
    \<Rightarrow> (('k, 'v, 'q, 't) lru_cache, 'e + ('k, 'v) get_or_set_outcome) comp" where
  "lru_try_get_or_set_with_if_async T bk key f is_valid upd =
     andthen get_state (\<lambda>c.
     let h = lru_hash (bk key) c in
     andthen (expect (lru_get_index T bk h (bk key) c)) (\<lambda>found.
     case found of
       Some index \<Rightarrow>
         andthen (expect (ll_get index (lru_order c))) (\<lambda>cur.
         let replace_existing = \<not> is_valid (snd cur) in
         andthen (if replace_existing then lru_record_miss else lru_record_hit) (\<lambda>_.
         andthen (if replace_existing
                  then andthen (await f) (\<lambda>r. case r of
                      Inl e \<Rightarrow> ret (Inl e)
                    | Inr v \<Rightarrow> andthen (lru_on_order (ll_set index (key, v))) (\<lambda>d. ret (Inr d)))
                  else ret (Inr None)) (\<lambda>r.
         case r of
           Inl e \<Rightarrow> ret (Inl e)
         | Inr old_val \<Rightarrow>
             andthen (lru_move index) (\<lambda>_.
             andthen (lru_on_order (ll_get_mut index (apsnd upd))) (\<lambda>kv.
             ret (Inr (True, \<not> replace_existing, old_val, snd kv)))))))
     | None \<Rightarrow>
         andthen lru_record_miss (\<lambda>_.
         andthen (await f) (\<lambda>r.
         case r of
           Inl e \<Rightarrow> ret (Inl e)
         | Inr v \<Rightarrow>
             andthen (lru_on_order (ll_push_front (key, v))) (\<lambda>index.
             andthen (lru_insert_index T bk h index) (\<lambda>_.
             andthen (lru_check_capacity T bk) (\<lambda>_.
             andthen (lru_on_order (ll_get_mut index (apsnd upd))) (\<lambda>kv.
             ret (Inr (False, False, None, snd kv))))))))))"

section \<open>The \<open>Cached\<close> interface\<close>

definition lru_cache_set_returning_entry :: "'t table_ops \<Rightarrow> ('k \<Rightarrow> 'q) \<Rightarrow> 'k \<Rightarrow> 'v
    \<Rightarrow> (('k, 'v, 'q, 't) lru_cache, ('k \<times> 'v) option) comp" where
  "lru_cache_set_returning_entry T bk key val =
     andthen get_state (\<lambda>c.
     let h = lru_hash (bk key) c in
     andthen (expect (lru_get_index T bk h (bk key) c)) (\<lambda>found.
     andthen (case found of
         Some index \<Rightarrow>
           andthen (lru_on_order (ll_set index (key, val))) (\<lambda>displaced.
           andthen (lru_move index) (\<lambda>_.
           ret displaced))
       | None \<Rightarrow>
           andthen (lru_on_order (ll_push_front (key, val))) (\<lambda>index.
           andthen (lru_insert_index T bk h index) (\<lambda>_.
           ret None))) (\<lambda>displaced.
     andthen (lru_check_capacity T bk) (\<lambda>_.
     ret displaced))))"

definition lru_cache_set :: "'t table_ops \<Rightarrow> ('k \<Rightarrow> 'q) \<Rightarrow> 'k \<Rightarrow> 'v
    \<Rightarrow> (('k, 'v, 'q, 't) lru_cache, 'v option) comp" where
  "lru_cache_set T bk key val =
     andthen get_state (\<lambda>c.
     let h = lru_hash (bk key) c in
     andthen (expect (lru_get_index T bk h (bk key) c)) (\<lambda>found.
     andthen (case found of
         Some index \<Rightarrow>
           andthen (lru_on_order (ll_set index (key, val))) (\<lambda>displaced.
           andthen (lru_move index) (\<lambda>_.
           ret (map_option snd displaced)))
       | None \<Rightarrow>
           andthen (lru_on_order (ll_push_front (key, val))) (\<lambda>index.
           andthen (lru_insert_index T bk h index) (\<lambda>_.
           ret None))) (\<lambda>v.
     andthen (lru_check_capacity T bk) (\<lambda>_.
     ret v))))"

definition lru_cache_clear_with_on_evict :: "'t table_ops
    \<Rightarrow> (('k, 'v, 'q, 't) lru_cache, unit) comp" where
  "lru_cache_clear_with_on_evict T =
     andthen (lru_drain_all T) (\<lambda>removed.
     andthen (cwhen (removed \<noteq> []) (lru_count_evictions (length removed))) (\<lambda>_.
     foreach removed (\<lambda>(k, v). lru_notify k v)))"

definition lru_cache_get :: "'t table_ops \<Rightarrow> ('k \<Rightarrow> 'q) \<Rightarrow> 'q
    \<Rightarrow> (('k, 'v, 'q, 't) lru_cache, 'v option) comp" where
  "lru_cache_get T bk q = lru_get_if T bk q (\<lambda>_. True)"

definition lru_cache_get_mut :: "'t table_ops \<Rightarrow> ('k \<Rightarrow> 'q) \<Rightarrow> 'q \<Rightarrow> ('v \<Rightarrow> 'v)
    \<Rightarrow> (('k, 'v, 'q, 't) lru_cache, 'v option) comp" where
  "lru_cache_get_mut T bk q upd = lru_get_mut_if T bk q (\<lambda>_. True) upd"

definition lru_cache_get_or_set_with_mut :: "'t table_ops \<Rightarrow> ('k \<Rightarrow> 'q) \<Rightarrow> 'k \<Rightarrow> 'v outcome
    \<Rightarrow> ('v \<Rightarrow> 'v) \<Rightarrow> (('k, 'v, 'q, 't) lru_cache, 'v) comp" where
  "lru_cache_get_or_set_with_mut T bk key f upd =
     andthen (lru_get_or_set_with_if T bk key f (\<lambda>_. True) upd) (\<lambda>(_, _, _, v). ret v)"

definition lru_cache_try_get_or_set_with_mut :: "'t table_ops \<Rightarrow> ('k \<Rightarrow> 'q) \<Rightarrow> 'k
    \<Rightarrow> ('e + 'v) outcome \<Rightarrow> ('v \<Rightarrow> 'v) \<Rightarrow> (('k, 'v, 'q, 't) lru_cache, 'e + 'v) comp" where
  "lru_cache_try_get_or_set_with_mut T bk key f upd =
     andthen (lru_try_get_or_set_with_if T bk key f (\<lambda>_. True) upd) (\<lambda>r. case r of
       Inl e \<Rightarrow> ret (Inl e) | Inr (_, _, _, v) \<Rightarrow> ret (Inr v))"

definition lru_cache_remove_entry :: "'t table_ops \<Rightarrow> ('k \<Rightarrow> 'q) \<Rightarrow> 'q
    \<Rightarrow> (('k, 'v, 'q, 't) lru_cache, ('k \<times> 'v) option) comp" where
  "lru_cache_remove_entry T bk q =
     andthen (lru_pop_raw T bk q) (\<lambda>removed.
     andthen (case removed of
         None \<Rightarrow> ret ()
       | Some (k, v) \<Rightarrow> andthen (lru_count_evictions 1) (\<lambda>_. lru_notify k v)) (\<lambda>_.
     ret removed))"

definition lru_cache_remove :: "'t table_ops \<Rightarrow> ('k \<Rightarrow> 'q) \<Rightarrow> 'q
    \<Rightarrow> (('k, 'v, 'q, 't) lru_cache, 'v option) comp" where
  "lru_cache_remove T bk q =
     andthen (lru_cache_remove_entry T bk q) (\<lambda>removed. ret (map_option snd removed))"

definition lru_cache_clear :: "'t table_ops \<Rightarrow> (('k, 'v, 'q, 't) lru_cache, unit) comp" where
  "lru_cache_clear T =
     modify (\<lambda>c. c\<lparr>lru_store := ht_clear T (lru_store c), lru_order := ll_clear (lru_order c)\<rparr>)"

definition lru_cache_reset_metrics :: "(('k, 'v, 'q, 't) lru_cache, unit) comp" where
  "lru_cache_reset_metrics = modify (\<lambda>c. c\<lparr>lru_misses := 0, lru_hits := 0, lru_evictions := 0\<rparr>)"

definition lru_cache_reset :: "'t table_ops \<Rightarrow> (usize \<Rightarrow> bool) \<Rightarrow> (('k, 'v, 'q, 't) lru_cache, unit) comp" where
  "lru_cache_reset T list_alloc =
     andthen get_state (\<lambda>c.
     andthen (case ll_try_with_capacity list_alloc (ht_len T (lru_store c)) of
         Inr ord \<Rightarrow> ret ord
       | Inl _ \<Rightarrow> expect (ll_with_capacity list_alloc 0)) (\<lambda>new_order.
     andthen (modify (\<lambda>c. c\<lparr>lru_store := ht_new T, lru_order := new_order\<rparr>)) (\<lambda>_.
     lru_cache_reset_metrics)))"

definition lru_cache_size :: "'t table_ops \<Rightarrow> ('k, 'v, 'q, 't) lru_cache \<Rightarrow> usize" where
  "lru_cache_size T c = ht_len T (lru_store c)"

definition lru_cache_peek :: "'t table_ops \<Rightarrow> ('k \<Rightarrow> 'q) \<Rightarrow> 'q
    \<Rightarrow> (('k, 'v, 'q, 't) lru_cache, 'v option) comp" where
  "lru_cache_peek T bk q =
     andthen get_state (\<lambda>c.
     andthen (expect (lru_get_index T bk (lru_hash q c) q c)) (\<lambda>found.
     case found of
       Some index \<Rightarrow> andthen (expect (ll_get index (lru_order c))) (\<lambda>kv. ret (Some (snd kv)))
     | None \<Rightarrow> ret None))"

definition lru_cache_contains :: "'t table_ops \<Rightarrow> ('k \<Rightarrow> 'q) \<Rightarrow> 'q
    \<Rightarrow> (('k, 'v, 'q, 't) lru_cache, bool) comp" where
  "lru_cache_contains T bk q = andthen (lru_cache_peek T bk q) (\<lambda>v. ret (v \<noteq> None))"

definition lru_async_cache_get_or_set_with_mut :: "'t table_ops \<Rightarrow> ('k \<Rightarrow> 'q) \<Rightarrow> 'k \<Rightarrow> 'v outcome
    \<Rightarrow> ('v \<Rightarrow> 'v) \<Rightarrow> (('k, 'v, 'q, 't) lru_cache, 'v) comp" where
  "lru_async_cache_get_or_set_with_mut T bk key f upd =
     andthen (lru_get_or_set_with_if_async T bk key f (\<lambda>_. True) upd) (\<lambda>(_, _, _, v). ret v)"

definition lru_async_cache_try_get_or_set_with_mut :: "'t table_ops \<Rightarrow> ('k \<Rightarrow> 'q) \<Rightarrow> 'k
    \<Rightarrow> ('e + 'v) outcome \<Rightarrow> ('v \<Rightarrow> 'v) \<Rightarrow> (('k, 'v, 'q, 't) lru_cache, 'e + 'v) comp" where
  "lru_async_cache_try_get_or_set_with_mut T bk key f upd =
     andthen (lru_try_get_or_set_with_if_async T bk key f (\<lambda>_. True) upd) (\<lambda>r. case r of
       Inl e \<Rightarrow> ret (Inl e) | Inr (_, _, _, v) \<Rightarrow> ret (Inr v))"

text \<open>The getters of the metrics, and the switch of the stores that count hits and misses themselves.\<close>

definition lru_disable_hit_miss_tracking :: "('k, 'v, 'q, 't) lru_cache \<Rightarrow> ('k, 'v, 'q, 't) lru_cache" where
  "lru_disable_hit_miss_tracking c = c\<lparr>lru_track_hit_miss := False\<rparr>"

definition lru_cache_hits :: "('k, 'v, 'q, 't) lru_cache \<Rightarrow> u64 option" where
  "lru_cache_hits c = Some (lru_hits c)"

definition lru_cache_misses :: "('k, 'v, 'q, 't) lru_cache \<Rightarrow> u64 option" where
  "lru_cache_misses c = Some (lru_misses c)"

definition lru_cache_capacity :: "('k, 'v, 'q, 't) lru_cache \<Rightarrow> usize option" where
  "lru_cache_capacity c = Some (lru_capacity c)"

definition lru_cache_evictions :: "('k, 'v, 'q, 't) lru_cache \<Rightarrow> u64 option" where
  "lru_cache_evictions c = Some (lru_evictions c)"

section \<open>Order\<close>

text \<open>The order methods walk the recency list (\<open>None\<close> is a panic of the walk).\<close>

definition lru_iter_order_raw :: "('k, 'v, 'q, 't) lru_cache \<Rightarrow> ('k \<times> 'v) list option" where
  "lru_iter_order_raw c = ll_iter (lru_order c)"

definition lru_iter_order :: "('k, 'v, 'q, 't) lru_cache \<Rightarrow> ('k \<times> ('v, unit) cache_value) list option" where
  "lru_iter_order c = map_option (map (\<lambda>(k, v). (k, cache_value_new v ()))) (ll_iter (lru_order c))"

definition lru_key_order :: "('k, 'v, 'q, 't) lru_cache \<Rightarrow> 'k list option" where
  "lru_key_order c = map_option (map (\<lambda>(k, v). k)) (ll_iter (lru_order c))"

definition lru_value_order :: "('k, 'v, 'q, 't) lru_cache \<Rightarrow> ('v, unit) cache_value list option" where
  "lru_value_order c = map_option (map (\<lambda>(k, v). cache_value_new v ())) (ll_iter (lru_order c))"

text \<open>\<open>PartialEq\<close>: the same number of entries, and every entry of the one is in the other.\<close>

definition lru_eq :: "'t table_ops \<Rightarrow> ('k \<Rightarrow> 'q) \<Rightarrow> ('k, 'v, 'q, 't) lru_cache
    \<Rightarrow> ('k, 'v, 'q, 't) lru_cache \<Rightarrow> bool option" where
  "lru_eq T bk c d =
     (if ht_len T (lru_store c) = ht_len T (lru_store d)
      then do {
        kvs \<leftarrow> ll_iter (lru_order c);
        bad \<leftarrow> filter_closure (\<lambda>(k, v). do {
            found \<leftarrow> lru_get_index T bk (lru_hash (bk k) d) (bk k) d;
            (case found of
               None \<Rightarrow> Some True
             | Some i \<Rightarrow> do { kv \<leftarrow> ll_get i (lru_order d); Some (v \<noteq> snd kv) })
          }) kvs;
        Some (bad = [])
      }
      else Some False)"

end
