(* ===== verification/Entry_List.thy ===== *)
theory Entry_List
  imports Prelude
begin

text \<open>
  Lists of entries. \<open>bk\<close> is the \<open>Borrow\<close> of the key type: it maps a key to the form that lookups use,
  and two keys are equal (\<open>==\<close>) when their borrowed forms are. \<open>a_find\<close> and \<open>a_without\<close> look up and
  remove by borrowed key, and \<open>a_wf\<close> says that no two entries have equal keys. The LRU specification
  and the hash maps of the other stores are built on them.
\<close>

definition a_find :: "('k \<Rightarrow> 'q) \<Rightarrow> 'q \<Rightarrow> ('k \<times> 'v) list \<Rightarrow> ('k \<times> 'v) option" where
  "a_find bk q xs = find (\<lambda>kv. bk (fst kv) = q) xs"

definition a_without :: "('k \<Rightarrow> 'q) \<Rightarrow> 'q \<Rightarrow> ('k \<times> 'v) list \<Rightarrow> ('k \<times> 'v) list" where
  "a_without bk q xs = filter (\<lambda>kv. bk (fst kv) \<noteq> q) xs"

section \<open>Distinct keys\<close>

definition a_wf :: "('k \<Rightarrow> 'q) \<Rightarrow> ('k \<times> 'v) list \<Rightarrow> bool" where
  "a_wf bk xs \<longleftrightarrow> distinct (map (\<lambda>kv. bk (fst kv)) xs)"

lemma a_wf_Nil [simp]: "a_wf bk []"
  by (simp add: a_wf_def)

lemma a_wf_Cons: "a_wf bk (kv # xs) \<longleftrightarrow> (\<forall>x\<in>set xs. bk (fst x) \<noteq> bk (fst kv)) \<and> a_wf bk xs"
  unfolding a_wf_def by (simp only: list.map distinct.simps set_map image_iff) metis

lemma a_wf_filter [simp]: "a_wf bk xs \<Longrightarrow> a_wf bk (filter P xs)"
  by (simp add: a_wf_def distinct_map_filter)

lemma a_wf_without [simp]: "a_wf bk xs \<Longrightarrow> a_wf bk (a_without bk q xs)"
  by (simp add: a_without_def)

lemma a_wf_take [simp]: "a_wf bk xs \<Longrightarrow> a_wf bk (take n xs)"
  unfolding a_wf_def by (metis distinct_take take_map)

lemma a_wf_front [simp]: "a_wf bk xs \<Longrightarrow> bk k = q \<Longrightarrow> a_wf bk ((k, v) # a_without bk q xs)"
  by (auto simp: a_wf_Cons a_without_def)

lemma a_find_Some_iff:
  "a_wf bk xs \<Longrightarrow> a_find bk q xs = Some kv \<longleftrightarrow> kv \<in> set xs \<and> bk (fst kv) = q"
  by (auto simp: a_find_def a_wf_def dest: find_SomeD intro: find_distinct_map)

lemma a_find_SomeD: "a_find bk q xs = Some kv \<Longrightarrow> kv \<in> set xs \<and> bk (fst kv) = q"
  by (auto simp: a_find_def dest: find_SomeD)

lemma a_find_None_iff: "a_find bk q xs = None \<longleftrightarrow> (\<forall>kv\<in>set xs. bk (fst kv) \<noteq> q)"
  by (simp add: a_find_def find_eq_None_iff)

lemma a_find_Nil [simp]: "a_find bk q [] = None"
  by (simp add: a_find_def)

lemma a_find_Cons: "a_find bk q (kv # xs) = (if bk (fst kv) = q then Some kv else a_find bk q xs)"
  by (simp add: a_find_def)

lemma a_find_without: "a_find bk q (a_without bk r xs) = (if q = r then None else a_find bk q xs)"
  by (induction xs) (auto simp: a_find_def a_without_def)

lemma a_find_take: "a_find bk q (take m xs) = None \<or> a_find bk q (take m xs) = a_find bk q xs"
  by (induction xs arbitrary: m) (auto simp: a_find_Cons take_Cons split: nat.splits)

lemma a_find_filter:
  "a_wf bk xs \<Longrightarrow> a_find bk q (filter P xs) =
     (case a_find bk q xs of Some kv \<Rightarrow> if P kv then Some kv else None | None \<Rightarrow> None)"
proof (induction xs)
  case (Cons kv xs)
  then show ?case
    by (auto simp: a_find_Cons a_wf_Cons a_find_None_iff split: option.splits dest!: a_find_SomeD)
qed simp

lemma card_doomed_keys:
  assumes "a_wf bk xs"
  shows "card {q. \<exists>kv. a_find bk q xs = Some kv \<and> P kv} = length (filter P xs)"
proof -
  have "{q. \<exists>kv. a_find bk q xs = Some kv \<and> P kv} = (\<lambda>kv. bk (fst kv)) ` set (filter P xs)"
    unfolding a_find_Some_iff [OF assms] by (auto simp: image_iff) blast+
  moreover have "distinct (map (\<lambda>kv. bk (fst kv)) (filter P xs))"
    using a_wf_filter [OF assms, of P] by (simp add: a_wf_def)
  ultimately show ?thesis by (metis distinct_card length_map set_map)
qed

lemma a_without_absent: "a_find bk q xs = None \<Longrightarrow> a_without bk q xs = xs"
  by (auto simp: a_find_None_iff a_without_def)

lemma a_without_Nil [simp]: "a_without bk q [] = []"
  by (simp add: a_without_def)

lemma set_a_without: "set (a_without bk q xs) = {kv \<in> set xs. bk (fst kv) \<noteq> q}"
  by (auto simp: a_without_def)

lemma length_a_without:
  assumes "a_wf bk xs"
  shows "length (a_without bk q xs) = length xs - (if a_find bk q xs = None then 0 else 1)"
proof (cases "a_find bk q xs")
  case None
  then show ?thesis by (simp add: a_without_absent)
next
  case (Some kv)
  then have kv: "kv \<in> set xs" "bk (fst kv) = q" using a_find_SomeD [of bk q xs kv] by simp_all
  then have "a_without bk q xs = remove1 kv xs"
    using assms remove1_filter_distinct [of "\<lambda>kv. bk (fst kv)" xs kv]
    by (simp add: a_wf_def a_without_def)
  then show ?thesis using kv(1) Some by (simp add: length_remove1)
qed

lemma a_without_last:
  assumes "a_wf bk (xs @ [kv])"
  shows "a_without bk (bk (fst kv)) (xs @ [kv]) = xs"
  using assms by (force simp: a_wf_def a_without_def filter_id_conv image_iff)

section \<open>Reporting a list of entries\<close>

text \<open>
  The entries of a sweep that are processed: all of them, or, when the callback panics, those up to
  and including the one it panics on.
\<close>

fun processed :: "('k, 'v) callback option \<Rightarrow> ('k \<times> 'v) list \<Rightarrow> ('k \<times> 'v) list" where
  "processed cb [] = []"
| "processed cb (kv # kvs) = kv # (if cb_ok cb (fst kv) (snd kv) then processed cb kvs else [])"

definition all_ok :: "('k, 'v) callback option \<Rightarrow> ('k \<times> 'v) list \<Rightarrow> bool" where
  "all_ok cb kvs \<longleftrightarrow> (\<forall>kv \<in> set kvs. cb_ok cb (fst kv) (snd kv))"

lemma all_ok_simps [simp]:
  "all_ok cb []" "all_ok cb (kv # kvs) \<longleftrightarrow> cb_ok cb (fst kv) (snd kv) \<and> all_ok cb kvs"
  "all_ok None kvs" "quiet cb \<Longrightarrow> all_ok cb kvs"
  by (auto simp: all_ok_def)

lemma processed_all: "all_ok cb kvs \<Longrightarrow> processed cb kvs = kvs"
  by (induction kvs) auto

lemma processed_prefix: "\<exists>rest. kvs = processed cb kvs @ rest"
  by (induction kvs) auto

lemma length_processed: "length (processed cb kvs) \<le> length kvs"
  by (induction kvs) auto

lemma processed_eq_take: "processed cb kvs = take (length (processed cb kvs)) kvs"
  by (induction kvs) auto

section \<open>Removing several entries\<close>

definition a_without_all :: "('k \<Rightarrow> 'q) \<Rightarrow> ('k \<times> 'v) list \<Rightarrow> ('k \<times> 'v) list \<Rightarrow> ('k \<times> 'v) list" where
  "a_without_all bk ds xs = filter (\<lambda>kv. bk (fst kv) \<notin> (\<lambda>d. bk (fst d)) ` set ds) xs"

lemma a_without_all_Nil [simp]: "a_without_all bk [] xs = xs"
  by (simp add: a_without_all_def)

lemma a_without_all_Cons: "a_without_all bk (d # ds) xs = a_without_all bk ds (a_without bk (bk (fst d)) xs)"
  by (auto simp: a_without_all_def a_without_def intro!: filter_cong)

lemma a_without_all_append:
  assumes "a_wf bk (ys @ zs)" "set ds = set zs"
  shows "a_without_all bk ds (ys @ zs) = ys"
proof -
  have "filter (\<lambda>kv. bk (fst kv) \<notin> (\<lambda>d. bk (fst d)) ` set zs) zs = []"
    by (auto simp: filter_empty_conv)
  moreover have "filter (\<lambda>kv. bk (fst kv) \<notin> (\<lambda>d. bk (fst d)) ` set zs) ys = ys"
    using assms(1) by (auto simp: filter_id_conv a_wf_def)
  ultimately show ?thesis by (simp add: a_without_all_def assms(2))
qed

lemma a_without_all_filter:
  assumes "a_wf bk xs"
  shows "a_without_all bk (filter (\<lambda>kv. \<not> P kv) xs) xs = filter P xs"
  unfolding a_without_all_def
proof (rule filter_cong [OF refl])
  fix kv assume kv: "kv \<in> set xs"
  have "x = kv" if "x \<in> set xs" "bk (fst x) = bk (fst kv)" for x
    using assms kv that by (auto simp: a_wf_def distinct_map dest: inj_onD)
  then show "bk (fst kv) \<notin> (\<lambda>d. bk (fst d)) ` set (filter (\<lambda>kv. \<not> P kv) xs) \<longleftrightarrow> P kv"
    using kv by force
qed

end
