(* ===== verification/Lru_Spec.thy ===== *)
theory Lru_Spec
  imports Store_Common Entry_List
begin

text \<open>
  The abstract specification of an LRU cache: a list of entries, most recently used first, with a
  capacity, counters and a callback. \<open>Lru_Refine\<close> shows that the hash table and the cell vector of
  \<open>LruCache\<close> implement exactly these operations, panics of user code included; the stores that wrap
  an \<open>LruCache\<close> are reasoned about over this specification.
\<close>

record ('k, 'v) alru =
  al_items :: "('k \<times> 'v) list"
  al_capacity :: usize
  al_hits :: u64
  al_misses :: u64
  al_evictions :: u64
  al_on_evict :: "('k, 'v) callback option"
  al_track_hit_miss :: bool
  al_calls :: "('k, 'v) trace"

definition al_set_items :: "('k \<times> 'v) list \<Rightarrow> (('k, 'v) alru, unit) comp" where
  "al_set_items xs = modify (\<lambda>s. s\<lparr>al_items := xs\<rparr>)"

definition al_record_hit :: "(('k, 'v) alru, unit) comp" where
  "al_record_hit = modify (\<lambda>s. if al_track_hit_miss s then s\<lparr>al_hits := al_hits s + 1\<rparr> else s)"

definition al_record_miss :: "(('k, 'v) alru, unit) comp" where
  "al_record_miss = modify (\<lambda>s. if al_track_hit_miss s then s\<lparr>al_misses := al_misses s + 1\<rparr> else s)"

definition al_count_evictions :: "nat \<Rightarrow> (('k, 'v) alru, unit) comp" where
  "al_count_evictions n = modify (\<lambda>s. s\<lparr>al_evictions := al_evictions s + of_nat n\<rparr>)"

definition al_notify :: "'k \<Rightarrow> 'v \<Rightarrow> (('k, 'v) alru, unit) comp" where
  "al_notify k v s = notify al_calls_update (al_on_evict s) k v s"

text \<open>Dropping one entry, counting it and telling the callback, in this order.\<close>

definition al_drop_entry :: "('k \<Rightarrow> 'q) \<Rightarrow> 'k \<times> 'v \<Rightarrow> (('k, 'v) alru, unit) comp" where
  "al_drop_entry bk kv =
     andthen (modify (\<lambda>s. s\<lparr>al_items := a_without bk (bk (fst kv)) (al_items s)\<rparr>)) (\<lambda>_.
     andthen (al_count_evictions 1) (\<lambda>_.
     al_notify (fst kv) (snd kv)))"

text \<open>Evicting from the back until the capacity holds.\<close>

definition al_check_capacity :: "('k \<Rightarrow> 'q) \<Rightarrow> (('k, 'v) alru, unit) comp" where
  "al_check_capacity bk s =
     foreach (rev (drop (al_capacity s) (al_items s))) (al_drop_entry bk) s"

definition al_set_max_size :: "('k \<Rightarrow> 'q) \<Rightarrow> usize \<Rightarrow> (('k, 'v) alru, usize option) comp" where
  "al_set_max_size bk max_size =
     (if max_size = 0 then panic
      else andthen get_state (\<lambda>s.
        andthen (modify (\<lambda>s. s\<lparr>al_capacity := max_size\<rparr>)) (\<lambda>_.
        andthen (al_check_capacity bk) (\<lambda>_.
        ret (Some (al_capacity s))))))"

definition al_get_mut_if :: "('k \<Rightarrow> 'q) \<Rightarrow> 'q \<Rightarrow> ('v \<Rightarrow> bool) \<Rightarrow> ('v \<Rightarrow> 'v)
    \<Rightarrow> (('k, 'v) alru, 'v option) comp" where
  "al_get_mut_if bk q is_valid upd =
     andthen get_state (\<lambda>s. case a_find bk q (al_items s) of
       Some (k, v) \<Rightarrow>
         if is_valid v
         then andthen (al_set_items ((k, upd v) # a_without bk q (al_items s))) (\<lambda>_.
              andthen al_record_hit (\<lambda>_. ret (Some v)))
         else andthen al_record_miss (\<lambda>_. ret None)
     | None \<Rightarrow> andthen al_record_miss (\<lambda>_. ret None))"

definition al_try_get_or_set_with_if :: "('k \<Rightarrow> 'q) \<Rightarrow> 'k \<Rightarrow> ('e + 'v) outcome \<Rightarrow> ('v \<Rightarrow> bool)
    \<Rightarrow> ('v \<Rightarrow> 'v) \<Rightarrow> (('k, 'v) alru, 'e + (bool \<times> bool \<times> ('k \<times> 'v) option \<times> 'v)) comp" where
  "al_try_get_or_set_with_if bk key f is_valid upd =
     andthen get_state (\<lambda>s. case a_find bk (bk key) (al_items s) of
       Some (k, v) \<Rightarrow>
         if is_valid v
         then andthen al_record_hit (\<lambda>_.
              andthen (al_set_items ((k, upd v) # a_without bk (bk key) (al_items s))) (\<lambda>_.
              ret (Inr (True, True, None, v))))
         else andthen al_record_miss (\<lambda>_.
              andthen (run_closure f) (\<lambda>r. case r of
                Inl e \<Rightarrow> ret (Inl e)
              | Inr w \<Rightarrow>
                  andthen (al_set_items ((key, upd w) # a_without bk (bk key) (al_items s))) (\<lambda>_.
                  ret (Inr (True, False, Some (k, v), w)))))
     | None \<Rightarrow>
         andthen al_record_miss (\<lambda>_.
         andthen (run_closure f) (\<lambda>r. case r of
           Inl e \<Rightarrow> ret (Inl e)
         | Inr w \<Rightarrow>
             andthen (al_set_items ((key, w) # al_items s)) (\<lambda>_.
             andthen (al_check_capacity bk) (\<lambda>_.
             andthen (modify (\<lambda>s. s\<lparr>al_items := (key, upd w) # tl (al_items s)\<rparr>)) (\<lambda>_.
             ret (Inr (False, False, None, w))))))))"

definition al_get_or_set_with_if :: "('k \<Rightarrow> 'q) \<Rightarrow> 'k \<Rightarrow> 'v outcome \<Rightarrow> ('v \<Rightarrow> bool)
    \<Rightarrow> ('v \<Rightarrow> 'v) \<Rightarrow> (('k, 'v) alru, bool \<times> bool \<times> ('k \<times> 'v) option \<times> 'v) comp" where
  "al_get_or_set_with_if bk key f is_valid upd =
     andthen (al_try_get_or_set_with_if bk key (map_outcome Inr f) is_valid upd)
       (\<lambda>r. case r of Inl (_ :: unit) \<Rightarrow> panic | Inr x \<Rightarrow> ret x)"

definition al_set :: "('k \<Rightarrow> 'q) \<Rightarrow> 'k \<Rightarrow> 'v \<Rightarrow> (('k, 'v) alru, ('k \<times> 'v) option) comp" where
  "al_set bk key val =
     andthen get_state (\<lambda>s.
     andthen (al_set_items ((key, val) # a_without bk (bk key) (al_items s))) (\<lambda>_.
     andthen (al_check_capacity bk) (\<lambda>_.
     ret (a_find bk (bk key) (al_items s)))))"

definition al_pop :: "('k \<Rightarrow> 'q) \<Rightarrow> 'q \<Rightarrow> (('k, 'v) alru, ('k \<times> 'v) option) comp" where
  "al_pop bk q =
     andthen get_state (\<lambda>s.
     andthen (al_set_items (a_without bk q (al_items s))) (\<lambda>_.
     ret (a_find bk q (al_items s))))"

definition al_remove_entry :: "('k \<Rightarrow> 'q) \<Rightarrow> 'q \<Rightarrow> (('k, 'v) alru, ('k \<times> 'v) option) comp" where
  "al_remove_entry bk q =
     andthen (al_pop bk q) (\<lambda>removed.
     andthen (case removed of
         None \<Rightarrow> ret ()
       | Some (k, v) \<Rightarrow> andthen (al_count_evictions 1) (\<lambda>_. al_notify k v)) (\<lambda>_.
     ret removed))"

definition al_doomed :: "('k, 'v) predicate \<Rightarrow> ('k \<times> 'v) list \<Rightarrow> ('k \<times> 'v) list option" where
  "al_doomed keep xs = filter_closure (\<lambda>kv. map_option Not (keep (fst kv) (snd kv))) xs"

definition al_retain :: "('k \<Rightarrow> 'q) \<Rightarrow> ('k, 'v) predicate \<Rightarrow> (('k, 'v) alru, usize) comp" where
  "al_retain bk keep =
     andthen get_state (\<lambda>s.
     andthen (expect (al_doomed keep (al_items s))) (\<lambda>doomed.
     andthen (foreach doomed (al_drop_entry bk)) (\<lambda>_.
     ret (length doomed))))"

definition al_clear_with_on_evict :: "(('k, 'v) alru, unit) comp" where
  "al_clear_with_on_evict =
     andthen get_state (\<lambda>s.
     andthen (al_set_items []) (\<lambda>_.
     andthen (al_count_evictions (length (al_items s))) (\<lambda>_.
     foreach (al_items s) (\<lambda>(k, v). al_notify k v))))"

definition al_reset_metrics :: "(('k, 'v) alru, unit) comp" where
  "al_reset_metrics = modify (\<lambda>s. s\<lparr>al_hits := 0, al_misses := 0, al_evictions := 0\<rparr>)"

section \<open>Dropping entries one by one\<close>

lemma al_notify_apply: "al_notify k v s =
   (if cb_ok (al_on_evict s) k v then Returns () else Panics,
    s\<lparr>al_calls := al_calls s @ cb_calls (al_on_evict s) [(k, v)]\<rparr>)"
  by (simp add: al_notify_def notify_apply)

lemma al_drop_entry_apply: "al_drop_entry bk kv s =
   (if cb_ok (al_on_evict s) (fst kv) (snd kv) then Returns () else Panics,
    s\<lparr>al_items := a_without bk (bk (fst kv)) (al_items s), al_evictions := al_evictions s + 1,
      al_calls := al_calls s @ cb_calls (al_on_evict s) [kv]\<rparr>)"
  by (simp add: al_drop_entry_def al_count_evictions_def al_notify_apply comp_simps)

lemma al_drop_entries:
  "foreach ds (al_drop_entry bk) s =
     (if all_ok (al_on_evict s) ds then Returns () else Panics,
      s\<lparr>al_items := a_without_all bk (processed (al_on_evict s) ds) (al_items s),
        al_evictions := al_evictions s + of_nat (length (processed (al_on_evict s) ds)),
        al_calls := al_calls s @ cb_calls (al_on_evict s) (processed (al_on_evict s) ds)\<rparr>)"
proof (induction ds arbitrary: s)
  case Nil
  then show ?case by (simp add: ret_def)
next
  case (Cons kv ds)
  show ?case
  proof (cases "cb_ok (al_on_evict s) (fst kv) (snd kv)")
    case True
    then show ?thesis
      using Cons.IH [of "snd (al_drop_entry bk kv s)"]
      by (cases "al_on_evict s")
        (simp_all add: andthen_apply al_drop_entry_apply a_without_all_Cons add.assoc)
  next
    case False
    then show ?thesis by (simp add: andthen_apply al_drop_entry_apply a_without_all_Cons)
  qed
qed

text \<open>
  The closed form of an eviction to capacity: \<open>n\<close> entries at the back are gone, counted, and the
  callback has been called on each of them once, from the least recently used on. When the callback
  returns, the entries left are exactly the first \<open>capacity\<close> ones.
\<close>

definition victims :: "('k, 'v) alru \<Rightarrow> ('k \<times> 'v) list" where
  "victims s = processed (al_on_evict s) (rev (drop (al_capacity s) (al_items s)))"

lemma length_victims: "length (victims s) \<le> length (al_items s) - al_capacity s"
  using length_processed [of "al_on_evict s" "rev (drop (al_capacity s) (al_items s))"]
  by (simp add: victims_def)

lemma victims_take:
  "victims s = rev (drop (length (al_items s) - length (victims s)) (al_items s))"
proof -
  let ?xs = "al_items s"
  have "victims s = take (length (victims s)) (rev (drop (al_capacity s) ?xs))"
    unfolding victims_def by (rule processed_eq_take)
  also have "\<dots> = rev (drop (length ?xs - length (victims s)) ?xs)"
    using length_victims [of s]
    by (cases "al_capacity s \<le> length ?xs") (simp_all add: take_rev add.commute)
  finally show ?thesis .
qed

lemma al_check_capacity_closed:
  assumes "a_wf bk (al_items s)"
  shows "al_check_capacity bk s =
    (if all_ok (al_on_evict s) (drop (al_capacity s) (al_items s)) then Returns () else Panics,
     s\<lparr>al_items := take (length (al_items s) - length (victims s)) (al_items s),
       al_evictions := al_evictions s + of_nat (length (victims s)),
       al_calls := al_calls s @ cb_calls (al_on_evict s) (victims s)\<rparr>)"
proof -
  let ?xs = "al_items s" and ?n = "length (al_items s) - length (victims s)"
  have "set (victims s) = set (drop ?n ?xs)" by (subst victims_take) simp
  then have "a_without_all bk (victims s) (take ?n ?xs @ drop ?n ?xs) = take ?n ?xs"
    using assms by (intro a_without_all_append) simp_all
  then show ?thesis
    by (simp add: al_check_capacity_def al_drop_entries all_ok_def flip: victims_def)
qed

lemma al_check_capacity_fits:
  assumes "al_check_capacity bk s = (Returns (), t)" "a_wf bk (al_items s)"
  shows "length (al_items t) \<le> al_capacity t"
proof -
  have ok: "all_ok (al_on_evict s) (rev (drop (al_capacity s) (al_items s)))"
    using assms by (auto simp: al_check_capacity_closed all_ok_def split: if_splits)
  then have "length (victims s) = length (al_items s) - al_capacity s"
    by (simp add: victims_def processed_all)
  then show ?thesis using assms by (auto simp: al_check_capacity_closed)
qed

lemma al_count_evictions_cwhen:
  "cwhen (xs \<noteq> []) (al_count_evictions (length xs)) = al_count_evictions (length xs)"
  by (cases xs) (simp_all add: cwhen_def al_count_evictions_def modify_def ret_def fun_eq_iff)

lemma al_clear_with_on_evict_drain:
  "al_clear_with_on_evict = andthen
     (andthen get_state (\<lambda>s. andthen (al_set_items []) (\<lambda>_. ret (al_items s)))) (\<lambda>removed.
     andthen (cwhen (removed \<noteq> []) (al_count_evictions (length removed))) (\<lambda>_.
     foreach removed (\<lambda>(k, v). al_notify k v)))"
  by (simp add: al_clear_with_on_evict_def andthen_assoc al_count_evictions_cwhen)

end
