(* ===== verification/Lru_Refine.thy ===== *)
theory Lru_Refine
  imports Lru_Cache Lru_Spec
begin

text \<open>
  \<open>LruCache\<close> implements \<open>Lru_Spec\<close>. The representation invariant \<open>lru_wf\<close> says that the hash table
  holds exactly the occupied slots of the recency list, each under the hash of its key, and that no
  two entries have equal keys. Every operation keeps it, never reaches an internal panic
  (\<open>expect("invalid index")\<close>, \<open>unreachable!\<close>), ends within the fuel of its loops, and does on the
  list of entries what the specification does.
\<close>

definition lru_slots :: "('t \<Rightarrow> (u64 \<times> usize) multiset) \<Rightarrow> ('k \<Rightarrow> 'q)
    \<Rightarrow> ('k, 'v, 'q, 't) lru_cache \<Rightarrow> usize list \<Rightarrow> bool" where
  "lru_slots entries bk c is \<longleftrightarrow>
     (\<exists>free. ll_rep (lru_order c) is free) \<and>
     distinct (map (\<lambda>i. bk (fst (ll_at (lru_order c) i))) is) \<and>
     entries (lru_store c) =
       mset (map (\<lambda>i. (lru_hash_builder c (bk (fst (ll_at (lru_order c) i))), i)) is)"

lemma lru_slotsI:
  "\<lbrakk>ll_rep (lru_order c) is free; distinct (map (\<lambda>i. bk (fst (ll_at (lru_order c) i))) is);
    entries (lru_store c) =
      mset (map (\<lambda>i. (lru_hash_builder c (bk (fst (ll_at (lru_order c) i))), i)) is)\<rbrakk>
   \<Longrightarrow> lru_slots entries bk c is"
  by (auto simp: lru_slots_def)

definition lru_wf :: "('t \<Rightarrow> (u64 \<times> usize) multiset) \<Rightarrow> ('k \<Rightarrow> 'q)
    \<Rightarrow> ('k, 'v, 'q, 't) lru_cache \<Rightarrow> bool" where
  "lru_wf entries bk c \<longleftrightarrow> (\<exists>is. lru_slots entries bk c is) \<and> 0 < lru_capacity c"

definition lru_items :: "('k, 'v, 'q, 't) lru_cache \<Rightarrow> ('k \<times> 'v) list" where
  "lru_items c = (case ll_iter (lru_order c) of None \<Rightarrow> [] | Some kvs \<Rightarrow> kvs)"

definition lru_abs :: "('k, 'v, 'q, 't) lru_cache \<Rightarrow> ('k, 'v) alru" where
  "lru_abs c = \<lparr>al_items = lru_items c, al_capacity = lru_capacity c, al_hits = lru_hits c,
     al_misses = lru_misses c, al_evictions = lru_evictions c, al_on_evict = lru_on_evict c,
     al_track_hit_miss = lru_track_hit_miss c, al_calls = lru_calls c\<rparr>"

lemma lru_abs_simps [simp]:
  "al_items (lru_abs c) = lru_items c" "al_capacity (lru_abs c) = lru_capacity c"
  "al_hits (lru_abs c) = lru_hits c" "al_misses (lru_abs c) = lru_misses c"
  "al_evictions (lru_abs c) = lru_evictions c" "al_on_evict (lru_abs c) = lru_on_evict c"
  "al_track_hit_miss (lru_abs c) = lru_track_hit_miss c" "al_calls (lru_abs c) = lru_calls c"
  by (simp_all add: lru_abs_def)

lemma lru_slots_items:
  "lru_slots entries bk c is \<Longrightarrow> lru_items c = map (ll_at (lru_order c)) is"
  by (auto simp: lru_slots_def lru_items_def ll_iter_rep)

lemma lru_slots_a_wf: "lru_slots entries bk c is \<Longrightarrow> a_wf bk (lru_items c)"
  by (simp add: lru_slots_items a_wf_def lru_slots_def o_def)

lemma lru_slots_find:
  "lru_slots entries bk c is \<Longrightarrow> a_find bk q (lru_items c) =
     map_option (ll_at (lru_order c)) (find (\<lambda>i. bk (fst (ll_at (lru_order c) i)) = q) is)"
  by (simp add: lru_slots_items a_find_def find_map o_def)

lemma lru_slots_remove1:
  assumes "lru_slots entries bk c is" "i \<in> set is" "bk (fst (ll_at (lru_order c) i)) = q"
  shows "map (ll_at (lru_order c)) (remove1 i is) = a_without bk q (lru_items c)"
proof -
  have "remove1 i is = filter (\<lambda>j. bk (fst (ll_at (lru_order c) j)) \<noteq> q) is"
    using remove1_filter_distinct [of "\<lambda>j. bk (fst (ll_at (lru_order c) j))" "is" i] assms
    by (simp add: lru_slots_def)
  then show ?thesis
    by (simp add: lru_slots_items [OF assms(1)] a_without_def filter_map o_def)
qed

text \<open>Fields that neither the table nor the list depends on.\<close>

lemma lru_slots_frame [simp]:
  "lru_slots entries bk (c\<lparr>lru_hits := h\<rparr>) is = lru_slots entries bk c is"
  "lru_slots entries bk (c\<lparr>lru_misses := h\<rparr>) is = lru_slots entries bk c is"
  "lru_slots entries bk (c\<lparr>lru_evictions := h\<rparr>) is = lru_slots entries bk c is"
  "lru_slots entries bk (c\<lparr>lru_capacity := n\<rparr>) is = lru_slots entries bk c is"
  "lru_slots entries bk (c\<lparr>lru_calls := tr\<rparr>) is = lru_slots entries bk c is"
  by (simp_all add: lru_slots_def)

lemma lru_abs_frame [simp]:
  "lru_abs (c\<lparr>lru_hits := h\<rparr>) = (lru_abs c)\<lparr>al_hits := h\<rparr>"
  "lru_abs (c\<lparr>lru_misses := h\<rparr>) = (lru_abs c)\<lparr>al_misses := h\<rparr>"
  "lru_abs (c\<lparr>lru_evictions := h\<rparr>) = (lru_abs c)\<lparr>al_evictions := h\<rparr>"
  "lru_abs (c\<lparr>lru_capacity := n\<rparr>) = (lru_abs c)\<lparr>al_capacity := n\<rparr>"
  "lru_abs (c\<lparr>lru_calls := tr\<rparr>) = (lru_abs c)\<lparr>al_calls := tr\<rparr>"
  "lru_abs (c\<lparr>lru_store := t\<rparr>) = lru_abs c"
  by (simp_all add: lru_abs_def lru_items_def)

lemma lru_abs_frame2:
  "lru_abs c' = (lru_abs c)\<lparr>al_items := xs\<rparr> \<Longrightarrow> lru_track_hit_miss c' = lru_track_hit_miss c \<and>
     lru_hits c' = lru_hits c \<and> lru_misses c' = lru_misses c \<and> lru_capacity c' = lru_capacity c \<and>
     lru_items c' = xs"
  by (auto simp: lru_abs_def)

lemma lru_abs_self [simp]: "(lru_abs c)\<lparr>al_items := lru_items c\<rparr> = lru_abs c"
  by (simp add: lru_abs_def)

lemma lru_abs_order:
  "lru_items (c\<lparr>lru_order := l\<rparr>) = xs \<Longrightarrow> lru_abs (c\<lparr>lru_order := l\<rparr>) = (lru_abs c)\<lparr>al_items := xs\<rparr>"
  by (simp add: lru_abs_def)

section \<open>Steps on the list\<close>

lemma lru_order_set:
  assumes "lru_slots entries bk c is" "i \<in> set is" "bk k = bk (fst (ll_at (lru_order c) i))"
  obtains c' where "lru_on_order (ll_set i (k, v)) c = (Returns (Some (ll_at (lru_order c) i)), c')"
    "lru_slots entries bk c' is"
    "\<And>j. j \<in> set is \<Longrightarrow> ll_at (lru_order c') j = (if j = i then (k, v) else ll_at (lru_order c) j)"
    "c' = c\<lparr>lru_order := lru_order c'\<rparr>"
proof -
  obtain free where f: "ll_rep (lru_order c) is free" using assms(1) by (auto simp: lru_slots_def)
  obtain l where l: "ll_set i (k, v) (lru_order c) = Some (Some (ll_at (lru_order c) i), l)"
    "ll_rep l is free"
    "\<And>j. j \<in> set is \<Longrightarrow> ll_at l j = (if j = i then (k, v) else ll_at (lru_order c) j)"
    using ll_set_rep [OF f assms(2), of "(k, v)"] by blast
  have keys: "bk (fst (ll_at l j)) = bk (fst (ll_at (lru_order c) j))" if "j \<in> set is" for j
    using l(3) [OF that] assms(3) by simp
  have "lru_slots entries bk (c\<lparr>lru_order := l\<rparr>) is"
    using assms(1) l(2) by (auto simp: lru_slots_def keys cong: map_cong)
  then show ?thesis
    using l(1,3) by (intro that [of "c\<lparr>lru_order := l\<rparr>"]) (simp_all add: lru_on_order_def)
qed

lemma lru_order_get_mut:
  assumes "lru_slots entries bk c is" "i \<in> set is" "\<And>kv. fst (f kv) = fst kv"
  obtains c' where "lru_on_order (ll_get_mut i f) c = (Returns (ll_at (lru_order c) i), c')"
    "lru_slots entries bk c' is"
    "\<And>j. j \<in> set is \<Longrightarrow>
       ll_at (lru_order c') j = (if j = i then f (ll_at (lru_order c) i) else ll_at (lru_order c) j)"
    "c' = c\<lparr>lru_order := lru_order c'\<rparr>"
proof -
  obtain free where r: "ll_rep (lru_order c) is free" using assms(1) by (auto simp: lru_slots_def)
  obtain l where l: "ll_get_mut i f (lru_order c) = Some (ll_at (lru_order c) i, l)"
    "ll_rep l is free"
    "\<And>j. j \<in> set is \<Longrightarrow> ll_at l j = (if j = i then f (ll_at (lru_order c) i) else ll_at (lru_order c) j)"
    using ll_get_mut_rep [OF r assms(2), of f] by blast
  have keys: "bk (fst (ll_at l j)) = bk (fst (ll_at (lru_order c) j))" if "j \<in> set is" for j
    using l(3) [OF that] assms(3) by simp
  have "lru_slots entries bk (c\<lparr>lru_order := l\<rparr>) is"
    using assms(1) l(2) by (auto simp: lru_slots_def keys cong: map_cong)
  then show ?thesis
    using l(1,3) by (intro that [of "c\<lparr>lru_order := l\<rparr>"]) (simp_all add: lru_on_order_def)
qed

lemma lru_order_move:
  assumes "lru_slots entries bk c is" "i \<in> set is"
  obtains c' where "lru_move i c = (Returns (), c')"
    "lru_slots entries bk c' (i # remove1 i is)"
    "\<And>j. j \<in> set is \<Longrightarrow> ll_at (lru_order c') j = ll_at (lru_order c) j"
    "c' = c\<lparr>lru_order := lru_order c'\<rparr>"
proof -
  obtain free where r: "ll_rep (lru_order c) is free" using assms(1) by (auto simp: lru_slots_def)
  obtain l where l: "ll_move_to_front i (lru_order c) = Some l" "ll_rep l (i # remove1 i is) free"
    "\<And>j. j \<in> set is \<Longrightarrow> ll_at l j = ll_at (lru_order c) j"
    using ll_move_to_front_rep [OF r assms(2)] by blast
  let ?key = "\<lambda>j. bk (fst (ll_at (lru_order c) j))"
  have sub: "set (i # remove1 i is) \<subseteq> set is" using assms(2) set_remove1_subset by fastforce
  have perm: "mset (i # remove1 i is) = mset is" using assms(2) by simp
  have same: "ll_at l j = ll_at (lru_order c) j" if "j \<in> set (i # remove1 i is)" for j
    using sub that by (intro l(3)) auto
  have "map (\<lambda>j. bk (fst (ll_at l j))) (i # remove1 i is) = map ?key (i # remove1 i is)"
    by (rule map_cong [OF refl]) (simp only: same)
  moreover have "mset (map ?key (i # remove1 i is)) = mset (map ?key is)"
    by (simp only: mset_map perm)
  ultimately have d: "distinct (map (\<lambda>j. bk (fst (ll_at l j))) (i # remove1 i is))"
    using assms(1) mset_eq_imp_distinct_iff unfolding lru_slots_def by metis
  have "map (\<lambda>j. (lru_hash_builder c (bk (fst (ll_at l j))), j)) (i # remove1 i is) =
      map (\<lambda>j. (lru_hash_builder c (?key j), j)) (i # remove1 i is)"
    by (rule map_cong [OF refl]) (simp only: same)
  then have "mset (map (\<lambda>j. (lru_hash_builder c (bk (fst (ll_at l j))), j)) (i # remove1 i is)) =
      entries (lru_store c)"
    using assms(1) by (simp only: lru_slots_def mset_map perm)
  with d l(2) have "lru_slots entries bk (c\<lparr>lru_order := l\<rparr>) (i # remove1 i is)"
    unfolding lru_slots_def by (simp del: list.map mset.simps distinct.simps) blast
  then show ?thesis
    using l(1,3) by (intro that [of "c\<lparr>lru_order := l\<rparr>"]) (simp_all add: lru_on_order_def lru_move_def)
qed

section \<open>Steps through the hash table\<close>

context hash_table
begin

lemma lru_slots_len:
  "lru_slots entries bk c is \<Longrightarrow> ht_len T (lru_store c) = length is"
  by (simp add: ht_len_entries lru_slots_def)

lemma lru_slots_entries:
  "lru_slots entries bk c is \<Longrightarrow> (h, i) \<in># entries (lru_store c) \<longleftrightarrow>
     i \<in> set is \<and> h = lru_hash (bk (fst (ll_at (lru_order c) i))) c"
  by (auto simp: lru_slots_def lru_hash_def)

lemma lru_slots_get:
  "lru_slots entries bk c is \<Longrightarrow> i \<in> set is \<Longrightarrow> ll_get i (lru_order c) = Some (ll_at (lru_order c) i)"
  by (auto simp: lru_slots_def ll_get_rep)

lemma lru_slots_key_is:
  "lru_slots entries bk c is \<Longrightarrow> i \<in> set is \<Longrightarrow>
     lru_key_is bk q c i = Some (bk (fst (ll_at (lru_order c) i)) = q)"
  by (auto simp: lru_key_is_def lru_slots_get)

lemma lru_slots_inj:
  "\<lbrakk>lru_slots entries bk c is; i \<in> set is; j \<in> set is;
    bk (fst (ll_at (lru_order c) i)) = bk (fst (ll_at (lru_order c) j))\<rbrakk> \<Longrightarrow> i = j"
  by (auto simp: lru_slots_def distinct_map dest: inj_onD)

lemma lru_get_index_slots:
  assumes "lru_slots entries bk c is"
  shows "lru_get_index T bk (lru_hash q c) q c =
    Some (find (\<lambda>i. bk (fst (ll_at (lru_order c) i)) = q) is)"
proof (cases "find (\<lambda>i. bk (fst (ll_at (lru_order c) i)) = q) is")
  case None
  then have "ht_find T (lru_hash q c) (lru_key_is bk q c) (lru_store c) = Some None"
    using assms
    by (intro ht_find_absent)
      (auto simp: lru_slots_entries lru_slots_key_is find_eq_None_iff)
  then show ?thesis using None by (simp add: lru_get_index_def)
next
  case (Some i)
  then have i: "i \<in> set is" "bk (fst (ll_at (lru_order c) i)) = q"
    using find_SomeD by fastforce+
  have "ht_find T (lru_hash q c) (lru_key_is bk q c) (lru_store c) = Some (Some i)"
  proof (rule ht_find_unique [where P = "\<lambda>j. bk (fst (ll_at (lru_order c) j)) = q"])
    show "(lru_hash q c, i) \<in># entries (lru_store c)" using assms i by (simp add: lru_slots_entries)
    fix h' j assume m: "(h', j) \<in># entries (lru_store c)"
    then have j: "j \<in> set is" using assms by (simp add: lru_slots_entries)
    then show "lru_key_is bk q c j = Some (bk (fst (ll_at (lru_order c) j)) = q)"
      using assms by (simp add: lru_slots_key_is)
    show "j = i" if "bk (fst (ll_at (lru_order c) j)) = q"
      using lru_slots_inj [OF assms j i(1)] that i(2) by simp
  qed (rule i(2))
  then show ?thesis using Some by (simp add: lru_get_index_def)
qed

lemma lru_table_take_slots:
  assumes "lru_slots entries bk c is" "i \<in> set is"
    "p = lru_key_is bk (bk (fst (ll_at (lru_order c) i))) c \<or> p = (\<lambda>j. Some (j = i))"
  obtains t where
    "lru_table_take T (lru_hash (bk (fst (ll_at (lru_order c) i))) c) p c =
      (Returns (Some i), c\<lparr>lru_store := t\<rparr>)"
    "entries t = entries (lru_store c) - {#(lru_hash (bk (fst (ll_at (lru_order c) i))) c, i)#}"
proof -
  let ?q = "bk (fst (ll_at (lru_order c) i))"
  obtain t where t: "ht_remove T (lru_hash ?q c) p (lru_store c) = Some (Some (i, t))"
    "entries t = entries (lru_store c) - {#(lru_hash ?q c, i)#}"
  proof (rule ht_remove_unique [where P = "\<lambda>j. j = i" and i = i and h = "lru_hash ?q c"])
    show "(lru_hash ?q c, i) \<in># entries (lru_store c)"
      using assms by (simp add: lru_slots_entries)
    fix h' j assume m: "(h', j) \<in># entries (lru_store c)"
    then have j: "j \<in> set is" using assms(1) by (simp add: lru_slots_entries)
    then have "(bk (fst (ll_at (lru_order c) j)) = ?q) = (j = i)"
      using lru_slots_inj [OF assms(1) j assms(2)] by auto
    then show "p j = Some (j = i)"
      using assms(3) lru_slots_key_is [OF assms(1) j] by auto
    show "h' = lru_hash ?q c \<and> j = i" if "j = i"
      using that m assms(1) by (simp add: lru_slots_entries)
  qed auto
  then show ?thesis using that by (simp add: lru_table_take_def)
qed

lemma lru_table_take_absent:
  assumes "lru_slots entries bk c is" "find (\<lambda>i. bk (fst (ll_at (lru_order c) i)) = q) is = None"
  shows "lru_table_take T h (lru_key_is bk q c) c = (Returns None, c)"
proof -
  have "ht_remove T h (lru_key_is bk q c) (lru_store c) = Some None"
    using assms
    by (intro ht_remove_absent) (auto simp: lru_slots_entries lru_slots_key_is find_eq_None_iff)
  then show ?thesis by (simp add: lru_table_take_def)
qed

lemma lru_order_remove:
  assumes "lru_slots entries bk c is" "i \<in> set is" "bk (fst (ll_at (lru_order c) i)) = q"
    "entries t = entries (lru_store c) - {#(lru_hash q c, i)#}"
  obtains c' where "lru_on_order (ll_remove i) (c\<lparr>lru_store := t\<rparr>) = (Returns (ll_at (lru_order c) i), c')"
    "lru_slots entries bk c' (remove1 i is)"
    "\<And>j. j \<in> set is \<Longrightarrow> j \<noteq> i \<Longrightarrow> ll_at (lru_order c') j = ll_at (lru_order c) j"
    "lru_abs c' = (lru_abs c)\<lparr>al_items := a_without bk q (lru_items c)\<rparr>"
    "lru_capacity c' = lru_capacity c" "lru_hash_builder c' = lru_hash_builder c"
proof -
  obtain free where r: "ll_rep (lru_order c) is free" using assms(1) by (auto simp: lru_slots_def)
  obtain l where l: "ll_remove i (lru_order c) = Some (ll_at (lru_order c) i, l)"
    "ll_rep l (remove1 i is) (i # free)"
    "\<And>j. j \<in> set is \<Longrightarrow> j \<noteq> i \<Longrightarrow> ll_at l j = ll_at (lru_order c) j"
    using ll_remove_rep [OF r assms(2)] by blast
  let ?c = "c\<lparr>lru_store := t, lru_order := l\<rparr>"
  have dis: "distinct is" using assms(1) by (auto simp: lru_slots_def distinct_map)
  have same: "ll_at l j = ll_at (lru_order c) j" if "j \<in> set (remove1 i is)" for j
    using that dis by (intro l(3)) (auto dest: notin_set_remove1)
  have keys: "map (\<lambda>j. bk (fst (ll_at l j))) (remove1 i is) =
      map (\<lambda>j. bk (fst (ll_at (lru_order c) j))) (remove1 i is)"
    and hashes: "map (\<lambda>j. (lru_hash_builder c (bk (fst (ll_at l j))), j)) (remove1 i is) =
      map (\<lambda>j. (lru_hash_builder c (bk (fst (ll_at (lru_order c) j))), j)) (remove1 i is)"
    by (rule map_cong [OF refl], simp only: same)+
  have "entries t = mset (map (\<lambda>j. (lru_hash_builder c (bk (fst (ll_at (lru_order c) j))), j)) (remove1 i is))"
    using assms by (simp add: lru_slots_def lru_hash_def image_mset_Diff)
  moreover have "distinct (map (\<lambda>j. bk (fst (ll_at (lru_order c) j))) (remove1 i is))"
    using assms(1) by (auto simp: lru_slots_def intro: distinct_map_remove1)
  ultimately have "lru_slots entries bk ?c (remove1 i is)"
    using l(2) by (intro lru_slotsI) (simp_all add: keys hashes del: map_eq_conv mset_map)
  moreover have "lru_items ?c = a_without bk q (lru_items c)"
  proof -
    have "lru_items ?c = map (ll_at l) (remove1 i is)"
      using l(2) by (simp add: lru_items_def ll_iter_rep)
    also have "\<dots> = map (ll_at (lru_order c)) (remove1 i is)"
      by (rule map_cong [OF refl]) (simp only: same)
    finally show ?thesis using lru_slots_remove1 [OF assms(1-3)] by simp
  qed
  ultimately show ?thesis
    using l(1,3) by (intro that [of ?c]) (simp_all add: lru_on_order_def lru_abs_def)
qed

lemma lru_push:
  assumes "lru_slots entries bk c is" "find (\<lambda>i. bk (fst (ll_at (lru_order c) i)) = bk k) is = None"
  obtains i c1 c2 where "lru_on_order (ll_push_front (k, v)) c = (Returns i, c1)"
    "lru_insert_index T bk (lru_hash (bk k) c) i c1 = (Returns (), c2)"
    "lru_slots entries bk c2 (i # is)" "ll_at (lru_order c2) i = (k, v)"
    "lru_abs c2 = (lru_abs c)\<lparr>al_items := (k, v) # lru_items c\<rparr>"
    "lru_capacity c2 = lru_capacity c"
proof -
  obtain free where r: "ll_rep (lru_order c) is free" using assms(1) by (auto simp: lru_slots_def)
  obtain i l free' where l: "ll_push_front (k, v) (lru_order c) = Some (i, l)"
    "ll_rep l (i # is) free'" "i \<notin> set is" "ll_at l i = (k, v)"
    "\<And>j. j \<in> set is \<Longrightarrow> ll_at l j = ll_at (lru_order c) j"
    using ll_push_front_rep [OF r] by metis
  let ?c1 = "c\<lparr>lru_order := l\<rparr>"
  obtain t where t:
    "ht_insert_unique T (lru_hash (bk k) c) i
       (\<lambda>i. map_option (\<lambda>kv. lru_hash_builder ?c1 (bk (fst kv))) (ll_get i l)) (lru_store c) = Some t"
    "entries t = add_mset (lru_hash (bk k) c, i) (entries (lru_store c))"
  proof -
    let ?hasher = "\<lambda>i. map_option (\<lambda>kv. lru_hash_builder ?c1 (bk (fst kv))) (ll_get i l)"
    have "?hasher j = Some h" if "(h, j) \<in># entries (lru_store c)" for h j
      using that assms(1) l(5) ll_get_rep [OF l(2)] by (simp add: lru_slots_entries lru_hash_def)
    then show ?thesis
      using that ht_insert_entries [of "lru_store c" ?hasher "lru_hash (bk k) c" i] by blast
  qed
  let ?c2 = "?c1\<lparr>lru_store := t\<rparr>"
  have fresh: "bk (fst (ll_at (lru_order c) j)) \<noteq> bk k" if "j \<in> set is" for j
    using assms(2) that by (auto simp: find_eq_None_iff)
  have keys: "map (\<lambda>j. bk (fst (ll_at l j))) is = map (\<lambda>j. bk (fst (ll_at (lru_order c) j))) is"
    and hashes: "map (\<lambda>j. (lru_hash_builder c (bk (fst (ll_at l j))), j)) is =
      map (\<lambda>j. (lru_hash_builder c (bk (fst (ll_at (lru_order c) j))), j)) is"
    and vals: "map (ll_at l) is = map (ll_at (lru_order c)) is"
    by (rule map_cong [OF refl], simp only: l(5))+
  have "lru_slots entries bk ?c2 (i # is)"
  proof (rule lru_slotsI)
    show "ll_rep (lru_order ?c2) (i # is) free'" using l(2) by simp
    show "distinct (map (\<lambda>j. bk (fst (ll_at (lru_order ?c2) j))) (i # is))"
      using assms(1) l(4) by (auto simp: keys lru_slots_def simp del: map_eq_conv dest: fresh)
    show "entries (lru_store ?c2) =
        mset (map (\<lambda>j. (lru_hash_builder ?c2 (bk (fst (ll_at (lru_order ?c2) j))), j)) (i # is))"
      using assms(1) l(4)
      by (simp add: t(2) hashes lru_slots_def lru_hash_def del: map_eq_conv mset_map)
  qed
  moreover have "lru_items ?c2 = (k, v) # lru_items c"
    using ll_iter_rep(1) [OF l(2)] ll_iter_rep(1) [OF r] l(4) vals
    by (simp add: lru_items_def del: map_eq_conv)
  ultimately show ?thesis
    using l(1,4) t(1) by (intro that [of i ?c1 ?c2])
      (simp_all add: lru_on_order_def lru_insert_index_def lru_abs_def)
qed

section \<open>Counters and callbacks\<close>

lemma lru_wf_frame [simp]:
  "lru_wf entries bk (c\<lparr>lru_hits := h\<rparr>) = lru_wf entries bk c"
  "lru_wf entries bk (c\<lparr>lru_misses := h\<rparr>) = lru_wf entries bk c"
  "lru_wf entries bk (c\<lparr>lru_evictions := h\<rparr>) = lru_wf entries bk c"
  "lru_wf entries bk (c\<lparr>lru_calls := tr\<rparr>) = lru_wf entries bk c"
  by (simp_all add: lru_wf_def)

lemma lru_notify_apply: "lru_notify k v c =
   (if cb_ok (lru_on_evict c) k v then Returns () else Panics,
    c\<lparr>lru_calls := lru_calls c @ cb_calls (lru_on_evict c) [(k, v)]\<rparr>)"
  by (simp add: lru_notify_def notify_apply)

lemma refines_counters [refines_rules]:
  "refines (lru_wf entries bk) lru_abs lru_record_hit al_record_hit"
  "refines (lru_wf entries bk) lru_abs lru_record_miss al_record_miss"
  "refines (lru_wf entries bk) lru_abs (lru_count_evictions n) (al_count_evictions n)"
  by (auto intro!: refines_modify simp: lru_record_hit_def al_record_hit_def lru_record_miss_def
      al_record_miss_def lru_count_evictions_def al_count_evictions_def)

lemma refines_notify [refines_rules]:
  "refines (lru_wf entries bk) lru_abs (lru_notify k v) (al_notify k v)"
  by (auto simp: refines_def refines_at_def lru_notify_apply al_notify_def notify_apply)

section \<open>Eviction\<close>

lemma lru_evict_back_refines:
  assumes "lru_wf entries bk c" "lru_slots entries bk c is" "is \<noteq> []"
  obtains r c' where "lru_evict_back T bk c = (r, c')" "lru_wf entries bk c'"
    "lru_slots entries bk c' (butlast is)"
    "\<And>j. j \<in> set (butlast is) \<Longrightarrow> ll_at (lru_order c') j = ll_at (lru_order c) j"
    "al_drop_entry bk (last (lru_items c)) (lru_abs c) = (r, lru_abs c')"
    "lru_items c' = butlast (lru_items c)" "lru_capacity c' = lru_capacity c"
    "r = Returns () \<or> r = Panics"
proof -
  note sl = assms(2) and ne = assms(3)
  have cap: "0 < lru_capacity c" using assms(1) by (simp add: lru_wf_def)
  obtain free where rep: "ll_rep (lru_order c) is free" using sl by (auto simp: lru_slots_def)
  have ine: "lru_items c \<noteq> []" using ne sl by (auto simp: lru_slots_items)
  have dis: "distinct is" using sl by (auto simp: lru_slots_def distinct_map)
  define i where "i = last is"
  have i: "i \<in> set is" "ll_back (lru_order c) = Some i"
    using ne ll_back_rep [OF rep ne] by (simp_all add: i_def)
  obtain k v where kv: "ll_at (lru_order c) i = (k, v)" by force
  have last: "last (lru_items c) = (k, v)"
    using sl ne kv by (simp add: lru_slots_items last_map i_def)
  have split: "lru_items c = butlast (lru_items c) @ [(k, v)]"
    using ine last by (metis append_butlast_last_id)
  have bl: "a_without bk (bk k) (lru_items c) = butlast (lru_items c)"
    using a_without_last [of bk "butlast (lru_items c)" "(k, v)"] lru_slots_a_wf [OF sl] split by simp
  obtain t where t: "lru_table_take T (lru_hash (bk k) c) (lru_key_is bk (bk k) c) c =
      (Returns (Some i), c\<lparr>lru_store := t\<rparr>)"
    "entries t = entries (lru_store c) - {#(lru_hash (bk k) c, i)#}"
    using lru_table_take_slots [OF sl i(1)] kv by auto
  obtain c1 where c1: "lru_on_order (ll_remove i) (c\<lparr>lru_store := t\<rparr>) = (Returns (k, v), c1)"
    "lru_slots entries bk c1 (remove1 i is)"
    "lru_abs c1 = (lru_abs c)\<lparr>al_items := a_without bk (bk k) (lru_items c)\<rparr>"
    "lru_capacity c1 = lru_capacity c"
    "\<And>j. j \<in> set is \<Longrightarrow> j \<noteq> i \<Longrightarrow> ll_at (lru_order c1) j = ll_at (lru_order c) j"
    using lru_order_remove [OF sl i(1) _ t(2)] kv by auto
  have r1: "remove1 i is = butlast is" unfolding i_def using dis ne by (rule remove1_last)
  have nin: "i \<notin> set (butlast is)"
    unfolding i_def using dis ne by (rule last_notin_butlast)
  have wf1: "lru_wf entries bk c1" using c1 cap by (auto simp: lru_wf_def)
  let ?m = "andthen (lru_count_evictions 1) (\<lambda>_. lru_notify k v)"
  let ?n = "andthen (al_count_evictions 1) (\<lambda>_. al_notify k v)"
  have mn: "refines (lru_wf entries bk) lru_abs ?m ?n"
    by (intro refines_rules)
  have run: "lru_evict_back T bk c = ?m c1"
    using i(2) kv lru_slots_get [OF sl i(1)] t(1) c1(1)
    by (simp add: lru_evict_back_def comp_simps)
  have arun: "al_drop_entry bk (k, v) (lru_abs c) = ?n (lru_abs c1)"
    by (simp add: al_drop_entry_def c1(3) comp_simps)
  have m: "?m c1 = (if cb_ok (lru_on_evict c1) k v then Returns () else Panics,
      c1\<lparr>lru_evictions := lru_evictions c1 + 1, lru_calls := lru_calls c1 @ cb_calls (lru_on_evict c1) [(k, v)]\<rparr>)"
    by (simp add: lru_count_evictions_def lru_notify_apply comp_simps)
  have "lru_items c1 = butlast (lru_items c)"
    using lru_abs_frame2 [OF c1(3)] bl by simp
  then have "lru_items (snd (?m c1)) = butlast (lru_items c)"
    unfolding m by (simp add: lru_items_def)
  moreover have "lru_capacity (snd (?m c1)) = lru_capacity c"
    unfolding m using c1(4) by simp
  moreover have "fst (?m c1) = Returns () \<or> fst (?m c1) = Panics" unfolding m by simp
  moreover have "lru_slots entries bk (snd (?m c1)) (butlast is)"
    unfolding m using c1(2) r1 by simp
  moreover have "ll_at (lru_order (snd (?m c1))) j = ll_at (lru_order c) j"
    if "j \<in> set (butlast is)" for j
    unfolding m using that nin by (simp, intro c1(5)) (auto dest: in_set_butlastD)
  ultimately show ?thesis
    using refinesD [OF mn wf1] run arun last
    by (intro that [of "fst (?m c1)" "snd (?m c1)"]) simp_all
qed

lemma lru_wf_len: "lru_wf entries bk c \<Longrightarrow> ht_len T (lru_store c) = length (lru_items c)"
  by (auto simp: lru_wf_def lru_slots_len lru_slots_items)

lemma lru_wf_a_wf: "lru_wf entries bk c \<Longrightarrow> a_wf bk (lru_items c)"
  by (auto simp: lru_wf_def lru_slots_a_wf)

lemma lru_check_capacity_loop_refines:
  assumes "lru_wf entries bk c" "lru_slots entries bk c is" "length is \<le> n + lru_capacity c"
  shows "refines_at (lru_wf entries bk) lru_abs (lru_check_capacity_loop n T bk) (al_check_capacity bk) c \<and>
    (\<exists>m \<ge> lru_capacity c. lru_slots entries bk (snd (lru_check_capacity_loop n T bk c)) (take m is) \<and>
      (\<forall>j \<in> set (take m is). ll_at (lru_order (snd (lru_check_capacity_loop n T bk c))) j =
         ll_at (lru_order c) j))"
  using assms
proof (induction n arbitrary: c "is")
  case 0
  then have "length is \<le> lru_capacity c" by simp
  then show ?case
    using 0 by (intro conjI exI [of _ "lru_capacity c"])
      (simp_all add: refines_at_def lru_slots_len lru_slots_items al_check_capacity_def ret_def)
next
  case (Suc n)
  note items = lru_slots_items [OF Suc.prems(2)]
  show ?case
  proof (cases "length is > lru_capacity c")
    case False
    then show ?thesis
      using Suc.prems by (intro conjI exI [of _ "lru_capacity c"])
        (simp_all add: refines_at_def lru_slots_len lru_slots_items al_check_capacity_def ret_def)
  next
    case True
    then have ne: "is \<noteq> []" "lru_items c \<noteq> []" using items by auto
    obtain r c' where e: "lru_evict_back T bk c = (r, c')" "lru_wf entries bk c'"
      "lru_slots entries bk c' (butlast is)"
      "\<And>j. j \<in> set (butlast is) \<Longrightarrow> ll_at (lru_order c') j = ll_at (lru_order c) j"
      "al_drop_entry bk (last (lru_items c)) (lru_abs c) = (r, lru_abs c')"
      "lru_items c' = butlast (lru_items c)" "lru_capacity c' = lru_capacity c"
      "r = Returns () \<or> r = Panics"
      using lru_evict_back_refines [OF Suc.prems(1,2) ne(1)] by metis
    have "drop (lru_capacity c) (lru_items c) =
        drop (lru_capacity c) (butlast (lru_items c)) @ [last (lru_items c)]"
    proof -
      have "lru_capacity c \<le> length (butlast (lru_items c))" using True items by simp
      then have "drop (lru_capacity c) (butlast (lru_items c) @ [last (lru_items c)]) =
          drop (lru_capacity c) (butlast (lru_items c)) @ [last (lru_items c)]" by simp
      then show ?thesis using ne(2) by simp
    qed
    then have a: "al_check_capacity bk (lru_abs c) =
        andthen (al_drop_entry bk (last (lru_items c)))
          (\<lambda>_. foreach (rev (drop (lru_capacity c) (butlast (lru_items c)))) (al_drop_entry bk)) (lru_abs c)"
      by (simp add: al_check_capacity_def)
    have l: "lru_check_capacity_loop (Suc n) T bk c =
        andthen (lru_evict_back T bk) (\<lambda>_. lru_check_capacity_loop n T bk) c"
      using True Suc.prems by (simp add: lru_slots_len)
    have tk: "take m (butlast is) = take (min m (length is - 1)) is" for m
      by (simp add: butlast_conv_take min.commute)
    have "length (butlast is) \<le> n + lru_capacity c'"
      using Suc.prems(3) e(7) by simp
    note IH = Suc.IH [OF e(2,3) this]
    from e(8) show ?thesis
    proof
      assume r: "r = Returns ()"
      obtain m where m: "m \<ge> lru_capacity c" "lru_slots entries bk (snd (lru_check_capacity_loop n T bk c')) (take m (butlast is))"
        "\<forall>j \<in> set (take m (butlast is)). ll_at (lru_order (snd (lru_check_capacity_loop n T bk c'))) j =
           ll_at (lru_order c') j"
        using IH e(7) by auto
      have "\<forall>j \<in> set (take m (butlast is)). ll_at (lru_order (snd (lru_check_capacity_loop n T bk c'))) j =
           ll_at (lru_order c) j"
        using m(3) e(4) by (auto dest: in_set_takeD)
      then show ?thesis
        unfolding refines_at_def a l using e r IH m(1,2) True
        by (simp add: andthen_Returns al_check_capacity_def refines_at_def)
          (auto simp: tk intro!: exI [of _ "min m (length is - 1)"])
    next
      assume "r = Panics"
      then show ?thesis
        unfolding refines_at_def a l using e True ne
        by (simp add: andthen_apply) (auto simp: butlast_conv_take intro!: exI [of _ "length is - 1"])
    qed
  qed
qed

lemma refines_check_capacity [refines_rules]:
  "refines (lru_wf entries bk) lru_abs (lru_check_capacity T bk) (al_check_capacity bk)"
proof (rule refinesI)
  fix c assume wf: "lru_wf entries bk c"
  then obtain "is" where sl: "lru_slots entries bk c is" by (auto simp: lru_wf_def)
  show "refines_at (lru_wf entries bk) lru_abs (lru_check_capacity T bk) (al_check_capacity bk) c"
    using lru_check_capacity_loop_refines [OF wf sl, of "length is"] sl
    by (simp add: refines_at_def lru_check_capacity_def lru_slots_len)
qed

text \<open>The front entry keeps its slot while entries are evicted from the back.\<close>

lemma lru_check_capacity_front:
  assumes "lru_wf entries bk c" "lru_slots entries bk c (i # is)"
  obtains r c' is' where "lru_check_capacity T bk c = (r, c')" "lru_wf entries bk c'"
    "al_check_capacity bk (lru_abs c) = (r, lru_abs c')" "lru_slots entries bk c' (i # is')"
    "ll_at (lru_order c') i = ll_at (lru_order c) i"
proof -
  let ?c' = "snd (lru_check_capacity T bk c)"
  note r = refinesD [OF refines_check_capacity assms(1)]
  obtain m where m: "m \<ge> lru_capacity c" "lru_slots entries bk ?c' (take m (i # is))"
    "\<forall>j \<in> set (take m (i # is)). ll_at (lru_order ?c') j = ll_at (lru_order c) j"
    using lru_check_capacity_loop_refines [OF assms, of "length (i # is)"] assms(2)
    by (auto simp: lru_check_capacity_def lru_slots_len)
  then obtain m' where "m = Suc m'" using assms(1) by (cases m) (auto simp: lru_wf_def)
  then show ?thesis using r m(2,3) by (intro that [of "fst (lru_check_capacity T bk c)" ?c' "take m' is"]) simp_all
qed

section \<open>Touching and writing an entry\<close>

lemma lru_touch:
  assumes "lru_slots entries bk c is" "i \<in> set is" "ll_at (lru_order c) i = (k, v)"
  obtains c' where "lru_move i c = (Returns (), c')"
    "lru_slots entries bk c' (i # remove1 i is)" "ll_at (lru_order c') i = (k, v)"
    "lru_abs c' = (lru_abs c)\<lparr>al_items := (k, v) # a_without bk (bk k) (lru_items c)\<rparr>"
    "lru_capacity c' = lru_capacity c"
proof -
  obtain c' where m: "lru_move i c = (Returns (), c')"
    "lru_slots entries bk c' (i # remove1 i is)"
    "\<And>j. j \<in> set is \<Longrightarrow> ll_at (lru_order c') j = ll_at (lru_order c) j"
    "c' = c\<lparr>lru_order := lru_order c'\<rparr>"
    using lru_order_move [OF assms(1,2)] by blast
  have "map (ll_at (lru_order c')) (remove1 i is) = map (ll_at (lru_order c)) (remove1 i is)"
    by (rule map_cong [OF refl]) (meson m(3) notin_set_remove1)
  then have "lru_items c' = (k, v) # a_without bk (bk k) (lru_items c)"
    using lru_slots_items [OF m(2)] m(3) [OF assms(2)] assms(3)
      lru_slots_remove1 [OF assms(1,2) refl] by (simp del: map_eq_conv)
  moreover have "lru_abs c' = (lru_abs c)\<lparr>al_items := lru_items c'\<rparr>"
    using m(4) lru_abs_order [of "lru_order c'" c "lru_items c'"] by simp
  moreover have "lru_capacity c' = lru_capacity c"
    using lru_abs_frame2 [OF calculation(2)] by simp
  ultimately show ?thesis using m(1,2) m(3) [OF assms(2)] assms(3) by (intro that [of c']) simp_all
qed

lemma lru_write:
  assumes "lru_slots entries bk c (i # rest)" "ll_at (lru_order c) i = (k, v)"
  obtains c' where "lru_on_order (ll_get_mut i (apsnd upd)) c = (Returns (k, v), c')"
    "lru_slots entries bk c' (i # rest)"
    "lru_abs c' = (lru_abs c)\<lparr>al_items := (k, upd v) # tl (lru_items c)\<rparr>"
    "lru_capacity c' = lru_capacity c"
proof -
  have i: "i \<in> set (i # rest)" "i \<notin> set rest"
    using assms(1) by (auto simp: lru_slots_def)
  obtain c' where m: "lru_on_order (ll_get_mut i (apsnd upd)) c = (Returns (k, v), c')"
    "lru_slots entries bk c' (i # rest)"
    "\<And>j. j \<in> set (i # rest) \<Longrightarrow> ll_at (lru_order c') j =
       (if j = i then (k, upd v) else ll_at (lru_order c) j)"
    "c' = c\<lparr>lru_order := lru_order c'\<rparr>"
    using lru_order_get_mut [OF assms(1) i(1), where f = "apsnd upd", OF fst_apsnd]
    unfolding assms(2) apsnd_conv by blast
  have "map (ll_at (lru_order c')) rest = map (ll_at (lru_order c)) rest"
    using m(3) i(2) by (intro map_cong [OF refl]) auto
  then have "lru_items c' = (k, upd v) # tl (lru_items c)"
    using lru_slots_items [OF m(2)] lru_slots_items [OF assms(1)] m(3) [of i] by simp
  moreover have "lru_abs c' = (lru_abs c)\<lparr>al_items := lru_items c'\<rparr>"
    using m(4) lru_abs_order [of "lru_order c'" c "lru_items c'"] by simp
  moreover have "lru_capacity c' = lru_capacity c"
    using lru_abs_frame2 [OF calculation(2)] by simp
  ultimately show ?thesis using m(1,2) by (intro that [of c']) simp_all
qed

lemma lru_lookup_cases:
  assumes "lru_wf entries bk c"
  obtains (absent) "is" where "lru_slots entries bk c is"
      "lru_get_index T bk (lru_hash q c) q c = Some None" "a_find bk q (lru_items c) = None"
      "find (\<lambda>i. bk (fst (ll_at (lru_order c) i)) = q) is = None"
    | (present) "is" i k v where "lru_slots entries bk c is"
      "lru_get_index T bk (lru_hash q c) q c = Some (Some i)" "i \<in> set is"
      "ll_at (lru_order c) i = (k, v)" "bk k = q" "a_find bk q (lru_items c) = Some (k, v)"
      "ll_get i (lru_order c) = Some (k, v)"
proof -
  obtain "is" where sl: "lru_slots entries bk c is" using assms by (auto simp: lru_wf_def)
  show ?thesis
  proof (cases "find (\<lambda>i. bk (fst (ll_at (lru_order c) i)) = q) is")
    case None
    then show ?thesis
      using sl lru_get_index_slots [OF sl] lru_slots_find [OF sl] by (intro absent) simp_all
  next
    case (Some i)
    obtain k v where kv: "ll_at (lru_order c) i = (k, v)" by force
    have i: "i \<in> set is" "bk k = q" using find_SomeD [OF Some] kv by auto
    then show ?thesis
      using sl Some kv lru_get_index_slots [OF sl] lru_slots_find [OF sl] lru_slots_get [OF sl]
      by (intro present [of "is" i k v]) simp_all
  qed
qed

lemma lru_get_mut_if_at:
  assumes wf: "lru_wf entries bk c"
  shows "refines_at (lru_wf entries bk) lru_abs (lru_get_mut_if T bk q is_valid upd)
     (al_get_mut_if bk q is_valid upd) c"
proof -
  have miss: "refines (lru_wf entries bk) lru_abs (andthen lru_record_miss (\<lambda>_. ret None))
      (andthen al_record_miss (\<lambda>_. ret None))"
    by (intro refines_rules)
  from wf show ?thesis
  proof (cases rule: lru_lookup_cases [of bk c q])
    case (absent "is")
    then show ?thesis
      by (intro refines_via [OF miss wf])
        (simp_all add: lru_get_mut_if_def al_get_mut_if_def comp_simps)
  next
    case (present "is" i k v)
    show ?thesis
    proof (cases "is_valid v")
      case False
      then show ?thesis
        using present by (intro refines_via [OF miss wf])
          (simp_all add: lru_get_mut_if_def al_get_mut_if_def comp_simps)
    next
      case True
      obtain c1 where c1: "lru_move i c = (Returns (), c1)"
        "lru_slots entries bk c1 (i # remove1 i is)" "ll_at (lru_order c1) i = (k, v)"
        "lru_abs c1 = (lru_abs c)\<lparr>al_items := (k, v) # a_without bk (bk k) (lru_items c)\<rparr>"
        "lru_capacity c1 = lru_capacity c"
        using lru_touch [OF present(1,3,4)] by blast
      obtain c2 where c2: "lru_record_hit c1 = (Returns (), c2)"
        "lru_slots entries bk c2 (i # remove1 i is)" "ll_at (lru_order c2) i = (k, v)"
        "lru_abs c2 = (if lru_track_hit_miss c then (lru_abs c1)\<lparr>al_hits := lru_hits c + 1\<rparr> else lru_abs c1)"
        "lru_capacity c2 = lru_capacity c"
        "lru_items c2 = lru_items c1"
        using c1(2,3,5) lru_abs_frame2 [OF c1(4)]
        by (auto simp: lru_record_hit_def modify_def lru_items_def)
      obtain c3 where c3: "lru_on_order (ll_get_mut i (apsnd upd)) c2 = (Returns (k, v), c3)"
        "lru_slots entries bk c3 (i # remove1 i is)"
        "lru_abs c3 = (lru_abs c2)\<lparr>al_items := (k, upd v) # tl (lru_items c2)\<rparr>"
        "lru_capacity c3 = lru_capacity c2"
        using lru_write [OF c2(2,3)] by blast
      have items: "lru_items c1 = (k, v) # a_without bk q (lru_items c)"
        using lru_abs_frame2 [OF c1(4)] present(5) by simp
      have "lru_get_mut_if T bk q is_valid upd c = (Returns (Some v), c3)"
        using present True c1(1) c2(1) c3(1) by (simp add: lru_get_mut_if_def comp_simps)
      moreover have "lru_wf entries bk c3"
        using c3(2,4) c2(5) wf by (auto simp: lru_wf_def)
      moreover have "al_get_mut_if bk q is_valid upd (lru_abs c) = (Returns (Some v), lru_abs c3)"
        using present True
        by (auto simp: c3(3) c2(4,6) items c1(4) al_get_mut_if_def al_set_items_def al_record_hit_def comp_simps)
      ultimately show ?thesis by (rule refines_atI)
    qed
  qed
qed

lemma refines_get_mut_if [refines_rules]:
  "refines (lru_wf entries bk) lru_abs (lru_get_mut_if T bk q is_valid upd)
     (al_get_mut_if bk q is_valid upd)"
  by (rule refinesI) (rule lru_get_mut_if_at)

lemma ll_get_mut_id: "ll_get_mut i id l = map_option (\<lambda>v. (v, l)) (ll_get i l)"
proof (cases "i < length (ll_values l)")
  case True
  have "(ll_values l)[i := (ll_values l ! i)\<lparr>le_value := Some v\<rparr>] = ll_values l"
    if "le_value (ll_values l ! i) = Some v" for v
    using that by (metis list_update_id list_entry.surjective list_entry.update_convs(1)
        list_entry.select_convs(1))
  then show ?thesis
    using True by (cases "le_value (ll_values l ! i)") (auto simp: ll_get_mut_def ll_get_def)
qed (simp add: ll_get_mut_def ll_get_def vget_def)

lemma lru_on_order_read:
  "lru_on_order (ll_get_mut i id) = andthen get_state (\<lambda>c. expect (ll_get i (lru_order c)))"
  by (auto simp: fun_eq_iff lru_on_order_def ll_get_mut_id comp_simps ret_def panic_def expect_def
      split: option.splits)

lemma lru_get_if_eq: "lru_get_if T bk q is_valid = lru_get_mut_if T bk q is_valid id"
  by (simp add: lru_get_if_def lru_get_mut_if_def lru_on_order_read andthen_assoc cong: option.case_cong)

lemma refines_get_if [refines_rules]:
  "refines (lru_wf entries bk) lru_abs (lru_get_if T bk q is_valid) (al_get_mut_if bk q is_valid id)"
  unfolding lru_get_if_eq by (rule refines_get_mut_if)

lemma lru_replace:
  assumes "lru_slots entries bk c is" "i \<in> set is" "ll_at (lru_order c) i = (k, v)" "bk key = bk k"
  obtains c1 c' where "lru_on_order (ll_set i (key, w)) c = (Returns (Some (k, v)), c1)"
    "lru_move i c1 = (Returns (), c')" "lru_slots entries bk c' (i # remove1 i is)"
    "ll_at (lru_order c') i = (key, w)"
    "lru_abs c' = (lru_abs c)\<lparr>al_items := (key, w) # a_without bk (bk key) (lru_items c)\<rparr>"
    "lru_capacity c' = lru_capacity c"
proof -
  obtain c1 where c1: "lru_on_order (ll_set i (key, w)) c = (Returns (Some (k, v)), c1)"
    "lru_slots entries bk c1 is"
    "\<And>j. j \<in> set is \<Longrightarrow> ll_at (lru_order c1) j = (if j = i then (key, w) else ll_at (lru_order c) j)"
    "c1 = c\<lparr>lru_order := lru_order c1\<rparr>"
    using lru_order_set [OF assms(1,2), of key w] assms(3,4) by auto
  have at1: "ll_at (lru_order c1) i = (key, w)" using c1(3) [OF assms(2)] by simp
  obtain c' where c': "lru_move i c1 = (Returns (), c')"
    "lru_slots entries bk c' (i # remove1 i is)" "ll_at (lru_order c') i = (key, w)"
    "lru_abs c' = (lru_abs c1)\<lparr>al_items := (key, w) # a_without bk (bk key) (lru_items c1)\<rparr>"
    "lru_capacity c' = lru_capacity c1"
    using lru_touch [OF c1(2) assms(2) at1] by blast
  have "map (ll_at (lru_order c1)) (remove1 i is) = map (ll_at (lru_order c)) (remove1 i is)"
    using c1(3) assms(1) by (intro map_cong [OF refl])
      (auto simp: lru_slots_def distinct_map dest: notin_set_remove1)
  then have wo: "a_without bk (bk key) (lru_items c1) = a_without bk (bk key) (lru_items c)"
    using lru_slots_remove1 [OF c1(2) assms(2)] lru_slots_remove1 [OF assms(1,2)] at1 assms(3,4)
    by (simp del: map_eq_conv)
  have abs1: "lru_abs c1 = (lru_abs c)\<lparr>al_items := lru_items c1\<rparr>"
    using c1(4) lru_abs_order [of "lru_order c1" c "lru_items c1"] by simp
  show ?thesis
    using c1(1) c' wo abs1 lru_abs_frame2 [OF abs1] by (intro that [of c1 c']) simp_all
qed

lemma lru_try_get_or_set_at:
  assumes wf: "lru_wf entries bk c"
  shows "refines_at (lru_wf entries bk) lru_abs (lru_try_get_or_set_with_if T bk key f is_valid upd)
     (al_try_get_or_set_with_if bk key f is_valid upd) c"
  using wf
proof (cases rule: lru_lookup_cases [of bk c "bk key"])
  case (absent "is")
  obtain c0 where c0: "lru_record_miss c = (Returns (), c0)" "lru_slots entries bk c0 is"
    "lru_hash (bk key) c0 = lru_hash (bk key) c" "lru_items c0 = lru_items c" "lru_order c0 = lru_order c"
    "lru_abs c0 = (if lru_track_hit_miss c then (lru_abs c)\<lparr>al_misses := lru_misses c + 1\<rparr> else lru_abs c)"
    "lru_capacity c0 = lru_capacity c"
    using absent(1) by (auto simp: lru_record_miss_def modify_def lru_hash_def lru_items_def)
  have wf0: "lru_wf entries bk c0" using c0(2,7) wf by (auto simp: lru_wf_def)
  have amiss: "al_record_miss (lru_abs c) = (Returns (), lru_abs c0)"
    by (simp add: al_record_miss_def modify_def c0(6))
  show ?thesis
  proof (cases "\<exists>w. f = Returns (Inr w)")
    case False
    then show ?thesis
      using absent c0(1) amiss wf0
      by (cases f rule: outcome.exhaust)
        (auto simp: refines_at_def lru_try_get_or_set_with_if_def al_try_get_or_set_with_if_def
          comp_simps split: sum.splits)
  next
    case True
    then obtain w where f: "f = Returns (Inr w)" by blast
    have fresh: "find (\<lambda>i. bk (fst (ll_at (lru_order c0) i)) = bk key) is = None"
      using absent(4) c0(5) by simp
    obtain i c1 c2 where p: "lru_on_order (ll_push_front (key, w)) c0 = (Returns i, c1)"
      "lru_insert_index T bk (lru_hash (bk key) c0) i c1 = (Returns (), c2)"
      "lru_slots entries bk c2 (i # is)" "ll_at (lru_order c2) i = (key, w)"
      "lru_abs c2 = (lru_abs c0)\<lparr>al_items := (key, w) # lru_items c0\<rparr>"
      "lru_capacity c2 = lru_capacity c0"
      using lru_push [OF c0(2) fresh] by metis
    have wf2: "lru_wf entries bk c2" using p(3,6) wf0 by (auto simp: lru_wf_def)
    obtain r c3 is' where k: "lru_check_capacity T bk c2 = (r, c3)" "lru_wf entries bk c3"
      "al_check_capacity bk (lru_abs c2) = (r, lru_abs c3)" "lru_slots entries bk c3 (i # is')"
      "ll_at (lru_order c3) i = (key, w)"
      using lru_check_capacity_front [OF wf2 p(3)] p(4) by metis
    obtain c4 where w: "lru_on_order (ll_get_mut i (apsnd upd)) c3 = (Returns (key, w), c4)"
      "lru_slots entries bk c4 (i # is')"
      "lru_abs c4 = (lru_abs c3)\<lparr>al_items := (key, upd w) # tl (lru_items c3)\<rparr>"
      "lru_capacity c4 = lru_capacity c3"
      using lru_write [OF k(4,5)] by blast
    have wf4: "lru_wf entries bk c4" using w(2,4) k(2) by (auto simp: lru_wf_def)
    have run: "lru_try_get_or_set_with_if T bk key f is_valid upd c =
        andthen (lru_check_capacity T bk) (\<lambda>_. andthen (lru_on_order (ll_get_mut i (apsnd upd)))
          (\<lambda>kv. ret (Inr (False, False, None, snd kv)))) c2"
      using absent(2) c0(1,3) p(1,2) f
      by (simp add: lru_try_get_or_set_with_if_def andthen_Returns comp_simps(2-8) Let_def)
    have arun: "al_try_get_or_set_with_if bk key f is_valid upd (lru_abs c) =
        andthen (al_check_capacity bk) (\<lambda>_.
          andthen (modify (\<lambda>s. s\<lparr>al_items := (key, upd w) # tl (al_items s)\<rparr>)) (\<lambda>_.
          ret (Inr (False, False, None, w)))) (lru_abs c2)"
      using absent(3) amiss c0(4)
      by (simp add: al_try_get_or_set_with_if_def f al_set_items_def p(5) andthen_Returns comp_simps(3-6))
    show ?thesis
      using k(1-3) w(1,3) wf4
      by (cases r) (auto simp: refines_at_def run arun comp_simps)
  qed
next
  case (present "is" i k v)
  show ?thesis
  proof (cases "is_valid v")
    case True
    obtain c0 where c0: "lru_record_hit c = (Returns (), c0)" "lru_slots entries bk c0 is"
      "ll_at (lru_order c0) i = (k, v)" "lru_items c0 = lru_items c"
      "lru_abs c0 = (if lru_track_hit_miss c then (lru_abs c)\<lparr>al_hits := lru_hits c + 1\<rparr> else lru_abs c)"
      "lru_capacity c0 = lru_capacity c"
      using present by (auto simp: lru_record_hit_def modify_def lru_items_def)
    obtain c1 where c1: "lru_move i c0 = (Returns (), c1)"
      "lru_slots entries bk c1 (i # remove1 i is)" "ll_at (lru_order c1) i = (k, v)"
      "lru_abs c1 = (lru_abs c0)\<lparr>al_items := (k, v) # a_without bk (bk k) (lru_items c0)\<rparr>"
      "lru_capacity c1 = lru_capacity c0"
      using lru_touch [OF c0(2) present(3) c0(3)] by blast
    obtain c2 where c2: "lru_on_order (ll_get_mut i (apsnd upd)) c1 = (Returns (k, v), c2)"
      "lru_slots entries bk c2 (i # remove1 i is)"
      "lru_abs c2 = (lru_abs c1)\<lparr>al_items := (k, upd v) # tl (lru_items c1)\<rparr>"
      "lru_capacity c2 = lru_capacity c1"
      using lru_write [OF c1(2,3)] by blast
    have "lru_wf entries bk c2" using c2(2,4) c1(5) c0(6) wf by (auto simp: lru_wf_def)
    then show ?thesis
      using present True c0(1) c1(1) c2(1) lru_abs_frame2 [OF c1(4)]
      by (intro refines_atI [of _ c "Returns (Inr (True, True, None, v))" c2])
        (auto simp: lru_try_get_or_set_with_if_def al_try_get_or_set_with_if_def al_set_items_def
          al_record_hit_def comp_simps c2(3) c1(4) c0(4,5))
  next
    case False
    obtain c0 where c0: "lru_record_miss c = (Returns (), c0)" "lru_slots entries bk c0 is"
      "ll_at (lru_order c0) i = (k, v)" "lru_items c0 = lru_items c"
      "lru_abs c0 = (if lru_track_hit_miss c then (lru_abs c)\<lparr>al_misses := lru_misses c + 1\<rparr> else lru_abs c)"
      "lru_capacity c0 = lru_capacity c"
      using present by (auto simp: lru_record_miss_def modify_def lru_items_def)
    have wf0: "lru_wf entries bk c0" using c0(2,6) wf by (auto simp: lru_wf_def)
    have amiss: "al_record_miss (lru_abs c) = (Returns (), lru_abs c0)"
      by (simp add: al_record_miss_def modify_def c0(5))
    show ?thesis
    proof (cases "\<exists>w. f = Returns (Inr w)")
      case no: False
      then show ?thesis
        using present False c0(1) amiss wf0
        by (cases f rule: outcome.exhaust)
          (auto simp: refines_at_def lru_try_get_or_set_with_if_def al_try_get_or_set_with_if_def
            comp_simps split: sum.splits)
    next
      case True
      then obtain w where f: "f = Returns (Inr w)" by blast
      obtain c1 c2 where r: "lru_on_order (ll_set i (key, w)) c0 = (Returns (Some (k, v)), c1)"
        "lru_move i c1 = (Returns (), c2)" "lru_slots entries bk c2 (i # remove1 i is)"
        "ll_at (lru_order c2) i = (key, w)"
        "lru_abs c2 = (lru_abs c0)\<lparr>al_items := (key, w) # a_without bk (bk key) (lru_items c0)\<rparr>"
        "lru_capacity c2 = lru_capacity c0"
        using lru_replace [OF c0(2) present(3) c0(3), of key w] present(5) by metis
      obtain c3 where c3: "lru_on_order (ll_get_mut i (apsnd upd)) c2 = (Returns (key, w), c3)"
        "lru_slots entries bk c3 (i # remove1 i is)"
        "lru_abs c3 = (lru_abs c2)\<lparr>al_items := (key, upd w) # tl (lru_items c2)\<rparr>"
        "lru_capacity c3 = lru_capacity c2"
        using lru_write [OF r(3,4)] by blast
      have "lru_wf entries bk c3" using c3(2,4) r(6) wf0 by (auto simp: lru_wf_def)
      then show ?thesis
        using present False c0(1) r(1,2) c3(1) lru_abs_frame2 [OF r(5)] amiss f
        by (intro refines_atI [of _ c "Returns (Inr (True, False, Some (k, v), w))" c3])
          (auto simp: lru_try_get_or_set_with_if_def al_try_get_or_set_with_if_def al_set_items_def
            comp_simps c3(3) r(5) c0(4))
    qed
  qed
qed

lemma refines_try_get_or_set [refines_rules]:
  "refines (lru_wf entries bk) lru_abs (lru_try_get_or_set_with_if T bk key f is_valid upd)
     (al_try_get_or_set_with_if bk key f is_valid upd)"
  by (rule refinesI) (rule lru_try_get_or_set_at)

text \<open>The infallible variant is the fallible one with a factory that never returns an error.\<close>

lemma lru_get_or_set_eq:
  "lru_get_or_set_with_if T bk key f is_valid upd =
     andthen (lru_try_get_or_set_with_if T bk key (map_outcome Inr f) is_valid upd)
       (\<lambda>r. case r of Inl (_ :: unit) \<Rightarrow> panic | Inr x \<Rightarrow> ret x)"
  by (simp add: lru_get_or_set_with_if_def lru_try_get_or_set_with_if_def Let_def andthen_push
      cong: option.case_cong sum.case_cong if_cong)

lemma refines_get_or_set [refines_rules]:
  "refines (lru_wf entries bk) lru_abs (lru_get_or_set_with_if T bk key f is_valid upd)
     (al_get_or_set_with_if bk key f is_valid upd)"
  unfolding lru_get_or_set_eq al_get_or_set_with_if_def by (intro refines_rules)

text \<open>An asynchronous factory at its \<open>await\<close> is like a synchronous one at its call.\<close>

lemma lru_with_if_async_eq:
  "lru_get_or_set_with_if_async = lru_get_or_set_with_if"
  "lru_try_get_or_set_with_if_async = lru_try_get_or_set_with_if"
  unfolding lru_get_or_set_with_if_async_def lru_get_or_set_with_if_def await_run_closure
    lru_try_get_or_set_with_if_async_def lru_try_get_or_set_with_if_def
  by simp_all

lemma lru_async_eq:
  "lru_async_cache_get_or_set_with_mut = lru_cache_get_or_set_with_mut"
  "lru_async_cache_try_get_or_set_with_mut = lru_cache_try_get_or_set_with_mut"
  by (simp_all add: fun_eq_iff lru_async_cache_get_or_set_with_mut_def lru_cache_get_or_set_with_mut_def
      lru_async_cache_try_get_or_set_with_mut_def lru_cache_try_get_or_set_with_mut_def
      lru_with_if_async_eq)

section \<open>Inserting and removing\<close>

lemma lru_set_entry_at:
  assumes wf: "lru_wf entries bk c"
  shows "refines_at (lru_wf entries bk) lru_abs (lru_cache_set_returning_entry T bk key val)
     (al_set bk key val) c"
proof -
  have tail: "refines (lru_wf entries bk) lru_abs (andthen (lru_check_capacity T bk) (\<lambda>_. ret x))
      (andthen (al_check_capacity bk) (\<lambda>_. ret x))" for x :: "('a \<times> 'c) option"
    by (intro refines_rules)
  from wf show ?thesis
  proof (cases rule: lru_lookup_cases [of bk c "bk key"])
    case (absent "is")
    obtain i c1 c2 where p: "lru_on_order (ll_push_front (key, val)) c = (Returns i, c1)"
      "lru_insert_index T bk (lru_hash (bk key) c) i c1 = (Returns (), c2)"
      "lru_slots entries bk c2 (i # is)" "ll_at (lru_order c2) i = (key, val)"
      "lru_abs c2 = (lru_abs c)\<lparr>al_items := (key, val) # lru_items c\<rparr>"
      "lru_capacity c2 = lru_capacity c"
      using lru_push [OF absent(1,4)] by metis
    have wf2: "lru_wf entries bk c2" using p(3,6) wf by (auto simp: lru_wf_def)
    show ?thesis
      using absent p(1,2)
      by (intro refines_via [OF tail [of None] wf2])
        (simp_all add: lru_cache_set_returning_entry_def al_set_def al_set_items_def p(5)
          a_without_absent comp_simps)
  next
    case (present "is" i k v)
    obtain c1 c2 where r: "lru_on_order (ll_set i (key, val)) c = (Returns (Some (k, v)), c1)"
      "lru_move i c1 = (Returns (), c2)" "lru_slots entries bk c2 (i # remove1 i is)"
      "lru_abs c2 = (lru_abs c)\<lparr>al_items := (key, val) # a_without bk (bk key) (lru_items c)\<rparr>"
      "lru_capacity c2 = lru_capacity c"
      using lru_replace [OF present(1,3,4), of key val] present(5) by metis
    have wf2: "lru_wf entries bk c2" using r(3,5) wf by (auto simp: lru_wf_def)
    show ?thesis
      using present r(1,2)
      by (intro refines_via [OF tail [of "Some (k, v)"] wf2])
        (simp_all add: lru_cache_set_returning_entry_def al_set_def al_set_items_def r(4) comp_simps)
  qed
qed

lemma refines_set_entry [refines_rules]:
  "refines (lru_wf entries bk) lru_abs (lru_cache_set_returning_entry T bk key val) (al_set bk key val)"
  by (rule refinesI) (rule lru_set_entry_at)

lemma lru_cache_set_eq:
  "lru_cache_set T bk key val =
     andthen (lru_cache_set_returning_entry T bk key val) (\<lambda>d. ret (map_option snd d))"
  by (simp add: lru_cache_set_def lru_cache_set_returning_entry_def Let_def andthen_push
      cong: option.case_cong)

lemma refines_cache_set [refines_rules]:
  "refines (lru_wf entries bk) lru_abs (lru_cache_set T bk key val)
     (andthen (al_set bk key val) (\<lambda>d. ret (map_option snd d)))"
  unfolding lru_cache_set_eq by (intro refines_rules)

lemma lru_pop_raw_at:
  assumes wf: "lru_wf entries bk c"
  shows "refines_at (lru_wf entries bk) lru_abs (lru_pop_raw T bk q) (al_pop bk q) c"
  using wf
proof (cases rule: lru_lookup_cases [of bk c q])
  case (absent "is")
  have "lru_pop_raw T bk q c = (Returns None, c)"
    using lru_table_take_absent [OF absent(1,4)]
    by (simp add: lru_pop_raw_def lru_pop_raw_with_hash_def comp_simps)
  then show ?thesis
    using wf by (rule refines_atI)
      (simp add: al_pop_def al_set_items_def a_without_absent absent comp_simps)
next
  case (present "is" i k v)
  obtain t where t: "lru_table_take T (lru_hash q c) (lru_key_is bk q c) c =
      (Returns (Some i), c\<lparr>lru_store := t\<rparr>)"
    "entries t = entries (lru_store c) - {#(lru_hash q c, i)#}"
    using lru_table_take_slots [OF present(1,3)] present(4,5) by auto
  obtain c1 where c1: "lru_on_order (ll_remove i) (c\<lparr>lru_store := t\<rparr>) = (Returns (k, v), c1)"
    "lru_slots entries bk c1 (remove1 i is)"
    "lru_abs c1 = (lru_abs c)\<lparr>al_items := a_without bk q (lru_items c)\<rparr>"
    "lru_capacity c1 = lru_capacity c"
    using lru_order_remove [OF present(1,3) _ t(2)] present(4,5) by auto
  have "lru_pop_raw T bk q c = (Returns (Some (k, v)), c1)"
    using t(1) c1(1) by (simp add: lru_pop_raw_def lru_pop_raw_with_hash_def comp_simps)
  moreover have "lru_wf entries bk c1" using c1(2,4) wf by (auto simp: lru_wf_def)
  ultimately show ?thesis
    by (rule refines_atI) (simp add: al_pop_def al_set_items_def c1(3) present(6) comp_simps)
qed

lemma refines_pop_raw [refines_rules]:
  "refines (lru_wf entries bk) lru_abs (lru_pop_raw T bk q) (al_pop bk q)"
  by (rule refinesI) (rule lru_pop_raw_at)

lemma refines_remove_entry [refines_rules]:
  "refines (lru_wf entries bk) lru_abs (lru_cache_remove_entry T bk q) (al_remove_entry bk q)"
  unfolding lru_cache_remove_entry_def al_remove_entry_def by (intro refines_rules)

lemma refines_remove [refines_rules]:
  "refines (lru_wf entries bk) lru_abs (lru_cache_remove T bk q)
     (andthen (al_remove_entry bk q) (\<lambda>r. ret (map_option snd r)))"
  unfolding lru_cache_remove_def by (intro refines_rules)

lemma lru_remove_index_slots:
  assumes "lru_wf entries bk c" "lru_slots entries bk c is" "i \<in> set is"
    "ll_at (lru_order c) i = (k, v)"
  obtains c' where "lru_remove_index T bk i c = (Returns (k, v), c')" "lru_wf entries bk c'"
    "lru_slots entries bk c' (remove1 i is)"
    "\<And>j. j \<in> set is \<Longrightarrow> j \<noteq> i \<Longrightarrow> ll_at (lru_order c') j = ll_at (lru_order c) j"
    "lru_abs c' = (lru_abs c)\<lparr>al_items := a_without bk (bk k) (lru_items c)\<rparr>"
proof -
  obtain t where t: "lru_table_take T (lru_hash (bk k) c) (\<lambda>j. Some (j = i)) c =
      (Returns (Some i), c\<lparr>lru_store := t\<rparr>)"
    "entries t = entries (lru_store c) - {#(lru_hash (bk k) c, i)#}"
    using lru_table_take_slots [OF assms(2,3)] assms(4) by auto
  obtain c1 where c1: "lru_on_order (ll_remove i) (c\<lparr>lru_store := t\<rparr>) = (Returns (k, v), c1)"
    "lru_slots entries bk c1 (remove1 i is)"
    "\<And>j. j \<in> set is \<Longrightarrow> j \<noteq> i \<Longrightarrow> ll_at (lru_order c1) j = ll_at (lru_order c) j"
    "lru_abs c1 = (lru_abs c)\<lparr>al_items := a_without bk (bk k) (lru_items c)\<rparr>"
    "lru_capacity c1 = lru_capacity c"
    using lru_order_remove [OF assms(2,3) _ t(2)] assms(4) by auto
  have "lru_remove_index T bk i c = (Returns (k, v), c1)"
    using t(1) c1(1) lru_slots_get [OF assms(2,3)] assms(4)
    by (simp add: lru_remove_index_def comp_simps)
  moreover have "lru_wf entries bk c1" using c1(2,5) assms(1) by (auto simp: lru_wf_def)
  ultimately show ?thesis using c1(2-4) by (intro that)
qed

lemma lru_sweep_at:
  assumes "lru_wf entries bk c" "lru_slots entries bk c is" "distinct js" "set js \<subseteq> set is"
  shows "refines_at (lru_wf entries bk) lru_abs
    (foreach js (lru_evict_index T bk))
    (foreach (map (ll_at (lru_order c)) js) (al_drop_entry bk)) c"
  using assms
proof (induction js arbitrary: c "is")
  case Nil
  then show ?case by (simp add: refines_at_def ret_def)
next
  case (Cons i js)
  obtain k v where kv: "ll_at (lru_order c) i = (k, v)" by force
  have i: "i \<in> set is" using Cons.prems by simp
  obtain c1 where c1: "lru_remove_index T bk i c = (Returns (k, v), c1)" "lru_wf entries bk c1"
    "lru_slots entries bk c1 (remove1 i is)"
    "\<And>j. j \<in> set is \<Longrightarrow> j \<noteq> i \<Longrightarrow> ll_at (lru_order c1) j = ll_at (lru_order c) j"
    "lru_abs c1 = (lru_abs c)\<lparr>al_items := a_without bk (bk k) (lru_items c)\<rparr>"
    using lru_remove_index_slots [OF Cons.prems(1,2) i kv] by metis
  define c2 where "c2 = c1\<lparr>lru_evictions := lru_evictions c1 + 1,
    lru_calls := lru_calls c1 @ cb_calls (lru_on_evict c1) [(k, v)]\<rparr>"
  have same: "lru_on_evict c1 = lru_on_evict c" "lru_evictions c1 = lru_evictions c"
    "lru_calls c1 = lru_calls c"
    using c1(5) by (auto simp: lru_abs_def)
  have step: "lru_evict_index T bk i c =
      (if cb_ok (lru_on_evict c) k v then Returns () else Panics, c2)"
    using c1(1)
    by (simp add: lru_evict_index_def lru_count_evictions_def lru_notify_apply comp_simps c2_def same)
  have astep: "al_drop_entry bk (k, v) (lru_abs c) =
      (if cb_ok (lru_on_evict c) k v then Returns () else Panics, lru_abs c2)"
    by (simp add: al_drop_entry_apply c2_def c1(5) same)
  have c2: "lru_wf entries bk c2" "lru_slots entries bk c2 (remove1 i is)"
    using c1(2,3) by (simp_all add: c2_def)
  have "distinct is" using Cons.prems(2) by (auto simp: lru_slots_def distinct_map)
  then have sub: "set js \<subseteq> set (remove1 i is)" using Cons.prems(3,4) by auto
  have "map (ll_at (lru_order c2)) js = map (ll_at (lru_order c)) js"
    using Cons.prems(3,4) c1(4) by (intro map_cong [OF refl]) (auto simp: c2_def)
  then have "refines_at (lru_wf entries bk) lru_abs
    (foreach js (lru_evict_index T bk))
    (foreach (map (ll_at (lru_order c)) js) (al_drop_entry bk)) c2"
    using Cons.IH [OF c2 _ sub] Cons.prems(3) by (simp del: map_eq_conv)
  then show ?case
    using step astep c2(1) kv
    by (cases "cb_ok (lru_on_evict c) k v") (auto simp: refines_at_def andthen_apply)
qed

lemma lru_doomed_indices_slots:
  assumes "lru_slots entries bk c is"
  shows "al_doomed keep (lru_items c) = map_option (map (ll_at (lru_order c))) (lru_doomed_indices keep c)"
    and "lru_doomed_indices keep c = Some js \<Longrightarrow> set js \<subseteq> set is \<and> distinct js"
proof -
  obtain free where r: "ll_rep (lru_order c) is free" using assms by (auto simp: lru_slots_def)
  let ?p = "\<lambda>i. do { kv \<leftarrow> ll_get i (lru_order c); map_option Not (keep (fst kv) (snd kv)) }"
  have d: "lru_doomed_indices keep c = filter_closure ?p is"
    using ll_iter_rep(2) [OF r] by (simp add: lru_doomed_indices_def)
  also have "\<dots> = filter_closure (\<lambda>i. map_option Not
      (keep (fst (ll_at (lru_order c) i)) (snd (ll_at (lru_order c) i)))) is"
    using lru_slots_get [OF assms] by (intro filter_closure_cong) simp
  finally show "al_doomed keep (lru_items c) =
      map_option (map (ll_at (lru_order c))) (lru_doomed_indices keep c)"
    by (simp add: al_doomed_def lru_slots_items [OF assms] filter_closure_map)
  have "distinct is" using assms by (auto simp: lru_slots_def distinct_map)
  then show "lru_doomed_indices keep c = Some js \<Longrightarrow> set js \<subseteq> set is \<and> distinct js"
    by (auto simp: d dest!: filter_closure_Some)
qed

lemma lru_retain_at:
  assumes wf: "lru_wf entries bk c"
  shows "refines_at (lru_wf entries bk) lru_abs (lru_retain T bk keep) (al_retain bk keep) c"
proof -
  obtain "is" where sl: "lru_slots entries bk c is" using wf by (auto simp: lru_wf_def)
  note doomed = lru_doomed_indices_slots [OF sl, of keep]
  show ?thesis
  proof (cases "lru_doomed_indices keep c")
    case None
    then show ?thesis
      using wf doomed(1) by (simp add: refines_at_def lru_retain_def al_retain_def comp_simps)
  next
    case (Some js)
    then have js: "distinct js" "set js \<subseteq> set is" using doomed(2) by auto
    let ?m = "foreach js (lru_evict_index T bk)"
    have s: "refines_at (lru_wf entries bk) lru_abs ?m
        (foreach (map (ll_at (lru_order c)) js) (al_drop_entry bk)) c"
      by (rule lru_sweep_at [OF wf sl js])
    then show ?thesis
      using Some doomed(1)
      by (cases "?m c"; cases "fst (?m c)")
        (auto simp: refines_at_def lru_retain_def al_retain_def comp_simps)
  qed
qed

lemma refines_retain [refines_rules]:
  "refines (lru_wf entries bk) lru_abs (lru_retain T bk keep) (al_retain bk keep)"
  by (rule refinesI) (rule lru_retain_at)

section \<open>Clearing\<close>

lemma lru_cleared:
  assumes "lru_wf entries bk c" "entries t = {#}" "ll_rep l [] free"
  shows "lru_wf entries bk (c\<lparr>lru_store := t, lru_order := l\<rparr>)"
    "lru_abs (c\<lparr>lru_store := t, lru_order := l\<rparr>) = (lru_abs c)\<lparr>al_items := []\<rparr>"
proof -
  have "lru_slots entries bk (c\<lparr>lru_store := t, lru_order := l\<rparr>) []"
    using assms(2,3) by (intro lru_slotsI) simp_all
  then show "lru_wf entries bk (c\<lparr>lru_store := t, lru_order := l\<rparr>)"
    using assms(1) by (auto simp: lru_wf_def)
  show "lru_abs (c\<lparr>lru_store := t, lru_order := l\<rparr>) = (lru_abs c)\<lparr>al_items := []\<rparr>"
    using ll_iter_rep(1) [OF assms(3)] by (simp add: lru_abs_def lru_items_def)
qed

lemma refines_drain_all [refines_rules]:
  "refines (lru_wf entries bk) lru_abs (lru_drain_all T)
     (andthen get_state (\<lambda>s. andthen (al_set_items []) (\<lambda>_. ret (al_items s))))"
proof (rule refinesI)
  fix c assume wf: "lru_wf entries bk c"
  then obtain "is" where sl: "lru_slots entries bk c is" by (auto simp: lru_wf_def)
  then obtain free where r: "ll_rep (lru_order c) is free" by (auto simp: lru_slots_def)
  have "lru_drain_all T c = (Returns (lru_items c),
      c\<lparr>lru_store := ht_clear T (lru_store c), lru_order := ll_clear (lru_order c)\<rparr>)"
    using ll_drain_into_rep [OF r, of "[]"] lru_slots_items [OF sl]
    by (simp add: lru_drain_all_def lru_on_order_def comp_simps)
  then show "refines_at (lru_wf entries bk) lru_abs (lru_drain_all T)
     (andthen get_state (\<lambda>s. andthen (al_set_items []) (\<lambda>_. ret (al_items s)))) c"
    using lru_cleared(1) [OF wf ht_clear_entries ll_clear_rep]
    by (rule refines_atI)
      (simp add: al_set_items_def lru_cleared(2) [OF wf ht_clear_entries ll_clear_rep] comp_simps)
qed

lemma refines_clear [refines_rules]:
  "refines (lru_wf entries bk) lru_abs (lru_cache_clear T) (al_set_items [])"
  unfolding lru_cache_clear_def al_set_items_def
  by (rule refines_modify) (auto simp: lru_cleared [OF _ ht_clear_entries ll_clear_rep])

lemma refines_clear_with_on_evict [refines_rules]:
  "refines (lru_wf entries bk) lru_abs (lru_cache_clear_with_on_evict T) al_clear_with_on_evict"
  unfolding lru_cache_clear_with_on_evict_def al_clear_with_on_evict_drain
  by (intro refines_rules)

section \<open>Changing the capacity\<close>

lemma lru_fit_loop_at:
  assumes wf: "lru_wf entries bk c" and fuel: "length (lru_items c) \<le> n"
  shows "refines_at (lru_wf entries bk) lru_abs (lru_fit_loop n T bk) (al_check_capacity bk) c"
proof (cases "length (lru_items c) > lru_capacity c")
  case False
  then have "lru_fit_loop n T bk c = (Returns (), c)"
    by (cases n) (simp_all add: lru_wf_len [OF wf])
  with False wf show ?thesis
    by (simp add: refines_at_def al_check_capacity_def comp_simps)
next
  case True
  then obtain m where n: "n = Suc m" using fuel by (cases n) simp_all
  obtain r c' where m: "lru_check_capacity T bk c = (r, c')" by force
  note chk = refinesD [OF refines_check_capacity wf, unfolded m, simplified]
  have "lru_fit_loop m T bk c' = (Returns (), c')" if "r = Returns ()"
  proof -
    have "length (lru_items c') \<le> lru_capacity c'"
      using al_check_capacity_fits [of bk "lru_abs c" "lru_abs c'"] chk lru_wf_a_wf [OF wf] that
      by simp
    then show ?thesis by (cases m) (simp_all add: lru_wf_len [OF chk(1)])
  qed
  then have "lru_fit_loop n T bk c = (r, c')"
    using True m by (cases r) (simp_all add: n lru_wf_len [OF wf] andthen_apply)
  then show ?thesis using chk by (simp add: refines_at_def)
qed

lemma refines_set_max_size [refines_rules]:
  "refines (lru_wf entries bk) lru_abs (lru_set_max_size T bk n) (al_set_max_size bk n)"
proof (rule refinesI)
  fix c assume wf: "lru_wf entries bk c"
  show "refines_at (lru_wf entries bk) lru_abs (lru_set_max_size T bk n) (al_set_max_size bk n) c"
  proof (cases "n = 0")
    case True
    then show ?thesis
      using wf by (simp add: refines_at_def lru_set_max_size_def al_set_max_size_def comp_simps)
  next
    case False
    let ?c = "c\<lparr>lru_capacity := n\<rparr>"
    have wf': "lru_wf entries bk ?c" using wf False by (simp add: lru_wf_def)
    have a: "lru_abs ?c = (lru_abs c)\<lparr>al_capacity := n\<rparr>" by (simp add: lru_abs_def lru_items_def)
    let ?m = "lru_fit_loop (length (lru_items c)) T bk"
    have "refines_at (lru_wf entries bk) lru_abs ?m (al_check_capacity bk) ?c"
      by (rule lru_fit_loop_at [OF wf']) (simp add: lru_items_def)
    then show ?thesis
      using False lru_wf_len [OF wf]
      by (cases "?m ?c"; cases "fst (?m ?c)")
        (auto simp: refines_at_def lru_set_max_size_def al_set_max_size_def comp_simps a)
  qed
qed

lemma refines_try_set_max_size [refines_rules]:
  "refines (lru_wf entries bk) lru_abs (lru_try_set_max_size T bk n)
     (if n = 0 then ret (Inl ZeroMaxSize)
      else andthen (al_set_max_size bk n) (\<lambda>p. ret (Inr p)))"
  unfolding lru_try_set_max_size_def by (auto intro!: refines_rules)

section \<open>The rest of the interface\<close>

lemma refines_cache_get [refines_rules]:
  "refines (lru_wf entries bk) lru_abs (lru_cache_get T bk q) (al_get_mut_if bk q (\<lambda>_. True) id)"
  unfolding lru_cache_get_def by (rule refines_get_if)

lemma refines_cache_get_mut [refines_rules]:
  "refines (lru_wf entries bk) lru_abs (lru_cache_get_mut T bk q upd)
     (al_get_mut_if bk q (\<lambda>_. True) upd)"
  unfolding lru_cache_get_mut_def by (rule refines_get_mut_if)

lemma refines_cache_get_or_set [refines_rules]:
  "refines (lru_wf entries bk) lru_abs (lru_cache_get_or_set_with_mut T bk key f upd)
     (andthen (al_get_or_set_with_if bk key f (\<lambda>_. True) upd) (\<lambda>(_, _, _, v). ret v))"
  unfolding lru_cache_get_or_set_with_mut_def by (intro refines_rules)

lemma refines_cache_try_get_or_set [refines_rules]:
  "refines (lru_wf entries bk) lru_abs (lru_cache_try_get_or_set_with_mut T bk key f upd)
     (andthen (al_try_get_or_set_with_if bk key f (\<lambda>_. True) upd) (\<lambda>r. case r of
        Inl e \<Rightarrow> ret (Inl e) | Inr (_, _, _, v) \<Rightarrow> ret (Inr v)))"
  unfolding lru_cache_try_get_or_set_with_mut_def by (intro refines_rules)

lemma lru_cache_peek_wf:
  assumes "lru_wf entries bk c"
  shows "lru_cache_peek T bk q c = (Returns (map_option snd (a_find bk q (lru_items c))), c)"
  using assms
  by (cases rule: lru_lookup_cases [of bk c q]) (simp_all add: lru_cache_peek_def comp_simps)

lemma lru_cache_contains_wf:
  assumes "lru_wf entries bk c"
  shows "lru_cache_contains T bk q c = (Returns (a_find bk q (lru_items c) \<noteq> None), c)"
  using lru_cache_peek_wf [OF assms, of q]
  by (cases "a_find bk q (lru_items c)") (simp_all add: lru_cache_contains_def comp_simps)

lemma refines_reset_metrics [refines_rules]:
  "refines (lru_wf entries bk) lru_abs lru_cache_reset_metrics al_reset_metrics"
  unfolding lru_cache_reset_metrics_def al_reset_metrics_def
  by (rule refines_modify) (simp add: lru_abs_def lru_items_def)

lemma lru_cache_reset_eq:
  assumes "list_alloc 2"
  shows "lru_cache_reset T list_alloc =
    andthen (modify (\<lambda>c. c\<lparr>lru_store := ht_new T, lru_order := \<lparr>ll_values = ll_sentinels\<rparr>\<rparr>))
      (\<lambda>_. lru_cache_reset_metrics)"
proof -
  have a: "ll_with_capacity list_alloc 0 = Some \<lparr>ll_values = ll_sentinels\<rparr>"
    using assms unfolding ll_with_capacity_def usize_saturating_add_def usize_max_def
    by (simp flip: numeral_2_eq_2)
  then show ?thesis
    by (simp add: lru_cache_reset_def ll_try_with_capacity_def a comp_simps fun_eq_iff
        split: option.splits)
qed

lemma refines_new_store [refines_rules]:
  "refines (lru_wf entries bk) lru_abs
    (modify (\<lambda>c. c\<lparr>lru_store := ht_new T, lru_order := \<lparr>ll_values = ll_sentinels\<rparr>\<rparr>)) (al_set_items [])"
  unfolding al_set_items_def
  by (rule refines_modify) (auto simp: lru_cleared [OF _ ht_new_entries ll_new_rep])

lemma refines_reset:
  "list_alloc 2 \<Longrightarrow> refines (lru_wf entries bk) lru_abs (lru_cache_reset T list_alloc)
    (andthen (al_set_items []) (\<lambda>_. al_reset_metrics))"
  unfolding lru_cache_reset_eq by (intro refines_rules)

lemma lru_build_wf:
  assumes "lru_build T table_alloc list_alloc b = Inr c"
  shows "lru_wf entries bk c"
    "lru_abs c = \<lparr>al_items = [], al_capacity = the (lrub_size b), al_hits = 0, al_misses = 0,
       al_evictions = 0, al_on_evict = lrub_on_evict b, al_track_hit_miss = True, al_calls = []\<rparr>"
proof -
  obtain n where n: "lrub_size b = Some n" "0 < n"
    and c: "c = \<lparr>lru_store = ht_new T, lru_hash_builder = lrub_hasher b,
      lru_order = \<lparr>ll_values = ll_sentinels\<rparr>,
      lru_capacity = n, lru_hits = 0, lru_misses = 0, lru_evictions = 0,
      lru_on_evict = lrub_on_evict b, lru_track_hit_miss = True, lru_calls = []\<rparr>"
    using assms by (auto simp: lru_build_def ll_try_with_capacity_def
        split: option.splits if_splits sum.splits)
  have "lru_slots entries bk c []"
    by (rule lru_slotsI [of c "[]" "[]"]) (simp_all add: c ll_new_rep ht_new_entries)
  then show "lru_wf entries bk c" using n by (auto simp: lru_wf_def c)
  show "lru_abs c = \<lparr>al_items = [], al_capacity = the (lrub_size b), al_hits = 0, al_misses = 0,
       al_evictions = 0, al_on_evict = lrub_on_evict b, al_track_hit_miss = True, al_calls = []\<rparr>"
    using n by (simp add: lru_abs_def lru_items_def c ll_iter_rep(1) [OF ll_new_rep])
qed

lemma lru_iter_wf: "lru_wf entries bk c \<Longrightarrow> ll_iter (lru_order c) = Some (lru_items c)"
  by (auto simp: lru_wf_def lru_slots_def lru_items_def ll_iter_rep)

lemma lru_size_wf: "lru_wf entries bk c \<Longrightarrow> lru_cache_size T c = length (lru_items c)"
  by (simp add: lru_cache_size_def lru_wf_len)

text \<open>\<open>PartialEq\<close> compares the two caches as maps from keys to values.\<close>

lemma lru_eq_wf:
  assumes c: "lru_wf entries bk c" and d: "lru_wf entries bk d"
  shows "lru_eq T bk c d = Some (length (lru_items c) = length (lru_items d) \<and>
    (\<forall>(k, v) \<in> set (lru_items c). map_option snd (a_find bk (bk k) (lru_items d)) = Some v))"
proof -
  have one: "(do { found \<leftarrow> lru_get_index T bk (lru_hash (bk k) d) (bk k) d;
       (case found of None \<Rightarrow> Some True
        | Some i \<Rightarrow> do { kv \<leftarrow> ll_get i (lru_order d); Some (v \<noteq> snd kv) }) }) =
     Some (map_option snd (a_find bk (bk k) (lru_items d)) \<noteq> Some v)" for k v
    using d by (cases rule: lru_lookup_cases [of bk d "bk k"]) auto
  have "filter_closure (\<lambda>(k, v). do {
       found \<leftarrow> lru_get_index T bk (lru_hash (bk k) d) (bk k) d;
       (case found of None \<Rightarrow> Some True
        | Some i \<Rightarrow> do { kv \<leftarrow> ll_get i (lru_order d); Some (v \<noteq> snd kv) }) }) (lru_items c) =
     Some (filter (\<lambda>(k, v). map_option snd (a_find bk (bk k) (lru_items d)) \<noteq> Some v) (lru_items c))"
    by (rule filter_closure_total) (auto simp: one)
  then show ?thesis
    by (auto simp: lru_eq_def lru_wf_len [OF c] lru_wf_len [OF d] lru_iter_wf [OF c]
        filter_empty_conv)
qed

end

end
