(* ===== verification/State_Machine.thy ===== *)
theory State_Machine
  imports Prelude
begin

text \<open>
  Stores as state machines. A store is given by \<open>exec\<close>, the computation of each operation a client
  can call; \<open>execution exec s tr t\<close> relates the states before and after a sequence of calls and the
  trace of operations with their outcomes. A call that panics (a user callback or factory did)
  leaves the store in the state of the panic and the client may go on, as behind a lock that ignores
  poisoning. Two contracts are stated as locales: an invariant that every call keeps, and a
  simulation between a store and its specification.
\<close>

section \<open>Computations that keep a predicate\<close>

definition keeps :: "('s \<Rightarrow> bool) \<Rightarrow> ('s, 'a) comp \<Rightarrow> bool" where
  "keeps I m \<longleftrightarrow> (\<forall>s. I s \<longrightarrow> I (snd (m s)))"

named_theorems keeps_rules \<open>computations that keep a predicate\<close>

lemma keepsI: "(\<And>s. I s \<Longrightarrow> I (snd (m s))) \<Longrightarrow> keeps I m"
  by (simp add: keeps_def)

lemma keepsD: "keeps I m \<Longrightarrow> I s \<Longrightarrow> I (snd (m s))"
  by (simp add: keeps_def)

lemma keeps_ret [keeps_rules]: "keeps I (ret x)"
  by (simp add: keeps_def ret_def)

lemma keeps_panic [keeps_rules]: "keeps I panic"
  by (simp add: keeps_def panic_def)

lemma keeps_run_closure [keeps_rules]: "keeps I (run_closure r)"
  by (simp add: keeps_def run_closure_def)

lemma keeps_get_state [keeps_rules]: "keeps I get_state"
  by (simp add: keeps_def get_state_def)

lemma keeps_andthen [keeps_rules]:
  "keeps I m \<Longrightarrow> (\<And>x. keeps I (f x)) \<Longrightarrow> keeps I (andthen m f)"
  by (fastforce simp: keeps_def andthen_def split: prod.splits outcome.splits)

lemma keeps_after: "I (snd (m s)) \<Longrightarrow> (\<And>x. keeps I (f x)) \<Longrightarrow> I (snd (andthen m f s))"
  by (auto simp: keeps_def andthen_def split: prod.splits outcome.splits)

lemma keeps_state: "(\<And>s. I s \<Longrightarrow> I (snd (f s s))) \<Longrightarrow> keeps I (andthen get_state f)"
  by (simp add: keeps_def andthen_def get_state_def)

lemma keeps_read: "(\<And>s. I s \<Longrightarrow> keeps I (f s)) \<Longrightarrow> keeps I (andthen get_state f)"
  by (simp add: keeps_def andthen_def get_state_def)

lemma keeps_cwhen [keeps_rules]: "keeps I m \<Longrightarrow> keeps I (cwhen b m)"
  by (simp add: cwhen_def keeps_ret)

lemma keeps_expect: "(\<And>a. x = Some a \<Longrightarrow> keeps I (f a)) \<Longrightarrow> keeps I (andthen (expect x) f)"
  by (cases x) (simp_all add: expect_def keeps_panic)

lemma keeps_expect_any [keeps_rules]: "keeps I (expect x)"
  by (cases x) (simp_all add: expect_def keeps_panic keeps_ret)

lemma keeps_foreach [keeps_rules]: "(\<And>x. keeps I (f x)) \<Longrightarrow> keeps I (foreach xs f)"
  by (induction xs) (auto intro: keeps_rules)

lemma keeps_as_result [keeps_rules]: "keeps I m \<Longrightarrow> keeps I (as_result m f)"
  unfolding as_result_def by (intro keeps_rules)

lemma keeps_prod [keeps_rules]:
  "(\<And>a b. keeps I (f a b)) \<Longrightarrow> keeps I (case x of (a, b) \<Rightarrow> f a b)"
  by (cases x) simp

lemma keeps_sum [keeps_rules]:
  "(\<And>a. keeps I (f a)) \<Longrightarrow> (\<And>a. keeps I (g a)) \<Longrightarrow> keeps I (case x of Inl a \<Rightarrow> f a | Inr a \<Rightarrow> g a)"
  by (cases x) simp_all

lemma keeps_option [keeps_rules]:
  "keeps I m \<Longrightarrow> (\<And>a. keeps I (f a)) \<Longrightarrow> keeps I (case x of None \<Rightarrow> m | Some a \<Rightarrow> f a)"
  by (cases x) simp_all

lemma keeps_if [keeps_rules]: "keeps I m \<Longrightarrow> keeps I n \<Longrightarrow> keeps I (if b then m else n)"
  by simp

section \<open>Executions\<close>

inductive execution :: "('op \<Rightarrow> ('s, 'r) comp) \<Rightarrow> 's \<Rightarrow> ('op \<times> 'r outcome) list \<Rightarrow> 's \<Rightarrow> bool"
  for exec :: "'op \<Rightarrow> ('s, 'r) comp" and s0 :: 's where
  start: "execution exec s0 [] s0"
| call: "\<lbrakk>execution exec s0 tr s; exec op s = (r, t)\<rbrakk> \<Longrightarrow> execution exec s0 (tr @ [(op, r)]) t"

inductive_cases execution_snocE: "execution exec s0 (tr @ [(op, r)]) t"
inductive_simps execution_Nil [simp]: "execution exec s0 [] t"

lemma execution_append:
  assumes "execution exec t us u"
  shows "execution exec s tr t \<Longrightarrow> execution exec s (tr @ us) u"
  using assms
  by (induction rule: execution.induct) (auto dest: execution.call simp flip: append_assoc)

lemma execution_single: "execution exec s [(op, r)] t \<longleftrightarrow> exec op s = (r, t)"
  by (auto elim: execution_snocE [of _ _ "[]", simplified] intro: execution.call [OF execution.start, simplified])

text \<open>Every sequence of calls has an execution: \<open>run\<close> computes it.\<close>

fun run :: "('op \<Rightarrow> ('s, 'r) comp) \<Rightarrow> 'op list \<Rightarrow> 's \<Rightarrow> ('op \<times> 'r outcome) list \<times> 's" where
  "run exec [] s = ([], s)"
| "run exec (op # ops) s =
     (let (r, t) = exec op s; (tr, u) = run exec ops t in ((op, r) # tr, u))"

lemma run_ops: "map fst (fst (run exec ops s)) = ops"
  by (induction ops arbitrary: s) (auto simp: case_prod_beta Let_def)

lemma run_execution: "execution exec s (fst (run exec ops s)) (snd (run exec ops s))"
proof (induction ops arbitrary: s)
  case (Cons op ops)
  let ?r = "exec op s"
  have "execution exec s ([(op, fst ?r)] @ fst (run exec ops (snd ?r))) (snd (run exec ops (snd ?r)))"
    by (rule execution_append [OF Cons.IH]) (simp add: execution_single)
  then show ?case by (simp add: case_prod_beta Let_def)
qed (simp add: execution.start)

lemma execution_ex: "\<exists>tr t. execution exec s tr t \<and> map fst tr = ops"
  using run_execution [of exec s ops] run_ops [of exec ops s] by blast

lemma execution_run: "execution exec s tr t \<Longrightarrow> run exec (map fst tr) s = (tr, t)"
proof (induction rule: execution.induct)
  case (call tr s' op r t)
  have "run exec (ops @ [op]) s = (let (tr, t) = run exec ops s; (r, u) = exec op t in (tr @ [(op, r)], u))"
    for ops s by (induction ops arbitrary: s) (auto simp: case_prod_beta Let_def)
  then show ?case using call by simp
qed simp

locale machine_invariant =
  fixes exec :: "'op \<Rightarrow> ('s, 'r) comp"
    and inv :: "'s \<Rightarrow> bool"
  assumes inv_call: "inv s \<Longrightarrow> inv (snd (exec op s))"
begin

lemma inv_execution: "execution exec s tr t \<Longrightarrow> inv s \<Longrightarrow> inv t"
  by (induction rule: execution.induct) (auto dest: inv_call simp: prod_eq_iff)

end

locale simulation =
  fixes exec :: "'op \<Rightarrow> ('c, 'r) comp"
    and spec :: "'op \<Rightarrow> ('a, 'r) comp"
    and wf :: "'c \<Rightarrow> bool"
    and av :: "'c \<Rightarrow> 'a"
  assumes sim: "refines wf av (exec op) (spec op)"
begin

lemma wf_call: "wf c \<Longrightarrow> wf (snd (exec op c))"
  by (rule refinesD(1) [OF sim])

lemma simulates:
  assumes "execution exec c tr d" "wf c"
  shows "wf d \<and> execution spec (av c) tr (av d)"
  using assms
proof (induction rule: execution.induct)
  case (call tr d op r e)
  then have "wf d" "execution spec (av c) tr (av d)" by simp_all
  moreover have "wf e" "spec op (av d) = (r, av e)"
    using refinesD [OF sim [of op] \<open>wf d\<close>] call(2) by simp_all
  ultimately show ?case by (auto intro: execution.call)
qed (simp add: execution.start)

end

sublocale simulation \<subseteq> wf: machine_invariant exec wf
  by unfold_locales (rule wf_call)

end
