(* ===== verification/Lru_Machine.thy ===== *)
theory Lru_Machine
  imports Lru_Refine State_Machine
begin

text \<open>
  An \<open>LruCache\<close> as a state machine (\<open>State_Machine\<close>): the operations a client can call, with the
  computation of each in the model of the code (\<open>lru_exec\<close>) and in the specification (\<open>al_exec\<close>).
  The locale \<open>lru_env\<close> collects what a store needs from its surroundings; in it the cache simulates
  the specification, and the invariants of the specification carry over to every execution.
\<close>

datatype (plugins only: code size) (dead 'k, dead 'v, dead 'q, dead 'e) lru_op =
    OpGet 'q
  | OpGetMut 'q "'v \<Rightarrow> 'v"
  | OpSet 'k 'v
  | OpGetOrSet 'k "'v outcome" "'v \<Rightarrow> 'v"
  | OpTryGetOrSet 'k "('e + 'v) outcome" "'v \<Rightarrow> 'v"
  | OpAsyncGetOrSet 'k "'v outcome" "'v \<Rightarrow> 'v"
  | OpAsyncTryGetOrSet 'k "('e + 'v) outcome" "'v \<Rightarrow> 'v"
  | OpRemove 'q
  | OpRemoveEntry 'q
  | OpPeek 'q
  | OpContains 'q
  | OpRetain "('k, 'v) predicate"
  | OpSetMaxSize usize
  | OpTrySetMaxSize usize
  | OpClear
  | OpClearWithOnEvict
  | OpResetMetrics
  | OpReset

datatype (plugins only: code size) (dead 'k, dead 'v, dead 'e) lru_result =
    RUnit
  | RValue 'v
  | RTry "'e + 'v"
  | RLookup "'v option"
  | REntry "('k \<times> 'v) option"
  | RBool bool
  | RCount usize
  | RCapacity "usize option"
  | RTryCapacity "set_max_size_error + usize option"

fun lru_exec :: "'t table_ops \<Rightarrow> ('k \<Rightarrow> 'q) \<Rightarrow> (usize \<Rightarrow> bool) \<Rightarrow> ('k, 'v, 'q, 'e) lru_op
    \<Rightarrow> (('k, 'v, 'q, 't) lru_cache, ('k, 'v, 'e) lru_result) comp" where
  "lru_exec T bk alloc (OpGet q) = as_result (lru_cache_get T bk q) RLookup"
| "lru_exec T bk alloc (OpGetMut q upd) = as_result (lru_cache_get_mut T bk q upd) RLookup"
| "lru_exec T bk alloc (OpSet k v) = as_result (lru_cache_set T bk k v) RLookup"
| "lru_exec T bk alloc (OpGetOrSet k f upd) =
     as_result (lru_cache_get_or_set_with_mut T bk k f upd) RValue"
| "lru_exec T bk alloc (OpTryGetOrSet k f upd) =
     as_result (lru_cache_try_get_or_set_with_mut T bk k f upd) RTry"
| "lru_exec T bk alloc (OpAsyncGetOrSet k f upd) =
     as_result (lru_async_cache_get_or_set_with_mut T bk k f upd) RValue"
| "lru_exec T bk alloc (OpAsyncTryGetOrSet k f upd) =
     as_result (lru_async_cache_try_get_or_set_with_mut T bk k f upd) RTry"
| "lru_exec T bk alloc (OpRemove q) = as_result (lru_cache_remove T bk q) RLookup"
| "lru_exec T bk alloc (OpRemoveEntry q) = as_result (lru_cache_remove_entry T bk q) REntry"
| "lru_exec T bk alloc (OpPeek q) = as_result (lru_cache_peek T bk q) RLookup"
| "lru_exec T bk alloc (OpContains q) = as_result (lru_cache_contains T bk q) RBool"
| "lru_exec T bk alloc (OpRetain keep) = as_result (lru_retain T bk keep) RCount"
| "lru_exec T bk alloc (OpSetMaxSize n) = as_result (lru_set_max_size T bk n) RCapacity"
| "lru_exec T bk alloc (OpTrySetMaxSize n) = as_result (lru_try_set_max_size T bk n) RTryCapacity"
| "lru_exec T bk alloc OpClear = as_result (lru_cache_clear T) (\<lambda>_. RUnit)"
| "lru_exec T bk alloc OpClearWithOnEvict = as_result (lru_cache_clear_with_on_evict T) (\<lambda>_. RUnit)"
| "lru_exec T bk alloc OpResetMetrics = as_result lru_cache_reset_metrics (\<lambda>_. RUnit)"
| "lru_exec T bk alloc OpReset = as_result (lru_cache_reset T alloc) (\<lambda>_. RUnit)"

text \<open>The same operations of the specification.\<close>

definition al_peek :: "('k \<Rightarrow> 'q) \<Rightarrow> 'q \<Rightarrow> (('k, 'v) alru, 'v option) comp" where
  "al_peek bk q = andthen get_state (\<lambda>s. ret (map_option snd (a_find bk q (al_items s))))"

fun al_exec :: "('k \<Rightarrow> 'q) \<Rightarrow> ('k, 'v, 'q, 'e) lru_op \<Rightarrow> (('k, 'v) alru, ('k, 'v, 'e) lru_result) comp" where
  "al_exec bk (OpGet q) = as_result (al_get_mut_if bk q (\<lambda>_. True) id) RLookup"
| "al_exec bk (OpGetMut q upd) = as_result (al_get_mut_if bk q (\<lambda>_. True) upd) RLookup"
| "al_exec bk (OpSet k v) = as_result (andthen (al_set bk k v) (\<lambda>d. ret (map_option snd d))) RLookup"
| "al_exec bk (OpGetOrSet k f upd) =
     as_result (andthen (al_get_or_set_with_if bk k f (\<lambda>_. True) upd) (\<lambda>(_, _, _, v). ret v)) RValue"
| "al_exec bk (OpTryGetOrSet k f upd) =
     as_result (andthen (al_try_get_or_set_with_if bk k f (\<lambda>_. True) upd) (\<lambda>r. case r of
        Inl e \<Rightarrow> ret (Inl e) | Inr (_, _, _, v) \<Rightarrow> ret (Inr v))) RTry"
| "al_exec bk (OpAsyncGetOrSet k f upd) =
     as_result (andthen (al_get_or_set_with_if bk k f (\<lambda>_. True) upd) (\<lambda>(_, _, _, v). ret v)) RValue"
| "al_exec bk (OpAsyncTryGetOrSet k f upd) =
     as_result (andthen (al_try_get_or_set_with_if bk k f (\<lambda>_. True) upd) (\<lambda>r. case r of
        Inl e \<Rightarrow> ret (Inl e) | Inr (_, _, _, v) \<Rightarrow> ret (Inr v))) RTry"
| "al_exec bk (OpRemove q) =
     as_result (andthen (al_remove_entry bk q) (\<lambda>removed. ret (map_option snd removed))) RLookup"
| "al_exec bk (OpRemoveEntry q) = as_result (al_remove_entry bk q) REntry"
| "al_exec bk (OpPeek q) = as_result (al_peek bk q) RLookup"
| "al_exec bk (OpContains q) = as_result (andthen (al_peek bk q) (\<lambda>v. ret (v \<noteq> None))) RBool"
| "al_exec bk (OpRetain keep) = as_result (al_retain bk keep) RCount"
| "al_exec bk (OpSetMaxSize n) = as_result (al_set_max_size bk n) RCapacity"
| "al_exec bk (OpTrySetMaxSize n) =
     as_result (if n = 0 then ret (Inl ZeroMaxSize)
       else andthen (al_set_max_size bk n) (\<lambda>p. ret (Inr p))) RTryCapacity"
| "al_exec bk OpClear = as_result (al_set_items []) (\<lambda>_. RUnit)"
| "al_exec bk OpClearWithOnEvict = as_result al_clear_with_on_evict (\<lambda>_. RUnit)"
| "al_exec bk OpResetMetrics = as_result al_reset_metrics (\<lambda>_. RUnit)"
| "al_exec bk OpReset = as_result (andthen (al_set_items []) (\<lambda>_. al_reset_metrics)) (\<lambda>_. RUnit)"

context hash_table
begin

lemma refines_peek [refines_rules]:
  "refines (lru_wf entries bk) lru_abs (lru_cache_peek T bk q) (al_peek bk q)"
  by (rule refinesI) (simp add: refines_at_def lru_cache_peek_wf al_peek_def comp_simps)

lemma refines_contains [refines_rules]:
  "refines (lru_wf entries bk) lru_abs (lru_cache_contains T bk q)
     (andthen (al_peek bk q) (\<lambda>v. ret (v \<noteq> None)))"
  unfolding lru_cache_contains_def by (intro refines_rules)

lemma refines_exec:
  "alloc 2 \<Longrightarrow> refines (lru_wf entries bk) lru_abs (lru_exec T bk alloc op) (al_exec bk op)"
  by (cases op) (simp_all only: lru_exec.simps al_exec.simps lru_async_eq, (intro refines_rules refines_reset; assumption)+)

end

text \<open>
  What an \<open>LruCache\<close> relies on: the laws of the table, and that a vector of two cells can be
  allocated (\<open>cache_reset\<close> falls back to it).
\<close>

locale lru_env = hash_table T entries
  for T :: "'t table_ops" and entries :: "'t \<Rightarrow> (u64 \<times> usize) multiset" +
  fixes bk :: "'k \<Rightarrow> 'q"
    and alloc :: "usize \<Rightarrow> bool"
  assumes alloc_sentinels: "alloc 2"

sublocale lru_env \<subseteq> lru: simulation "lru_exec T bk alloc" "al_exec bk" "lru_wf entries bk" lru_abs
  by unfold_locales (intro refines_exec alloc_sentinels)

interpretation lts: lru_env list_table mset bk "\<lambda>_. True"
  for bk :: "'k \<Rightarrow> 'q"
  by unfold_locales simp

end
