(* ===== verification/Lru_Invariants.thy ===== *)
theory Lru_Invariants
  imports Lru_Machine
begin

text \<open>
  The invariants of the LRU specification: keys stay distinct, the capacity stays positive, and, when
  the eviction callback returns normally, no call leaves more entries than the capacity. They are
  proved on the specification and hold of the code through the simulation of \<open>Lru_Machine\<close>.
\<close>

section \<open>Closed forms of the operations that evict\<close>

definition al_evicted :: "('k \<times> 'v) list \<Rightarrow> ('k, 'v) alru \<Rightarrow> ('k, 'v) alru" where
  "al_evicted vs s = s\<lparr>al_items := take (length (al_items s) - length vs) (al_items s),
     al_evictions := al_evictions s + of_nat (length vs),
     al_calls := al_calls s @ cb_calls (al_on_evict s) vs\<rparr>"

lemma al_check_capacity_evicted:
  "a_wf bk (al_items s) \<Longrightarrow> al_check_capacity bk s =
     (if all_ok (al_on_evict s) (drop (al_capacity s) (al_items s)) then Returns () else Panics,
      al_evicted (victims s) s)"
  by (simp add: al_check_capacity_closed al_evicted_def)

lemma victims_quiet: "quiet (al_on_evict s) \<Longrightarrow> victims s = rev (drop (al_capacity s) (al_items s))"
  by (simp add: victims_def processed_all)

definition al_put :: "('k \<Rightarrow> 'q) \<Rightarrow> 'k \<Rightarrow> 'v \<Rightarrow> ('k, 'v) alru \<Rightarrow> ('k, 'v) alru" where
  "al_put bk key val s = s\<lparr>al_items := (key, val) # a_without bk (bk key) (al_items s)\<rparr>"

lemma al_put_simps [simp]:
  "al_items (al_put bk key val s) = (key, val) # a_without bk (bk key) (al_items s)"
  "al_capacity (al_put bk key val s) = al_capacity s"
  "al_on_evict (al_put bk key val s) = al_on_evict s"
  "al_evictions (al_put bk key val s) = al_evictions s" "al_calls (al_put bk key val s) = al_calls s"
  by (simp_all add: al_put_def)

lemma al_set_closed:
  "a_wf bk (al_items s) \<Longrightarrow> al_set bk key val s =
    (if all_ok (al_on_evict s) (drop (al_capacity s) ((key, val) # a_without bk (bk key) (al_items s)))
     then Returns (a_find bk (bk key) (al_items s)) else Panics,
     al_evicted (victims (al_put bk key val s)) (al_put bk key val s))"
  using al_check_capacity_evicted [of bk "al_put bk key val s"]
  by (simp add: al_set_def al_set_items_def comp_simps flip: al_put_def)

lemma al_set_max_size_closed:
  assumes "a_wf bk (al_items s)" "0 < n"
  shows "al_set_max_size bk n s =
    (if all_ok (al_on_evict s) (drop n (al_items s))
     then Returns (Some (al_capacity s)) else Panics,
     al_evicted (victims (s\<lparr>al_capacity := n\<rparr>)) (s\<lparr>al_capacity := n\<rparr>))"
  using assms
  by (simp add: al_set_max_size_def comp_simps al_check_capacity_evicted)

section \<open>The specification keeps its invariants\<close>

definition al_inv :: "('k \<Rightarrow> 'q) \<Rightarrow> ('k, 'v) callback option \<Rightarrow> ('k, 'v) alru \<Rightarrow> bool" where
  "al_inv bk cb s \<longleftrightarrow> al_on_evict s = cb \<and> a_wf bk (al_items s) \<and> 0 < al_capacity s \<and>
     (quiet (al_on_evict s) \<longrightarrow> length (al_items s) \<le> al_capacity s)"

lemma al_inv_counters [keeps_rules]:
  "keeps (al_inv bk cb) al_record_hit" "keeps (al_inv bk cb) al_record_miss"
  "keeps (al_inv bk cb) (al_count_evictions n)" "keeps (al_inv bk cb) (al_notify k v)"
  "keeps (al_inv bk cb) al_reset_metrics"
  by (simp_all add: keeps_def al_inv_def al_record_hit_def al_record_miss_def al_count_evictions_def
      al_notify_apply al_reset_metrics_def modify_def)

lemma al_inv_shrink:
  "al_inv bk cb s \<Longrightarrow> a_wf bk xs \<Longrightarrow> length xs \<le> length (al_items s) \<Longrightarrow> al_inv bk cb (s\<lparr>al_items := xs\<rparr>)"
  by (auto simp: al_inv_def)

lemma al_inv_clear [keeps_rules]: "keeps (al_inv bk cb) (al_set_items [])"
  by (simp add: keeps_def al_inv_def al_set_items_def modify_def)

lemma al_inv_evicted:
  assumes "a_wf bk (al_items s)" "0 < al_capacity s" "al_on_evict s = cb"
  shows "al_inv bk cb (al_evicted (victims s) s)"
  using assms by (auto simp: al_inv_def al_evicted_def victims_quiet)

lemma al_inv_wf: "al_inv bk cb s \<Longrightarrow> a_wf bk (al_items s) \<and> 0 < al_capacity s \<and> al_on_evict s = cb"
  by (simp add: al_inv_def)

lemma al_inv_drop_entry [keeps_rules]: "keeps (al_inv bk cb) (al_drop_entry bk kv)"
  by (rule keepsI) (auto simp: al_drop_entry_apply al_inv_def a_without_def
      intro: order_trans [OF length_filter_le])

lemma al_inv_set_at: "al_inv bk cb s \<Longrightarrow> al_inv bk cb (snd (al_set bk key val s))"
  using al_inv_evicted [of bk "al_put bk key val s"] by (simp add: al_set_closed al_inv_wf)

lemma al_inv_set_max_size_at: "al_inv bk cb s \<Longrightarrow> al_inv bk cb (snd (al_set_max_size bk n s))"
  using al_inv_evicted [of bk "s\<lparr>al_capacity := n\<rparr>"]
  by (cases "n = 0") (simp_all add: al_set_max_size_closed al_inv_wf, simp add: al_set_max_size_def panic_def)

lemma length_front:
  "a_wf bk xs \<Longrightarrow> a_find bk q xs = Some kv \<Longrightarrow> Suc (length (a_without bk q xs)) = length xs"
  by (cases xs) (auto simp: length_a_without)

lemma al_inv_touch:
  assumes "al_inv bk cb s" "a_find bk q (al_items s) = Some kv" "bk k = q"
  shows "al_inv bk cb (s\<lparr>al_items := (k, v) # a_without bk q (al_items s)\<rparr>)"
  using assms al_inv_wf [OF assms(1)] by (intro al_inv_shrink) (simp_all add: length_front)

lemma al_inv_pop_at: "al_inv bk cb s \<Longrightarrow> al_inv bk cb (s\<lparr>al_items := a_without bk q (al_items s)\<rparr>)"
  using al_inv_wf [of bk cb s] by (intro al_inv_shrink) (simp_all add: length_a_without)

lemma al_inv_miss: "al_inv bk cb s \<Longrightarrow> al_inv bk cb (snd (andthen al_record_miss (\<lambda>_. ret x) s))"
  by (rule keepsD [of "al_inv bk cb"]) (intro keeps_rules)

lemma al_inv_get_mut_if_at:
  assumes s: "al_inv bk cb s"
  shows "al_inv bk cb (snd (al_get_mut_if bk q is_valid upd s))"
proof (cases "a_find bk q (al_items s)")
    case None
    then show ?thesis by (simp add: al_get_mut_if_def andthen_get_state al_inv_miss [OF s])
  next
    case (Some kv)
    obtain k v where kv: "kv = (k, v)" by force
    have "bk k = q" using a_find_SomeD [OF Some] kv by simp
    then have "al_inv bk cb (snd (andthen (al_set_items ((k, upd v) # a_without bk q (al_items s)))
        (\<lambda>_. andthen al_record_hit (\<lambda>_. ret (Some v))) s))"
      using al_inv_touch [OF s Some, of k "upd v"]
      by (intro keeps_after [of "al_inv bk cb"] keeps_rules) (simp add: al_set_items_def modify_apply)
    then show ?thesis
      using Some by (simp add: al_get_mut_if_def andthen_get_state kv al_inv_miss [OF s])
qed

text \<open>
  Get-or-set: after the counters and the factory, a stale entry is replaced at the front, a missing
  one is put there and the capacity is enforced; the caller then writes through the reference.
\<close>

lemma al_check_capacity_front:
  assumes "a_wf bk (al_items s)" "0 < al_capacity s" "al_items s = kv # xs"
  shows "\<exists>ys. al_items (snd (al_check_capacity bk s)) = kv # ys"
proof -
  have "0 < length (al_items s) - length (victims s)"
    using length_victims [of s] assms(2,3) by simp
  then show ?thesis
    using assms by (cases "length (al_items s) - length (victims s)")
      (simp_all add: al_check_capacity_evicted al_evicted_def)
qed

lemma al_inv_write_front:
  assumes "al_inv bk cb s" "al_items s = (k, v) # xs"
  shows "al_inv bk cb (s\<lparr>al_items := (k, w) # tl (al_items s)\<rparr>)"
  using assms by (auto simp: al_inv_def a_wf_Cons)

lemma al_inv_insert:
  assumes s: "al_inv bk cb s" and absent: "a_find bk (bk key) (al_items s) = None"
  shows "al_inv bk cb (snd (andthen (al_set_items ((key, w) # al_items s)) (\<lambda>_.
     andthen (al_check_capacity bk) (\<lambda>_.
     andthen (modify (\<lambda>s. s\<lparr>al_items := (key, u) # tl (al_items s)\<rparr>)) (\<lambda>_. ret x))) s))"
proof -
  let ?t = "s\<lparr>al_items := (key, w) # al_items s\<rparr>"
  have t: "a_wf bk (al_items ?t)" "0 < al_capacity ?t" "al_on_evict ?t = cb"
    using al_inv_wf [OF s] absent by (auto simp: a_wf_Cons a_find_None_iff)
  obtain r t' where c: "al_check_capacity bk ?t = (r, t')" by force
  have t': "al_inv bk cb t'"
    using al_inv_evicted [OF t] al_check_capacity_evicted [OF t(1)] c by (simp split: if_splits)
  obtain ys where "al_items t' = (key, w) # ys"
    using al_check_capacity_front [OF t(1,2), of "(key, w)"] c by auto
  then show ?thesis
    using al_inv_write_front [OF t'] t' c by (cases r) (simp_all add: al_set_items_def comp_simps)
qed

lemma al_inv_try_get_or_set_at:
  assumes s: "al_inv bk cb s"
  shows "al_inv bk cb (snd (al_try_get_or_set_with_if bk key f is_valid upd s))"
proof -
  obtain t where t: "al_record_miss s = (Returns (), t)" "al_inv bk cb t" "al_items t = al_items s"
    using keepsD [OF al_inv_counters(2) s] by (auto simp: al_record_miss_def modify_def)
  obtain h where h: "al_record_hit s = (Returns (), h)" "al_inv bk cb h" "al_items h = al_items s"
    using keepsD [OF al_inv_counters(1) s] by (auto simp: al_record_hit_def modify_def)
  show ?thesis
  proof (cases "a_find bk (bk key) (al_items s)")
    case None
    note ins = al_inv_insert [OF t(2), of key, unfolded t(3), OF None]
    show ?thesis
    proof (cases f)
      case (Returns r)
      then show ?thesis
        using None t ins
        by (cases r) (simp_all add: al_try_get_or_set_with_if_def andthen_get_state
            andthen_Returns [of al_record_miss s, OF t(1)] andthen_run_closure ret_apply)
    qed (use None t in \<open>simp_all add: al_try_get_or_set_with_if_def comp_simps\<close>)
  next
    case (Some kv)
    obtain k v where kv: "kv = (k, v)" by force
    have "bk k = bk key" using a_find_SomeD [OF Some] kv by simp
    then have touch: "al_inv bk cb (x\<lparr>al_items := (k, y) # a_without bk (bk key) (al_items s)\<rparr>)"
        "al_inv bk cb (x\<lparr>al_items := (key, y) # a_without bk (bk key) (al_items s)\<rparr>)"
      if "al_inv bk cb x" "al_items x = al_items s" for x y
      using al_inv_touch [OF that(1), of "bk key" kv] that(2) Some by simp_all
    show ?thesis
      using Some t h touch
      by (cases f; cases "is_valid v")
        (auto simp: al_try_get_or_set_with_if_def al_set_items_def comp_simps kv split: sum.splits)
  qed
qed

lemma al_inv_pop: "keeps (al_inv bk cb) (al_pop bk q)"
  by (rule keepsI) (simp add: al_pop_def al_set_items_def comp_simps al_inv_pop_at)

lemma al_inv_retain: "keeps (al_inv bk cb) (al_retain bk keep)"
  unfolding al_retain_def expect_def
  by (rule keeps_state, rule keepsD [of "al_inv bk cb"]) (intro keeps_rules)

lemma al_inv_clear_with_on_evict: "keeps (al_inv bk cb) al_clear_with_on_evict"
  unfolding al_clear_with_on_evict_def
  by (rule keeps_state, rule keepsD [of "al_inv bk cb"]) (intro keeps_rules)

lemma al_inv_peek: "keeps (al_inv bk cb) (al_peek bk q)"
  by (simp add: keeps_def al_peek_def comp_simps)

lemmas al_inv_ops [keeps_rules] = al_inv_pop al_inv_retain al_inv_clear_with_on_evict al_inv_peek

lemma al_inv_set [keeps_rules]: "keeps (al_inv bk cb) (al_set bk key val)"
  by (rule keepsI) (rule al_inv_set_at)

lemma al_inv_set_max_size [keeps_rules]: "keeps (al_inv bk cb) (al_set_max_size bk n)"
  by (rule keepsI) (rule al_inv_set_max_size_at)

lemma al_inv_get_mut_if [keeps_rules]: "keeps (al_inv bk cb) (al_get_mut_if bk q is_valid upd)"
  by (rule keepsI) (rule al_inv_get_mut_if_at)

lemma al_inv_try_get_or_set [keeps_rules]:
  "keeps (al_inv bk cb) (al_try_get_or_set_with_if bk key f is_valid upd)"
  by (rule keepsI) (rule al_inv_try_get_or_set_at)

lemma al_inv_get_or_set [keeps_rules]:
  "keeps (al_inv bk cb) (al_get_or_set_with_if bk key f is_valid upd)"
  unfolding al_get_or_set_with_if_def by (intro keeps_rules)

lemma al_inv_remove_entry [keeps_rules]: "keeps (al_inv bk cb) (al_remove_entry bk q)"
  unfolding al_remove_entry_def by (intro keeps_rules)

lemma al_inv_exec: "keeps (al_inv bk cb) (al_exec bk op)"
  by (cases op) (simp_all only: al_exec.simps, (intro keeps_rules)+)

interpretation al: machine_invariant "al_exec bk" "al_inv bk cb" for bk cb
  by unfold_locales (rule keepsD [OF al_inv_exec])

section \<open>Every execution of the code\<close>

context lru_env
begin

lemma lru_execution:
  assumes "lru_build T table_alloc list_alloc b = Inr c" "execution (lru_exec T bk alloc) c tr d"
  shows "lru_wf entries bk d" "execution (al_exec bk) (lru_abs c) tr (lru_abs d)"
    "al_inv bk (lrub_on_evict b) (lru_abs d)"
proof -
  note c = lru_build_wf [OF assms(1)]
  show d: "lru_wf entries bk d" "execution (al_exec bk) (lru_abs c) tr (lru_abs d)"
    using lru.simulates [OF assms(2) c(1)] by simp_all
  have "0 < lru_capacity c" using c(1) by (simp add: lru_wf_def)
  then have "al_inv bk (lrub_on_evict b) (lru_abs c)" using c(2) by (simp add: al_inv_def lru_abs_def)
  then show "al_inv bk (lrub_on_evict b) (lru_abs d)" by (rule al.inv_execution [OF d(2)])
qed

end

end
