(* ===== verification/Lru_Correct.thy ===== *)
theory Lru_Correct
  imports Lru_Invariants
begin

text \<open>
  What a client of \<open>LruCache\<close> can rely on, stated of the operations of the code. The third-party hash
  table enters through the hypothesis \<open>hash_table T entries\<close>; the witnesses run the operations on the
  reference table with a hash function under which all keys collide.
\<close>

definition lru_demo :: "usize \<Rightarrow> (nat, nat) callback option
    \<Rightarrow> (nat, nat, nat, (u64 \<times> usize) list) lru_cache" where
  "lru_demo n cb = \<lparr>lru_store = [], lru_hash_builder = (\<lambda>_. 0), lru_order = \<lparr>ll_values = ll_sentinels\<rparr>,
     lru_capacity = n, lru_hits = 0, lru_misses = 0, lru_evictions = 0, lru_on_evict = cb,
     lru_track_hit_miss = True, lru_calls = []\<rparr>"

definition lru_demo_builder :: "usize \<Rightarrow> (nat, nat) callback option \<Rightarrow> (nat, nat, nat) lru_builder" where
  "lru_demo_builder n cb = \<lparr>lrub_size = Some n, lrub_on_evict = cb, lrub_hasher = (\<lambda>_. 0)\<rparr>"

lemma lru_demo_build:
  "0 < n \<Longrightarrow> n \<le> 100 \<Longrightarrow>
     lru_build list_table (\<lambda>_. True) (\<lambda>_. True) (lru_demo_builder n cb) = Inr (lru_demo n cb)"
  by (simp add: lru_build_def lru_demo_builder_def lru_demo_def list_table_def
      ll_try_with_capacity_def usize_checked_add_def usize_max_def)

definition lru_filled :: "(nat, nat) callback option \<Rightarrow> (nat, nat, nat, (u64 \<times> usize) list) lru_cache" where
  "lru_filled cb = snd (run (lru_exec list_table id (\<lambda>_. True))
     [OpSet 1 10, OpSet 2 20, OpGet 1 :: (nat, nat, nat, unit) lru_op] (lru_demo 2 cb))"

lemma lru_filled_execution:
  "execution (lru_exec list_table id (\<lambda>_. True)) (lru_demo 2 cb)
     (fst (run (lru_exec list_table id (\<lambda>_. True))
        [OpSet 1 10, OpSet 2 20, OpGet 1 :: (nat, nat, nat, unit) lru_op] (lru_demo 2 cb))) (lru_filled cb)"
  unfolding lru_filled_def by (rule run_execution)

lemma lru_filled_wf: "lru_wf mset id (lru_filled cb)"
  by (rule lts.lru_execution(1) [OF lru_demo_build lru_filled_execution]) simp_all

lemma lru_filled_items: "lru_items (lru_filled None) = [(1, 10), (2, 20)]"
  by code_simp

lemma lru_filled_facts:
  "lru_capacity (lru_filled None) = 2" "lru_on_evict (lru_filled None) = None"
  "lru_evictions (lru_filled None) = 0"
  by code_simp+

lemma lru_envI: "hash_table T entries \<Longrightarrow> alloc 2 \<Longrightarrow> lru_env T entries alloc"
  by (simp add: lru_env_def lru_env_axioms_def)

section \<open>Every execution follows the specification\<close>

text \<open>
  C1. From a cache that was built, every sequence of calls has exactly the outcomes the
  specification has (values, errors and panics of user code), and the entries, the order, the
  counters and the callback trace are those of the specification. In particular the internal panics
  (\<open>expect("invalid index")\<close>, \<open>unreachable!\<close>) are never reached, every eviction loop ends, and the
  table and the list always describe the same entries.
\<close>

theorem lru_follows_spec:
  assumes "hash_table T entries" "alloc 2" "lru_build T table_alloc list_alloc b = Inr c"
    and "execution (lru_exec T bk alloc) c tr d"
  shows "lru_wf entries bk d \<and> execution (al_exec bk) (lru_abs c) tr (lru_abs d)"
  using lru_env.lru_execution(1,2) [OF lru_envI [of T entries alloc] assms(3,4)] assms(1,2) by simp

theorem lru_follows_spec_witness:
  "\<exists>s. execution (al_exec id) (lru_abs (lru_demo 2 None))
     [(OpSet 1 10, Returns (RLookup None)), (OpSet 2 20, Returns (RLookup None)),
      (OpGet 1, Returns (RLookup (Some 10))), (OpSet (3 :: nat) (30 :: nat), Returns (RLookup None)),
      (OpPeek (2 :: nat), Returns (RLookup (None :: nat option)) :: (nat, nat, unit) lru_result outcome)] s
     \<and> al_items s = [(3, 30), (1, 10)] \<and> al_hits s = 1 \<and> al_evictions s = 1"
proof -
  let ?ops = "[OpSet 1 10, OpSet 2 20, OpGet 1, OpSet 3 30, OpPeek 2] :: (nat, nat, nat, unit) lru_op list"
  let ?r = "run (lru_exec list_table id (\<lambda>_. True)) ?ops (lru_demo 2 None)"
  let ?rs = "[Returns (RLookup None), Returns (RLookup None), Returns (RLookup (Some 10)),
      Returns (RLookup None), Returns (RLookup None)] :: (nat, nat, unit) lru_result outcome list"
  have "execution (al_exec id) (lru_abs (lru_demo 2 None)) (fst ?r) (lru_abs (snd ?r))"
    by (rule lru_follows_spec [OF lt.hash_table_axioms _ lru_demo_build run_execution, THEN conjunct2])
      simp_all
  moreover have "map snd (fst ?r) = ?rs" by code_simp
  then have "fst ?r = zip ?ops ?rs" by (metis run_ops zip_map_fst_snd)
  then have "fst ?r = [(OpSet 1 10, Returns (RLookup None)), (OpSet 2 20, Returns (RLookup None)),
      (OpGet 1, Returns (RLookup (Some 10))), (OpSet 3 30, Returns (RLookup None)),
      (OpPeek 2, Returns (RLookup None))]" by (simp only: zip_Cons_Cons zip_Nil)
  moreover have "al_items (lru_abs (snd ?r)) = [(3, 30), (1, 10)]" by code_simp
  moreover have "al_hits (lru_abs (snd ?r)) = 1" "al_evictions (lru_abs (snd ?r)) = 1" by code_simp+
  ultimately show ?thesis by metis
qed

text \<open>
  C2. The capacity is never exceeded: when the eviction callback returns normally, every call of
  every execution leaves at most \<open>capacity\<close> entries in the cache, and \<open>cache_size\<close> reports exactly
  their number.
\<close>

theorem lru_capacity_bound:
  assumes "hash_table T entries" "alloc 2" "lru_build T table_alloc list_alloc b = Inr c"
    and "quiet (lrub_on_evict b)" "execution (lru_exec T bk alloc) c tr d"
  shows "lru_cache_size T d \<le> lru_capacity d \<and> lru_cache_size T d = length (lru_items d)"
proof -
  note env = lru_envI [of T entries alloc, OF assms(1,2)]
  have "lru_wf entries bk d" by (rule lru_env.lru_execution(1) [OF env assms(3,5)])
  moreover have "al_inv bk (lrub_on_evict b) (lru_abs d)"
    by (rule lru_env.lru_execution(3) [OF env assms(3,5)])
  ultimately show ?thesis
    using assms(4) hash_table.lru_size_wf [OF assms(1), of bk d] by (simp add: al_inv_def)
qed

theorem lru_capacity_bound_witness:
  "lru_cache_size list_table (lru_filled None) \<le> 2 \<and> lru_cache_size list_table (lru_filled None) = 2"
  using lru_capacity_bound [OF lt.hash_table_axioms _ lru_demo_build _ lru_filled_execution, of None]
  by (simp add: lru_demo_builder_def lru_filled_facts lru_filled_items)

section \<open>The effect of the operations\<close>

text \<open>
  Evicting to capacity, as it is seen from outside: some number \<open>n\<close> of entries at the back of the
  order are gone, exactly those were counted, and the callback has seen exactly those, the least
  recently used first, whether or not it panicked on the last of them.
\<close>

definition lru_evicted_from :: "('k \<times> 'v) list \<Rightarrow> usize \<Rightarrow> ('k, 'v, 'q, 't) lru_cache
    \<Rightarrow> ('k, 'v, 'q, 't) lru_cache \<Rightarrow> bool" where
  "lru_evicted_from full n c d \<longleftrightarrow>
     n \<le> length full - lru_capacity d \<and>
     lru_items d = take (length full - n) full \<and>
     lru_evictions d = lru_evictions c + of_nat n \<and>
     lru_calls d = lru_calls c @ cb_calls (lru_on_evict c) (rev (drop (length full - n) full))"

lemma lru_evicted_from_victims:
  assumes "lru_abs d = al_evicted (victims s) s" "al_evictions s = lru_evictions c"
    "al_calls s = lru_calls c" "al_on_evict s = lru_on_evict c"
  shows "lru_evicted_from (al_items s) (length (victims s)) c d"
proof -
  have d: "lru_items d = take (length (al_items s) - length (victims s)) (al_items s)"
    "lru_capacity d = al_capacity s" "lru_evictions d = lru_evictions c + of_nat (length (victims s))"
    "lru_calls d = lru_calls c @ cb_calls (lru_on_evict c) (victims s)"
    using arg_cong [OF assms(1), of al_items] arg_cong [OF assms(1), of al_capacity]
      arg_cong [OF assms(1), of al_evictions] arg_cong [OF assms(1), of al_calls] assms(2-4)
    by (simp_all add: al_evicted_def)
  then show ?thesis
    using length_victims [of s] by (simp add: lru_evicted_from_def flip: victims_take)
qed

lemma all_ok_fits:
  assumes "all_ok (al_on_evict s) (drop (al_capacity s) (al_items s))"
  shows "length (al_items (al_evicted (victims s) s)) \<le> al_capacity s"
proof -
  have "all_ok (al_on_evict s) (rev (drop (al_capacity s) (al_items s)))"
    using assms by (simp add: all_ok_def)
  then show ?thesis by (simp add: al_evicted_def victims_def processed_all)
qed

lemma lru_set_closed:
  assumes "hash_table T entries" "lru_wf entries bk c" "lru_cache_set T bk key val c = (r, d)"
  shows "lru_wf entries bk d"
    "lru_abs d = al_evicted (victims (al_put bk key val (lru_abs c))) (al_put bk key val (lru_abs c))"
    "r = (if all_ok (lru_on_evict c)
            (drop (lru_capacity c) ((key, val) # a_without bk (bk key) (lru_items c)))
          then Returns (map_option snd (a_find bk (bk key) (lru_items c))) else Panics)"
proof -
  note ref = refines_result [OF hash_table.refines_cache_set [OF assms(1)] assms(2,3)]
  have "a_wf bk (lru_items c)" by (rule hash_table.lru_wf_a_wf [OF assms(1,2)])
  then show "lru_wf entries bk d"
    "lru_abs d = al_evicted (victims (al_put bk key val (lru_abs c))) (al_put bk key val (lru_abs c))"
    "r = (if all_ok (lru_on_evict c)
            (drop (lru_capacity c) ((key, val) # a_without bk (bk key) (lru_items c)))
          then Returns (map_option snd (a_find bk (bk key) (lru_items c))) else Panics)"
    using ref by (simp_all add: andthen_apply al_set_closed ret_apply split: if_splits)
qed

text \<open>
  C3. \<open>cache_set\<close> puts the entry at the most recently used position (an overwrite promotes), returns
  the value it replaced, and then evicts from the least recently used end: what is gone is exactly
  what was counted and what the callback has seen, even when the callback panics. When it does not
  panic the cache is within its capacity afterwards, also when an earlier panic had left it above.
\<close>

theorem lru_cache_set_effect:
  assumes "hash_table T entries" "lru_wf entries bk c" "lru_cache_set T bk key val c = (r, d)"
  shows "lru_wf entries bk d \<and>
    (\<exists>n. lru_evicted_from ((key, val) # a_without bk (bk key) (lru_items c)) n c d) \<and>
    (r = Returns (map_option snd (a_find bk (bk key) (lru_items c))) \<and>
       length (lru_items d) \<le> lru_capacity c
     \<or> r = Panics \<and> \<not> quiet (lru_on_evict c))"
proof -
  note set = lru_set_closed [OF assms]
  let ?s = "al_put bk key val (lru_abs c)"
  have "lru_evicted_from (al_items ?s) (length (victims ?s)) c d"
    by (rule lru_evicted_from_victims [OF set(2)]) simp_all
  moreover have "length (lru_items d) \<le> lru_capacity c"
    if "all_ok (lru_on_evict c) (drop (lru_capacity c) (al_items ?s))"
    using all_ok_fits [of ?s] that arg_cong [OF set(2), of al_items] by simp
  ultimately show ?thesis using set(1,3) by auto
qed

theorem lru_cache_set_effect_witness:
  "let d = snd (lru_cache_set list_table id 3 30 (lru_filled None)) in
     lru_wf mset id d \<and> (\<exists>n. lru_evicted_from [(3, 30), (1, 10), (2, 20)] n (lru_filled None) d) \<and>
     length (lru_items d) \<le> 2"
  using lru_cache_set_effect [OF lt.hash_table_axioms lru_filled_wf prod.collapse [symmetric],
      of 3 30 None]
  by (auto simp: lru_filled_items lru_filled_facts a_without_def Let_def)

text \<open>
  Insert, then look up: after \<open>cache_set\<close> (even one that panicked in the callback) \<open>cache_peek\<close>
  finds the new value under the key, and under every other key either the value it had before or,
  if the entry was evicted, nothing.
\<close>

theorem lru_set_then_peek:
  assumes "hash_table T entries" "lru_wf entries bk c" "lru_cache_set T bk key val c = (r, d)"
  shows "lru_cache_peek T bk (bk key) d = (Returns (Some val), d) \<and>
    (q \<noteq> bk key \<longrightarrow> lru_cache_peek T bk q d = (Returns None, d) \<or>
       lru_cache_peek T bk q d = (fst (lru_cache_peek T bk q c), d))"
proof -
  note set = lru_set_closed [OF assms]
  let ?s = "al_put bk key val (lru_abs c)"
  obtain n where n: "lru_evicted_from (al_items ?s) n c d" and cap: "0 < lru_capacity d"
    using lru_evicted_from_victims [OF set(2)] set(1) by (auto simp: lru_wf_def)
  then obtain m where m: "lru_items d = (key, val) # take m (a_without bk (bk key) (lru_items c))"
    by (cases "length (al_items ?s) - n") (auto simp: lru_evicted_from_def)
  have "a_find bk q (lru_items d) = None \<or> a_find bk q (lru_items d) = a_find bk q (lru_items c)"
    if "q \<noteq> bk key"
    using that a_find_take [of bk q m "a_without bk (bk key) (lru_items c)"]
    by (simp add: m a_find_Cons a_find_without)
  moreover have "a_find bk (bk key) (lru_items d) = Some (key, val)" by (simp add: m a_find_Cons)
  ultimately show ?thesis
    using hash_table.lru_cache_peek_wf [OF assms(1,2)] hash_table.lru_cache_peek_wf [OF assms(1) set(1)]
    by auto
qed

theorem lru_set_then_peek_witness:
  "let d = snd (lru_cache_set list_table id 3 30 (lru_filled None)) in
     lru_cache_peek list_table id 3 d = (Returns (Some 30), d) \<and>
     (lru_cache_peek list_table id 1 d = (Returns None, d) \<or>
      lru_cache_peek list_table id 1 d = (Returns (Some 10), d))"
  using lru_set_then_peek [OF lt.hash_table_axioms lru_filled_wf prod.collapse [symmetric],
      of 3 30 None 1]
    lt.lru_cache_peek_wf [OF lru_filled_wf, of 1 None]
  by (auto simp: lru_filled_items Let_def a_find_def)

text \<open>
  \<open>cache_get\<close> returns the stored value and moves the entry to the most recently used position; a
  hit and a miss count as such (unless tracking is off), nothing is evicted, no other entry moves.
\<close>

theorem lru_cache_get_effect:
  assumes "hash_table T entries" "lru_wf entries bk c" "lru_cache_get T bk q c = (r, d)"
  shows "lru_wf entries bk d \<and> r = Returns (map_option snd (a_find bk q (lru_items c))) \<and>
    (case a_find bk q (lru_items c) of
       Some kv \<Rightarrow> lru_items d = kv # a_without bk q (lru_items c) \<and> lru_misses d = lru_misses c \<and>
         lru_hits d = lru_hits c + (if lru_track_hit_miss c then 1 else 0)
     | None \<Rightarrow> lru_items d = lru_items c \<and> lru_hits d = lru_hits c \<and>
         lru_misses d = lru_misses c + (if lru_track_hit_miss c then 1 else 0)) \<and>
    lru_evictions d = lru_evictions c \<and> lru_calls d = lru_calls c"
proof -
  note ref = refines_result [OF hash_table.refines_cache_get [OF assms(1)] assms(2,3)]
  show ?thesis
    using ref(1) arg_cong [OF ref(2), of fst] arg_cong [OF ref(2), of "al_items \<circ> snd"]
      arg_cong [OF ref(2), of "al_hits \<circ> snd"] arg_cong [OF ref(2), of "al_misses \<circ> snd"]
      arg_cong [OF ref(2), of "al_evictions \<circ> snd"] arg_cong [OF ref(2), of "al_calls \<circ> snd"]
    by (cases "a_find bk q (lru_items c)")
      (auto simp: al_get_mut_if_def al_set_items_def al_record_hit_def al_record_miss_def comp_simps)
qed

theorem lru_cache_get_effect_witness:
  "let (r, d) = lru_cache_get list_table id 2 (lru_filled None) in
     r = Returns (Some 20) \<and> lru_items d = [(2, 20), (1, 10)]"
  using lru_cache_get_effect [OF lt.hash_table_axioms lru_filled_wf prod.collapse [symmetric],
      of 2 None]
  by (auto simp: lru_filled_items a_find_def a_without_def split: prod.split)

text \<open>
  \<open>retain\<close> removes exactly the entries the predicate rejects, keeps the order of the others,
  counts every removal and reports it to the callback once, most recently used first, and returns
  the number of removals.
\<close>

theorem lru_retain_effect:
  assumes "hash_table T entries" "lru_wf entries bk c" "quiet (lru_on_evict c)"
    and "\<And>k v. (k, v) \<in> set (lru_items c) \<Longrightarrow> keep k v = Some (P k v)"
    and "lru_retain T bk keep c = (r, d)"
  shows "lru_wf entries bk d \<and>
    (let doomed = filter (\<lambda>kv. \<not> P (fst kv) (snd kv)) (lru_items c) in
       r = Returns (length doomed) \<and>
       lru_items d = filter (\<lambda>kv. P (fst kv) (snd kv)) (lru_items c) \<and>
       lru_evictions d = lru_evictions c + of_nat (length doomed) \<and>
       lru_calls d = lru_calls c @ cb_calls (lru_on_evict c) doomed)"
proof -
  let ?P = "\<lambda>kv. P (fst kv) (snd kv)" and ?xs = "lru_items c"
  note ref = refines_result [OF hash_table.refines_retain [OF assms(1)] assms(2,5)]
  have d: "al_doomed keep ?xs = Some (filter (\<lambda>kv. \<not> ?P kv) ?xs)"
    unfolding al_doomed_def by (intro filter_closure_total) (use assms(4) in force)
  have w: "a_without_all bk (filter (\<lambda>kv. \<not> ?P kv) ?xs) ?xs = filter ?P ?xs"
    by (rule a_without_all_filter [OF hash_table.lru_wf_a_wf [OF assms(1,2)]])
  have "(r, lru_abs d) = (Returns (length (filter (\<lambda>kv. \<not> ?P kv) ?xs)),
       (lru_abs c)\<lparr>al_items := filter ?P ?xs,
        al_evictions := lru_evictions c + of_nat (length (filter (\<lambda>kv. \<not> ?P kv) ?xs)),
        al_calls := lru_calls c @ cb_calls (lru_on_evict c) (filter (\<lambda>kv. \<not> ?P kv) ?xs)\<rparr>)"
    using ref(2) assms(3) by (simp add: al_retain_def comp_simps d al_drop_entries processed_all w)
  then show ?thesis
    using ref(1) by (auto simp: Let_def lru_abs_def)
qed

theorem lru_retain_effect_witness:
  "let (r, d) = lru_retain list_table id (\<lambda>k v. Some (k = 2)) (lru_filled None) in
     r = Returns 1 \<and> lru_items d = [(2, 20)] \<and> lru_evictions d = 1"
  using lru_retain_effect [OF lt.hash_table_axioms lru_filled_wf _ _ prod.collapse [symmetric],
      of None "\<lambda>k v. Some (k = 2)" "\<lambda>k v. k = 2"]
  by (auto simp: lru_filled_items lru_filled_facts Let_def split: prod.split)

text \<open>
  A predicate of \<open>retain\<close> that panics leaves the cache as it was: nothing was removed, counted or
  reported, whatever entries had been rejected before the panic.
\<close>

theorem lru_retain_panicking_predicate:
  assumes "hash_table T entries" "lru_wf entries bk c"
    and "(k, v) \<in> set (lru_items c)" "keep k v = None" "lru_retain T bk keep c = (r, d)"
  shows "r = Panics \<and> lru_abs d = lru_abs c \<and> lru_wf entries bk d"
proof -
  note ref = refines_result [OF hash_table.refines_retain [OF assms(1)] assms(2,5)]
  have "al_doomed keep (lru_items c) = None"
    unfolding al_doomed_def by (rule filter_closure_panic [OF assms(3)]) (simp add: assms(4))
  then show ?thesis using ref by (simp add: al_retain_def comp_simps)
qed

theorem lru_retain_panicking_predicate_witness:
  "let (r, d) = lru_retain list_table id (\<lambda>k v. if k = 2 then None else Some False) (lru_filled None) in
     r = Panics \<and> lru_abs d = lru_abs (lru_filled None)"
  using lru_retain_panicking_predicate [OF lt.hash_table_axioms lru_filled_wf _ _ prod.collapse [symmetric],
      of 2 20 None "\<lambda>k v. if k = 2 then None else Some False"]
  by (auto simp: lru_filled_items split: prod.split)

text \<open>
  A factory that fails leaves no trace but the miss: when \<open>cache_try_get_or_set_with\<close> finds no
  entry and its factory returns an error or panics, the entries, their order, the evictions and the
  callback trace are as before, and exactly one miss is counted (when tracking is on).
\<close>

theorem lru_failing_factory:
  assumes "hash_table T entries" "lru_wf entries bk c" "a_find bk (bk key) (lru_items c) = None"
    and "f = Returns (Inl e) \<or> f = Panics"
    and "lru_cache_try_get_or_set_with_mut T bk key f upd c = (r, d)"
  shows "r = (if f = Panics then Panics else Returns (Inl e)) \<and> lru_wf entries bk d \<and>
    lru_abs d = (if lru_track_hit_miss c then (lru_abs c)\<lparr>al_misses := lru_misses c + 1\<rparr> else lru_abs c)"
proof -
  note ref = refines_result [OF hash_table.refines_cache_try_get_or_set [OF assms(1)] assms(2,5)]
  show ?thesis
    using ref assms(3,4)
    by (auto simp: al_try_get_or_set_with_if_def al_record_miss_def comp_simps)
qed

theorem lru_failing_factory_witness:
  "let (r, d) = lru_cache_try_get_or_set_with_mut list_table id 5 (Returns (Inl ())) id (lru_filled None)
   in r = Returns (Inl ()) \<and> lru_items d = [(1, 10), (2, 20)]"
  using lru_failing_factory [OF lt.hash_table_axioms lru_filled_wf _ _ prod.collapse [symmetric],
      of 5 None "Returns (Inl ())" "()" id]
  by (auto simp: lru_filled_items a_find_def lru_abs_def split: prod.split if_splits)

text \<open>
  \<open>set_max_size\<close> returns the previous capacity and shrinks the cache to the new one by evicting
  the least recently used entries, counted and reported as by an insertion; growing evicts nothing.
  A size of zero panics (\<open>set_max_size\<close>) or is an error (\<open>try_set_max_size\<close>), without effect.
\<close>

theorem lru_set_max_size_effect:
  assumes "hash_table T entries" "lru_wf entries bk c" "lru_set_max_size T bk n c = (r, d)"
  shows "if n = 0
    then r = Panics \<and> d = c \<and> lru_try_set_max_size T bk n c = (Returns (Inl ZeroMaxSize), c)
    else lru_wf entries bk d \<and> lru_capacity d = n \<and> (\<exists>m. lru_evicted_from (lru_items c) m c d) \<and>
      (r = Returns (Some (lru_capacity c)) \<and> length (lru_items d) \<le> n
       \<or> r = Panics \<and> \<not> quiet (lru_on_evict c))"
proof (cases "n = 0")
  case True
  then show ?thesis
    using assms(3) by (simp add: lru_set_max_size_def lru_try_set_max_size_def comp_simps)
next
  case False
  note ref = refines_result [OF hash_table.refines_set_max_size [OF assms(1)] assms(2,3)]
  let ?s = "(lru_abs c)\<lparr>al_capacity := n\<rparr>"
  have a: "lru_abs d = al_evicted (victims ?s) ?s"
    and r: "r = (if all_ok (lru_on_evict c) (drop n (lru_items c)) then Returns (Some (lru_capacity c)) else Panics)"
    using ref(2) False hash_table.lru_wf_a_wf [OF assms(1,2)] by (auto simp: al_set_max_size_closed)
  have "lru_evicted_from (al_items ?s) (length (victims ?s)) c d"
    by (rule lru_evicted_from_victims [OF a]) simp_all
  moreover have "length (lru_items d) \<le> n" if "all_ok (lru_on_evict c) (drop n (lru_items c))"
    using all_ok_fits [of ?s] that arg_cong [OF a, of al_items] by simp
  moreover have "lru_capacity d = n" using arg_cong [OF a, of al_capacity] by (simp add: al_evicted_def)
  ultimately show ?thesis using ref(1) r False by auto
qed

theorem lru_set_max_size_effect_witness:
  "let (r, d) = lru_set_max_size list_table id 1 (lru_filled None) in
     r = Returns (Some 2) \<and> length (lru_items d) \<le> 1"
  using lru_set_max_size_effect [OF lt.hash_table_axioms lru_filled_wf prod.collapse [symmetric],
      of 1 None]
  by (auto simp: lru_filled_facts split: prod.split)

text \<open>
  Building succeeds exactly for a positive \<open>max_size\<close> whose table and list can be allocated, and
  yields an empty, well-formed cache of that capacity with counters at zero; otherwise it names the
  offending field in the error. \<open>max_size + 2\<close> is computed without overflow.
\<close>

theorem lru_build_effect:
  assumes "hash_table T entries"
  shows "case lru_build T table_alloc list_alloc b of
      Inr c \<Rightarrow> \<exists>n. lrub_size b = Some n \<and> 0 < n \<and> n + 2 \<le> usize_max \<and> table_alloc n \<and> list_alloc (n + 2) \<and>
        lru_wf entries bk c \<and> lru_items c = [] \<and> lru_capacity c = n \<and> lru_hits c = 0 \<and>
        lru_misses c = 0 \<and> lru_evictions c = 0
    | Inl e \<Rightarrow> (case lrub_size b of
        None \<Rightarrow> e = MissingRequired ''max_size''
      | Some n \<Rightarrow> (n = 0 \<or> \<not> table_alloc n \<or> usize_max < n + 2 \<or> \<not> list_alloc (n + 2)) \<and>
          (\<exists>reason. e = InvalidValue ''max_size'' reason))"
proof (cases "lru_build T table_alloc list_alloc b")
  case (Inl e)
  then show ?thesis
    by (auto simp: lru_build_def ll_try_with_capacity_def usize_checked_add_def
        split: option.splits if_splits sum.splits)
next
  case (Inr c)
  note wf = hash_table.lru_build_wf [OF assms Inr]
  have "\<exists>n. lrub_size b = Some n \<and> 0 < n \<and> n + 2 \<le> usize_max \<and> table_alloc n \<and> list_alloc (n + 2)"
    using Inr by (auto simp: lru_build_def ll_try_with_capacity_def usize_checked_add_def
        split: option.splits if_splits sum.splits)
  then show ?thesis
    using Inr wf by (auto simp: lru_abs_def)
qed

theorem lru_build_effect_witness:
  "lru_wf mset id (lru_demo 2 None) \<and> lru_items (lru_demo 2 None) = []"
  using lru_build_effect [OF lt.hash_table_axioms, of "\<lambda>_. True" "\<lambda>_. True" "lru_demo_builder 2 None" id]
  by (simp add: lru_demo_build)

end
