(* ===== verification/Hash_Map.thy ===== *)
theory Hash_Map
  imports Store_Common Entry_List
begin

text \<open>
  \<open>std::collections::HashMap\<close> as the stores use it: the list of its entries in iteration order, with
  distinct keys. The position of a new entry stands for the unspecified iteration order of the map:
  no property depends on it. An insertion under an equal key keeps the key that is stored and
  replaces the value, as \<open>HashMap::insert\<close> documents. \<open>take_doomed\<close> of \<open>src/stores/mod.rs\<close> and
  the \<open>Cached\<close> implementation for \<open>HashMap\<close> itself follow.
\<close>

type_synonym ('k, 'v) hash_map = "('k \<times> 'v) list"

definition hm_get :: "('k \<Rightarrow> 'q) \<Rightarrow> 'q \<Rightarrow> ('k, 'v) hash_map \<Rightarrow> 'v option" where
  "hm_get bk q m = map_option snd (a_find bk q m)"

text \<open>Writing \<open>f\<close> through a mutable reference to the value under \<open>q\<close>.\<close>

definition hm_update :: "('k \<Rightarrow> 'q) \<Rightarrow> 'q \<Rightarrow> ('v \<Rightarrow> 'v) \<Rightarrow> ('k, 'v) hash_map \<Rightarrow> ('k, 'v) hash_map" where
  "hm_update bk q f m = map (\<lambda>kv. if bk (fst kv) = q then (fst kv, f (snd kv)) else kv) m"

definition hm_insert :: "('k \<Rightarrow> 'q) \<Rightarrow> 'k \<Rightarrow> 'v \<Rightarrow> ('k, 'v) hash_map \<Rightarrow> 'v option \<times> ('k, 'v) hash_map" where
  "hm_insert bk k v m = (case a_find bk (bk k) m of
       Some kv \<Rightarrow> (Some (snd kv), hm_update bk (bk k) (\<lambda>_. v) m)
     | None \<Rightarrow> (None, m @ [(k, v)]))"

definition hm_remove_entry :: "('k \<Rightarrow> 'q) \<Rightarrow> 'q \<Rightarrow> ('k, 'v) hash_map
    \<Rightarrow> ('k \<times> 'v) option \<times> ('k, 'v) hash_map" where
  "hm_remove_entry bk q m = (a_find bk q m, a_without bk q m)"

section \<open>Lookup after an update\<close>

lemma hm_update_keys: "map (\<lambda>kv. bk (fst kv)) (hm_update bk q f m) = map (\<lambda>kv. bk (fst kv)) m"
  by (simp add: hm_update_def)

lemma length_hm_update [simp]: "length (hm_update bk q f m) = length m"
  by (simp add: hm_update_def)

lemma hm_update_id [simp]: "hm_update bk q (\<lambda>v. v) m = m"
  by (auto simp: hm_update_def intro: map_idI)

lemma a_find_update:
  "a_find bk q' (hm_update bk q f m) =
     (if q' = q then map_option (apsnd f) (a_find bk q m) else a_find bk q' m)"
  by (induction m) (auto simp: hm_update_def a_find_Cons)

lemma a_wf_update [simp]: "a_wf bk (hm_update bk q f m) = a_wf bk m"
  by (simp add: a_wf_def hm_update_keys)

lemma a_find_append: "a_find bk q (xs @ ys) = (case a_find bk q xs of None \<Rightarrow> a_find bk q ys | Some kv \<Rightarrow> Some kv)"
  by (induction xs) (auto simp: a_find_Cons)

lemma a_find_insert:
  "a_find bk q (snd (hm_insert bk k v m)) =
     (if q = bk k then Some (case a_find bk (bk k) m of Some kv \<Rightarrow> (fst kv, v) | None \<Rightarrow> (k, v))
      else a_find bk q m)"
  by (auto simp: hm_insert_def a_find_update a_find_append a_find_Cons split: option.splits)

lemma a_wf_insert [simp]: "a_wf bk m \<Longrightarrow> a_wf bk (snd (hm_insert bk k v m))"
  by (cases "a_find bk (bk k) m") (auto simp: hm_insert_def, auto simp: a_wf_def a_find_None_iff)

lemma hm_insert_fst [simp]: "fst (hm_insert bk k v m) = hm_get bk (bk k) m"
  by (simp add: hm_insert_def hm_get_def split: option.splits)

section \<open>Removing by a predicate in two passes\<close>

text \<open>
  \<open>take_doomed\<close>: the first pass asks the predicate, which may panic, about every entry and records
  the answers; the second one takes out the entries whose recorded answer is \<open>true\<close>.
\<close>

fun map_closure :: "('a \<Rightarrow> 'b option) \<Rightarrow> 'a list \<Rightarrow> 'b list option" where
  "map_closure p [] = Some []"
| "map_closure p (x # xs) = do { b \<leftarrow> p x; bs \<leftarrow> map_closure p xs; Some (b # bs) }"

fun extract_if :: "bool list \<Rightarrow> 'a list \<Rightarrow> 'a list \<times> 'a list" where
  "extract_if flags [] = ([], [])"
| "extract_if [] (x # xs) = (let (out, kept) = extract_if [] xs in (out, x # kept))"
| "extract_if (b # flags) (x # xs) =
     (let (out, kept) = extract_if flags xs in if b then (x # out, kept) else (out, x # kept))"

definition take_doomed :: "('k, 'v) predicate \<Rightarrow> ('k, 'v) hash_map
    \<Rightarrow> (('k \<times> 'v) list \<times> ('k, 'v) hash_map) option" where
  "take_doomed doomed m = do {
     flags \<leftarrow> map_closure (\<lambda>(k, v). doomed k v) m;
     Some (if True \<notin> set flags then ([], m) else extract_if flags m)
   }"

lemma extract_if_map:
  "extract_if (map P xs) xs = (filter P xs, filter (\<lambda>x. \<not> P x) xs)"
  by (induction xs) auto

lemma map_closure_total:
  "(\<And>x. x \<in> set xs \<Longrightarrow> p x = Some (P x)) \<Longrightarrow> map_closure p xs = Some (map P xs)"
  by (induction xs) auto

lemma map_closure_panic: "x \<in> set xs \<Longrightarrow> p x = None \<Longrightarrow> map_closure p xs = None"
  by (induction xs) (auto split: Option.bind_splits)

lemma take_doomed_total:
  assumes "\<And>k v. (k, v) \<in> set m \<Longrightarrow> doomed k v = Some (P k v)"
  shows "take_doomed doomed m =
    Some (filter (\<lambda>kv. P (fst kv) (snd kv)) m, filter (\<lambda>kv. \<not> P (fst kv) (snd kv)) m)"
proof -
  let ?P = "\<lambda>kv. P (fst kv) (snd kv)"
  have f: "map_closure (\<lambda>(k, v). doomed k v) m = Some (map ?P m)"
    using assms by (intro map_closure_total) auto
  have "filter ?P m = []" "filter (\<lambda>kv. \<not> ?P kv) m = m" if "True \<notin> ?P ` set m"
    using that by (auto simp: filter_empty_conv filter_id_conv)
  then show ?thesis by (simp add: take_doomed_def f extract_if_map)
qed

lemma a_wf_extract_if:
  "a_wf bk xs \<Longrightarrow> a_wf bk (snd (extract_if flags xs)) \<and> set (snd (extract_if flags xs)) \<subseteq> set xs"
  by (induction flags xs rule: extract_if.induct) (auto simp: a_wf_Cons case_prod_beta Let_def)

lemma a_wf_take_doomed: "take_doomed doomed m = Some (out, m') \<Longrightarrow> a_wf bk m \<Longrightarrow> a_wf bk m'"
  by (auto simp: take_doomed_def split: Option.bind_splits if_splits) (metis a_wf_extract_if snd_conv)

lemma take_doomed_panic: "(k, v) \<in> set m \<Longrightarrow> doomed k v = None \<Longrightarrow> take_doomed doomed m = None"
  using map_closure_panic [of "(k, v)" m "\<lambda>(k, v). doomed k v"] by (simp add: take_doomed_def)

section \<open>\<open>HashMap\<close> as a store\<close>

text \<open>The \<open>Cached\<close> implementation for the map itself: no counters, no callback.\<close>

definition hmc_cache_get :: "('k \<Rightarrow> 'q) \<Rightarrow> 'q \<Rightarrow> (('k, 'v) hash_map, 'v option) comp" where
  "hmc_cache_get bk q = andthen get_state (\<lambda>m. ret (hm_get bk q m))"

definition hmc_cache_get_mut :: "('k \<Rightarrow> 'q) \<Rightarrow> 'q \<Rightarrow> ('v \<Rightarrow> 'v) \<Rightarrow> (('k, 'v) hash_map, 'v option) comp" where
  "hmc_cache_get_mut bk q upd =
     andthen get_state (\<lambda>m. andthen (modify (hm_update bk q upd)) (\<lambda>_. ret (hm_get bk q m)))"

definition hmc_cache_set :: "('k \<Rightarrow> 'q) \<Rightarrow> 'k \<Rightarrow> 'v \<Rightarrow> (('k, 'v) hash_map, 'v option) comp" where
  "hmc_cache_set bk k v =
     andthen get_state (\<lambda>m. andthen (modify (\<lambda>m. snd (hm_insert bk k v m))) (\<lambda>_.
     ret (fst (hm_insert bk k v m))))"

text \<open>\<open>entry(key)\<close>: an occupied entry hands out the value, a vacant one stores what the factory made.\<close>

definition hmc_cache_get_or_set_with_mut :: "('k \<Rightarrow> 'q) \<Rightarrow> 'k \<Rightarrow> 'v outcome \<Rightarrow> ('v \<Rightarrow> 'v)
    \<Rightarrow> (('k, 'v) hash_map, 'v) comp" where
  "hmc_cache_get_or_set_with_mut bk k f upd =
     andthen get_state (\<lambda>m. case hm_get bk (bk k) m of
       Some v \<Rightarrow> andthen (modify (hm_update bk (bk k) upd)) (\<lambda>_. ret v)
     | None \<Rightarrow> andthen (run_closure f) (\<lambda>v.
         andthen (modify (\<lambda>m. snd (hm_insert bk k (upd v) m))) (\<lambda>_. ret v)))"

definition hmc_cache_try_get_or_set_with_mut :: "('k \<Rightarrow> 'q) \<Rightarrow> 'k \<Rightarrow> ('e + 'v) outcome \<Rightarrow> ('v \<Rightarrow> 'v)
    \<Rightarrow> (('k, 'v) hash_map, 'e + 'v) comp" where
  "hmc_cache_try_get_or_set_with_mut bk k f upd =
     andthen get_state (\<lambda>m. case hm_get bk (bk k) m of
       Some v \<Rightarrow> andthen (modify (hm_update bk (bk k) upd)) (\<lambda>_. ret (Inr v))
     | None \<Rightarrow> andthen (run_closure f) (\<lambda>r. case r of
         Inl e \<Rightarrow> ret (Inl e)
       | Inr v \<Rightarrow> andthen (modify (\<lambda>m. snd (hm_insert bk k (upd v) m))) (\<lambda>_. ret (Inr v))))"

definition hmc_async_cache_get_or_set_with_mut :: "('k \<Rightarrow> 'q) \<Rightarrow> 'k \<Rightarrow> 'v outcome \<Rightarrow> ('v \<Rightarrow> 'v)
    \<Rightarrow> (('k, 'v) hash_map, 'v) comp" where
  "hmc_async_cache_get_or_set_with_mut bk k f upd =
     andthen get_state (\<lambda>m. case hm_get bk (bk k) m of
       Some v \<Rightarrow> andthen (modify (hm_update bk (bk k) upd)) (\<lambda>_. ret v)
     | None \<Rightarrow> andthen (await f) (\<lambda>v.
         andthen (modify (\<lambda>m. snd (hm_insert bk k (upd v) m))) (\<lambda>_. ret v)))"

definition hmc_async_cache_try_get_or_set_with_mut :: "('k \<Rightarrow> 'q) \<Rightarrow> 'k \<Rightarrow> ('e + 'v) outcome
    \<Rightarrow> ('v \<Rightarrow> 'v) \<Rightarrow> (('k, 'v) hash_map, 'e + 'v) comp" where
  "hmc_async_cache_try_get_or_set_with_mut bk k f upd =
     andthen get_state (\<lambda>m. case hm_get bk (bk k) m of
       Some v \<Rightarrow> andthen (modify (hm_update bk (bk k) upd)) (\<lambda>_. ret (Inr v))
     | None \<Rightarrow> andthen (await f) (\<lambda>r. case r of
         Inl e \<Rightarrow> ret (Inl e)
       | Inr v \<Rightarrow> andthen (modify (\<lambda>m. snd (hm_insert bk k (upd v) m))) (\<lambda>_. ret (Inr v))))"

definition hmc_cache_remove_entry :: "('k \<Rightarrow> 'q) \<Rightarrow> 'q \<Rightarrow> (('k, 'v) hash_map, ('k \<times> 'v) option) comp" where
  "hmc_cache_remove_entry bk q =
     andthen get_state (\<lambda>m. andthen (modify (\<lambda>m. snd (hm_remove_entry bk q m))) (\<lambda>_.
     ret (fst (hm_remove_entry bk q m))))"

definition hmc_cache_remove :: "('k \<Rightarrow> 'q) \<Rightarrow> 'q \<Rightarrow> (('k, 'v) hash_map, 'v option) comp" where
  "hmc_cache_remove bk q = andthen (hmc_cache_remove_entry bk q) (\<lambda>r. ret (map_option snd r))"

definition hmc_cache_clear :: "(('k, 'v) hash_map, unit) comp" where
  "hmc_cache_clear = modify (\<lambda>_. [])"

definition hmc_cache_reset :: "(('k, 'v) hash_map, unit) comp" where
  "hmc_cache_reset = modify (\<lambda>_. [])"

definition hmc_cache_size :: "('k, 'v) hash_map \<Rightarrow> usize" where
  "hmc_cache_size m = length m"

definition hmc_cache_peek :: "('k \<Rightarrow> 'q) \<Rightarrow> 'q \<Rightarrow> ('k, 'v) hash_map \<Rightarrow> 'v option" where
  "hmc_cache_peek bk q m = hm_get bk q m"

lemma hm_get_without: "hm_get bk q' (a_without bk q m) = (if q' = q then None else hm_get bk q' m)"
  by (simp add: hm_get_def a_find_without)

lemma hm_get_update: "hm_get bk q' (hm_update bk q f m) = (if q' = q then map_option f (hm_get bk q m) else hm_get bk q' m)"
  by (simp add: hm_get_def a_find_update option.map_comp comp_def)

end
