(* ===== verification/Unbound_Cache.thy ===== *)
theory Unbound_Cache
  imports Hash_Map State_Machine
begin

text \<open>
  \<open>src/stores/unbound.rs\<close>: \<open>UnboundCache\<close>, a hash map with hit and miss counters and a callback on
  removal. The counters are striped (\<open>Store_Common\<close>): \<open>cache_get\<close> owns the cache and bumps the first
  slot, \<open>cache_get_read\<close> shares it with other readers and bumps the slot of its thread.
\<close>

record ('k, 'v) unbound_cache =
  ub_store :: "('k, 'v) hash_map"
  ub_hits :: striped_counter
  ub_misses :: striped_counter
  ub_initial_capacity :: "usize option"
  ub_on_evict :: "('k, 'v) callback option"
  ub_calls :: "('k, 'v) trace"

record ('k, 'v) unbound_builder =
  ubb_capacity :: "usize option"
  ubb_on_evict :: "('k, 'v) callback option"

definition unbound_builder_default :: "('k, 'v) unbound_builder" where
  "unbound_builder_default = \<lparr>ubb_capacity = None, ubb_on_evict = None\<rparr>"

definition unbound_builder_initial_capacity ::
    "usize \<Rightarrow> ('k, 'v) unbound_builder \<Rightarrow> ('k, 'v) unbound_builder" where
  "unbound_builder_initial_capacity n b = b\<lparr>ubb_capacity := Some n\<rparr>"

definition unbound_builder_on_evict ::
    "('k, 'v) callback \<Rightarrow> ('k, 'v) unbound_builder \<Rightarrow> ('k, 'v) unbound_builder" where
  "unbound_builder_on_evict f b = b\<lparr>ubb_on_evict := Some f\<rparr>"

definition unbound_build :: "('k, 'v) unbound_builder \<Rightarrow> build_error + ('k, 'v) unbound_cache" where
  "unbound_build b = Inr \<lparr>ub_store = [], ub_hits = sc_new, ub_misses = sc_new,
     ub_initial_capacity = ubb_capacity b, ub_on_evict = ubb_on_evict b, ub_calls = []\<rparr>"

definition unbound_clone :: "('k, 'v) unbound_cache \<Rightarrow> ('k, 'v) unbound_cache" where
  "unbound_clone c = \<lparr>ub_store = ub_store c, ub_hits = sc_snapshot (ub_hits c),
     ub_misses = sc_snapshot (ub_misses c), ub_initial_capacity = ub_initial_capacity c,
     ub_on_evict = ub_on_evict c, ub_calls = ub_calls c\<rparr>"

text \<open>Equality of two maps: the same number of entries, and every entry of the one is in the other.\<close>

definition unbound_eq :: "('k \<Rightarrow> 'q) \<Rightarrow> ('k, 'v) unbound_cache \<Rightarrow> ('k, 'v) unbound_cache \<Rightarrow> bool" where
  "unbound_eq bk c d \<longleftrightarrow> length (ub_store c) = length (ub_store d) \<and>
     (\<forall>(k, v) \<in> set (ub_store c). hm_get bk (bk k) (ub_store d) = Some v)"

definition ub_set_store :: "('k, 'v) hash_map \<Rightarrow> (('k, 'v) unbound_cache, unit) comp" where
  "ub_set_store m = modify (\<lambda>c. c\<lparr>ub_store := m\<rparr>)"

definition ub_hit_mut :: "(('k, 'v) unbound_cache, unit) comp" where
  "ub_hit_mut = modify (\<lambda>c. c\<lparr>ub_hits := sc_increment_mut (ub_hits c)\<rparr>)"

definition ub_miss_mut :: "(('k, 'v) unbound_cache, unit) comp" where
  "ub_miss_mut = modify (\<lambda>c. c\<lparr>ub_misses := sc_increment_mut (ub_misses c)\<rparr>)"

definition ub_notify :: "'k \<Rightarrow> 'v \<Rightarrow> (('k, 'v) unbound_cache, unit) comp" where
  "ub_notify k v c = notify ub_calls_update (ub_on_evict c) k v c"

definition unbound_cache_get :: "('k \<Rightarrow> 'q) \<Rightarrow> 'q \<Rightarrow> (('k, 'v) unbound_cache, 'v option) comp" where
  "unbound_cache_get bk q =
     andthen get_state (\<lambda>c. case hm_get bk q (ub_store c) of
       Some v \<Rightarrow> andthen ub_hit_mut (\<lambda>_. ret (Some v))
     | None \<Rightarrow> andthen ub_miss_mut (\<lambda>_. ret None))"

definition unbound_cache_get_mut :: "('k \<Rightarrow> 'q) \<Rightarrow> 'q \<Rightarrow> ('v \<Rightarrow> 'v)
    \<Rightarrow> (('k, 'v) unbound_cache, 'v option) comp" where
  "unbound_cache_get_mut bk q upd =
     andthen get_state (\<lambda>c. case hm_get bk q (ub_store c) of
       Some v \<Rightarrow> andthen ub_hit_mut (\<lambda>_.
         andthen (ub_set_store (hm_update bk q upd (ub_store c))) (\<lambda>_. ret (Some v)))
     | None \<Rightarrow> andthen ub_miss_mut (\<lambda>_. ret None))"

definition unbound_cache_set :: "('k \<Rightarrow> 'q) \<Rightarrow> 'k \<Rightarrow> 'v \<Rightarrow> (('k, 'v) unbound_cache, 'v option) comp" where
  "unbound_cache_set bk key val =
     andthen get_state (\<lambda>c. let (old, m) = hm_insert bk key val (ub_store c) in
     andthen (ub_set_store m) (\<lambda>_. ret old))"

definition unbound_cache_get_or_set_with_mut :: "('k \<Rightarrow> 'q) \<Rightarrow> 'k \<Rightarrow> 'v outcome \<Rightarrow> ('v \<Rightarrow> 'v)
    \<Rightarrow> (('k, 'v) unbound_cache, 'v) comp" where
  "unbound_cache_get_or_set_with_mut bk key f upd =
     andthen get_state (\<lambda>c. case hm_get bk (bk key) (ub_store c) of
       Some v \<Rightarrow> andthen ub_hit_mut (\<lambda>_.
         andthen (ub_set_store (hm_update bk (bk key) upd (ub_store c))) (\<lambda>_. ret v))
     | None \<Rightarrow> andthen ub_miss_mut (\<lambda>_.
         andthen (run_closure f) (\<lambda>v.
         andthen (ub_set_store (snd (hm_insert bk key (upd v) (ub_store c)))) (\<lambda>_. ret v))))"

definition unbound_cache_try_get_or_set_with_mut :: "('k \<Rightarrow> 'q) \<Rightarrow> 'k \<Rightarrow> ('e + 'v) outcome
    \<Rightarrow> ('v \<Rightarrow> 'v) \<Rightarrow> (('k, 'v) unbound_cache, 'e + 'v) comp" where
  "unbound_cache_try_get_or_set_with_mut bk key f upd =
     andthen get_state (\<lambda>c. case hm_get bk (bk key) (ub_store c) of
       Some v \<Rightarrow> andthen ub_hit_mut (\<lambda>_.
         andthen (ub_set_store (hm_update bk (bk key) upd (ub_store c))) (\<lambda>_. ret (Inr v)))
     | None \<Rightarrow> andthen ub_miss_mut (\<lambda>_.
         andthen (run_closure f) (\<lambda>r. case r of
           Inl e \<Rightarrow> ret (Inl e)
         | Inr v \<Rightarrow>
             andthen (ub_set_store (snd (hm_insert bk key (upd v) (ub_store c)))) (\<lambda>_. ret (Inr v)))))"

definition unbound_async_cache_get_or_set_with_mut :: "('k \<Rightarrow> 'q) \<Rightarrow> 'k \<Rightarrow> 'v outcome \<Rightarrow> ('v \<Rightarrow> 'v)
    \<Rightarrow> (('k, 'v) unbound_cache, 'v) comp" where
  "unbound_async_cache_get_or_set_with_mut bk key f upd =
     andthen get_state (\<lambda>c. case hm_get bk (bk key) (ub_store c) of
       Some v \<Rightarrow> andthen ub_hit_mut (\<lambda>_.
         andthen (ub_set_store (hm_update bk (bk key) upd (ub_store c))) (\<lambda>_. ret v))
     | None \<Rightarrow> andthen ub_miss_mut (\<lambda>_.
         andthen (await f) (\<lambda>v.
         andthen (ub_set_store (snd (hm_insert bk key (upd v) (ub_store c)))) (\<lambda>_. ret v))))"

definition unbound_async_cache_try_get_or_set_with_mut :: "('k \<Rightarrow> 'q) \<Rightarrow> 'k \<Rightarrow> ('e + 'v) outcome
    \<Rightarrow> ('v \<Rightarrow> 'v) \<Rightarrow> (('k, 'v) unbound_cache, 'e + 'v) comp" where
  "unbound_async_cache_try_get_or_set_with_mut bk key f upd =
     andthen get_state (\<lambda>c. case hm_get bk (bk key) (ub_store c) of
       Some v \<Rightarrow> andthen ub_hit_mut (\<lambda>_.
         andthen (ub_set_store (hm_update bk (bk key) upd (ub_store c))) (\<lambda>_. ret (Inr v)))
     | None \<Rightarrow> andthen ub_miss_mut (\<lambda>_.
         andthen (await f) (\<lambda>r. case r of
           Inl e \<Rightarrow> ret (Inl e)
         | Inr v \<Rightarrow>
             andthen (ub_set_store (snd (hm_insert bk key (upd v) (ub_store c)))) (\<lambda>_. ret (Inr v)))))"

definition unbound_cache_remove_entry :: "('k \<Rightarrow> 'q) \<Rightarrow> 'q
    \<Rightarrow> (('k, 'v) unbound_cache, ('k \<times> 'v) option) comp" where
  "unbound_cache_remove_entry bk q =
     andthen get_state (\<lambda>c. let (removed, m) = hm_remove_entry bk q (ub_store c) in
     andthen (ub_set_store m) (\<lambda>_.
     andthen (case removed of None \<Rightarrow> ret () | Some (k, v) \<Rightarrow> ub_notify k v) (\<lambda>_.
     ret removed)))"

definition unbound_cache_remove :: "('k \<Rightarrow> 'q) \<Rightarrow> 'q \<Rightarrow> (('k, 'v) unbound_cache, 'v option) comp" where
  "unbound_cache_remove bk q =
     andthen (unbound_cache_remove_entry bk q) (\<lambda>r. ret (map_option snd r))"

definition unbound_cache_clear :: "(('k, 'v) unbound_cache, unit) comp" where
  "unbound_cache_clear = ub_set_store []"

definition unbound_cache_clear_with_on_evict :: "(('k, 'v) unbound_cache, unit) comp" where
  "unbound_cache_clear_with_on_evict =
     andthen get_state (\<lambda>c.
     if ub_on_evict c = None then unbound_cache_clear
     else andthen (ub_set_store []) (\<lambda>_. foreach (ub_store c) (\<lambda>(k, v). ub_notify k v)))"

text \<open>
  \<open>retain\<close> runs the predicate and the callback inside \<open>HashMap::retain\<close>, which visits the entries one
  after the other and erases an entry when the closure has returned \<open>false\<close> for it: the callback
  runs before its entry is erased.
\<close>

fun unbound_retain_loop :: "('k \<Rightarrow> 'q) \<Rightarrow> ('k, 'v) predicate \<Rightarrow> ('k \<times> 'v) list \<Rightarrow> usize
    \<Rightarrow> (('k, 'v) unbound_cache, usize) comp" where
  "unbound_retain_loop bk keep [] removed = ret removed"
| "unbound_retain_loop bk keep ((k, v) # rest) removed =
     (case keep k v of
        None \<Rightarrow> panic
      | Some True \<Rightarrow> unbound_retain_loop bk keep rest removed
      | Some False \<Rightarrow>
          andthen (ub_notify k v) (\<lambda>_.
          andthen (modify (\<lambda>c. c\<lparr>ub_store := a_without bk (bk k) (ub_store c)\<rparr>)) (\<lambda>_.
          unbound_retain_loop bk keep rest (removed + 1))))"

definition unbound_retain :: "('k \<Rightarrow> 'q) \<Rightarrow> ('k, 'v) predicate \<Rightarrow> (('k, 'v) unbound_cache, usize) comp" where
  "unbound_retain bk keep = andthen get_state (\<lambda>c. unbound_retain_loop bk keep (ub_store c) 0)"

definition unbound_cache_reset_metrics :: "(('k, 'v) unbound_cache, unit) comp" where
  "unbound_cache_reset_metrics =
     modify (\<lambda>c. c\<lparr>ub_misses := sc_reset (ub_misses c), ub_hits := sc_reset (ub_hits c)\<rparr>)"

definition unbound_cache_reset :: "(('k, 'v) unbound_cache, unit) comp" where
  "unbound_cache_reset = andthen (ub_set_store []) (\<lambda>_. unbound_cache_reset_metrics)"

definition unbound_cache_size :: "('k, 'v) unbound_cache \<Rightarrow> usize" where
  "unbound_cache_size c = length (ub_store c)"

definition unbound_cache_hits :: "('k, 'v) unbound_cache \<Rightarrow> u64 option" where
  "unbound_cache_hits c = Some (sc_load (ub_hits c))"

definition unbound_cache_misses :: "('k, 'v) unbound_cache \<Rightarrow> u64 option" where
  "unbound_cache_misses c = Some (sc_load (ub_misses c))"

definition unbound_cache_peek :: "('k \<Rightarrow> 'q) \<Rightarrow> 'q \<Rightarrow> ('k, 'v) unbound_cache \<Rightarrow> 'v option" where
  "unbound_cache_peek bk q c = hm_get bk q (ub_store c)"

definition unbound_cache_contains :: "('k \<Rightarrow> 'q) \<Rightarrow> 'q \<Rightarrow> (('k, 'v) unbound_cache, bool) comp" where
  "unbound_cache_contains bk q = andthen get_state (\<lambda>c. ret (unbound_cache_peek bk q c \<noteq> None))"

text \<open>The read path through a shared reference, on the thread with the given number.\<close>

definition unbound_cache_get_read :: "('k \<Rightarrow> 'q) \<Rightarrow> usize \<Rightarrow> 'q
    \<Rightarrow> (('k, 'v) unbound_cache, 'v option) comp" where
  "unbound_cache_get_read bk thread q =
     andthen get_state (\<lambda>c. case unbound_cache_peek bk q c of
       Some v \<Rightarrow> andthen (modify (\<lambda>c. c\<lparr>ub_hits := sc_increment thread (ub_hits c)\<rparr>)) (\<lambda>_. ret (Some v))
     | None \<Rightarrow> andthen (modify (\<lambda>c. c\<lparr>ub_misses := sc_increment thread (ub_misses c)\<rparr>)) (\<lambda>_. ret None))"

end
