(* ===== verification/Unbound_Correct.thy ===== *)
theory Unbound_Correct
  imports Unbound_Cache
begin

text \<open>
  What \<open>UnboundCache\<close> does, seen through its contents as a map from borrowed keys to entries: the
  store simulates a plain map, and its striped counters lose no lookup, whichever threads count.
\<close>

datatype (plugins only: code size) (dead 'k, dead 'v, dead 'q, dead 'e) unbound_op =
    UGet 'q
  | UGetRead usize 'q
  | UGetMut 'q "'v \<Rightarrow> 'v"
  | USet 'k 'v
  | UGetOrSet 'k "'v outcome" "'v \<Rightarrow> 'v"
  | UTryGetOrSet 'k "('e + 'v) outcome" "'v \<Rightarrow> 'v"
  | UAsyncGetOrSet 'k "'v outcome" "'v \<Rightarrow> 'v"
  | UAsyncTryGetOrSet 'k "('e + 'v) outcome" "'v \<Rightarrow> 'v"
  | URemove 'q
  | URemoveEntry 'q
  | UContains 'q
  | URetain "'k \<Rightarrow> 'v \<Rightarrow> bool"
  | UClear
  | UClearWithOnEvict
  | UResetMetrics
  | UReset

datatype (plugins only: code size) (dead 'k, dead 'v, dead 'e) unbound_result =
    UUnit | UValue 'v | UTry "'e + 'v" | ULookup "'v option" | UEntry "('k \<times> 'v) option" | UBool bool
  | UCount usize

fun unbound_exec :: "('k \<Rightarrow> 'q) \<Rightarrow> ('k, 'v, 'q, 'e) unbound_op
    \<Rightarrow> (('k, 'v) unbound_cache, ('k, 'v, 'e) unbound_result) comp" where
  "unbound_exec bk (UGet q) = as_result (unbound_cache_get bk q) ULookup"
| "unbound_exec bk (UGetRead n q) = as_result (unbound_cache_get_read bk n q) ULookup"
| "unbound_exec bk (UGetMut q upd) = as_result (unbound_cache_get_mut bk q upd) ULookup"
| "unbound_exec bk (USet k v) = as_result (unbound_cache_set bk k v) ULookup"
| "unbound_exec bk (UGetOrSet k f upd) =
     as_result (unbound_cache_get_or_set_with_mut bk k f upd) UValue"
| "unbound_exec bk (UTryGetOrSet k f upd) =
     as_result (unbound_cache_try_get_or_set_with_mut bk k f upd) UTry"
| "unbound_exec bk (UAsyncGetOrSet k f upd) =
     as_result (unbound_async_cache_get_or_set_with_mut bk k f upd) UValue"
| "unbound_exec bk (UAsyncTryGetOrSet k f upd) =
     as_result (unbound_async_cache_try_get_or_set_with_mut bk k f upd) UTry"
| "unbound_exec bk (URemove q) = as_result (unbound_cache_remove bk q) ULookup"
| "unbound_exec bk (URemoveEntry q) = as_result (unbound_cache_remove_entry bk q) UEntry"
| "unbound_exec bk (UContains q) = as_result (unbound_cache_contains bk q) UBool"
| "unbound_exec bk (URetain keep) = as_result (unbound_retain bk (\<lambda>k v. Some (keep k v))) UCount"
| "unbound_exec bk UClear = as_result unbound_cache_clear (\<lambda>_. UUnit)"
| "unbound_exec bk UClearWithOnEvict = as_result unbound_cache_clear_with_on_evict (\<lambda>_. UUnit)"
| "unbound_exec bk UResetMetrics = as_result unbound_cache_reset_metrics (\<lambda>_. UUnit)"
| "unbound_exec bk UReset = as_result unbound_cache_reset (\<lambda>_. UUnit)"

text \<open>The specification: a map from borrowed keys to entries, the entry carrying the stored key.\<close>

type_synonym ('k, 'v, 'q) entry_map = "'q \<rightharpoonup> 'k \<times> 'v"

definition um_look :: "'q \<Rightarrow> ('k, 'v, 'q) entry_map \<Rightarrow> 'v option" where
  "um_look q m = map_option snd (m q)"

definition um_set :: "('k \<Rightarrow> 'q) \<Rightarrow> 'k \<Rightarrow> 'v \<Rightarrow> ('k, 'v, 'q) entry_map \<Rightarrow> ('k, 'v, 'q) entry_map" where
  "um_set bk k v m = m(bk k \<mapsto> (case m (bk k) of Some kv \<Rightarrow> (fst kv, v) | None \<Rightarrow> (k, v)))"

definition um_change :: "'q \<Rightarrow> ('v \<Rightarrow> 'v) \<Rightarrow> ('k, 'v, 'q) entry_map \<Rightarrow> ('k, 'v, 'q) entry_map" where
  "um_change q f m = m(q := map_option (apsnd f) (m q))"

definition um_get_or_set :: "('k \<Rightarrow> 'q) \<Rightarrow> 'k \<Rightarrow> ('e + 'v) outcome \<Rightarrow> ('v \<Rightarrow> 'v)
    \<Rightarrow> (('k, 'v, 'q) entry_map, 'e + 'v) comp" where
  "um_get_or_set bk k f upd m = (case um_look (bk k) m of
       Some v \<Rightarrow> (Returns (Inr v), um_change (bk k) upd m)
     | None \<Rightarrow> (case f of
         Returns (Inr v) \<Rightarrow> (Returns (Inr v), um_set bk k (upd v) m)
       | _ \<Rightarrow> (f, m)))"

definition um_retain :: "('k \<Rightarrow> 'v \<Rightarrow> bool) \<Rightarrow> (('k, 'v, 'q) entry_map, usize) comp" where
  "um_retain keep m =
     (Returns (card {q. \<exists>kv. m q = Some kv \<and> \<not> keep (fst kv) (snd kv)}),
      \<lambda>q. case m q of Some kv \<Rightarrow> if keep (fst kv) (snd kv) then Some kv else None | None \<Rightarrow> None)"

definition um_lookup :: "'q \<Rightarrow> ('v \<Rightarrow> 'v) \<Rightarrow> (('k, 'v, 'q) entry_map, 'v option) comp" where
  "um_lookup q upd m = (Returns (um_look q m), um_change q upd m)"

definition um_put :: "('k \<Rightarrow> 'q) \<Rightarrow> 'k \<Rightarrow> 'v \<Rightarrow> (('k, 'v, 'q) entry_map, 'v option) comp" where
  "um_put bk k v m = (Returns (um_look (bk k) m), um_set bk k v m)"

definition um_remove :: "'q \<Rightarrow> (('k, 'v, 'q) entry_map, ('k \<times> 'v) option) comp" where
  "um_remove q m = (Returns (m q), m(q := None))"

definition um_fallible :: "'v outcome \<Rightarrow> (unit + 'v) outcome" where
  "um_fallible f = map_outcome Inr f"

fun um_exec :: "('k \<Rightarrow> 'q) \<Rightarrow> ('k, 'v, 'q, 'e) unbound_op
    \<Rightarrow> (('k, 'v, 'q) entry_map, ('k, 'v, 'e) unbound_result) comp" where
  "um_exec bk (UGet q) = as_result (um_lookup q id) ULookup"
| "um_exec bk (UGetRead n q) = as_result (um_lookup q id) ULookup"
| "um_exec bk (UGetMut q upd) = as_result (um_lookup q upd) ULookup"
| "um_exec bk (USet k v) = as_result (um_put bk k v) ULookup"
| "um_exec bk (UGetOrSet k f upd) = as_result (um_get_or_set bk k (um_fallible f) upd) (UValue \<circ> projr)"
| "um_exec bk (UTryGetOrSet k f upd) = as_result (um_get_or_set bk k f upd) UTry"
| "um_exec bk (UAsyncGetOrSet k f upd) = as_result (um_get_or_set bk k (um_fallible f) upd) (UValue \<circ> projr)"
| "um_exec bk (UAsyncTryGetOrSet k f upd) = as_result (um_get_or_set bk k f upd) UTry"
| "um_exec bk (URemove q) = as_result (um_remove q) (ULookup \<circ> map_option snd)"
| "um_exec bk (URemoveEntry q) = as_result (um_remove q) UEntry"
| "um_exec bk (UContains q) = as_result (um_lookup q id) (\<lambda>v. UBool (v \<noteq> None))"
| "um_exec bk (URetain keep) = as_result (um_retain keep) UCount"
| "um_exec bk UClear = as_result (modify (\<lambda>_. Map.empty)) (\<lambda>_. UUnit)"
| "um_exec bk UClearWithOnEvict = as_result (modify (\<lambda>_. Map.empty)) (\<lambda>_. UUnit)"
| "um_exec bk UResetMetrics = ret UUnit"
| "um_exec bk UReset = as_result (modify (\<lambda>_. Map.empty)) (\<lambda>_. UUnit)"

section \<open>The simulation\<close>

definition ub_wf :: "('k \<Rightarrow> 'q) \<Rightarrow> ('k, 'v) unbound_cache \<Rightarrow> bool" where
  "ub_wf bk c \<longleftrightarrow> a_wf bk (ub_store c) \<and> sc_wf (ub_hits c) \<and> sc_wf (ub_misses c)"

definition ub_view :: "('k \<Rightarrow> 'q) \<Rightarrow> ('k, 'v) unbound_cache \<Rightarrow> ('k, 'v, 'q) entry_map" where
  "ub_view bk c = (\<lambda>q. a_find bk q (ub_store c))"

definition ub_ok :: "('k \<Rightarrow> 'q) \<Rightarrow> ('k, 'v) unbound_cache \<Rightarrow> bool" where
  "ub_ok bk c \<longleftrightarrow> ub_wf bk c \<and> quiet (ub_on_evict c)"

lemma ub_notify_apply: "ub_notify k v c =
   (if cb_ok (ub_on_evict c) k v then Returns () else Panics,
    c\<lparr>ub_calls := ub_calls c @ cb_calls (ub_on_evict c) [(k, v)]\<rparr>)"
  by (simp add: ub_notify_def notify_apply)

lemmas ub_defs = ub_ok_def ub_wf_def ub_view_def ub_set_store_def ub_hit_mut_def ub_miss_mut_def
lemmas um_defs = um_look_def um_change_def um_lookup_def um_put_def um_remove_def um_get_or_set_def

lemma um_change_id [simp]: "um_change q id m = m"
  by (simp add: um_change_def option.map_id apsnd_id_eq fun_upd_idem)

lemma view_update: "(\<lambda>q'. a_find bk q' (hm_update bk q f m)) = um_change q f (\<lambda>q'. a_find bk q' m)"
  by (auto simp: um_change_def a_find_update)

lemma view_insert:
  "(\<lambda>q. a_find bk q (snd (hm_insert bk k v m))) = um_set bk k v (\<lambda>q. a_find bk q m)"
  by (auto simp: um_set_def a_find_insert split: option.splits)

lemma view_without: "(\<lambda>q'. a_find bk q' (a_without bk q m)) = (\<lambda>q'. a_find bk q' m)(q := None)"
  by (auto simp: a_find_without)

lemma ub_lookup_refines [refines_rules]:
  "refines (ub_ok bk) (ub_view bk) (unbound_cache_get bk q) (um_lookup q id)"
  "refines (ub_ok bk) (ub_view bk) (unbound_cache_get_read bk n q) (um_lookup q id)"
  "refines (ub_ok bk) (ub_view bk) (unbound_cache_get_mut bk q upd) (um_lookup q upd)"
  by (auto simp: refines_def refines_at_def unbound_cache_get_def unbound_cache_get_read_def
      unbound_cache_get_mut_def unbound_cache_peek_def hm_get_def ub_defs comp_simps
      um_lookup_def um_look_def view_update split: option.splits)
    (auto simp: um_change_def)

lemma ub_set_refines [refines_rules]:
  "refines (ub_ok bk) (ub_view bk) (unbound_cache_set bk k v) (um_put bk k v)"
  by (simp add: refines_def refines_at_def unbound_cache_set_def ub_defs comp_simps um_put_def
      um_look_def view_insert hm_get_def case_prod_beta)

lemma ub_try_get_or_set_refines [refines_rules]:
  "refines (ub_ok bk) (ub_view bk) (unbound_cache_try_get_or_set_with_mut bk k f upd)
     (um_get_or_set bk k f upd)"
  by (auto simp: refines_def refines_at_def unbound_cache_try_get_or_set_with_mut_def ub_defs comp_simps
      um_get_or_set_def um_look_def view_insert view_update hm_get_def
      split: option.splits sum.splits outcome.splits)

lemma unbound_get_or_set_eq:
  "as_result (unbound_cache_get_or_set_with_mut bk k f upd) UValue =
     as_result (unbound_cache_try_get_or_set_with_mut bk k (um_fallible f) upd) (UValue \<circ> projr)"
  unfolding unbound_cache_get_or_set_with_mut_def unbound_cache_try_get_or_set_with_mut_def
    as_result_def um_fallible_def
  by (simp add: andthen_push cong: option.case_cong)

lemma unbound_async_eq:
  "unbound_async_cache_get_or_set_with_mut = unbound_cache_get_or_set_with_mut"
  "unbound_async_cache_try_get_or_set_with_mut = unbound_cache_try_get_or_set_with_mut"
  unfolding unbound_async_cache_get_or_set_with_mut_def unbound_cache_get_or_set_with_mut_def
    unbound_async_cache_try_get_or_set_with_mut_def unbound_cache_try_get_or_set_with_mut_def
    await_run_closure by simp_all

lemma ub_remove_entry_refines [refines_rules]:
  "refines (ub_ok bk) (ub_view bk) (unbound_cache_remove_entry bk q) (um_remove q)"
  by (auto simp: refines_def refines_at_def unbound_cache_remove_entry_def ub_defs comp_simps
      um_remove_def hm_remove_entry_def ub_notify_apply view_without split: option.splits)

lemma ub_contains_refines:
  "refines (ub_ok bk) (ub_view bk) (as_result (unbound_cache_contains bk q) UBool)
     (as_result (um_lookup q id) (\<lambda>v. UBool (v \<noteq> None)))"
  by (auto simp: refines_def refines_at_def unbound_cache_contains_def unbound_cache_peek_def hm_get_def
      as_result_def ub_defs comp_simps um_lookup_def um_look_def)

lemma ub_clear_refines [refines_rules]:
  "refines (ub_ok bk) (ub_view bk) unbound_cache_clear (modify (\<lambda>_. Map.empty))"
  "refines (ub_ok bk) (ub_view bk) unbound_cache_reset (modify (\<lambda>_. Map.empty))"
  by (simp_all add: refines_def refines_at_def unbound_cache_clear_def unbound_cache_reset_def
      unbound_cache_reset_metrics_def ub_defs comp_simps)

lemma ub_notify_all:
  "quiet (ub_on_evict c) \<Longrightarrow> foreach kvs (\<lambda>(k, v). ub_notify k v) c =
     (Returns (), c\<lparr>ub_calls := ub_calls c @ cb_calls (ub_on_evict c) kvs\<rparr>)"
proof (induction kvs arbitrary: c)
  case (Cons kv kvs)
  then show ?case
    by (cases kv, cases "ub_on_evict c") (simp_all add: andthen_apply ub_notify_apply)
qed (simp add: ret_apply)

lemma ub_clear_with_on_evict_refines [refines_rules]:
  "refines (ub_ok bk) (ub_view bk) unbound_cache_clear_with_on_evict (modify (\<lambda>_. Map.empty))"
  by (simp add: refines_def refines_at_def unbound_cache_clear_with_on_evict_def
      unbound_cache_clear_def ub_notify_all ub_defs comp_simps)

section \<open>\<open>retain\<close>\<close>

lemma unbound_retain_loop_quiet:
  assumes "quiet (ub_on_evict c)"
  shows "unbound_retain_loop bk (\<lambda>k v. Some (keep k v)) es n c =
    (Returns (n + length (filter (\<lambda>kv. \<not> keep (fst kv) (snd kv)) es)),
     c\<lparr>ub_store := a_without_all bk (filter (\<lambda>kv. \<not> keep (fst kv) (snd kv)) es) (ub_store c),
       ub_calls := ub_calls c @ cb_calls (ub_on_evict c) (filter (\<lambda>kv. \<not> keep (fst kv) (snd kv)) es)\<rparr>)"
  using assms
proof (induction es arbitrary: c n)
  case (Cons kv es)
  obtain k v where kv: "kv = (k, v)" by force
  show ?case
  proof (cases "keep k v")
    case True
    then show ?thesis using Cons by (simp add: kv)
  next
    case False
    with Cons show ?thesis
      by (cases "ub_on_evict c") (simp_all add: kv ub_notify_apply comp_simps a_without_all_Cons)
  qed
qed (simp add: ret_apply)

lemma ub_retain_apply:
  assumes "ub_ok bk c"
  shows "unbound_retain bk (\<lambda>k v. Some (keep k v)) c =
    (Returns (length (filter (\<lambda>kv. \<not> keep (fst kv) (snd kv)) (ub_store c))),
     c\<lparr>ub_store := filter (\<lambda>kv. keep (fst kv) (snd kv)) (ub_store c),
       ub_calls := ub_calls c @
         cb_calls (ub_on_evict c) (filter (\<lambda>kv. \<not> keep (fst kv) (snd kv)) (ub_store c))\<rparr>)"
  using assms a_without_all_filter [of bk "ub_store c" "\<lambda>kv. keep (fst kv) (snd kv)"]
  by (simp add: unbound_retain_def andthen_get_state unbound_retain_loop_quiet ub_ok_def ub_wf_def)

lemma ub_retain_refines [refines_rules]:
  "refines (ub_ok bk) (ub_view bk) (unbound_retain bk (\<lambda>k v. Some (keep k v))) (um_retain keep)"
  by (rule refinesI)
    (auto simp: refines_at_def ub_retain_apply um_retain_def ub_defs a_find_filter
      card_doomed_keys [of _ _ "\<lambda>kv. \<not> keep (fst kv) (snd kv)", simplified] fun_eq_iff split: option.splits)

lemma ub_reset_metrics_refines:
  "refines (ub_ok bk) (ub_view bk) (as_result unbound_cache_reset_metrics (\<lambda>_. UUnit)) (ret UUnit)"
  by (simp add: refines_def refines_at_def as_result_def unbound_cache_reset_metrics_def ub_defs comp_simps)

lemma unbound_remove_eq:
  "as_result (unbound_cache_remove bk q) ULookup =
     as_result (unbound_cache_remove_entry bk q) (ULookup \<circ> map_option snd)"
  by (simp add: as_result_def unbound_cache_remove_def andthen_assoc)

lemma ub_exec_refines: "refines (ub_ok bk) (ub_view bk) (unbound_exec bk op) (um_exec bk op)"
  by (cases op)
    (simp_all only: unbound_exec.simps um_exec.simps unbound_async_eq unbound_get_or_set_eq
      unbound_remove_eq, (intro refines_rules ub_contains_refines ub_reset_metrics_refines)+)

interpretation unbound: simulation "unbound_exec bk" "um_exec bk" "ub_ok bk" "ub_view bk" for bk
  by unfold_locales (rule ub_exec_refines)

text \<open>
  C4. Contents of an \<open>UnboundCache\<close>: from a newly built cache whose callback returns normally, every
  sequence of calls returns what a map from keys to values returns, and the cache holds exactly the
  entries of that map: nothing is evicted, an overwrite keeps the stored key, a get-or-set stores
  only what its factory produced.
\<close>

theorem unbound_is_a_map:
  assumes "unbound_build b = Inr c" "quiet (ubb_on_evict b)" "execution (unbound_exec bk) c tr d"
  shows "execution (um_exec bk) Map.empty tr (ub_view bk d) \<and> unbound_cache_size d = card (dom (ub_view bk d))"
proof -
  have c: "ub_ok bk c" "ub_view bk c = Map.empty"
    using assms(1,2) by (auto simp: unbound_build_def ub_defs)
  note d = unbound.simulates [OF assms(3) c(1)]
  have "dom (ub_view bk d) = {q. \<exists>kv. a_find bk q (ub_store d) = Some kv \<and> True}"
    by (auto simp: ub_view_def dom_def)
  then have "card (dom (ub_view bk d)) = length (ub_store d)"
    using card_doomed_keys [of bk "ub_store d" "\<lambda>_. True"] d by (simp add: ub_ok_def ub_wf_def)
  then show ?thesis using d c(2) by (simp add: unbound_cache_size_def)
qed

text \<open>A concrete cache: two insertions and a lookup from another thread.\<close>

definition unbound_demo :: "(nat, nat) callback option \<Rightarrow> (nat, nat) unbound_cache" where
  "unbound_demo cb = \<lparr>ub_store = [], ub_hits = sc_new, ub_misses = sc_new, ub_initial_capacity = None,
     ub_on_evict = cb, ub_calls = []\<rparr>"

lemma unbound_demo_build: "unbound_build \<lparr>ubb_capacity = None, ubb_on_evict = cb\<rparr> = Inr (unbound_demo cb)"
  by (simp add: unbound_build_def unbound_demo_def)

abbreviation "unbound_demo_run \<equiv> run (unbound_exec id)
  [USet 1 10, USet 1 11, UGetRead 3 1, UGet (2 :: nat) :: (nat, nat, nat, unit) unbound_op] (unbound_demo None)"

theorem unbound_is_a_map_witness:
  "execution (um_exec id) Map.empty (fst unbound_demo_run) (ub_view id (snd unbound_demo_run)) \<and>
   unbound_cache_size (snd unbound_demo_run) = card (dom (ub_view id (snd unbound_demo_run)))"
  by (rule unbound_is_a_map [OF unbound_demo_build _ run_execution]) simp

section \<open>Counters\<close>

fun counts_lookup :: "('k, 'v, 'q, 'e) unbound_op \<Rightarrow> bool" where
  "counts_lookup (UGet q) = True"
| "counts_lookup (UGetRead n q) = True"
| "counts_lookup (UGetMut q upd) = True"
| "counts_lookup (UGetOrSet k f upd) = True"
| "counts_lookup (UTryGetOrSet k f upd) = True"
| "counts_lookup (UAsyncGetOrSet k f upd) = True"
| "counts_lookup (UAsyncTryGetOrSet k f upd) = True"
| "counts_lookup _ = False"

fun resets_metrics :: "('k, 'v, 'q, 'e) unbound_op \<Rightarrow> bool" where
  "resets_metrics UResetMetrics = True"
| "resets_metrics UReset = True"
| "resets_metrics _ = False"

definition ub_total :: "('k, 'v) unbound_cache \<Rightarrow> u64" where
  "ub_total c = sc_load (ub_hits c) + sc_load (ub_misses c)"

definition ub_counters_wf :: "('k, 'v) unbound_cache \<Rightarrow> bool" where
  "ub_counters_wf c \<longleftrightarrow> sc_wf (ub_hits c) \<and> sc_wf (ub_misses c)"

lemma ub_counters_kept [keeps_rules]:
  "keeps (\<lambda>c. ub_hits c = h \<and> ub_misses c = m) (ub_notify k v)"
  "keeps (\<lambda>c. ub_hits c = h \<and> ub_misses c = m) (ub_set_store st)"
  "keeps (\<lambda>c. ub_hits c = h \<and> ub_misses c = m) unbound_cache_clear"
  by (auto simp: keeps_def ub_notify_apply ub_set_store_def modify_def unbound_cache_clear_def)

lemma ub_retain_loop_counters:
  "keeps (\<lambda>c. ub_hits c = h \<and> ub_misses c = m) (unbound_retain_loop bk keep es n)"
proof (induction es arbitrary: n)
  case (Cons kv es)
  have "keeps (\<lambda>c. ub_hits c = h \<and> ub_misses c = m) (modify (\<lambda>c. c\<lparr>ub_store := g c\<rparr>))" for g
    by (simp add: keeps_def modify_def)
  then show ?case
    using Cons by (cases kv) (auto intro!: keeps_rules split: option.splits bool.splits)
qed (auto intro: keeps_rules)

lemma ub_other_counters:
  assumes "\<not> counts_lookup op" "\<not> resets_metrics op"
  shows "keeps (\<lambda>c. ub_hits c = h \<and> ub_misses c = m) (unbound_exec bk op)"
  using assms
  by (cases op)
    (simp_all add: unbound_cache_set_def unbound_cache_remove_def unbound_cache_remove_entry_def
        unbound_cache_contains_def unbound_retain_def unbound_cache_clear_def
        unbound_cache_clear_with_on_evict_def Let_def del: if_split,
      (intro keeps_rules ub_retain_loop_counters)+)

lemma ub_lookup_counters:
  assumes "ub_counters_wf c" "counts_lookup op" "unbound_exec bk op c = (r, d)"
  shows "ub_counters_wf d \<and> ub_total d = ub_total c + 1"
  using assms
  by (cases op)
    (auto simp: unbound_async_eq unbound_cache_get_def unbound_cache_get_read_def unbound_cache_get_mut_def
      unbound_cache_get_or_set_with_mut_def unbound_cache_try_get_or_set_with_mut_def as_result_def
      ub_hit_mut_def ub_miss_mut_def ub_set_store_def comp_simps ub_counters_wf_def ub_total_def
      split: option.splits outcome.splits prod.splits sum.splits)

lemma ub_call_counters:
  assumes "ub_counters_wf c" "\<not> resets_metrics op" "unbound_exec bk op c = (r, d)"
  shows "ub_counters_wf d \<and> ub_total d = ub_total c + (if counts_lookup op then 1 else 0)"
proof (cases "counts_lookup op")
  case True
  then show ?thesis using ub_lookup_counters [OF assms(1) _ assms(3)] by simp
next
  case False
  then have "keeps (\<lambda>d. ub_hits d = ub_hits c \<and> ub_misses d = ub_misses c) (unbound_exec bk op)"
    using assms(2) by (rule ub_other_counters)
  then have "ub_hits d = ub_hits c \<and> ub_misses d = ub_misses c"
    using keepsD [of _ "unbound_exec bk op" c] assms(3) by fastforce
  then show ?thesis using assms(1) False by (simp add: ub_counters_wf_def ub_total_def)
qed

text \<open>
  No lookup is lost: over any sequence of calls without a reset, made by any threads, hits and
  misses together grow by the number of lookups (modulo \<open>2 ^ 64\<close>), a get-or-set whose factory fails
  or panics included.
\<close>

theorem unbound_counts_every_lookup:
  assumes "unbound_build b = Inr c" "execution (unbound_exec bk) c tr d"
    and "\<And>op. op \<in> set (map fst tr) \<Longrightarrow> \<not> resets_metrics op"
  shows "sc_load (ub_hits d) + sc_load (ub_misses d) =
    of_nat (length (filter counts_lookup (map fst tr)))"
proof -
  have c: "ub_counters_wf c" "ub_total c = 0"
    using assms(1) by (auto simp: unbound_build_def ub_counters_wf_def ub_total_def)
  from assms(2,3) have "ub_counters_wf d \<and>
      ub_total d = of_nat (length (filter counts_lookup (map fst tr)))"
  proof (induction rule: execution.induct)
    case (call tr s op r t)
    then show ?case using ub_call_counters [of s op bk r t] by auto
  qed (simp add: c)
  then show ?thesis by (simp add: ub_total_def)
qed

theorem unbound_counts_every_lookup_witness:
  "sc_load (ub_hits (snd unbound_demo_run)) + sc_load (ub_misses (snd unbound_demo_run)) = 2"
proof -
  have "sc_load (ub_hits (snd unbound_demo_run)) + sc_load (ub_misses (snd unbound_demo_run)) =
      of_nat (length (filter counts_lookup (map fst (fst unbound_demo_run))))"
    by (rule unbound_counts_every_lookup [OF unbound_demo_build run_execution])
      (simp only: run_ops, auto)
  then show ?thesis by (simp only: run_ops) simp
qed

lemma unbound_retain_loop_panics:
  assumes "unbound_retain_loop bk (\<lambda>k v. Some (keep k v)) es n c = (Panics, d)"
    and "a_wf bk es" "set es \<subseteq> set (ub_store c)"
  shows "ub_calls d \<noteq> [] \<and> last (ub_calls d) \<in> set (ub_store d)"
  using assms
proof (induction es arbitrary: c n)
  case (Cons kv es)
  obtain k v where kv: "kv = (k, v)" by force
  show ?case
  proof (cases "keep k v \<or> cb_ok (ub_on_evict c) k v")
    case True
    let ?c = "if keep k v then c else c\<lparr>ub_calls := ub_calls c @ cb_calls (ub_on_evict c) [(k, v)],
        ub_store := a_without bk (bk k) (ub_store c)\<rparr>"
    have "unbound_retain_loop bk (\<lambda>k v. Some (keep k v)) es (if keep k v then n else n + 1) ?c = (Panics, d)"
      using Cons.prems(1) True by (auto simp: kv ub_notify_apply comp_simps split: if_splits)
    moreover have "a_wf bk es" "set es \<subseteq> set (ub_store ?c)"
      using Cons.prems(2,3) by (auto simp: a_wf_Cons kv set_a_without)
    ultimately show ?thesis by (rule Cons.IH)
  next
    case False
    then show ?thesis
      using Cons.prems
      by (cases "ub_on_evict c") (auto simp: kv ub_notify_apply comp_simps)
  qed
qed (simp add: ret_apply)

text \<open>
  C5. \<open>retain\<close> tells the callback about an entry before the map erases it: when the callback panics,
  the entry it was last told about is still in the cache and will be reported again. (The stores
  with an eviction counter remove first and report then.)
\<close>

theorem unbound_retain_reports_first:
  assumes "ub_wf bk c" "unbound_retain bk (\<lambda>k v. Some (keep k v)) c = (Panics, d)"
  shows "ub_calls d \<noteq> [] \<and> last (ub_calls d) \<in> set (ub_store d)"
  using unbound_retain_loop_panics [of bk keep "ub_store c" 0 c d] assms
  by (simp add: unbound_retain_def andthen_get_state ub_wf_def)

abbreviation "unbound_demo_panicking \<equiv> unbound_demo (Some (\<lambda>k v. False))\<lparr>ub_store := [(1, 10)]\<rparr>"

theorem unbound_retain_reports_first_witness:
  "last (ub_calls (snd (unbound_retain id (\<lambda>k v. Some False) unbound_demo_panicking))) \<in>
     set (ub_store (snd (unbound_retain id (\<lambda>k v. Some False) unbound_demo_panicking)))"
proof -
  have "fst (unbound_retain id (\<lambda>k v. Some False) unbound_demo_panicking) = Panics" by code_simp
  then have "unbound_retain id (\<lambda>k v. Some False) unbound_demo_panicking =
      (Panics, snd (unbound_retain id (\<lambda>k v. Some False) unbound_demo_panicking))"
    by (simp add: prod_eq_iff)
  then show ?thesis
    by (rule unbound_retain_reports_first [of id _ "\<lambda>k v. False", THEN conjunct2, rotated])
      (simp add: ub_wf_def unbound_demo_def a_wf_def)
qed

end
