(* ===== verification/Ttl_Cache.thy ===== *)
theory Ttl_Cache
  imports Hash_Map State_Machine
begin

text \<open>
  \<open>src/stores/ttl.rs\<close>: \<open>TtlCache\<close>, a hash map of entries with an expiry instant. Where the code reads
  the clock, the definition takes the instant it reads: \<open>now\<close> for the first reading of an operation,
  \<open>later\<close> for the reading after the factory of a get-or-set has run. A \<open>ttl\<close> of zero means that expiry
  is disabled, an expiry of \<open>None\<close> that the entry never expires.
\<close>

section \<open>Expiry\<close>

definition entry_live_at :: "instant option \<Rightarrow> instant \<Rightarrow> bool" where
  "entry_live_at expires_at now = (case expires_at of None \<Rightarrow> True | Some t \<Rightarrow> now < t)"

definition compute_expires_at :: "duration \<Rightarrow> instant \<Rightarrow> instant option" where
  "compute_expires_at ttl now = (if ttl = 0 then None else instant_checked_add now ttl)"

definition refreshed_expires_at :: "duration \<Rightarrow> instant \<Rightarrow> instant option \<Rightarrow> instant option" where
  "refreshed_expires_at ttl now current = (if ttl = 0 then current else instant_checked_add now ttl)"

lemma compute_expires_at_live [simp]: "entry_live_at (compute_expires_at ttl now) now"
  by (simp add: entry_live_at_def compute_expires_at_def instant_checked_add_def)

lemma refreshed_expires_at_live [simp]:
  "entry_live_at e now \<Longrightarrow> entry_live_at (refreshed_expires_at ttl now e) now"
  by (simp add: entry_live_at_def refreshed_expires_at_def instant_checked_add_def)

lemma entry_live_at_mono: "entry_live_at e later \<Longrightarrow> now \<le> later \<Longrightarrow> entry_live_at e now"
  by (auto simp: entry_live_at_def split: option.splits)

section \<open>The cache and its builder\<close>

record ('k, 'v) ttl_cache =
  tc_store :: "('k, 'v timed_entry) hash_map"
  tc_ttl :: duration
  tc_hits :: u64
  tc_misses :: u64
  tc_evictions :: u64
  tc_initial_capacity :: "usize option"
  tc_refresh :: bool
  tc_on_evict :: "('k, 'v) callback option"
  tc_calls :: "('k, 'v) trace"

record ('k, 'v) ttl_builder =
  tcb_ttl :: "duration option"
  tcb_capacity :: "usize option"
  tcb_refresh :: bool
  tcb_on_evict :: "('k, 'v) callback option"

definition ttl_builder_default :: "('k, 'v) ttl_builder" where
  "ttl_builder_default = \<lparr>tcb_ttl = None, tcb_capacity = None, tcb_refresh = False, tcb_on_evict = None\<rparr>"

definition ttl_builder_ttl :: "duration \<Rightarrow> ('k, 'v) ttl_builder \<Rightarrow> ('k, 'v) ttl_builder" where
  "ttl_builder_ttl ttl b = b\<lparr>tcb_ttl := Some ttl\<rparr>"

definition ttl_builder_ttl_secs :: "nat \<Rightarrow> ('k, 'v) ttl_builder \<Rightarrow> ('k, 'v) ttl_builder" where
  "ttl_builder_ttl_secs secs b = ttl_builder_ttl (secs * 1000000000) b"

definition ttl_builder_ttl_millis :: "nat \<Rightarrow> ('k, 'v) ttl_builder \<Rightarrow> ('k, 'v) ttl_builder" where
  "ttl_builder_ttl_millis millis b = ttl_builder_ttl (millis * 1000000) b"

definition ttl_builder_initial_capacity :: "usize \<Rightarrow> ('k, 'v) ttl_builder \<Rightarrow> ('k, 'v) ttl_builder" where
  "ttl_builder_initial_capacity n b = b\<lparr>tcb_capacity := Some n\<rparr>"

definition ttl_builder_refresh_on_hit :: "bool \<Rightarrow> ('k, 'v) ttl_builder \<Rightarrow> ('k, 'v) ttl_builder" where
  "ttl_builder_refresh_on_hit r b = b\<lparr>tcb_refresh := r\<rparr>"

definition ttl_builder_on_evict :: "('k, 'v) callback \<Rightarrow> ('k, 'v) ttl_builder \<Rightarrow> ('k, 'v) ttl_builder" where
  "ttl_builder_on_evict f b = b\<lparr>tcb_on_evict := Some f\<rparr>"

definition ttl_build :: "('k, 'v) ttl_builder \<Rightarrow> build_error + ('k, 'v) ttl_cache" where
  "ttl_build b = (case tcb_ttl b of
       None \<Rightarrow> Inl (MissingRequired ''ttl'')
     | Some ttl \<Rightarrow> (case validate_ttl ttl of
         Inl e \<Rightarrow> Inl e
       | Inr _ \<Rightarrow> Inr \<lparr>tc_store = [], tc_ttl = ttl, tc_hits = 0, tc_misses = 0, tc_evictions = 0,
           tc_initial_capacity = tcb_capacity b, tc_refresh = tcb_refresh b,
           tc_on_evict = tcb_on_evict b, tc_calls = []\<rparr>))"

definition ttl_new :: "duration \<Rightarrow> ('k, 'v) ttl_cache option" where
  "ttl_new ttl = (case ttl_build (ttl_builder_ttl ttl ttl_builder_default) of Inl _ \<Rightarrow> None | Inr c \<Rightarrow> Some c)"

definition ttl_clone :: "('k, 'v) ttl_cache \<Rightarrow> ('k, 'v) ttl_cache" where
  "ttl_clone c = \<lparr>tc_store = tc_store c, tc_ttl = tc_ttl c, tc_hits = tc_hits c,
     tc_misses = tc_misses c, tc_evictions = tc_evictions c,
     tc_initial_capacity = tc_initial_capacity c, tc_refresh = tc_refresh c,
     tc_on_evict = tc_on_evict c, tc_calls = tc_calls c\<rparr>"

section \<open>Parts of the operations\<close>

definition tc_hit :: "(('k, 'v) ttl_cache, unit) comp" where
  "tc_hit = modify (\<lambda>c. c\<lparr>tc_hits := tc_hits c + 1\<rparr>)"

definition tc_miss :: "(('k, 'v) ttl_cache, unit) comp" where
  "tc_miss = modify (\<lambda>c. c\<lparr>tc_misses := tc_misses c + 1\<rparr>)"

definition tc_count :: "nat \<Rightarrow> (('k, 'v) ttl_cache, unit) comp" where
  "tc_count n = modify (\<lambda>c. c\<lparr>tc_evictions := tc_evictions c + of_nat n\<rparr>)"

definition tc_notify :: "'k \<Rightarrow> 'v \<Rightarrow> (('k, 'v) ttl_cache, unit) comp" where
  "tc_notify k v c = notify tc_calls_update (tc_on_evict c) k v c"

definition tc_set_store :: "('k, 'v timed_entry) hash_map \<Rightarrow> (('k, 'v) ttl_cache, unit) comp" where
  "tc_set_store m = modify (\<lambda>c. c\<lparr>tc_store := m\<rparr>)"

text \<open>One entry that has left the map: count it, then tell the callback.\<close>

definition tc_report :: "'k \<Rightarrow> 'v timed_entry \<Rightarrow> (('k, 'v) ttl_cache, unit) comp" where
  "tc_report k e = andthen (tc_count 1) (\<lambda>_. tc_notify k (te_value e))"

definition tc_refresh_entry :: "('k \<Rightarrow> 'q) \<Rightarrow> 'q \<Rightarrow> instant \<Rightarrow> (('k, 'v) ttl_cache, unit) comp" where
  "tc_refresh_entry bk q now = modify (\<lambda>c.
     if tc_refresh c
     then c\<lparr>tc_store := hm_update bk q
            (\<lambda>e. e\<lparr>te_expires_at := refreshed_expires_at (tc_ttl c) now (te_expires_at e)\<rparr>) (tc_store c)\<rparr>
     else c)"

definition tc_write :: "('k \<Rightarrow> 'q) \<Rightarrow> 'q \<Rightarrow> ('v \<Rightarrow> 'v) \<Rightarrow> (('k, 'v) ttl_cache, unit) comp" where
  "tc_write bk q upd =
     modify (\<lambda>c. c\<lparr>tc_store := hm_update bk q (\<lambda>e. e\<lparr>te_value := upd (te_value e)\<rparr>) (tc_store c)\<rparr>)"

definition ttl_set_entry :: "('k \<Rightarrow> 'q) \<Rightarrow> 'k \<Rightarrow> 'v timed_entry \<Rightarrow> instant
    \<Rightarrow> (('k, 'v) ttl_cache, 'v option) comp" where
  "ttl_set_entry bk key entry now =
     andthen get_state (\<lambda>c. case a_find bk (bk key) (tc_store c) of
       Some (stored_key, old) \<Rightarrow>
         andthen (tc_set_store (snd (hm_insert bk key entry (tc_store c)))) (\<lambda>_.
         if entry_live_at (te_expires_at old) now then ret (Some (te_value old))
         else andthen (tc_report stored_key old) (\<lambda>_. ret None))
     | None \<Rightarrow> andthen (tc_set_store (snd (hm_insert bk key entry (tc_store c)))) (\<lambda>_. ret None))"

definition ttl_take_doomed :: "('k \<Rightarrow> 'v timed_entry \<Rightarrow> bool option)
    \<Rightarrow> (('k, 'v) ttl_cache, ('k \<times> 'v timed_entry) list) comp" where
  "ttl_take_doomed doomed =
     andthen get_state (\<lambda>c.
     andthen (expect (take_doomed doomed (tc_store c))) (\<lambda>(removed, m).
     andthen (tc_set_store m) (\<lambda>_. ret removed)))"

definition ttl_notify_evicted :: "('k \<times> 'v timed_entry) list \<Rightarrow> (('k, 'v) ttl_cache, usize) comp" where
  "ttl_notify_evicted removed =
     andthen (cwhen (removed \<noteq> []) (tc_count (length removed))) (\<lambda>_.
     andthen (foreach removed (\<lambda>(k, e). tc_notify k (te_value e))) (\<lambda>_.
     ret (length removed)))"

section \<open>Operations\<close>

definition ttl_cache_clear_with_on_evict :: "(('k, 'v) ttl_cache, unit) comp" where
  "ttl_cache_clear_with_on_evict =
     andthen get_state (\<lambda>c.
     andthen (tc_set_store []) (\<lambda>_.
     andthen (cwhen (tc_store c \<noteq> []) (tc_count (length (tc_store c)))) (\<lambda>_.
     foreach (tc_store c) (\<lambda>(k, e). tc_notify k (te_value e)))))"

definition ttl_evict :: "instant \<Rightarrow> (('k, 'v) ttl_cache, usize) comp" where
  "ttl_evict now =
     andthen (ttl_take_doomed (\<lambda>k e. Some (\<not> entry_live_at (te_expires_at e) now))) ttl_notify_evicted"

definition ttl_retain :: "('k, 'v) predicate \<Rightarrow> instant \<Rightarrow> (('k, 'v) ttl_cache, usize) comp" where
  "ttl_retain keep now =
     andthen (ttl_take_doomed (\<lambda>k e.
       if \<not> entry_live_at (te_expires_at e) now then Some True
       else map_option Not (keep k (te_value e)))) ttl_notify_evicted"

definition ttl_cache_get :: "('k \<Rightarrow> 'q) \<Rightarrow> instant \<Rightarrow> 'q \<Rightarrow> (('k, 'v) ttl_cache, 'v option) comp" where
  "ttl_cache_get bk now q =
     andthen get_state (\<lambda>c. case hm_get bk q (tc_store c) of
       Some entry \<Rightarrow>
         if entry_live_at (te_expires_at entry) now
         then andthen tc_hit (\<lambda>_. andthen (tc_refresh_entry bk q now) (\<lambda>_. ret (Some (te_value entry))))
         else andthen tc_miss (\<lambda>_. case hm_remove_entry bk q (tc_store c) of
             (Some (k, e), m) \<Rightarrow> andthen (tc_set_store m) (\<lambda>_. andthen (tc_report k e) (\<lambda>_. ret None))
           | (None, _) \<Rightarrow> ret None)
     | None \<Rightarrow> andthen tc_miss (\<lambda>_. ret None))"

definition ttl_cache_get_mut :: "('k \<Rightarrow> 'q) \<Rightarrow> instant \<Rightarrow> 'q \<Rightarrow> ('v \<Rightarrow> 'v)
    \<Rightarrow> (('k, 'v) ttl_cache, 'v option) comp" where
  "ttl_cache_get_mut bk now q upd =
     andthen get_state (\<lambda>c. case hm_get bk q (tc_store c) of
       Some entry \<Rightarrow>
         if entry_live_at (te_expires_at entry) now
         then andthen tc_hit (\<lambda>_. andthen (tc_refresh_entry bk q now) (\<lambda>_.
              andthen (tc_write bk q upd) (\<lambda>_. ret (Some (te_value entry)))))
         else andthen tc_miss (\<lambda>_. case hm_remove_entry bk q (tc_store c) of
             (Some (k, e), m) \<Rightarrow> andthen (tc_set_store m) (\<lambda>_. andthen (tc_report k e) (\<lambda>_. ret None))
           | (None, _) \<Rightarrow> ret None)
     | None \<Rightarrow> andthen tc_miss (\<lambda>_. ret None))"

definition tc_fresh :: "('k, 'v) ttl_cache \<Rightarrow> instant \<Rightarrow> 'v \<Rightarrow> 'v timed_entry" where
  "tc_fresh c later v = \<lparr>te_expires_at = compute_expires_at (tc_ttl c) later, te_value = v\<rparr>"

definition ttl_cache_get_or_set_with_mut :: "('k \<Rightarrow> 'q) \<Rightarrow> instant \<Rightarrow> instant \<Rightarrow> 'k \<Rightarrow> 'v outcome
    \<Rightarrow> ('v \<Rightarrow> 'v) \<Rightarrow> (('k, 'v) ttl_cache, 'v) comp" where
  "ttl_cache_get_or_set_with_mut bk now later key f upd =
     andthen get_state (\<lambda>c. case a_find bk (bk key) (tc_store c) of
       Some (stored_key, old) \<Rightarrow>
         andthen (if entry_live_at (te_expires_at old) now
           then andthen (tc_refresh_entry bk (bk key) now) (\<lambda>_. andthen tc_hit (\<lambda>_. ret (te_value old)))
           else andthen tc_miss (\<lambda>_. andthen (run_closure f) (\<lambda>val.
             andthen (tc_set_store (snd (hm_insert bk key (tc_fresh c later val) (tc_store c)))) (\<lambda>_.
             andthen (tc_report stored_key old) (\<lambda>_. ret val))))) (\<lambda>v.
         andthen (tc_write bk (bk key) upd) (\<lambda>_. ret v))
     | None \<Rightarrow>
         andthen tc_miss (\<lambda>_. andthen (run_closure f) (\<lambda>val.
         andthen (tc_set_store (snd (hm_insert bk key (tc_fresh c later val) (tc_store c)))) (\<lambda>_.
         andthen (tc_write bk (bk key) upd) (\<lambda>_. ret val)))))"

definition ttl_cache_try_get_or_set_with_mut :: "('k \<Rightarrow> 'q) \<Rightarrow> instant \<Rightarrow> instant \<Rightarrow> 'k
    \<Rightarrow> ('e + 'v) outcome \<Rightarrow> ('v \<Rightarrow> 'v) \<Rightarrow> (('k, 'v) ttl_cache, 'e + 'v) comp" where
  "ttl_cache_try_get_or_set_with_mut bk now later key f upd =
     andthen get_state (\<lambda>c. case a_find bk (bk key) (tc_store c) of
       Some (stored_key, old) \<Rightarrow>
         andthen (if entry_live_at (te_expires_at old) now
           then andthen (tc_refresh_entry bk (bk key) now) (\<lambda>_. andthen tc_hit (\<lambda>_. ret (Inr (te_value old))))
           else andthen tc_miss (\<lambda>_. andthen (run_closure f) (\<lambda>r. case r of
               Inl e \<Rightarrow> ret (Inl e)
             | Inr val \<Rightarrow>
                 andthen (tc_set_store (snd (hm_insert bk key (tc_fresh c later val) (tc_store c)))) (\<lambda>_.
                 andthen (tc_report stored_key old) (\<lambda>_. ret (Inr val)))))) (\<lambda>r. case r of
             Inl e \<Rightarrow> ret (Inl e)
           | Inr v \<Rightarrow> andthen (tc_write bk (bk key) upd) (\<lambda>_. ret (Inr v)))
     | None \<Rightarrow>
         andthen tc_miss (\<lambda>_. andthen (run_closure f) (\<lambda>r. case r of
             Inl e \<Rightarrow> ret (Inl e)
           | Inr val \<Rightarrow>
               andthen (tc_set_store (snd (hm_insert bk key (tc_fresh c later val) (tc_store c)))) (\<lambda>_.
               andthen (tc_write bk (bk key) upd) (\<lambda>_. ret (Inr val))))))"

definition ttl_cache_set :: "('k \<Rightarrow> 'q) \<Rightarrow> instant \<Rightarrow> 'k \<Rightarrow> 'v \<Rightarrow> (('k, 'v) ttl_cache, 'v option) comp" where
  "ttl_cache_set bk now key val =
     andthen get_state (\<lambda>c.
     ttl_set_entry bk key \<lparr>te_expires_at = compute_expires_at (tc_ttl c) now, te_value = val\<rparr> now)"

definition ttl_cache_remove :: "('k \<Rightarrow> 'q) \<Rightarrow> instant \<Rightarrow> 'q \<Rightarrow> (('k, 'v) ttl_cache, 'v option) comp" where
  "ttl_cache_remove bk now q =
     andthen get_state (\<lambda>c. case hm_remove_entry bk q (tc_store c) of
       (Some (k, e), m) \<Rightarrow>
         andthen (tc_set_store m) (\<lambda>_.
         let live = entry_live_at (te_expires_at e) now in
         andthen (tc_report k e) (\<lambda>_. ret (if live then Some (te_value e) else None)))
     | (None, _) \<Rightarrow> ret None)"

definition ttl_cache_remove_entry :: "('k \<Rightarrow> 'q) \<Rightarrow> 'q \<Rightarrow> (('k, 'v) ttl_cache, ('k \<times> 'v) option) comp" where
  "ttl_cache_remove_entry bk q =
     andthen get_state (\<lambda>c. case hm_remove_entry bk q (tc_store c) of
       (Some (k, e), m) \<Rightarrow>
         andthen (tc_set_store m) (\<lambda>_. andthen (tc_report k e) (\<lambda>_. ret (Some (k, te_value e))))
     | (None, _) \<Rightarrow> ret None)"

definition ttl_cache_clear :: "(('k, 'v) ttl_cache, unit) comp" where
  "ttl_cache_clear = tc_set_store []"

definition ttl_cache_reset_metrics :: "(('k, 'v) ttl_cache, unit) comp" where
  "ttl_cache_reset_metrics = modify (\<lambda>c. c\<lparr>tc_misses := 0, tc_hits := 0, tc_evictions := 0\<rparr>)"

definition ttl_cache_reset :: "(('k, 'v) ttl_cache, unit) comp" where
  "ttl_cache_reset = andthen (tc_set_store []) (\<lambda>_. ttl_cache_reset_metrics)"

definition ttl_cache_size :: "('k, 'v) ttl_cache \<Rightarrow> usize" where
  "ttl_cache_size c = length (tc_store c)"

definition ttl_cache_peek :: "('k \<Rightarrow> 'q) \<Rightarrow> instant \<Rightarrow> 'q \<Rightarrow> ('k, 'v) ttl_cache \<Rightarrow> 'v option" where
  "ttl_cache_peek bk now q c = (case hm_get bk q (tc_store c) of
       Some e \<Rightarrow> if entry_live_at (te_expires_at e) now then Some (te_value e) else None
     | None \<Rightarrow> None)"

definition ttl_cache_contains :: "('k \<Rightarrow> 'q) \<Rightarrow> instant \<Rightarrow> 'q \<Rightarrow> (('k, 'v) ttl_cache, bool) comp" where
  "ttl_cache_contains bk now q = andthen get_state (\<lambda>c. ret (ttl_cache_peek bk now q c \<noteq> None))"

text \<open>The lazy iterator reads the clock at every step: \<open>clock\<close> gives the reading at each position.\<close>

fun ttl_iter_from :: "(nat \<Rightarrow> instant) \<Rightarrow> nat \<Rightarrow> ('k \<times> 'v timed_entry) list \<Rightarrow> ('k \<times> 'v) list" where
  "ttl_iter_from clock i [] = []"
| "ttl_iter_from clock i ((k, e) # es) =
     (if entry_live_at (te_expires_at e) (clock i) then (k, te_value e) # ttl_iter_from clock (i + 1) es
      else ttl_iter_from clock (i + 1) es)"

definition ttl_iter :: "(nat \<Rightarrow> instant) \<Rightarrow> ('k, 'v) ttl_cache \<Rightarrow> ('k \<times> 'v) list" where
  "ttl_iter clock c = ttl_iter_from clock 0 (tc_store c)"

definition ttl_ttl :: "('k, 'v) ttl_cache \<Rightarrow> duration option" where
  "ttl_ttl c = (if tc_ttl c = 0 then None else Some (tc_ttl c))"

definition ttl_set_ttl :: "duration \<Rightarrow> (('k, 'v) ttl_cache, duration option) comp" where
  "ttl_set_ttl ttl = andthen get_state (\<lambda>c. let old = tc_ttl c in
     andthen (modify (\<lambda>c. c\<lparr>tc_ttl := ttl\<rparr>)) (\<lambda>_. ret (if old = 0 then None else Some old)))"

definition ttl_unset_ttl :: "(('k, 'v) ttl_cache, duration option) comp" where
  "ttl_unset_ttl = andthen get_state (\<lambda>c. let old = tc_ttl c in
     andthen (modify (\<lambda>c. c\<lparr>tc_ttl := 0\<rparr>)) (\<lambda>_. ret (if old = 0 then None else Some old)))"

definition ttl_set_refresh_on_hit :: "bool \<Rightarrow> (('k, 'v) ttl_cache, bool) comp" where
  "ttl_set_refresh_on_hit refresh = andthen get_state (\<lambda>c. let old = tc_refresh c in
     andthen (modify (\<lambda>c. c\<lparr>tc_refresh := refresh\<rparr>)) (\<lambda>_. ret old))"

definition ttl_cache_get_with_expiry_status :: "('k \<Rightarrow> 'q) \<Rightarrow> instant \<Rightarrow> 'q
    \<Rightarrow> (('k, 'v) ttl_cache, 'v option \<times> bool) comp" where
  "ttl_cache_get_with_expiry_status bk now q =
     andthen get_state (\<lambda>c. case hm_get bk q (tc_store c) of
       Some entry \<Rightarrow>
         if \<not> entry_live_at (te_expires_at entry) now
         then andthen tc_miss (\<lambda>_. ret (Some (te_value entry), True))
         else andthen tc_hit (\<lambda>_. andthen (tc_refresh_entry bk q now) (\<lambda>_.
              ret (Some (te_value entry), False)))
     | None \<Rightarrow> andthen tc_miss (\<lambda>_. ret (None, False)))"

definition ttl_cache_peek_with_expiry_status :: "('k \<Rightarrow> 'q) \<Rightarrow> instant \<Rightarrow> 'q \<Rightarrow> ('k, 'v) ttl_cache
    \<Rightarrow> 'v option \<times> bool" where
  "ttl_cache_peek_with_expiry_status bk now q c = (case hm_get bk q (tc_store c) of
       Some e \<Rightarrow> (Some (te_value e), \<not> entry_live_at (te_expires_at e) now)
     | None \<Rightarrow> (None, False))"

text \<open>The asynchronous twins: the expiry is anchored after the future of the factory has resolved.\<close>

definition ttl_async_cache_get_or_set_with_mut :: "('k \<Rightarrow> 'q) \<Rightarrow> instant \<Rightarrow> instant \<Rightarrow> 'k \<Rightarrow> 'v outcome
    \<Rightarrow> ('v \<Rightarrow> 'v) \<Rightarrow> (('k, 'v) ttl_cache, 'v) comp" where
  "ttl_async_cache_get_or_set_with_mut bk now later key f upd =
     andthen get_state (\<lambda>c. case a_find bk (bk key) (tc_store c) of
       Some (stored_key, old) \<Rightarrow>
         andthen (if entry_live_at (te_expires_at old) now
           then andthen (tc_refresh_entry bk (bk key) now) (\<lambda>_. andthen tc_hit (\<lambda>_. ret (te_value old)))
           else andthen tc_miss (\<lambda>_. andthen (await f) (\<lambda>val.
             andthen (tc_set_store (snd (hm_insert bk key (tc_fresh c later val) (tc_store c)))) (\<lambda>_.
             andthen (tc_report stored_key old) (\<lambda>_. ret val))))) (\<lambda>v.
         andthen (tc_write bk (bk key) upd) (\<lambda>_. ret v))
     | None \<Rightarrow>
         andthen tc_miss (\<lambda>_. andthen (await f) (\<lambda>val.
         andthen (tc_set_store (snd (hm_insert bk key (tc_fresh c later val) (tc_store c)))) (\<lambda>_.
         andthen (tc_write bk (bk key) upd) (\<lambda>_. ret val)))))"

definition ttl_async_cache_try_get_or_set_with_mut :: "('k \<Rightarrow> 'q) \<Rightarrow> instant \<Rightarrow> instant \<Rightarrow> 'k
    \<Rightarrow> ('e + 'v) outcome \<Rightarrow> ('v \<Rightarrow> 'v) \<Rightarrow> (('k, 'v) ttl_cache, 'e + 'v) comp" where
  "ttl_async_cache_try_get_or_set_with_mut bk now later key f upd =
     andthen get_state (\<lambda>c. case a_find bk (bk key) (tc_store c) of
       Some (stored_key, old) \<Rightarrow>
         andthen (if entry_live_at (te_expires_at old) now
           then andthen (tc_refresh_entry bk (bk key) now) (\<lambda>_. andthen tc_hit (\<lambda>_. ret (Inr (te_value old))))
           else andthen tc_miss (\<lambda>_. andthen (await f) (\<lambda>r. case r of
               Inl e \<Rightarrow> ret (Inl e)
             | Inr val \<Rightarrow>
                 andthen (tc_set_store (snd (hm_insert bk key (tc_fresh c later val) (tc_store c)))) (\<lambda>_.
                 andthen (tc_report stored_key old) (\<lambda>_. ret (Inr val)))))) (\<lambda>r. case r of
             Inl e \<Rightarrow> ret (Inl e)
           | Inr v \<Rightarrow> andthen (tc_write bk (bk key) upd) (\<lambda>_. ret (Inr v)))
     | None \<Rightarrow>
         andthen tc_miss (\<lambda>_. andthen (await f) (\<lambda>r. case r of
             Inl e \<Rightarrow> ret (Inl e)
           | Inr val \<Rightarrow>
               andthen (tc_set_store (snd (hm_insert bk key (tc_fresh c later val) (tc_store c)))) (\<lambda>_.
               andthen (tc_write bk (bk key) upd) (\<lambda>_. ret (Inr val))))))"

end
