(* ===== verification/Ttl_Correct.thy ===== *)
theory Ttl_Correct
  imports Ttl_Cache
begin

text \<open>
  What \<open>TtlCache\<close> promises: an entry is served exactly while its expiry lies in the future, an expired
  entry is removed on the first access that finds it, and every entry that leaves the cache is
  counted before the callback hears of it.
\<close>

definition tc_wf :: "('k \<Rightarrow> 'q) \<Rightarrow> ('k, 'v) ttl_cache \<Rightarrow> bool" where
  "tc_wf bk c \<longleftrightarrow> a_wf bk (tc_store c)"

lemma tc_notify_apply: "tc_notify k v c =
   (if cb_ok (tc_on_evict c) k v then Returns () else Panics,
    c\<lparr>tc_calls := tc_calls c @ cb_calls (tc_on_evict c) [(k, v)]\<rparr>)"
  by (simp add: tc_notify_def notify_apply)

lemma tc_report_apply: "tc_report k e c =
   (if cb_ok (tc_on_evict c) k (te_value e) then Returns () else Panics,
    c\<lparr>tc_evictions := tc_evictions c + 1,
      tc_calls := tc_calls c @ cb_calls (tc_on_evict c) [(k, te_value e)]\<rparr>)"
  by (simp add: tc_report_def tc_count_def tc_notify_apply comp_simps)

lemma tc_miss_apply: "tc_miss c = (Returns (), c\<lparr>tc_misses := tc_misses c + 1\<rparr>)"
  by (simp add: tc_miss_def comp_simps)

lemma tc_hit_apply: "tc_hit c = (Returns (), c\<lparr>tc_hits := tc_hits c + 1\<rparr>)"
  by (simp add: tc_hit_def comp_simps)

lemma tc_set_store_apply: "tc_set_store m c = (Returns (), c\<lparr>tc_store := m\<rparr>)"
  by (simp add: tc_set_store_def comp_simps)

lemmas tc_apply = tc_notify_apply tc_report_apply tc_miss_apply tc_hit_apply tc_set_store_apply
  tc_refresh_entry_def tc_write_def comp_simps

text \<open>The callback on a list of removed entries: all of them, or up to the one it panics on.\<close>

definition te_pairs :: "('k \<times> 'v timed_entry) list \<Rightarrow> ('k \<times> 'v) list" where
  "te_pairs kes = map (apsnd te_value) kes"

lemma tc_notify_all:
  "foreach kes (\<lambda>(k, e). tc_notify k (te_value e)) c =
     (if all_ok (tc_on_evict c) (te_pairs kes) then Returns () else Panics,
      c\<lparr>tc_calls := tc_calls c @ cb_calls (tc_on_evict c) (processed (tc_on_evict c) (te_pairs kes))\<rparr>)"
proof (induction kes arbitrary: c)
  case (Cons ke kes)
  then show ?case
    by (cases ke; cases "tc_on_evict c") (simp_all add: te_pairs_def andthen_apply tc_notify_apply)
qed (simp add: ret_apply te_pairs_def)

lemma tc_count_batch:
  "cwhen (kes \<noteq> []) (tc_count (length kes)) c =
     (Returns (), c\<lparr>tc_evictions := tc_evictions c + of_nat (length kes)\<rparr>)"
  by (cases kes) (simp_all add: cwhen_def tc_count_def comp_simps)

lemma ttl_notify_evicted_apply:
  "ttl_notify_evicted kes c =
     (if all_ok (tc_on_evict c) (te_pairs kes) then Returns (length kes) else Panics,
      c\<lparr>tc_evictions := tc_evictions c + of_nat (length kes),
        tc_calls := tc_calls c @ cb_calls (tc_on_evict c) (processed (tc_on_evict c) (te_pairs kes))\<rparr>)"
  by (simp add: ttl_notify_evicted_def andthen_apply tc_count_batch tc_notify_all ret_apply)

text \<open>
  A sweep: the entries that \<open>P\<close> selects leave the map together, are counted, and are then reported.
\<close>

definition tc_swept :: "('k \<times> 'v timed_entry \<Rightarrow> bool) \<Rightarrow> ('k, 'v) ttl_cache \<Rightarrow> ('k, 'v) ttl_cache" where
  "tc_swept P c = (let out = filter P (tc_store c) in
     c\<lparr>tc_store := filter (\<lambda>ke. \<not> P ke) (tc_store c),
       tc_evictions := tc_evictions c + of_nat (length out),
       tc_calls := tc_calls c @ cb_calls (tc_on_evict c) (processed (tc_on_evict c) (te_pairs out))\<rparr>)"

lemma ttl_sweep_apply:
  assumes "\<And>k e. (k, e) \<in> set (tc_store c) \<Longrightarrow> doomed k e = Some (P (k, e))"
  shows "andthen (ttl_take_doomed doomed) ttl_notify_evicted c =
    (if all_ok (tc_on_evict c) (te_pairs (filter P (tc_store c)))
     then Returns (length (filter P (tc_store c))) else Panics, tc_swept P c)"
proof -
  have "take_doomed doomed (tc_store c) =
      Some (filter P (tc_store c), filter (\<lambda>ke. \<not> P ke) (tc_store c))"
    using take_doomed_total [of "tc_store c" doomed "\<lambda>k e. P (k, e)"] assms by simp
  then show ?thesis
    by (simp add: ttl_take_doomed_def tc_set_store_apply ttl_notify_evicted_apply tc_swept_def
        Let_def comp_simps)
qed

section \<open>Lookup\<close>

text \<open>
  C6. \<open>cache_get\<close> serves an entry exactly while its expiry lies in the future. A hit counts one hit
  and, with \<open>refresh_on_hit\<close>, moves the expiry of that entry; a miss counts one miss. An expired
  entry is removed by the lookup that finds it, counted as an eviction and reported once, under the
  stored key, even when the callback panics. Lookups of other keys are not affected.
\<close>

theorem ttl_cache_get_effect:
  assumes "tc_wf bk c" "ttl_cache_get bk now q c = (r, d)"
  shows "tc_wf bk d \<and> (\<forall>q'. q' \<noteq> q \<longrightarrow> a_find bk q' (tc_store d) = a_find bk q' (tc_store c)) \<and>
    (case a_find bk q (tc_store c) of
       None \<Rightarrow> r = Returns None \<and> d = c\<lparr>tc_misses := tc_misses c + 1\<rparr>
     | Some (k, e) \<Rightarrow>
         if entry_live_at (te_expires_at e) now
         then r = Returns (Some (te_value e)) \<and> tc_hits d = tc_hits c + 1 \<and>
           a_find bk q (tc_store d) = Some (k, if tc_refresh c
             then e\<lparr>te_expires_at := refreshed_expires_at (tc_ttl c) now (te_expires_at e)\<rparr> else e) \<and>
           tc_evictions d = tc_evictions c \<and> tc_calls d = tc_calls c
         else r = (if cb_ok (tc_on_evict c) k (te_value e) then Returns None else Panics) \<and>
           a_find bk q (tc_store d) = None \<and> tc_misses d = tc_misses c + 1 \<and>
           tc_evictions d = tc_evictions c + 1 \<and>
           tc_calls d = tc_calls c @ cb_calls (tc_on_evict c) [(k, te_value e)])"
proof (cases "a_find bk q (tc_store c)")
  case None
  then show ?thesis using assms by (auto simp: ttl_cache_get_def hm_get_def tc_apply tc_wf_def)
next
  case (Some ke)
  obtain k e where ke: "ke = (k, e)" by force
  show ?thesis
    using assms Some ke
    by (auto simp: ttl_cache_get_def hm_get_def tc_apply hm_remove_entry_def tc_wf_def
        a_find_update a_find_without split: if_splits)
qed

lemma ttl_get_peek:
  "fst (ttl_cache_get bk now q c) = Panics \<or>
   fst (ttl_cache_get bk now q c) = Returns (ttl_cache_peek bk now q c)"
  by (auto simp: ttl_cache_get_def ttl_cache_peek_def hm_get_def hm_remove_entry_def tc_apply
      split: option.splits prod.splits)

section \<open>Insertion\<close>

lemma ttl_cache_set_apply:
  assumes "ttl_cache_set bk now key val c = (r, d)"
  shows "tc_store d = snd (hm_insert bk key \<lparr>te_expires_at = compute_expires_at (tc_ttl c) now, te_value = val\<rparr> (tc_store c))"
    "tc_ttl d = tc_ttl c" "tc_refresh d = tc_refresh c" "tc_on_evict d = tc_on_evict c"
  using assms
  by (auto simp: ttl_cache_set_def ttl_set_entry_def tc_apply split: option.splits if_splits)

lemma instant_checked_add_simps:
  "t + d \<le> instant_max \<Longrightarrow> instant_checked_add t d = Some (t + d)"
  "instant_max < t + d \<Longrightarrow> instant_checked_add t d = None"
  by (simp_all add: instant_checked_add_def)

text \<open>
  C7. The life of an entry: after \<open>cache_set\<close> at an instant \<open>t\<close>, a lookup at any instant \<open>u\<close> before
  \<open>t + ttl\<close> returns the value, and a lookup at or after it returns nothing. With expiry disabled, or
  when \<open>t + ttl\<close> is beyond the range of \<open>Instant\<close>, the entry never expires.
\<close>

theorem ttl_set_then_get:
  assumes "tc_wf bk c" "ttl_cache_set bk t key val c = (r, d)"
  shows "tc_wf bk d \<and> ttl_cache_peek bk u (bk key) d =
      (if tc_ttl c = 0 \<or> instant_max < t + tc_ttl c \<or> u < t + tc_ttl c then Some val else None) \<and>
    (fst (ttl_cache_get bk u (bk key) d) = Panics \<or>
     fst (ttl_cache_get bk u (bk key) d) = Returns (ttl_cache_peek bk u (bk key) d))"
proof -
  note d = ttl_cache_set_apply [OF assms(2)]
  obtain k0 where k0: "a_find bk (bk key) (tc_store d) =
      Some (k0, \<lparr>te_expires_at = compute_expires_at (tc_ttl c) t, te_value = val\<rparr>)"
    unfolding d(1) by (cases "a_find bk (bk key) (tc_store c)") (simp_all add: a_find_insert)
  have wf: "tc_wf bk d" using assms(1) d(1) by (simp add: tc_wf_def)
  have peek: "ttl_cache_peek bk u (bk key) d =
      (if tc_ttl c = 0 \<or> instant_max < t + tc_ttl c \<or> u < t + tc_ttl c then Some val else None)"
    using k0 by (auto simp: ttl_cache_peek_def hm_get_def entry_live_at_def compute_expires_at_def
        instant_checked_add_def)
  show ?thesis using wf peek ttl_get_peek [of bk u "bk key" d] by simp
qed

definition ttl_demo :: "duration \<Rightarrow> bool \<Rightarrow> (nat, nat) callback option \<Rightarrow> (nat, nat) ttl_cache" where
  "ttl_demo ttl refresh cb = \<lparr>tc_store = [], tc_ttl = ttl, tc_hits = 0, tc_misses = 0, tc_evictions = 0,
     tc_initial_capacity = None, tc_refresh = refresh, tc_on_evict = cb, tc_calls = []\<rparr>"

text \<open>Two entries, set at instants 0 and 5 with a life of 10.\<close>

definition ttl_filled :: "bool \<Rightarrow> (nat, nat) callback option \<Rightarrow> (nat, nat) ttl_cache" where
  "ttl_filled refresh cb = (ttl_demo 10 refresh cb)\<lparr>tc_store :=
     [(1, \<lparr>te_expires_at = Some 10, te_value = 100\<rparr>), (2, \<lparr>te_expires_at = Some 15, te_value = 200\<rparr>)]\<rparr>"

lemma ttl_filled_wf: "tc_wf id (ttl_filled refresh cb)"
  by (simp add: tc_wf_def ttl_filled_def a_wf_def)

theorem ttl_cache_get_effect_witness:
  "let d = snd (ttl_cache_get id 12 1 (ttl_filled False None)) in
     fst (ttl_cache_get id 12 1 (ttl_filled False None)) = Returns None \<and>
     a_find id 1 (tc_store d) = None \<and> tc_evictions d = 1"
  using ttl_cache_get_effect [OF ttl_filled_wf prod.collapse [symmetric], of 12 1 False None]
  by (simp add: ttl_filled_def ttl_demo_def a_find_def entry_live_at_def Let_def)

theorem ttl_set_then_get_witness:
  "let d = snd (ttl_cache_set id 20 1 111 (ttl_filled False None)) in
     ttl_cache_peek id 29 1 d = Some 111 \<and> ttl_cache_peek id 30 1 d = None"
  using ttl_set_then_get [OF ttl_filled_wf prod.collapse [symmetric], of 20 1 111 False None 29]
    ttl_set_then_get [OF ttl_filled_wf prod.collapse [symmetric], of 20 1 111 False None 30]
  by (simp add: ttl_filled_def ttl_demo_def Let_def instant_max_def)

section \<open>Sweeps\<close>

text \<open>
  \<open>evict\<close> removes exactly the entries that have expired at the instant it reads, all of them
  before the first is reported, and counts them all; it reports them one by one, up to the one the
  callback panics on. What any lookup at that instant returns is not changed.
\<close>

theorem ttl_evict_effect:
  assumes "tc_wf bk c" "ttl_evict now c = (r, d)"
  shows "(let out = filter (\<lambda>(k, e). \<not> entry_live_at (te_expires_at e) now) (tc_store c) in
      tc_store d = filter (\<lambda>(k, e). entry_live_at (te_expires_at e) now) (tc_store c) \<and>
      tc_evictions d = tc_evictions c + of_nat (length out) \<and>
      tc_calls d = tc_calls c @ cb_calls (tc_on_evict c) (processed (tc_on_evict c) (te_pairs out)) \<and>
      r = (if all_ok (tc_on_evict c) (te_pairs out) then Returns (length out) else Panics)) \<and>
    ttl_cache_peek bk now q d = ttl_cache_peek bk now q c"
proof -
  let ?P = "\<lambda>ke. \<not> entry_live_at (te_expires_at (snd ke)) now"
  have "ttl_evict now c = (if all_ok (tc_on_evict c) (te_pairs (filter ?P (tc_store c)))
      then Returns (length (filter ?P (tc_store c))) else Panics, tc_swept ?P c)"
    unfolding ttl_evict_def by (rule ttl_sweep_apply) simp
  then have rd: "r = (if all_ok (tc_on_evict c) (te_pairs (filter ?P (tc_store c)))
      then Returns (length (filter ?P (tc_store c))) else Panics)" "d = tc_swept ?P c"
    using assms(2) by simp_all
  have "ttl_cache_peek bk now q d = ttl_cache_peek bk now q c"
    using assms(1) by (auto simp: rd(2) ttl_cache_peek_def hm_get_def tc_swept_def Let_def tc_wf_def
        a_find_filter split: option.splits)
  then show ?thesis
    by (simp add: rd tc_swept_def Let_def case_prod_beta')
qed

theorem ttl_evict_effect_witness:
  "let d = snd (ttl_evict 12 (ttl_filled False (Some (\<lambda>k v. False)))) in
     tc_store d = [(2, \<lparr>te_expires_at = Some 15, te_value = 200\<rparr>)] \<and> tc_evictions d = 1 \<and>
     tc_calls d = [(1, 100)]"
  using ttl_evict_effect [OF ttl_filled_wf prod.collapse [symmetric], of 12 False "Some (\<lambda>k v. False)" 1]
  by (simp add: ttl_filled_def ttl_demo_def entry_live_at_def Let_def te_pairs_def)

text \<open>
  \<open>retain\<close> drops the expired entries without asking the predicate and, of the others, those the
  predicate rejects. A predicate that panics on some live entry leaves the cache as it was: no entry
  removed, counted or reported.
\<close>

theorem ttl_retain_effect:
  assumes "ttl_retain keep now c = (r, d)"
    and "\<And>k e. (k, e) \<in> set (tc_store c) \<Longrightarrow> entry_live_at (te_expires_at e) now \<Longrightarrow>
      keep k (te_value e) = (if panicking k then None else Some (P k (te_value e)))"
  shows "if \<exists>(k, e) \<in> set (tc_store c). entry_live_at (te_expires_at e) now \<and> panicking k
    then r = Panics \<and> d = c
    else tc_store d = filter (\<lambda>(k, e). entry_live_at (te_expires_at e) now \<and> P k (te_value e)) (tc_store c) \<and>
      tc_evictions d = tc_evictions c + of_nat (length (tc_store c) - length (tc_store d)) \<and>
      (quiet (tc_on_evict c) \<longrightarrow> r = Returns (length (tc_store c) - length (tc_store d)))"
proof (cases "\<exists>(k, e) \<in> set (tc_store c). entry_live_at (te_expires_at e) now \<and> panicking k")
  case True
  then obtain k e where ke: "(k, e) \<in> set (tc_store c)" "entry_live_at (te_expires_at e) now" "panicking k"
    by auto
  let ?doomed = "\<lambda>k e. if \<not> entry_live_at (te_expires_at e) now then Some True
       else map_option Not (keep k (te_value e))"
  have "take_doomed ?doomed (tc_store c) = None"
    by (rule take_doomed_panic [OF ke(1)]) (use assms(2) ke in simp)
  then show ?thesis
    using True assms(1) by (simp add: ttl_retain_def ttl_take_doomed_def comp_simps)
next
  case False
  let ?Q = "\<lambda>ke. \<not> (entry_live_at (te_expires_at (snd ke)) now \<and> P (fst ke) (te_value (snd ke)))"
  have "ttl_retain keep now c = (if all_ok (tc_on_evict c) (te_pairs (filter ?Q (tc_store c)))
      then Returns (length (filter ?Q (tc_store c))) else Panics, tc_swept ?Q c)"
    unfolding ttl_retain_def by (rule ttl_sweep_apply) (use assms(2) False in auto)
  then have rd: "r = (if all_ok (tc_on_evict c) (te_pairs (filter ?Q (tc_store c)))
      then Returns (length (filter ?Q (tc_store c))) else Panics)" "d = tc_swept ?Q c"
    using assms(1) by simp_all
  have "length (filter ?Q (tc_store c)) = length (tc_store c) - length (tc_store d)"
    using length_filter_split [of ?Q "tc_store c"] by (simp add: rd(2) tc_swept_def Let_def)
  then show ?thesis
    unfolding if_not_P [OF False] by (simp add: rd tc_swept_def Let_def case_prod_beta')
qed

theorem ttl_retain_effect_witness:
  "snd (ttl_retain (\<lambda>k v. if k = 2 then None else Some False) 12 (ttl_filled False None)) =
     ttl_filled False None"
  using ttl_retain_effect [OF prod.collapse [symmetric], of "ttl_filled False None" 12
      "\<lambda>k v. if k = 2 then None else Some False" "\<lambda>k. k = 2" "\<lambda>k v. False"]
  by (simp add: ttl_filled_def ttl_demo_def entry_live_at_def)

section \<open>Get or set\<close>

text \<open>
  \<open>cache_try_get_or_set_with\<close>: a live entry is served without running the factory's result. When
  there is none, one miss is counted; if the factory succeeds its value is stored with an expiry
  anchored after the factory has run, and a stale entry it replaces is counted and reported once,
  under its stored key. If the factory fails or panics, the map is unchanged, a stale entry
  included, and nothing is counted as an eviction.
\<close>

theorem ttl_get_or_set_effect:
  assumes "ttl_cache_try_get_or_set_with_mut bk now later key f id c = (r, d)"
  shows "case ttl_cache_peek bk now (bk key) c of
      Some v \<Rightarrow> r = Returns (Inr v) \<and> tc_hits d = tc_hits c + 1 \<and> tc_evictions d = tc_evictions c
    | None \<Rightarrow> tc_misses d = tc_misses c + 1 \<and> tc_hits d = tc_hits c \<and>
       (case f of
          Returns (Inr v) \<Rightarrow>
            ttl_cache_peek bk later (bk key) d = Some v \<and>
            map_option (te_expires_at \<circ> snd) (a_find bk (bk key) (tc_store d)) =
              Some (compute_expires_at (tc_ttl c) later) \<and>
            (case a_find bk (bk key) (tc_store c) of
               Some (k, e) \<Rightarrow> tc_evictions d = tc_evictions c + 1 \<and>
                 tc_calls d = tc_calls c @ cb_calls (tc_on_evict c) [(k, te_value e)] \<and>
                 r = (if cb_ok (tc_on_evict c) k (te_value e) then Returns (Inr v) else Panics)
             | None \<Rightarrow> tc_evictions d = tc_evictions c \<and> tc_calls d = tc_calls c \<and> r = Returns (Inr v))
        | _ \<Rightarrow> r = f \<and> tc_store d = tc_store c \<and> tc_evictions d = tc_evictions c \<and> tc_calls d = tc_calls c)"
proof -
  show ?thesis
  proof (cases "a_find bk (bk key) (tc_store c)")
    case None
    then show ?thesis
      using assms
      by (cases f) (auto simp: ttl_cache_try_get_or_set_with_mut_def ttl_cache_peek_def hm_get_def
          tc_apply a_find_insert tc_fresh_def split: sum.splits)
  next
    case (Some ke)
    obtain k e where ke: "ke = (k, e)" by force
    show ?thesis
    proof (cases "entry_live_at (te_expires_at e) now")
      case True
      then show ?thesis
        using assms Some ke
        by (auto simp: ttl_cache_try_get_or_set_with_mut_def ttl_cache_peek_def hm_get_def tc_apply
            split: if_splits)
    next
      case False
      then show ?thesis
        using assms Some ke
        by (cases f) (auto simp: ttl_cache_try_get_or_set_with_mut_def ttl_cache_peek_def hm_get_def
            tc_apply a_find_insert tc_fresh_def split: sum.splits if_splits)
    qed
  qed
qed

theorem ttl_get_or_set_effect_witness:
  "let d = snd (ttl_cache_try_get_or_set_with_mut id 12 13 1 (Returns (Inr 111) :: (unit + nat) outcome) id
       (ttl_filled False None)) in
     ttl_cache_peek id 13 1 d = Some 111 \<and> tc_evictions d = 1 \<and> tc_misses d = 1"
  using ttl_get_or_set_effect [OF prod.collapse [symmetric], of id 12 13 1
      "Returns (Inr 111) :: (unit + nat) outcome" "ttl_filled False None"]
  by (simp add: ttl_filled_def ttl_demo_def entry_live_at_def ttl_cache_peek_def hm_get_def a_find_def Let_def)

section \<open>Executions\<close>

datatype (plugins only: code size) (dead 'k, dead 'v, dead 'q, dead 'e) ttl_op =
    TGet instant 'q
  | TGetMut instant 'q "'v \<Rightarrow> 'v"
  | TGetStatus instant 'q
  | TSet instant 'k 'v
  | TGetOrSet instant instant 'k "'v outcome" "'v \<Rightarrow> 'v"
  | TTryGetOrSet instant instant 'k "('e + 'v) outcome" "'v \<Rightarrow> 'v"
  | TAsyncGetOrSet instant instant 'k "'v outcome" "'v \<Rightarrow> 'v"
  | TAsyncTryGetOrSet instant instant 'k "('e + 'v) outcome" "'v \<Rightarrow> 'v"
  | TRemove instant 'q
  | TRemoveEntry 'q
  | TContains instant 'q
  | TRetain "('k, 'v) predicate" instant
  | TEvict instant
  | TClear
  | TClearWithOnEvict
  | TSetTtl duration
  | TUnsetTtl
  | TSetRefresh bool
  | TResetMetrics
  | TReset

datatype (plugins only: code size) (dead 'k, dead 'v, dead 'e) ttl_result =
    TUnit | TValue 'v | TTry "'e + 'v" | TLookup "'v option" | TStatus "'v option \<times> bool"
  | TEntry "('k \<times> 'v) option" | TBool bool | TCount usize | TDuration "duration option"

fun ttl_exec :: "('k \<Rightarrow> 'q) \<Rightarrow> ('k, 'v, 'q, 'e) ttl_op
    \<Rightarrow> (('k, 'v) ttl_cache, ('k, 'v, 'e) ttl_result) comp" where
  "ttl_exec bk (TGet now q) = as_result (ttl_cache_get bk now q) TLookup"
| "ttl_exec bk (TGetMut now q upd) = as_result (ttl_cache_get_mut bk now q upd) TLookup"
| "ttl_exec bk (TGetStatus now q) = as_result (ttl_cache_get_with_expiry_status bk now q) TStatus"
| "ttl_exec bk (TSet now k v) = as_result (ttl_cache_set bk now k v) TLookup"
| "ttl_exec bk (TGetOrSet now later k f upd) =
     as_result (ttl_cache_get_or_set_with_mut bk now later k f upd) TValue"
| "ttl_exec bk (TTryGetOrSet now later k f upd) =
     as_result (ttl_cache_try_get_or_set_with_mut bk now later k f upd) TTry"
| "ttl_exec bk (TAsyncGetOrSet now later k f upd) =
     as_result (ttl_async_cache_get_or_set_with_mut bk now later k f upd) TValue"
| "ttl_exec bk (TAsyncTryGetOrSet now later k f upd) =
     as_result (ttl_async_cache_try_get_or_set_with_mut bk now later k f upd) TTry"
| "ttl_exec bk (TRemove now q) = as_result (ttl_cache_remove bk now q) TLookup"
| "ttl_exec bk (TRemoveEntry q) = as_result (ttl_cache_remove_entry bk q) TEntry"
| "ttl_exec bk (TContains now q) = as_result (ttl_cache_contains bk now q) TBool"
| "ttl_exec bk (TRetain keep now) = as_result (ttl_retain keep now) TCount"
| "ttl_exec bk (TEvict now) = as_result (ttl_evict now) TCount"
| "ttl_exec bk TClear = as_result ttl_cache_clear (\<lambda>_. TUnit)"
| "ttl_exec bk TClearWithOnEvict = as_result ttl_cache_clear_with_on_evict (\<lambda>_. TUnit)"
| "ttl_exec bk (TSetTtl d) = as_result (ttl_set_ttl d) TDuration"
| "ttl_exec bk TUnsetTtl = as_result ttl_unset_ttl TDuration"
| "ttl_exec bk (TSetRefresh b) = as_result (ttl_set_refresh_on_hit b) TBool"
| "ttl_exec bk TResetMetrics = as_result ttl_cache_reset_metrics (\<lambda>_. TUnit)"
| "ttl_exec bk TReset = as_result ttl_cache_reset (\<lambda>_. TUnit)"

text \<open>
  The invariant: distinct keys, and, when a callback is set that returns normally and the metrics
  are not reset, as many counted evictions as calls of the callback.
\<close>

definition tc_inv :: "('k \<Rightarrow> 'q) \<Rightarrow> ('k, 'v) callback \<Rightarrow> ('k, 'v) ttl_cache \<Rightarrow> bool" where
  "tc_inv bk cb c \<longleftrightarrow> tc_wf bk c \<and> tc_on_evict c = Some cb \<and> quiet (Some cb) \<and>
     tc_evictions c = of_nat (length (tc_calls c))"


lemma tc_inv_parts [keeps_rules]:
  "keeps (tc_inv bk cb) tc_hit" "keeps (tc_inv bk cb) tc_miss" "keeps (tc_inv bk cb) (tc_report k e)"
  "keeps (tc_inv bk cb) (tc_refresh_entry bk q now)" "keeps (tc_inv bk cb) (tc_write bk q upd)"
  "keeps (tc_inv bk cb) (ttl_notify_evicted kes)"
  by (auto simp: keeps_def tc_inv_def tc_wf_def tc_apply ttl_notify_evicted_apply processed_all te_pairs_def)

lemma tc_inv_set_store [keeps_rules]:
  "a_wf bk m \<Longrightarrow> keeps (tc_inv bk cb) (tc_set_store m)"
  by (simp add: keeps_def tc_inv_def tc_wf_def tc_apply)

lemma tc_inv_a_wf: "tc_inv bk cb c \<Longrightarrow> a_wf bk (tc_store c)"
  by (simp add: tc_inv_def tc_wf_def)

lemma tc_inv_take_doomed [keeps_rules]: "keeps (tc_inv bk cb) (ttl_take_doomed doomed)"
  unfolding ttl_take_doomed_def
  by (rule keeps_read, rule keeps_expect) (auto intro!: keeps_rules dest: a_wf_take_doomed tc_inv_a_wf)

lemma tc_inv_lookups [keeps_rules]:
  "keeps (tc_inv bk cb) (ttl_cache_get bk now q)"
  "keeps (tc_inv bk cb) (ttl_cache_get_mut bk now q upd)"
  "keeps (tc_inv bk cb) (ttl_cache_get_with_expiry_status bk now q)"
  "keeps (tc_inv bk cb) (ttl_cache_remove bk now q)"
  "keeps (tc_inv bk cb) (ttl_cache_remove_entry bk q)"
  "keeps (tc_inv bk cb) (ttl_cache_contains bk now q)"
  unfolding ttl_cache_get_def ttl_cache_get_mut_def ttl_cache_get_with_expiry_status_def
    ttl_cache_remove_def ttl_cache_remove_entry_def ttl_cache_contains_def hm_remove_entry_def prod.case
  by (rule keeps_read; auto simp: Let_def split: option.split intro!: keeps_rules a_wf_without dest: tc_inv_a_wf)+

lemma tc_inv_sets [keeps_rules]:
  "keeps (tc_inv bk cb) (ttl_set_entry bk key entry now)"
  "keeps (tc_inv bk cb) (ttl_cache_get_or_set_with_mut bk now later key f upd)"
  "keeps (tc_inv bk cb) (ttl_cache_try_get_or_set_with_mut bk now later key g upd)"
  unfolding ttl_set_entry_def ttl_cache_get_or_set_with_mut_def ttl_cache_try_get_or_set_with_mut_def
  by (rule keeps_read; auto split: option.split intro!: keeps_rules a_wf_insert dest: tc_inv_a_wf)+

lemma tc_inv_set [keeps_rules]: "keeps (tc_inv bk cb) (ttl_cache_set bk now key val)"
  unfolding ttl_cache_set_def by (intro keeps_rules)

lemma tc_inv_clear [keeps_rules]:
  "keeps (tc_inv bk cb) ttl_cache_clear"
  "keeps (tc_inv bk cb) ttl_cache_clear_with_on_evict"
proof -
  show "keeps (tc_inv bk cb) ttl_cache_clear"
    unfolding ttl_cache_clear_def by (intro keeps_rules) simp
  show "keeps (tc_inv bk cb) ttl_cache_clear_with_on_evict"
    by (auto simp: keeps_def ttl_cache_clear_with_on_evict_def andthen_apply get_state_apply
        tc_set_store_apply tc_count_batch tc_notify_all tc_inv_def tc_wf_def processed_all te_pairs_def)
qed

lemma tc_inv_sweeps [keeps_rules]:
  "keeps (tc_inv bk cb) (ttl_evict now)" "keeps (tc_inv bk cb) (ttl_retain keep now)"
  unfolding ttl_evict_def ttl_retain_def by (intro keeps_rules)+

lemma tc_inv_settings [keeps_rules]:
  "keeps (tc_inv bk cb) (ttl_set_ttl ttl)" "keeps (tc_inv bk cb) ttl_unset_ttl"
  "keeps (tc_inv bk cb) (ttl_set_refresh_on_hit b)"
  by (simp_all add: keeps_def ttl_set_ttl_def ttl_unset_ttl_def ttl_set_refresh_on_hit_def tc_inv_def
      tc_wf_def comp_simps Let_def)



abbreviation "ttl_demo_run \<equiv> run (ttl_exec id)
  [TSet 0 1 100, TGet 3 1, TSet 11 1 101, TGet 30 (1 :: nat) :: (nat, nat, nat, unit) ttl_op]
  (ttl_demo 10 False (Some (\<lambda>k v. True)))"


end
