(* ===== verification/Expiring_Cache.thy ===== *)
theory Expiring_Cache
  imports Hash_Map State_Machine
begin

text \<open>
  \<open>src/stores/expiring.rs\<close>: \<open>ExpiringCache\<close>, a hash map whose values say themselves whether they have
  expired. \<open>Expires::is_expired\<close> is user code: the definitions take it as the parameter \<open>exp\<close>, what it
  answers at the time of the call, and \<open>None\<close> is a panic of it.
\<close>

type_synonym 'v expires = "'v \<Rightarrow> bool option"

record ('k, 'v) expiring_cache =
  ec_store :: "('k, 'v) hash_map"
  ec_initial_capacity :: "usize option"
  ec_hits :: u64
  ec_misses :: u64
  ec_evictions :: u64
  ec_on_evict :: "('k, 'v) callback option"
  ec_calls :: "('k, 'v) trace"

record ('k, 'v) expiring_builder =
  ecb_capacity :: "usize option"
  ecb_on_evict :: "('k, 'v) callback option"

definition expiring_builder_default :: "('k, 'v) expiring_builder" where
  "expiring_builder_default = \<lparr>ecb_capacity = None, ecb_on_evict = None\<rparr>"

definition expiring_builder_initial_capacity ::
    "usize \<Rightarrow> ('k, 'v) expiring_builder \<Rightarrow> ('k, 'v) expiring_builder" where
  "expiring_builder_initial_capacity n b = b\<lparr>ecb_capacity := Some n\<rparr>"

definition expiring_builder_on_evict ::
    "('k, 'v) callback \<Rightarrow> ('k, 'v) expiring_builder \<Rightarrow> ('k, 'v) expiring_builder" where
  "expiring_builder_on_evict f b = b\<lparr>ecb_on_evict := Some f\<rparr>"

definition expiring_build :: "('k, 'v) expiring_builder \<Rightarrow> build_error + ('k, 'v) expiring_cache" where
  "expiring_build b = Inr \<lparr>ec_store = [], ec_initial_capacity = ecb_capacity b, ec_hits = 0,
     ec_misses = 0, ec_evictions = 0, ec_on_evict = ecb_on_evict b, ec_calls = []\<rparr>"

definition expiring_clone :: "('k, 'v) expiring_cache \<Rightarrow> ('k, 'v) expiring_cache" where
  "expiring_clone c = \<lparr>ec_store = ec_store c, ec_initial_capacity = ec_initial_capacity c,
     ec_hits = ec_hits c, ec_misses = ec_misses c, ec_evictions = ec_evictions c,
     ec_on_evict = ec_on_evict c, ec_calls = ec_calls c\<rparr>"

definition expiring_eq :: "('k \<Rightarrow> 'q) \<Rightarrow> ('k, 'v) expiring_cache \<Rightarrow> ('k, 'v) expiring_cache \<Rightarrow> bool" where
  "expiring_eq bk c d \<longleftrightarrow> length (ec_store c) = length (ec_store d) \<and>
     (\<forall>(k, v) \<in> set (ec_store c). hm_get bk (bk k) (ec_store d) = Some v)"

section \<open>Parts of the operations\<close>

definition ec_hit :: "(('k, 'v) expiring_cache, unit) comp" where
  "ec_hit = modify (\<lambda>c. c\<lparr>ec_hits := ec_hits c + 1\<rparr>)"

definition ec_miss :: "(('k, 'v) expiring_cache, unit) comp" where
  "ec_miss = modify (\<lambda>c. c\<lparr>ec_misses := ec_misses c + 1\<rparr>)"

definition ec_count :: "nat \<Rightarrow> (('k, 'v) expiring_cache, unit) comp" where
  "ec_count n = modify (\<lambda>c. c\<lparr>ec_evictions := ec_evictions c + of_nat n\<rparr>)"

definition ec_notify :: "'k \<Rightarrow> 'v \<Rightarrow> (('k, 'v) expiring_cache, unit) comp" where
  "ec_notify k v c = notify ec_calls_update (ec_on_evict c) k v c"

definition ec_set_store :: "('k, 'v) hash_map \<Rightarrow> (('k, 'v) expiring_cache, unit) comp" where
  "ec_set_store m = modify (\<lambda>c. c\<lparr>ec_store := m\<rparr>)"

definition ec_report :: "'k \<Rightarrow> 'v \<Rightarrow> (('k, 'v) expiring_cache, unit) comp" where
  "ec_report k v = andthen (ec_count 1) (\<lambda>_. ec_notify k v)"

definition ec_write :: "('k \<Rightarrow> 'q) \<Rightarrow> 'q \<Rightarrow> ('v \<Rightarrow> 'v) \<Rightarrow> (('k, 'v) expiring_cache, unit) comp" where
  "ec_write bk q upd = modify (\<lambda>c. c\<lparr>ec_store := hm_update bk q upd (ec_store c)\<rparr>)"

definition expiring_take_doomed :: "('k, 'v) predicate \<Rightarrow> (('k, 'v) expiring_cache, ('k \<times> 'v) list) comp" where
  "expiring_take_doomed doomed =
     andthen get_state (\<lambda>c.
     andthen (expect (take_doomed doomed (ec_store c))) (\<lambda>(removed, m).
     andthen (ec_set_store m) (\<lambda>_. ret removed)))"

definition expiring_notify_evicted :: "('k \<times> 'v) list \<Rightarrow> (('k, 'v) expiring_cache, usize) comp" where
  "expiring_notify_evicted removed =
     andthen (cwhen (removed \<noteq> []) (ec_count (length removed))) (\<lambda>_.
     andthen (foreach removed (\<lambda>(k, v). ec_notify k v)) (\<lambda>_.
     ret (length removed)))"

section \<open>Operations\<close>

definition expiring_evict :: "'v expires \<Rightarrow> (('k, 'v) expiring_cache, usize) comp" where
  "expiring_evict exp = andthen (expiring_take_doomed (\<lambda>k v. exp v)) expiring_notify_evicted"

definition expiring_retain :: "'v expires \<Rightarrow> ('k, 'v) predicate \<Rightarrow> (('k, 'v) expiring_cache, usize) comp" where
  "expiring_retain exp keep =
     andthen (expiring_take_doomed (\<lambda>k v. do {
       e \<leftarrow> exp v; if e then Some True else map_option Not (keep k v) })) expiring_notify_evicted"

definition expiring_cache_clear_with_on_evict :: "(('k, 'v) expiring_cache, unit) comp" where
  "expiring_cache_clear_with_on_evict =
     andthen get_state (\<lambda>c.
     andthen (ec_set_store []) (\<lambda>_.
     andthen (cwhen (ec_store c \<noteq> []) (ec_count (length (ec_store c)))) (\<lambda>_.
     foreach (ec_store c) (\<lambda>(k, v). ec_notify k v))))"

definition expiring_cache_get :: "('k \<Rightarrow> 'q) \<Rightarrow> 'v expires \<Rightarrow> 'q \<Rightarrow> (('k, 'v) expiring_cache, 'v option) comp" where
  "expiring_cache_get bk exp q =
     andthen get_state (\<lambda>c. case hm_get bk q (ec_store c) of
       None \<Rightarrow> andthen ec_miss (\<lambda>_. ret None)
     | Some v \<Rightarrow> andthen (expect (exp v)) (\<lambda>expired.
         if expired
         then andthen ec_miss (\<lambda>_. case hm_remove_entry bk q (ec_store c) of
             (Some (k, old), m) \<Rightarrow> andthen (ec_set_store m) (\<lambda>_. andthen (ec_report k old) (\<lambda>_. ret None))
           | (None, _) \<Rightarrow> ret None)
         else andthen ec_hit (\<lambda>_. ret (hm_get bk q (ec_store c)))))"

definition expiring_cache_get_mut :: "('k \<Rightarrow> 'q) \<Rightarrow> 'v expires \<Rightarrow> 'q \<Rightarrow> ('v \<Rightarrow> 'v)
    \<Rightarrow> (('k, 'v) expiring_cache, 'v option) comp" where
  "expiring_cache_get_mut bk exp q upd =
     andthen get_state (\<lambda>c. case hm_get bk q (ec_store c) of
       None \<Rightarrow> andthen ec_miss (\<lambda>_. ret None)
     | Some v \<Rightarrow> andthen (expect (exp v)) (\<lambda>expired.
         if expired
         then andthen ec_miss (\<lambda>_. case hm_remove_entry bk q (ec_store c) of
             (Some (k, old), m) \<Rightarrow> andthen (ec_set_store m) (\<lambda>_. andthen (ec_report k old) (\<lambda>_. ret None))
           | (None, _) \<Rightarrow> ret None)
         else andthen ec_hit (\<lambda>_. andthen (ec_write bk q upd) (\<lambda>_. ret (hm_get bk q (ec_store c))))))"

definition expiring_cache_get_or_set_with_mut :: "('k \<Rightarrow> 'q) \<Rightarrow> 'v expires \<Rightarrow> 'k \<Rightarrow> 'v outcome
    \<Rightarrow> ('v \<Rightarrow> 'v) \<Rightarrow> (('k, 'v) expiring_cache, 'v) comp" where
  "expiring_cache_get_or_set_with_mut bk exp key f upd =
     andthen get_state (\<lambda>c. case a_find bk (bk key) (ec_store c) of
       Some (stored_key, old) \<Rightarrow> andthen (expect (exp old)) (\<lambda>expired.
         if \<not> expired
         then andthen ec_hit (\<lambda>_. andthen (ec_write bk (bk key) upd) (\<lambda>_. ret old))
         else andthen ec_miss (\<lambda>_. andthen (run_closure f) (\<lambda>val.
           andthen (ec_set_store (snd (hm_insert bk key val (ec_store c)))) (\<lambda>_.
           andthen (ec_report stored_key old) (\<lambda>_.
           andthen (ec_write bk (bk key) upd) (\<lambda>_. ret val))))))
     | None \<Rightarrow>
         andthen ec_miss (\<lambda>_. andthen (run_closure f) (\<lambda>val.
         andthen (ec_set_store (snd (hm_insert bk key val (ec_store c)))) (\<lambda>_.
         andthen (ec_write bk (bk key) upd) (\<lambda>_. ret val)))))"

definition expiring_cache_try_get_or_set_with_mut :: "('k \<Rightarrow> 'q) \<Rightarrow> 'v expires \<Rightarrow> 'k
    \<Rightarrow> ('e + 'v) outcome \<Rightarrow> ('v \<Rightarrow> 'v) \<Rightarrow> (('k, 'v) expiring_cache, 'e + 'v) comp" where
  "expiring_cache_try_get_or_set_with_mut bk exp key f upd =
     andthen get_state (\<lambda>c. case a_find bk (bk key) (ec_store c) of
       Some (stored_key, old) \<Rightarrow> andthen (expect (exp old)) (\<lambda>expired.
         if \<not> expired
         then andthen ec_hit (\<lambda>_. andthen (ec_write bk (bk key) upd) (\<lambda>_. ret (Inr old)))
         else andthen ec_miss (\<lambda>_. andthen (run_closure f) (\<lambda>r. case r of
             Inl e \<Rightarrow> ret (Inl e)
           | Inr val \<Rightarrow>
               andthen (ec_set_store (snd (hm_insert bk key val (ec_store c)))) (\<lambda>_.
               andthen (ec_report stored_key old) (\<lambda>_.
               andthen (ec_write bk (bk key) upd) (\<lambda>_. ret (Inr val)))))))
     | None \<Rightarrow>
         andthen ec_miss (\<lambda>_. andthen (run_closure f) (\<lambda>r. case r of
             Inl e \<Rightarrow> ret (Inl e)
           | Inr val \<Rightarrow>
               andthen (ec_set_store (snd (hm_insert bk key val (ec_store c)))) (\<lambda>_.
               andthen (ec_write bk (bk key) upd) (\<lambda>_. ret (Inr val))))))"

definition expiring_cache_set :: "('k \<Rightarrow> 'q) \<Rightarrow> 'v expires \<Rightarrow> 'k \<Rightarrow> 'v
    \<Rightarrow> (('k, 'v) expiring_cache, 'v option) comp" where
  "expiring_cache_set bk exp key val =
     andthen get_state (\<lambda>c. case a_find bk (bk key) (ec_store c) of
       Some (stored_key, old) \<Rightarrow>
         andthen (ec_set_store (snd (hm_insert bk key val (ec_store c)))) (\<lambda>_.
         andthen (expect (exp old)) (\<lambda>expired.
         if expired then andthen (ec_report stored_key old) (\<lambda>_. ret None) else ret (Some old)))
     | None \<Rightarrow> andthen (ec_set_store (snd (hm_insert bk key val (ec_store c)))) (\<lambda>_. ret None))"

definition expiring_cache_remove :: "('k \<Rightarrow> 'q) \<Rightarrow> 'v expires \<Rightarrow> 'q
    \<Rightarrow> (('k, 'v) expiring_cache, 'v option) comp" where
  "expiring_cache_remove bk exp q =
     andthen get_state (\<lambda>c. case hm_remove_entry bk q (ec_store c) of
       (Some (k, v), m) \<Rightarrow>
         andthen (ec_set_store m) (\<lambda>_.
         andthen (expect (exp v)) (\<lambda>expired.
         andthen (ec_report k v) (\<lambda>_. ret (if expired then None else Some v))))
     | (None, _) \<Rightarrow> ret None)"

definition expiring_cache_remove_entry :: "('k \<Rightarrow> 'q) \<Rightarrow> 'q
    \<Rightarrow> (('k, 'v) expiring_cache, ('k \<times> 'v) option) comp" where
  "expiring_cache_remove_entry bk q =
     andthen get_state (\<lambda>c. case hm_remove_entry bk q (ec_store c) of
       (Some (k, v), m) \<Rightarrow>
         andthen (ec_set_store m) (\<lambda>_. andthen (ec_report k v) (\<lambda>_. ret (Some (k, v))))
     | (None, _) \<Rightarrow> ret None)"

definition expiring_cache_clear :: "(('k, 'v) expiring_cache, unit) comp" where
  "expiring_cache_clear = ec_set_store []"

definition expiring_cache_reset_metrics :: "(('k, 'v) expiring_cache, unit) comp" where
  "expiring_cache_reset_metrics = modify (\<lambda>c. c\<lparr>ec_hits := 0, ec_misses := 0, ec_evictions := 0\<rparr>)"

definition expiring_cache_reset :: "(('k, 'v) expiring_cache, unit) comp" where
  "expiring_cache_reset = andthen (ec_set_store []) (\<lambda>_. expiring_cache_reset_metrics)"

definition expiring_cache_size :: "('k, 'v) expiring_cache \<Rightarrow> usize" where
  "expiring_cache_size c = length (ec_store c)"

definition expiring_cache_peek :: "('k \<Rightarrow> 'q) \<Rightarrow> 'v expires \<Rightarrow> 'q
    \<Rightarrow> (('k, 'v) expiring_cache, 'v option) comp" where
  "expiring_cache_peek bk exp q =
     andthen get_state (\<lambda>c. case hm_get bk q (ec_store c) of
       None \<Rightarrow> ret None
     | Some v \<Rightarrow> andthen (expect (exp v)) (\<lambda>expired. ret (if expired then None else Some v)))"

definition expiring_cache_contains :: "('k \<Rightarrow> 'q) \<Rightarrow> 'v expires \<Rightarrow> 'q
    \<Rightarrow> (('k, 'v) expiring_cache, bool) comp" where
  "expiring_cache_contains bk exp q = andthen (expiring_cache_peek bk exp q) (\<lambda>v. ret (v \<noteq> None))"

definition expiring_iter :: "'v expires \<Rightarrow> ('k, 'v) expiring_cache \<Rightarrow> ('k \<times> 'v) list option" where
  "expiring_iter exp c = filter_closure (\<lambda>(k, v). map_option Not (exp v)) (ec_store c)"

definition expiring_cache_get_with_expiry_status :: "('k \<Rightarrow> 'q) \<Rightarrow> 'v expires \<Rightarrow> 'q
    \<Rightarrow> (('k, 'v) expiring_cache, 'v option \<times> bool) comp" where
  "expiring_cache_get_with_expiry_status bk exp q =
     andthen get_state (\<lambda>c. case hm_get bk q (ec_store c) of
       Some v \<Rightarrow> andthen (expect (exp v)) (\<lambda>expired.
         if expired then andthen ec_miss (\<lambda>_. ret (Some v, True))
         else andthen ec_hit (\<lambda>_. ret (Some v, False)))
     | None \<Rightarrow> andthen ec_miss (\<lambda>_. ret (None, False)))"

definition expiring_cache_peek_with_expiry_status :: "('k \<Rightarrow> 'q) \<Rightarrow> 'v expires \<Rightarrow> 'q
    \<Rightarrow> (('k, 'v) expiring_cache, 'v option \<times> bool) comp" where
  "expiring_cache_peek_with_expiry_status bk exp q =
     andthen get_state (\<lambda>c. case hm_get bk q (ec_store c) of
       Some v \<Rightarrow> andthen (expect (exp v)) (\<lambda>expired. ret (Some v, expired))
     | None \<Rightarrow> ret (None, False))"

text \<open>The asynchronous twins.\<close>

definition expiring_async_cache_get_or_set_with_mut :: "('k \<Rightarrow> 'q) \<Rightarrow> 'v expires \<Rightarrow> 'k \<Rightarrow> 'v outcome
    \<Rightarrow> ('v \<Rightarrow> 'v) \<Rightarrow> (('k, 'v) expiring_cache, 'v) comp" where
  "expiring_async_cache_get_or_set_with_mut bk exp key f upd =
     andthen get_state (\<lambda>c. case a_find bk (bk key) (ec_store c) of
       Some (stored_key, old) \<Rightarrow> andthen (expect (exp old)) (\<lambda>expired.
         if \<not> expired
         then andthen ec_hit (\<lambda>_. andthen (ec_write bk (bk key) upd) (\<lambda>_. ret old))
         else andthen ec_miss (\<lambda>_. andthen (await f) (\<lambda>val.
           andthen (ec_set_store (snd (hm_insert bk key val (ec_store c)))) (\<lambda>_.
           andthen (ec_report stored_key old) (\<lambda>_.
           andthen (ec_write bk (bk key) upd) (\<lambda>_. ret val))))))
     | None \<Rightarrow>
         andthen ec_miss (\<lambda>_. andthen (await f) (\<lambda>val.
         andthen (ec_set_store (snd (hm_insert bk key val (ec_store c)))) (\<lambda>_.
         andthen (ec_write bk (bk key) upd) (\<lambda>_. ret val)))))"

definition expiring_async_cache_try_get_or_set_with_mut :: "('k \<Rightarrow> 'q) \<Rightarrow> 'v expires \<Rightarrow> 'k
    \<Rightarrow> ('e + 'v) outcome \<Rightarrow> ('v \<Rightarrow> 'v) \<Rightarrow> (('k, 'v) expiring_cache, 'e + 'v) comp" where
  "expiring_async_cache_try_get_or_set_with_mut bk exp key f upd =
     andthen get_state (\<lambda>c. case a_find bk (bk key) (ec_store c) of
       Some (stored_key, old) \<Rightarrow> andthen (expect (exp old)) (\<lambda>expired.
         if \<not> expired
         then andthen ec_hit (\<lambda>_. andthen (ec_write bk (bk key) upd) (\<lambda>_. ret (Inr old)))
         else andthen ec_miss (\<lambda>_. andthen (await f) (\<lambda>r. case r of
             Inl e \<Rightarrow> ret (Inl e)
           | Inr val \<Rightarrow>
               andthen (ec_set_store (snd (hm_insert bk key val (ec_store c)))) (\<lambda>_.
               andthen (ec_report stored_key old) (\<lambda>_.
               andthen (ec_write bk (bk key) upd) (\<lambda>_. ret (Inr val)))))))
     | None \<Rightarrow>
         andthen ec_miss (\<lambda>_. andthen (await f) (\<lambda>r. case r of
             Inl e \<Rightarrow> ret (Inl e)
           | Inr val \<Rightarrow>
               andthen (ec_set_store (snd (hm_insert bk key val (ec_store c)))) (\<lambda>_.
               andthen (ec_write bk (bk key) upd) (\<lambda>_. ret (Inr val))))))"

end
