(* ===== verification/Expiring_Correct.thy ===== *)
theory Expiring_Correct
  imports Expiring_Cache
begin

text \<open>
  What \<open>ExpiringCache\<close> promises: a value is served exactly while it says that it has not expired, and
  every value that leaves the cache is counted before the callback hears of it. The user code in the
  values may panic; the sweeps leave the cache unchanged then.
\<close>

definition ec_wf :: "('k \<Rightarrow> 'q) \<Rightarrow> ('k, 'v) expiring_cache \<Rightarrow> bool" where
  "ec_wf bk c \<longleftrightarrow> a_wf bk (ec_store c)"

lemma ec_notify_apply: "ec_notify k v c =
   (if cb_ok (ec_on_evict c) k v then Returns () else Panics,
    c\<lparr>ec_calls := ec_calls c @ cb_calls (ec_on_evict c) [(k, v)]\<rparr>)"
  by (simp add: ec_notify_def notify_apply)

lemma ec_report_apply: "ec_report k v c =
   (if cb_ok (ec_on_evict c) k v then Returns () else Panics,
    c\<lparr>ec_evictions := ec_evictions c + 1,
      ec_calls := ec_calls c @ cb_calls (ec_on_evict c) [(k, v)]\<rparr>)"
  by (simp add: ec_report_def ec_count_def ec_notify_apply comp_simps)

lemmas ec_apply = ec_notify_apply ec_report_apply ec_miss_def ec_hit_def ec_set_store_def ec_write_def
  comp_simps

lemma ec_notify_all:
  "foreach kvs (\<lambda>(k, v). ec_notify k v) c =
     (if all_ok (ec_on_evict c) kvs then Returns () else Panics,
      c\<lparr>ec_calls := ec_calls c @ cb_calls (ec_on_evict c) (processed (ec_on_evict c) kvs)\<rparr>)"
proof (induction kvs arbitrary: c)
  case (Cons kv kvs)
  then show ?case
    by (cases kv; cases "ec_on_evict c") (simp_all add: andthen_apply ec_notify_apply)
qed (simp add: ret_apply)

lemma ec_count_batch:
  "cwhen (kvs \<noteq> []) (ec_count (length kvs)) c =
     (Returns (), c\<lparr>ec_evictions := ec_evictions c + of_nat (length kvs)\<rparr>)"
  by (cases kvs) (simp_all add: cwhen_def ec_count_def comp_simps)

lemma expiring_notify_evicted_apply:
  "expiring_notify_evicted kvs c =
     (if all_ok (ec_on_evict c) kvs then Returns (length kvs) else Panics,
      c\<lparr>ec_evictions := ec_evictions c + of_nat (length kvs),
        ec_calls := ec_calls c @ cb_calls (ec_on_evict c) (processed (ec_on_evict c) kvs)\<rparr>)"
  by (simp add: expiring_notify_evicted_def andthen_apply ec_count_batch ec_notify_all ret_apply)

definition ec_swept :: "('k \<times> 'v \<Rightarrow> bool) \<Rightarrow> ('k, 'v) expiring_cache \<Rightarrow> ('k, 'v) expiring_cache" where
  "ec_swept P c = (let out = filter P (ec_store c) in
     c\<lparr>ec_store := filter (\<lambda>kv. \<not> P kv) (ec_store c),
       ec_evictions := ec_evictions c + of_nat (length out),
       ec_calls := ec_calls c @ cb_calls (ec_on_evict c) (processed (ec_on_evict c) out)\<rparr>)"

lemma expiring_sweep_apply:
  assumes "\<And>k v. (k, v) \<in> set (ec_store c) \<Longrightarrow> doomed k v = Some (P (k, v))"
  shows "andthen (expiring_take_doomed doomed) expiring_notify_evicted c =
    (if all_ok (ec_on_evict c) (filter P (ec_store c))
     then Returns (length (filter P (ec_store c))) else Panics, ec_swept P c)"
proof -
  have "take_doomed doomed (ec_store c) =
      Some (filter P (ec_store c), filter (\<lambda>kv. \<not> P kv) (ec_store c))"
    using take_doomed_total [of "ec_store c" doomed "\<lambda>k v. P (k, v)"] assms by simp
  then show ?thesis
    by (simp add: expiring_take_doomed_def ec_set_store_def expiring_notify_evicted_apply ec_swept_def
        Let_def comp_simps)
qed

section \<open>Lookup\<close>

text \<open>
  C9. \<open>cache_get\<close> serves a value exactly when the value says that it has not expired. A value that
  has is removed, counted and reported once under its stored key, even when the callback panics; a
  panic of \<open>is_expired\<close> leaves the cache unchanged.
\<close>

theorem expiring_cache_get_effect:
  assumes "expiring_cache_get bk exp q c = (r, d)"
  shows "case a_find bk q (ec_store c) of
      None \<Rightarrow> r = Returns None \<and> d = c\<lparr>ec_misses := ec_misses c + 1\<rparr>
    | Some (k, v) \<Rightarrow> (case exp v of
        None \<Rightarrow> r = Panics \<and> d = c
      | Some False \<Rightarrow> r = Returns (Some v) \<and> d = c\<lparr>ec_hits := ec_hits c + 1\<rparr>
      | Some True \<Rightarrow> r = (if cb_ok (ec_on_evict c) k v then Returns None else Panics) \<and>
          ec_store d = a_without bk q (ec_store c) \<and> ec_misses d = ec_misses c + 1 \<and>
          ec_hits d = ec_hits c \<and> ec_evictions d = ec_evictions c + 1 \<and>
          ec_calls d = ec_calls c @ cb_calls (ec_on_evict c) [(k, v)])"
  using assms
  by (auto simp: expiring_cache_get_def hm_get_def hm_remove_entry_def ec_apply
      split: option.splits bool.splits if_splits)

definition ec_demo :: "(nat, nat) callback option \<Rightarrow> (nat, nat) expiring_cache" where
  "ec_demo cb = \<lparr>ec_store = [(1, 10), (2, 20)], ec_initial_capacity = None, ec_hits = 0, ec_misses = 0,
     ec_evictions = 0, ec_on_evict = cb, ec_calls = []\<rparr>"

theorem expiring_cache_get_effect_witness:
  "ec_store (snd (expiring_cache_get id (\<lambda>v. Some (v = 10)) 1 (ec_demo None))) = [(2, 20)]"
  using expiring_cache_get_effect [OF prod.collapse [symmetric], of id "\<lambda>v. Some (v = 10)" 1 "ec_demo None"]
  by (simp add: ec_demo_def a_find_def a_without_def)

section \<open>Sweeps\<close>

text \<open>
  \<open>evict\<close> removes exactly the values that say they have expired, all of them before the first is
  reported, and counts them all. If \<open>is_expired\<close> panics for some value, nothing was removed, counted
  or reported.
\<close>

theorem expiring_evict_effect:
  assumes "expiring_evict exp c = (r, d)"
  shows "if \<exists>(k, v) \<in> set (ec_store c). exp v = None then r = Panics \<and> d = c
    else (let out = filter (\<lambda>(k, v). exp v = Some True) (ec_store c) in
      ec_store d = filter (\<lambda>(k, v). exp v \<noteq> Some True) (ec_store c) \<and>
      ec_evictions d = ec_evictions c + of_nat (length out) \<and>
      ec_calls d = ec_calls c @ cb_calls (ec_on_evict c) (processed (ec_on_evict c) out) \<and>
      r = (if all_ok (ec_on_evict c) out then Returns (length out) else Panics))"
proof (cases "\<exists>(k, v) \<in> set (ec_store c). exp v = None")
  case True
  then obtain k v where "(k, v) \<in> set (ec_store c)" "exp v = None" by auto
  then have "take_doomed (\<lambda>k v. exp v) (ec_store c) = None" by (rule take_doomed_panic)
  then show ?thesis
    using True assms by (simp add: expiring_evict_def expiring_take_doomed_def comp_simps)
next
  case False
  let ?P = "\<lambda>kv. exp (snd kv) = Some True"
  have "expiring_evict exp c = (if all_ok (ec_on_evict c) (filter ?P (ec_store c))
      then Returns (length (filter ?P (ec_store c))) else Panics, ec_swept ?P c)"
    unfolding expiring_evict_def by (rule expiring_sweep_apply) (use False in force)
  then show ?thesis
    unfolding if_not_P [OF False] using assms by (auto simp: ec_swept_def Let_def case_prod_beta')
qed

theorem expiring_evict_effect_witness:
  "snd (expiring_evict (\<lambda>v. if v = 20 then None else Some True) (ec_demo None)) = ec_demo None"
  using expiring_evict_effect [OF prod.collapse [symmetric],
      where exp = "\<lambda>v. if v = 20 then None else Some True" and c = "ec_demo None"]
  by (simp add: ec_demo_def)

section \<open>Insertion and removal\<close>

text \<open>
  \<open>cache_set\<close> stores the value under the key, keeps every other entry, and returns the value it
  replaced if that had not expired; an expired one is counted and reported instead, under the stored
  key, even when the callback panics.
\<close>

theorem expiring_cache_set_effect:
  assumes "expiring_cache_set bk exp key val c = (r, d)"
  shows "(\<forall>q. hm_get bk q (ec_store d) = (if q = bk key then Some val else hm_get bk q (ec_store c))) \<and>
    (case a_find bk (bk key) (ec_store c) of
       None \<Rightarrow> r = Returns None \<and> ec_evictions d = ec_evictions c \<and> ec_calls d = ec_calls c
     | Some (k, old) \<Rightarrow> (case exp old of
         None \<Rightarrow> r = Panics \<and> ec_evictions d = ec_evictions c \<and> ec_calls d = ec_calls c
       | Some False \<Rightarrow> r = Returns (Some old) \<and> ec_evictions d = ec_evictions c \<and> ec_calls d = ec_calls c
       | Some True \<Rightarrow> r = (if cb_ok (ec_on_evict c) k old then Returns None else Panics) \<and>
           ec_evictions d = ec_evictions c + 1 \<and>
           ec_calls d = ec_calls c @ cb_calls (ec_on_evict c) [(k, old)]))"
  using assms
  by (cases "a_find bk (bk key) (ec_store c)")
    (auto simp: expiring_cache_set_def ec_apply expect_def hm_get_def a_find_insert
      split: option.splits bool.splits if_splits)

theorem expiring_cache_set_effect_witness:
  "hm_get id 1 (ec_store (snd (expiring_cache_set id (\<lambda>v. Some True) 1 11 (ec_demo None)))) = Some 11 \<and>
   ec_evictions (snd (expiring_cache_set id (\<lambda>v. Some True) 1 11 (ec_demo None))) = 1"
  using expiring_cache_set_effect [OF prod.collapse [symmetric], of id "\<lambda>v. Some True" 1 11 "ec_demo None"]
  by (simp add: ec_demo_def a_find_def)

text \<open>
  C10. \<open>cache_remove\<close> asks the value whether it has expired after it has taken the value out: when that
  panics, the entry is gone although it was neither counted nor reported.
\<close>

theorem expiring_remove_uncounted:
  assumes "a_find bk q (ec_store c) = Some (k, v)" "exp v = None"
  shows "expiring_cache_remove bk exp q c = (Panics, c\<lparr>ec_store := a_without bk q (ec_store c)\<rparr>)"
  using assms by (simp add: expiring_cache_remove_def hm_remove_entry_def ec_apply)

theorem expiring_remove_uncounted_witness:
  "expiring_cache_remove id (\<lambda>v. None) 1 (ec_demo None) = (Panics, (ec_demo None)\<lparr>ec_store := [(2, 20)]\<rparr>)"
  using expiring_remove_uncounted [of id 1 "ec_demo None" 1 10 "\<lambda>v. None"]
  by (simp add: ec_demo_def a_find_def a_without_def)

section \<open>Executions\<close>

datatype (plugins only: code size) (dead 'k, dead 'v, dead 'q, dead 'e) expiring_op =
    EGet "'v expires" 'q
  | EGetMut "'v expires" 'q "'v \<Rightarrow> 'v"
  | EGetStatus "'v expires" 'q
  | ESet "'v expires" 'k 'v
  | EGetOrSet "'v expires" 'k "'v outcome" "'v \<Rightarrow> 'v"
  | ETryGetOrSet "'v expires" 'k "('e + 'v) outcome" "'v \<Rightarrow> 'v"
  | EAsyncGetOrSet "'v expires" 'k "'v outcome" "'v \<Rightarrow> 'v"
  | EAsyncTryGetOrSet "'v expires" 'k "('e + 'v) outcome" "'v \<Rightarrow> 'v"
  | ERemove "'v expires" 'q
  | ERemoveEntry 'q
  | EContains "'v expires" 'q
  | ERetain "'v expires" "('k, 'v) predicate"
  | EEvict "'v expires"
  | EClear
  | EClearWithOnEvict
  | EResetMetrics
  | EReset

datatype (plugins only: code size) (dead 'k, dead 'v, dead 'e) expiring_result =
    EUnit | EValue 'v | ETry "'e + 'v" | ELookup "'v option" | EStatus "'v option \<times> bool"
  | EEntry "('k \<times> 'v) option" | EBool bool | ECount usize

fun expiring_exec :: "('k \<Rightarrow> 'q) \<Rightarrow> ('k, 'v, 'q, 'e) expiring_op
    \<Rightarrow> (('k, 'v) expiring_cache, ('k, 'v, 'e) expiring_result) comp" where
  "expiring_exec bk (EGet exp q) = as_result (expiring_cache_get bk exp q) ELookup"
| "expiring_exec bk (EGetMut exp q upd) = as_result (expiring_cache_get_mut bk exp q upd) ELookup"
| "expiring_exec bk (EGetStatus exp q) = as_result (expiring_cache_get_with_expiry_status bk exp q) EStatus"
| "expiring_exec bk (ESet exp k v) = as_result (expiring_cache_set bk exp k v) ELookup"
| "expiring_exec bk (EGetOrSet exp k f upd) =
     as_result (expiring_cache_get_or_set_with_mut bk exp k f upd) EValue"
| "expiring_exec bk (ETryGetOrSet exp k f upd) =
     as_result (expiring_cache_try_get_or_set_with_mut bk exp k f upd) ETry"
| "expiring_exec bk (EAsyncGetOrSet exp k f upd) =
     as_result (expiring_async_cache_get_or_set_with_mut bk exp k f upd) EValue"
| "expiring_exec bk (EAsyncTryGetOrSet exp k f upd) =
     as_result (expiring_async_cache_try_get_or_set_with_mut bk exp k f upd) ETry"
| "expiring_exec bk (ERemove exp q) = as_result (expiring_cache_remove bk exp q) ELookup"
| "expiring_exec bk (ERemoveEntry q) = as_result (expiring_cache_remove_entry bk q) EEntry"
| "expiring_exec bk (EContains exp q) = as_result (expiring_cache_contains bk exp q) EBool"
| "expiring_exec bk (ERetain exp keep) = as_result (expiring_retain exp keep) ECount"
| "expiring_exec bk (EEvict exp) = as_result (expiring_evict exp) ECount"
| "expiring_exec bk EClear = as_result expiring_cache_clear (\<lambda>_. EUnit)"
| "expiring_exec bk EClearWithOnEvict = as_result expiring_cache_clear_with_on_evict (\<lambda>_. EUnit)"
| "expiring_exec bk EResetMetrics = as_result expiring_cache_reset_metrics (\<lambda>_. EUnit)"
| "expiring_exec bk EReset = as_result expiring_cache_reset (\<lambda>_. EUnit)"

definition ec_inv :: "('k \<Rightarrow> 'q) \<Rightarrow> ('k, 'v) callback \<Rightarrow> ('k, 'v) expiring_cache \<Rightarrow> bool" where
  "ec_inv bk cb c \<longleftrightarrow> ec_wf bk c \<and> ec_on_evict c = Some cb \<and> quiet (Some cb) \<and>
     ec_evictions c = of_nat (length (ec_calls c))"

lemma expiring_async_eq:
  "expiring_async_cache_get_or_set_with_mut = expiring_cache_get_or_set_with_mut"
  "expiring_async_cache_try_get_or_set_with_mut = expiring_cache_try_get_or_set_with_mut"
  unfolding expiring_async_cache_get_or_set_with_mut_def expiring_cache_get_or_set_with_mut_def
    expiring_async_cache_try_get_or_set_with_mut_def expiring_cache_try_get_or_set_with_mut_def
    await_run_closure by simp_all

lemma ec_inv_parts [keeps_rules]:
  "keeps (ec_inv bk cb) ec_hit" "keeps (ec_inv bk cb) ec_miss" "keeps (ec_inv bk cb) (ec_report k v)"
  "keeps (ec_inv bk cb) (ec_write bk q upd)" "keeps (ec_inv bk cb) (expiring_notify_evicted kvs)"
  by (auto simp: keeps_def ec_inv_def ec_wf_def ec_apply expiring_notify_evicted_apply processed_all)

lemma ec_inv_set_store [keeps_rules]: "a_wf bk m \<Longrightarrow> keeps (ec_inv bk cb) (ec_set_store m)"
  by (simp add: keeps_def ec_inv_def ec_wf_def ec_apply)

lemma ec_inv_a_wf: "ec_inv bk cb c \<Longrightarrow> a_wf bk (ec_store c)"
  by (simp add: ec_inv_def ec_wf_def)

lemma ec_inv_take_doomed [keeps_rules]: "keeps (ec_inv bk cb) (expiring_take_doomed doomed)"
  unfolding expiring_take_doomed_def
  by (rule keeps_read, rule keeps_expect) (auto intro!: keeps_rules dest: a_wf_take_doomed ec_inv_a_wf)

lemma ec_inv_lookups [keeps_rules]:
  "keeps (ec_inv bk cb) (expiring_cache_get bk exp q)"
  "keeps (ec_inv bk cb) (expiring_cache_get_mut bk exp q upd)"
  "keeps (ec_inv bk cb) (expiring_cache_get_with_expiry_status bk exp q)"
  "keeps (ec_inv bk cb) (expiring_cache_remove bk exp q)"
  "keeps (ec_inv bk cb) (expiring_cache_remove_entry bk q)"
  "keeps (ec_inv bk cb) (expiring_cache_peek bk exp q)"
  unfolding expiring_cache_get_def expiring_cache_get_mut_def expiring_cache_get_with_expiry_status_def
    expiring_cache_remove_def expiring_cache_remove_entry_def expiring_cache_peek_def
    hm_remove_entry_def prod.case expect_def
  by (rule keeps_read; auto split: option.split intro!: keeps_rules a_wf_without dest: ec_inv_a_wf)+

lemma ec_inv_sets [keeps_rules]:
  "keeps (ec_inv bk cb) (expiring_cache_set bk exp key val)"
  "keeps (ec_inv bk cb) (expiring_cache_get_or_set_with_mut bk exp key f upd)"
  "keeps (ec_inv bk cb) (expiring_cache_try_get_or_set_with_mut bk exp key g upd)"
  unfolding expiring_cache_set_def expiring_cache_get_or_set_with_mut_def
    expiring_cache_try_get_or_set_with_mut_def expect_def
  by (rule keeps_read; auto split: option.split intro!: keeps_rules a_wf_insert dest: ec_inv_a_wf)+

lemma ec_inv_rest [keeps_rules]:
  "keeps (ec_inv bk cb) expiring_cache_clear" "keeps (ec_inv bk cb) expiring_cache_clear_with_on_evict"
  "keeps (ec_inv bk cb) (expiring_evict exp)" "keeps (ec_inv bk cb) (expiring_retain exp keep)"
  "keeps (ec_inv bk cb) (expiring_cache_contains bk exp q)"
proof -
  show "keeps (ec_inv bk cb) expiring_cache_clear"
    unfolding expiring_cache_clear_def by (intro keeps_rules) simp
  show "keeps (ec_inv bk cb) expiring_cache_clear_with_on_evict"
    by (auto simp: keeps_def expiring_cache_clear_with_on_evict_def andthen_apply get_state_apply
        ec_set_store_def modify_apply ec_count_batch ec_notify_all ec_inv_def ec_wf_def processed_all)
qed (unfold expiring_evict_def expiring_retain_def expiring_cache_contains_def, (intro keeps_rules)+)

lemma ec_inv_exec:
  "op \<noteq> EResetMetrics \<Longrightarrow> op \<noteq> EReset \<Longrightarrow> keeps (ec_inv bk cb) (expiring_exec bk op)"
  by (cases op) (simp_all only: expiring_exec.simps expiring_async_eq simp_thms, (intro keeps_rules)+)

text \<open>
  Over any sequence of calls without a reset, whatever the values answer about their expiry (or
  panic), the eviction counter of an \<open>ExpiringCache\<close> equals the number of calls the callback has
  received (modulo \<open>2 ^ 64\<close>), and the keys of the cache stay distinct.
\<close>

theorem expiring_evictions_reported_once:
  assumes "expiring_build b = Inr c" "ecb_on_evict b = Some cb" "quiet (Some cb)"
    and "execution (expiring_exec bk) c tr d" "\<And>op. op \<in> set (map fst tr) \<Longrightarrow> op \<noteq> EResetMetrics \<and> op \<noteq> EReset"
  shows "ec_evictions d = of_nat (length (ec_calls d)) \<and> ec_wf bk d"
proof -
  have "ec_inv bk cb c"
    using assms(1-3) by (auto simp: expiring_build_def ec_inv_def ec_wf_def)
  with assms(4,5) have "ec_inv bk cb d"
  proof (induction rule: execution.induct)
    case (call tr s op r t)
    then show ?case using keepsD [OF ec_inv_exec [of op bk cb], of s] by simp
  qed
  then show ?thesis by (simp add: ec_inv_def)
qed

abbreviation "ec_demo_run \<equiv> run (expiring_exec id)
  [ESet (\<lambda>_. Some False) 1 10, ESet (\<lambda>_. Some True) 1 11, ERemove (\<lambda>_. Some False) 1 :: (nat, nat, nat, unit) expiring_op]
  \<lparr>ec_store = [], ec_initial_capacity = None, ec_hits = 0, ec_misses = 0, ec_evictions = 0,
    ec_on_evict = Some (\<lambda>k v. True), ec_calls = []\<rparr>"

theorem expiring_evictions_reported_once_witness:
  "ec_evictions (snd ec_demo_run) = of_nat (length (ec_calls (snd ec_demo_run))) \<and>
   ec_calls (snd ec_demo_run) = [(1, 10), (1, 11)]"
proof -
  have "expiring_build \<lparr>ecb_capacity = None, ecb_on_evict = Some (\<lambda>k v. True)\<rparr> =
      Inr \<lparr>ec_store = [], ec_initial_capacity = None, ec_hits = 0, ec_misses = 0, ec_evictions = 0,
        ec_on_evict = Some (\<lambda>k v. True), ec_calls = []\<rparr>"
    by (simp add: expiring_build_def)
  then have "ec_evictions (snd ec_demo_run) = of_nat (length (ec_calls (snd ec_demo_run)))"
    by (rule expiring_evictions_reported_once [OF _ _ _ run_execution, THEN conjunct1])
      (simp_all only: run_ops, auto simp: quiet_def)
  moreover have "ec_calls (snd ec_demo_run) = [(1, 10), (1, 11)]" by code_simp
  ultimately show ?thesis by (rule conjI)
qed

end
