(* ===== verification/Lru_Ttl_Cache.thy ===== *)
theory Lru_Ttl_Cache
  imports Lru_Cache Ttl_Cache
begin

text \<open>
  \<open>src/stores/lru_ttl.rs\<close>: \<open>LruTtlCache\<close>, an \<open>LruCache\<close> of timed entries. The wrapper counts hits and
  misses itself (tracking of the inner store is switched off) and adds its evictions to those of the
  inner store. The record is polymorphic in the inner store: the code has an \<open>lru_cache\<close> there, the
  specification in \<open>Lru_Ttl_Refine\<close> the abstract LRU cache.

  The user's callback is called by the wrapper and, through a closure that unpacks the entry, by the
  inner store when it evicts over capacity. \<open>lt_calls\<close> is the trace of all its calls: \<open>lt_inner\<close> runs an
  operation of the inner store and moves the calls it made to the trace of the wrapper. Liveness and
  expiry computation are those of \<open>Ttl_Cache\<close> (the source repeats the functions).
\<close>

record ('k, 'v, 's) lttl_cache =
  lt_store :: 's
  lt_size :: usize
  lt_ttl :: duration
  lt_hits :: u64
  lt_misses :: u64
  lt_evictions :: u64
  lt_refresh :: bool
  lt_on_evict :: "('k, 'v) callback option"
  lt_calls :: "('k, 'v) trace"

type_synonym ('k, 'v, 'q, 't) lttl = "('k, 'v, ('k, 'v timed_entry, 'q, 't) lru_cache) lttl_cache"

section \<open>Building\<close>

record ('k, 'v, 'q) lttl_builder =
  ltb_size :: "usize option"
  ltb_ttl :: "duration option"
  ltb_refresh :: bool
  ltb_on_evict :: "('k, 'v) callback option"
  ltb_hasher :: "'q \<Rightarrow> u64"

definition lttl_builder_default :: "('q \<Rightarrow> u64) \<Rightarrow> ('k, 'v, 'q) lttl_builder" where
  "lttl_builder_default hb = \<lparr>ltb_size = None, ltb_ttl = None, ltb_refresh = False, ltb_on_evict = None,
     ltb_hasher = hb\<rparr>"

definition lttl_builder_max_size :: "usize \<Rightarrow> ('k, 'v, 'q) lttl_builder \<Rightarrow> ('k, 'v, 'q) lttl_builder" where
  "lttl_builder_max_size n b = b\<lparr>ltb_size := Some n\<rparr>"

definition lttl_builder_ttl :: "duration \<Rightarrow> ('k, 'v, 'q) lttl_builder \<Rightarrow> ('k, 'v, 'q) lttl_builder" where
  "lttl_builder_ttl ttl b = b\<lparr>ltb_ttl := Some ttl\<rparr>"

definition lttl_builder_ttl_secs :: "nat \<Rightarrow> ('k, 'v, 'q) lttl_builder \<Rightarrow> ('k, 'v, 'q) lttl_builder" where
  "lttl_builder_ttl_secs secs b = lttl_builder_ttl (secs * 1000000000) b"

definition lttl_builder_ttl_millis :: "nat \<Rightarrow> ('k, 'v, 'q) lttl_builder \<Rightarrow> ('k, 'v, 'q) lttl_builder" where
  "lttl_builder_ttl_millis millis b = lttl_builder_ttl (millis * 1000000) b"

definition lttl_builder_refresh_on_hit :: "bool \<Rightarrow> ('k, 'v, 'q) lttl_builder \<Rightarrow> ('k, 'v, 'q) lttl_builder" where
  "lttl_builder_refresh_on_hit r b = b\<lparr>ltb_refresh := r\<rparr>"

definition lttl_builder_hasher :: "('r \<Rightarrow> u64) \<Rightarrow> ('k, 'v, 'q) lttl_builder \<Rightarrow> ('k, 'v, 'r) lttl_builder" where
  "lttl_builder_hasher h b = \<lparr>ltb_size = ltb_size b, ltb_ttl = ltb_ttl b, ltb_refresh = ltb_refresh b,
     ltb_on_evict = ltb_on_evict b, ltb_hasher = h\<rparr>"

definition lttl_builder_on_evict ::
    "('k, 'v) callback \<Rightarrow> ('k, 'v, 'q) lttl_builder \<Rightarrow> ('k, 'v, 'q) lttl_builder" where
  "lttl_builder_on_evict f b = \<lparr>ltb_size = ltb_size b, ltb_ttl = ltb_ttl b, ltb_refresh = ltb_refresh b,
     ltb_on_evict = Some f, ltb_hasher = ltb_hasher b\<rparr>"

definition lttl_new_internal :: "'t table_ops \<Rightarrow> (usize \<Rightarrow> bool) \<Rightarrow> (usize \<Rightarrow> bool) \<Rightarrow> usize \<Rightarrow> duration
    \<Rightarrow> bool \<Rightarrow> ('q \<Rightarrow> u64) \<Rightarrow> build_error + ('k, 'v, 'q, 't) lttl" where
  "lttl_new_internal T table_alloc list_alloc max_size ttl refresh hasher =
     (case lru_build T table_alloc list_alloc
         (lru_builder_hasher hasher (lru_builder_max_size max_size (lru_builder_default hasher))) of
        Inl e \<Rightarrow> Inl e
      | Inr store \<Rightarrow> Inr \<lparr>lt_store = lru_disable_hit_miss_tracking store, lt_size = max_size, lt_ttl = ttl,
          lt_hits = 0, lt_misses = 0, lt_evictions = 0, lt_refresh = refresh, lt_on_evict = None,
          lt_calls = []\<rparr>)"

definition lttl_callback :: "('k, 'v) callback \<Rightarrow> ('k, 'v timed_entry) callback" where
  "lttl_callback f = (\<lambda>k e. f k (te_value e))"

definition lttl_sync_on_evict :: "('k, 'v, 'q, 't) lttl \<Rightarrow> ('k, 'v, 'q, 't) lttl" where
  "lttl_sync_on_evict c = (case lt_on_evict c of
       None \<Rightarrow> c
     | Some f \<Rightarrow> c\<lparr>lt_store := (lt_store c)\<lparr>lru_on_evict := Some (lttl_callback f)\<rparr>\<rparr>)"

text \<open>The two \<open>build\<close> methods: without and with a callback.\<close>

definition lttl_build_no_evict :: "'t table_ops \<Rightarrow> (usize \<Rightarrow> bool) \<Rightarrow> (usize \<Rightarrow> bool)
    \<Rightarrow> ('k, 'v, 'q) lttl_builder \<Rightarrow> build_error + ('k, 'v, 'q, 't) lttl" where
  "lttl_build_no_evict T table_alloc list_alloc b = (case ltb_size b of
       None \<Rightarrow> Inl (MissingRequired ''max_size'')
     | Some max_size \<Rightarrow> (case ltb_ttl b of
         None \<Rightarrow> Inl (MissingRequired ''ttl'')
       | Some ttl \<Rightarrow> (case validate_ttl ttl of
           Inl e \<Rightarrow> Inl e
         | Inr _ \<Rightarrow> lttl_new_internal T table_alloc list_alloc max_size ttl (ltb_refresh b) (ltb_hasher b))))"

definition lttl_build :: "'t table_ops \<Rightarrow> (usize \<Rightarrow> bool) \<Rightarrow> (usize \<Rightarrow> bool)
    \<Rightarrow> ('k, 'v, 'q) lttl_builder \<Rightarrow> build_error + ('k, 'v, 'q, 't) lttl" where
  "lttl_build T table_alloc list_alloc b = (case ltb_size b of
       None \<Rightarrow> Inl (MissingRequired ''max_size'')
     | Some max_size \<Rightarrow> (case ltb_ttl b of
         None \<Rightarrow> Inl (MissingRequired ''ttl'')
       | Some ttl \<Rightarrow> (case validate_ttl ttl of
           Inl e \<Rightarrow> Inl e
         | Inr _ \<Rightarrow> (case lttl_new_internal T table_alloc list_alloc max_size ttl (ltb_refresh b) (ltb_hasher b) of
             Inl e \<Rightarrow> Inl e
           | Inr c \<Rightarrow> Inr (lttl_sync_on_evict (c\<lparr>lt_on_evict := ltb_on_evict b\<rparr>))))))"

definition lttl_new :: "'t table_ops \<Rightarrow> (usize \<Rightarrow> bool) \<Rightarrow> (usize \<Rightarrow> bool) \<Rightarrow> ('q \<Rightarrow> u64) \<Rightarrow> usize \<Rightarrow> duration
    \<Rightarrow> ('k, 'v, 'q, 't) lttl option" where
  "lttl_new T table_alloc list_alloc hb max_size ttl =
     (case lttl_build_no_evict T table_alloc list_alloc
         (lttl_builder_ttl ttl (lttl_builder_max_size max_size (lttl_builder_default hb))) of
        Inl _ \<Rightarrow> None | Inr c \<Rightarrow> Some c)"

definition lttl_clone :: "('k, 'v, 'q, 't) lttl \<Rightarrow> ('k, 'v, 'q, 't) lttl" where
  "lttl_clone c = \<lparr>lt_store = lru_clone (lt_store c), lt_size = lt_size c, lt_ttl = lt_ttl c,
     lt_hits = lt_hits c, lt_misses = lt_misses c, lt_evictions = lt_evictions c,
     lt_refresh = lt_refresh c, lt_on_evict = lt_on_evict c, lt_calls = lt_calls c\<rparr>"

section \<open>Parts of the operations\<close>

definition lt_inner :: "(('k, 'v timed_entry, 'q, 't) lru_cache, 'a) comp \<Rightarrow> (('k, 'v, 'q, 't) lttl, 'a) comp" where
  "lt_inner m c = (case m (lt_store c) of
       (r, s) \<Rightarrow> (r, c\<lparr>lt_store := s\<lparr>lru_calls := []\<rparr>,
                      lt_calls := lt_calls c @ map (apsnd te_value) (lru_calls s)\<rparr>))"

definition lt_hit :: "(('k, 'v, 's) lttl_cache, unit) comp" where
  "lt_hit = modify (\<lambda>c. c\<lparr>lt_hits := lt_hits c + 1\<rparr>)"

definition lt_miss :: "(('k, 'v, 's) lttl_cache, unit) comp" where
  "lt_miss = modify (\<lambda>c. c\<lparr>lt_misses := lt_misses c + 1\<rparr>)"

definition lt_count :: "nat \<Rightarrow> (('k, 'v, 's) lttl_cache, unit) comp" where
  "lt_count n = modify (\<lambda>c. c\<lparr>lt_evictions := lt_evictions c + of_nat n\<rparr>)"

definition lt_notify :: "'k \<Rightarrow> 'v \<Rightarrow> (('k, 'v, 's) lttl_cache, unit) comp" where
  "lt_notify k v c = notify lt_calls_update (lt_on_evict c) k v c"

definition lt_report :: "'k \<Rightarrow> 'v timed_entry \<Rightarrow> (('k, 'v, 's) lttl_cache, unit) comp" where
  "lt_report k e = andthen (lt_count 1) (\<lambda>_. lt_notify k (te_value e))"

definition lt_live :: "instant \<Rightarrow> 'v timed_entry \<Rightarrow> bool" where
  "lt_live now e = entry_live_at (te_expires_at e) now"

definition lt_refreshed :: "('k, 'v, 's) lttl_cache \<Rightarrow> instant \<Rightarrow> 'v timed_entry \<Rightarrow> 'v timed_entry" where
  "lt_refreshed c now e = e\<lparr>te_expires_at := refreshed_expires_at (lt_ttl c) now (te_expires_at e)\<rparr>"

definition lt_fresh :: "('k, 'v, 's) lttl_cache \<Rightarrow> instant \<Rightarrow> 'v \<Rightarrow> 'v timed_entry" where
  "lt_fresh c later v = \<lparr>te_expires_at = compute_expires_at (lt_ttl c) later, te_value = v\<rparr>"

definition lttl_set_entry :: "'t table_ops \<Rightarrow> ('k \<Rightarrow> 'q) \<Rightarrow> 'k \<Rightarrow> 'v timed_entry \<Rightarrow> instant
    \<Rightarrow> (('k, 'v, 'q, 't) lttl, 'v option) comp" where
  "lttl_set_entry T bk key entry now =
     andthen (lt_inner (lru_cache_set_returning_entry T bk key entry)) (\<lambda>displaced.
     case displaced of
       Some (stored_key, old) \<Rightarrow>
         if lt_live now old then ret (Some (te_value old))
         else andthen (lt_report stored_key old) (\<lambda>_. ret None)
     | None \<Rightarrow> ret None)"

section \<open>Order, capacity and sweeps\<close>

definition lttl_iter_order :: "instant \<Rightarrow> ('k, 'v, 'q, 't) lttl \<Rightarrow> ('k \<times> ('v, instant option) cache_value) list option" where
  "lttl_iter_order now c = map_option (\<lambda>kes.
     map (\<lambda>(k, e). (k, cache_value_new (te_value e) (te_expires_at e))) (filter (\<lambda>(k, e). lt_live now e) kes))
     (ll_iter (lru_order (lt_store c)))"

definition lttl_key_order :: "instant \<Rightarrow> ('k, 'v, 'q, 't) lttl \<Rightarrow> 'k list option" where
  "lttl_key_order now c =
     map_option (\<lambda>kes. map fst (filter (\<lambda>(k, e). lt_live now e) kes)) (ll_iter (lru_order (lt_store c)))"

definition lttl_value_order :: "instant \<Rightarrow> ('k, 'v, 'q, 't) lttl \<Rightarrow> ('v, instant option) cache_value list option" where
  "lttl_value_order now c = map_option (\<lambda>kes.
     map (\<lambda>(k, e). cache_value_new (te_value e) (te_expires_at e)) (filter (\<lambda>(k, e). lt_live now e) kes))
     (ll_iter (lru_order (lt_store c)))"

text \<open>The lazy iterator reads the clock at every item: \<open>clock i\<close> is the reading at the \<open>i\<close>-th.\<close>

definition lttl_iter :: "(nat \<Rightarrow> instant) \<Rightarrow> ('k, 'v, 'q, 't) lttl \<Rightarrow> ('k \<times> 'v) list option" where
  "lttl_iter clock c = map_option (ttl_iter_from clock 0) (ll_iter (lru_order (lt_store c)))"

definition lttl_capacity :: "('k, 'v, 'q, 't) lttl \<Rightarrow> usize" where
  "lttl_capacity c = lt_size c"

definition lttl_set_max_size :: "'t table_ops \<Rightarrow> ('k \<Rightarrow> 'q) \<Rightarrow> usize
    \<Rightarrow> (('k, 'v, 'q, 't) lttl, usize option) comp" where
  "lttl_set_max_size T bk max_size =
     (if max_size = 0 then panic
      else andthen (lt_inner (lru_set_max_size T bk max_size)) (\<lambda>prev.
        andthen (modify (\<lambda>c. c\<lparr>lt_size := lru_capacity (lt_store c)\<rparr>)) (\<lambda>_. ret prev)))"

definition lttl_try_set_max_size :: "'t table_ops \<Rightarrow> ('k \<Rightarrow> 'q) \<Rightarrow> usize
    \<Rightarrow> (('k, 'v, 'q, 't) lttl, set_max_size_error + usize option) comp" where
  "lttl_try_set_max_size T bk max_size =
     (if max_size = 0 then ret (Inl ZeroMaxSize)
      else andthen (lttl_set_max_size T bk max_size) (\<lambda>p. ret (Inr p)))"

definition lttl_doomed_indices :: "('k \<Rightarrow> 'v timed_entry \<Rightarrow> bool option) \<Rightarrow> ('k, 'v, 'q, 't) lttl
    \<Rightarrow> usize list option" where
  "lttl_doomed_indices doomed c = do {
     is \<leftarrow> ll_iter_indices (lru_order (lt_store c));
     filter_closure (\<lambda>i. do { kv \<leftarrow> ll_get i (lru_order (lt_store c)); doomed (fst kv) (snd kv) }) is
   }"

fun lttl_remove_all :: "'t table_ops \<Rightarrow> ('k \<Rightarrow> 'q) \<Rightarrow> usize list
    \<Rightarrow> (('k, 'v, 'q, 't) lttl, ('k \<times> 'v timed_entry) list) comp" where
  "lttl_remove_all T bk [] = ret []"
| "lttl_remove_all T bk (i # is) =
     andthen (lt_inner (lru_remove_index T bk i)) (\<lambda>kv.
     andthen (lttl_remove_all T bk is) (\<lambda>kvs. ret (kv # kvs)))"

definition lttl_notify_all :: "('k \<times> 'v timed_entry) list \<Rightarrow> (('k, 'v, 's) lttl_cache, usize) comp" where
  "lttl_notify_all removed =
     andthen (cwhen (removed \<noteq> []) (lt_count (length removed))) (\<lambda>_.
     andthen (foreach removed (\<lambda>(k, e). lt_notify k (te_value e))) (\<lambda>_.
     ret (length removed)))"

definition lttl_remove_and_notify :: "'t table_ops \<Rightarrow> ('k \<Rightarrow> 'q) \<Rightarrow> usize list
    \<Rightarrow> (('k, 'v, 'q, 't) lttl, usize) comp" where
  "lttl_remove_and_notify T bk doomed = andthen (lttl_remove_all T bk doomed) lttl_notify_all"

definition lttl_evict :: "'t table_ops \<Rightarrow> ('k \<Rightarrow> 'q) \<Rightarrow> instant \<Rightarrow> (('k, 'v, 'q, 't) lttl, usize) comp" where
  "lttl_evict T bk now =
     andthen get_state (\<lambda>c.
     andthen (expect (lttl_doomed_indices (\<lambda>k e. Some (\<not> lt_live now e)) c))
       (lttl_remove_and_notify T bk))"

definition lttl_retain :: "'t table_ops \<Rightarrow> ('k \<Rightarrow> 'q) \<Rightarrow> ('k, 'v) predicate \<Rightarrow> instant
    \<Rightarrow> (('k, 'v, 'q, 't) lttl, usize) comp" where
  "lttl_retain T bk keep now =
     andthen get_state (\<lambda>c.
     andthen (expect (lttl_doomed_indices (\<lambda>k e.
         if \<not> lt_live now e then Some True else map_option Not (keep k (te_value e))) c))
       (lttl_remove_and_notify T bk))"

definition lttl_cache_clear_with_on_evict :: "'t table_ops \<Rightarrow> (('k, 'v, 'q, 't) lttl, unit) comp" where
  "lttl_cache_clear_with_on_evict T =
     andthen (lt_inner (lru_drain_all T)) (\<lambda>removed.
     andthen (lttl_notify_all removed) (\<lambda>_. ret ()))"

section \<open>The \<open>Cached\<close> interface\<close>

text \<open>Writing through the slot of an entry: \<open>refresh\<close> first, then what the caller writes.\<close>

definition lt_update_slot :: "usize \<Rightarrow> ('v timed_entry \<Rightarrow> 'v timed_entry)
    \<Rightarrow> (('k, 'v, 'q, 't) lttl, 'k \<times> 'v timed_entry) comp" where
  "lt_update_slot index f = lt_inner (lru_on_order (ll_get_mut index (apsnd f)))"

definition lt_refresh_slot :: "usize \<Rightarrow> instant \<Rightarrow> (('k, 'v, 'q, 't) lttl, unit) comp" where
  "lt_refresh_slot index now =
     andthen get_state (\<lambda>c. cwhen (lt_refresh c)
       (andthen (lt_update_slot index (lt_refreshed c now)) (\<lambda>_. ret ())))"

definition lt_expire :: "'t table_ops \<Rightarrow> ('k \<Rightarrow> 'q) \<Rightarrow> u64 \<Rightarrow> 'q \<Rightarrow> (('k, 'v, 'q, 't) lttl, unit) comp" where
  "lt_expire T bk h q =
     andthen (lt_inner (lru_pop_raw_with_hash T bk h q)) (\<lambda>popped. case popped of
       Some (k, e) \<Rightarrow> lt_report k e
     | None \<Rightarrow> ret ())"

definition lttl_cache_get :: "'t table_ops \<Rightarrow> ('k \<Rightarrow> 'q) \<Rightarrow> instant \<Rightarrow> 'q
    \<Rightarrow> (('k, 'v, 'q, 't) lttl, 'v option) comp" where
  "lttl_cache_get T bk now q =
     andthen get_state (\<lambda>c.
     let h = lru_hash q (lt_store c) in
     andthen (expect (lru_get_index T bk h q (lt_store c))) (\<lambda>found.
     case found of
       Some index \<Rightarrow>
         andthen (expect (ll_get index (lru_order (lt_store c)))) (\<lambda>kv.
         if lt_live now (snd kv)
         then andthen (lt_inner (lru_move index)) (\<lambda>_.
              andthen lt_hit (\<lambda>_.
              andthen (lt_refresh_slot index now) (\<lambda>_.
              andthen get_state (\<lambda>c1.
              andthen (expect (ll_get index (lru_order (lt_store c1)))) (\<lambda>kv.
              ret (Some (te_value (snd kv))))))))
         else andthen lt_miss (\<lambda>_. andthen (lt_expire T bk h q) (\<lambda>_. ret None)))
     | None \<Rightarrow> andthen lt_miss (\<lambda>_. ret None)))"

definition lttl_cache_get_mut :: "'t table_ops \<Rightarrow> ('k \<Rightarrow> 'q) \<Rightarrow> instant \<Rightarrow> 'q \<Rightarrow> ('v \<Rightarrow> 'v)
    \<Rightarrow> (('k, 'v, 'q, 't) lttl, 'v option) comp" where
  "lttl_cache_get_mut T bk now q upd =
     andthen get_state (\<lambda>c.
     let h = lru_hash q (lt_store c) in
     andthen (expect (lru_get_index T bk h q (lt_store c))) (\<lambda>found.
     case found of
       Some index \<Rightarrow>
         andthen (expect (ll_get index (lru_order (lt_store c)))) (\<lambda>kv.
         if lt_live now (snd kv)
         then andthen (lt_inner (lru_move index)) (\<lambda>_.
              andthen lt_hit (\<lambda>_.
              andthen (lt_refresh_slot index now) (\<lambda>_.
              andthen (lt_update_slot index (te_value_update upd)) (\<lambda>kv.
              ret (Some (te_value (snd kv)))))))
         else andthen lt_miss (\<lambda>_. andthen (lt_expire T bk h q) (\<lambda>_. ret None)))
     | None \<Rightarrow> andthen lt_miss (\<lambda>_. ret None)))"

text \<open>
  Get-or-set hands the inner store a setter that first counts the miss and then runs the factory, so
  the miss is counted exactly when the inner store runs the setter: when it finds no live entry.
  \<open>upd\<close> is what is written through the returned reference: the refreshed expiry on a hit, then the
  caller's update.
\<close>

definition lt_runs_setter :: "'t table_ops \<Rightarrow> ('k \<Rightarrow> 'q) \<Rightarrow> instant \<Rightarrow> 'q \<Rightarrow> ('k, 'v, 'q, 't) lttl \<Rightarrow> bool option" where
  "lt_runs_setter T bk now q c = do {
     found \<leftarrow> lru_get_index T bk (lru_hash q (lt_store c)) q (lt_store c);
     case found of
       None \<Rightarrow> Some True
     | Some i \<Rightarrow> map_option (\<lambda>kv. \<not> lt_live now (snd kv)) (ll_get i (lru_order (lt_store c)))
   }"

definition lt_through_ref :: "('k, 'v, 's) lttl_cache \<Rightarrow> instant \<Rightarrow> bool \<Rightarrow> ('v \<Rightarrow> 'v)
    \<Rightarrow> 'v timed_entry \<Rightarrow> 'v timed_entry" where
  "lt_through_ref c now setter_ran upd e =
     te_value_update upd (if \<not> setter_ran \<and> lt_refresh c then lt_refreshed c now e else e)"

definition lt_settle :: "('k, 'v timed_entry) get_or_set_outcome \<Rightarrow> (('k, 'v, 's) lttl_cache, 'v) comp" where
  "lt_settle out = (case out of (was_present, was_valid, old_entry, entry) \<Rightarrow>
     andthen (if was_present \<and> was_valid then lt_hit
       else (case old_entry of Some (k, old) \<Rightarrow> lt_report k old | None \<Rightarrow> ret ())) (\<lambda>_.
     ret (te_value entry)))"

definition lttl_cache_get_or_set_with_mut :: "'t table_ops \<Rightarrow> ('k \<Rightarrow> 'q) \<Rightarrow> instant \<Rightarrow> instant \<Rightarrow> 'k
    \<Rightarrow> 'v outcome \<Rightarrow> ('v \<Rightarrow> 'v) \<Rightarrow> (('k, 'v, 'q, 't) lttl, 'v) comp" where
  "lttl_cache_get_or_set_with_mut T bk now later key f upd =
     andthen get_state (\<lambda>c.
     andthen (expect (lt_runs_setter T bk now (bk key) c)) (\<lambda>setter_ran.
     andthen (cwhen setter_ran lt_miss) (\<lambda>_.
     andthen (lt_inner (lru_get_or_set_with_if T bk key (map_outcome (lt_fresh c later) f) (lt_live now)
       (lt_through_ref c now setter_ran upd))) lt_settle)))"

definition lttl_cache_try_get_or_set_with_mut :: "'t table_ops \<Rightarrow> ('k \<Rightarrow> 'q) \<Rightarrow> instant \<Rightarrow> instant \<Rightarrow> 'k
    \<Rightarrow> ('e + 'v) outcome \<Rightarrow> ('v \<Rightarrow> 'v) \<Rightarrow> (('k, 'v, 'q, 't) lttl, 'e + 'v) comp" where
  "lttl_cache_try_get_or_set_with_mut T bk now later key f upd =
     andthen get_state (\<lambda>c.
     andthen (expect (lt_runs_setter T bk now (bk key) c)) (\<lambda>setter_ran.
     andthen (cwhen setter_ran lt_miss) (\<lambda>_.
     andthen (lt_inner (lru_try_get_or_set_with_if T bk key
       (map_outcome (map_sum id (lt_fresh c later)) f) (lt_live now)
       (lt_through_ref c now setter_ran upd))) (\<lambda>r. case r of
         Inl e \<Rightarrow> ret (Inl e)
       | Inr out \<Rightarrow> andthen (lt_settle out) (\<lambda>v. ret (Inr v))))))"

definition lttl_async_cache_get_or_set_with_mut :: "'t table_ops \<Rightarrow> ('k \<Rightarrow> 'q) \<Rightarrow> instant \<Rightarrow> instant \<Rightarrow> 'k
    \<Rightarrow> 'v outcome \<Rightarrow> ('v \<Rightarrow> 'v) \<Rightarrow> (('k, 'v, 'q, 't) lttl, 'v) comp" where
  "lttl_async_cache_get_or_set_with_mut T bk now later key f upd =
     andthen get_state (\<lambda>c.
     andthen (expect (lt_runs_setter T bk now (bk key) c)) (\<lambda>setter_ran.
     andthen (cwhen setter_ran lt_miss) (\<lambda>_.
     andthen (lt_inner (lru_get_or_set_with_if_async T bk key (map_outcome (lt_fresh c later) f) (lt_live now)
       (lt_through_ref c now setter_ran upd))) lt_settle)))"

definition lttl_async_cache_try_get_or_set_with_mut :: "'t table_ops \<Rightarrow> ('k \<Rightarrow> 'q) \<Rightarrow> instant \<Rightarrow> instant \<Rightarrow> 'k
    \<Rightarrow> ('e + 'v) outcome \<Rightarrow> ('v \<Rightarrow> 'v) \<Rightarrow> (('k, 'v, 'q, 't) lttl, 'e + 'v) comp" where
  "lttl_async_cache_try_get_or_set_with_mut T bk now later key f upd =
     andthen get_state (\<lambda>c.
     andthen (expect (lt_runs_setter T bk now (bk key) c)) (\<lambda>setter_ran.
     andthen (cwhen setter_ran lt_miss) (\<lambda>_.
     andthen (lt_inner (lru_try_get_or_set_with_if_async T bk key
       (map_outcome (map_sum id (lt_fresh c later)) f) (lt_live now)
       (lt_through_ref c now setter_ran upd))) (\<lambda>r. case r of
         Inl e \<Rightarrow> ret (Inl e)
       | Inr out \<Rightarrow> andthen (lt_settle out) (\<lambda>v. ret (Inr v))))))"

definition lttl_cache_set :: "'t table_ops \<Rightarrow> ('k \<Rightarrow> 'q) \<Rightarrow> instant \<Rightarrow> 'k \<Rightarrow> 'v
    \<Rightarrow> (('k, 'v, 'q, 't) lttl, 'v option) comp" where
  "lttl_cache_set T bk now key val =
     andthen get_state (\<lambda>c. lttl_set_entry T bk key (lt_fresh c now val) now)"

definition lttl_cache_remove :: "'t table_ops \<Rightarrow> ('k \<Rightarrow> 'q) \<Rightarrow> instant \<Rightarrow> 'q
    \<Rightarrow> (('k, 'v, 'q, 't) lttl, 'v option) comp" where
  "lttl_cache_remove T bk now q =
     andthen (lt_inner (lru_pop_raw T bk q)) (\<lambda>popped. case popped of
       Some (k, e) \<Rightarrow>
         let live = lt_live now e in
         andthen (lt_report k e) (\<lambda>_. ret (if live then Some (te_value e) else None))
     | None \<Rightarrow> ret None)"

definition lttl_cache_remove_entry :: "'t table_ops \<Rightarrow> ('k \<Rightarrow> 'q) \<Rightarrow> 'q
    \<Rightarrow> (('k, 'v, 'q, 't) lttl, ('k \<times> 'v) option) comp" where
  "lttl_cache_remove_entry T bk q =
     andthen (lt_inner (lru_pop_raw T bk q)) (\<lambda>popped. case popped of
       Some (k, e) \<Rightarrow> andthen (lt_report k e) (\<lambda>_. ret (Some (k, te_value e)))
     | None \<Rightarrow> ret None)"

definition lttl_cache_clear :: "'t table_ops \<Rightarrow> (('k, 'v, 'q, 't) lttl, unit) comp" where
  "lttl_cache_clear T = lt_inner (lru_cache_clear T)"

definition lttl_cache_reset :: "'t table_ops \<Rightarrow> (usize \<Rightarrow> bool) \<Rightarrow> (('k, 'v, 'q, 't) lttl, unit) comp" where
  "lttl_cache_reset T list_alloc =
     andthen (lt_inner (lru_cache_reset T list_alloc)) (\<lambda>_.
     modify (\<lambda>c. c\<lparr>lt_hits := 0, lt_misses := 0, lt_evictions := 0\<rparr>))"

definition lttl_cache_reset_metrics :: "(('k, 'v, 'q, 't) lttl, unit) comp" where
  "lttl_cache_reset_metrics =
     andthen (modify (\<lambda>c. c\<lparr>lt_misses := 0, lt_hits := 0, lt_evictions := 0\<rparr>)) (\<lambda>_.
     lt_inner lru_cache_reset_metrics)"

definition lttl_cache_size :: "'t table_ops \<Rightarrow> ('k, 'v, 'q, 't) lttl \<Rightarrow> usize" where
  "lttl_cache_size T c = lru_cache_size T (lt_store c)"

definition lttl_cache_hits :: "('k, 'v, 's) lttl_cache \<Rightarrow> u64 option" where
  "lttl_cache_hits c = Some (lt_hits c)"

definition lttl_cache_misses :: "('k, 'v, 's) lttl_cache \<Rightarrow> u64 option" where
  "lttl_cache_misses c = Some (lt_misses c)"

definition lttl_cache_evictions :: "('k, 'v, 'q, 't) lttl \<Rightarrow> u64 option" where
  "lttl_cache_evictions c = Some (lt_evictions c +
     (case lru_cache_evictions (lt_store c) of Some n \<Rightarrow> n | None \<Rightarrow> 0))"

definition lttl_cache_capacity :: "('k, 'v, 'q, 't) lttl \<Rightarrow> usize option" where
  "lttl_cache_capacity c = Some (lt_size c)"

definition lttl_cache_peek :: "'t table_ops \<Rightarrow> ('k \<Rightarrow> 'q) \<Rightarrow> instant \<Rightarrow> 'q
    \<Rightarrow> (('k, 'v, 'q, 't) lttl, 'v option) comp" where
  "lttl_cache_peek T bk now q =
     andthen (lt_inner (lru_cache_peek T bk q)) (\<lambda>e. ret (case e of
       Some e \<Rightarrow> if lt_live now e then Some (te_value e) else None | None \<Rightarrow> None))"

definition lttl_cache_contains :: "'t table_ops \<Rightarrow> ('k \<Rightarrow> 'q) \<Rightarrow> instant \<Rightarrow> 'q
    \<Rightarrow> (('k, 'v, 'q, 't) lttl, bool) comp" where
  "lttl_cache_contains T bk now q = andthen (lttl_cache_peek T bk now q) (\<lambda>v. ret (v \<noteq> None))"

definition lttl_ttl :: "('k, 'v, 's) lttl_cache \<Rightarrow> duration option" where
  "lttl_ttl c = (if lt_ttl c = 0 then None else Some (lt_ttl c))"

definition lttl_set_ttl :: "duration \<Rightarrow> (('k, 'v, 's) lttl_cache, duration option) comp" where
  "lttl_set_ttl ttl = andthen get_state (\<lambda>c.
     andthen (modify (\<lambda>c. c\<lparr>lt_ttl := ttl\<rparr>)) (\<lambda>_. ret (if lt_ttl c = 0 then None else Some (lt_ttl c))))"

definition lttl_unset_ttl :: "(('k, 'v, 's) lttl_cache, duration option) comp" where
  "lttl_unset_ttl = andthen get_state (\<lambda>c.
     andthen (modify (\<lambda>c. c\<lparr>lt_ttl := 0\<rparr>)) (\<lambda>_. ret (if lt_ttl c = 0 then None else Some (lt_ttl c))))"

definition lttl_refresh_on_hit :: "('k, 'v, 's) lttl_cache \<Rightarrow> bool" where
  "lttl_refresh_on_hit c = lt_refresh c"

definition lttl_set_refresh_on_hit :: "bool \<Rightarrow> (('k, 'v, 's) lttl_cache, bool) comp" where
  "lttl_set_refresh_on_hit refresh = andthen get_state (\<lambda>c.
     andthen (modify (\<lambda>c. c\<lparr>lt_refresh := refresh\<rparr>)) (\<lambda>_. ret (lt_refresh c)))"

definition lttl_cache_get_with_expiry_status :: "'t table_ops \<Rightarrow> ('k \<Rightarrow> 'q) \<Rightarrow> instant \<Rightarrow> 'q
    \<Rightarrow> (('k, 'v, 'q, 't) lttl, 'v option \<times> bool) comp" where
  "lttl_cache_get_with_expiry_status T bk now q =
     andthen get_state (\<lambda>c.
     andthen (expect (lru_get_index T bk (lru_hash q (lt_store c)) q (lt_store c))) (\<lambda>found.
     case found of
       Some index \<Rightarrow>
         andthen (expect (ll_get index (lru_order (lt_store c)))) (\<lambda>kv.
         if \<not> lt_live now (snd kv)
         then andthen lt_miss (\<lambda>_. ret (Some (te_value (snd kv)), True))
         else andthen (lt_inner (lru_move index)) (\<lambda>_.
              andthen lt_hit (\<lambda>_.
              andthen (lt_refresh_slot index now) (\<lambda>_.
              andthen get_state (\<lambda>c1.
              andthen (expect (ll_get index (lru_order (lt_store c1)))) (\<lambda>kv.
              ret (Some (te_value (snd kv)), False)))))))
     | None \<Rightarrow> andthen lt_miss (\<lambda>_. ret (None, False))))"

definition lttl_cache_peek_with_expiry_status :: "'t table_ops \<Rightarrow> ('k \<Rightarrow> 'q) \<Rightarrow> instant \<Rightarrow> 'q
    \<Rightarrow> (('k, 'v, 'q, 't) lttl, 'v option \<times> bool) comp" where
  "lttl_cache_peek_with_expiry_status T bk now q =
     andthen (lt_inner (lru_cache_peek T bk q)) (\<lambda>e. ret (case e of
       Some e \<Rightarrow> (Some (te_value e), \<not> lt_live now e) | None \<Rightarrow> (None, False)))"

end
