(* ===== verification/Lru_Ttl_Refine.thy ===== *)
theory Lru_Ttl_Refine
  imports Lru_Ttl_Cache Lru_Invariants
begin

text \<open>
  \<open>LruTtlCache\<close> over the abstract LRU cache. The specification has the same record with an \<open>alru\<close>
  inside; the operations of the code that look into the slots of the inner store are shown to do what
  two calls of the specification of \<open>LruCache\<close> do.
\<close>

section \<open>The specification\<close>

type_synonym ('k, 'v) alttl = "('k, 'v, ('k, 'v timed_entry) alru) lttl_cache"

definition alt_inner :: "(('k, 'v timed_entry) alru, 'a) comp \<Rightarrow> (('k, 'v) alttl, 'a) comp" where
  "alt_inner m c = (case m (lt_store c) of
       (r, s) \<Rightarrow> (r, c\<lparr>lt_store := s\<lparr>al_calls := []\<rparr>,
                      lt_calls := lt_calls c @ map (apsnd te_value) (al_calls s)\<rparr>))"

definition lt_touched :: "('k, 'v, 's) lttl_cache \<Rightarrow> instant \<Rightarrow> 'v timed_entry \<Rightarrow> 'v timed_entry" where
  "lt_touched c now e = (if lt_refresh c then lt_refreshed c now e else e)"

definition alt_expire :: "('k \<Rightarrow> 'q) \<Rightarrow> 'q \<Rightarrow> (('k, 'v) alttl, unit) comp" where
  "alt_expire bk q = andthen (alt_inner (al_pop bk q)) (\<lambda>popped. case popped of
       Some (k, e) \<Rightarrow> lt_report k e
     | None \<Rightarrow> ret ())"

definition alt_get_mut :: "('k \<Rightarrow> 'q) \<Rightarrow> instant \<Rightarrow> 'q \<Rightarrow> ('v \<Rightarrow> 'v) \<Rightarrow> (('k, 'v) alttl, 'v option) comp" where
  "alt_get_mut bk now q upd =
     andthen get_state (\<lambda>c.
     andthen (alt_inner (al_get_mut_if bk q (lt_live now) (te_value_update upd \<circ> lt_touched c now))) (\<lambda>found.
     case found of
       Some e \<Rightarrow> andthen lt_hit (\<lambda>_. ret (Some (te_value e)))
     | None \<Rightarrow> andthen lt_miss (\<lambda>_. andthen (alt_expire bk q) (\<lambda>_. ret None))))"

definition alt_peek :: "('k \<Rightarrow> 'q) \<Rightarrow> 'q \<Rightarrow> (('k, 'v) alttl, 'v timed_entry option) comp" where
  "alt_peek bk q = andthen get_state (\<lambda>c. ret (map_option snd (a_find bk q (al_items (lt_store c)))))"

definition alt_get_with_expiry_status :: "('k \<Rightarrow> 'q) \<Rightarrow> instant \<Rightarrow> 'q \<Rightarrow> (('k, 'v) alttl, 'v option \<times> bool) comp" where
  "alt_get_with_expiry_status bk now q =
     andthen get_state (\<lambda>c.
     andthen (alt_inner (al_get_mut_if bk q (lt_live now) (lt_touched c now))) (\<lambda>found.
     case found of
       Some e \<Rightarrow> andthen lt_hit (\<lambda>_. ret (Some (te_value e), False))
     | None \<Rightarrow> andthen lt_miss (\<lambda>_. andthen (alt_peek bk q) (\<lambda>e. ret (map_option te_value e, e \<noteq> None)))))"

definition alt_set :: "('k \<Rightarrow> 'q) \<Rightarrow> instant \<Rightarrow> 'k \<Rightarrow> 'v \<Rightarrow> (('k, 'v) alttl, 'v option) comp" where
  "alt_set bk now key val =
     andthen get_state (\<lambda>c.
     andthen (alt_inner (al_set bk key (lt_fresh c now val))) (\<lambda>displaced.
     case displaced of
       Some (k, old) \<Rightarrow>
         if lt_live now old then ret (Some (te_value old))
         else andthen (lt_report k old) (\<lambda>_. ret None)
     | None \<Rightarrow> ret None))"

definition alt_runs_setter :: "('k \<Rightarrow> 'q) \<Rightarrow> instant \<Rightarrow> 'q \<Rightarrow> ('k, 'v) alttl \<Rightarrow> bool" where
  "alt_runs_setter bk now q c = (case a_find bk q (al_items (lt_store c)) of
     None \<Rightarrow> True | Some (k, e) \<Rightarrow> \<not> lt_live now e)"

definition alt_get_or_set :: "('k \<Rightarrow> 'q) \<Rightarrow> instant \<Rightarrow> instant \<Rightarrow> 'k \<Rightarrow> 'v outcome \<Rightarrow> ('v \<Rightarrow> 'v)
    \<Rightarrow> (('k, 'v) alttl, 'v) comp" where
  "alt_get_or_set bk now later key f upd =
     andthen get_state (\<lambda>c.
     andthen (cwhen (alt_runs_setter bk now (bk key) c) lt_miss) (\<lambda>_.
     andthen (alt_inner (al_get_or_set_with_if bk key (map_outcome (lt_fresh c later) f) (lt_live now)
       (lt_through_ref c now (alt_runs_setter bk now (bk key) c) upd))) lt_settle))"

definition alt_try_get_or_set :: "('k \<Rightarrow> 'q) \<Rightarrow> instant \<Rightarrow> instant \<Rightarrow> 'k \<Rightarrow> ('e + 'v) outcome \<Rightarrow> ('v \<Rightarrow> 'v)
    \<Rightarrow> (('k, 'v) alttl, 'e + 'v) comp" where
  "alt_try_get_or_set bk now later key f upd =
     andthen get_state (\<lambda>c.
     andthen (cwhen (alt_runs_setter bk now (bk key) c) lt_miss) (\<lambda>_.
     andthen (alt_inner (al_try_get_or_set_with_if bk key (map_outcome (map_sum id (lt_fresh c later)) f)
       (lt_live now) (lt_through_ref c now (alt_runs_setter bk now (bk key) c) upd))) (\<lambda>r. case r of
         Inl e \<Rightarrow> ret (Inl e)
       | Inr out \<Rightarrow> andthen (lt_settle out) (\<lambda>v. ret (Inr v)))))"

definition alt_remove :: "('k \<Rightarrow> 'q) \<Rightarrow> instant \<Rightarrow> 'q \<Rightarrow> (('k, 'v) alttl, 'v option) comp" where
  "alt_remove bk now q = andthen (alt_inner (al_pop bk q)) (\<lambda>popped. case popped of
       Some (k, e) \<Rightarrow>
         let live = lt_live now e in
         andthen (lt_report k e) (\<lambda>_. ret (if live then Some (te_value e) else None))
     | None \<Rightarrow> ret None)"

definition alt_remove_entry :: "('k \<Rightarrow> 'q) \<Rightarrow> 'q \<Rightarrow> (('k, 'v) alttl, ('k \<times> 'v) option) comp" where
  "alt_remove_entry bk q = andthen (alt_inner (al_pop bk q)) (\<lambda>popped. case popped of
       Some (k, e) \<Rightarrow> andthen (lt_report k e) (\<lambda>_. ret (Some (k, te_value e)))
     | None \<Rightarrow> ret None)"

definition alt_sweep :: "('k \<Rightarrow> 'q) \<Rightarrow> ('k \<Rightarrow> 'v timed_entry \<Rightarrow> bool option) \<Rightarrow> (('k, 'v) alttl, usize) comp" where
  "alt_sweep bk doomed =
     andthen get_state (\<lambda>c.
     andthen (expect (filter_closure (\<lambda>kv. doomed (fst kv) (snd kv)) (al_items (lt_store c)))) (\<lambda>out.
     andthen (alt_inner (al_set_items (a_without_all bk out (al_items (lt_store c))))) (\<lambda>_.
     lttl_notify_all out)))"

definition alt_clear_with_on_evict :: "(('k, 'v) alttl, unit) comp" where
  "alt_clear_with_on_evict =
     andthen get_state (\<lambda>c.
     andthen (alt_inner (al_set_items [])) (\<lambda>_.
     andthen (lttl_notify_all (al_items (lt_store c))) (\<lambda>_. ret ())))"

definition alt_set_max_size :: "('k \<Rightarrow> 'q) \<Rightarrow> usize \<Rightarrow> (('k, 'v) alttl, usize option) comp" where
  "alt_set_max_size bk max_size =
     (if max_size = 0 then panic
      else andthen (alt_inner (al_set_max_size bk max_size)) (\<lambda>prev.
        andthen (modify (\<lambda>c. c\<lparr>lt_size := al_capacity (lt_store c)\<rparr>)) (\<lambda>_. ret prev)))"

section \<open>The abstraction\<close>

definition lt_wf :: "('t \<Rightarrow> (u64 \<times> usize) multiset) \<Rightarrow> ('k \<Rightarrow> 'q) \<Rightarrow> ('k, 'v, 'q, 't) lttl \<Rightarrow> bool" where
  "lt_wf entries bk c \<longleftrightarrow> lru_wf entries bk (lt_store c) \<and> lru_calls (lt_store c) = [] \<and>
     \<not> lru_track_hit_miss (lt_store c) \<and> lru_on_evict (lt_store c) = map_option lttl_callback (lt_on_evict c)"

definition lt_abs :: "('k, 'v, 'q, 't) lttl \<Rightarrow> ('k, 'v) alttl" where
  "lt_abs c = \<lparr>lt_store = lru_abs (lt_store c), lt_size = lt_size c, lt_ttl = lt_ttl c, lt_hits = lt_hits c,
     lt_misses = lt_misses c, lt_evictions = lt_evictions c, lt_refresh = lt_refresh c,
     lt_on_evict = lt_on_evict c, lt_calls = lt_calls c\<rparr>"

lemma lt_abs_simps [simp]:
  "lt_store (lt_abs c) = lru_abs (lt_store c)" "lt_size (lt_abs c) = lt_size c" "lt_ttl (lt_abs c) = lt_ttl c"
  "lt_hits (lt_abs c) = lt_hits c" "lt_misses (lt_abs c) = lt_misses c"
  "lt_evictions (lt_abs c) = lt_evictions c" "lt_refresh (lt_abs c) = lt_refresh c"
  "lt_on_evict (lt_abs c) = lt_on_evict c" "lt_calls (lt_abs c) = lt_calls c"
  by (simp_all add: lt_abs_def)

lemma lt_abs_reads [simp]:
  "lt_touched (lt_abs c) = lt_touched c" "lt_fresh (lt_abs c) = lt_fresh c"
  "lt_through_ref (lt_abs c) = lt_through_ref c" "lt_refreshed (lt_abs c) = lt_refreshed c"
  by (simp_all add: fun_eq_iff lt_touched_def lt_fresh_def lt_through_ref_def lt_refreshed_def)

text \<open>An inner operation changes neither the callback nor the tracking flag.\<close>

definition al_env :: "bool \<Rightarrow> ('k, 'v) callback option \<Rightarrow> ('k, 'v) alru \<Rightarrow> bool" where
  "al_env t cb s \<longleftrightarrow> al_track_hit_miss s = t \<and> al_on_evict s = cb"

lemma al_env_parts [keeps_rules]:
  "keeps (al_env t cb) al_record_hit" "keeps (al_env t cb) al_record_miss"
  "keeps (al_env t cb) (al_count_evictions n)" "keeps (al_env t cb) (al_notify k v)"
  "keeps (al_env t cb) al_reset_metrics" "keeps (al_env t cb) (al_set_items xs)"
  "keeps (al_env t cb) (al_drop_entry bk kv)"
  "keeps (al_env t cb) (modify (\<lambda>s. s\<lparr>al_items := f s\<rparr>))"
  "keeps (al_env t cb) (modify (\<lambda>s. s\<lparr>al_capacity := n\<rparr>))"
  by (simp_all add: keeps_def al_env_def al_record_hit_def al_record_miss_def al_count_evictions_def
      al_notify_apply al_reset_metrics_def al_set_items_def al_drop_entry_apply modify_def)

lemma al_env_check_capacity [keeps_rules]: "keeps (al_env t cb) (al_check_capacity bk)"
  by (simp add: keeps_def al_check_capacity_def al_drop_entries al_env_def)

lemma al_env_ops [keeps_rules]:
  "keeps (al_env t cb) (al_get_mut_if bk q is_valid upd)"
  "keeps (al_env t cb) (al_try_get_or_set_with_if bk key f is_valid upd)"
  "keeps (al_env t cb) (al_set bk key val)" "keeps (al_env t cb) (al_pop bk q)"
  "keeps (al_env t cb) (al_set_max_size bk n)"
  unfolding al_get_mut_if_def al_try_get_or_set_with_if_def al_set_def al_pop_def al_set_max_size_def
  by (intro keeps_rules)+

lemma al_env_get_or_set [keeps_rules]: "keeps (al_env t cb) (al_get_or_set_with_if bk key f is_valid upd)"
  unfolding al_get_or_set_with_if_def by (intro keeps_rules)

text \<open>The refinement of an operation of the inner store, seen from the wrapper.\<close>

lemma refines_inner:
  assumes m: "refines (lru_wf entries bk) lru_abs m n" and env: "\<And>t cb. keeps (al_env t cb) n"
  shows "refines (lt_wf entries bk) lt_abs (lt_inner m) (alt_inner n)"
proof (rule refinesI)
  fix c :: "('a, 'b, 'c, 'd) lttl" assume c: "lt_wf entries bk c"
  obtain r s where s: "m (lt_store c) = (r, s)" by force
  have a: "lru_wf entries bk s" "n (lru_abs (lt_store c)) = (r, lru_abs s)"
    using refines_result [OF m _ s] c by (simp_all add: lt_wf_def)
  have "lru_track_hit_miss s = lru_track_hit_miss (lt_store c)" "lru_on_evict s = lru_on_evict (lt_store c)"
    using keepsD [OF env, where s = "lru_abs (lt_store c)"] a(2) by (simp_all add: al_env_def)
  then show "refines_at (lt_wf entries bk) lt_abs (lt_inner m) (alt_inner n) c"
    using a s c by (simp add: refines_at_def lt_inner_def alt_inner_def lt_wf_def lru_wf_def lt_abs_def lru_abs_def lru_items_def)
qed

lemma lt_notify_apply: "lt_notify k v c =
   (if cb_ok (lt_on_evict c) k v then Returns () else Panics,
    c\<lparr>lt_calls := lt_calls c @ cb_calls (lt_on_evict c) [(k, v)]\<rparr>)"
  by (simp add: lt_notify_def notify_apply)

lemma refines_lt_parts [refines_rules]:
  "refines (lt_wf entries bk) lt_abs lt_hit lt_hit" "refines (lt_wf entries bk) lt_abs lt_miss lt_miss"
  "refines (lt_wf entries bk) lt_abs (lt_count n) (lt_count n)"
  "refines (lt_wf entries bk) lt_abs (lt_notify k v) (lt_notify k v)"
  by (simp_all add: refines_def refines_at_def lt_hit_def lt_miss_def lt_count_def lt_notify_apply
      modify_apply lt_wf_def lt_abs_def)

lemma refines_lt_report [refines_rules]: "refines (lt_wf entries bk) lt_abs (lt_report k e) (lt_report k e)"
  unfolding lt_report_def by (intro refines_rules)

lemma refines_lt_settle [refines_rules]: "refines (lt_wf entries bk) lt_abs (lt_settle out) (lt_settle out)"
  unfolding lt_settle_def by (intro refines_rules)

lemma refines_notify_all [refines_rules]:
  "refines (lt_wf entries bk) lt_abs (lttl_notify_all out) (lttl_notify_all out)"
  unfolding lttl_notify_all_def by (intro refines_rules)

text \<open>An inner operation that calls no callback.\<close>

lemma lt_inner_silent:
  "m (lt_store c) = (r, s) \<Longrightarrow> lru_calls s = [] \<Longrightarrow> lt_inner m c = (r, c\<lparr>lt_store := s\<rparr>)"
  by (simp add: lt_inner_def)

text \<open>
  What the lookups do on a hit: the slot moves to the front, the hit is counted, and the expiry is
  renewed when the cache refreshes on hit. \<open>lt_served\<close> is the state after it.
\<close>

definition lt_served :: "('k \<Rightarrow> 'q) \<Rightarrow> instant \<Rightarrow> 'k \<Rightarrow> 'v timed_entry \<Rightarrow> ('k, 'v) alttl \<Rightarrow> ('k, 'v) alttl" where
  "lt_served bk now k e a = a\<lparr>lt_hits := lt_hits a + 1, lt_store := (lt_store a)\<lparr>al_items :=
     (k, lt_touched a now e) # a_without bk (bk k) (al_items (lt_store a))\<rparr>\<rparr>"

lemma lru_abs_frame_calls:
  "lru_abs c' = (lru_abs c)\<lparr>al_items := xs\<rparr> \<Longrightarrow>
     lru_calls c' = lru_calls c \<and> lru_on_evict c' = lru_on_evict c"
  by (simp add: lru_abs_def)

lemma lt_abs_put: "lt_abs (c\<lparr>lt_store := s\<rparr>) = (lt_abs c)\<lparr>lt_store := lru_abs s\<rparr>"
  by (simp add: lt_abs_def)

lemma lt_served_items:
  "lt_abs d = lt_served bk now k e (lt_abs c) \<Longrightarrow> lru_abs (lt_store d) = (lru_abs (lt_store c))\<lparr>al_items :=
     (k, lt_touched c now e) # a_without bk (bk k) (lru_items (lt_store c))\<rparr> \<and>
   lru_items (lt_store d) = (k, lt_touched c now e) # a_without bk (bk k) (lru_items (lt_store c))"
  by (drule arg_cong [of _ _ lt_store], simp add: lt_served_def) (simp add: lru_abs_def)

lemma alt_clear_drain:
  "alt_clear_with_on_evict = andthen
     (alt_inner (andthen get_state (\<lambda>s. andthen (al_set_items []) (\<lambda>_. ret (al_items s))))) (\<lambda>removed.
     andthen (lttl_notify_all removed) (\<lambda>_. ret ()))"
  by (simp add: fun_eq_iff alt_clear_with_on_evict_def alt_inner_def al_set_items_def comp_simps)

lemma alt_hit:
  assumes "a_find bk q (al_items (lt_store a)) = Some (k, e)" "lt_live now e" "al_calls (lt_store a) = []"
    "\<not> al_track_hit_miss (lt_store a)"
  shows "alt_inner (al_get_mut_if bk q (lt_live now) u) a = (Returns (Some e),
    a\<lparr>lt_store := (lt_store a)\<lparr>al_items := (k, u e) # a_without bk q (al_items (lt_store a))\<rparr>\<rparr>)"
  using assms
  by (simp add: alt_inner_def al_get_mut_if_def al_set_items_def al_record_hit_def comp_simps)

lemma alt_stale:
  assumes "\<And>k e. a_find bk q (al_items (lt_store a)) = Some (k, e) \<Longrightarrow> \<not> lt_live now e"
    "al_calls (lt_store a) = []" "\<not> al_track_hit_miss (lt_store a)"
  shows "alt_inner (al_get_mut_if bk q (lt_live now) u) a = (Returns None, a)"
proof -
  have "al_get_mut_if bk q (lt_live now) u (lt_store a) = (Returns None, lt_store a)"
    using assms by (auto simp: al_get_mut_if_def al_record_miss_def comp_simps split: option.splits)
  then show ?thesis using assms(2) by (simp add: alt_inner_def)
qed

text \<open>The specification of a lookup in closed form.\<close>

lemma alt_get_mut_closed:
  assumes "al_calls (lt_store a) = []" "\<not> al_track_hit_miss (lt_store a)"
  shows "alt_get_mut bk now q upd a = (case a_find bk q (al_items (lt_store a)) of
      None \<Rightarrow> (Returns None, a\<lparr>lt_misses := lt_misses a + 1\<rparr>)
    | Some (k, e) \<Rightarrow>
        if lt_live now e
        then (Returns (Some (te_value e)), a\<lparr>lt_hits := lt_hits a + 1, lt_store := (lt_store a)\<lparr>al_items :=
          (k, te_value_update upd (lt_touched a now e)) # a_without bk q (al_items (lt_store a))\<rparr>\<rparr>)
        else (if cb_ok (lt_on_evict a) k (te_value e) then Returns None else Panics,
          a\<lparr>lt_misses := lt_misses a + 1, lt_store := (lt_store a)\<lparr>al_items := a_without bk q (al_items (lt_store a))\<rparr>,
            lt_evictions := lt_evictions a + 1,
            lt_calls := lt_calls a @ cb_calls (lt_on_evict a) [(k, te_value e)]\<rparr>))"
proof (cases "a_find bk q (al_items (lt_store a))")
  case None
  then have "alt_expire bk q (a\<lparr>lt_misses := m\<rparr>) = (Returns (), a\<lparr>lt_misses := m\<rparr>)" for m
    using assms by (simp add: alt_expire_def alt_inner_def al_pop_def al_set_items_def a_without_absent comp_simps)
  then show ?thesis
    using None assms alt_stale [of bk q a now "te_value_update upd \<circ> lt_touched a now"]
    by (simp add: alt_get_mut_def andthen_get_state andthen_Returns)
      (simp add: lt_miss_def comp_simps)
next
  case (Some ke)
  obtain k e where ke: "ke = (k, e)" by force
  have x: "alt_expire bk q (a\<lparr>lt_misses := m\<rparr>) = (if cb_ok (lt_on_evict a) k (te_value e) then Returns () else Panics,
      a\<lparr>lt_misses := m, lt_store := (lt_store a)\<lparr>al_items := a_without bk q (al_items (lt_store a))\<rparr>,
        lt_evictions := lt_evictions a + 1, lt_calls := lt_calls a @ cb_calls (lt_on_evict a) [(k, te_value e)]\<rparr>)" for m
    using assms Some ke
    by (simp add: alt_expire_def alt_inner_def al_pop_def al_set_items_def lt_report_def lt_count_def lt_notify_apply comp_simps)
  show ?thesis
  proof (cases "lt_live now e")
    case True
    then show ?thesis
      using Some ke assms alt_hit [of bk q a k e now "te_value_update upd \<circ> lt_touched a now"]
      by (simp add: alt_get_mut_def andthen_get_state andthen_Returns)
        (simp add: lt_hit_def comp_simps)
  next
    case False
    then show ?thesis
      using Some ke assms alt_stale [of bk q a now "te_value_update upd \<circ> lt_touched a now"]
      by (simp add: alt_get_mut_def andthen_get_state andthen_Returns)
        (simp add: lt_miss_def andthen_apply modify_apply ret_apply x)
  qed
qed

section \<open>Refinement\<close>

context hash_table
begin

lemma lru_pop_eq: "lru_pop_raw_with_hash T bk (lru_hash q c) q c = lru_pop_raw T bk q c"
  by (simp add: lru_pop_raw_def comp_simps)

lemma refines_lt_pop [refines_rules]:
  "refines (lt_wf entries bk) lt_abs (lt_inner (lru_pop_raw T bk q)) (alt_inner (al_pop bk q))"
  by (intro refines_inner refines_rules keeps_rules)

lemma refines_lt_expire:
  "refines (lt_wf entries bk) lt_abs
    (andthen (lt_inner (lru_pop_raw T bk q)) (\<lambda>popped. case popped of Some (k, e) \<Rightarrow> lt_report k e | None \<Rightarrow> ret ()))
    (alt_expire bk q)"
  unfolding alt_expire_def by (intro refines_rules)

lemma lru_written_at:
  assumes "lru_slots entries bk c (i # rest)" "lru_items c = kv # xs"
  shows "ll_at (lru_order c) i = kv"
  using lru_slots_items [OF assms(1)] assms(2) by simp

lemma lt_hit_slot:
  assumes c: "lt_wf entries bk c" and sl: "lru_slots entries bk (lt_store c) is" "i \<in> set is"
    "ll_at (lru_order (lt_store c)) i = (k, e)"
  obtains c1 d where "lt_inner (lru_move i) c = (Returns (), c1)"
    "lt_refresh_slot i now (c1\<lparr>lt_hits := lt_hits c1 + 1\<rparr>) = (Returns (), d)"
    "lt_wf entries bk d" "lru_slots entries bk (lt_store d) (i # remove1 i is)"
    "ll_at (lru_order (lt_store d)) i = (k, lt_touched c now e)" "lt_abs d = lt_served bk now k e (lt_abs c)"
proof -
  obtain s1 where s1: "lru_move i (lt_store c) = (Returns (), s1)"
    "lru_slots entries bk s1 (i # remove1 i is)" "ll_at (lru_order s1) i = (k, e)"
    "lru_abs s1 = (lru_abs (lt_store c))\<lparr>al_items := (k, e) # a_without bk (bk k) (lru_items (lt_store c))\<rparr>"
    "lru_capacity s1 = lru_capacity (lt_store c)"
    using lru_touch [OF sl] by blast
  note f1 = lru_abs_frame2 [OF s1(4)] lru_abs_frame_calls [OF s1(4)]
  obtain s2 where s2: "lru_on_order (ll_get_mut i (apsnd (lt_refreshed c now))) s1 = (Returns (k, e), s2)"
    "lru_slots entries bk s2 (i # remove1 i is)"
    "lru_abs s2 = (lru_abs s1)\<lparr>al_items := (k, lt_refreshed c now e) # tl (lru_items s1)\<rparr>"
    "lru_capacity s2 = lru_capacity s1"
    using lru_write [OF s1(2,3)] by blast
  note f2 = lru_abs_frame2 [OF s2(3)] lru_abs_frame_calls [OF s2(3)]
  let ?c1 = "c\<lparr>lt_store := s1, lt_hits := lt_hits c + 1\<rparr>"
  let ?d = "if lt_refresh c then ?c1\<lparr>lt_store := s2\<rparr> else ?c1"
  have calls: "lru_calls s1 = []" "lru_calls s2 = []" using c f1 f2 by (simp_all add: lt_wf_def)
  have move: "lt_inner (lru_move i) c = (Returns (), c\<lparr>lt_store := s1\<rparr>)"
    by (rule lt_inner_silent [of "lru_move i", OF s1(1) calls(1)])
  have ref: "lt_refresh_slot i now ?c1 = (Returns (), ?d)"
    using lt_inner_silent [of "lru_on_order (ll_get_mut i (apsnd (lt_refreshed c now)))" ?c1, OF _ calls(2)] s2(1)
    by (simp add: lt_refresh_slot_def lt_update_slot_def lt_refreshed_def [abs_def] comp_simps)
  have "lt_wf entries bk ?d"
    using c calls f1 f2 s1(2,5) s2(2,4) by (auto simp: lt_wf_def lru_wf_def)
  moreover have "ll_at (lru_order (lt_store ?d)) i = (k, lt_touched c now e)"
    using s1(3) lru_written_at [OF s2(2), of "(k, lt_refreshed c now e)" "tl (lru_items s1)"] f2
    by (simp add: lt_touched_def)
  moreover have "lt_abs ?d = lt_served bk now k e (lt_abs c)"
    using s1(4) s2(3) f1 by (simp add: lt_served_def lt_touched_def lt_refreshed_def lt_abs_def)
  ultimately show ?thesis using s1(2) s2(2) move ref by (intro that [of "c\<lparr>lt_store := s1\<rparr>" ?d]) simp_all
qed

lemma lt_lookup_cases:
  assumes c: "lt_wf entries bk c"
  obtains (absent) "lru_get_index T bk (lru_hash q (lt_store c)) q (lt_store c) = Some None"
      "a_find bk q (al_items (lt_store (lt_abs c))) = None"
    | (present) "is" i k e where
      "lru_get_index T bk (lru_hash q (lt_store c)) q (lt_store c) = Some (Some i)"
      "a_find bk q (al_items (lt_store (lt_abs c))) = Some (k, e)" "bk k = q"
      "ll_get i (lru_order (lt_store c)) = Some (k, e)"
      "lru_slots entries bk (lt_store c) is" "i \<in> set is" "ll_at (lru_order (lt_store c)) i = (k, e)"
proof -
  have "lru_wf entries bk (lt_store c)" using c by (simp add: lt_wf_def)
  then show ?thesis
    by (cases rule: lru_lookup_cases [of bk "lt_store c" q]) (auto intro: absent present)
qed

lemma lt_wf_quiet: "lt_wf entries bk c \<Longrightarrow>
    al_calls (lt_store (lt_abs c)) = [] \<and> \<not> al_track_hit_miss (lt_store (lt_abs c))"
  by (simp add: lt_wf_def)

text \<open>A lookup that finds no live entry: the miss, and the removal of the expired entry.\<close>

lemma refines_lt_stale:
  "refines (lt_wf entries bk) lt_abs
    (andthen lt_miss (\<lambda>_. andthen (lt_inner (lru_pop_raw T bk q)) (\<lambda>popped.
       andthen (case popped of Some (k, e) \<Rightarrow> lt_report k e | None \<Rightarrow> ret ()) (\<lambda>_. ret None))))
    (andthen lt_miss (\<lambda>_. andthen (alt_expire bk q) (\<lambda>_. ret None)))"
  unfolding alt_expire_def andthen_assoc by (intro refines_rules)

lemma lt_expire_eq:
  "lt_store d = lt_store c \<Longrightarrow> andthen (lt_expire T bk (lru_hash q (lt_store c)) q) K d =
     andthen (lt_inner (lru_pop_raw T bk q)) (\<lambda>popped.
       andthen (case popped of Some (k, e) \<Rightarrow> lt_report k e | None \<Rightarrow> ret ()) K) d"
  by (simp add: lt_expire_def andthen_assoc lru_pop_eq andthen_apply lt_inner_def flip: lru_pop_eq)

lemma lt_missing:
  assumes "lt_wf entries bk c" "a_find bk q (al_items (lt_store (lt_abs c))) = None"
  shows "alt_expire bk q (lt_abs c) = (Returns (), lt_abs c)"
  using assms lt_wf_quiet [OF assms(1)]
  by (simp add: alt_expire_def alt_inner_def al_pop_def al_set_items_def a_without_absent comp_simps)

lemma te_value_update_id [simp]: "te_value_update id e = e" "te_value_update (\<lambda>v. v) e = e"
  by (cases e; simp)+

text \<open>The two outcomes of a lookup of the code, with what the specification does there.\<close>

lemma lt_stale_at:
  assumes c: "lt_wf entries bk c"
    and stale: "\<And>k e. a_find bk q (al_items (lt_store (lt_abs c))) = Some (k, e) \<Longrightarrow> \<not> lt_live now e"
    and op: "op c = andthen lt_miss (\<lambda>_. andthen (lt_expire T bk (lru_hash q (lt_store c)) q) (\<lambda>_. ret None)) c"
  shows "refines_at (lt_wf entries bk) lt_abs op (alt_get_mut bk now q upd) c"
proof (rule refines_via [OF refines_lt_stale c])
  show "op c = andthen lt_miss (\<lambda>_. andthen (lt_inner (lru_pop_raw T bk q)) (\<lambda>popped.
       andthen (case popped of Some (k, e) \<Rightarrow> lt_report k e | None \<Rightarrow> ret ()) (\<lambda>_. ret None))) c"
    using lt_expire_eq [of "snd (lt_miss c)" c] by (simp add: op lt_miss_def andthen_apply modify_apply)
  show "alt_get_mut bk now q upd (lt_abs c) =
      andthen lt_miss (\<lambda>_. andthen (alt_expire bk q) (\<lambda>_. ret None)) (lt_abs c)"
    using alt_stale [of bk q "lt_abs c" now] stale lt_wf_quiet [OF c]
    by (simp add: alt_get_mut_def andthen_get_state andthen_Returns)
qed

lemma lt_absent_at:
  assumes c: "lt_wf entries bk c" and absent: "a_find bk q (al_items (lt_store (lt_abs c))) = None"
    and op: "op c = andthen lt_miss (\<lambda>_. ret None) c"
  shows "refines_at (lt_wf entries bk) lt_abs op (alt_get_mut bk now q upd) c"
proof (rule refines_atI)
  show "op c = (Returns None, snd (lt_miss c))" by (simp add: op lt_miss_def comp_simps)
  have d: "lt_wf entries bk (snd (lt_miss c))" "lt_abs (snd (lt_miss c)) = snd (lt_miss (lt_abs c))"
    using refinesD [OF refines_lt_parts(2) c] by simp_all
  then show "lt_wf entries bk (snd (lt_miss c))" by simp
  have e: "alt_expire bk q (snd (lt_miss (lt_abs c))) = (Returns (), snd (lt_miss (lt_abs c)))"
    using lt_missing [OF d(1)] absent unfolding d(2) by (simp add: lt_miss_def modify_apply)
  show "alt_get_mut bk now q upd (lt_abs c) = (Returns None, lt_abs (snd (lt_miss c)))"
    using alt_stale [of bk q "lt_abs c" now] lt_wf_quiet [OF c] absent e d(2)
    by (simp add: alt_get_mut_def andthen_get_state andthen_Returns)
      (simp add: lt_miss_def comp_simps)
qed

lemma lt_get_mut_at:
  assumes c: "lt_wf entries bk c"
  shows "refines_at (lt_wf entries bk) lt_abs (lttl_cache_get_mut T bk now q upd) (alt_get_mut bk now q upd) c"
  using c
proof (cases rule: lt_lookup_cases [of bk c q])
  case absent
  then show ?thesis
    by (intro lt_absent_at [OF c]) (simp_all add: lttl_cache_get_mut_def comp_simps)
next
  case (present "is" i k e)
  show ?thesis
  proof (cases "lt_live now e")
    case False
    then show ?thesis
      using present by (intro lt_stale_at [OF c]) (simp_all add: lttl_cache_get_mut_def comp_simps)
  next
    case True
    obtain c1 d where d: "lt_inner (lru_move i) c = (Returns (), c1)"
      "lt_refresh_slot i now (c1\<lparr>lt_hits := lt_hits c1 + 1\<rparr>) = (Returns (), d)"
      "lt_wf entries bk d" "lru_slots entries bk (lt_store d) (i # remove1 i is)"
      "ll_at (lru_order (lt_store d)) i = (k, lt_touched c now e)"
      "lt_abs d = lt_served bk now k e (lt_abs c)"
      using lt_hit_slot [OF c present(5,6,7)] by metis
    obtain s where s: "lru_on_order (ll_get_mut i (apsnd (te_value_update upd))) (lt_store d) =
        (Returns (k, lt_touched c now e), s)" "lru_slots entries bk s (i # remove1 i is)"
      "lru_abs s = (lru_abs (lt_store d))\<lparr>al_items :=
         (k, te_value_update upd (lt_touched c now e)) # tl (lru_items (lt_store d))\<rparr>"
      "lru_capacity s = lru_capacity (lt_store d)"
      using lru_write [OF d(4,5)] by blast
    note f = lru_abs_frame2 [OF s(3)] lru_abs_frame_calls [OF s(3)]
    have w: "lt_update_slot i (te_value_update upd) d = (Returns (k, lt_touched c now e), d\<lparr>lt_store := s\<rparr>)"
      unfolding lt_update_slot_def using f d(3) by (intro lt_inner_silent s(1)) (simp add: lt_wf_def)
    have "lttl_cache_get_mut T bk now q upd c = (Returns (Some (te_value e)), d\<lparr>lt_store := s\<rparr>)"
      using present(1,4) True d(1,2) w
      by (simp add: lttl_cache_get_mut_def lt_hit_def comp_simps lt_touched_def lt_refreshed_def)
    moreover have "lt_wf entries bk (d\<lparr>lt_store := s\<rparr>)"
      using d(3) f s(2,4) by (auto simp: lt_wf_def lru_wf_def)
    moreover have "alt_get_mut bk now q upd (lt_abs c) = (Returns (Some (te_value e)), lt_abs (d\<lparr>lt_store := s\<rparr>))"
      using alt_hit [OF present(2) True] lt_wf_quiet [OF c] s(3) d(6) lt_served_items [OF d(6)] present(3)
      by (simp add: alt_get_mut_def andthen_get_state andthen_Returns lt_abs_put)
        (simp add: lt_hit_def lt_served_def comp_simps)
    ultimately show ?thesis by (rule refines_atI)
  qed
qed

lemma refines_lt_get_mut [refines_rules]:
  "refines (lt_wf entries bk) lt_abs (lttl_cache_get_mut T bk now q upd) (alt_get_mut bk now q upd)"
  by (rule refinesI) (rule lt_get_mut_at)

text \<open>A hit that only reads the slot.\<close>

lemma lt_served_inner:
  assumes "lt_wf entries bk c" "a_find bk q (al_items (lt_store (lt_abs c))) = Some (k, e)" "lt_live now e" "bk k = q"
  shows "andthen (alt_inner (al_get_mut_if bk q (lt_live now) (lt_touched c now))) (\<lambda>found. case found of
       Some e \<Rightarrow> andthen lt_hit (\<lambda>_. ret (f e)) | None \<Rightarrow> m) (lt_abs c) =
     (Returns (f e), lt_served bk now k e (lt_abs c))"
  using alt_hit [OF assms(2,3)] lt_wf_quiet [OF assms(1)] assms(4)
  by (simp add: andthen_Returns) (simp add: lt_hit_def lt_served_def comp_simps)

lemma lt_read_slot:
  assumes "lru_slots entries bk (lt_store d) (i # rest)" "ll_at (lru_order (lt_store d)) i = kv"
  shows "ll_get i (lru_order (lt_store d)) = Some kv"
  using lru_slots_get [OF assms(1), of i] assms(2) by simp

lemma lt_get_at:
  assumes c: "lt_wf entries bk c"
  shows "refines_at (lt_wf entries bk) lt_abs (lttl_cache_get T bk now q) (alt_get_mut bk now q id) c"
  using c
proof (cases rule: lt_lookup_cases [of bk c q])
  case absent
  then show ?thesis
    by (intro lt_absent_at [OF c]) (simp_all add: lttl_cache_get_def comp_simps)
next
  case (present "is" i k e)
  show ?thesis
  proof (cases "lt_live now e")
    case False
    then show ?thesis
      using present by (intro lt_stale_at [OF c]) (simp_all add: lttl_cache_get_def comp_simps)
  next
    case True
    obtain c1 d where d: "lt_inner (lru_move i) c = (Returns (), c1)"
      "lt_refresh_slot i now (c1\<lparr>lt_hits := lt_hits c1 + 1\<rparr>) = (Returns (), d)"
      "lt_wf entries bk d" "lru_slots entries bk (lt_store d) (i # remove1 i is)"
      "ll_at (lru_order (lt_store d)) i = (k, lt_touched c now e)"
      "lt_abs d = lt_served bk now k e (lt_abs c)"
      using lt_hit_slot [OF c present(5,6,7)] by metis
    have "lttl_cache_get T bk now q c = (Returns (Some (te_value e)), d)"
      using present(1,4) True d(1,2) lt_read_slot [OF d(4,5)]
      by (simp add: lttl_cache_get_def lt_hit_def comp_simps lt_touched_def lt_refreshed_def)
    moreover have "te_value_update id \<circ> lt_touched c now = lt_touched c now"
      by (simp add: fun_eq_iff)
    then have "alt_get_mut bk now q id (lt_abs c) = (Returns (Some (te_value e)), lt_abs d)"
      using lt_served_inner [OF c present(2) True present(3), where f = "\<lambda>e. Some (te_value e)"] d(6)
      by (simp add: alt_get_mut_def andthen_get_state)
    ultimately show ?thesis using d(3) by (intro refines_atI)
  qed
qed

lemma lt_status_at:
  assumes c: "lt_wf entries bk c"
  shows "refines_at (lt_wf entries bk) lt_abs (lttl_cache_get_with_expiry_status T bk now q)
    (alt_get_with_expiry_status bk now q) c"
proof -
  have miss: "lt_wf entries bk (snd (lt_miss c))" "lt_abs (snd (lt_miss c)) = snd (lt_miss (lt_abs c))"
    using refinesD [OF refines_lt_parts(2) c] by simp_all
  have stale: "alt_get_with_expiry_status bk now q (lt_abs c) = (Returns (case a_find bk q (al_items (lt_store (lt_abs c))) of
      None \<Rightarrow> (None, False) | Some (k, e) \<Rightarrow> (Some (te_value e), True)), lt_abs (snd (lt_miss c)))"
    if "\<And>k e. a_find bk q (al_items (lt_store (lt_abs c))) = Some (k, e) \<Longrightarrow> \<not> lt_live now e"
    using alt_stale [of bk q "lt_abs c" now] that lt_wf_quiet [OF c] miss(2)
    by (simp add: alt_get_with_expiry_status_def andthen_get_state andthen_Returns)
      (simp add: lt_miss_def alt_peek_def comp_simps split: option.split)
  from c show ?thesis
  proof (cases rule: lt_lookup_cases [of bk c q])
    case absent
    then have "lttl_cache_get_with_expiry_status T bk now q c = (Returns (None, False), snd (lt_miss c))"
      by (simp add: lttl_cache_get_with_expiry_status_def lt_miss_def comp_simps)
    then show ?thesis using stale absent miss(1) by (intro refines_atI) simp_all
  next
    case (present "is" i k e)
    show ?thesis
    proof (cases "lt_live now e")
      case False
      then have "lttl_cache_get_with_expiry_status T bk now q c = (Returns (Some (te_value e), True), snd (lt_miss c))"
        using present by (simp add: lttl_cache_get_with_expiry_status_def lt_miss_def comp_simps)
      then show ?thesis using stale present False miss(1) by (intro refines_atI) simp_all
    next
      case True
      obtain c1 d where d: "lt_inner (lru_move i) c = (Returns (), c1)"
        "lt_refresh_slot i now (c1\<lparr>lt_hits := lt_hits c1 + 1\<rparr>) = (Returns (), d)"
        "lt_wf entries bk d" "lru_slots entries bk (lt_store d) (i # remove1 i is)"
        "ll_at (lru_order (lt_store d)) i = (k, lt_touched c now e)"
        "lt_abs d = lt_served bk now k e (lt_abs c)"
        using lt_hit_slot [OF c present(5,6,7)] by metis
      have "lttl_cache_get_with_expiry_status T bk now q c = (Returns (Some (te_value e), False), d)"
        using present(1,4) True d(1,2) lt_read_slot [OF d(4,5)]
        by (simp add: lttl_cache_get_with_expiry_status_def lt_hit_def comp_simps lt_touched_def lt_refreshed_def)
      moreover have "alt_get_with_expiry_status bk now q (lt_abs c) = (Returns (Some (te_value e), False), lt_abs d)"
        using lt_served_inner [OF c present(2) True present(3), where f = "\<lambda>e. (Some (te_value e), False)"] d(6)
        by (simp add: alt_get_with_expiry_status_def andthen_get_state)
      ultimately show ?thesis using d(3) by (intro refines_atI)
    qed
  qed
qed

lemma refines_lt_lookups [refines_rules]:
  "refines (lt_wf entries bk) lt_abs (lttl_cache_get T bk now q) (alt_get_mut bk now q id)"
  "refines (lt_wf entries bk) lt_abs (lttl_cache_get_with_expiry_status T bk now q)
     (alt_get_with_expiry_status bk now q)"
  by (rule refinesI, rule lt_get_at, assumption) (rule refinesI, rule lt_status_at)

lemma lt_runs_setter_wf:
  assumes "lt_wf entries bk c"
  shows "lt_runs_setter T bk now q c = Some (alt_runs_setter bk now q (lt_abs c))"
  using assms
  by (cases rule: lt_lookup_cases [of bk c q]) (simp_all add: lt_runs_setter_def alt_runs_setter_def)

lemma refines_lt_inner_ops [refines_rules]:
  "refines (lt_wf entries bk) lt_abs (lt_inner (lru_cache_set_returning_entry T bk key val)) (alt_inner (al_set bk key val))"
  "refines (lt_wf entries bk) lt_abs (lt_inner (lru_get_or_set_with_if T bk key f is_valid upd))
     (alt_inner (al_get_or_set_with_if bk key f is_valid upd))"
  "refines (lt_wf entries bk) lt_abs (lt_inner (lru_try_get_or_set_with_if T bk key g is_valid upd))
     (alt_inner (al_try_get_or_set_with_if bk key g is_valid upd))"
  "refines (lt_wf entries bk) lt_abs (lt_inner (lru_set_max_size T bk n)) (alt_inner (al_set_max_size bk n))"
  "refines (lt_wf entries bk) lt_abs (lt_inner (lru_cache_clear T)) (alt_inner (al_set_items []))"
  "refines (lt_wf entries bk) lt_abs (lt_inner lru_cache_reset_metrics) (alt_inner al_reset_metrics)"
  by (intro refines_inner refines_rules keeps_rules)+

lemma refines_lt_reset:
  "list_alloc 2 \<Longrightarrow> refines (lt_wf entries bk) lt_abs (lt_inner (lru_cache_reset T list_alloc))
     (alt_inner (andthen (al_set_items []) (\<lambda>_. al_reset_metrics)))"
  by (intro refines_inner refines_reset keeps_rules)

lemma refines_lt_set [refines_rules]:
  "refines (lt_wf entries bk) lt_abs (lttl_cache_set T bk now key val) (alt_set bk now key val)"
  unfolding lttl_cache_set_def alt_set_def lttl_set_entry_def
  by (rule refines_read) (simp only: lt_abs_reads, intro refines_rules)

lemma refines_lt_get_or_set [refines_rules]:
  "refines (lt_wf entries bk) lt_abs (lttl_cache_get_or_set_with_mut T bk now later key f upd)
     (alt_get_or_set bk now later key f upd)"
  "refines (lt_wf entries bk) lt_abs (lttl_cache_try_get_or_set_with_mut T bk now later key g upd)
     (alt_try_get_or_set bk now later key g upd)"
  unfolding lttl_cache_get_or_set_with_mut_def alt_get_or_set_def
    lttl_cache_try_get_or_set_with_mut_def alt_try_get_or_set_def
  by (rule refines_read, simp only: lt_abs_reads lt_runs_setter_wf expect_Some andthen_ret,
      intro refines_rules)+

lemma lttl_async_eq:
  "lttl_async_cache_get_or_set_with_mut = lttl_cache_get_or_set_with_mut"
  "lttl_async_cache_try_get_or_set_with_mut = lttl_cache_try_get_or_set_with_mut"
  unfolding lttl_async_cache_get_or_set_with_mut_def lttl_cache_get_or_set_with_mut_def
    lttl_async_cache_try_get_or_set_with_mut_def lttl_cache_try_get_or_set_with_mut_def
    lru_with_if_async_eq by (rule refl)+

lemma refines_lt_removals [refines_rules]:
  "refines (lt_wf entries bk) lt_abs (lttl_cache_remove T bk now q) (alt_remove bk now q)"
  "refines (lt_wf entries bk) lt_abs (lttl_cache_remove_entry T bk q) (alt_remove_entry bk q)"
  unfolding lttl_cache_remove_def alt_remove_def lttl_cache_remove_entry_def alt_remove_entry_def Let_def
  by (intro refines_rules)+

lemma refines_lt_set_max_size [refines_rules]:
  "refines (lt_wf entries bk) lt_abs (lttl_set_max_size T bk n) (alt_set_max_size bk n)"
  unfolding lttl_set_max_size_def alt_set_max_size_def
  by (intro refines_rules refines_modify) (simp add: lt_wf_def lt_abs_def)

lemma refines_lt_clear_with_on_evict [refines_rules]:
  "refines (lt_wf entries bk) lt_abs (lttl_cache_clear_with_on_evict T) alt_clear_with_on_evict"
  unfolding lttl_cache_clear_with_on_evict_def alt_clear_drain
  by (intro refines_inner refines_rules keeps_rules)

lemma lttl_cache_peek_wf:
  assumes "lt_wf entries bk c"
  shows "lt_inner (lru_cache_peek T bk q) c = (Returns (map_option snd (a_find bk q (lru_items (lt_store c)))), c)"
  using assms lt_inner_silent [of "lru_cache_peek T bk q" c, OF lru_cache_peek_wf]
  by (simp add: lt_wf_def)

lemma refines_lt_peek [refines_rules]:
  "refines (lt_wf entries bk) lt_abs (lt_inner (lru_cache_peek T bk q)) (alt_peek bk q)"
  by (rule refinesI) (simp add: refines_at_def lttl_cache_peek_wf alt_peek_def comp_simps)

text \<open>Sweeps: the slots of the doomed entries are removed one by one, then all of them are reported.\<close>

lemma lttl_remove_all_slots:
  assumes "lt_wf entries bk c" "lru_slots entries bk (lt_store c) is" "distinct js" "set js \<subseteq> set is"
  obtains d where "lttl_remove_all T bk js c = (Returns (map (ll_at (lru_order (lt_store c))) js), d)"
    "lt_wf entries bk d" "lt_abs d = (lt_abs c)\<lparr>lt_store := (lru_abs (lt_store c))\<lparr>al_items :=
       a_without_all bk (map (ll_at (lru_order (lt_store c))) js) (lru_items (lt_store c))\<rparr>\<rparr>"
  using assms
proof (induction js arbitrary: c "is" thesis)
  case Nil
  then show ?case by (intro Nil(1) [of c]) (simp_all add: ret_apply lt_abs_def)
next
  case (Cons i js)
  obtain k e where ke: "ll_at (lru_order (lt_store c)) i = (k, e)" by force
  have wf: "lru_wf entries bk (lt_store c)" and i: "i \<in> set is"
    using Cons.prems by (simp_all add: lt_wf_def)
  obtain s where s: "lru_remove_index T bk i (lt_store c) = (Returns (k, e), s)" "lru_wf entries bk s"
    "lru_slots entries bk s (remove1 i is)"
    "\<And>j. j \<in> set is \<Longrightarrow> j \<noteq> i \<Longrightarrow> ll_at (lru_order s) j = ll_at (lru_order (lt_store c)) j"
    "lru_abs s = (lru_abs (lt_store c))\<lparr>al_items := a_without bk (bk k) (lru_items (lt_store c))\<rparr>"
    using lru_remove_index_slots [OF wf Cons.prems(3) i ke] by metis
  note f = lru_abs_frame2 [OF s(5)] lru_abs_frame_calls [OF s(5)]
  let ?c1 = "c\<lparr>lt_store := s\<rparr>"
  have c1: "lt_wf entries bk ?c1" "lt_inner (lru_remove_index T bk i) c = (Returns (k, e), ?c1)"
    using Cons.prems(2) s(2) f lt_inner_silent [of "lru_remove_index T bk i", OF s(1)]
    by (simp_all add: lt_wf_def)
  have "distinct is" using Cons.prems(3) by (auto simp: lru_slots_def distinct_map)
  then have sub: "set js \<subseteq> set (remove1 i is)" using Cons.prems(4,5) by auto
  have same: "map (ll_at (lru_order s)) js = map (ll_at (lru_order (lt_store c))) js"
    using Cons.prems(4,5) s(4) by (intro map_cong [OF refl]) auto
  obtain d where d: "lttl_remove_all T bk js ?c1 = (Returns (map (ll_at (lru_order (lt_store c))) js), d)"
    "lt_wf entries bk d" "lt_abs d = (lt_abs ?c1)\<lparr>lt_store := (lru_abs s)\<lparr>al_items :=
       a_without_all bk (map (ll_at (lru_order (lt_store c))) js) (lru_items s)\<rparr>\<rparr>"
    using Cons.IH [of ?c1 _ "remove1 i is"] c1(1) s(3) sub Cons.prems(4) same
    by (auto simp del: map_eq_conv)
  show ?case
  proof (rule Cons.prems(1) [of d])
    show "lttl_remove_all T bk (i # js) c = (Returns (map (ll_at (lru_order (lt_store c))) (i # js)), d)"
      using c1(2) d(1) ke by (simp add: comp_simps)
    show "lt_abs d = (lt_abs c)\<lparr>lt_store := (lru_abs (lt_store c))\<lparr>al_items :=
       a_without_all bk (map (ll_at (lru_order (lt_store c))) (i # js)) (lru_items (lt_store c))\<rparr>\<rparr>"
      using d(3) s(5) f ke by (simp add: a_without_all_Cons lt_abs_put)
  qed (rule d(2))
qed

lemma lttl_doomed_slots:
  assumes "lru_slots entries bk (lt_store c) is"
  shows "filter_closure (\<lambda>kv. doomed (fst kv) (snd kv)) (lru_items (lt_store c)) =
      map_option (map (ll_at (lru_order (lt_store c)))) (lttl_doomed_indices doomed c)"
    and "lttl_doomed_indices doomed c = Some js \<Longrightarrow> set js \<subseteq> set is \<and> distinct js"
proof -
  let ?o = "lru_order (lt_store c)"
  obtain free where r: "ll_rep ?o is free" using assms by (auto simp: lru_slots_def)
  have d: "lttl_doomed_indices doomed c =
      filter_closure (\<lambda>i. do { kv \<leftarrow> ll_get i ?o; doomed (fst kv) (snd kv) }) is"
    using ll_iter_rep(2) [OF r] by (simp add: lttl_doomed_indices_def)
  also have "\<dots> = filter_closure (\<lambda>i. doomed (fst (ll_at ?o i)) (snd (ll_at ?o i))) is"
    using lru_slots_get [OF assms] by (intro filter_closure_cong) simp
  finally show "filter_closure (\<lambda>kv. doomed (fst kv) (snd kv)) (lru_items (lt_store c)) =
      map_option (map (ll_at ?o)) (lttl_doomed_indices doomed c)"
    by (simp add: lru_slots_items [OF assms] filter_closure_map)
  have "distinct is" using assms by (auto simp: lru_slots_def distinct_map)
  then show "lttl_doomed_indices doomed c = Some js \<Longrightarrow> set js \<subseteq> set is \<and> distinct js"
    by (auto simp: d dest!: filter_closure_Some)
qed

lemma lt_sweep_at:
  assumes c: "lt_wf entries bk c"
  shows "refines_at (lt_wf entries bk) lt_abs (andthen get_state (\<lambda>c.
     andthen (expect (lttl_doomed_indices doomed c)) (lttl_remove_and_notify T bk))) (alt_sweep bk doomed) c"
proof -
  obtain "is" where sl: "lru_slots entries bk (lt_store c) is" using c by (auto simp: lt_wf_def lru_wf_def)
  note doomed = lttl_doomed_slots [OF sl, of doomed]
  show ?thesis
  proof (cases "lttl_doomed_indices doomed c")
    case None
    then show ?thesis using c doomed(1) by (simp add: refines_at_def alt_sweep_def comp_simps)
  next
    case (Some js)
    let ?out = "map (ll_at (lru_order (lt_store c))) js"
    obtain d where d: "lttl_remove_all T bk js c = (Returns ?out, d)" "lt_wf entries bk d"
      "lt_abs d = (lt_abs c)\<lparr>lt_store := (lru_abs (lt_store c))\<lparr>al_items :=
         a_without_all bk ?out (lru_items (lt_store c))\<rparr>\<rparr>"
      using lttl_remove_all_slots [OF c sl, of js] doomed(2) [OF Some] by blast
    show ?thesis
    proof (rule refines_via [OF refines_notify_all d(2)])
      show "andthen get_state (\<lambda>c. andthen (expect (lttl_doomed_indices doomed c)) (lttl_remove_and_notify T bk)) c =
          lttl_notify_all ?out d"
        using Some d(1) by (simp add: lttl_remove_and_notify_def comp_simps)
      show "alt_sweep bk doomed (lt_abs c) = lttl_notify_all ?out (lt_abs d)"
        using Some doomed(1) d(3) lt_wf_quiet [OF c]
        by (simp add: alt_sweep_def alt_inner_def al_set_items_def comp_simps) (simp add: lt_abs_def lru_abs_def)
    qed
  qed
qed

lemma refines_lt_sweeps [refines_rules]:
  "refines (lt_wf entries bk) lt_abs (lttl_evict T bk now) (alt_sweep bk (\<lambda>k e. Some (\<not> lt_live now e)))"
  "refines (lt_wf entries bk) lt_abs (lttl_retain T bk keep now) (alt_sweep bk (\<lambda>k e.
     if \<not> lt_live now e then Some True else map_option Not (keep k (te_value e))))"
  unfolding lttl_evict_def lttl_retain_def
  by (rule refinesI, rule lt_sweep_at, assumption)+

end

end
