(* ===== verification/Lru_Ttl_Machine.thy ===== *)
theory Lru_Ttl_Machine
  imports Lru_Ttl_Refine
begin

text \<open>
  \<open>LruTtlCache\<close> as a state machine, its simulation by the specification of \<open>Lru_Ttl_Refine\<close> under the
  contract \<open>lru_env\<close>, and the invariants of the specification over executions. Every operation carries
  the instants that its calls of \<open>Instant::now\<close> return.
\<close>

datatype (plugins only: code size) (dead 'k, dead 'v, dead 'q, dead 'e) lttl_op =
    LGet instant 'q
  | LGetMut instant 'q "'v \<Rightarrow> 'v"
  | LGetStatus instant 'q
  | LSet instant 'k 'v
  | LGetOrSet instant instant 'k "'v outcome" "'v \<Rightarrow> 'v"
  | LTryGetOrSet instant instant 'k "('e + 'v) outcome" "'v \<Rightarrow> 'v"
  | LAsyncGetOrSet instant instant 'k "'v outcome" "'v \<Rightarrow> 'v"
  | LAsyncTryGetOrSet instant instant 'k "('e + 'v) outcome" "'v \<Rightarrow> 'v"
  | LRemove instant 'q
  | LRemoveEntry 'q
  | LPeek instant 'q
  | LPeekStatus instant 'q
  | LContains instant 'q
  | LEvict instant
  | LRetain "('k, 'v) predicate" instant
  | LSetMaxSize usize
  | LTrySetMaxSize usize
  | LSetTtl duration
  | LUnsetTtl
  | LSetRefresh bool
  | LClear
  | LClearWithOnEvict
  | LResetMetrics
  | LReset

datatype (plugins only: code size) (dead 'k, dead 'v, dead 'e) lttl_result =
    LUnit | LValue 'v | LTry "'e + 'v" | LLookup "'v option" | LStatus "'v option \<times> bool"
  | LEntry "('k \<times> 'v) option" | LBool bool | LCount usize | LCapacity "usize option"
  | LTryCapacity "set_max_size_error + usize option" | LDuration "duration option"

fun lttl_exec :: "'t table_ops \<Rightarrow> ('k \<Rightarrow> 'q) \<Rightarrow> (usize \<Rightarrow> bool) \<Rightarrow> ('k, 'v, 'q, 'e) lttl_op
    \<Rightarrow> (('k, 'v, 'q, 't) lttl, ('k, 'v, 'e) lttl_result) comp" where
  "lttl_exec T bk alloc (LGet now q) = as_result (lttl_cache_get T bk now q) LLookup"
| "lttl_exec T bk alloc (LGetMut now q upd) = as_result (lttl_cache_get_mut T bk now q upd) LLookup"
| "lttl_exec T bk alloc (LGetStatus now q) = as_result (lttl_cache_get_with_expiry_status T bk now q) LStatus"
| "lttl_exec T bk alloc (LSet now k v) = as_result (lttl_cache_set T bk now k v) LLookup"
| "lttl_exec T bk alloc (LGetOrSet now later k f upd) =
     as_result (lttl_cache_get_or_set_with_mut T bk now later k f upd) LValue"
| "lttl_exec T bk alloc (LTryGetOrSet now later k f upd) =
     as_result (lttl_cache_try_get_or_set_with_mut T bk now later k f upd) LTry"
| "lttl_exec T bk alloc (LAsyncGetOrSet now later k f upd) =
     as_result (lttl_async_cache_get_or_set_with_mut T bk now later k f upd) LValue"
| "lttl_exec T bk alloc (LAsyncTryGetOrSet now later k f upd) =
     as_result (lttl_async_cache_try_get_or_set_with_mut T bk now later k f upd) LTry"
| "lttl_exec T bk alloc (LRemove now q) = as_result (lttl_cache_remove T bk now q) LLookup"
| "lttl_exec T bk alloc (LRemoveEntry q) = as_result (lttl_cache_remove_entry T bk q) LEntry"
| "lttl_exec T bk alloc (LPeek now q) = as_result (lttl_cache_peek T bk now q) LLookup"
| "lttl_exec T bk alloc (LPeekStatus now q) = as_result (lttl_cache_peek_with_expiry_status T bk now q) LStatus"
| "lttl_exec T bk alloc (LContains now q) = as_result (lttl_cache_contains T bk now q) LBool"
| "lttl_exec T bk alloc (LEvict now) = as_result (lttl_evict T bk now) LCount"
| "lttl_exec T bk alloc (LRetain keep now) = as_result (lttl_retain T bk keep now) LCount"
| "lttl_exec T bk alloc (LSetMaxSize n) = as_result (lttl_set_max_size T bk n) LCapacity"
| "lttl_exec T bk alloc (LTrySetMaxSize n) = as_result (lttl_try_set_max_size T bk n) LTryCapacity"
| "lttl_exec T bk alloc (LSetTtl ttl) = as_result (lttl_set_ttl ttl) LDuration"
| "lttl_exec T bk alloc LUnsetTtl = as_result lttl_unset_ttl LDuration"
| "lttl_exec T bk alloc (LSetRefresh r) = as_result (lttl_set_refresh_on_hit r) LBool"
| "lttl_exec T bk alloc LClear = as_result (lttl_cache_clear T) (\<lambda>_. LUnit)"
| "lttl_exec T bk alloc LClearWithOnEvict = as_result (lttl_cache_clear_with_on_evict T) (\<lambda>_. LUnit)"
| "lttl_exec T bk alloc LResetMetrics = as_result lttl_cache_reset_metrics (\<lambda>_. LUnit)"
| "lttl_exec T bk alloc LReset = as_result (lttl_cache_reset T alloc) (\<lambda>_. LUnit)"

text \<open>The same operations of the specification.\<close>

fun alt_exec :: "('k \<Rightarrow> 'q) \<Rightarrow> ('k, 'v, 'q, 'e) lttl_op \<Rightarrow> (('k, 'v) alttl, ('k, 'v, 'e) lttl_result) comp" where
  "alt_exec bk (LGet now q) = as_result (alt_get_mut bk now q id) LLookup"
| "alt_exec bk (LGetMut now q upd) = as_result (alt_get_mut bk now q upd) LLookup"
| "alt_exec bk (LGetStatus now q) = as_result (alt_get_with_expiry_status bk now q) LStatus"
| "alt_exec bk (LSet now k v) = as_result (alt_set bk now k v) LLookup"
| "alt_exec bk (LGetOrSet now later k f upd) = as_result (alt_get_or_set bk now later k f upd) LValue"
| "alt_exec bk (LTryGetOrSet now later k f upd) = as_result (alt_try_get_or_set bk now later k f upd) LTry"
| "alt_exec bk (LAsyncGetOrSet now later k f upd) = as_result (alt_get_or_set bk now later k f upd) LValue"
| "alt_exec bk (LAsyncTryGetOrSet now later k f upd) = as_result (alt_try_get_or_set bk now later k f upd) LTry"
| "alt_exec bk (LRemove now q) = as_result (alt_remove bk now q) LLookup"
| "alt_exec bk (LRemoveEntry q) = as_result (alt_remove_entry bk q) LEntry"
| "alt_exec bk (LPeek now q) = as_result (andthen (alt_peek bk q) (\<lambda>e. ret (case e of
     Some e \<Rightarrow> if lt_live now e then Some (te_value e) else None | None \<Rightarrow> None))) LLookup"
| "alt_exec bk (LPeekStatus now q) = as_result (andthen (alt_peek bk q) (\<lambda>e. ret (case e of
     Some e \<Rightarrow> (Some (te_value e), \<not> lt_live now e) | None \<Rightarrow> (None, False)))) LStatus"
| "alt_exec bk (LContains now q) = as_result (andthen (andthen (alt_peek bk q) (\<lambda>e. ret (case e of
     Some e \<Rightarrow> if lt_live now e then Some (te_value e) else None | None \<Rightarrow> None))) (\<lambda>v. ret (v \<noteq> None))) LBool"
| "alt_exec bk (LEvict now) = as_result (alt_sweep bk (\<lambda>k e. Some (\<not> lt_live now e))) LCount"
| "alt_exec bk (LRetain keep now) = as_result (alt_sweep bk (\<lambda>k e.
     if \<not> lt_live now e then Some True else map_option Not (keep k (te_value e)))) LCount"
| "alt_exec bk (LSetMaxSize n) = as_result (alt_set_max_size bk n) LCapacity"
| "alt_exec bk (LTrySetMaxSize n) = as_result (if n = 0 then ret (Inl ZeroMaxSize)
     else andthen (alt_set_max_size bk n) (\<lambda>p. ret (Inr p))) LTryCapacity"
| "alt_exec bk (LSetTtl ttl) = as_result (lttl_set_ttl ttl) LDuration"
| "alt_exec bk LUnsetTtl = as_result lttl_unset_ttl LDuration"
| "alt_exec bk (LSetRefresh r) = as_result (lttl_set_refresh_on_hit r) LBool"
| "alt_exec bk LClear = as_result (alt_inner (al_set_items [])) (\<lambda>_. LUnit)"
| "alt_exec bk LClearWithOnEvict = as_result alt_clear_with_on_evict (\<lambda>_. LUnit)"
| "alt_exec bk LResetMetrics = as_result (andthen (modify (\<lambda>c. c\<lparr>lt_misses := 0, lt_hits := 0,
     lt_evictions := 0\<rparr>)) (\<lambda>_. alt_inner al_reset_metrics)) (\<lambda>_. LUnit)"
| "alt_exec bk LReset = as_result (andthen (alt_inner (andthen (al_set_items []) (\<lambda>_. al_reset_metrics)))
     (\<lambda>_. modify (\<lambda>c. c\<lparr>lt_hits := 0, lt_misses := 0, lt_evictions := 0\<rparr>))) (\<lambda>_. LUnit)"

section \<open>Simulation\<close>

lemma refines_lt_settings [refines_rules]:
  "refines (lt_wf entries bk) lt_abs (lttl_set_ttl ttl) (lttl_set_ttl ttl)"
  "refines (lt_wf entries bk) lt_abs lttl_unset_ttl lttl_unset_ttl"
  "refines (lt_wf entries bk) lt_abs (lttl_set_refresh_on_hit r) (lttl_set_refresh_on_hit r)"
  "refines (lt_wf entries bk) lt_abs (modify (\<lambda>c. c\<lparr>lt_misses := 0, lt_hits := 0, lt_evictions := 0\<rparr>))
     (modify (\<lambda>c. c\<lparr>lt_misses := 0, lt_hits := 0, lt_evictions := 0\<rparr>))"
  "refines (lt_wf entries bk) lt_abs (modify (\<lambda>c. c\<lparr>lt_hits := 0, lt_misses := 0, lt_evictions := 0\<rparr>))
     (modify (\<lambda>c. c\<lparr>lt_hits := 0, lt_misses := 0, lt_evictions := 0\<rparr>))"
  by (simp_all add: refines_def refines_at_def lttl_set_ttl_def lttl_unset_ttl_def
      lttl_set_refresh_on_hit_def comp_simps lt_wf_def lt_abs_def)

context hash_table
begin

lemma refines_lttl_exec:
  "alloc 2 \<Longrightarrow> refines (lt_wf entries bk) lt_abs (lttl_exec T bk alloc op) (alt_exec bk op)"
  by (cases op) (simp_all only: lttl_exec.simps alt_exec.simps lttl_async_eq lttl_cache_peek_def
      lttl_cache_contains_def lttl_cache_peek_with_expiry_status_def lttl_try_set_max_size_def
      lttl_cache_clear_def lttl_cache_reset_metrics_def lttl_cache_reset_def,
      (intro refines_rules refines_lt_reset; assumption)+)

end

sublocale lru_env \<subseteq> lttl: simulation "lttl_exec T bk alloc" "alt_exec bk" "lt_wf entries bk" lt_abs
  by unfold_locales (intro refines_lttl_exec alloc_sentinels)

section \<open>Invariants of the specification\<close>

text \<open>
  Three predicates on the inner store: \<open>al_inv\<close> of \<open>Lru_Invariants\<close>, a fixed capacity, and that its
  eviction counter has grown by one for every call of the callback.
\<close>

definition al_counted :: "('k, 'v) callback \<Rightarrow> u64 \<Rightarrow> ('k, 'v) alru \<Rightarrow> bool" where
  "al_counted cb e s \<longleftrightarrow> al_on_evict s = Some cb \<and> al_evictions s = e + of_nat (length (al_calls s))"

definition al_cap :: "usize \<Rightarrow> ('k, 'v) alru \<Rightarrow> bool" where
  "al_cap n s \<longleftrightarrow> al_capacity s = n"

lemma al_counted_parts [keeps_rules]:
  "keeps (al_counted cb e) al_record_hit" "keeps (al_counted cb e) al_record_miss"
  "keeps (al_counted cb e) (al_set_items xs)" "keeps (al_counted cb e) (al_drop_entry bk kv)"
  "keeps (al_counted cb e) (modify (\<lambda>s. s\<lparr>al_items := f s\<rparr>))"
  "keeps (al_counted cb e) (modify (\<lambda>s. s\<lparr>al_capacity := n\<rparr>))"
  by (simp_all add: keeps_def al_counted_def al_record_hit_def al_record_miss_def
      al_set_items_def al_drop_entry_apply modify_def)

lemma al_cap_parts [keeps_rules]:
  "keeps (al_cap c) al_record_hit" "keeps (al_cap c) al_record_miss" "keeps (al_cap c) al_reset_metrics"
  "keeps (al_cap c) (al_set_items xs)" "keeps (al_cap c) (al_drop_entry bk kv)"
  "keeps (al_cap c) (modify (\<lambda>s. s\<lparr>al_items := f s\<rparr>))"
  by (simp_all add: keeps_def al_cap_def al_record_hit_def al_record_miss_def al_reset_metrics_def
      al_set_items_def al_drop_entry_apply modify_def)

lemma keeps_check_capacity [keeps_rules]:
  "(\<And>kv. keeps I (al_drop_entry bk kv)) \<Longrightarrow> keeps I (al_check_capacity bk)"
  by (rule keepsI) (simp add: al_check_capacity_def keepsD [OF keeps_foreach])

lemma al_counted_ops [keeps_rules]:
  "keeps (al_counted cb e) (al_get_mut_if bk q is_valid upd)"
  "keeps (al_counted cb e) (al_try_get_or_set_with_if bk key f is_valid upd)"
  "keeps (al_counted cb e) (al_set bk key val)" "keeps (al_counted cb e) (al_pop bk q)"
  "keeps (al_counted cb e) (al_set_max_size bk n)"
  unfolding al_get_mut_if_def al_try_get_or_set_with_if_def al_set_def al_pop_def al_set_max_size_def
  by (intro keeps_rules)+

lemma al_cap_ops [keeps_rules]:
  "keeps (al_cap c) (al_get_mut_if bk q is_valid upd)"
  "keeps (al_cap c) (al_try_get_or_set_with_if bk key f is_valid upd)"
  "keeps (al_cap c) (al_set bk key val)" "keeps (al_cap c) (al_pop bk q)"
  unfolding al_get_mut_if_def al_try_get_or_set_with_if_def al_set_def al_pop_def
  by (intro keeps_rules)+

lemma al_get_or_set_keeps [keeps_rules]:
  "keeps (al_counted cb e) (al_get_or_set_with_if bk key f is_valid upd)"
  "keeps (al_cap c) (al_get_or_set_with_if bk key f is_valid upd)"
  unfolding al_get_or_set_with_if_def by (intro keeps_rules)+

definition alt_inv :: "('k \<Rightarrow> 'q) \<Rightarrow> ('k, 'v) callback option \<Rightarrow> ('k, 'v) alttl \<Rightarrow> bool" where
  "alt_inv bk cb a \<longleftrightarrow> al_inv bk (map_option lttl_callback cb) (lt_store a) \<and> al_calls (lt_store a) = [] \<and>
     lt_on_evict a = cb \<and> (quiet cb \<longrightarrow> lt_size a = al_capacity (lt_store a))"

definition alt_counted :: "('k, 'v) callback \<Rightarrow> ('k, 'v) alttl \<Rightarrow> bool" where
  "alt_counted cb a \<longleftrightarrow> lt_on_evict a = Some cb \<and> quiet (Some cb) \<and>
     al_on_evict (lt_store a) = Some (lttl_callback cb) \<and> al_calls (lt_store a) = [] \<and>
     lt_evictions a + al_evictions (lt_store a) = of_nat (length (lt_calls a))"

lemma quiet_lttl_callback: "quiet (map_option lttl_callback cb) \<longleftrightarrow> quiet cb"
  by (auto simp: quiet_def lttl_callback_def) (metis timed_entry.select_convs(2))

lemma alt_inv_inner:
  assumes "\<And>cb. keeps (al_inv bk cb) n" "\<And>c. keeps (al_cap c) n"
  shows "keeps (alt_inv bk cb) (alt_inner n)"
proof (rule keepsI)
  fix a assume a: "alt_inv bk cb a"
  obtain r s where s: "n (lt_store a) = (r, s)" by force
  have "al_inv bk (map_option lttl_callback cb) s" "al_capacity s = al_capacity (lt_store a)"
    using keepsD [OF assms(1), of _ "lt_store a"] keepsD [OF assms(2), of "al_capacity (lt_store a)" "lt_store a"] a s
    by (simp_all add: alt_inv_def al_cap_def)
  then show "alt_inv bk cb (snd (alt_inner n a))"
    using a s by (simp add: alt_inv_def alt_inner_def al_inv_def)
qed

lemma alt_counted_inner:
  assumes "\<And>cb e. keeps (al_counted cb e) n"
  shows "keeps (alt_counted cb) (alt_inner n)"
proof (rule keepsI)
  fix a assume a: "alt_counted cb a"
  obtain r s where s: "n (lt_store a) = (r, s)" by force
  have "al_counted (lttl_callback cb) (al_evictions (lt_store a)) s"
    using keepsD [OF assms, of "lttl_callback cb" "al_evictions (lt_store a)" "lt_store a"] a s
    by (simp add: alt_counted_def al_counted_def)
  then show "alt_counted cb (snd (alt_inner n a))"
    using a s by (simp add: alt_counted_def al_counted_def alt_inner_def add.assoc)
qed

lemma alt_inv_parts [keeps_rules]:
  "keeps (alt_inv bk cb) lt_hit" "keeps (alt_inv bk cb) lt_miss" "keeps (alt_inv bk cb) (lt_count n)"
  "keeps (alt_inv bk cb) (lt_notify k v)" "keeps (alt_inv bk cb) (lttl_set_ttl ttl)"
  "keeps (alt_inv bk cb) lttl_unset_ttl" "keeps (alt_inv bk cb) (lttl_set_refresh_on_hit r)"
  "keeps (alt_inv bk cb) (modify (\<lambda>c. c\<lparr>lt_misses := 0, lt_hits := 0, lt_evictions := 0\<rparr>))"
  "keeps (alt_inv bk cb) (modify (\<lambda>c. c\<lparr>lt_hits := 0, lt_misses := 0, lt_evictions := 0\<rparr>))"
  by (simp_all add: keeps_def alt_inv_def lt_hit_def lt_miss_def lt_count_def lt_notify_apply
      lttl_set_ttl_def lttl_unset_ttl_def lttl_set_refresh_on_hit_def comp_simps)

lemma lt_report_apply: "lt_report k e c =
   (if cb_ok (lt_on_evict c) k (te_value e) then Returns () else Panics,
    c\<lparr>lt_evictions := lt_evictions c + 1, lt_calls := lt_calls c @ cb_calls (lt_on_evict c) [(k, te_value e)]\<rparr>)"
  by (simp add: lt_report_def lt_count_def lt_notify_apply comp_simps)

lemma alt_inv_reports [keeps_rules]:
  "keeps (alt_inv bk cb) (lt_report k e)" "keeps (alt_inv bk cb) (lt_settle out)"
  "keeps (alt_inv bk cb) (lttl_notify_all out')"
  unfolding lt_report_def lt_settle_def lttl_notify_all_def by (intro keeps_rules)+

lemma alt_inv_clear [keeps_rules]:
  "keeps (alt_inv bk cb) (alt_inner (al_set_items []))" "keeps (alt_inv bk cb) (alt_inner al_reset_metrics)"
  "keeps (alt_inv bk cb) (alt_inner (andthen (al_set_items []) (\<lambda>_. al_reset_metrics)))"
  by (intro alt_inv_inner keeps_rules)+

lemma alt_inv_pop [keeps_rules]: "keeps (alt_inv bk cb) (alt_inner (al_pop bk q))"
  by (intro alt_inv_inner keeps_rules)

lemma alt_peek_keeps [keeps_rules]: "keeps I (alt_peek bk q)"
  by (simp add: keeps_def alt_peek_def comp_simps)

lemma alt_inv_ops [keeps_rules]:
  "keeps (alt_inv bk cb) (alt_get_mut bk now q upd)"
  "keeps (alt_inv bk cb) (alt_get_with_expiry_status bk now q)"
  "keeps (alt_inv bk cb) (alt_set bk now key val)"
  "keeps (alt_inv bk cb) (alt_get_or_set bk now later key f upd)"
  "keeps (alt_inv bk cb) (alt_try_get_or_set bk now later key g upd)"
  "keeps (alt_inv bk cb) (alt_remove bk now q)" "keeps (alt_inv bk cb) (alt_remove_entry bk q)"
  "keeps (alt_inv bk cb) alt_clear_with_on_evict"
  unfolding alt_get_mut_def alt_expire_def alt_get_with_expiry_status_def alt_set_def alt_get_or_set_def
    alt_try_get_or_set_def alt_remove_def alt_remove_entry_def alt_clear_with_on_evict_def Let_def
  by (intro keeps_rules alt_inv_inner)+

lemma alt_inv_sweep [keeps_rules]: "keeps (alt_inv bk cb) (alt_sweep bk doomed)"
  unfolding alt_sweep_def
proof (rule keeps_state)
  fix a assume a: "alt_inv bk cb a"
  have "al_inv bk (map_option lttl_callback cb) ((lt_store a)\<lparr>al_items := a_without_all bk out (al_items (lt_store a))\<rparr>)" for out
    using a by (intro al_inv_shrink) (auto simp: alt_inv_def al_inv_def a_without_all_def intro: a_wf_filter)
  then have "alt_inv bk cb (snd (alt_inner (al_set_items (a_without_all bk out (al_items (lt_store a)))) a))" for out
    using a by (simp add: alt_inv_def alt_inner_def al_set_items_def modify_apply al_inv_def)
  then have "alt_inv bk cb (snd (andthen (alt_inner (al_set_items (a_without_all bk out (al_items (lt_store a)))))
      (\<lambda>_. lttl_notify_all out) a))" for out
    by (rule keeps_after) (intro keeps_rules)
  then show "alt_inv bk cb (snd (andthen
      (expect (filter_closure (\<lambda>kv. doomed (fst kv) (snd kv)) (al_items (lt_store a))))
      (\<lambda>out. andthen (alt_inner (al_set_items (a_without_all bk out (al_items (lt_store a)))))
        (\<lambda>_. lttl_notify_all out)) a))"
    using a by (cases "filter_closure (\<lambda>kv. doomed (fst kv) (snd kv)) (al_items (lt_store a))")
      (simp_all add: expect_def panic_apply)
qed

lemma al_set_max_size_quiet:
  assumes "al_inv bk cb s" "quiet cb" "0 < n"
  shows "fst (al_set_max_size bk n s) = Returns (Some (al_capacity s)) \<and> al_capacity (snd (al_set_max_size bk n s)) = n"
  using assms al_inv_wf [OF assms(1)] by (simp add: al_set_max_size_closed al_evicted_def)

lemma alt_inv_set_max_size [keeps_rules]: "keeps (alt_inv bk cb) (alt_set_max_size bk n)"
proof (rule keepsI)
  fix a assume a: "alt_inv bk cb a"
  obtain r s where s: "al_set_max_size bk n (lt_store a) = (r, s)" by force
  have inner: "al_inv bk (map_option lttl_callback cb) (lt_store a)" using a by (simp add: alt_inv_def)
  then have "al_inv bk (map_option lttl_callback cb) s" using al_inv_set_max_size_at [OF inner, of n] s by simp
  moreover have "n \<noteq> 0 \<Longrightarrow> quiet cb \<Longrightarrow> r \<noteq> Panics \<and> r \<noteq> Diverges"
    using al_set_max_size_quiet [OF inner, of n] s by (simp add: quiet_lttl_callback)
  ultimately show "alt_inv bk cb (snd (alt_set_max_size bk n a))"
    using a s
    by (cases "n = 0"; cases r)
      (auto simp: alt_set_max_size_def alt_inv_def alt_inner_def al_inv_def comp_simps)
qed

lemma alt_inv_exec: "keeps (alt_inv bk cb) (alt_exec bk op)"
  by (cases op) (simp_all only: alt_exec.simps, (intro keeps_rules)+)

interpretation alt: machine_invariant "alt_exec bk" "alt_inv bk cb" for bk cb
  by unfold_locales (rule keepsD [OF alt_inv_exec])

section \<open>Counting evictions\<close>

lemma lt_notify_batch:
  "foreach kes (\<lambda>(k, e). lt_notify k (te_value e)) c =
     (if all_ok (lt_on_evict c) (map (apsnd te_value) kes) then Returns () else Panics,
      c\<lparr>lt_calls := lt_calls c @ cb_calls (lt_on_evict c) (processed (lt_on_evict c) (map (apsnd te_value) kes))\<rparr>)"
proof (induction kes arbitrary: c)
  case (Cons ke kes)
  then show ?case
    by (cases ke; cases "lt_on_evict c") (simp_all add: andthen_apply lt_notify_apply)
qed (simp add: ret_apply)

lemma lttl_notify_all_apply:
  "lttl_notify_all kes c =
     (if all_ok (lt_on_evict c) (map (apsnd te_value) kes) then Returns (length kes) else Panics,
      c\<lparr>lt_evictions := lt_evictions c + of_nat (length kes),
        lt_calls := lt_calls c @ cb_calls (lt_on_evict c) (processed (lt_on_evict c) (map (apsnd te_value) kes))\<rparr>)"
proof -
  have "cwhen (kes \<noteq> []) (lt_count (length kes)) c =
      (Returns (), c\<lparr>lt_evictions := lt_evictions c + of_nat (length kes)\<rparr>)"
    by (cases kes) (simp_all add: cwhen_def lt_count_def comp_simps)
  then show ?thesis
    by (simp add: lttl_notify_all_def andthen_apply lt_notify_batch ret_apply)
qed

lemma alt_counted_parts [keeps_rules]:
  "keeps (alt_counted cb) lt_hit" "keeps (alt_counted cb) lt_miss" "keeps (alt_counted cb) (lt_report k e)"
  "keeps (alt_counted cb) (lttl_notify_all out)" "keeps (alt_counted cb) (lttl_set_ttl ttl)"
  "keeps (alt_counted cb) lttl_unset_ttl" "keeps (alt_counted cb) (lttl_set_refresh_on_hit r)"
  "keeps (alt_counted cb) (modify (\<lambda>c. c\<lparr>lt_size := f c\<rparr>))"
  by (auto simp: keeps_def alt_counted_def lt_hit_def lt_miss_def lt_report_apply lttl_notify_all_apply
      lttl_set_ttl_def lttl_unset_ttl_def lttl_set_refresh_on_hit_def comp_simps processed_all algebra_simps)

lemma alt_counted_settle [keeps_rules]: "keeps (alt_counted cb) (lt_settle out)"
  unfolding lt_settle_def by (intro keeps_rules)

lemma alt_counted_ops [keeps_rules]:
  "keeps (alt_counted cb) (alt_get_mut bk now q upd)"
  "keeps (alt_counted cb) (alt_get_with_expiry_status bk now q)"
  "keeps (alt_counted cb) (alt_set bk now key val)"
  "keeps (alt_counted cb) (alt_get_or_set bk now later key f upd)"
  "keeps (alt_counted cb) (alt_try_get_or_set bk now later key g upd)"
  "keeps (alt_counted cb) (alt_remove bk now q)" "keeps (alt_counted cb) (alt_remove_entry bk q)"
  "keeps (alt_counted cb) alt_clear_with_on_evict" "keeps (alt_counted cb) (alt_sweep bk doomed)"
  "keeps (alt_counted cb) (alt_set_max_size bk n)" "keeps (alt_counted cb) (alt_inner (al_set_items xs))"
  unfolding alt_get_mut_def alt_expire_def alt_get_with_expiry_status_def alt_set_def alt_get_or_set_def
    alt_try_get_or_set_def alt_remove_def alt_remove_entry_def alt_clear_with_on_evict_def alt_sweep_def
    alt_set_max_size_def expect_def Let_def
  by (intro keeps_rules alt_counted_inner)+

lemma alt_counted_exec:
  "op \<noteq> LResetMetrics \<Longrightarrow> op \<noteq> LReset \<Longrightarrow> keeps (alt_counted cb) (alt_exec bk op)"
  by (cases op) (simp_all only: alt_exec.simps simp_thms, (intro keeps_rules)+)

section \<open>Executions of the code\<close>

context lru_env
begin

lemma lttl_build_wf:
  assumes "lttl_build T table_alloc list_alloc b = Inr c"
  shows "lt_wf entries bk c" "lt_abs c = \<lparr>lt_store = \<lparr>al_items = [], al_capacity = the (ltb_size b), al_hits = 0,
      al_misses = 0, al_evictions = 0, al_on_evict = map_option lttl_callback (ltb_on_evict b),
      al_track_hit_miss = False, al_calls = []\<rparr>, lt_size = the (ltb_size b), lt_ttl = the (ltb_ttl b), lt_hits = 0,
      lt_misses = 0, lt_evictions = 0, lt_refresh = ltb_refresh b, lt_on_evict = ltb_on_evict b, lt_calls = []\<rparr>"
    "0 < the (ltb_size b)"
proof -
  obtain n ttl c0 where n: "ltb_size b = Some n" "ltb_ttl b = Some ttl"
    and c0: "lttl_new_internal T table_alloc list_alloc n ttl (ltb_refresh b) (ltb_hasher b) = Inr c0"
    and c: "c = lttl_sync_on_evict (c0\<lparr>lt_on_evict := ltb_on_evict b\<rparr>)"
    using assms by (auto simp: lttl_build_def split: option.splits sum.splits)
  obtain s where s: "lru_build T table_alloc list_alloc
      (lru_builder_hasher (ltb_hasher b) (lru_builder_max_size n (lru_builder_default (ltb_hasher b)))) = Inr s"
    and c0': "c0 = \<lparr>lt_store = lru_disable_hit_miss_tracking s, lt_size = n, lt_ttl = ttl,
          lt_hits = 0, lt_misses = 0, lt_evictions = 0, lt_refresh = ltb_refresh b, lt_on_evict = None, lt_calls = []\<rparr>"
    using c0 by (auto simp: lttl_new_internal_def split: sum.splits)
  note w = lru_build_wf [OF s]
  have t: "lru_on_evict s = None" "lru_calls s = []"
    using arg_cong [OF w(2), of al_on_evict] arg_cong [OF w(2), of al_calls]
    by (simp_all add: lru_builder_hasher_def lru_builder_max_size_def lru_builder_default_def)
  have u: "lru_wf entries bk (s\<lparr>lru_track_hit_miss := x, lru_on_evict := y\<rparr>)" "lru_wf entries bk (s\<lparr>lru_track_hit_miss := x\<rparr>)" for x y
    using w(1) [of bk] by (simp_all add: lru_wf_def lru_slots_def)
  show "lt_wf entries bk c"
    using u t by (simp add: c c0' lttl_sync_on_evict_def lru_disable_hit_miss_tracking_def lt_wf_def split: option.splits)
  show "0 < the (ltb_size b)"
    using w(1) [of bk] arg_cong [OF w(2), of al_capacity] n(1)
    by (simp add: lru_wf_def lru_builder_hasher_def lru_builder_max_size_def lru_builder_default_def)
  show "lt_abs c = \<lparr>lt_store = \<lparr>al_items = [], al_capacity = the (ltb_size b), al_hits = 0,
      al_misses = 0, al_evictions = 0, al_on_evict = map_option lttl_callback (ltb_on_evict b),
      al_track_hit_miss = False, al_calls = []\<rparr>, lt_size = the (ltb_size b), lt_ttl = the (ltb_ttl b), lt_hits = 0,
      lt_misses = 0, lt_evictions = 0, lt_refresh = ltb_refresh b, lt_on_evict = ltb_on_evict b, lt_calls = []\<rparr>"
    using w(2) t n
    by (auto simp: c c0' lttl_sync_on_evict_def lru_disable_hit_miss_tracking_def lt_abs_def lru_abs_def lru_items_def
        lru_builder_hasher_def lru_builder_max_size_def lru_builder_default_def split: option.splits)
qed

lemma lttl_execution:
  assumes "lttl_build T table_alloc list_alloc b = Inr c" "execution (lttl_exec T bk alloc) c tr d"
  shows "lt_wf entries bk d" "execution (alt_exec bk) (lt_abs c) tr (lt_abs d)" "alt_inv bk (ltb_on_evict b) (lt_abs d)"
proof -
  note c = lttl_build_wf [OF assms(1)]
  show d: "lt_wf entries bk d" "execution (alt_exec bk) (lt_abs c) tr (lt_abs d)"
    using lttl.simulates [OF assms(2) c(1)] by simp_all
  have "alt_inv bk (ltb_on_evict b) (lt_abs c)" using c(2,3) by (simp add: alt_inv_def al_inv_def)
  then show "alt_inv bk (ltb_on_evict b) (lt_abs d)" by (rule alt.inv_execution [OF d(2)])
qed

lemma lttl_execution_counted:
  assumes "lttl_build T table_alloc list_alloc b = Inr c" "execution (lttl_exec T bk alloc) c tr d"
    and "ltb_on_evict b = Some cb" "quiet (Some cb)"
    and "\<And>op. op \<in> set (map fst tr) \<Longrightarrow> op \<noteq> LResetMetrics \<and> op \<noteq> LReset"
  shows "alt_counted cb (lt_abs d)"
proof -
  have "alt_counted cb (lt_abs c)"
    using lttl_build_wf(2) [OF assms(1)] assms(3,4) by (simp add: alt_counted_def)
  with lttl_execution(2) [OF assms(1,2)] assms(5) show ?thesis
  proof (induction rule: execution.induct)
    case (call tr s op r t)
    then show ?case using keepsD [OF alt_counted_exec [of op cb bk], of s] by simp
  qed
qed

end

end
