(* ===== verification/Lru_Ttl_Correct.thy ===== *)
theory Lru_Ttl_Correct
  imports Lru_Ttl_Machine Lru_Correct
begin

text \<open>
  What a client of \<open>LruTtlCache\<close> can rely on: recency and capacity of \<open>LruCache\<close>, the life time of
  \<open>TtlCache\<close>, and one account of evictions over the wrapper and the store inside it.
\<close>

definition lttl_demo_builder :: "usize \<Rightarrow> (nat, nat) callback option \<Rightarrow> (nat, nat, nat) lttl_builder" where
  "lttl_demo_builder n cb = \<lparr>ltb_size = Some n, ltb_ttl = Some 10, ltb_refresh = True, ltb_on_evict = cb,
     ltb_hasher = (\<lambda>_. 0)\<rparr>"

definition lttl_demo :: "usize \<Rightarrow> (nat, nat) callback option \<Rightarrow> (nat, nat, nat, (u64 \<times> usize) list) lttl" where
  "lttl_demo n cb = \<lparr>lt_store = \<lparr>lru_store = [], lru_hash_builder = (\<lambda>_. 0),
       lru_order = \<lparr>ll_values = ll_sentinels\<rparr>, lru_capacity = n, lru_hits = 0, lru_misses = 0, lru_evictions = 0,
       lru_on_evict = map_option lttl_callback cb, lru_track_hit_miss = False, lru_calls = []\<rparr>,
     lt_size = n, lt_ttl = 10, lt_hits = 0, lt_misses = 0, lt_evictions = 0, lt_refresh = True,
     lt_on_evict = cb, lt_calls = []\<rparr>"

lemma lttl_demo_build:
  "0 < n \<Longrightarrow> n \<le> 100 \<Longrightarrow>
     lttl_build list_table (\<lambda>_. True) (\<lambda>_. True) (lttl_demo_builder n cb) = Inr (lttl_demo n cb)"
  by (cases cb) (simp_all add: lttl_build_def lttl_new_internal_def lttl_demo_builder_def lttl_demo_def
      list_table_def lru_build_def lru_builder_hasher_def lru_builder_max_size_def lru_builder_default_def
      lru_disable_hit_miss_tracking_def lttl_sync_on_evict_def validate_ttl_def
      ll_try_with_capacity_def usize_checked_add_def usize_max_def)

text \<open>Two entries set at the instants 0 and 5; key 2 is the more recent one.\<close>

definition lttl_filled :: "(nat, nat) callback option \<Rightarrow> (nat, nat, nat, (u64 \<times> usize) list) lttl" where
  "lttl_filled cb = snd (run (lttl_exec list_table id (\<lambda>_. True))
     [LSet 0 1 100, LSet 5 2 200 :: (nat, nat, nat, unit) lttl_op] (lttl_demo 2 cb))"

lemma lttl_filled_execution:
  "execution (lttl_exec list_table id (\<lambda>_. True)) (lttl_demo 2 cb)
     (fst (run (lttl_exec list_table id (\<lambda>_. True))
        [LSet 0 1 100, LSet 5 2 200 :: (nat, nat, nat, unit) lttl_op] (lttl_demo 2 cb))) (lttl_filled cb)"
  unfolding lttl_filled_def by (rule run_execution)

lemma lttl_filled_wf: "lt_wf mset id (lttl_filled cb)"
  by (rule lts.lttl_execution(1) [OF lttl_demo_build lttl_filled_execution]) simp_all

lemma lttl_filled_items:
  "lru_items (lt_store (lttl_filled None)) =
     [(2, \<lparr>te_expires_at = Some 15, te_value = 200\<rparr>), (1, \<lparr>te_expires_at = Some 10, te_value = 100\<rparr>)]"
  by code_simp

section \<open>Every execution follows the specification\<close>



text \<open>
  C12. When the callback returns normally, no call leaves more entries in the cache than the capacity
  it reports, expired entries included.
\<close>

theorem lttl_capacity_bound:
  assumes "hash_table T entries" "alloc 2" "lttl_build T table_alloc list_alloc b = Inr c"
    and "quiet (ltb_on_evict b)" "execution (lttl_exec T bk alloc) c tr d"
  shows "\<exists>n. lttl_cache_capacity d = Some n \<and> lttl_cache_size T d \<le> n \<and>
    lttl_cache_size T d = length (lru_items (lt_store d))"
proof -
  note env = lru_envI [of T entries alloc, OF assms(1,2)]
  have "lru_wf entries bk (lt_store d)"
    using lru_env.lttl_execution(1) [OF env assms(3,5)] by (simp add: lt_wf_def)
  moreover have "alt_inv bk (ltb_on_evict b) (lt_abs d)"
    by (rule lru_env.lttl_execution(3) [OF env assms(3,5)])
  ultimately show ?thesis
    using assms(4) hash_table.lru_size_wf [OF assms(1), of bk "lt_store d"]
    by (simp add: alt_inv_def al_inv_def lttl_cache_capacity_def lttl_cache_size_def quiet_lttl_callback)
qed

theorem lttl_capacity_bound_witness:
  "lttl_cache_size list_table (lttl_filled None) = 2 \<and>
   (\<exists>n. lttl_cache_capacity (lttl_filled None) = Some n \<and> 2 \<le> n)"
  using lttl_capacity_bound [OF lt.hash_table_axioms _ lttl_demo_build _ lttl_filled_execution, of None]
  by (auto simp: lttl_demo_builder_def lttl_filled_items)


abbreviation "lttl_demo_run \<equiv> run (lttl_exec list_table id (\<lambda>_. True))
  [LSet 0 1 100, LSet 1 2 200, LSet 2 3 300, LGet 12 2, LRemoveEntry 3 :: (nat, nat, nat, unit) lttl_op]
  (lttl_demo 2 (Some (\<lambda>k v. True)))"


section \<open>The effect of the operations\<close>

text \<open>
  \<open>cache_get\<close> serves an entry exactly while it is live: it becomes the most recent one, its expiry
  is renewed when the cache refreshes on hit, and the hit is counted. An expired entry is removed,
  counted as a miss and an eviction, and reported once, even when the callback panics. No other entry
  is touched.
\<close>

theorem lttl_cache_get_effect:
  assumes "hash_table T entries" "lt_wf entries bk c" "lttl_cache_get T bk now q c = (r, d)"
  shows "case a_find bk q (lru_items (lt_store c)) of
      None \<Rightarrow> r = Returns None \<and> lt_abs d = (lt_abs c)\<lparr>lt_misses := lt_misses c + 1\<rparr>
    | Some (k, e) \<Rightarrow>
        if entry_live_at (te_expires_at e) now
        then r = Returns (Some (te_value e)) \<and> lt_hits d = lt_hits c + 1 \<and> lt_misses d = lt_misses c \<and>
          lru_items (lt_store d) = (k, if lt_refresh c
              then e\<lparr>te_expires_at := refreshed_expires_at (lt_ttl c) now (te_expires_at e)\<rparr> else e)
            # a_without bk q (lru_items (lt_store c)) \<and>
          lttl_cache_evictions d = lttl_cache_evictions c \<and> lt_calls d = lt_calls c
        else r = (if cb_ok (lt_on_evict c) k (te_value e) then Returns None else Panics) \<and>
          lt_hits d = lt_hits c \<and> lt_misses d = lt_misses c + 1 \<and>
          lru_items (lt_store d) = a_without bk q (lru_items (lt_store c)) \<and>
          lttl_cache_evictions d = map_option (\<lambda>n. n + 1) (lttl_cache_evictions c) \<and>
          lt_calls d = lt_calls c @ cb_calls (lt_on_evict c) [(k, te_value e)]"
proof -
  have a: "alt_get_mut bk now q id (lt_abs c) = (r, lt_abs d)"
    by (rule refines_result(2) [OF hash_table.refines_lt_lookups(1) [OF assms(1)] assms(2,3)])
  note w = hash_table.lt_wf_quiet [OF assms(1,2)]
  let ?a = "snd (alt_get_mut bk now q id (lt_abs c))"
  have sel: "r = fst (alt_get_mut bk now q id (lt_abs c))" "lru_items (lt_store d) = al_items (lt_store ?a)"
    "lt_hits d = lt_hits ?a" "lt_misses d = lt_misses ?a" "lt_calls d = lt_calls ?a" "lt_abs d = ?a"
    "lttl_cache_evictions d = Some (lt_evictions ?a + al_evictions (lt_store ?a))"
    "lttl_cache_evictions c = Some (lt_evictions c + lru_evictions (lt_store c))"
    unfolding a by (simp_all add: lttl_cache_evictions_def lru_cache_evictions_def)
  show ?thesis
    using w unfolding sel
    by (auto simp: alt_get_mut_closed lt_live_def lt_touched_def lt_refreshed_def split: option.splits)
qed

lemma lttl_filled_fields:
  "lt_refresh (lttl_filled None)" "lt_ttl (lttl_filled None) = 10" "lt_on_evict (lttl_filled None) = None"
  "lttl_cache_evictions (lttl_filled None) = Some 0" "lt_calls (lttl_filled None) = []"
  by code_simp+

theorem lttl_cache_get_effect_witness:
  "lru_items (lt_store (snd (lttl_cache_get list_table id 9 1 (lttl_filled None)))) =
     [(1, \<lparr>te_expires_at = Some 19, te_value = 100\<rparr>), (2, \<lparr>te_expires_at = Some 15, te_value = 200\<rparr>)] \<and>
   fst (lttl_cache_get list_table id 10 1 (lttl_filled None)) = Returns None"
  using lttl_cache_get_effect [OF lt.hash_table_axioms lttl_filled_wf prod.collapse [symmetric], of 9 1 None]
    lttl_cache_get_effect [OF lt.hash_table_axioms lttl_filled_wf prod.collapse [symmetric], of 10 1 None]
  by (simp add: lttl_filled_items lttl_filled_fields a_find_def a_without_def entry_live_at_def
      refreshed_expires_at_def instant_checked_add_def instant_max_def)

text \<open>
  After \<open>cache_set\<close> at the instant \<open>t\<close>, \<open>cache_peek\<close> at any instant \<open>u\<close> before \<open>t + ttl\<close> returns the
  value and at or after it returns nothing, whatever was evicted to make room; with expiry disabled, or
  when \<open>t + ttl\<close> is out of the range of \<open>Instant\<close>, the entry never expires.
\<close>

theorem lttl_set_then_peek:
  assumes "hash_table T entries" "lt_wf entries bk c" "lttl_cache_set T bk t key val c = (r, d)"
  shows "lttl_cache_peek T bk u (bk key) d = (Returns
      (if lt_ttl c = 0 \<or> instant_max < t + lt_ttl c \<or> u < t + lt_ttl c then Some val else None), d)"
proof -
  let ?e = "lt_fresh c t val"
  note ref = refines_result [OF hash_table.refines_lt_set [OF assms(1)] assms(2,3)]
  have cap: "0 < lru_capacity (lt_store c)" "a_wf bk (lru_items (lt_store c))"
    using assms(2) hash_table.lru_wf_a_wf [OF assms(1), of bk "lt_store c"] by (simp_all add: lt_wf_def lru_wf_def)
  let ?s = "al_put bk key ?e (lru_abs (lt_store c))"
  have "al_items (lt_store (snd (alt_set bk t key val (lt_abs c)))) = al_items (al_evicted (victims ?s) ?s)"
    using al_set_closed [of bk "lru_abs (lt_store c)" key ?e] cap
    by (auto simp: alt_set_def alt_inner_def comp_simps lt_report_apply split: option.splits prod.splits)
  then have items: "lru_items (lt_store d) = take (length (al_items ?s) - length (victims ?s)) (al_items ?s)"
    using ref(2) by (simp add: al_evicted_def)
  have "0 < length (al_items ?s) - length (victims ?s)"
    using length_victims [of ?s] cap by simp
  then have find: "a_find bk (bk key) (lru_items (lt_store d)) = Some (key, ?e)"
    unfolding items by (cases "length (al_items ?s) - length (victims ?s)") (simp_all add: a_find_Cons)
  show ?thesis
    using hash_table.lttl_cache_peek_wf [OF assms(1) ref(1), of "bk key"] find
    by (simp add: lttl_cache_peek_def comp_simps lt_live_def lt_fresh_def entry_live_at_def
        compute_expires_at_def instant_checked_add_def)
qed

theorem lttl_set_then_peek_witness:
  "fst (lttl_cache_peek list_table id 29 3 (snd (lttl_cache_set list_table id 20 3 300 (lttl_filled None)))) =
     Returns (Some 300) \<and>
   fst (lttl_cache_peek list_table id 30 3 (snd (lttl_cache_set list_table id 20 3 300 (lttl_filled None)))) =
     Returns None"
  using lttl_set_then_peek [OF lt.hash_table_axioms lttl_filled_wf prod.collapse [symmetric], of 29 3 20 300 None]
    lttl_set_then_peek [OF lt.hash_table_axioms lttl_filled_wf prod.collapse [symmetric], of 30 3 20 300 None]
  by (simp add: lttl_filled_fields instant_max_def)

text \<open>
  C14. When the callback panics while \<open>set_max_size\<close> shrinks the cache, the inner store already has the
  new capacity but \<open>cache_capacity\<close> of the wrapper keeps reporting the old one.
\<close>

theorem lttl_set_max_size_stale:
  assumes "hash_table T entries" "lt_wf entries bk c" "lttl_set_max_size T bk n c = (Panics, d)" "0 < n"
  shows "lttl_cache_capacity d = lttl_cache_capacity c \<and> lru_capacity (lt_store d) = n"
proof -
  have a: "alt_set_max_size bk n (lt_abs c) = (Panics, lt_abs d)"
    by (rule refines_result(2) [OF hash_table.refines_lt_set_max_size [OF assms(1)] assms(2,3)])
  have wf: "a_wf bk (lru_items (lt_store c))"
    using assms(2) hash_table.lru_wf_a_wf [OF assms(1), of bk "lt_store c"] by (simp add: lt_wf_def)
  let ?a = "snd (alt_set_max_size bk n (lt_abs c))"
  have sel: "lt_size d = lt_size ?a" "lru_capacity (lt_store d) = al_capacity (lt_store ?a)"
    unfolding a by simp_all
  have "fst (alt_set_max_size bk n (lt_abs c)) = Panics" unfolding a by simp
  then have "lt_size ?a = lt_size c \<and> al_capacity (lt_store ?a) = n"
    using assms(4) al_set_max_size_closed [of bk "lru_abs (lt_store c)" n] wf
    by (simp add: alt_set_max_size_def alt_inner_def al_evicted_def comp_simps split: if_splits)
  then show ?thesis by (simp add: lttl_cache_capacity_def sel)
qed

theorem lttl_set_max_size_stale_witness:
  "lttl_cache_capacity (snd (lttl_set_max_size list_table id 1 (lttl_filled (Some (\<lambda>k v. False))))) = Some 2 \<and>
   lru_capacity (lt_store (snd (lttl_set_max_size list_table id 1 (lttl_filled (Some (\<lambda>k v. False)))))) = 1"
proof -
  let ?r = "lttl_set_max_size list_table id 1 (lttl_filled (Some (\<lambda>k v. False)))"
  have "fst ?r = Panics" by code_simp
  then have r: "?r = (Panics, snd ?r)" by (simp add: prod_eq_iff)
  have "lttl_cache_capacity (lttl_filled (Some (\<lambda>k v. False))) = Some 2" by code_simp
  then show ?thesis
    using lttl_set_max_size_stale [OF lt.hash_table_axioms lttl_filled_wf r] by simp
qed

end
