(* ===== verification/Expiring_Lru_Cache.thy ===== *)
theory Expiring_Lru_Cache
  imports Lru_Cache Expiring_Cache
begin

text \<open>
  \<open>src/stores/expiring_lru.rs\<close>: \<open>ExpiringLruCache\<close>, an \<open>LruCache\<close> whose values say themselves whether
  they have expired. As in \<open>Expiring_Cache\<close> the answer of \<open>Expires::is_expired\<close> is the parameter \<open>exp\<close>
  and \<open>None\<close> is a panic of it; as in \<open>Lru_Ttl_Cache\<close> the record is polymorphic in the inner store, whose
  callback calls \<open>el_inner\<close> moves to the trace of the wrapper.
\<close>

record ('k, 'v, 's) elru_cache =
  el_store :: 's
  el_hits :: u64
  el_misses :: u64
  el_evictions :: u64
  el_on_evict :: "('k, 'v) callback option"
  el_calls :: "('k, 'v) trace"

type_synonym ('k, 'v, 'q, 't) elru = "('k, 'v, ('k, 'v, 'q, 't) lru_cache) elru_cache"

definition elru_clone :: "('k, 'v, 'q, 't) elru \<Rightarrow> ('k, 'v, 'q, 't) elru" where
  "elru_clone c = \<lparr>el_store = lru_clone (el_store c), el_hits = el_hits c, el_misses = el_misses c,
     el_evictions = el_evictions c, el_on_evict = el_on_evict c, el_calls = el_calls c\<rparr>"

definition elru_eq :: "'t table_ops \<Rightarrow> ('k \<Rightarrow> 'q) \<Rightarrow> ('k, 'v, 'q, 't) elru \<Rightarrow> ('k, 'v, 'q, 't) elru \<Rightarrow> bool option" where
  "elru_eq T bk c d = lru_eq T bk (el_store c) (el_store d)"

section \<open>Building\<close>

record ('k, 'v, 'q) elru_builder =
  elb_size :: "usize option"
  elb_on_evict :: "('k, 'v) callback option"
  elb_hasher :: "'q \<Rightarrow> u64"

definition elru_builder_default :: "('q \<Rightarrow> u64) \<Rightarrow> ('k, 'v, 'q) elru_builder" where
  "elru_builder_default hb = \<lparr>elb_size = None, elb_on_evict = None, elb_hasher = hb\<rparr>"

definition elru_builder_max_size :: "usize \<Rightarrow> ('k, 'v, 'q) elru_builder \<Rightarrow> ('k, 'v, 'q) elru_builder" where
  "elru_builder_max_size n b = b\<lparr>elb_size := Some n\<rparr>"

definition elru_builder_on_evict ::
    "('k, 'v) callback \<Rightarrow> ('k, 'v, 'q) elru_builder \<Rightarrow> ('k, 'v, 'q) elru_builder" where
  "elru_builder_on_evict f b = b\<lparr>elb_on_evict := Some f\<rparr>"

definition elru_builder_hasher :: "('r \<Rightarrow> u64) \<Rightarrow> ('k, 'v, 'q) elru_builder \<Rightarrow> ('k, 'v, 'r) elru_builder" where
  "elru_builder_hasher h b = \<lparr>elb_size = elb_size b, elb_on_evict = elb_on_evict b, elb_hasher = h\<rparr>"

definition elru_build :: "'t table_ops \<Rightarrow> (usize \<Rightarrow> bool) \<Rightarrow> (usize \<Rightarrow> bool)
    \<Rightarrow> ('k, 'v, 'q) elru_builder \<Rightarrow> build_error + ('k, 'v, 'q, 't) elru" where
  "elru_build T table_alloc list_alloc b = (case elb_size b of
       None \<Rightarrow> Inl (MissingRequired ''max_size'')
     | Some max_size \<Rightarrow> (case lru_build T table_alloc list_alloc
           (lru_builder_hasher (elb_hasher b) (lru_builder_max_size max_size (lru_builder_default (elb_hasher b)))) of
         Inl e \<Rightarrow> Inl e
       | Inr store \<Rightarrow>
           let cache = \<lparr>el_store = lru_disable_hit_miss_tracking store, el_hits = 0, el_misses = 0,
             el_evictions = 0, el_on_evict = elb_on_evict b, el_calls = []\<rparr>
           in Inr (case elb_on_evict b of
               None \<Rightarrow> cache
             | Some f \<Rightarrow> cache\<lparr>el_store := (el_store cache)\<lparr>lru_on_evict := Some f\<rparr>\<rparr>)))"

definition elru_new :: "'t table_ops \<Rightarrow> (usize \<Rightarrow> bool) \<Rightarrow> (usize \<Rightarrow> bool) \<Rightarrow> ('q \<Rightarrow> u64) \<Rightarrow> usize
    \<Rightarrow> ('k, 'v, 'q, 't) elru option" where
  "elru_new T table_alloc list_alloc hb max_size =
     (case elru_build T table_alloc list_alloc (elru_builder_max_size max_size (elru_builder_default hb)) of
        Inl _ \<Rightarrow> None | Inr c \<Rightarrow> Some c)"

section \<open>Parts of the operations\<close>

definition el_inner :: "(('k, 'v, 'q, 't) lru_cache, 'a) comp \<Rightarrow> (('k, 'v, 'q, 't) elru, 'a) comp" where
  "el_inner m c = (case m (el_store c) of
       (r, s) \<Rightarrow> (r, c\<lparr>el_store := s\<lparr>lru_calls := []\<rparr>, el_calls := el_calls c @ lru_calls s\<rparr>))"

definition el_hit :: "(('k, 'v, 's) elru_cache, unit) comp" where
  "el_hit = modify (\<lambda>c. c\<lparr>el_hits := el_hits c + 1\<rparr>)"

definition el_miss :: "(('k, 'v, 's) elru_cache, unit) comp" where
  "el_miss = modify (\<lambda>c. c\<lparr>el_misses := el_misses c + 1\<rparr>)"

definition el_count :: "nat \<Rightarrow> (('k, 'v, 's) elru_cache, unit) comp" where
  "el_count n = modify (\<lambda>c. c\<lparr>el_evictions := el_evictions c + of_nat n\<rparr>)"

definition el_notify :: "'k \<Rightarrow> 'v \<Rightarrow> (('k, 'v, 's) elru_cache, unit) comp" where
  "el_notify k v c = notify el_calls_update (el_on_evict c) k v c"

definition el_report :: "'k \<Rightarrow> 'v \<Rightarrow> (('k, 'v, 's) elru_cache, unit) comp" where
  "el_report k v = andthen (el_count 1) (\<lambda>_. el_notify k v)"

section \<open>Capacity and sweeps\<close>

definition elru_capacity :: "('k, 'v, 'q, 't) elru \<Rightarrow> usize" where
  "elru_capacity c = lru_capacity (el_store c)"

definition elru_set_max_size :: "'t table_ops \<Rightarrow> ('k \<Rightarrow> 'q) \<Rightarrow> usize
    \<Rightarrow> (('k, 'v, 'q, 't) elru, usize option) comp" where
  "elru_set_max_size T bk max_size = el_inner (lru_set_max_size T bk max_size)"

definition elru_try_set_max_size :: "'t table_ops \<Rightarrow> ('k \<Rightarrow> 'q) \<Rightarrow> usize
    \<Rightarrow> (('k, 'v, 'q, 't) elru, set_max_size_error + usize option) comp" where
  "elru_try_set_max_size T bk max_size = el_inner (lru_try_set_max_size T bk max_size)"

definition elru_doomed_indices :: "('k, 'v) predicate \<Rightarrow> ('k, 'v, 'q, 't) elru \<Rightarrow> usize list option" where
  "elru_doomed_indices doomed c = do {
     is \<leftarrow> ll_iter_indices (lru_order (el_store c));
     filter_closure (\<lambda>i. do { kv \<leftarrow> ll_get i (lru_order (el_store c)); doomed (fst kv) (snd kv) }) is
   }"

fun elru_remove_all :: "'t table_ops \<Rightarrow> ('k \<Rightarrow> 'q) \<Rightarrow> usize list
    \<Rightarrow> (('k, 'v, 'q, 't) elru, ('k \<times> 'v) list) comp" where
  "elru_remove_all T bk [] = ret []"
| "elru_remove_all T bk (i # is) =
     andthen (el_inner (lru_remove_index T bk i)) (\<lambda>kv.
     andthen (elru_remove_all T bk is) (\<lambda>kvs. ret (kv # kvs)))"

definition elru_notify_all :: "('k \<times> 'v) list \<Rightarrow> (('k, 'v, 's) elru_cache, usize) comp" where
  "elru_notify_all removed =
     andthen (cwhen (removed \<noteq> []) (el_count (length removed))) (\<lambda>_.
     andthen (foreach removed (\<lambda>(k, v). el_notify k v)) (\<lambda>_.
     ret (length removed)))"

definition elru_remove_and_notify :: "'t table_ops \<Rightarrow> ('k \<Rightarrow> 'q) \<Rightarrow> usize list
    \<Rightarrow> (('k, 'v, 'q, 't) elru, usize) comp" where
  "elru_remove_and_notify T bk doomed = andthen (elru_remove_all T bk doomed) elru_notify_all"

definition elru_evict :: "'t table_ops \<Rightarrow> ('k \<Rightarrow> 'q) \<Rightarrow> 'v expires \<Rightarrow> (('k, 'v, 'q, 't) elru, usize) comp" where
  "elru_evict T bk exp =
     andthen get_state (\<lambda>c.
     andthen (expect (elru_doomed_indices (\<lambda>k v. exp v) c)) (elru_remove_and_notify T bk))"

definition elru_retain :: "'t table_ops \<Rightarrow> ('k \<Rightarrow> 'q) \<Rightarrow> 'v expires \<Rightarrow> ('k, 'v) predicate
    \<Rightarrow> (('k, 'v, 'q, 't) elru, usize) comp" where
  "elru_retain T bk exp keep =
     andthen get_state (\<lambda>c.
     andthen (expect (elru_doomed_indices (\<lambda>k v. do {
         x \<leftarrow> exp v;
         if x then Some True else map_option Not (keep k v)
       }) c)) (elru_remove_and_notify T bk))"

definition elru_cache_clear_with_on_evict :: "'t table_ops \<Rightarrow> (('k, 'v, 'q, 't) elru, unit) comp" where
  "elru_cache_clear_with_on_evict T =
     andthen (el_inner (lru_drain_all T)) (\<lambda>removed.
     andthen (elru_notify_all removed) (\<lambda>_. ret ()))"

text \<open>The live entries in recency order; \<open>is_expired\<close> is asked of one value after the other.\<close>

definition elru_live :: "'v expires \<Rightarrow> ('k, 'v, 'q, 't) elru \<Rightarrow> ('k \<times> 'v) list option" where
  "elru_live exp c = do {
     kvs \<leftarrow> ll_iter (lru_order (el_store c));
     filter_closure (\<lambda>kv. map_option Not (exp (snd kv))) kvs
   }"

definition elru_iter_order :: "'v expires \<Rightarrow> ('k, 'v, 'q, 't) elru \<Rightarrow> ('k \<times> ('v, unit) cache_value) list option" where
  "elru_iter_order exp c = map_option (map (\<lambda>(k, v). (k, cache_value_new v ()))) (elru_live exp c)"

definition elru_key_order :: "'v expires \<Rightarrow> ('k, 'v, 'q, 't) elru \<Rightarrow> 'k list option" where
  "elru_key_order exp c = map_option (map fst) (elru_live exp c)"

definition elru_value_order :: "'v expires \<Rightarrow> ('k, 'v, 'q, 't) elru \<Rightarrow> ('v, unit) cache_value list option" where
  "elru_value_order exp c = map_option (map (\<lambda>(k, v). cache_value_new v ())) (elru_live exp c)"

definition elru_iter :: "'v expires \<Rightarrow> ('k, 'v, 'q, 't) elru \<Rightarrow> ('k \<times> 'v) list option" where
  "elru_iter exp c = elru_live exp c"

section \<open>The \<open>Cached\<close> interface\<close>

definition el_expire :: "'t table_ops \<Rightarrow> ('k \<Rightarrow> 'q) \<Rightarrow> u64 \<Rightarrow> 'q \<Rightarrow> (('k, 'v, 'q, 't) elru, unit) comp" where
  "el_expire T bk h q =
     andthen (el_inner (lru_pop_raw_with_hash T bk h q)) (\<lambda>popped. case popped of
       Some (k, v) \<Rightarrow> el_report k v
     | None \<Rightarrow> ret ())"

definition elru_cache_get :: "'t table_ops \<Rightarrow> ('k \<Rightarrow> 'q) \<Rightarrow> 'v expires \<Rightarrow> 'q
    \<Rightarrow> (('k, 'v, 'q, 't) elru, 'v option) comp" where
  "elru_cache_get T bk exp q =
     andthen get_state (\<lambda>c.
     let h = lru_hash q (el_store c) in
     andthen (expect (lru_get_index T bk h q (el_store c))) (\<lambda>found.
     case found of
       Some index \<Rightarrow>
         andthen (expect (ll_get index (lru_order (el_store c)))) (\<lambda>kv.
         andthen (expect (exp (snd kv))) (\<lambda>expired.
         if \<not> expired
         then andthen (el_inner (lru_move index)) (\<lambda>_.
              andthen el_hit (\<lambda>_.
              andthen get_state (\<lambda>c1.
              andthen (expect (ll_get index (lru_order (el_store c1)))) (\<lambda>kv.
              ret (Some (snd kv))))))
         else andthen el_miss (\<lambda>_. andthen (el_expire T bk h q) (\<lambda>_. ret None))))
     | None \<Rightarrow> andthen el_miss (\<lambda>_. ret None)))"

definition elru_cache_get_mut :: "'t table_ops \<Rightarrow> ('k \<Rightarrow> 'q) \<Rightarrow> 'v expires \<Rightarrow> 'q \<Rightarrow> ('v \<Rightarrow> 'v)
    \<Rightarrow> (('k, 'v, 'q, 't) elru, 'v option) comp" where
  "elru_cache_get_mut T bk exp q upd =
     andthen get_state (\<lambda>c.
     let h = lru_hash q (el_store c) in
     andthen (expect (lru_get_index T bk h q (el_store c))) (\<lambda>found.
     case found of
       Some index \<Rightarrow>
         andthen (expect (ll_get index (lru_order (el_store c)))) (\<lambda>kv.
         andthen (expect (exp (snd kv))) (\<lambda>expired.
         if \<not> expired
         then andthen (el_inner (lru_move index)) (\<lambda>_.
              andthen el_hit (\<lambda>_.
              andthen (el_inner (lru_on_order (ll_get_mut index (apsnd upd)))) (\<lambda>kv.
              ret (Some (snd kv)))))
         else andthen el_miss (\<lambda>_. andthen (el_expire T bk h q) (\<lambda>_. ret None))))
     | None \<Rightarrow> andthen el_miss (\<lambda>_. ret None)))"

text \<open>
  Get-or-set hands the inner store a setter that first counts the miss and then runs the factory, so
  the miss is counted exactly when the inner store runs the setter: when it finds no live entry. The
  inner store asks \<open>is_expired\<close> of the entry it finds before it changes anything.
\<close>

definition el_runs_setter :: "'t table_ops \<Rightarrow> ('k \<Rightarrow> 'q) \<Rightarrow> 'v expires \<Rightarrow> 'q \<Rightarrow> ('k, 'v, 'q, 't) elru \<Rightarrow> bool option" where
  "el_runs_setter T bk exp q c = do {
     found \<leftarrow> lru_get_index T bk (lru_hash q (el_store c)) q (el_store c);
     case found of
       None \<Rightarrow> Some True
     | Some i \<Rightarrow> do { kv \<leftarrow> ll_get i (lru_order (el_store c)); exp (snd kv) }
   }"

definition el_valid :: "'v expires \<Rightarrow> 'v \<Rightarrow> bool" where
  "el_valid exp v \<longleftrightarrow> exp v = Some False"

definition el_settle :: "('k, 'v) get_or_set_outcome \<Rightarrow> (('k, 'v, 's) elru_cache, 'v) comp" where
  "el_settle out = (case out of (was_present, was_valid, old_val, v) \<Rightarrow>
     andthen (if was_present \<and> was_valid then el_hit
       else (case old_val of Some (k, old) \<Rightarrow> el_report k old | None \<Rightarrow> ret ())) (\<lambda>_.
     ret v))"

definition elru_cache_get_or_set_with_mut :: "'t table_ops \<Rightarrow> ('k \<Rightarrow> 'q) \<Rightarrow> 'v expires \<Rightarrow> 'k
    \<Rightarrow> 'v outcome \<Rightarrow> ('v \<Rightarrow> 'v) \<Rightarrow> (('k, 'v, 'q, 't) elru, 'v) comp" where
  "elru_cache_get_or_set_with_mut T bk exp key f upd =
     andthen get_state (\<lambda>c.
     andthen (expect (el_runs_setter T bk exp (bk key) c)) (\<lambda>setter_runs.
     andthen (cwhen setter_runs el_miss) (\<lambda>_.
     andthen (el_inner (lru_get_or_set_with_if T bk key f (el_valid exp) upd)) el_settle)))"

definition elru_cache_try_get_or_set_with_mut :: "'t table_ops \<Rightarrow> ('k \<Rightarrow> 'q) \<Rightarrow> 'v expires \<Rightarrow> 'k
    \<Rightarrow> ('e + 'v) outcome \<Rightarrow> ('v \<Rightarrow> 'v) \<Rightarrow> (('k, 'v, 'q, 't) elru, 'e + 'v) comp" where
  "elru_cache_try_get_or_set_with_mut T bk exp key f upd =
     andthen get_state (\<lambda>c.
     andthen (expect (el_runs_setter T bk exp (bk key) c)) (\<lambda>setter_runs.
     andthen (cwhen setter_runs el_miss) (\<lambda>_.
     andthen (el_inner (lru_try_get_or_set_with_if T bk key f (el_valid exp) upd)) (\<lambda>r. case r of
         Inl e \<Rightarrow> ret (Inl e)
       | Inr out \<Rightarrow> andthen (el_settle out) (\<lambda>v. ret (Inr v))))))"

definition elru_async_cache_get_or_set_with_mut :: "'t table_ops \<Rightarrow> ('k \<Rightarrow> 'q) \<Rightarrow> 'v expires \<Rightarrow> 'k
    \<Rightarrow> 'v outcome \<Rightarrow> ('v \<Rightarrow> 'v) \<Rightarrow> (('k, 'v, 'q, 't) elru, 'v) comp" where
  "elru_async_cache_get_or_set_with_mut T bk exp key f upd =
     andthen get_state (\<lambda>c.
     andthen (expect (el_runs_setter T bk exp (bk key) c)) (\<lambda>setter_runs.
     andthen (cwhen setter_runs el_miss) (\<lambda>_.
     andthen (el_inner (lru_get_or_set_with_if_async T bk key f (el_valid exp) upd)) el_settle)))"

definition elru_async_cache_try_get_or_set_with_mut :: "'t table_ops \<Rightarrow> ('k \<Rightarrow> 'q) \<Rightarrow> 'v expires \<Rightarrow> 'k
    \<Rightarrow> ('e + 'v) outcome \<Rightarrow> ('v \<Rightarrow> 'v) \<Rightarrow> (('k, 'v, 'q, 't) elru, 'e + 'v) comp" where
  "elru_async_cache_try_get_or_set_with_mut T bk exp key f upd =
     andthen get_state (\<lambda>c.
     andthen (expect (el_runs_setter T bk exp (bk key) c)) (\<lambda>setter_runs.
     andthen (cwhen setter_runs el_miss) (\<lambda>_.
     andthen (el_inner (lru_try_get_or_set_with_if_async T bk key f (el_valid exp) upd)) (\<lambda>r. case r of
         Inl e \<Rightarrow> ret (Inl e)
       | Inr out \<Rightarrow> andthen (el_settle out) (\<lambda>v. ret (Inr v))))))"

definition elru_cache_set :: "'t table_ops \<Rightarrow> ('k \<Rightarrow> 'q) \<Rightarrow> 'v expires \<Rightarrow> 'k \<Rightarrow> 'v
    \<Rightarrow> (('k, 'v, 'q, 't) elru, 'v option) comp" where
  "elru_cache_set T bk exp key val =
     andthen (el_inner (lru_cache_set_returning_entry T bk key val)) (\<lambda>displaced.
     case displaced of
       Some (stored_key, old) \<Rightarrow>
         andthen (expect (exp old)) (\<lambda>expired.
         if expired then andthen (el_report stored_key old) (\<lambda>_. ret None)
         else ret (Some old))
     | None \<Rightarrow> ret None)"

definition elru_cache_remove :: "'t table_ops \<Rightarrow> ('k \<Rightarrow> 'q) \<Rightarrow> 'v expires \<Rightarrow> 'q
    \<Rightarrow> (('k, 'v, 'q, 't) elru, 'v option) comp" where
  "elru_cache_remove T bk exp q =
     andthen (el_inner (lru_pop_raw T bk q)) (\<lambda>popped. case popped of
       Some (k, v) \<Rightarrow>
         andthen (expect (exp v)) (\<lambda>expired.
         andthen (el_report k v) (\<lambda>_. ret (if expired then None else Some v)))
     | None \<Rightarrow> ret None)"

definition elru_cache_remove_entry :: "'t table_ops \<Rightarrow> ('k \<Rightarrow> 'q) \<Rightarrow> 'q
    \<Rightarrow> (('k, 'v, 'q, 't) elru, ('k \<times> 'v) option) comp" where
  "elru_cache_remove_entry T bk q =
     andthen (el_inner (lru_pop_raw T bk q)) (\<lambda>popped. case popped of
       Some (k, v) \<Rightarrow> andthen (el_report k v) (\<lambda>_. ret (Some (k, v)))
     | None \<Rightarrow> ret None)"

definition elru_cache_clear :: "'t table_ops \<Rightarrow> (('k, 'v, 'q, 't) elru, unit) comp" where
  "elru_cache_clear T = el_inner (lru_cache_clear T)"

definition elru_cache_reset :: "'t table_ops \<Rightarrow> (usize \<Rightarrow> bool) \<Rightarrow> (('k, 'v, 'q, 't) elru, unit) comp" where
  "elru_cache_reset T list_alloc =
     andthen (el_inner (lru_cache_reset T list_alloc)) (\<lambda>_.
     modify (\<lambda>c. c\<lparr>el_hits := 0, el_misses := 0, el_evictions := 0\<rparr>))"

definition elru_cache_size :: "'t table_ops \<Rightarrow> ('k, 'v, 'q, 't) elru \<Rightarrow> usize" where
  "elru_cache_size T c = lru_cache_size T (el_store c)"

definition elru_cache_capacity :: "('k, 'v, 'q, 't) elru \<Rightarrow> usize option" where
  "elru_cache_capacity c = lru_cache_capacity (el_store c)"

definition elru_cache_hits :: "('k, 'v, 's) elru_cache \<Rightarrow> u64 option" where
  "elru_cache_hits c = Some (el_hits c)"

definition elru_cache_misses :: "('k, 'v, 's) elru_cache \<Rightarrow> u64 option" where
  "elru_cache_misses c = Some (el_misses c)"

definition elru_cache_evictions :: "('k, 'v, 'q, 't) elru \<Rightarrow> u64 option" where
  "elru_cache_evictions c = Some (el_evictions c +
     (case lru_cache_evictions (el_store c) of Some n \<Rightarrow> n | None \<Rightarrow> 0))"

definition elru_cache_reset_metrics :: "(('k, 'v, 'q, 't) elru, unit) comp" where
  "elru_cache_reset_metrics =
     andthen (modify (\<lambda>c. c\<lparr>el_hits := 0, el_misses := 0, el_evictions := 0\<rparr>)) (\<lambda>_.
     el_inner lru_cache_reset_metrics)"

definition elru_cache_peek :: "'t table_ops \<Rightarrow> ('k \<Rightarrow> 'q) \<Rightarrow> 'v expires \<Rightarrow> 'q
    \<Rightarrow> (('k, 'v, 'q, 't) elru, 'v option) comp" where
  "elru_cache_peek T bk exp q =
     andthen (el_inner (lru_cache_peek T bk q)) (\<lambda>found. case found of
       Some v \<Rightarrow> andthen (expect (exp v)) (\<lambda>expired. ret (if expired then None else Some v))
     | None \<Rightarrow> ret None)"

definition elru_cache_contains :: "'t table_ops \<Rightarrow> ('k \<Rightarrow> 'q) \<Rightarrow> 'v expires \<Rightarrow> 'q
    \<Rightarrow> (('k, 'v, 'q, 't) elru, bool) comp" where
  "elru_cache_contains T bk exp q = andthen (elru_cache_peek T bk exp q) (\<lambda>v. ret (v \<noteq> None))"

definition elru_cache_get_with_expiry_status :: "'t table_ops \<Rightarrow> ('k \<Rightarrow> 'q) \<Rightarrow> 'v expires \<Rightarrow> 'q
    \<Rightarrow> (('k, 'v, 'q, 't) elru, 'v option \<times> bool) comp" where
  "elru_cache_get_with_expiry_status T bk exp q =
     andthen get_state (\<lambda>c.
     andthen (expect (lru_get_index T bk (lru_hash q (el_store c)) q (el_store c))) (\<lambda>found.
     case found of
       Some index \<Rightarrow>
         andthen (expect (ll_get index (lru_order (el_store c)))) (\<lambda>kv.
         andthen (expect (exp (snd kv))) (\<lambda>expired.
         if expired
         then andthen el_miss (\<lambda>_. ret (Some (snd kv), True))
         else andthen (el_inner (lru_move index)) (\<lambda>_.
              andthen el_hit (\<lambda>_.
              andthen get_state (\<lambda>c1.
              andthen (expect (ll_get index (lru_order (el_store c1)))) (\<lambda>kv.
              ret (Some (snd kv), False)))))))
     | None \<Rightarrow> andthen el_miss (\<lambda>_. ret (None, False))))"

definition elru_cache_peek_with_expiry_status :: "'t table_ops \<Rightarrow> ('k \<Rightarrow> 'q) \<Rightarrow> 'v expires \<Rightarrow> 'q
    \<Rightarrow> (('k, 'v, 'q, 't) elru, 'v option \<times> bool) comp" where
  "elru_cache_peek_with_expiry_status T bk exp q =
     andthen (el_inner (lru_cache_peek T bk q)) (\<lambda>found. case found of
       Some v \<Rightarrow> andthen (expect (exp v)) (\<lambda>expired. ret (Some v, expired))
     | None \<Rightarrow> ret (None, False))"

end
