(* ===== verification/Expiring_Lru_Refine.thy ===== *)
theory Expiring_Lru_Refine
  imports Expiring_Lru_Cache Lru_Ttl_Machine
begin

text \<open>
  \<open>ExpiringLruCache\<close> over the abstract LRU cache, in the way of \<open>Lru_Ttl_Refine\<close>: the specification has
  the same record with an \<open>alru\<close> inside, and an operation of the inner store is lifted to the wrapper
  with its refinement and the predicates it keeps.
\<close>

section \<open>The specification\<close>

type_synonym ('k, 'v) aelru = "('k, 'v, ('k, 'v) alru) elru_cache"

definition ael_inner :: "(('k, 'v) alru, 'a) comp \<Rightarrow> (('k, 'v) aelru, 'a) comp" where
  "ael_inner m c = (case m (el_store c) of
       (r, s) \<Rightarrow> (r, c\<lparr>el_store := s\<lparr>al_calls := []\<rparr>, el_calls := el_calls c @ al_calls s\<rparr>))"

definition ael_peek :: "('k \<Rightarrow> 'q) \<Rightarrow> 'q \<Rightarrow> (('k, 'v) aelru, 'v option) comp" where
  "ael_peek bk q = andthen get_state (\<lambda>c. ret (map_option snd (a_find bk q (al_items (el_store c)))))"

text \<open>Whether a lookup misses: there is no entry, or its value says that it has expired (or panics).\<close>

definition ael_stale :: "('k \<Rightarrow> 'q) \<Rightarrow> 'v expires \<Rightarrow> 'q \<Rightarrow> ('k, 'v) aelru \<Rightarrow> bool option" where
  "ael_stale bk exp q c = (case a_find bk q (al_items (el_store c)) of None \<Rightarrow> Some True | Some (k, v) \<Rightarrow> exp v)"

definition ael_expire :: "('k \<Rightarrow> 'q) \<Rightarrow> 'q \<Rightarrow> (('k, 'v) aelru, unit) comp" where
  "ael_expire bk q = andthen (ael_inner (al_pop bk q)) (\<lambda>popped. case popped of
       Some (k, v) \<Rightarrow> el_report k v
     | None \<Rightarrow> ret ())"

definition ael_serve :: "('k \<Rightarrow> 'q) \<Rightarrow> 'q \<Rightarrow> ('v \<Rightarrow> 'v) \<Rightarrow> (('k, 'v) aelru, 'v option) comp" where
  "ael_serve bk q upd = andthen (ael_inner (al_get_mut_if bk q (\<lambda>_. True) upd)) (\<lambda>v.
     andthen el_hit (\<lambda>_. ret v))"

definition ael_get_mut :: "('k \<Rightarrow> 'q) \<Rightarrow> 'v expires \<Rightarrow> 'q \<Rightarrow> ('v \<Rightarrow> 'v) \<Rightarrow> (('k, 'v) aelru, 'v option) comp" where
  "ael_get_mut bk exp q upd =
     andthen get_state (\<lambda>c. andthen (expect (ael_stale bk exp q c)) (\<lambda>stale.
       if stale then andthen el_miss (\<lambda>_. andthen (ael_expire bk q) (\<lambda>_. ret None))
       else ael_serve bk q upd))"

definition ael_get_with_expiry_status :: "('k \<Rightarrow> 'q) \<Rightarrow> 'v expires \<Rightarrow> 'q \<Rightarrow> (('k, 'v) aelru, 'v option \<times> bool) comp" where
  "ael_get_with_expiry_status bk exp q =
     andthen get_state (\<lambda>c. andthen (expect (ael_stale bk exp q c)) (\<lambda>stale.
       if stale then andthen el_miss (\<lambda>_. andthen (ael_peek bk q) (\<lambda>v. ret (v, v \<noteq> None)))
       else andthen (ael_serve bk q id) (\<lambda>v. ret (v, False))))"

definition ael_set :: "('k \<Rightarrow> 'q) \<Rightarrow> 'v expires \<Rightarrow> 'k \<Rightarrow> 'v \<Rightarrow> (('k, 'v) aelru, 'v option) comp" where
  "ael_set bk exp key val =
     andthen (ael_inner (al_set bk key val)) (\<lambda>displaced.
     case displaced of
       Some (k, old) \<Rightarrow> andthen (expect (exp old)) (\<lambda>expired.
         if expired then andthen (el_report k old) (\<lambda>_. ret None) else ret (Some old))
     | None \<Rightarrow> ret None)"

definition ael_get_or_set :: "('k \<Rightarrow> 'q) \<Rightarrow> 'v expires \<Rightarrow> 'k \<Rightarrow> 'v outcome \<Rightarrow> ('v \<Rightarrow> 'v)
    \<Rightarrow> (('k, 'v) aelru, 'v) comp" where
  "ael_get_or_set bk exp key f upd =
     andthen get_state (\<lambda>c. andthen (expect (ael_stale bk exp (bk key) c)) (\<lambda>stale.
     andthen (cwhen stale el_miss) (\<lambda>_.
     andthen (ael_inner (al_get_or_set_with_if bk key f (el_valid exp) upd)) el_settle)))"

definition ael_try_get_or_set :: "('k \<Rightarrow> 'q) \<Rightarrow> 'v expires \<Rightarrow> 'k \<Rightarrow> ('e + 'v) outcome \<Rightarrow> ('v \<Rightarrow> 'v)
    \<Rightarrow> (('k, 'v) aelru, 'e + 'v) comp" where
  "ael_try_get_or_set bk exp key f upd =
     andthen get_state (\<lambda>c. andthen (expect (ael_stale bk exp (bk key) c)) (\<lambda>stale.
     andthen (cwhen stale el_miss) (\<lambda>_.
     andthen (ael_inner (al_try_get_or_set_with_if bk key f (el_valid exp) upd)) (\<lambda>r. case r of
         Inl e \<Rightarrow> ret (Inl e)
       | Inr out \<Rightarrow> andthen (el_settle out) (\<lambda>v. ret (Inr v))))))"

definition ael_remove :: "('k \<Rightarrow> 'q) \<Rightarrow> 'v expires \<Rightarrow> 'q \<Rightarrow> (('k, 'v) aelru, 'v option) comp" where
  "ael_remove bk exp q = andthen (ael_inner (al_pop bk q)) (\<lambda>popped. case popped of
       Some (k, v) \<Rightarrow> andthen (expect (exp v)) (\<lambda>expired.
         andthen (el_report k v) (\<lambda>_. ret (if expired then None else Some v)))
     | None \<Rightarrow> ret None)"

definition ael_remove_entry :: "('k \<Rightarrow> 'q) \<Rightarrow> 'q \<Rightarrow> (('k, 'v) aelru, ('k \<times> 'v) option) comp" where
  "ael_remove_entry bk q = andthen (ael_inner (al_pop bk q)) (\<lambda>popped. case popped of
       Some (k, v) \<Rightarrow> andthen (el_report k v) (\<lambda>_. ret (Some (k, v)))
     | None \<Rightarrow> ret None)"

definition ael_sweep :: "('k \<Rightarrow> 'q) \<Rightarrow> ('k, 'v) predicate \<Rightarrow> (('k, 'v) aelru, usize) comp" where
  "ael_sweep bk doomed =
     andthen get_state (\<lambda>c.
     andthen (expect (filter_closure (\<lambda>kv. doomed (fst kv) (snd kv)) (al_items (el_store c)))) (\<lambda>out.
     andthen (ael_inner (al_set_items (a_without_all bk out (al_items (el_store c))))) (\<lambda>_.
     elru_notify_all out)))"

definition ael_drain :: "(('k, 'v) aelru, ('k \<times> 'v) list) comp" where
  "ael_drain = ael_inner (andthen get_state (\<lambda>s. andthen (al_set_items []) (\<lambda>_. ret (al_items s))))"

section \<open>The abstraction\<close>

definition el_wf :: "('t \<Rightarrow> (u64 \<times> usize) multiset) \<Rightarrow> ('k \<Rightarrow> 'q) \<Rightarrow> ('k, 'v, 'q, 't) elru \<Rightarrow> bool" where
  "el_wf entries bk c \<longleftrightarrow> lru_wf entries bk (el_store c) \<and> lru_calls (el_store c) = [] \<and>
     \<not> lru_track_hit_miss (el_store c) \<and> lru_on_evict (el_store c) = el_on_evict c"

definition el_abs :: "('k, 'v, 'q, 't) elru \<Rightarrow> ('k, 'v) aelru" where
  "el_abs c = \<lparr>el_store = lru_abs (el_store c), el_hits = el_hits c, el_misses = el_misses c,
     el_evictions = el_evictions c, el_on_evict = el_on_evict c, el_calls = el_calls c\<rparr>"

lemma el_abs_simps [simp]:
  "el_store (el_abs c) = lru_abs (el_store c)" "el_hits (el_abs c) = el_hits c"
  "el_misses (el_abs c) = el_misses c" "el_evictions (el_abs c) = el_evictions c"
  "el_on_evict (el_abs c) = el_on_evict c" "el_calls (el_abs c) = el_calls c"
  by (simp_all add: el_abs_def)

lemma el_abs_put: "el_abs (c\<lparr>el_store := s\<rparr>) = (el_abs c)\<lparr>el_store := lru_abs s\<rparr>"
  by (simp add: el_abs_def)

lemma refines_el_inner:
  assumes m: "refines (lru_wf entries bk) lru_abs m n" and env: "\<And>t cb. keeps (al_env t cb) n"
  shows "refines (el_wf entries bk) el_abs (el_inner m) (ael_inner n)"
proof (rule refinesI)
  fix c :: "('a, 'b, 'c, 'd) elru" assume c: "el_wf entries bk c"
  obtain r s where s: "m (el_store c) = (r, s)" by force
  have a: "lru_wf entries bk s" "n (lru_abs (el_store c)) = (r, lru_abs s)"
    using refines_result [OF m _ s] c by (simp_all add: el_wf_def)
  have "lru_track_hit_miss s = lru_track_hit_miss (el_store c)" "lru_on_evict s = lru_on_evict (el_store c)"
    using keepsD [OF env, where s = "lru_abs (el_store c)"] a(2) by (simp_all add: al_env_def)
  then show "refines_at (el_wf entries bk) el_abs (el_inner m) (ael_inner n) c"
    using a s c by (simp add: refines_at_def el_inner_def ael_inner_def el_wf_def lru_wf_def el_abs_def lru_abs_def lru_items_def)
qed

lemma el_notify_apply: "el_notify k v c =
   (if cb_ok (el_on_evict c) k v then Returns () else Panics,
    c\<lparr>el_calls := el_calls c @ cb_calls (el_on_evict c) [(k, v)]\<rparr>)"
  by (simp add: el_notify_def notify_apply)

lemma el_report_apply: "el_report k v c =
   (if cb_ok (el_on_evict c) k v then Returns () else Panics,
    c\<lparr>el_evictions := el_evictions c + 1, el_calls := el_calls c @ cb_calls (el_on_evict c) [(k, v)]\<rparr>)"
  by (simp add: el_report_def el_count_def el_notify_apply comp_simps)

lemma refines_el_parts [refines_rules]:
  "refines (el_wf entries bk) el_abs el_hit el_hit" "refines (el_wf entries bk) el_abs el_miss el_miss"
  "refines (el_wf entries bk) el_abs (el_count n) (el_count n)"
  "refines (el_wf entries bk) el_abs (el_notify k v) (el_notify k v)"
  by (simp_all add: refines_def refines_at_def el_hit_def el_miss_def el_count_def el_notify_apply
      modify_apply el_wf_def el_abs_def)

lemma refines_el_reports [refines_rules]:
  "refines (el_wf entries bk) el_abs (el_report k v) (el_report k v)"
  "refines (el_wf entries bk) el_abs (elru_notify_all out) (elru_notify_all out)"
  unfolding el_report_def elru_notify_all_def by (intro refines_rules)+

lemma refines_el_settle [refines_rules]: "refines (el_wf entries bk) el_abs (el_settle out) (el_settle out)"
  unfolding el_settle_def by (intro refines_rules)

lemma el_inner_silent:
  "m (el_store c) = (r, s) \<Longrightarrow> lru_calls s = [] \<Longrightarrow> el_inner m c = (r, c\<lparr>el_store := s\<rparr>)"
  by (simp add: el_inner_def)

lemma ael_serve_apply:
  assumes "a_find bk q (al_items (el_store a)) = Some (k, v)" "al_calls (el_store a) = []"
    "\<not> al_track_hit_miss (el_store a)"
  shows "ael_serve bk q upd a = (Returns (Some v), a\<lparr>el_hits := el_hits a + 1, el_store := (el_store a)\<lparr>al_items :=
    (k, upd v) # a_without bk q (al_items (el_store a))\<rparr>\<rparr>)"
  using assms
  by (simp add: ael_serve_def ael_inner_def al_get_mut_if_def al_set_items_def al_record_hit_def el_hit_def comp_simps)

section \<open>Refinement\<close>

context hash_table
begin

lemma el_lookup_cases:
  assumes c: "el_wf entries bk c"
  obtains (absent) "lru_get_index T bk (lru_hash q (el_store c)) q (el_store c) = Some None"
      "a_find bk q (al_items (el_store (el_abs c))) = None"
    | (present) "is" i k v where
      "lru_get_index T bk (lru_hash q (el_store c)) q (el_store c) = Some (Some i)"
      "a_find bk q (al_items (el_store (el_abs c))) = Some (k, v)" "bk k = q"
      "ll_get i (lru_order (el_store c)) = Some (k, v)"
      "lru_slots entries bk (el_store c) is" "i \<in> set is" "ll_at (lru_order (el_store c)) i = (k, v)"
proof -
  have "lru_wf entries bk (el_store c)" using c by (simp add: el_wf_def)
  then show ?thesis
    by (cases rule: lru_lookup_cases [of bk "el_store c" q]) (auto intro: absent present)
qed

lemma el_wf_quiet: "el_wf entries bk c \<Longrightarrow>
    al_calls (el_store (el_abs c)) = [] \<and> \<not> al_track_hit_miss (el_store (el_abs c))"
  by (simp add: el_wf_def)

lemma el_runs_setter_wf:
  "el_wf entries bk c \<Longrightarrow> el_runs_setter T bk exp q c = ael_stale bk exp q (el_abs c)"
  by (cases rule: el_lookup_cases [of bk c q]) (simp_all add: el_runs_setter_def ael_stale_def)

text \<open>What the lookups do on a hit, in two steps: move the slot to the front, then write to it.\<close>

lemma el_hit_slot:
  assumes c: "el_wf entries bk c" and sl: "lru_slots entries bk (el_store c) is" "i \<in> set is"
    "ll_at (lru_order (el_store c)) i = (k, v)"
  obtains d where "el_inner (lru_move i) c = (Returns (), d)" "el_hits d = el_hits c" "el_wf entries bk d"
    "lru_slots entries bk (el_store d) (i # remove1 i is)" "ll_at (lru_order (el_store d)) i = (k, v)"
    "el_abs d = (el_abs c)\<lparr>el_store := (lru_abs (el_store c))\<lparr>al_items :=
       (k, v) # a_without bk (bk k) (lru_items (el_store c))\<rparr>\<rparr>"
proof -
  obtain s where s: "lru_move i (el_store c) = (Returns (), s)"
    "lru_slots entries bk s (i # remove1 i is)" "ll_at (lru_order s) i = (k, v)"
    "lru_abs s = (lru_abs (el_store c))\<lparr>al_items := (k, v) # a_without bk (bk k) (lru_items (el_store c))\<rparr>"
    "lru_capacity s = lru_capacity (el_store c)"
    using lru_touch [OF sl] by blast
  note f = lru_abs_frame2 [OF s(4)] lru_abs_frame_calls [OF s(4)]
  have "lru_calls s = []" using c f by (simp add: el_wf_def)
  then have "el_inner (lru_move i) c = (Returns (), c\<lparr>el_store := s\<rparr>)"
    using el_inner_silent [of "lru_move i", OF s(1)] by simp
  moreover have "el_wf entries bk (c\<lparr>el_store := s\<rparr>)"
    using c f s(2,5) by (auto simp: el_wf_def lru_wf_def)
  ultimately show ?thesis using s(2-4) by (intro that [of "c\<lparr>el_store := s\<rparr>"]) (simp_all add: el_abs_put)
qed

lemma el_write_slot:
  assumes d: "el_wf entries bk d" "lru_slots entries bk (el_store d) (i # rest)"
    "ll_at (lru_order (el_store d)) i = (k, v)"
  obtains e where "el_inner (lru_on_order (ll_get_mut i (apsnd upd))) d = (Returns (k, v), e)"
    "el_wf entries bk e" "el_abs e = (el_abs d)\<lparr>el_store := (lru_abs (el_store d))\<lparr>al_items :=
       (k, upd v) # tl (lru_items (el_store d))\<rparr>\<rparr>"
proof -
  obtain s where s: "lru_on_order (ll_get_mut i (apsnd upd)) (el_store d) = (Returns (k, v), s)"
    "lru_slots entries bk s (i # rest)"
    "lru_abs s = (lru_abs (el_store d))\<lparr>al_items := (k, upd v) # tl (lru_items (el_store d))\<rparr>"
    "lru_capacity s = lru_capacity (el_store d)"
    using lru_write [OF d(2,3)] by blast
  note f = lru_abs_frame2 [OF s(3)] lru_abs_frame_calls [OF s(3)]
  have "lru_calls s = []" using d(1) f by (simp add: el_wf_def)
  then have "el_inner (lru_on_order (ll_get_mut i (apsnd upd))) d = (Returns (k, v), d\<lparr>el_store := s\<rparr>)"
    using el_inner_silent [of "lru_on_order (ll_get_mut i (apsnd upd))", OF s(1)] by simp
  moreover have "el_wf entries bk (d\<lparr>el_store := s\<rparr>)"
    using d(1) f s(2,4) by (auto simp: el_wf_def lru_wf_def)
  ultimately show ?thesis using s(3) by (intro that [of "d\<lparr>el_store := s\<rparr>"]) (simp_all add: el_abs_put)
qed

lemma lru_pop_raw_hash_eq:
  "el_store d = el_store c \<Longrightarrow> andthen (el_expire T bk (lru_hash q (el_store c)) q) K d =
     andthen (andthen (el_inner (lru_pop_raw T bk q)) (\<lambda>popped. case popped of Some (k, v) \<Rightarrow> el_report k v | None \<Rightarrow> ret ())) K d"
  by (simp add: el_expire_def andthen_assoc lru_pop_eq andthen_apply el_inner_def flip: lru_pop_eq)

lemma refines_el_pop [refines_rules]:
  "refines (el_wf entries bk) el_abs (el_inner (lru_pop_raw T bk q)) (ael_inner (al_pop bk q))"
  by (intro refines_el_inner refines_rules keeps_rules)

lemma refines_el_stale:
  "refines (el_wf entries bk) el_abs
    (andthen el_miss (\<lambda>_. andthen (andthen (el_inner (lru_pop_raw T bk q)) (\<lambda>popped.
       case popped of Some (k, v) \<Rightarrow> el_report k v | None \<Rightarrow> ret ())) (\<lambda>_. ret None)))
    (andthen el_miss (\<lambda>_. andthen (ael_expire bk q) (\<lambda>_. ret None)))"
  unfolding ael_expire_def by (intro refines_rules)

lemma el_stale_at:
  assumes c: "el_wf entries bk c" and stale: "ael_stale bk exp q (el_abs c) = Some True"
    and op: "op c = andthen el_miss (\<lambda>_. andthen (el_expire T bk (lru_hash q (el_store c)) q) (\<lambda>_. ret None)) c"
  shows "refines_at (el_wf entries bk) el_abs op (ael_get_mut bk exp q upd) c"
proof (rule refines_via [OF refines_el_stale c])
  show "op c = andthen el_miss (\<lambda>_. andthen (andthen (el_inner (lru_pop_raw T bk q)) (\<lambda>popped.
       case popped of Some (k, v) \<Rightarrow> el_report k v | None \<Rightarrow> ret ())) (\<lambda>_. ret None)) c"
    using lru_pop_raw_hash_eq [of "snd (el_miss c)" c] by (simp add: op el_miss_def andthen_apply modify_apply)
  show "ael_get_mut bk exp q upd (el_abs c) =
      andthen el_miss (\<lambda>_. andthen (ael_expire bk q) (\<lambda>_. ret None)) (el_abs c)"
    by (simp add: ael_get_mut_def andthen_get_state stale expect_def)
qed

lemma el_absent_at:
  assumes c: "el_wf entries bk c" and absent: "a_find bk q (al_items (el_store (el_abs c))) = None"
    and op: "op c = andthen el_miss (\<lambda>_. ret None) c"
  shows "refines_at (el_wf entries bk) el_abs op (ael_get_mut bk exp q upd) c"
proof (rule refines_atI)
  show "op c = (Returns None, snd (el_miss c))" by (simp add: op el_miss_def comp_simps)
  show "el_wf entries bk (snd (el_miss c))" by (rule refinesD(1) [OF refines_el_parts(2) c])
  show "ael_get_mut bk exp q upd (el_abs c) = (Returns None, el_abs (snd (el_miss c)))"
    using absent el_wf_quiet [OF c]
    by (simp add: ael_get_mut_def ael_stale_def andthen_get_state expect_def)
      (simp add: el_miss_def ael_expire_def ael_inner_def al_pop_def al_set_items_def a_without_absent comp_simps el_abs_def)
qed

lemma el_panic_at:
  assumes "el_wf entries bk c" "ael_stale bk exp q (el_abs c) = None" "op c = (Panics, c)"
  shows "refines_at (el_wf entries bk) el_abs op (ael_get_mut bk exp q upd) c"
  using assms by (intro refines_atI [of op c Panics c]) (simp_all add: ael_get_mut_def andthen_get_state expect_def panic_apply)

lemma el_get_mut_at:
  assumes c: "el_wf entries bk c"
  shows "refines_at (el_wf entries bk) el_abs (elru_cache_get_mut T bk exp q upd) (ael_get_mut bk exp q upd) c"
  using c
proof (cases rule: el_lookup_cases [of bk c q])
  case absent
  then show ?thesis
    by (intro el_absent_at [OF c]) (simp_all add: elru_cache_get_mut_def comp_simps)
next
  case (present "is" i k v)
  consider "exp v = None" | "exp v = Some True" | "exp v = Some False" by (metis (full_types) option.exhaust)
  then show ?thesis
  proof cases
    case 1
    then show ?thesis
      using present by (intro el_panic_at [OF c]) (simp_all add: elru_cache_get_mut_def ael_stale_def comp_simps)
  next
    case 2
    then show ?thesis
      using present by (intro el_stale_at [OF c]) (simp_all add: elru_cache_get_mut_def ael_stale_def comp_simps)
  next
    case 3
    obtain d where d: "el_inner (lru_move i) c = (Returns (), d)" "el_hits d = el_hits c" "el_wf entries bk d"
      "lru_slots entries bk (el_store d) (i # remove1 i is)" "ll_at (lru_order (el_store d)) i = (k, v)"
      "el_abs d = (el_abs c)\<lparr>el_store := (lru_abs (el_store c))\<lparr>al_items :=
         (k, v) # a_without bk (bk k) (lru_items (el_store c))\<rparr>\<rparr>"
      using el_hit_slot [OF c present(5,6,7)] by metis
    let ?h = "d\<lparr>el_hits := el_hits d + 1\<rparr>"
    have h: "el_wf entries bk ?h" "el_abs ?h = (el_abs d)\<lparr>el_hits := el_hits d + 1\<rparr>"
      using d(3) by (simp_all add: el_wf_def el_abs_def)
    obtain e where e: "el_inner (lru_on_order (ll_get_mut i (apsnd upd))) ?h = (Returns (k, v), e)"
      "el_wf entries bk e" "el_abs e = (el_abs ?h)\<lparr>el_store := (lru_abs (el_store d))\<lparr>al_items :=
         (k, upd v) # tl (lru_items (el_store d))\<rparr>\<rparr>"
      using el_write_slot [OF h(1), of i "remove1 i is" k v upd] d(4,5) by auto
    have "elru_cache_get_mut T bk exp q upd c = (Returns (Some v), e)"
      using present(1,4) 3 d(1) e(1) by (simp add: elru_cache_get_mut_def el_hit_def comp_simps)
    moreover have st: "lru_abs (el_store d) = (lru_abs (el_store c))\<lparr>al_items :=
        (k, v) # a_without bk (bk k) (lru_items (el_store c))\<rparr>"
      using arg_cong [OF d(6), of el_store] by simp
    have "lru_items (el_store d) = (k, v) # a_without bk (bk k) (lru_items (el_store c))"
      using arg_cong [OF st, of al_items] by simp
    then have "ael_get_mut bk exp q upd (el_abs c) = (Returns (Some v), el_abs e)"
      using present(2,3) 3 ael_serve_apply [of bk q "el_abs c" k v upd] el_wf_quiet [OF c] d(2,6) e(3) h(2) st
      by (simp add: ael_get_mut_def ael_stale_def andthen_get_state expect_def)
    ultimately show ?thesis using e(2) by (intro refines_atI)
  qed
qed

text \<open>A hit that only reads the slot.\<close>

lemma el_read_hit:
  assumes c: "el_wf entries bk c" and sl: "lru_slots entries bk (el_store c) is" "i \<in> set is"
    "ll_at (lru_order (el_store c)) i = (k, v)"
  obtains d where "el_inner (lru_move i) c = (Returns (), d)"
    "ll_get i (lru_order (el_store d)) = Some (k, v)" "el_wf entries bk (d\<lparr>el_hits := el_hits d + 1\<rparr>)"
    "el_abs (d\<lparr>el_hits := el_hits d + 1\<rparr>) = (el_abs c)\<lparr>el_hits := el_hits c + 1,
       el_store := (lru_abs (el_store c))\<lparr>al_items := (k, v) # a_without bk (bk k) (lru_items (el_store c))\<rparr>\<rparr>"
proof -
  obtain d where d: "el_inner (lru_move i) c = (Returns (), d)" "el_hits d = el_hits c" "el_wf entries bk d"
    "lru_slots entries bk (el_store d) (i # remove1 i is)" "ll_at (lru_order (el_store d)) i = (k, v)"
    "el_abs d = (el_abs c)\<lparr>el_store := (lru_abs (el_store c))\<lparr>al_items :=
       (k, v) # a_without bk (bk k) (lru_items (el_store c))\<rparr>\<rparr>"
    using el_hit_slot [OF c sl] by metis
  have "ll_get i (lru_order (el_store d)) = Some (k, v)" using lru_slots_get [OF d(4), of i] d(5) by simp
  moreover have "el_wf entries bk (d\<lparr>el_hits := el_hits d + 1\<rparr>)" using d(3) by (simp add: el_wf_def)
  moreover have "el_abs (d\<lparr>el_hits := el_hits d + 1\<rparr>) = (el_abs d)\<lparr>el_hits := el_hits c + 1\<rparr>"
    by (simp add: el_abs_def d(2))
  ultimately show ?thesis using d(1,6) by (intro that [of d]) simp_all
qed

lemma el_get_at:
  assumes c: "el_wf entries bk c"
  shows "refines_at (el_wf entries bk) el_abs (elru_cache_get T bk exp q) (ael_get_mut bk exp q id) c"
  using c
proof (cases rule: el_lookup_cases [of bk c q])
  case absent
  then show ?thesis
    by (intro el_absent_at [OF c]) (simp_all add: elru_cache_get_def comp_simps)
next
  case (present "is" i k v)
  consider "exp v = None" | "exp v = Some True" | "exp v = Some False" by (metis (full_types) option.exhaust)
  then show ?thesis
  proof cases
    case 1
    then show ?thesis
      using present by (intro el_panic_at [OF c]) (simp_all add: elru_cache_get_def ael_stale_def comp_simps)
  next
    case 2
    then show ?thesis
      using present by (intro el_stale_at [OF c]) (simp_all add: elru_cache_get_def ael_stale_def comp_simps)
  next
    case 3
    obtain d where d: "el_inner (lru_move i) c = (Returns (), d)"
      "ll_get i (lru_order (el_store d)) = Some (k, v)" "el_wf entries bk (d\<lparr>el_hits := el_hits d + 1\<rparr>)"
      "el_abs (d\<lparr>el_hits := el_hits d + 1\<rparr>) = (el_abs c)\<lparr>el_hits := el_hits c + 1,
         el_store := (lru_abs (el_store c))\<lparr>al_items := (k, v) # a_without bk (bk k) (lru_items (el_store c))\<rparr>\<rparr>"
      using el_read_hit [OF c present(5,6,7)] by metis
    have "elru_cache_get T bk exp q c = (Returns (Some v), d\<lparr>el_hits := el_hits d + 1\<rparr>)"
      using present(1,4) 3 d(1,2) by (simp add: elru_cache_get_def el_hit_def comp_simps)
    moreover have "ael_get_mut bk exp q id (el_abs c) = (Returns (Some v), el_abs (d\<lparr>el_hits := el_hits d + 1\<rparr>))"
      using present(2,3) 3 ael_serve_apply [of bk q "el_abs c" k v id] el_wf_quiet [OF c] d(4)
      by (simp add: ael_get_mut_def ael_stale_def andthen_get_state expect_def)
    ultimately show ?thesis using d(3) by (intro refines_atI)
  qed
qed

lemma el_status_at:
  assumes c: "el_wf entries bk c"
  shows "refines_at (el_wf entries bk) el_abs (elru_cache_get_with_expiry_status T bk exp q)
    (ael_get_with_expiry_status bk exp q) c"
proof -
  have miss: "el_wf entries bk (snd (el_miss c))" "el_abs (snd (el_miss c)) = snd (el_miss (el_abs c))"
    using refinesD [OF refines_el_parts(2) c] by simp_all
  have stale: "ael_get_with_expiry_status bk exp q (el_abs c) = (Returns (map_option snd (a_find bk q (lru_items (el_store c))),
      a_find bk q (lru_items (el_store c)) \<noteq> None), el_abs (snd (el_miss c)))"
    if "ael_stale bk exp q (el_abs c) = Some True"
    using that miss(2)
    by (simp add: ael_get_with_expiry_status_def andthen_get_state expect_def)
      (auto simp: el_miss_def ael_peek_def comp_simps)
  from c show ?thesis
  proof (cases rule: el_lookup_cases [of bk c q])
    case absent
    then have "elru_cache_get_with_expiry_status T bk exp q c = (Returns (None, False), snd (el_miss c))"
      by (simp add: elru_cache_get_with_expiry_status_def el_miss_def comp_simps)
    then show ?thesis using stale absent miss(1) by (intro refines_atI) (simp_all add: ael_stale_def)
  next
    case (present "is" i k v)
    consider "exp v = None" | "exp v = Some True" | "exp v = Some False" by (metis (full_types) option.exhaust)
    then show ?thesis
    proof cases
      case 1
      then have "elru_cache_get_with_expiry_status T bk exp q c = (Panics, c)"
        using present by (simp add: elru_cache_get_with_expiry_status_def comp_simps)
      then show ?thesis
        using 1 present c by (intro refines_atI) (simp_all add: ael_get_with_expiry_status_def ael_stale_def comp_simps)
    next
      case 2
      then have "elru_cache_get_with_expiry_status T bk exp q c = (Returns (Some v, True), snd (el_miss c))"
        using present by (simp add: elru_cache_get_with_expiry_status_def el_miss_def comp_simps)
      then show ?thesis using stale present 2 miss(1) by (intro refines_atI) (simp_all add: ael_stale_def)
    next
      case 3
      obtain d where d: "el_inner (lru_move i) c = (Returns (), d)"
        "ll_get i (lru_order (el_store d)) = Some (k, v)" "el_wf entries bk (d\<lparr>el_hits := el_hits d + 1\<rparr>)"
        "el_abs (d\<lparr>el_hits := el_hits d + 1\<rparr>) = (el_abs c)\<lparr>el_hits := el_hits c + 1,
           el_store := (lru_abs (el_store c))\<lparr>al_items := (k, v) # a_without bk (bk k) (lru_items (el_store c))\<rparr>\<rparr>"
        using el_read_hit [OF c present(5,6,7)] by metis
      have "elru_cache_get_with_expiry_status T bk exp q c = (Returns (Some v, False), d\<lparr>el_hits := el_hits d + 1\<rparr>)"
        using present(1,4) 3 d(1,2) by (simp add: elru_cache_get_with_expiry_status_def el_hit_def comp_simps)
      moreover have "ael_get_with_expiry_status bk exp q (el_abs c) =
          (Returns (Some v, False), el_abs (d\<lparr>el_hits := el_hits d + 1\<rparr>))"
        using present(2,3) 3 ael_serve_apply [of bk q "el_abs c" k v id] el_wf_quiet [OF c] d(4)
        by (simp add: ael_get_with_expiry_status_def ael_stale_def andthen_get_state andthen_Returns expect_def ret_apply)
      ultimately show ?thesis using d(3) by (intro refines_atI)
    qed
  qed
qed

lemma refines_el_lookups [refines_rules]:
  "refines (el_wf entries bk) el_abs (elru_cache_get_mut T bk exp q upd) (ael_get_mut bk exp q upd)"
  "refines (el_wf entries bk) el_abs (elru_cache_get T bk exp q) (ael_get_mut bk exp q id)"
  "refines (el_wf entries bk) el_abs (elru_cache_get_with_expiry_status T bk exp q)
     (ael_get_with_expiry_status bk exp q)"
  by (rule refinesI, rule el_get_mut_at, assumption) (rule refinesI, rule el_get_at, assumption,
    rule refinesI, rule el_status_at)

lemma refines_el_inner_ops [refines_rules]:
  "refines (el_wf entries bk) el_abs (el_inner (lru_cache_set_returning_entry T bk key val)) (ael_inner (al_set bk key val))"
  "refines (el_wf entries bk) el_abs (el_inner (lru_get_or_set_with_if T bk key f is_valid upd))
     (ael_inner (al_get_or_set_with_if bk key f is_valid upd))"
  "refines (el_wf entries bk) el_abs (el_inner (lru_try_get_or_set_with_if T bk key g is_valid upd))
     (ael_inner (al_try_get_or_set_with_if bk key g is_valid upd))"
  "refines (el_wf entries bk) el_abs (el_inner (lru_set_max_size T bk n)) (ael_inner (al_set_max_size bk n))"
  "refines (el_wf entries bk) el_abs (el_inner (lru_try_set_max_size T bk n))
     (ael_inner (if n = 0 then ret (Inl ZeroMaxSize) else andthen (al_set_max_size bk n) (\<lambda>p. ret (Inr p))))"
  "refines (el_wf entries bk) el_abs (el_inner (lru_cache_clear T)) (ael_inner (al_set_items []))"
  "refines (el_wf entries bk) el_abs (el_inner lru_cache_reset_metrics) (ael_inner al_reset_metrics)"
  "refines (el_wf entries bk) el_abs (el_inner (lru_drain_all T)) ael_drain"
  unfolding ael_drain_def by (intro refines_el_inner refines_rules keeps_rules)+

lemma refines_el_reset:
  "list_alloc 2 \<Longrightarrow> refines (el_wf entries bk) el_abs (el_inner (lru_cache_reset T list_alloc))
     (ael_inner (andthen (al_set_items []) (\<lambda>_. al_reset_metrics)))"
  by (intro refines_el_inner refines_reset keeps_rules)

lemma refines_el_peek [refines_rules]:
  "refines (el_wf entries bk) el_abs (el_inner (lru_cache_peek T bk q)) (ael_peek bk q)"
proof (rule refinesI)
  fix c assume c: "el_wf entries bk c"
  then have "el_inner (lru_cache_peek T bk q) c = (Returns (map_option snd (a_find bk q (lru_items (el_store c)))), c)"
    using el_inner_silent [of "lru_cache_peek T bk q" c, OF lru_cache_peek_wf] by (simp add: el_wf_def)
  with c show "refines_at (el_wf entries bk) el_abs (el_inner (lru_cache_peek T bk q)) (ael_peek bk q) c"
    by (simp add: refines_at_def ael_peek_def comp_simps)
qed

lemma refines_el_sets [refines_rules]:
  "refines (el_wf entries bk) el_abs (elru_cache_set T bk exp key val) (ael_set bk exp key val)"
  "refines (el_wf entries bk) el_abs (elru_cache_remove T bk exp q) (ael_remove bk exp q)"
  "refines (el_wf entries bk) el_abs (elru_cache_remove_entry T bk q) (ael_remove_entry bk q)"
  unfolding elru_cache_set_def ael_set_def elru_cache_remove_def ael_remove_def elru_cache_remove_entry_def
    ael_remove_entry_def by (intro refines_rules)+

lemma refines_el_get_or_set [refines_rules]:
  "refines (el_wf entries bk) el_abs (elru_cache_get_or_set_with_mut T bk exp key f upd)
     (ael_get_or_set bk exp key f upd)"
  "refines (el_wf entries bk) el_abs (elru_cache_try_get_or_set_with_mut T bk exp key g upd)
     (ael_try_get_or_set bk exp key g upd)"
  unfolding elru_cache_get_or_set_with_mut_def ael_get_or_set_def
    elru_cache_try_get_or_set_with_mut_def ael_try_get_or_set_def
  by (rule refines_read, simp only: el_runs_setter_wf, intro refines_rules)+

lemma elru_async_eq:
  "elru_async_cache_get_or_set_with_mut = elru_cache_get_or_set_with_mut"
  "elru_async_cache_try_get_or_set_with_mut = elru_cache_try_get_or_set_with_mut"
  unfolding elru_async_cache_get_or_set_with_mut_def elru_cache_get_or_set_with_mut_def
    elru_async_cache_try_get_or_set_with_mut_def elru_cache_try_get_or_set_with_mut_def
    lru_with_if_async_eq by (rule refl)+

section \<open>Sweeps\<close>

lemma elru_remove_all_slots:
  assumes "el_wf entries bk c" "lru_slots entries bk (el_store c) is" "distinct js" "set js \<subseteq> set is"
  obtains d where "elru_remove_all T bk js c = (Returns (map (ll_at (lru_order (el_store c))) js), d)"
    "el_wf entries bk d" "el_abs d = (el_abs c)\<lparr>el_store := (lru_abs (el_store c))\<lparr>al_items :=
       a_without_all bk (map (ll_at (lru_order (el_store c))) js) (lru_items (el_store c))\<rparr>\<rparr>"
  using assms
proof (induction js arbitrary: c "is" thesis)
  case Nil
  then show ?case by (intro Nil(1) [of c]) (simp_all add: ret_apply el_abs_def)
next
  case (Cons i js)
  obtain k v where kv: "ll_at (lru_order (el_store c)) i = (k, v)" by force
  have wf: "lru_wf entries bk (el_store c)" and i: "i \<in> set is"
    using Cons.prems by (simp_all add: el_wf_def)
  obtain s where s: "lru_remove_index T bk i (el_store c) = (Returns (k, v), s)" "lru_wf entries bk s"
    "lru_slots entries bk s (remove1 i is)"
    "\<And>j. j \<in> set is \<Longrightarrow> j \<noteq> i \<Longrightarrow> ll_at (lru_order s) j = ll_at (lru_order (el_store c)) j"
    "lru_abs s = (lru_abs (el_store c))\<lparr>al_items := a_without bk (bk k) (lru_items (el_store c))\<rparr>"
    using lru_remove_index_slots [OF wf Cons.prems(3) i kv] by metis
  note f = lru_abs_frame2 [OF s(5)] lru_abs_frame_calls [OF s(5)]
  let ?c1 = "c\<lparr>el_store := s\<rparr>"
  have c1: "el_wf entries bk ?c1" "el_inner (lru_remove_index T bk i) c = (Returns (k, v), ?c1)"
    using Cons.prems(2) s(2) f el_inner_silent [of "lru_remove_index T bk i", OF s(1)]
    by (simp_all add: el_wf_def)
  have "distinct is" using Cons.prems(3) by (auto simp: lru_slots_def distinct_map)
  then have sub: "set js \<subseteq> set (remove1 i is)" using Cons.prems(4,5) by auto
  have same: "map (ll_at (lru_order s)) js = map (ll_at (lru_order (el_store c))) js"
    using Cons.prems(4,5) s(4) by (intro map_cong [OF refl]) auto
  obtain d where d: "elru_remove_all T bk js ?c1 = (Returns (map (ll_at (lru_order (el_store c))) js), d)"
    "el_wf entries bk d" "el_abs d = (el_abs ?c1)\<lparr>el_store := (lru_abs s)\<lparr>al_items :=
       a_without_all bk (map (ll_at (lru_order (el_store c))) js) (lru_items s)\<rparr>\<rparr>"
    using Cons.IH [of ?c1 _ "remove1 i is"] c1(1) s(3) sub Cons.prems(4) same
    by (auto simp del: map_eq_conv)
  show ?case
  proof (rule Cons.prems(1) [of d])
    show "elru_remove_all T bk (i # js) c = (Returns (map (ll_at (lru_order (el_store c))) (i # js)), d)"
      using c1(2) d(1) kv by (simp add: comp_simps)
    show "el_abs d = (el_abs c)\<lparr>el_store := (lru_abs (el_store c))\<lparr>al_items :=
       a_without_all bk (map (ll_at (lru_order (el_store c))) (i # js)) (lru_items (el_store c))\<rparr>\<rparr>"
      using d(3) s(5) f kv by (simp add: a_without_all_Cons el_abs_put)
  qed (rule d(2))
qed

text \<open>The scan is the one of \<open>LruCache::retain\<close> with the predicate negated.\<close>

lemma elru_doomed_eq: "elru_doomed_indices doomed c = lru_doomed_indices (\<lambda>k v. map_option Not (doomed k v)) (el_store c)"
proof -
  have "map_option Not (map_option Not x) = x" for x by (cases x) simp_all
  then show ?thesis by (simp add: elru_doomed_indices_def lru_doomed_indices_def)
qed

lemma el_sweep_at:
  assumes c: "el_wf entries bk c"
  shows "refines_at (el_wf entries bk) el_abs (andthen get_state (\<lambda>c.
     andthen (expect (elru_doomed_indices doomed c)) (elru_remove_and_notify T bk))) (ael_sweep bk doomed) c"
proof -
  obtain "is" where sl: "lru_slots entries bk (el_store c) is" using c by (auto simp: el_wf_def lru_wf_def)
  have nn: "map_option Not (map_option Not x) = x" for x by (cases x) simp_all
  note doomed = lru_doomed_indices_slots [OF sl, of "\<lambda>k v. map_option Not (doomed k v)", folded elru_doomed_eq,
      unfolded al_doomed_def nn]
  show ?thesis
  proof (cases "elru_doomed_indices doomed c")
    case None
    then show ?thesis using c doomed(1) by (simp add: refines_at_def ael_sweep_def comp_simps)
  next
    case (Some js)
    let ?out = "map (ll_at (lru_order (el_store c))) js"
    obtain d where d: "elru_remove_all T bk js c = (Returns ?out, d)" "el_wf entries bk d"
      "el_abs d = (el_abs c)\<lparr>el_store := (lru_abs (el_store c))\<lparr>al_items :=
         a_without_all bk ?out (lru_items (el_store c))\<rparr>\<rparr>"
      using elru_remove_all_slots [OF c sl, of js] doomed(2) [OF Some] by blast
    show ?thesis
    proof (rule refines_via [OF refines_el_reports(2) d(2)])
      show "andthen get_state (\<lambda>c. andthen (expect (elru_doomed_indices doomed c)) (elru_remove_and_notify T bk)) c =
          elru_notify_all ?out d"
        using Some d(1) by (simp add: elru_remove_and_notify_def comp_simps)
      show "ael_sweep bk doomed (el_abs c) = elru_notify_all ?out (el_abs d)"
        using Some doomed(1) d(3) el_wf_quiet [OF c]
        by (simp add: ael_sweep_def ael_inner_def al_set_items_def comp_simps) (simp add: el_abs_def lru_abs_def)
    qed
  qed
qed

lemma refines_el_sweeps [refines_rules]:
  "refines (el_wf entries bk) el_abs (elru_evict T bk exp) (ael_sweep bk (\<lambda>k v. exp v))"
  "refines (el_wf entries bk) el_abs (elru_retain T bk exp keep) (ael_sweep bk (\<lambda>k v. do {
     x \<leftarrow> exp v; if x then Some True else map_option Not (keep k v) }))"
  unfolding elru_evict_def elru_retain_def
  by (rule refinesI, rule el_sweep_at, assumption)+

end

end
