(* ===== verification/Expiring_Lru_Machine.thy ===== *)
theory Expiring_Lru_Machine
  imports Expiring_Lru_Refine
begin

text \<open>
  \<open>ExpiringLruCache\<close> as a state machine, its simulation by the specification under the contract
  \<open>lru_env\<close>, and the invariants of the specification over executions. Every operation carries what
  \<open>is_expired\<close> answers while it runs.
\<close>

datatype (plugins only: code size) (dead 'k, dead 'v, dead 'q, dead 'e) elru_op =
    XGet "'v expires" 'q
  | XGetMut "'v expires" 'q "'v \<Rightarrow> 'v"
  | XGetStatus "'v expires" 'q
  | XSet "'v expires" 'k 'v
  | XGetOrSet "'v expires" 'k "'v outcome" "'v \<Rightarrow> 'v"
  | XTryGetOrSet "'v expires" 'k "('e + 'v) outcome" "'v \<Rightarrow> 'v"
  | XAsyncGetOrSet "'v expires" 'k "'v outcome" "'v \<Rightarrow> 'v"
  | XAsyncTryGetOrSet "'v expires" 'k "('e + 'v) outcome" "'v \<Rightarrow> 'v"
  | XRemove "'v expires" 'q
  | XRemoveEntry 'q
  | XPeek "'v expires" 'q
  | XPeekStatus "'v expires" 'q
  | XContains "'v expires" 'q
  | XEvict "'v expires"
  | XRetain "'v expires" "('k, 'v) predicate"
  | XSetMaxSize usize
  | XTrySetMaxSize usize
  | XClear
  | XClearWithOnEvict
  | XResetMetrics
  | XReset

datatype (plugins only: code size) (dead 'k, dead 'v, dead 'e) elru_result =
    XUnit | XValue 'v | XTry "'e + 'v" | XLookup "'v option" | XStatus "'v option \<times> bool"
  | XEntry "('k \<times> 'v) option" | XBool bool | XCount usize | XCapacity "usize option"
  | XTryCapacity "set_max_size_error + usize option"

fun elru_exec :: "'t table_ops \<Rightarrow> ('k \<Rightarrow> 'q) \<Rightarrow> (usize \<Rightarrow> bool) \<Rightarrow> ('k, 'v, 'q, 'e) elru_op
    \<Rightarrow> (('k, 'v, 'q, 't) elru, ('k, 'v, 'e) elru_result) comp" where
  "elru_exec T bk alloc (XGet exp q) = as_result (elru_cache_get T bk exp q) XLookup"
| "elru_exec T bk alloc (XGetMut exp q upd) = as_result (elru_cache_get_mut T bk exp q upd) XLookup"
| "elru_exec T bk alloc (XGetStatus exp q) = as_result (elru_cache_get_with_expiry_status T bk exp q) XStatus"
| "elru_exec T bk alloc (XSet exp k v) = as_result (elru_cache_set T bk exp k v) XLookup"
| "elru_exec T bk alloc (XGetOrSet exp k f upd) =
     as_result (elru_cache_get_or_set_with_mut T bk exp k f upd) XValue"
| "elru_exec T bk alloc (XTryGetOrSet exp k f upd) =
     as_result (elru_cache_try_get_or_set_with_mut T bk exp k f upd) XTry"
| "elru_exec T bk alloc (XAsyncGetOrSet exp k f upd) =
     as_result (elru_async_cache_get_or_set_with_mut T bk exp k f upd) XValue"
| "elru_exec T bk alloc (XAsyncTryGetOrSet exp k f upd) =
     as_result (elru_async_cache_try_get_or_set_with_mut T bk exp k f upd) XTry"
| "elru_exec T bk alloc (XRemove exp q) = as_result (elru_cache_remove T bk exp q) XLookup"
| "elru_exec T bk alloc (XRemoveEntry q) = as_result (elru_cache_remove_entry T bk q) XEntry"
| "elru_exec T bk alloc (XPeek exp q) = as_result (elru_cache_peek T bk exp q) XLookup"
| "elru_exec T bk alloc (XPeekStatus exp q) = as_result (elru_cache_peek_with_expiry_status T bk exp q) XStatus"
| "elru_exec T bk alloc (XContains exp q) = as_result (elru_cache_contains T bk exp q) XBool"
| "elru_exec T bk alloc (XEvict exp) = as_result (elru_evict T bk exp) XCount"
| "elru_exec T bk alloc (XRetain exp keep) = as_result (elru_retain T bk exp keep) XCount"
| "elru_exec T bk alloc (XSetMaxSize n) = as_result (elru_set_max_size T bk n) XCapacity"
| "elru_exec T bk alloc (XTrySetMaxSize n) = as_result (elru_try_set_max_size T bk n) XTryCapacity"
| "elru_exec T bk alloc XClear = as_result (elru_cache_clear T) (\<lambda>_. XUnit)"
| "elru_exec T bk alloc XClearWithOnEvict = as_result (elru_cache_clear_with_on_evict T) (\<lambda>_. XUnit)"
| "elru_exec T bk alloc XResetMetrics = as_result elru_cache_reset_metrics (\<lambda>_. XUnit)"
| "elru_exec T bk alloc XReset = as_result (elru_cache_reset T alloc) (\<lambda>_. XUnit)"

fun ael_exec :: "('k \<Rightarrow> 'q) \<Rightarrow> ('k, 'v, 'q, 'e) elru_op \<Rightarrow> (('k, 'v) aelru, ('k, 'v, 'e) elru_result) comp" where
  "ael_exec bk (XGet exp q) = as_result (ael_get_mut bk exp q id) XLookup"
| "ael_exec bk (XGetMut exp q upd) = as_result (ael_get_mut bk exp q upd) XLookup"
| "ael_exec bk (XGetStatus exp q) = as_result (ael_get_with_expiry_status bk exp q) XStatus"
| "ael_exec bk (XSet exp k v) = as_result (ael_set bk exp k v) XLookup"
| "ael_exec bk (XGetOrSet exp k f upd) = as_result (ael_get_or_set bk exp k f upd) XValue"
| "ael_exec bk (XTryGetOrSet exp k f upd) = as_result (ael_try_get_or_set bk exp k f upd) XTry"
| "ael_exec bk (XAsyncGetOrSet exp k f upd) = as_result (ael_get_or_set bk exp k f upd) XValue"
| "ael_exec bk (XAsyncTryGetOrSet exp k f upd) = as_result (ael_try_get_or_set bk exp k f upd) XTry"
| "ael_exec bk (XRemove exp q) = as_result (ael_remove bk exp q) XLookup"
| "ael_exec bk (XRemoveEntry q) = as_result (ael_remove_entry bk q) XEntry"
| "ael_exec bk (XPeek exp q) = as_result (andthen (ael_peek bk q) (\<lambda>found. case found of
     Some v \<Rightarrow> andthen (expect (exp v)) (\<lambda>expired. ret (if expired then None else Some v))
   | None \<Rightarrow> ret None)) XLookup"
| "ael_exec bk (XPeekStatus exp q) = as_result (andthen (ael_peek bk q) (\<lambda>found. case found of
     Some v \<Rightarrow> andthen (expect (exp v)) (\<lambda>expired. ret (Some v, expired))
   | None \<Rightarrow> ret (None, False))) XStatus"
| "ael_exec bk (XContains exp q) = as_result (andthen (andthen (ael_peek bk q) (\<lambda>found. case found of
     Some v \<Rightarrow> andthen (expect (exp v)) (\<lambda>expired. ret (if expired then None else Some v))
   | None \<Rightarrow> ret None)) (\<lambda>v. ret (v \<noteq> None))) XBool"
| "ael_exec bk (XEvict exp) = as_result (ael_sweep bk (\<lambda>k v. exp v)) XCount"
| "ael_exec bk (XRetain exp keep) = as_result (ael_sweep bk (\<lambda>k v. do {
     x \<leftarrow> exp v; if x then Some True else map_option Not (keep k v) })) XCount"
| "ael_exec bk (XSetMaxSize n) = as_result (ael_inner (al_set_max_size bk n)) XCapacity"
| "ael_exec bk (XTrySetMaxSize n) = as_result (ael_inner (if n = 0 then ret (Inl ZeroMaxSize)
     else andthen (al_set_max_size bk n) (\<lambda>p. ret (Inr p)))) XTryCapacity"
| "ael_exec bk XClear = as_result (ael_inner (al_set_items [])) (\<lambda>_. XUnit)"
| "ael_exec bk XClearWithOnEvict = as_result (andthen ael_drain (\<lambda>removed.
     andthen (elru_notify_all removed) (\<lambda>_. ret ()))) (\<lambda>_. XUnit)"
| "ael_exec bk XResetMetrics = as_result (andthen (modify (\<lambda>c. c\<lparr>el_hits := 0, el_misses := 0,
     el_evictions := 0\<rparr>)) (\<lambda>_. ael_inner al_reset_metrics)) (\<lambda>_. XUnit)"
| "ael_exec bk XReset = as_result (andthen (ael_inner (andthen (al_set_items []) (\<lambda>_. al_reset_metrics)))
     (\<lambda>_. modify (\<lambda>c. c\<lparr>el_hits := 0, el_misses := 0, el_evictions := 0\<rparr>))) (\<lambda>_. XUnit)"

section \<open>Simulation\<close>

lemma refines_el_zero [refines_rules]:
  "refines (el_wf entries bk) el_abs (modify (\<lambda>c. c\<lparr>el_hits := 0, el_misses := 0, el_evictions := 0\<rparr>))
     (modify (\<lambda>c. c\<lparr>el_hits := 0, el_misses := 0, el_evictions := 0\<rparr>))"
  by (rule refines_modify) (simp add: el_wf_def el_abs_def)

context hash_table
begin

lemma refines_elru_exec:
  "alloc 2 \<Longrightarrow> refines (el_wf entries bk) el_abs (elru_exec T bk alloc op) (ael_exec bk op)"
  by (cases op) (simp_all only: elru_exec.simps ael_exec.simps elru_async_eq elru_cache_peek_def
      elru_cache_contains_def elru_cache_peek_with_expiry_status_def elru_set_max_size_def
      elru_try_set_max_size_def elru_cache_clear_def elru_cache_clear_with_on_evict_def
      elru_cache_reset_metrics_def elru_cache_reset_def,
      (intro refines_rules refines_el_reset; assumption)+)

end

sublocale lru_env \<subseteq> elru: simulation "elru_exec T bk alloc" "ael_exec bk" "el_wf entries bk" el_abs
  by unfold_locales (intro refines_elru_exec alloc_sentinels)

section \<open>Invariants of the specification\<close>

definition ael_inv :: "('k \<Rightarrow> 'q) \<Rightarrow> ('k, 'v) callback option \<Rightarrow> ('k, 'v) aelru \<Rightarrow> bool" where
  "ael_inv bk cb a \<longleftrightarrow> al_inv bk cb (el_store a) \<and> al_calls (el_store a) = [] \<and> el_on_evict a = cb"

definition ael_counted :: "('k, 'v) callback \<Rightarrow> ('k, 'v) aelru \<Rightarrow> bool" where
  "ael_counted cb a \<longleftrightarrow> el_on_evict a = Some cb \<and> quiet (Some cb) \<and> al_on_evict (el_store a) = Some cb \<and>
     al_calls (el_store a) = [] \<and> el_evictions a + al_evictions (el_store a) = of_nat (length (el_calls a))"

lemma ael_inv_inner:
  assumes "\<And>cb. keeps (al_inv bk cb) n"
  shows "keeps (ael_inv bk cb) (ael_inner n)"
  using keepsD [OF assms]
  by (fastforce simp: keeps_def ael_inv_def ael_inner_def al_inv_def split: prod.splits)

lemma ael_counted_inner:
  assumes "\<And>cb e. keeps (al_counted cb e) n"
  shows "keeps (ael_counted cb) (ael_inner n)"
proof (rule keepsI)
  fix a assume a: "ael_counted cb a"
  obtain r s where s: "n (el_store a) = (r, s)" by force
  have "al_counted cb (al_evictions (el_store a)) s"
    using keepsD [OF assms, of cb "al_evictions (el_store a)" "el_store a"] a s
    by (simp add: ael_counted_def al_counted_def)
  then show "ael_counted cb (snd (ael_inner n a))"
    using a s by (simp add: ael_counted_def al_counted_def ael_inner_def add.assoc)
qed

lemma el_notify_batch:
  "foreach kvs (\<lambda>(k, v). el_notify k v) c =
     (if all_ok (el_on_evict c) kvs then Returns () else Panics,
      c\<lparr>el_calls := el_calls c @ cb_calls (el_on_evict c) (processed (el_on_evict c) kvs)\<rparr>)"
proof (induction kvs arbitrary: c)
  case (Cons kv kvs)
  then show ?case
    by (cases kv; cases "el_on_evict c") (simp_all add: andthen_apply el_notify_apply)
qed (simp add: ret_apply)

lemma elru_notify_all_apply:
  "elru_notify_all kvs c =
     (if all_ok (el_on_evict c) kvs then Returns (length kvs) else Panics,
      c\<lparr>el_evictions := el_evictions c + of_nat (length kvs),
        el_calls := el_calls c @ cb_calls (el_on_evict c) (processed (el_on_evict c) kvs)\<rparr>)"
proof -
  have "cwhen (kvs \<noteq> []) (el_count (length kvs)) c =
      (Returns (), c\<lparr>el_evictions := el_evictions c + of_nat (length kvs)\<rparr>)"
    by (cases kvs) (simp_all add: cwhen_def el_count_def comp_simps)
  then show ?thesis by (simp add: elru_notify_all_def andthen_apply el_notify_batch ret_apply)
qed

lemma ael_parts [keeps_rules]:
  "keeps (ael_inv bk cb) el_hit" "keeps (ael_inv bk cb) el_miss" "keeps (ael_inv bk cb) (el_report k v)"
  "keeps (ael_inv bk cb) (elru_notify_all out)"
  "keeps (ael_inv bk cb) (modify (\<lambda>c. c\<lparr>el_hits := 0, el_misses := 0, el_evictions := 0\<rparr>))"
  "keeps (ael_counted f) el_hit" "keeps (ael_counted f) el_miss" "keeps (ael_counted f) (el_report k v)"
  "keeps (ael_counted f) (elru_notify_all out)"
  by (auto simp: keeps_def ael_inv_def ael_counted_def el_hit_def el_miss_def el_report_apply
      elru_notify_all_apply processed_all modify_apply algebra_simps)

lemma ael_peek_keeps [keeps_rules]: "keeps I (ael_peek bk q)"
  by (simp add: keeps_def ael_peek_def comp_simps)

lemma ael_settle_keeps [keeps_rules]: "keeps (ael_inv bk cb) (el_settle out)" "keeps (ael_counted f) (el_settle out)"
  unfolding el_settle_def by (intro keeps_rules)+

lemma ael_inner_keeps [keeps_rules]:
  "keeps (ael_inv bk cb) (ael_inner (al_pop bk q))" "keeps (ael_counted f) (ael_inner (al_pop bk q))"
  "keeps (ael_inv bk cb) (ael_inner (al_get_mut_if bk q valid upd))"
  "keeps (ael_counted f) (ael_inner (al_get_mut_if bk q valid upd))"
  "keeps (ael_inv bk cb) (ael_inner (al_set bk key val))" "keeps (ael_counted f) (ael_inner (al_set bk key val))"
  "keeps (ael_inv bk cb) (ael_inner (al_get_or_set_with_if bk key g valid upd))"
  "keeps (ael_counted f) (ael_inner (al_get_or_set_with_if bk key g valid upd))"
  "keeps (ael_inv bk cb) (ael_inner (al_try_get_or_set_with_if bk key h valid upd))"
  "keeps (ael_counted f) (ael_inner (al_try_get_or_set_with_if bk key h valid upd))"
  "keeps (ael_inv bk cb) (ael_inner (al_set_max_size bk n))" "keeps (ael_counted f) (ael_inner (al_set_max_size bk n))"
  "keeps (ael_inv bk cb) (ael_inner (if n = 0 then ret (Inl ZeroMaxSize) else andthen (al_set_max_size bk n) (\<lambda>p. ret (Inr p))))"
  "keeps (ael_counted f) (ael_inner (if n = 0 then ret (Inl ZeroMaxSize) else andthen (al_set_max_size bk n) (\<lambda>p. ret (Inr p))))"
  "keeps (ael_inv bk cb) (ael_inner (al_set_items []))" "keeps (ael_counted f) (ael_inner (al_set_items xs))"
  "keeps (ael_inv bk cb) (ael_inner al_reset_metrics)"
  "keeps (ael_inv bk cb) (ael_inner (andthen (al_set_items []) (\<lambda>_. al_reset_metrics)))"
  "keeps (ael_inv bk cb) ael_drain" "keeps (ael_counted f) ael_drain"
  unfolding ael_drain_def by (intro ael_inv_inner ael_counted_inner keeps_rules)+

lemma ael_inv_sweep [keeps_rules]: "keeps (ael_inv bk cb) (ael_sweep bk doomed)"
  unfolding ael_sweep_def
proof (rule keeps_state)
  fix a assume a: "ael_inv bk cb a"
  have "al_inv bk cb ((el_store a)\<lparr>al_items := a_without_all bk out (al_items (el_store a))\<rparr>)" for out
    using a by (intro al_inv_shrink) (auto simp: ael_inv_def al_inv_def a_without_all_def intro: a_wf_filter)
  then have "ael_inv bk cb (snd (ael_inner (al_set_items (a_without_all bk out (al_items (el_store a)))) a))" for out
    using a by (simp add: ael_inv_def ael_inner_def al_set_items_def modify_apply al_inv_def)
  then have "ael_inv bk cb (snd (andthen (ael_inner (al_set_items (a_without_all bk out (al_items (el_store a)))))
      (\<lambda>_. elru_notify_all out) a))" for out
    by (rule keeps_after) (intro keeps_rules)
  then show "ael_inv bk cb (snd (andthen
      (expect (filter_closure (\<lambda>kv. doomed (fst kv) (snd kv)) (al_items (el_store a))))
      (\<lambda>out. andthen (ael_inner (al_set_items (a_without_all bk out (al_items (el_store a)))))
        (\<lambda>_. elru_notify_all out)) a))"
    using a by (cases "filter_closure (\<lambda>kv. doomed (fst kv) (snd kv)) (al_items (el_store a))")
      (simp_all add: expect_def panic_apply)
qed

lemma ael_counted_sweep [keeps_rules]: "keeps (ael_counted f) (ael_sweep bk doomed)"
  unfolding ael_sweep_def by (intro keeps_rules)

lemmas ael_defs = ael_get_mut_def ael_expire_def ael_serve_def ael_get_with_expiry_status_def ael_set_def
  ael_get_or_set_def ael_try_get_or_set_def ael_remove_def ael_remove_entry_def

lemma ael_inv_exec: "keeps (ael_inv bk cb) (ael_exec bk op)"
  by (cases op) (simp_all only: ael_exec.simps ael_defs, (intro keeps_rules)+)

lemma ael_counted_exec:
  "op \<noteq> XResetMetrics \<Longrightarrow> op \<noteq> XReset \<Longrightarrow> keeps (ael_counted cb) (ael_exec bk op)"
  by (cases op) (simp_all only: ael_exec.simps ael_defs simp_thms, (intro keeps_rules)+)

interpretation ael: machine_invariant "ael_exec bk" "ael_inv bk cb" for bk cb
  by unfold_locales (rule keepsD [OF ael_inv_exec])

section \<open>Executions of the code\<close>

context lru_env
begin

lemma elru_build_wf:
  assumes "elru_build T table_alloc list_alloc b = Inr c"
  shows "el_wf entries bk c" "ael_inv bk (elb_on_evict b) (el_abs c)"
    "elb_on_evict b = Some cb \<Longrightarrow> quiet (Some cb) \<Longrightarrow> ael_counted cb (el_abs c)"
proof -
  obtain n s where s: "lru_build T table_alloc list_alloc
      (lru_builder_hasher (elb_hasher b) (lru_builder_max_size n (lru_builder_default (elb_hasher b)))) = Inr s"
    and c0: "c = (let cache = \<lparr>el_store = lru_disable_hit_miss_tracking s, el_hits = 0, el_misses = 0,
           el_evictions = 0, el_on_evict = elb_on_evict b, el_calls = []\<rparr> in case elb_on_evict b of
        None \<Rightarrow> cache | Some f \<Rightarrow> cache\<lparr>el_store := (el_store cache)\<lparr>lru_on_evict := Some f\<rparr>\<rparr>)"
    using assms unfolding elru_build_def Let_def
    by (cases "elb_size b") (auto split: sum.splits)
  note w = lru_build_wf [OF s]
  have "lru_on_evict s = None"
    using arg_cong [OF w(2), of al_on_evict]
    by (simp add: lru_builder_hasher_def lru_builder_max_size_def lru_builder_default_def)
  then have c: "c = \<lparr>el_store = (lru_disable_hit_miss_tracking s)\<lparr>lru_on_evict := elb_on_evict b\<rparr>, el_hits = 0,
          el_misses = 0, el_evictions = 0, el_on_evict = elb_on_evict b, el_calls = []\<rparr>"
    by (simp add: c0 lru_disable_hit_miss_tracking_def Let_def split: option.splits)
  have t: "lru_calls s = []" "lru_items s = []" "lru_evictions s = 0" "0 < lru_capacity s"
    using arg_cong [OF w(2), of al_calls] arg_cong [OF w(2), of al_items] arg_cong [OF w(2), of al_evictions] w(1) [of bk]
    by (simp_all add: lru_wf_def)
  have u: "lru_wf entries bk (s\<lparr>lru_track_hit_miss := x, lru_on_evict := y\<rparr>)" for x y
    using w(1) [of bk] by (simp add: lru_wf_def lru_slots_def)
  show wf: "el_wf entries bk c" using u t(1) by (simp add: c lru_disable_hit_miss_tracking_def el_wf_def)
  have i: "lru_items (s\<lparr>lru_track_hit_miss := x, lru_on_evict := y\<rparr>) = []" for x y
    using t(2) by (simp add: lru_items_def)
  show "ael_inv bk (elb_on_evict b) (el_abs c)" "elb_on_evict b = Some cb \<Longrightarrow> quiet (Some cb) \<Longrightarrow> ael_counted cb (el_abs c)"
    using i t by (simp_all add: c ael_inv_def ael_counted_def al_inv_def lru_disable_hit_miss_tracking_def)
qed

lemma elru_build_items:
  assumes "elru_build T table_alloc list_alloc b = Inr c"
  shows "lru_items (el_store c) = []" "el_on_evict c = elb_on_evict b"
proof -
  obtain n s where s: "lru_build T table_alloc list_alloc
      (lru_builder_hasher (elb_hasher b) (lru_builder_max_size n (lru_builder_default (elb_hasher b)))) = Inr s"
    and c: "c = (let cache = \<lparr>el_store = lru_disable_hit_miss_tracking s, el_hits = 0, el_misses = 0,
           el_evictions = 0, el_on_evict = elb_on_evict b, el_calls = []\<rparr> in case elb_on_evict b of
        None \<Rightarrow> cache | Some f \<Rightarrow> cache\<lparr>el_store := (el_store cache)\<lparr>lru_on_evict := Some f\<rparr>\<rparr>)"
    using assms unfolding elru_build_def Let_def by (cases "elb_size b") (auto split: sum.splits)
  have "lru_items s = []" using arg_cong [OF lru_build_wf(2) [OF s], of al_items] by simp
  then show "lru_items (el_store c) = []" "el_on_evict c = elb_on_evict b"
    by (cases "elb_on_evict b"; simp add: c Let_def lru_items_def lru_disable_hit_miss_tracking_def)+
qed

lemma elru_execution:
  assumes "elru_build T table_alloc list_alloc b = Inr c" "execution (elru_exec T bk alloc) c tr d"
  shows "el_wf entries bk d" "execution (ael_exec bk) (el_abs c) tr (el_abs d)" "ael_inv bk (elb_on_evict b) (el_abs d)"
proof -
  note c = elru_build_wf [OF assms(1)]
  show d: "el_wf entries bk d" "execution (ael_exec bk) (el_abs c) tr (el_abs d)"
    using elru.simulates [OF assms(2) c(1)] by simp_all
  show "ael_inv bk (elb_on_evict b) (el_abs d)" by (rule ael.inv_execution [OF d(2) c(2)])
qed

lemma elru_execution_counted:
  assumes "elru_build T table_alloc list_alloc b = Inr c" "execution (elru_exec T bk alloc) c tr d"
    and "elb_on_evict b = Some cb" "quiet (Some cb)"
    and "\<And>op. op \<in> set (map fst tr) \<Longrightarrow> op \<noteq> XResetMetrics \<and> op \<noteq> XReset"
  shows "ael_counted cb (el_abs d)"
proof -
  have "ael_counted cb (el_abs c)" by (rule elru_build_wf(3) [OF assms(1,3,4)])
  with elru_execution(2) [OF assms(1,2)] assms(5) show ?thesis
  proof (induction rule: execution.induct)
    case (call tr s op r t)
    then show ?case using keepsD [OF ael_counted_exec [of op cb bk], of s] by simp
  qed
qed

end

end
