(* ===== verification/Expiring_Lru_Correct.thy ===== *)
theory Expiring_Lru_Correct
  imports Expiring_Lru_Machine Lru_Correct
begin

text \<open>
  What a client of \<open>ExpiringLruCache\<close> can rely on, whatever its values answer about their expiry.
\<close>

definition elru_demo_builder :: "usize \<Rightarrow> (nat, nat) callback option \<Rightarrow> (nat, nat, nat) elru_builder" where
  "elru_demo_builder n cb = \<lparr>elb_size = Some n, elb_on_evict = cb, elb_hasher = (\<lambda>_. 0)\<rparr>"

definition elru_demo :: "usize \<Rightarrow> (nat, nat) callback option \<Rightarrow> (nat, nat, nat, (u64 \<times> usize) list) elru" where
  "elru_demo n cb = \<lparr>el_store = \<lparr>lru_store = [], lru_hash_builder = (\<lambda>_. 0),
       lru_order = \<lparr>ll_values = ll_sentinels\<rparr>, lru_capacity = n, lru_hits = 0, lru_misses = 0, lru_evictions = 0,
       lru_on_evict = cb, lru_track_hit_miss = False, lru_calls = []\<rparr>,
     el_hits = 0, el_misses = 0, el_evictions = 0, el_on_evict = cb, el_calls = []\<rparr>"

lemma elru_demo_build:
  "0 < n \<Longrightarrow> n \<le> 100 \<Longrightarrow>
     elru_build list_table (\<lambda>_. True) (\<lambda>_. True) (elru_demo_builder n cb) = Inr (elru_demo n cb)"
  by (cases cb) (simp_all add: elru_build_def elru_demo_builder_def elru_demo_def Let_def
      list_table_def lru_build_def lru_builder_hasher_def lru_builder_max_size_def lru_builder_default_def
      lru_disable_hit_miss_tracking_def ll_try_with_capacity_def usize_checked_add_def usize_max_def)

text \<open>Three insertions into a cache of two entries; a value is expired when it is below 100.\<close>

abbreviation "elru_demo_run cb \<equiv> run (elru_exec list_table id (\<lambda>_. True))
  [XSet (\<lambda>v. Some (v < 100)) 1 10, XSet (\<lambda>v. Some (v < 100)) 2 200, XSet (\<lambda>v. Some (v < 100)) 1 11,
   XSet (\<lambda>v. Some (v < 100)) 3 300, XGet (\<lambda>v. Some (v < 100)) 1 :: (nat, nat, nat, unit) elru_op]
  (elru_demo 2 cb)"



text \<open>
  C16. When the callback returns normally, every sequence of calls without a reset leaves at most
  \<open>cache_capacity\<close> entries, and \<open>cache_evictions\<close> equals the number of calls the callback has received
  (modulo \<open>2 ^ 64\<close>), whether entries left by expiry, by removal or over capacity.
\<close>

theorem elru_bounded_and_counted:
  assumes "hash_table T entries" "alloc 2" "elru_build T table_alloc list_alloc b = Inr c"
    and "elb_on_evict b = Some cb" "quiet (Some cb)" "execution (elru_exec T bk alloc) c tr d"
    and "\<And>op. op \<in> set (map fst tr) \<Longrightarrow> op \<noteq> XResetMetrics \<and> op \<noteq> XReset"
  shows "elru_cache_evictions d = Some (of_nat (length (el_calls d))) \<and>
    (\<exists>n. elru_cache_capacity d = Some n \<and> elru_cache_size T d \<le> n)"
proof -
  note env = lru_envI [of T entries alloc, OF assms(1,2)]
  have "ael_counted cb (el_abs d)"
    by (rule lru_env.elru_execution_counted [OF env assms(3,6,4,5)]) (rule assms(7))
  moreover have "ael_inv bk (elb_on_evict b) (el_abs d)"
    by (rule lru_env.elru_execution(3) [OF env assms(3,6)])
  moreover have "lru_wf entries bk (el_store d)"
    using lru_env.elru_execution(1) [OF env assms(3,6)] by (simp add: el_wf_def)
  ultimately show ?thesis
    using assms(4,5) hash_table.lru_size_wf [OF assms(1), of bk "el_store d"]
    by (simp add: ael_counted_def ael_inv_def al_inv_def elru_cache_evictions_def lru_cache_evictions_def
        elru_cache_capacity_def lru_cache_capacity_def elru_cache_size_def)
qed

theorem elru_bounded_and_counted_witness:
  "elru_cache_evictions (snd (elru_demo_run (Some (\<lambda>k v. True)))) =
     Some (of_nat (length (el_calls (snd (elru_demo_run (Some (\<lambda>k v. True))))))) \<and>
   el_calls (snd (elru_demo_run (Some (\<lambda>k v. True)))) = [(1, 10), (2, 200), (1, 11)]"
proof (rule conjI)
  show "elru_cache_evictions (snd (elru_demo_run (Some (\<lambda>k v. True)))) =
      Some (of_nat (length (el_calls (snd (elru_demo_run (Some (\<lambda>k v. True)))))))"
    by (rule elru_bounded_and_counted [OF lt.hash_table_axioms _ elru_demo_build _ _ run_execution, THEN conjunct1])
      (simp_all only: run_ops, auto simp: quiet_def elru_demo_builder_def)
  show "el_calls (snd (elru_demo_run (Some (\<lambda>k v. True)))) = [(1, 10), (2, 200), (1, 11)]" by code_simp
qed

text \<open>
  \<open>evict\<close> removes exactly the entries whose values say that they have expired, keeps the order of
  the others, counts all it removed before the first is reported; a value whose \<open>is_expired\<close> panics
  leaves the whole cache unchanged.
\<close>

theorem elru_evict_effect:
  assumes "hash_table T entries" "el_wf entries bk c" "elru_evict T bk exp c = (r, d)"
  shows "if \<exists>(k, v) \<in> set (lru_items (el_store c)). exp v = None then r = Panics \<and> el_abs d = el_abs c
    else (let out = filter (\<lambda>(k, v). exp v = Some True) (lru_items (el_store c)) in
      lru_items (el_store d) = filter (\<lambda>(k, v). exp v = Some False) (lru_items (el_store c)) \<and>
      elru_cache_evictions d = map_option (\<lambda>n. n + of_nat (length out)) (elru_cache_evictions c) \<and>
      el_calls d = el_calls c @ cb_calls (el_on_evict c) (processed (el_on_evict c) out) \<and>
      r = (if all_ok (el_on_evict c) out then Returns (length out) else Panics))"
proof -
  let ?xs = "lru_items (el_store c)" and ?a = "snd (ael_sweep bk (\<lambda>k v. exp v) (el_abs c))"
  have a: "ael_sweep bk (\<lambda>k v. exp v) (el_abs c) = (r, el_abs d)"
    by (rule refines_result(2) [OF hash_table.refines_el_sweeps(1) [OF assms(1)] assms(2,3)])
  have sel: "r = fst (ael_sweep bk (\<lambda>k v. exp v) (el_abs c))" "lru_items (el_store d) = al_items (el_store ?a)"
    "el_calls d = el_calls ?a" "el_abs d = ?a"
    "elru_cache_evictions d = Some (el_evictions ?a + al_evictions (el_store ?a))"
    "elru_cache_evictions c = Some (el_evictions c + lru_evictions (el_store c))"
    unfolding a by (simp_all add: elru_cache_evictions_def lru_cache_evictions_def)
  note w = hash_table.el_wf_quiet [OF assms(1,2)]
  have wf: "a_wf bk ?xs" using assms(2) hash_table.lru_wf_a_wf [OF assms(1), of bk "el_store c"] by (simp add: el_wf_def)
  show ?thesis
  proof (cases "\<exists>(k, v) \<in> set ?xs. exp v = None")
    case True
    then have "filter_closure (\<lambda>kv. exp (snd kv)) ?xs = None" by (auto intro: filter_closure_panic)
    then show ?thesis
      unfolding if_P [OF True] sel by (simp add: ael_sweep_def comp_simps)
  next
    case False
    have f: "filter_closure (\<lambda>kv. exp (snd kv)) ?xs = Some (filter (\<lambda>kv. exp (snd kv) = Some True) ?xs)"
      using False by (intro filter_closure_total) force
    have "filter (\<lambda>kv. exp (snd kv) = Some True) ?xs = filter (\<lambda>kv. \<not> exp (snd kv) = Some False) ?xs"
      using False by (intro filter_cong [OF refl]) force
    then have "a_without_all bk (filter (\<lambda>kv. exp (snd kv) = Some True) ?xs) ?xs = filter (\<lambda>kv. exp (snd kv) = Some False) ?xs"
      using a_without_all_filter [OF wf, of "\<lambda>kv. exp (snd kv) = Some False"] by simp
    then show ?thesis
      unfolding if_not_P [OF False] sel using f w
      by (simp add: ael_sweep_def ael_inner_def al_set_items_def elru_notify_all_apply comp_simps Let_def
          case_prod_beta')
  qed
qed

definition elru_filled :: "(nat, nat) callback option \<Rightarrow> (nat, nat, nat, (u64 \<times> usize) list) elru" where
  "elru_filled cb = snd (run (elru_exec list_table id (\<lambda>_. True))
     [XSet (\<lambda>v. Some False) 1 10, XSet (\<lambda>v. Some False) 2 200 :: (nat, nat, nat, unit) elru_op] (elru_demo 2 cb))"

lemma elru_filled_wf: "el_wf mset id (elru_filled cb)"
  unfolding elru_filled_def
  by (rule lts.elru_execution(1) [OF elru_demo_build run_execution]) simp_all

lemma elru_filled_items:
  "lru_items (el_store (elru_filled None)) = [(2, 200), (1, 10)]" "el_on_evict (elru_filled None) = None"
  by code_simp+

theorem elru_evict_effect_witness:
  "lru_items (el_store (snd (elru_evict list_table id (\<lambda>v. Some (v < 100)) (elru_filled None)))) = [(2, 200)] \<and>
   fst (elru_evict list_table id (\<lambda>v. if v = 200 then None else Some True) (elru_filled None)) = Panics"
  using elru_evict_effect [OF lt.hash_table_axioms elru_filled_wf [of None] prod.collapse [symmetric],
      where exp = "\<lambda>v. Some (v < 100)"]
    elru_evict_effect [OF lt.hash_table_axioms elru_filled_wf [of None] prod.collapse [symmetric],
      where exp = "\<lambda>v. if v = 200 then None else Some True"]
  by (simp add: elru_filled_items Let_def)

end
