(* ===== verification/Expiry_Index.thy ===== *)
theory Expiry_Index
  imports Prelude
begin

text \<open>
  The expiry index of \<open>src/stores/ttl_sorted.rs\<close>: \<open>BTreeSet<Stamped<K>>\<close>. A stamp orders by its
  expiry, where \<open>None\<close> (never expires) is greatest, and then by its key, where the missing key of a
  range bound is least. A \<open>BTreeSet\<close> is the strictly ascending list of its elements; \<open>rk\<close> ranks an
  element in the linear order that its \<open>Ord\<close> implements.
\<close>

section \<open>The order of stamps\<close>

datatype 'q stamp_rank = Rank "instant option" "'q option"

fun expiry_less :: "instant option \<Rightarrow> instant option \<Rightarrow> bool" where
  "expiry_less None None = False"
| "expiry_less None (Some _) = False"
| "expiry_less (Some _) None = True"
| "expiry_less (Some a) (Some b) = (a < b)"

fun key_less_eq :: "'q::linorder option \<Rightarrow> 'q option \<Rightarrow> bool" where
  "key_less_eq None _ = True"
| "key_less_eq (Some _) None = False"
| "key_less_eq (Some a) (Some b) = (a \<le> b)"

fun stamp_less_eq :: "'q::linorder stamp_rank \<Rightarrow> 'q stamp_rank \<Rightarrow> bool" where
  "stamp_less_eq (Rank e k) (Rank e' k') = (expiry_less e e' \<or> e = e' \<and> key_less_eq k k')"

lemma expiry_less_None [simp]: "\<not> expiry_less None e"
  by (cases e) simp_all

lemma expiry_less_linear: "expiry_less a b \<or> a = b \<or> expiry_less b a"
  by (cases a; cases b) auto

lemma expiry_less_irrefl [simp]: "\<not> expiry_less a a"
  by (cases a) simp_all

lemma expiry_less_trans: "expiry_less a b \<Longrightarrow> expiry_less b c \<Longrightarrow> expiry_less a c"
  by (cases a; cases b; cases c) auto

lemma key_less_eq_linear:
  "key_less_eq a a" "key_less_eq a b \<or> key_less_eq b a"
  "key_less_eq a b \<Longrightarrow> key_less_eq b a \<Longrightarrow> a = b"
  "key_less_eq a b \<Longrightarrow> key_less_eq b c \<Longrightarrow> key_less_eq a c"
  by (cases a; cases b; cases c; auto)+

instantiation stamp_rank :: (linorder) linorder
begin

definition less_eq_stamp_rank :: "'a stamp_rank \<Rightarrow> 'a stamp_rank \<Rightarrow> bool" where
  "less_eq_stamp_rank r s = stamp_less_eq r s"

definition less_stamp_rank :: "'a stamp_rank \<Rightarrow> 'a stamp_rank \<Rightarrow> bool" where
  "less_stamp_rank r s = (stamp_less_eq r s \<and> \<not> stamp_less_eq s r)"

instance
proof
  fix r s t :: "'a stamp_rank"
  show "(r < s) = (r \<le> s \<and> \<not> s \<le> r)"
    by (simp add: less_eq_stamp_rank_def less_stamp_rank_def)
  show "r \<le> r"
    by (cases r) (simp add: less_eq_stamp_rank_def key_less_eq_linear)
  show "r \<le> s \<Longrightarrow> s \<le> t \<Longrightarrow> r \<le> t"
    by (cases r; cases s; cases t)
      (auto simp: less_eq_stamp_rank_def intro: expiry_less_trans key_less_eq_linear(4))
  show "r \<le> s \<Longrightarrow> s \<le> r \<Longrightarrow> r = s"
    by (cases r; cases s)
      (auto simp: less_eq_stamp_rank_def dest: expiry_less_trans key_less_eq_linear(3))
  show "r \<le> s \<or> s \<le> r"
    using expiry_less_linear key_less_eq_linear(2)
    by (cases r; cases s) (auto simp: less_eq_stamp_rank_def)
qed

end

lemma stamp_rank_less [simp]:
  "Rank e k < Rank e' k' \<longleftrightarrow> expiry_less e e' \<or> e = e' \<and> \<not> key_less_eq k' k"
  using expiry_less_trans [of e e' e] key_less_eq_linear(2) [of k k']
  by (auto simp: less_stamp_rank_def)

section \<open>Ordered sets\<close>

type_synonym 'a btree_set = "'a list"

fun bt_insert :: "('a \<Rightarrow> 'r::linorder) \<Rightarrow> 'a \<Rightarrow> 'a btree_set \<Rightarrow> 'a btree_set" where
  "bt_insert rk x [] = [x]"
| "bt_insert rk x (y # ys) =
     (if rk x < rk y then x # y # ys else if rk x = rk y then y # ys else y # bt_insert rk x ys)"

fun bt_remove :: "('a \<Rightarrow> 'r::linorder) \<Rightarrow> 'a \<Rightarrow> 'a btree_set \<Rightarrow> 'a btree_set" where
  "bt_remove rk x [] = []"
| "bt_remove rk x (y # ys) = (if rk x = rk y then ys else y # bt_remove rk x ys)"

fun bt_pop_first :: "'a btree_set \<Rightarrow> 'a option \<times> 'a btree_set" where
  "bt_pop_first [] = (None, [])"
| "bt_pop_first (x # xs) = (Some x, xs)"

text \<open>\<open>split_off\<close>: what stays (below the bound) and what is returned (at or above it).\<close>

definition bt_split_off :: "('a \<Rightarrow> 'r::linorder) \<Rightarrow> 'a \<Rightarrow> 'a btree_set \<Rightarrow> 'a btree_set \<times> 'a btree_set" where
  "bt_split_off rk x xs = (takeWhile (\<lambda>y. rk y < rk x) xs, dropWhile (\<lambda>y. rk y < rk x) xs)"

definition bt_wf :: "('a \<Rightarrow> 'r::linorder) \<Rightarrow> 'a btree_set \<Rightarrow> bool" where
  "bt_wf rk xs \<longleftrightarrow> sorted_wrt (\<lambda>x y. rk x < rk y) xs"

lemma bt_wf_simps [simp]:
  "bt_wf rk []" "bt_wf rk (x # xs) \<longleftrightarrow> (\<forall>y\<in>set xs. rk x < rk y) \<and> bt_wf rk xs"
  by (simp_all add: bt_wf_def)

lemma bt_wf_append: "bt_wf rk (xs @ ys) \<longleftrightarrow> bt_wf rk xs \<and> bt_wf rk ys \<and> (\<forall>x\<in>set xs. \<forall>y\<in>set ys. rk x < rk y)"
  by (simp add: bt_wf_def sorted_wrt_append)

lemma bt_wf_filter [simp]: "bt_wf rk xs \<Longrightarrow> bt_wf rk (filter P xs)"
  by (simp add: bt_wf_def sorted_wrt_filter)

lemma bt_wf_distinct: "bt_wf rk xs \<Longrightarrow> distinct (map rk xs)"
  by (induction xs) (auto simp: image_iff dest: less_imp_neq)

lemma set_bt_insert:
  assumes "\<And>y. y \<in> set xs \<Longrightarrow> rk y = rk x \<Longrightarrow> y = x"
  shows "set (bt_insert rk x xs) = insert x (set xs)"
  using assms by (induction xs) (auto, metis)

lemma set_bt_insert_subset: "set (bt_insert rk x xs) \<subseteq> insert x (set xs)"
  by (induction xs) auto

lemma bt_wf_insert [simp]: "bt_wf rk xs \<Longrightarrow> bt_wf rk (bt_insert rk x xs)"
proof (induction xs)
  case (Cons y ys)
  then show ?case using set_bt_insert_subset [of rk x ys] by (auto dest: less_trans)
qed simp

lemma bt_remove_filter: "bt_wf rk xs \<Longrightarrow> bt_remove rk x xs = filter (\<lambda>y. rk y \<noteq> rk x) xs"
proof (induction xs)
  case (Cons y ys)
  then have "filter (\<lambda>z. rk z \<noteq> rk y) ys = ys" by (auto simp: filter_id_conv)
  then show ?case using Cons by auto
qed simp

lemma bt_insert_front: "bt_wf rk (x # xs) \<Longrightarrow> bt_insert rk x xs = x # xs"
  by (cases xs) auto

text \<open>In an ascending list the elements below a bound are a prefix.\<close>

lemma bt_prefix:
  assumes "bt_wf rk xs"
  shows "takeWhile (\<lambda>y. rk y < b) xs = filter (\<lambda>y. rk y < b) xs \<and>
    dropWhile (\<lambda>y. rk y < b) xs = filter (\<lambda>y. \<not> rk y < b) xs"
  using assms
proof (induction xs)
  case (Cons y ys)
  have "\<not> rk z < b" if "\<not> rk y < b" "z \<in> set ys" for z
    using Cons.prems(1) that by (auto dest: less_trans)
  then have "\<not> rk y < b \<Longrightarrow> filter (\<lambda>y. rk y < b) ys = [] \<and> filter (\<lambda>y. \<not> rk y < b) ys = ys"
    by (auto simp: filter_empty_conv filter_id_conv)
  moreover have "bt_wf rk ys" using Cons.prems by simp
  ultimately show ?case using Cons.IH by (cases "rk y < b") simp_all
qed simp

lemma bt_split_off_filter:
  "bt_wf rk xs \<Longrightarrow> bt_split_off rk x xs =
     (filter (\<lambda>y. rk y < rk x) xs, filter (\<lambda>y. \<not> rk y < rk x) xs)"
  by (simp add: bt_split_off_def bt_prefix)

text \<open>Two ordered sets with the same elements are equal.\<close>

lemma bt_wf_unique: "bt_wf rk xs \<Longrightarrow> bt_wf rk ys \<Longrightarrow> set xs = set ys \<Longrightarrow> xs = ys"
proof (induction xs arbitrary: ys)
  case (Cons x xs)
  then obtain y ys' where ys: "ys = y # ys'" by (cases ys) auto
  have xy: "x = y"
  proof (rule ccontr)
    assume "x \<noteq> y"
    then have "x \<in> set ys'" "y \<in> set xs" using Cons.prems(3) ys by auto
    then show False using Cons.prems(1,2) ys by (auto dest: less_asym)
  qed
  have "x \<notin> set xs" "y \<notin> set ys'" using Cons.prems(1,2) ys by auto
  then have "set xs = set ys'" using Cons.prems(3) ys xy by auto
  then show ?case using Cons ys xy by simp
qed simp

end
