(* ===== verification/Ttl_Sorted_Cache.thy ===== *)
theory Ttl_Sorted_Cache
  imports Expiry_Index Hash_Map State_Machine
begin

text \<open>
  \<open>src/stores/ttl_sorted.rs\<close>: \<open>TtlSortedCache\<close>, a hash map of entries beside an index of their
  stamps in the order of expiry. A sweep or a trim reads the front of the index and never scans the
  map. \<open>th\<close> is the number of the calling thread (the counters are striped), \<open>now\<close> the reading of the
  clock, \<open>later\<close> the reading after the factory of a get-or-set has run. The \<open>CacheArc\<close> that an entry
  and its stamp share is the key itself: it compares, orders and hashes as the key does.
\<close>

section \<open>Stamps and entries\<close>

record 'k stamped =
  st_expiry :: "instant option"
  st_key :: "'k option"

record ('k, 'v) sorted_entry =
  se_expiry :: "instant option"
  se_key :: 'k
  se_value :: 'v

definition stamped_rank :: "('k \<Rightarrow> 'q) \<Rightarrow> 'k stamped \<Rightarrow> 'q stamp_rank" where
  "stamped_rank bk s = Rank (st_expiry s) (map_option bk (st_key s))"

text \<open>Derived equality: equal expiries and equal keys.\<close>

definition stamped_eq :: "('k \<Rightarrow> 'q) \<Rightarrow> 'k stamped \<Rightarrow> 'k stamped \<Rightarrow> bool" where
  "stamped_eq bk s t \<longleftrightarrow> st_expiry s = st_expiry t \<and> map_option bk (st_key s) = map_option bk (st_key t)"

definition stamped_bound :: "instant \<Rightarrow> 'k stamped" where
  "stamped_bound expiry = \<lparr>st_expiry = Some expiry, st_key = None\<rparr>"

definition as_stamped :: "('k, 'v) sorted_entry \<Rightarrow> 'k stamped" where
  "as_stamped e = \<lparr>st_expiry = se_expiry e, st_key = Some (se_key e)\<rparr>"

definition is_expired_at :: "('k, 'v) sorted_entry \<Rightarrow> instant \<Rightarrow> bool" where
  "is_expired_at e now = (case se_expiry e of None \<Rightarrow> False | Some t \<Rightarrow> t \<le> now)"

section \<open>The cache and its builder\<close>

record ('k, 'v) sorted_cache =
  so_min_instant :: instant
  so_map :: "('k, ('k, 'v) sorted_entry) hash_map"
  so_keys :: "'k stamped btree_set"
  so_ttl :: duration
  so_size_limit :: "usize option"
  so_initial_capacity :: "usize option"
  so_hits :: striped_counter
  so_misses :: striped_counter
  so_evictions :: u64
  so_on_evict :: "('k, 'v) callback option"
  so_calls :: "('k, 'v) trace"

record ('k, 'v) sorted_builder =
  sob_size :: "usize option"
  sob_capacity :: "usize option"
  sob_ttl :: "duration option"
  sob_on_evict :: "('k, 'v) callback option"

definition sorted_clone :: "('k, 'v) sorted_cache \<Rightarrow> ('k, 'v) sorted_cache" where
  "sorted_clone c = \<lparr>so_min_instant = so_min_instant c, so_map = so_map c, so_keys = so_keys c,
     so_ttl = so_ttl c, so_size_limit = so_size_limit c,
     so_initial_capacity = so_initial_capacity c, so_hits = sc_snapshot (so_hits c),
     so_misses = sc_snapshot (so_misses c), so_evictions = so_evictions c,
     so_on_evict = so_on_evict c, so_calls = so_calls c\<rparr>"

definition sorted_builder_default :: "('k, 'v) sorted_builder" where
  "sorted_builder_default = \<lparr>sob_size = None, sob_capacity = None, sob_ttl = None, sob_on_evict = None\<rparr>"

definition sorted_builder_max_size :: "usize \<Rightarrow> ('k, 'v) sorted_builder \<Rightarrow> ('k, 'v) sorted_builder" where
  "sorted_builder_max_size n b = b\<lparr>sob_size := Some n\<rparr>"

definition sorted_builder_initial_capacity :: "usize \<Rightarrow> ('k, 'v) sorted_builder \<Rightarrow> ('k, 'v) sorted_builder" where
  "sorted_builder_initial_capacity n b = b\<lparr>sob_capacity := Some n\<rparr>"

definition sorted_builder_ttl :: "duration \<Rightarrow> ('k, 'v) sorted_builder \<Rightarrow> ('k, 'v) sorted_builder" where
  "sorted_builder_ttl ttl b = b\<lparr>sob_ttl := Some ttl\<rparr>"

definition sorted_builder_ttl_secs :: "nat \<Rightarrow> ('k, 'v) sorted_builder \<Rightarrow> ('k, 'v) sorted_builder" where
  "sorted_builder_ttl_secs secs b = sorted_builder_ttl (secs * 1000000000) b"

definition sorted_builder_ttl_millis :: "nat \<Rightarrow> ('k, 'v) sorted_builder \<Rightarrow> ('k, 'v) sorted_builder" where
  "sorted_builder_ttl_millis millis b = sorted_builder_ttl (millis * 1000000) b"

definition sorted_builder_on_evict :: "('k, 'v) callback \<Rightarrow> ('k, 'v) sorted_builder \<Rightarrow> ('k, 'v) sorted_builder" where
  "sorted_builder_on_evict f b = b\<lparr>sob_on_evict := Some f\<rparr>"

text \<open>\<open>alloc n\<close>: whether \<open>HashMap::try_reserve(n)\<close> succeeds.\<close>

definition sorted_build :: "(usize \<Rightarrow> bool) \<Rightarrow> instant \<Rightarrow> ('k, 'v) sorted_builder
    \<Rightarrow> build_error + ('k, 'v) sorted_cache" where
  "sorted_build alloc now b = (case sob_ttl b of
       None \<Rightarrow> Inl (MissingRequired ''ttl'')
     | Some ttl \<Rightarrow> (case validate_ttl ttl of
         Inl e \<Rightarrow> Inl e
       | Inr _ \<Rightarrow>
           if sob_size b = Some 0 then Inl (InvalidValue ''max_size'' ''must be greater than zero'')
           else
             let cache = \<lparr>so_min_instant = now, so_map = [], so_keys = [], so_ttl = ttl,
                   so_size_limit = sob_size b, so_initial_capacity = None, so_hits = sc_new,
                   so_misses = sc_new, so_evictions = 0, so_on_evict = sob_on_evict b, so_calls = []\<rparr>;
                 (preallocate, field) = (case sob_capacity b of
                     Some cap \<Rightarrow> (Some cap, ''initial_capacity'')
                   | None \<Rightarrow> (map_option (\<lambda>n. usize_saturating_add n 1) (sob_size b), ''max_size''))
             in (case preallocate of
                   None \<Rightarrow> Inr cache
                 | Some amount \<Rightarrow>
                     if alloc amount then Inr (cache\<lparr>so_initial_capacity := Some amount\<rparr>)
                     else Inl (InvalidValue field ''allocation failed''))))"

definition sorted_new :: "(usize \<Rightarrow> bool) \<Rightarrow> instant \<Rightarrow> duration \<Rightarrow> ('k, 'v) sorted_cache option" where
  "sorted_new alloc now ttl =
     (case sorted_build alloc now (sorted_builder_ttl ttl sorted_builder_default) of Inl _ \<Rightarrow> None | Inr c \<Rightarrow> Some c)"

section \<open>Parts of the operations\<close>

definition so_hit :: "usize \<Rightarrow> (('k, 'v) sorted_cache, unit) comp" where
  "so_hit th = modify (\<lambda>c. c\<lparr>so_hits := sc_increment th (so_hits c)\<rparr>)"

definition so_miss :: "usize \<Rightarrow> (('k, 'v) sorted_cache, unit) comp" where
  "so_miss th = modify (\<lambda>c. c\<lparr>so_misses := sc_increment th (so_misses c)\<rparr>)"

definition so_count :: "nat \<Rightarrow> (('k, 'v) sorted_cache, unit) comp" where
  "so_count n = modify (\<lambda>c. c\<lparr>so_evictions := so_evictions c + of_nat n\<rparr>)"

definition so_notify :: "'k \<Rightarrow> 'v \<Rightarrow> (('k, 'v) sorted_cache, unit) comp" where
  "so_notify k v c = notify so_calls_update (so_on_evict c) k v c"

text \<open>One entry that has left both structures: count it, then tell the callback.\<close>

definition so_report :: "('k, 'v) sorted_entry \<Rightarrow> (('k, 'v) sorted_cache, unit) comp" where
  "so_report e = andthen (so_count 1) (\<lambda>_. so_notify (se_key e) (se_value e))"

definition so_map_remove :: "('k \<Rightarrow> 'q) \<Rightarrow> 'q
    \<Rightarrow> (('k, 'v) sorted_cache, ('k, 'v) sorted_entry option) comp" where
  "so_map_remove bk q = andthen get_state (\<lambda>c. case hm_remove_entry bk q (so_map c) of
       (removed, m) \<Rightarrow> andthen (modify (\<lambda>c. c\<lparr>so_map := m\<rparr>)) (\<lambda>_. ret (map_option snd removed)))"

definition so_keys_insert :: "('k \<Rightarrow> 'q::linorder) \<Rightarrow> 'k stamped \<Rightarrow> (('k, 'v) sorted_cache, unit) comp" where
  "so_keys_insert bk s = modify (\<lambda>c. c\<lparr>so_keys := bt_insert (stamped_rank bk) s (so_keys c)\<rparr>)"

definition so_keys_remove :: "('k \<Rightarrow> 'q::linorder) \<Rightarrow> 'k stamped \<Rightarrow> (('k, 'v) sorted_cache, unit) comp" where
  "so_keys_remove bk s = modify (\<lambda>c. c\<lparr>so_keys := bt_remove (stamped_rank bk) s (so_keys c)\<rparr>)"

definition so_keys_pop_first :: "(('k, 'v) sorted_cache, 'k stamped option) comp" where
  "so_keys_pop_first = andthen get_state (\<lambda>c. case bt_pop_first (so_keys c) of
       (s, ks) \<Rightarrow> andthen (modify (\<lambda>c. c\<lparr>so_keys := ks\<rparr>)) (\<lambda>_. ret s))"

definition so_write :: "('k \<Rightarrow> 'q) \<Rightarrow> 'q \<Rightarrow> ('v \<Rightarrow> 'v) \<Rightarrow> (('k, 'v) sorted_cache, unit) comp" where
  "so_write bk q upd =
     modify (\<lambda>c. c\<lparr>so_map := hm_update bk q (\<lambda>e. e\<lparr>se_value := upd (se_value e)\<rparr>) (so_map c)\<rparr>)"

section \<open>Sweeps and trims\<close>

text \<open>The map removals of a sweep: every stamp of the detached prefix takes its row out of the map.\<close>

fun so_remove_stamps :: "('k \<Rightarrow> 'q) \<Rightarrow> 'k stamped list
    \<Rightarrow> (('k, 'v) sorted_cache, ('k \<times> ('k, 'v) sorted_entry) list) comp" where
  "so_remove_stamps bk [] = ret []"
| "so_remove_stamps bk (s # ss) =
     andthen (expect (st_key s)) (\<lambda>key.
     andthen (so_map_remove bk (bk key)) (\<lambda>found.
     andthen (so_remove_stamps bk ss) (\<lambda>removed.
     ret (case found of Some entry \<Rightarrow> (key, entry) # removed | None \<Rightarrow> removed))))"

definition sorted_evict_at :: "('k \<Rightarrow> 'q::linorder) \<Rightarrow> instant \<Rightarrow> (('k, 'v) sorted_cache, usize) comp" where
  "sorted_evict_at bk cutoff =
     andthen get_state (\<lambda>c.
     let (expired, live) = bt_split_off (stamped_rank bk) (stamped_bound cutoff) (so_keys c);
         count = length expired in
     andthen (modify (\<lambda>c. c\<lparr>so_keys := live\<rparr>)) (\<lambda>_.
     if count = 0 then ret 0
     else if so_on_evict c = None
     then andthen (so_remove_stamps bk expired) (\<lambda>removed.
          andthen (so_count (length removed)) (\<lambda>_. ret count))
     else andthen (so_remove_stamps bk expired) (\<lambda>removed.
          andthen (so_count (length removed)) (\<lambda>_.
          andthen (foreach removed (\<lambda>(key, entry). so_notify key (se_value entry))) (\<lambda>_. ret count)))))"

definition sorted_evict :: "('k \<Rightarrow> 'q::linorder) \<Rightarrow> instant \<Rightarrow> (('k, 'v) sorted_cache, usize) comp" where
  "sorted_evict bk now = sorted_evict_at bk now"

fun so_unlink_all :: "('k \<Rightarrow> 'q::linorder) \<Rightarrow> 'k stamped list
    \<Rightarrow> (('k, 'v) sorted_cache, ('k, 'v) sorted_entry list) comp" where
  "so_unlink_all bk [] = ret []"
| "so_unlink_all bk (s # ss) =
     andthen (expect (st_key s)) (\<lambda>key.
     andthen (so_keys_remove bk s) (\<lambda>_.
     andthen (so_map_remove bk (bk key)) (\<lambda>found.
     andthen (so_unlink_all bk ss) (\<lambda>removed.
     ret (case found of Some entry \<Rightarrow> entry # removed | None \<Rightarrow> removed)))))"

definition sorted_retain :: "('k \<Rightarrow> 'q::linorder) \<Rightarrow> ('k, 'v) predicate \<Rightarrow> instant
    \<Rightarrow> (('k, 'v) sorted_cache, usize) comp" where
  "sorted_retain bk keep now =
     andthen get_state (\<lambda>c.
     andthen (expect (filter_closure (\<lambda>(key, entry).
         if is_expired_at entry now then Some True else map_option Not (keep key (se_value entry)))
         (so_map c))) (\<lambda>doomed.
     andthen (so_unlink_all bk (map (\<lambda>(_, entry). as_stamped entry) doomed)) (\<lambda>removed.
     andthen (so_count (length removed)) (\<lambda>_.
     andthen (foreach removed (\<lambda>entry. so_notify (se_key entry) (se_value entry))) (\<lambda>_.
     ret (length removed))))))"

definition so_pop_first_unprotected :: "('k \<Rightarrow> 'q::linorder) \<Rightarrow> 'k stamped option
    \<Rightarrow> (('k, 'v) sorted_cache, 'k stamped option) comp" where
  "so_pop_first_unprotected bk protected =
     andthen so_keys_pop_first (\<lambda>popped. case popped of
       None \<Rightarrow> ret None
     | Some first \<Rightarrow> (case protected of
         Some p \<Rightarrow>
           if stamped_eq bk p first
           then andthen so_keys_pop_first (\<lambda>next_stamp.
                andthen (so_keys_insert bk first) (\<lambda>_. ret next_stamp))
           else ret (Some first)
       | None \<Rightarrow> ret (Some first)))"

definition expired_before :: "instant option \<Rightarrow> 'k stamped \<Rightarrow> bool" where
  "expired_before cutoff s = (case cutoff of
       None \<Rightarrow> False
     | Some t \<Rightarrow> (case st_expiry s of None \<Rightarrow> False | Some e \<Rightarrow> e < t))"

fun so_trim_loop :: "nat \<Rightarrow> ('k \<Rightarrow> 'q::linorder) \<Rightarrow> usize \<Rightarrow> instant option \<Rightarrow> 'k stamped option \<Rightarrow> usize
    \<Rightarrow> (('k, 'v) sorted_cache, usize) comp" where
  "so_trim_loop 0 bk need cutoff protected dropped = (\<lambda>c. (Diverges, c))"
| "so_trim_loop (Suc n) bk need cutoff protected dropped =
     andthen (so_pop_first_unprotected bk protected) (\<lambda>popped. case popped of
       None \<Rightarrow> ret dropped
     | Some stamped \<Rightarrow>
         if dropped \<ge> need \<and> \<not> expired_before cutoff stamped
         then andthen (so_keys_insert bk stamped) (\<lambda>_. ret dropped)
         else andthen (expect (st_key stamped)) (\<lambda>key.
              andthen (so_map_remove bk (bk key)) (\<lambda>found.
              andthen (case found of
                  Some entry \<Rightarrow> andthen (so_count 1) (\<lambda>_. so_notify key (se_value entry))
                | None \<Rightarrow> ret ()) (\<lambda>_.
              so_trim_loop n bk need cutoff protected (dropped + 1)))))"

definition sorted_retain_latest_at_protecting :: "('k \<Rightarrow> 'q::linorder) \<Rightarrow> usize \<Rightarrow> instant option
    \<Rightarrow> 'k stamped option \<Rightarrow> (('k, 'v) sorted_cache, usize) comp" where
  "sorted_retain_latest_at_protecting bk cnt cutoff protected =
     andthen get_state (\<lambda>c.
     let need = length (so_map c) - cnt in
     if need = 0 \<and> protected = None
     then (case cutoff of Some t \<Rightarrow> sorted_evict_at bk t | None \<Rightarrow> ret 0)
     else if need = 0 \<and> cutoff = None then ret 0
     else so_trim_loop (length (so_keys c) + 1) bk need cutoff protected 0)"

definition sorted_retain_latest_at :: "('k \<Rightarrow> 'q::linorder) \<Rightarrow> usize \<Rightarrow> instant option
    \<Rightarrow> (('k, 'v) sorted_cache, usize) comp" where
  "sorted_retain_latest_at bk cnt cutoff = sorted_retain_latest_at_protecting bk cnt cutoff None"

definition sorted_retain_latest :: "('k \<Rightarrow> 'q::linorder) \<Rightarrow> usize \<Rightarrow> bool \<Rightarrow> instant
    \<Rightarrow> (('k, 'v) sorted_cache, usize) comp" where
  "sorted_retain_latest bk cnt evict now =
     sorted_retain_latest_at bk cnt (if evict then Some now else None)"

section \<open>Size\<close>

definition sorted_set_max_size :: "('k \<Rightarrow> 'q::linorder) \<Rightarrow> usize \<Rightarrow> instant
    \<Rightarrow> (('k, 'v) sorted_cache, usize option) comp" where
  "sorted_set_max_size bk max_size now =
     (if max_size = 0 then panic
      else andthen get_state (\<lambda>c.
        andthen (modify (\<lambda>c. c\<lparr>so_size_limit := Some max_size\<rparr>)) (\<lambda>_.
        andthen (if length (so_map c) > max_size
          then andthen (sorted_retain_latest bk max_size False now) (\<lambda>_. ret ()) else ret ()) (\<lambda>_.
        ret (so_size_limit c)))))"

definition sorted_try_set_max_size :: "('k \<Rightarrow> 'q::linorder) \<Rightarrow> usize \<Rightarrow> instant
    \<Rightarrow> (('k, 'v) sorted_cache, set_max_size_error + usize option) comp" where
  "sorted_try_set_max_size bk max_size now =
     (if max_size = 0 then ret (Inl ZeroMaxSize)
      else andthen (sorted_set_max_size bk max_size now) (\<lambda>p. ret (Inr p)))"

definition sorted_capacity :: "('k, 'v) sorted_cache \<Rightarrow> usize option" where
  "sorted_capacity c = so_size_limit c"

definition sorted_reserve :: "(usize \<Rightarrow> bool) \<Rightarrow> usize \<Rightarrow> (('k, 'v) sorted_cache, unit) comp" where
  "sorted_reserve alloc extra =
     andthen get_state (\<lambda>c. if alloc (length (so_map c) + extra) then ret () else panic)"

section \<open>Insertion\<close>

definition sorted_set_inner :: "('k \<Rightarrow> 'q::linorder) \<Rightarrow> 'k \<Rightarrow> 'v \<Rightarrow> duration option \<Rightarrow> bool \<Rightarrow> bool \<Rightarrow> instant
    \<Rightarrow> (('k, 'v) sorted_cache, 'v option \<times> 'k stamped) comp" where
  "sorted_set_inner bk key val ttl evict skip_size_eviction now =
     andthen get_state (\<lambda>c.
     let effective_ttl = (case ttl of Some d \<Rightarrow> d | None \<Rightarrow> so_ttl c);
         expiry = (if effective_ttl = 0 then None else instant_checked_add now effective_ttl);
         old = map_option snd (a_find bk (bk key) (so_map c));
         arc_key = (case old of Some e \<Rightarrow> se_key e | None \<Rightarrow> key);
         entry = \<lparr>se_expiry = expiry, se_key = arc_key, se_value = val\<rparr>;
         new_stamped = \<lparr>st_expiry = expiry, st_key = Some arc_key\<rparr> in
     andthen (modify (\<lambda>c. c\<lparr>so_map := snd (hm_insert bk key entry (so_map c))\<rparr>)) (\<lambda>_.
     andthen (so_keys_insert bk new_stamped) (\<lambda>_.
     andthen (case old of
         Some e \<Rightarrow> cwhen (se_expiry e \<noteq> expiry) (so_keys_remove bk (as_stamped e))
       | None \<Rightarrow> ret ()) (\<lambda>_.
     andthen (case old of
         Some e \<Rightarrow>
           if is_expired_at e now then andthen (so_report e) (\<lambda>_. ret None) else ret (Some (se_value e))
       | None \<Rightarrow> ret None) (\<lambda>old_value.
     andthen (if skip_size_eviction then ret ()
       else (case so_size_limit c of
           Some size_limit \<Rightarrow>
             andthen (sorted_retain_latest_at bk size_limit (if evict then Some now else None)) (\<lambda>_. ret ())
         | None \<Rightarrow> if evict then andthen (sorted_evict_at bk now) (\<lambda>_. ret ()) else ret ())) (\<lambda>_.
     ret (old_value, new_stamped)))))))"

definition sorted_set :: "('k \<Rightarrow> 'q::linorder) \<Rightarrow> 'k \<Rightarrow> 'v \<Rightarrow> instant \<Rightarrow> (('k, 'v) sorted_cache, 'v option) comp" where
  "sorted_set bk key val now =
     andthen (sorted_set_inner bk key val None False False now) (\<lambda>r. ret (fst r))"

text \<open>\<open>set_with\<close> and its builder.\<close>

record ('k, 'v) set_builder =
  sb_key :: 'k
  sb_value :: 'v
  sb_ttl :: "duration option"
  sb_evict :: bool

definition sorted_set_with :: "'k \<Rightarrow> 'v \<Rightarrow> ('k, 'v) set_builder" where
  "sorted_set_with key val = \<lparr>sb_key = key, sb_value = val, sb_ttl = None, sb_evict = False\<rparr>"

definition set_builder_ttl :: "duration \<Rightarrow> ('k, 'v) set_builder \<Rightarrow> ('k, 'v) set_builder" where
  "set_builder_ttl ttl b = b\<lparr>sb_ttl := Some ttl\<rparr>"

definition set_builder_ttl_secs :: "nat \<Rightarrow> ('k, 'v) set_builder \<Rightarrow> ('k, 'v) set_builder" where
  "set_builder_ttl_secs secs b = set_builder_ttl (secs * 1000000000) b"

definition set_builder_ttl_millis :: "nat \<Rightarrow> ('k, 'v) set_builder \<Rightarrow> ('k, 'v) set_builder" where
  "set_builder_ttl_millis millis b = set_builder_ttl (millis * 1000000) b"

definition set_builder_evict :: "('k, 'v) set_builder \<Rightarrow> ('k, 'v) set_builder" where
  "set_builder_evict b = b\<lparr>sb_evict := True\<rparr>"

definition set_builder_set :: "('k \<Rightarrow> 'q::linorder) \<Rightarrow> ('k, 'v) set_builder \<Rightarrow> instant
    \<Rightarrow> (('k, 'v) sorted_cache, 'v option) comp" where
  "set_builder_set bk b now =
     andthen (sorted_set_inner bk (sb_key b) (sb_value b) (sb_ttl b) (sb_evict b) False now) (\<lambda>r. ret (fst r))"

definition sorted_set_and_get_mut :: "('k \<Rightarrow> 'q::linorder) \<Rightarrow> 'k \<Rightarrow> 'v \<Rightarrow> ('v \<Rightarrow> 'v) \<Rightarrow> instant
    \<Rightarrow> (('k, 'v) sorted_cache, 'v) comp" where
  "sorted_set_and_get_mut bk key val upd now =
     andthen (sorted_set_inner bk key val None False True now) (\<lambda>(_, protected).
     andthen get_state (\<lambda>c.
     andthen (case so_size_limit c of
         Some size_limit \<Rightarrow>
           if length (so_map c) > size_limit
           then andthen (sorted_retain_latest_at_protecting bk size_limit None (Some protected)) (\<lambda>_. ret ())
           else ret ()
       | None \<Rightarrow> ret ()) (\<lambda>_.
     andthen (expect (st_key protected)) (\<lambda>k.
     andthen get_state (\<lambda>c1.
     andthen (expect (hm_get bk (bk k) (so_map c1))) (\<lambda>e.
     andthen (so_write bk (bk k) upd) (\<lambda>_.
     ret (se_value e))))))))"

definition so_remove_expired_entry :: "('k \<Rightarrow> 'q::linorder) \<Rightarrow> 'q \<Rightarrow> (('k, 'v) sorted_cache, unit) comp" where
  "so_remove_expired_entry bk q =
     andthen (so_map_remove bk q) (\<lambda>found. case found of
       Some e \<Rightarrow> andthen (so_keys_remove bk (as_stamped e)) (\<lambda>_. so_report e)
     | None \<Rightarrow> ret ())"

section \<open>The \<open>Cached\<close> operations\<close>

definition sorted_cache_clear :: "(('k, 'v) sorted_cache, unit) comp" where
  "sorted_cache_clear = modify (\<lambda>c. c\<lparr>so_map := [], so_keys := []\<rparr>)"

definition sorted_cache_clear_with_on_evict :: "(('k, 'v) sorted_cache, unit) comp" where
  "sorted_cache_clear_with_on_evict =
     andthen get_state (\<lambda>c.
     if so_on_evict c = None then sorted_cache_clear
     else
       andthen (modify (\<lambda>c. c\<lparr>so_map := [], so_keys := []\<rparr>)) (\<lambda>_.
       andthen (cwhen (so_map c \<noteq> []) (so_count (length (so_map c)))) (\<lambda>_.
       foreach (so_map c) (\<lambda>(_, e). so_notify (se_key e) (se_value e)))))"

definition sorted_cache_get :: "('k \<Rightarrow> 'q::linorder) \<Rightarrow> usize \<Rightarrow> instant \<Rightarrow> 'q
    \<Rightarrow> (('k, 'v) sorted_cache, 'v option) comp" where
  "sorted_cache_get bk th now q =
     andthen get_state (\<lambda>c. case hm_get bk q (so_map c) of
       None \<Rightarrow> andthen (so_miss th) (\<lambda>_. ret None)
     | Some e \<Rightarrow>
         if is_expired_at e now
         then andthen (so_miss th) (\<lambda>_. andthen (so_remove_expired_entry bk q) (\<lambda>_. ret None))
         else andthen (so_hit th) (\<lambda>_. andthen get_state (\<lambda>c1. ret (map_option se_value (hm_get bk q (so_map c1))))))"

definition sorted_cache_get_mut :: "('k \<Rightarrow> 'q::linorder) \<Rightarrow> usize \<Rightarrow> instant \<Rightarrow> 'q \<Rightarrow> ('v \<Rightarrow> 'v)
    \<Rightarrow> (('k, 'v) sorted_cache, 'v option) comp" where
  "sorted_cache_get_mut bk th now q upd =
     andthen get_state (\<lambda>c. case hm_get bk q (so_map c) of
       None \<Rightarrow> andthen (so_miss th) (\<lambda>_. ret None)
     | Some e \<Rightarrow>
         if is_expired_at e now
         then andthen (so_miss th) (\<lambda>_. andthen (so_remove_expired_entry bk q) (\<lambda>_. ret None))
         else andthen (so_hit th) (\<lambda>_.
              andthen (so_write bk q upd) (\<lambda>_. ret (map_option se_value (hm_get bk q (so_map c))))))"

definition sorted_cache_set :: "('k \<Rightarrow> 'q::linorder) \<Rightarrow> 'k \<Rightarrow> 'v \<Rightarrow> instant
    \<Rightarrow> (('k, 'v) sorted_cache, 'v option) comp" where
  "sorted_cache_set bk key val now =
     andthen (sorted_set_inner bk key val None False False now) (\<lambda>r. ret (fst r))"

text \<open>\<open>matches!(self.map.get(&key), Some(entry) if !entry.is_expired())\<close>.\<close>

definition so_live :: "('k \<Rightarrow> 'q) \<Rightarrow> instant \<Rightarrow> 'q \<Rightarrow> ('k, 'v) sorted_cache \<Rightarrow> bool" where
  "so_live bk now q c = (case hm_get bk q (so_map c) of Some e \<Rightarrow> \<not> is_expired_at e now | None \<Rightarrow> False)"

text \<open>The hit path of the get-or-set operations.\<close>

definition so_serve :: "('k \<Rightarrow> 'q) \<Rightarrow> usize \<Rightarrow> 'q \<Rightarrow> ('v \<Rightarrow> 'v) \<Rightarrow> (('k, 'v) sorted_cache, 'v) comp" where
  "so_serve bk th q upd =
     andthen (so_hit th) (\<lambda>_.
     andthen get_state (\<lambda>c.
     andthen (expect (map_option se_value (hm_get bk q (so_map c)))) (\<lambda>v.
     andthen (so_write bk q upd) (\<lambda>_. ret v))))"

definition sorted_cache_get_or_set_with_mut :: "('k \<Rightarrow> 'q::linorder) \<Rightarrow> usize \<Rightarrow> instant \<Rightarrow> instant \<Rightarrow> 'k
    \<Rightarrow> 'v outcome \<Rightarrow> ('v \<Rightarrow> 'v) \<Rightarrow> (('k, 'v) sorted_cache, 'v) comp" where
  "sorted_cache_get_or_set_with_mut bk th now later key f upd =
     andthen get_state (\<lambda>c.
     if so_live bk now (bk key) c then so_serve bk th (bk key) upd
     else andthen (so_miss th) (\<lambda>_. andthen (run_closure f) (\<lambda>v.
          sorted_set_and_get_mut bk key v upd later)))"

definition sorted_cache_try_get_or_set_with_mut :: "('k \<Rightarrow> 'q::linorder) \<Rightarrow> usize \<Rightarrow> instant \<Rightarrow> instant \<Rightarrow> 'k
    \<Rightarrow> ('e + 'v) outcome \<Rightarrow> ('v \<Rightarrow> 'v) \<Rightarrow> (('k, 'v) sorted_cache, 'e + 'v) comp" where
  "sorted_cache_try_get_or_set_with_mut bk th now later key f upd =
     andthen get_state (\<lambda>c.
     if so_live bk now (bk key) c then andthen (so_serve bk th (bk key) upd) (\<lambda>v. ret (Inr v))
     else andthen (so_miss th) (\<lambda>_. andthen (run_closure f) (\<lambda>r. case r of
         Inl e \<Rightarrow> ret (Inl e)
       | Inr v \<Rightarrow> andthen (sorted_set_and_get_mut bk key v upd later) (\<lambda>v. ret (Inr v)))))"

definition sorted_cache_remove :: "('k \<Rightarrow> 'q::linorder) \<Rightarrow> instant \<Rightarrow> 'q
    \<Rightarrow> (('k, 'v) sorted_cache, 'v option) comp" where
  "sorted_cache_remove bk now q =
     andthen (so_map_remove bk q) (\<lambda>found. case found of
       None \<Rightarrow> ret None
     | Some e \<Rightarrow>
         andthen (so_keys_remove bk (as_stamped e)) (\<lambda>_.
         andthen (so_report e) (\<lambda>_.
         ret (if is_expired_at e now then None else Some (se_value e)))))"

definition sorted_cache_remove_entry :: "('k \<Rightarrow> 'q::linorder) \<Rightarrow> 'q
    \<Rightarrow> (('k, 'v) sorted_cache, ('k \<times> 'v) option) comp" where
  "sorted_cache_remove_entry bk q =
     andthen (so_map_remove bk q) (\<lambda>found. case found of
       None \<Rightarrow> ret None
     | Some e \<Rightarrow>
         andthen (so_keys_remove bk (as_stamped e)) (\<lambda>_.
         andthen (so_report e) (\<lambda>_.
         ret (Some (se_key e, se_value e)))))"

definition sorted_cache_reset_metrics :: "(('k, 'v) sorted_cache, unit) comp" where
  "sorted_cache_reset_metrics =
     modify (\<lambda>c. c\<lparr>so_misses := sc_reset (so_misses c), so_hits := sc_reset (so_hits c), so_evictions := 0\<rparr>)"

definition sorted_cache_reset :: "instant \<Rightarrow> (('k, 'v) sorted_cache, unit) comp" where
  "sorted_cache_reset now =
     andthen (modify (\<lambda>c. c\<lparr>so_map := [], so_keys := [], so_min_instant := now\<rparr>)) (\<lambda>_.
     sorted_cache_reset_metrics)"

definition sorted_cache_size :: "('k, 'v) sorted_cache \<Rightarrow> usize" where
  "sorted_cache_size c = length (so_map c)"

definition sorted_cache_hits :: "('k, 'v) sorted_cache \<Rightarrow> u64 option" where
  "sorted_cache_hits c = Some (sc_load (so_hits c))"

definition sorted_cache_misses :: "('k, 'v) sorted_cache \<Rightarrow> u64 option" where
  "sorted_cache_misses c = Some (sc_load (so_misses c))"

definition sorted_cache_evictions :: "('k, 'v) sorted_cache \<Rightarrow> u64 option" where
  "sorted_cache_evictions c = Some (so_evictions c)"

definition sorted_cache_capacity :: "('k, 'v) sorted_cache \<Rightarrow> usize option" where
  "sorted_cache_capacity c = so_size_limit c"

definition sorted_cache_peek :: "('k \<Rightarrow> 'q) \<Rightarrow> instant \<Rightarrow> 'q \<Rightarrow> ('k, 'v) sorted_cache \<Rightarrow> 'v option" where
  "sorted_cache_peek bk now q c = (case hm_get bk q (so_map c) of
       Some e \<Rightarrow> if is_expired_at e now then None else Some (se_value e)
     | None \<Rightarrow> None)"

definition sorted_cache_contains :: "('k \<Rightarrow> 'q) \<Rightarrow> instant \<Rightarrow> 'q \<Rightarrow> (('k, 'v) sorted_cache, bool) comp" where
  "sorted_cache_contains bk now q = andthen get_state (\<lambda>c. ret (sorted_cache_peek bk now q c \<noteq> None))"

text \<open>The lazy iterator reads the clock at every item: \<open>clock\<close> gives the reading at each position.\<close>

fun sorted_iter_from :: "(nat \<Rightarrow> instant) \<Rightarrow> nat \<Rightarrow> ('k \<times> ('k, 'v) sorted_entry) list \<Rightarrow> ('k \<times> 'v) list" where
  "sorted_iter_from clock i [] = []"
| "sorted_iter_from clock i ((k, e) # es) =
     (if is_expired_at e (clock i) then sorted_iter_from clock (i + 1) es
      else (k, se_value e) # sorted_iter_from clock (i + 1) es)"

definition sorted_iter :: "(nat \<Rightarrow> instant) \<Rightarrow> ('k, 'v) sorted_cache \<Rightarrow> ('k \<times> 'v) list" where
  "sorted_iter clock c = sorted_iter_from clock 0 (so_map c)"

definition sorted_ttl :: "('k, 'v) sorted_cache \<Rightarrow> duration option" where
  "sorted_ttl c = (if so_ttl c = 0 then None else Some (so_ttl c))"

definition sorted_set_ttl :: "duration \<Rightarrow> (('k, 'v) sorted_cache, duration option) comp" where
  "sorted_set_ttl ttl = andthen get_state (\<lambda>c. let old = so_ttl c in
     andthen (modify (\<lambda>c. c\<lparr>so_ttl := ttl\<rparr>)) (\<lambda>_. ret (if old = 0 then None else Some old)))"

definition sorted_unset_ttl :: "(('k, 'v) sorted_cache, duration option) comp" where
  "sorted_unset_ttl = andthen get_state (\<lambda>c. let old = so_ttl c in
     andthen (modify (\<lambda>c. c\<lparr>so_ttl := 0\<rparr>)) (\<lambda>_. ret (if old = 0 then None else Some old)))"

definition sorted_cache_get_read :: "('k \<Rightarrow> 'q) \<Rightarrow> usize \<Rightarrow> instant \<Rightarrow> 'q
    \<Rightarrow> (('k, 'v) sorted_cache, 'v option) comp" where
  "sorted_cache_get_read bk th now q =
     andthen get_state (\<lambda>c. case sorted_cache_peek bk now q c of
       Some v \<Rightarrow> andthen (so_hit th) (\<lambda>_. ret (Some v))
     | None \<Rightarrow> andthen (so_miss th) (\<lambda>_. ret None))"

definition sorted_cache_get_with_expiry_status :: "('k \<Rightarrow> 'q) \<Rightarrow> usize \<Rightarrow> instant \<Rightarrow> 'q
    \<Rightarrow> (('k, 'v) sorted_cache, 'v option \<times> bool) comp" where
  "sorted_cache_get_with_expiry_status bk th now q =
     andthen get_state (\<lambda>c. case hm_get bk q (so_map c) of
       None \<Rightarrow> andthen (so_miss th) (\<lambda>_. ret (None, False))
     | Some e \<Rightarrow>
         if is_expired_at e now then andthen (so_miss th) (\<lambda>_. ret (Some (se_value e), True))
         else andthen (so_hit th) (\<lambda>_. ret (Some (se_value e), False)))"

definition sorted_cache_peek_with_expiry_status :: "('k \<Rightarrow> 'q) \<Rightarrow> instant \<Rightarrow> 'q \<Rightarrow> ('k, 'v) sorted_cache
    \<Rightarrow> 'v option \<times> bool" where
  "sorted_cache_peek_with_expiry_status bk now q c = (case hm_get bk q (so_map c) of
       None \<Rightarrow> (None, False)
     | Some e \<Rightarrow> if is_expired_at e now then (Some (se_value e), True) else (Some (se_value e), False))"

definition sorted_async_cache_get_or_set_with_mut :: "('k \<Rightarrow> 'q::linorder) \<Rightarrow> usize \<Rightarrow> instant \<Rightarrow> instant
    \<Rightarrow> 'k \<Rightarrow> 'v outcome \<Rightarrow> ('v \<Rightarrow> 'v) \<Rightarrow> (('k, 'v) sorted_cache, 'v) comp" where
  "sorted_async_cache_get_or_set_with_mut bk th now later key f upd =
     andthen get_state (\<lambda>c.
     if so_live bk now (bk key) c then so_serve bk th (bk key) upd
     else andthen (so_miss th) (\<lambda>_. andthen (await f) (\<lambda>v.
          sorted_set_and_get_mut bk key v upd later)))"

definition sorted_async_cache_try_get_or_set_with_mut :: "('k \<Rightarrow> 'q::linorder) \<Rightarrow> usize \<Rightarrow> instant
    \<Rightarrow> instant \<Rightarrow> 'k \<Rightarrow> ('e + 'v) outcome \<Rightarrow> ('v \<Rightarrow> 'v) \<Rightarrow> (('k, 'v) sorted_cache, 'e + 'v) comp" where
  "sorted_async_cache_try_get_or_set_with_mut bk th now later key f upd =
     andthen get_state (\<lambda>c.
     if so_live bk now (bk key) c then andthen (so_serve bk th (bk key) upd) (\<lambda>v. ret (Inr v))
     else andthen (so_miss th) (\<lambda>_. andthen (await f) (\<lambda>r. case r of
         Inl e \<Rightarrow> ret (Inl e)
       | Inr v \<Rightarrow> andthen (sorted_set_and_get_mut bk key v upd later) (\<lambda>v. ret (Inr v)))))"

end
