(* ===== verification/Ttl_Sorted_Lockstep.thy ===== *)
theory Ttl_Sorted_Lockstep
  imports Ttl_Sorted_Cache
begin

text \<open>
  The map and the expiry index of \<open>TtlSortedCache\<close> in lockstep: every row of the map has its stamp in
  the index and the index holds nothing else, in the order of expiry. The lemmas give the effect of
  each structural step (insertion, removal, sweep, trim with a protected entry) in terms of the
  rows of the map in the order of expiry, \<open>by_expiry\<close>.
\<close>

type_synonym ('k, 'v) row = "'k \<times> ('k, 'v) sorted_entry"

definition stamp_of :: "('k, 'v) row \<Rightarrow> 'k stamped" where
  "stamp_of ke = as_stamped (snd ke)"

definition row_rank :: "('k \<Rightarrow> 'q) \<Rightarrow> ('k, 'v) row \<Rightarrow> 'q stamp_rank" where
  "row_rank bk ke = stamped_rank bk (stamp_of ke)"

definition so_rows :: "('k \<Rightarrow> 'q) \<Rightarrow> ('k, 'v) row list \<Rightarrow> bool" where
  "so_rows bk m \<longleftrightarrow> a_wf bk m \<and> (\<forall>ke\<in>set m. se_key (snd ke) = fst ke)"

definition so_sync :: "('k \<Rightarrow> 'q::linorder) \<Rightarrow> ('k, 'v) row list \<Rightarrow> 'k stamped list \<Rightarrow> bool" where
  "so_sync bk m ks \<longleftrightarrow> so_rows bk m \<and> bt_wf (stamped_rank bk) ks \<and> set ks = stamp_of ` set m"

definition so_wf :: "('k \<Rightarrow> 'q::linorder) \<Rightarrow> ('k, 'v) sorted_cache \<Rightarrow> bool" where
  "so_wf bk c \<longleftrightarrow> so_sync bk (so_map c) (so_keys c)"

definition by_expiry :: "('k \<Rightarrow> 'q::linorder) \<Rightarrow> ('k, 'v) row list \<Rightarrow> ('k, 'v) row list" where
  "by_expiry bk m = sort_key (row_rank bk) m"

lemma set_by_expiry [simp]: "set (by_expiry bk m) = set m"
  by (simp add: by_expiry_def)

lemma length_by_expiry [simp]: "length (by_expiry bk m) = length m"
  by (simp add: by_expiry_def)

lemma mset_by_expiry [simp]: "mset (by_expiry bk m) = mset m"
  by (simp add: by_expiry_def)

section \<open>Stamps of rows\<close>

lemma stamp_of_simps [simp]: "st_key (stamp_of ke) = Some (se_key (snd ke))" "st_expiry (stamp_of ke) = se_expiry (snd ke)"
  by (simp_all add: stamp_of_def as_stamped_def)

lemma stamp_of_pair: "stamp_of (k, e) = as_stamped e"
  by (simp add: stamp_of_def)

lemma stamped_rank_eq: "stamped_rank bk s = stamped_rank bk t \<longleftrightarrow> stamped_eq bk s t"
  by (simp add: stamped_rank_def stamped_eq_def)

lemma so_rowsD:
  "so_rows bk m \<Longrightarrow> ke \<in> set m \<Longrightarrow> se_key (snd ke) = fst ke"
  "so_rows bk m \<Longrightarrow> ke \<in> set m \<Longrightarrow> ke' \<in> set m \<Longrightarrow> bk (fst ke) = bk (fst ke') \<Longrightarrow> ke = ke'"
  by (auto simp: so_rows_def a_wf_def distinct_map dest: inj_onD)

lemma so_rows_inj:
  assumes "so_rows bk m" "ke \<in> set m" "ke' \<in> set m"
  shows "row_rank bk ke = row_rank bk ke' \<longleftrightarrow> ke = ke'" "stamp_of ke = stamp_of ke' \<longleftrightarrow> ke = ke'"
proof -
  have k: "se_key (snd ke) = fst ke" "se_key (snd ke') = fst ke'" using so_rowsD(1) assms by blast+
  show "row_rank bk ke = row_rank bk ke' \<longleftrightarrow> ke = ke'"
    using so_rowsD(2) [OF assms] k by (auto simp: row_rank_def stamped_rank_def)
  show "stamp_of ke = stamp_of ke' \<longleftrightarrow> ke = ke'"
    using so_rowsD(2) [OF assms] k by (metis option.inject stamp_of_simps(1))
qed

lemma so_rank_stamp:
  assumes "so_rows bk m" "x \<in> set m" "y \<in> set m"
  shows "stamped_rank bk (stamp_of x) = stamped_rank bk (stamp_of y) \<longleftrightarrow> stamp_of x = stamp_of y"
  using so_rows_inj [OF assms] by (simp add: row_rank_def)

lemma so_rows_subset: "so_rows bk m \<Longrightarrow> so_rows bk (filter P m)"
  by (simp add: so_rows_def)

lemma so_rows_by_expiry: "so_rows bk m \<Longrightarrow> so_rows bk (by_expiry bk m)"
  unfolding so_rows_def a_wf_def
  by (metis (mono_tags, lifting) mset_by_expiry mset_eq_imp_distinct_iff mset_map set_by_expiry)

lemma bt_wf_by_expiry: "so_rows bk m \<Longrightarrow> bt_wf (row_rank bk) (by_expiry bk m)"
proof -
  assume m: "so_rows bk m"
  have "sorted (map (row_rank bk) (by_expiry bk m))" by (simp add: by_expiry_def)
  moreover have "distinct (map (row_rank bk) (by_expiry bk m))"
    using so_rows_by_expiry [OF m] so_rows_inj(1) [OF m]
    by (auto simp: distinct_map inj_on_def so_rows_def a_wf_def)
  ultimately show ?thesis by (simp add: bt_wf_def strict_sorted_iff flip: sorted_wrt_map)
qed

lemma bt_wf_stamps: "bt_wf (stamped_rank bk) (map stamp_of es) \<longleftrightarrow> bt_wf (row_rank bk) es"
  by (simp add: bt_wf_def sorted_wrt_map row_rank_def)

lemma so_sync_iff:
  "so_sync bk m ks \<longleftrightarrow> so_rows bk m \<and> ks = map stamp_of (by_expiry bk m)"
proof
  assume "so_sync bk m ks"
  then show "so_rows bk m \<and> ks = map stamp_of (by_expiry bk m)"
    using bt_wf_by_expiry [of bk m] by (auto simp: so_sync_def bt_wf_stamps intro!: bt_wf_unique [of "stamped_rank bk"])
qed (auto simp: so_sync_def bt_wf_stamps bt_wf_by_expiry)

lemma so_sync_length: "so_sync bk m ks \<Longrightarrow> length ks = length m"
  by (simp add: so_sync_iff)

lemma so_wf_keys: "so_wf bk c \<Longrightarrow> so_keys c = map stamp_of (by_expiry bk (so_map c))"
  by (simp add: so_wf_def so_sync_iff)

lemma so_wf_rows: "so_wf bk c \<Longrightarrow> so_rows bk (so_map c)"
  by (simp add: so_wf_def so_sync_def)

section \<open>Steps that keep the lockstep\<close>

lemma so_sync_filter:
  assumes "so_sync bk m ks" "\<And>ke. ke \<in> set m \<Longrightarrow> Q (stamp_of ke) = P ke"
  shows "so_sync bk (filter P m) (filter Q ks)"
  using assms by (auto simp: so_sync_def so_rows_subset)

lemma so_sync_remove:
  assumes "so_sync bk m ks" "a_find bk q m = Some ke"
  shows "so_sync bk (a_without bk q m) (bt_remove (stamped_rank bk) (stamp_of ke) ks)"
proof -
  have rows: "so_rows bk m" and bt: "bt_wf (stamped_rank bk) ks" using assms(1) by (simp_all add: so_sync_def)
  have ke: "ke \<in> set m" "bk (fst ke) = q" using a_find_SomeD [OF assms(2)] by simp_all
  have "(stamped_rank bk (stamp_of x) \<noteq> stamped_rank bk (stamp_of ke)) = (bk (fst x) \<noteq> q)" if "x \<in> set m" for x
    using so_rows_inj(1) [OF rows that ke(1)] so_rowsD(2) [OF rows that ke(1)] ke(2)
    by (auto simp: row_rank_def)
  then show ?thesis
    unfolding bt_remove_filter [OF bt] a_without_def by (rule so_sync_filter [OF assms(1)])
qed

lemma so_sync_write:
  assumes "so_sync bk m ks" "\<And>e. se_key (f e) = se_key e \<and> se_expiry (f e) = se_expiry e"
  shows "so_sync bk (hm_update bk q f m) ks"
proof -
  have "map stamp_of (hm_update bk q f m) = map stamp_of m"
    using assms(2) by (simp add: hm_update_def stamp_of_def as_stamped_def)
  then have "stamp_of ` set (hm_update bk q f m) = stamp_of ` set m" by (metis set_map)
  moreover have "so_rows bk (hm_update bk q f m)"
    using assms by (auto simp: so_sync_def so_rows_def) (auto simp: hm_update_def)
  ultimately show ?thesis using assms(1) by (simp add: so_sync_def)
qed

lemma so_sync_insert_new:
  assumes "so_sync bk m ks" "a_find bk (bk k) m = None" "se_key e = k"
  shows "so_sync bk (m @ [(k, e)]) (bt_insert (stamped_rank bk) (as_stamped e) ks)"
proof -
  have new: "bk (fst ke) \<noteq> bk k" if "ke \<in> set m" for ke using assms(2) that by (simp add: a_find_None_iff)
  have rows: "so_rows bk m" and ks: "set ks = stamp_of ` set m" using assms(1) by (simp_all add: so_sync_def)
  have "stamped_rank bk s \<noteq> stamped_rank bk (as_stamped e)" if "s \<in> set ks" for s
    using that new so_rowsD(1) [OF rows] assms(3) by (auto simp: ks stamped_rank_def as_stamped_def)
  then have "set (bt_insert (stamped_rank bk) (as_stamped e) ks) = insert (as_stamped e) (set ks)"
    by (intro set_bt_insert) auto
  moreover have "so_rows bk (m @ [(k, e)])"
    using rows new assms(3) by (simp add: so_rows_def a_wf_def image_iff) metis
  ultimately show ?thesis using assms(1) by (simp add: so_sync_def stamp_of_def)
qed

lemma so_sync_replace:
  assumes "so_sync bk m ks" "a_find bk q m = Some (k, e0)" "se_key e = k"
  shows "so_sync bk (hm_update bk q (\<lambda>_. e) m)
    ((if se_expiry e0 \<noteq> se_expiry e then bt_remove (stamped_rank bk) (as_stamped e0) else id)
      (bt_insert (stamped_rank bk) (as_stamped e) ks))"
proof -
  have rows: "so_rows bk m" and bt: "bt_wf (stamped_rank bk) ks" and ks: "set ks = stamp_of ` set m"
    using assms(1) by (simp_all add: so_sync_def)
  have ke: "(k, e0) \<in> set m" "bk k = q" using a_find_SomeD [OF assms(2)] by simp_all
  have k0: "se_key e0 = k" using so_rowsD(1) [OF rows ke(1)] by simp
  have only: "x = (k, e0)" if "x \<in> set m" "bk (fst x) = q" for x
    using so_rowsD(2) [OF rows that(1) ke(1)] that(2) ke(2) by simp
  have rank: "stamped_rank bk (stamp_of x) = stamped_rank bk (as_stamped e') \<longleftrightarrow>
      bk (fst x) = q \<and> se_expiry (snd x) = se_expiry e'" if "x \<in> set m" "se_key e' = k" for x e'
    using so_rowsD(1) [OF rows that(1)] that(2) ke(2) by (auto simp: stamped_rank_def as_stamped_def)
  have same: "stamp_of (k, e0) = as_stamped e" if "se_expiry e0 = se_expiry e"
    using that assms(3) k0 by (simp add: stamp_of_def as_stamped_def)
  have "y = as_stamped e" if "y \<in> set ks" "stamped_rank bk y = stamped_rank bk (as_stamped e)" for y
    using that only rank [OF _ assms(3)] same by (auto simp: ks)
  then have ins: "set (bt_insert (stamped_rank bk) (as_stamped e) ks) = insert (as_stamped e) (set ks)"
    by (intro set_bt_insert) auto
  have m': "set (hm_update bk q (\<lambda>_. e) m) = insert (k, e) (set m - {(k, e0)})"
  proof -
    have "set (hm_update bk q (\<lambda>_. e) m) = (\<lambda>x. if x = (k, e0) then (k, e) else x) ` set m"
      unfolding hm_update_def set_map
    proof (intro image_cong refl)
      fix x assume "x \<in> set m"
      then have "bk (fst x) = q \<longleftrightarrow> x = (k, e0)" using only [of x] ke(2) by auto
      then show "(if bk (fst x) = q then (fst x, e) else x) = (if x = (k, e0) then (k, e) else x)" by simp
    qed
    then show ?thesis using ke(1) by auto
  qed
  have st: "stamp_of ` (set m - {(k, e0)}) = set ks - {as_stamped e0}"
    using ke(1) so_rows_inj(2) [OF rows] by (force simp: ks stamp_of_def)
  have "so_rows bk (hm_update bk q (\<lambda>_. e) m)"
    using rows assms(3) ke by (auto simp: so_rows_def) (auto simp: hm_update_def dest: only)
  moreover have "set ((if se_expiry e0 \<noteq> se_expiry e then bt_remove (stamped_rank bk) (as_stamped e0) else id)
      (bt_insert (stamped_rank bk) (as_stamped e) ks)) = insert (as_stamped e) (set ks - {as_stamped e0})"
  proof (cases "se_expiry e0 = se_expiry e")
    case True
    then show ?thesis using ins same by (auto simp: stamp_of_def)
  next
    case False
    have "stamped_rank bk (as_stamped e) \<noteq> stamped_rank bk (as_stamped e0)"
      using False by (simp add: stamped_rank_def as_stamped_def)
    moreover have "s = as_stamped e0" if s: "s \<in> set ks" "stamped_rank bk s = stamped_rank bk (as_stamped e0)" for s
    proof -
      obtain x where x: "x \<in> set m" "s = stamp_of x" using s(1) unfolding ks by blast
      then have "x = (k, e0)" using s(2) rank [OF x(1) k0] only [OF x(1)] by simp
      then show ?thesis using x(2) by (simp add: stamp_of_def)
    qed
    ultimately have "filter (\<lambda>y. stamped_rank bk y \<noteq> stamped_rank bk (as_stamped e0))
        (bt_insert (stamped_rank bk) (as_stamped e) ks) =
      filter (\<lambda>y. y \<noteq> as_stamped e0) (bt_insert (stamped_rank bk) (as_stamped e) ks)"
      using ins by (intro filter_cong refl) auto
    moreover have "as_stamped e \<noteq> as_stamped e0" using False by (simp add: as_stamped_def)
    ultimately show ?thesis using False ins bt by (auto simp: bt_remove_filter)
  qed
  ultimately show ?thesis
    using bt by (simp add: so_sync_def m' st stamp_of_pair bt_remove_filter)
qed

section \<open>Rows that leave the cache\<close>

definition se_pairs :: "('k, 'v) row list \<Rightarrow> ('k \<times> 'v) list" where
  "se_pairs es = map (apsnd se_value) es"

lemma se_pairs_simps [simp]:
  "se_pairs [] = []" "se_pairs (ke # es) = (fst ke, se_value (snd ke)) # se_pairs es"
  "length (se_pairs es) = length es"
  by (cases ke; simp add: se_pairs_def)+

text \<open>
  The rows \<open>es\<close> have left the map and the index and are counted; of them the callback has been told
  of \<open>told\<close>.
\<close>

definition so_gone :: "('k \<Rightarrow> 'q) \<Rightarrow> ('k, 'v) row list \<Rightarrow> ('k, 'v) row list
    \<Rightarrow> ('k, 'v) sorted_cache \<Rightarrow> ('k, 'v) sorted_cache" where
  "so_gone bk es told c = c\<lparr>so_map := a_without_all bk es (so_map c),
     so_keys := filter (\<lambda>s. s \<notin> stamp_of ` set es) (so_keys c),
     so_evictions := so_evictions c + of_nat (length es),
     so_calls := so_calls c @ cb_calls (so_on_evict c) (se_pairs told)\<rparr>"

text \<open>The rows that a callback hears of one by one: up to the first it panics on.\<close>

definition heard :: "('k, 'v) callback option \<Rightarrow> ('k, 'v) row list \<Rightarrow> ('k, 'v) row list" where
  "heard cb es = take (length (processed cb (se_pairs es))) es"

lemma heard_simps [simp]:
  "heard cb [] = []"
  "heard cb (ke # es) = ke # (if cb_ok cb (fst ke) (se_value (snd ke)) then heard cb es else [])"
  by (simp_all add: heard_def)

lemma se_pairs_heard: "se_pairs (heard cb es) = processed cb (se_pairs es)"
  by (induction es) auto

lemma heard_all: "all_ok cb (se_pairs es) \<Longrightarrow> heard cb es = es"
  by (induction es) auto

lemma set_heard: "set (heard cb es) \<subseteq> set es"
  by (simp add: heard_def set_take_subset)

lemma so_gone_simps [simp]:
  "so_map (so_gone bk es told c) = a_without_all bk es (so_map c)"
  "so_evictions (so_gone bk es told c) = so_evictions c + of_nat (length es)"
  "so_calls (so_gone bk es told c) = so_calls c @ cb_calls (so_on_evict c) (se_pairs told)"
  "so_on_evict (so_gone bk es told c) = so_on_evict c"
  "so_size_limit (so_gone bk es told c) = so_size_limit c"
  "so_ttl (so_gone bk es told c) = so_ttl c"
  "so_hits (so_gone bk es told c) = so_hits c" "so_misses (so_gone bk es told c) = so_misses c"
  by (simp_all add: so_gone_def)

lemma so_gone_Nil [simp]: "so_gone bk [] [] c = c"
  by (simp add: so_gone_def)

lemma so_gone_gone:
  "so_gone bk es told (so_gone bk [ke] [ke] c) = so_gone bk (ke # es) (ke # told) c"
proof -
  have "cb_calls (so_on_evict c) [(fst ke, se_value (snd ke))] @ cb_calls (so_on_evict c) (se_pairs told) =
      cb_calls (so_on_evict c) ((fst ke, se_value (snd ke)) # se_pairs told)"
    by (simp add: cb_calls_def split: option.split)
  then show ?thesis by (simp add: so_gone_def a_without_all_Cons conj_commute)
qed

lemma so_wf_gone:
  assumes "so_wf bk c" "set es \<subseteq> set (so_map c)"
  shows "so_wf bk (so_gone bk es told c)"
proof -
  have rows: "so_rows bk (so_map c)" by (rule so_wf_rows [OF assms(1)])
  have "(stamp_of ke \<notin> stamp_of ` set es) = (bk (fst ke) \<notin> (\<lambda>d. bk (fst d)) ` set es)"
    if "ke \<in> set (so_map c)" for ke
  proof -
    have "stamp_of ke = stamp_of d \<longleftrightarrow> bk (fst ke) = bk (fst d)" if "d \<in> set es" for d
      using so_rows_inj(2) [OF rows \<open>ke \<in> _\<close>] so_rowsD(2) [OF rows \<open>ke \<in> _\<close>] that assms(2) by blast
    then show ?thesis by blast
  qed
  then have "so_sync bk (a_without_all bk es (so_map c)) (filter (\<lambda>s. s \<notin> stamp_of ` set es) (so_keys c))"
    unfolding a_without_all_def using assms(1) by (intro so_sync_filter) (auto simp: so_wf_def)
  then show ?thesis by (simp add: so_wf_def so_gone_def)
qed

end
