(* ===== verification/Ttl_Sorted_Effects.thy ===== *)
theory Ttl_Sorted_Effects
  imports Ttl_Sorted_Lockstep
begin

text \<open>
  The effect of the operations of \<open>TtlSortedCache\<close> on a cache whose map and index are in lockstep:
  sweeps, the trim loop with its protected entry, insertion and lookup, each in closed form.
\<close>

section \<open>Parts\<close>

lemma so_hit_apply: "so_hit th c = (Returns (), c\<lparr>so_hits := sc_increment th (so_hits c)\<rparr>)"
  by (simp add: so_hit_def comp_simps)

lemma so_miss_apply: "so_miss th c = (Returns (), c\<lparr>so_misses := sc_increment th (so_misses c)\<rparr>)"
  by (simp add: so_miss_def comp_simps)

lemma so_count_apply: "so_count n c = (Returns (), c\<lparr>so_evictions := so_evictions c + of_nat n\<rparr>)"
  by (simp add: so_count_def comp_simps)

lemma so_notify_apply: "so_notify k v c =
   (if cb_ok (so_on_evict c) k v then Returns () else Panics,
    c\<lparr>so_calls := so_calls c @ cb_calls (so_on_evict c) [(k, v)]\<rparr>)"
  by (simp add: so_notify_def notify_apply)

lemma so_map_remove_apply: "so_map_remove bk q c =
   (Returns (map_option snd (a_find bk q (so_map c))), c\<lparr>so_map := a_without bk q (so_map c)\<rparr>)"
  by (simp add: so_map_remove_def hm_remove_entry_def comp_simps)

lemma so_keys_apply:
  "so_keys_insert bk s c = (Returns (), c\<lparr>so_keys := bt_insert (stamped_rank bk) s (so_keys c)\<rparr>)"
  "so_keys_remove bk s c = (Returns (), c\<lparr>so_keys := bt_remove (stamped_rank bk) s (so_keys c)\<rparr>)"
  "so_keys_pop_first c =
     (Returns (fst (bt_pop_first (so_keys c))), c\<lparr>so_keys := snd (bt_pop_first (so_keys c))\<rparr>)"
  by (simp_all add: so_keys_insert_def so_keys_remove_def so_keys_pop_first_def comp_simps
      split: prod.split)

lemma so_write_apply: "so_write bk q upd c =
   (Returns (), c\<lparr>so_map := hm_update bk q (\<lambda>e. e\<lparr>se_value := upd (se_value e)\<rparr>) (so_map c)\<rparr>)"
  by (simp add: so_write_def comp_simps)

lemmas so_apply = so_hit_apply so_miss_apply so_count_apply so_notify_apply so_map_remove_apply
  so_keys_apply so_write_apply comp_simps

lemma so_notify_rows:
  "foreach es (\<lambda>(k, e). so_notify k (se_value e)) c =
     (if all_ok (so_on_evict c) (se_pairs es) then Returns () else Panics,
      c\<lparr>so_calls := so_calls c @ cb_calls (so_on_evict c) (se_pairs (heard (so_on_evict c) es))\<rparr>)"
proof (induction es arbitrary: c)
  case (Cons ke es)
  then show ?case
    by (cases ke; cases "so_on_evict c") (simp_all add: andthen_apply so_notify_apply)
qed (simp add: ret_apply)

lemma so_notify_entries:
  assumes "\<And>ke. ke \<in> set es \<Longrightarrow> se_key (snd ke) = fst ke"
  shows "foreach (map snd es) (\<lambda>e. so_notify (se_key e) (se_value e)) =
    foreach es (\<lambda>(k, e). so_notify k (se_value e))"
  using assms by (induction es) auto

section \<open>Sweeps\<close>

lemma a_find_row: "so_rows bk m \<Longrightarrow> ke \<in> set m \<Longrightarrow> a_find bk (bk (fst ke)) m = Some ke"
  by (simp add: so_rows_def a_find_Some_iff)

lemma so_remove_stamps_apply:
  assumes "so_rows bk (so_map c)" "a_wf bk es" "set es \<subseteq> set (so_map c)"
  shows "so_remove_stamps bk (map stamp_of es) c =
    (Returns es, c\<lparr>so_map := a_without_all bk es (so_map c)\<rparr>)"
  using assms
proof (induction es arbitrary: c)
  case (Cons ke es)
  let ?c = "c\<lparr>so_map := a_without bk (bk (fst ke)) (so_map c)\<rparr>"
  have ke: "se_key (snd ke) = fst ke" "a_find bk (bk (fst ke)) (so_map c) = Some ke"
  proof -
    have "ke \<in> set (so_map c)" using Cons.prems(3) by simp
    then show "se_key (snd ke) = fst ke" "a_find bk (bk (fst ke)) (so_map c) = Some ke"
      using so_rowsD(1) [OF Cons.prems(1)] a_find_row [OF Cons.prems(1)] by simp_all
  qed
  have "so_remove_stamps bk (map stamp_of es) ?c = (Returns es, ?c\<lparr>so_map := a_without_all bk es (so_map ?c)\<rparr>)"
    using Cons.prems by (intro Cons.IH) (auto simp: a_wf_Cons set_a_without a_without_def so_rows_subset)
  then show ?case by (simp add: so_apply ke a_without_all_Cons)
qed (simp add: ret_apply)

definition expired_rows :: "('k \<Rightarrow> 'q::linorder) \<Rightarrow> instant \<Rightarrow> ('k, 'v) row list \<Rightarrow> ('k, 'v) row list" where
  "expired_rows bk t m = filter (\<lambda>ke. expired_before (Some t) (stamp_of ke)) (by_expiry bk m)"

lemma rank_below_bound:
  "stamped_rank bk s < stamped_rank bk (stamped_bound t) \<longleftrightarrow> expired_before (Some t) s"
  by (cases "st_expiry s") (simp_all add: stamped_rank_def stamped_bound_def expired_before_def)

lemma so_wf_a_wf: "so_wf bk c \<Longrightarrow> a_wf bk (by_expiry bk (so_map c))"
  by (drule so_wf_rows, drule so_rows_by_expiry) (simp add: so_rows_def)

lemma sorted_evict_at_apply:
  assumes "so_wf bk c"
  shows "sorted_evict_at bk t c =
    (let out = expired_rows bk t (so_map c) in
     (if all_ok (so_on_evict c) (se_pairs out) then Returns (length out) else Panics,
      so_gone bk out (heard (so_on_evict c) out) c))"
proof -
  define out where "out = expired_rows bk t (so_map c)"
  let ?live = "filter (\<lambda>s. \<not> expired_before (Some t) s) (so_keys c)"
  have bt: "bt_wf (stamped_rank bk) (so_keys c)" using assms by (simp add: so_wf_def so_sync_def)
  have split: "bt_split_off (stamped_rank bk) (stamped_bound t) (so_keys c) = (map stamp_of out, ?live)"
    unfolding bt_split_off_filter [OF bt] rank_below_bound
    by (simp add: out_def expired_rows_def so_wf_keys [OF assms] filter_map comp_def)
  have live: "?live = filter (\<lambda>s. s \<notin> stamp_of ` set out) (so_keys c)"
    using so_rows_inj(2) [OF so_wf_rows [OF assms]]
    by (intro filter_cong refl) (auto simp: out_def expired_rows_def so_wf_keys [OF assms])
  have rm: "so_remove_stamps bk (map stamp_of out) (c\<lparr>so_keys := ?live\<rparr>) =
      (Returns out, c\<lparr>so_keys := ?live, so_map := a_without_all bk out (so_map c)\<rparr>)"
    using assms so_wf_a_wf [OF assms] so_wf_rows [OF assms]
    by (subst so_remove_stamps_apply) (auto simp: out_def expired_rows_def)
  show ?thesis
  proof (cases "out = []")
    case True
    then have "?live = so_keys c" using live by simp
    then show ?thesis using True
      by (simp add: sorted_evict_at_def so_apply split out_def [symmetric] Let_def)
  next
    case False
    then show ?thesis
      by (cases "so_on_evict c")
        (simp_all add: sorted_evict_at_def so_apply split rm so_notify_rows so_gone_def
          out_def [symmetric] Let_def flip: live)
  qed
qed

lemma so_keys_cut:
  assumes "so_wf bk c" "ke \<in> set (so_map c)"
  shows "bt_remove (stamped_rank bk) (stamp_of ke) (so_keys c) = filter (\<lambda>s. s \<noteq> stamp_of ke) (so_keys c)"
proof -
  have bt: "bt_wf (stamped_rank bk) (so_keys c)" using assms(1) by (simp add: so_wf_def so_sync_def)
  show ?thesis
    unfolding bt_remove_filter [OF bt]
  proof (rule filter_cong [OF refl])
    fix s assume "s \<in> set (so_keys c)"
    then obtain x where "x \<in> set (so_map c)" "s = stamp_of x" by (auto simp: so_wf_keys [OF assms(1)])
    then show "(stamped_rank bk s \<noteq> stamped_rank bk (stamp_of ke)) = (s \<noteq> stamp_of ke)"
      using so_rank_stamp [OF so_wf_rows [OF assms(1)]] assms(2) by simp
  qed
qed

lemma so_unlink_all_apply:
  assumes "so_wf bk c" "a_wf bk es" "set es \<subseteq> set (so_map c)"
  shows "so_unlink_all bk (map stamp_of es) c =
    (Returns (map snd es), c\<lparr>so_map := a_without_all bk es (so_map c),
       so_keys := filter (\<lambda>s. s \<notin> stamp_of ` set es) (so_keys c)\<rparr>)"
  using assms
proof (induction es arbitrary: c)
  case (Cons ke es)
  let ?ks = "bt_remove (stamped_rank bk) (stamp_of ke) (so_keys c)"
  let ?c = "c\<lparr>so_keys := ?ks, so_map := a_without bk (bk (fst ke)) (so_map c)\<rparr>"
  have rows: "so_rows bk (so_map c)" by (rule so_wf_rows [OF Cons.prems(1)])
  have ke: "se_key (snd ke) = fst ke" "a_find bk (bk (fst ke)) (so_map c) = Some ke"
    using Cons.prems(3) so_rowsD(1) [OF rows] a_find_row [OF rows] by auto
  have ks: "?ks = filter (\<lambda>s. s \<noteq> stamp_of ke) (so_keys c)"
    using Cons.prems(3) by (intro so_keys_cut [OF Cons.prems(1)]) simp
  have "so_wf bk ?c"
    using Cons.prems(1) so_sync_remove [OF _ ke(2)] by (simp add: so_wf_def)
  then have "so_unlink_all bk (map stamp_of es) ?c = (Returns (map snd es),
      ?c\<lparr>so_map := a_without_all bk es (so_map ?c), so_keys := filter (\<lambda>s. s \<notin> stamp_of ` set es) (so_keys ?c)\<rparr>)"
    using Cons.prems by (intro Cons.IH) (auto simp: a_wf_Cons set_a_without)
  then show ?case by (simp add: so_apply ke a_without_all_Cons ks conj_commute)
qed (simp add: ret_apply)

lemma filter_closure_rows:
  assumes "filter_closure p xs = Some ys"
  shows "set ys \<subseteq> set xs" "a_wf bk xs \<Longrightarrow> a_wf bk ys"
  using filter_closure_Some [OF assms] by simp_all

definition retain_verdict :: "('k, 'v) predicate \<Rightarrow> instant \<Rightarrow> ('k, 'v) row \<Rightarrow> bool option" where
  "retain_verdict keep now = (\<lambda>(key, entry).
     if is_expired_at entry now then Some True else map_option Not (keep key (se_value entry)))"

lemma sorted_retain_apply:
  assumes "so_wf bk c"
  shows "sorted_retain bk keep now c =
    (case filter_closure (retain_verdict keep now) (so_map c) of
       None \<Rightarrow> (Panics, c)
     | Some out \<Rightarrow>
        (if all_ok (so_on_evict c) (se_pairs out) then Returns (length out) else Panics,
         so_gone bk out (heard (so_on_evict c) out) c))"
proof (cases "filter_closure (retain_verdict keep now) (so_map c)")
  case None
  then show ?thesis by (simp add: sorted_retain_def retain_verdict_def comp_simps)
next
  case (Some out)
  note out = filter_closure_rows [OF Some]
  have rows: "so_rows bk (so_map c)" by (rule so_wf_rows [OF assms])
  have keys: "\<And>ke. ke \<in> set out \<Longrightarrow> se_key (snd ke) = fst ke" using out(1) so_rowsD(1) [OF rows] by blast
  have stamps: "map (\<lambda>(_, entry). as_stamped entry) out = map stamp_of out" by (simp add: stamp_of_def case_prod_beta')
  have un: "so_unlink_all bk (map stamp_of out) c = (Returns (map snd out),
      c\<lparr>so_map := a_without_all bk out (so_map c), so_keys := filter (\<lambda>s. s \<notin> stamp_of ` set out) (so_keys c)\<rparr>)"
    using assms out rows by (intro so_unlink_all_apply) (auto simp: so_rows_def)
  show ?thesis
    using Some unfolding sorted_retain_def retain_verdict_def
    by (simp add: so_apply stamps un so_notify_entries [OF keys] so_notify_rows so_gone_def)
qed

section \<open>The trim loop\<close>

definition protects :: "('k \<Rightarrow> 'q) \<Rightarrow> 'k stamped option \<Rightarrow> ('k, 'v) row \<Rightarrow> bool" where
  "protects bk p ke = (case p of None \<Rightarrow> False | Some s \<Rightarrow> stamped_eq bk s (stamp_of ke))"

definition candidates :: "('k \<Rightarrow> 'q::linorder) \<Rightarrow> 'k stamped option \<Rightarrow> ('k, 'v) row list \<Rightarrow> ('k, 'v) row list" where
  "candidates bk p m = filter (\<lambda>ke. \<not> protects bk p ke) (by_expiry bk m)"

lemma protects_unique:
  "so_rows bk m \<Longrightarrow> x \<in> set m \<Longrightarrow> y \<in> set m \<Longrightarrow> protects bk p x \<Longrightarrow> protects bk p y \<Longrightarrow> x = y"
  using so_rows_inj(1) [of bk m x y]
  by (auto simp: protects_def row_rank_def simp flip: stamped_rank_eq split: option.splits)

lemma so_pop_first_unprotected_apply:
  assumes "so_wf bk c"
  shows "so_pop_first_unprotected bk p c =
    (case candidates bk p (so_map c) of
       [] \<Rightarrow> (Returns None, c)
     | ke # _ \<Rightarrow> (Returns (Some (stamp_of ke)), c\<lparr>so_keys := filter (\<lambda>s. s \<noteq> stamp_of ke) (so_keys c)\<rparr>))"
proof (cases "by_expiry bk (so_map c)")
  case Nil
  then have "so_keys c = []" using so_wf_keys [OF assms] by simp
  then show ?thesis using Nil by (simp add: so_pop_first_unprotected_def so_apply candidates_def)
next
  case (Cons x xs)
  have rows: "so_rows bk (so_map c)" by (rule so_wf_rows [OF assms])
  have m: "set (so_map c) = insert x (set xs)" using Cons set_by_expiry by (metis list.simps(15))
  have bt: "bt_wf (row_rank bk) (x # xs)" using bt_wf_by_expiry [OF rows] Cons by simp
  have keys: "so_keys c = stamp_of x # map stamp_of xs" using so_wf_keys [OF assms] Cons by simp
  have other: "stamp_of y \<noteq> stamp_of z" if "bt_wf (row_rank bk) (y # ys)" "z \<in> set ys" for y z ys
    using that by (auto simp: row_rank_def)
  have rest: "filter (\<lambda>s. s \<noteq> stamp_of y) (map stamp_of ys) = map stamp_of ys"
    if "bt_wf (row_rank bk) (y # ys)" for y ys
    unfolding filter_id_conv using other [OF that] by fastforce
  show ?thesis
  proof (cases "protects bk p x")
    case False
    then have "candidates bk p (so_map c) = x # filter (\<lambda>ke. \<not> protects bk p ke) xs"
      by (simp add: candidates_def Cons)
    moreover have "filter (\<lambda>s. s \<noteq> stamp_of x) (so_keys c) = map stamp_of xs"
      using rest [OF bt] by (simp add: keys)
    ultimately show ?thesis
      using False by (simp add: so_pop_first_unprotected_def so_apply keys protects_def split: option.splits)
  next
    case True
    then obtain s where s: "p = Some s" "stamped_eq bk s (stamp_of x)"
      by (auto simp: protects_def split: option.splits)
    have "\<not> protects bk p y" if "y \<in> set xs" for y
      using protects_unique [OF rows _ _ True, of y] other [OF bt that] m that by auto
    then have cand: "candidates bk p (so_map c) = xs" using True by (auto simp: candidates_def Cons)
    show ?thesis
    proof (cases xs)
      case Nil
      then show ?thesis using s cand by (simp add: so_pop_first_unprotected_def so_apply keys)
    next
      case (Cons y ys)
      have "bt_insert (stamped_rank bk) (stamp_of x) (map stamp_of ys) = stamp_of x # map stamp_of ys"
        using bt Cons by (intro bt_insert_front) (auto simp: row_rank_def bt_wf_stamps)
      moreover have "filter (\<lambda>s. s \<noteq> stamp_of y) (so_keys c) = stamp_of x # map stamp_of ys"
        using rest [of y ys] other [OF bt, of y] bt Cons by (simp add: keys)
      ultimately show ?thesis using s cand Cons by (simp add: so_pop_first_unprotected_def so_apply keys)
    qed
  qed
qed

fun victims :: "nat \<Rightarrow> instant option \<Rightarrow> ('k, 'v) row list \<Rightarrow> ('k, 'v) row list" where
  "victims need cutoff [] = []"
| "victims need cutoff (ke # es) =
     (if need = 0 \<and> \<not> expired_before cutoff (stamp_of ke) then [] else ke # victims (need - 1) cutoff es)"

lemma victims_prefix: "\<exists>rest. es = victims need cutoff es @ rest"
  by (induction need cutoff es rule: victims.induct) auto

lemma set_victims: "set (victims need cutoff es) \<subseteq> set es"
  using victims_prefix [of es need cutoff] by (metis set_append Un_upper1)

lemma enough_victims: "length es < need \<or> need \<le> length (victims need cutoff es)"
  by (induction need cutoff es rule: victims.induct) auto

lemma victims_None: "victims need None es = take need es"
proof (induction need "None :: instant option" es rule: victims.induct)
  case (2 need ke es)
  then show ?case by (cases need) (simp_all add: expired_before_def)
qed simp

lemma set_candidates: "set (candidates bk p m) \<subseteq> set m"
  by (auto simp: candidates_def)

lemma candidates_filter: "candidates bk p (filter P m) = filter P (candidates bk p m)"
  by (simp add: candidates_def by_expiry_def filter_sort conj_commute)

lemma candidates_gone:
  assumes "so_rows bk m" "candidates bk p m = ke # es"
  shows "candidates bk p (a_without_all bk [ke] m) = es"
proof -
  have "a_wf bk (ke # es)"
    using so_rows_by_expiry [OF assms(1)] unfolding assms(2) [symmetric] by (simp add: candidates_def so_rows_def)
  then have "filter (\<lambda>x. bk (fst x) \<noteq> bk (fst ke)) (ke # es) = es"
    by (auto simp: a_wf_Cons filter_id_conv)
  then show ?thesis by (simp add: a_without_all_def candidates_filter assms(2))
qed

lemma so_reinsert:
  assumes "so_wf bk c" "ke \<in> set (so_map c)"
  shows "bt_insert (stamped_rank bk) (stamp_of ke) (filter (\<lambda>s. s \<noteq> stamp_of ke) (so_keys c)) = so_keys c"
proof -
  have bt: "bt_wf (stamped_rank bk) (so_keys c)" and ks: "set (so_keys c) = stamp_of ` set (so_map c)"
    using assms(1) by (simp_all add: so_wf_def so_sync_def)
  have "y = stamp_of ke" if y: "y \<in> set (so_keys c)" "stamped_rank bk y = stamped_rank bk (stamp_of ke)" for y
  proof -
    obtain x where "x \<in> set (so_map c)" "y = stamp_of x" using y(1) unfolding ks by blast
    then show ?thesis using so_rank_stamp [OF so_wf_rows [OF assms(1)]] assms(2) y(2) by simp
  qed
  then have "set (bt_insert (stamped_rank bk) (stamp_of ke) (filter (\<lambda>s. s \<noteq> stamp_of ke) (so_keys c))) =
      insert (stamp_of ke) (set (filter (\<lambda>s. s \<noteq> stamp_of ke) (so_keys c)))"
    by (intro set_bt_insert) auto
  moreover have "stamp_of ke \<in> set (so_keys c)" using assms(2) by (simp add: ks)
  ultimately show ?thesis using bt by (intro bt_wf_unique [of "stamped_rank bk"]) auto
qed

lemma so_trim_loop_apply:
  assumes "so_wf bk c" "length (candidates bk p (so_map c)) < n"
  shows "so_trim_loop n bk need cutoff p dropped c =
    (let vs = victims (need - dropped) cutoff (candidates bk p (so_map c)) in
     (if all_ok (so_on_evict c) (se_pairs vs) then Returns (dropped + length vs) else Panics,
      so_gone bk (heard (so_on_evict c) vs) (heard (so_on_evict c) vs) c))"
  using assms
proof (induction n arbitrary: c dropped)
  case (Suc n)
  note pop = so_pop_first_unprotected_apply [OF Suc.prems(1), of p]
  have rows: "so_rows bk (so_map c)" by (rule so_wf_rows [OF Suc.prems(1)])
  show ?case
  proof (cases "candidates bk p (so_map c)")
    case Nil
    then show ?thesis by (simp add: andthen_apply pop ret_apply)
  next
    case (Cons ke es)
    have ke: "ke \<in> set (so_map c)" using set_candidates [of bk p "so_map c"] Cons by auto
    have found: "se_key (snd ke) = fst ke" "a_find bk (bk (fst ke)) (so_map c) = Some ke"
      using so_rowsD(1) [OF rows ke] a_find_row [OF rows ke] by simp_all
    let ?d = "so_gone bk [ke] [ke] c"
    have d: "so_wf bk ?d" using ke by (intro so_wf_gone [OF Suc.prems(1)]) simp
    have cand: "candidates bk p (so_map ?d) = es" using candidates_gone [OF rows Cons] by simp
    have next_call: "so_trim_loop n bk need cutoff p (dropped + 1) ?d =
      (let vs = victims (need - (dropped + 1)) cutoff es in
       (if all_ok (so_on_evict c) (se_pairs vs) then Returns (dropped + 1 + length vs) else Panics,
        so_gone bk (ke # heard (so_on_evict c) vs) (ke # heard (so_on_evict c) vs) c))"
      using Suc.IH [OF d, of "dropped + 1"] Suc.prems(2) unfolding cand Cons by (simp add: so_gone_gone Let_def)
    have removed: "c\<lparr>so_keys := filter (\<lambda>s. s \<noteq> stamp_of ke) (so_keys c), so_map := a_without bk (bk (fst ke)) (so_map c),
       so_evictions := so_evictions c + 1, so_calls := so_calls c @ cb_calls (so_on_evict c) [(fst ke, se_value (snd ke))]\<rparr> = ?d"
      by (simp add: so_gone_def a_without_all_Cons)
    show ?thesis
    proof (cases "need \<le> dropped \<and> \<not> expired_before cutoff (stamp_of ke)")
      case True
      then show ?thesis
        using so_reinsert [OF Suc.prems(1) ke] by (simp add: so_apply pop Cons)
    next
      case False
      then have "victims (need - dropped) cutoff (ke # es) = ke # victims (need - (dropped + 1)) cutoff es"
        by auto
      then show ?thesis
        using False next_call
        by (auto simp: so_apply pop Cons found removed Let_def)
    qed
  qed
qed simp

lemma victims_sorted:
  assumes "bt_wf (row_rank bk) es"
  shows "victims 0 (Some t) es = filter (\<lambda>ke. expired_before (Some t) (stamp_of ke)) es"
proof -
  have vt: "victims 0 cutoff es = takeWhile (\<lambda>ke. expired_before cutoff (stamp_of ke)) es" for cutoff
    by (induction "0 :: nat" cutoff es rule: victims.induct) auto
  have eq: "(\<lambda>ke. expired_before (Some t) (stamp_of ke)) = (\<lambda>ke. row_rank bk ke < stamped_rank bk (stamped_bound t))"
    by (simp add: rank_below_bound row_rank_def)
  show ?thesis unfolding vt eq using bt_prefix [OF assms] by simp
qed

lemma candidates_None: "candidates bk None m = by_expiry bk m"
  by (simp add: candidates_def protects_def)

lemma expired_rows_victims:
  "so_rows bk m \<Longrightarrow> expired_rows bk t m = victims 0 (Some t) (candidates bk None m)"
  by (simp add: expired_rows_def candidates_None victims_sorted [OF bt_wf_by_expiry])

lemma length_candidates: "length (candidates bk p m) \<le> length m"
  by (metis candidates_def length_by_expiry length_filter_le)

lemma sorted_retain_latest_at_protecting_apply:
  assumes "so_wf bk c"
  shows "sorted_retain_latest_at_protecting bk cnt cutoff p c =
    (let vs = victims (length (so_map c) - cnt) cutoff (candidates bk p (so_map c));
         told = heard (so_on_evict c) vs in
     (if all_ok (so_on_evict c) (se_pairs vs) then Returns (length vs) else Panics,
      so_gone bk (if length (so_map c) \<le> cnt \<and> p = None then vs else told) told c))"
proof -
  let ?need = "length (so_map c) - cnt"
  have rows: "so_rows bk (so_map c)" by (rule so_wf_rows [OF assms])
  have fuel: "length (candidates bk p (so_map c)) < length (so_keys c) + 1"
    using length_candidates [of bk p "so_map c"] so_wf_keys [OF assms] by simp
  note loop = so_trim_loop_apply [OF assms fuel, of ?need cutoff 0]
  consider (sweep) "?need = 0" "p = None" | (idle) "?need = 0" "p \<noteq> None" "cutoff = None"
    | (trim) "\<not> (?need = 0 \<and> p = None)" "\<not> (?need = 0 \<and> cutoff = None)"
    by (cases "?need = 0"; cases p; cases cutoff) auto
  then show ?thesis
  proof cases
    case sweep
    then show ?thesis
      by (cases cutoff) (simp_all add: sorted_retain_latest_at_protecting_def andthen_get_state Let_def
          sorted_evict_at_apply [OF assms] expired_rows_victims [OF rows] victims_None ret_apply)
  next
    case idle
    then show ?thesis
      by (simp add: sorted_retain_latest_at_protecting_def andthen_get_state Let_def victims_None ret_apply)
  next
    case trim
    have "sorted_retain_latest_at_protecting bk cnt cutoff p c =
        so_trim_loop (length (so_keys c) + 1) bk ?need cutoff p 0 c"
      using trim by (auto simp: sorted_retain_latest_at_protecting_def andthen_get_state Let_def)
    moreover have "(length (so_map c) \<le> cnt \<and> p = None) = False" using trim by auto
    ultimately show ?thesis unfolding loop by (auto simp: Let_def)
  qed
qed

section \<open>Insertion\<close>

text \<open>The row and the stamp of an insertion in place, nothing counted yet.\<close>

definition so_put :: "('k \<Rightarrow> 'q::linorder) \<Rightarrow> 'k \<Rightarrow> instant option \<Rightarrow> 'v
    \<Rightarrow> ('k, 'v) sorted_cache \<Rightarrow> ('k, 'v) sorted_cache" where
  "so_put bk key expiry val c = (case a_find bk (bk key) (so_map c) of
       None \<Rightarrow> let e = \<lparr>se_expiry = expiry, se_key = key, se_value = val\<rparr> in
         c\<lparr>so_map := so_map c @ [(key, e)], so_keys := bt_insert (stamped_rank bk) (as_stamped e) (so_keys c)\<rparr>
     | Some (k, e0) \<Rightarrow> let e = \<lparr>se_expiry = expiry, se_key = k, se_value = val\<rparr> in
         c\<lparr>so_map := hm_update bk (bk key) (\<lambda>_. e) (so_map c),
           so_keys := (if se_expiry e0 \<noteq> expiry then bt_remove (stamped_rank bk) (as_stamped e0) else id)
             (bt_insert (stamped_rank bk) (as_stamped e) (so_keys c))\<rparr>)"

definition so_stored_key :: "('k \<Rightarrow> 'q) \<Rightarrow> 'k \<Rightarrow> ('k, 'v) sorted_cache \<Rightarrow> 'k" where
  "so_stored_key bk key c = (case a_find bk (bk key) (so_map c) of None \<Rightarrow> key | Some ke \<Rightarrow> fst ke)"

definition so_expiry :: "duration option \<Rightarrow> instant \<Rightarrow> ('k, 'v) sorted_cache \<Rightarrow> instant option" where
  "so_expiry ttl now c = (let d = (case ttl of Some d \<Rightarrow> d | None \<Rightarrow> so_ttl c) in
     if d = 0 then None else instant_checked_add now d)"

lemma so_wf_put: "so_wf bk c \<Longrightarrow> so_wf bk (so_put bk key expiry val c)"
proof (cases "a_find bk (bk key) (so_map c)")
  case None
  then show "so_wf bk c \<Longrightarrow> ?thesis"
    using so_sync_insert_new [OF _ None, of "so_keys c"] by (simp add: so_wf_def so_put_def Let_def)
next
  case (Some ke)
  obtain k e0 where "ke = (k, e0)" by force
  then show "so_wf bk c \<Longrightarrow> ?thesis"
    using so_sync_replace [of bk "so_map c" "so_keys c" "bk key" k e0
        "\<lparr>se_expiry = expiry, se_key = k, se_value = val\<rparr>"] Some
    by (simp add: so_wf_def so_put_def Let_def)
qed

lemma so_put_fields [simp]:
  "so_on_evict (so_put bk key expiry val c) = so_on_evict c" "so_calls (so_put bk key expiry val c) = so_calls c"
  "so_evictions (so_put bk key expiry val c) = so_evictions c" "so_ttl (so_put bk key expiry val c) = so_ttl c"
  "so_size_limit (so_put bk key expiry val c) = so_size_limit c"
  "so_hits (so_put bk key expiry val c) = so_hits c" "so_misses (so_put bk key expiry val c) = so_misses c"
  by (auto simp: so_put_def Let_def split: option.splits)

lemma a_find_put:
  "a_find bk q (so_map (so_put bk key expiry val c)) =
     (if q = bk key then Some (so_stored_key bk key c,
        \<lparr>se_expiry = expiry, se_key = so_stored_key bk key c, se_value = val\<rparr>)
      else a_find bk q (so_map c))"
  by (auto simp: so_put_def Let_def so_stored_key_def a_find_update a_find_append a_find_Cons
      split: option.splits)

lemma length_put:
  "length (so_map (so_put bk key expiry val c)) =
     length (so_map c) + (if a_find bk (bk key) (so_map c) = None then 1 else 0)"
  by (auto simp: so_put_def Let_def split: option.splits)

text \<open>What the insertion does with the row it displaced, and the trim or sweep that may follow.\<close>

definition so_displace :: "('k \<times> ('k, 'v) sorted_entry) option \<Rightarrow> instant
    \<Rightarrow> (('k, 'v) sorted_cache, 'v option) comp" where
  "so_displace old now = (case old of
       Some (k, e) \<Rightarrow>
         if is_expired_at e now then andthen (so_report e) (\<lambda>_. ret None) else ret (Some (se_value e))
     | None \<Rightarrow> ret None)"

definition so_settle :: "('k \<Rightarrow> 'q::linorder) \<Rightarrow> usize option \<Rightarrow> bool \<Rightarrow> bool \<Rightarrow> instant
    \<Rightarrow> (('k, 'v) sorted_cache, unit) comp" where
  "so_settle bk limit evict skip now = (if skip then ret ()
     else (case limit of
         Some size_limit \<Rightarrow>
           andthen (sorted_retain_latest_at bk size_limit (if evict then Some now else None)) (\<lambda>_. ret ())
       | None \<Rightarrow> if evict then andthen (sorted_evict_at bk now) (\<lambda>_. ret ()) else ret ()))"

lemma so_update_then:
  "andthen (modify f) g c = g () (f c)"
  "andthen (so_keys_insert bk s) g c = g () (c\<lparr>so_keys := bt_insert (stamped_rank bk) s (so_keys c)\<rparr>)"
  "andthen (so_keys_remove bk s) g c = g () (c\<lparr>so_keys := bt_remove (stamped_rank bk) s (so_keys c)\<rparr>)"
  by (simp_all add: so_apply)

lemma sorted_set_inner_put:
  assumes "so_wf bk c"
  shows "sorted_set_inner bk key val ttl evict skip now c =
    andthen (so_displace (a_find bk (bk key) (so_map c)) now) (\<lambda>old_value.
    andthen (so_settle bk (so_size_limit c) evict skip now) (\<lambda>_.
    ret (old_value, \<lparr>st_expiry = so_expiry ttl now c, st_key = Some (so_stored_key bk key c)\<rparr>)))
      (so_put bk key (so_expiry ttl now c) val c)"
proof (cases "a_find bk (bk key) (so_map c)")
  case None
  then show ?thesis
    by (simp add: sorted_set_inner_def so_expiry_def so_put_def so_stored_key_def so_displace_def
        so_settle_def andthen_get_state so_update_then hm_insert_def as_stamped_def Let_def)
next
  case (Some ke)
  obtain k e where ke: "ke = (k, e)" by force
  have k: "se_key e = k" using so_rowsD(1) [OF so_wf_rows [OF assms]] a_find_SomeD [OF Some] ke by fastforce
  show ?thesis
    using Some ke k
    by (simp add: sorted_set_inner_def so_expiry_def so_put_def so_stored_key_def so_displace_def
        so_settle_def andthen_get_state so_update_then hm_insert_def as_stamped_def cwhen_def Let_def)
qed

section \<open>Removal of one row\<close>

lemma andthen_ret_right: "andthen m ret = m"
  by (auto simp: fun_eq_iff andthen_def ret_def split: prod.splits outcome.splits)

lemma so_remove_then:
  assumes "so_wf bk c"
  shows "andthen (so_map_remove bk q) (\<lambda>found. case found of
       None \<Rightarrow> y
     | Some e \<Rightarrow> andthen (so_keys_remove bk (as_stamped e)) (\<lambda>_. andthen (so_report e) (x e))) c =
    (case a_find bk q (so_map c) of
       None \<Rightarrow> y c
     | Some (k, e) \<Rightarrow>
        andthen (\<lambda>d. (if cb_ok (so_on_evict c) k (se_value e) then Returns () else Panics, d)) (x e)
          (so_gone bk [(k, e)] [(k, e)] c))"
proof (cases "a_find bk q (so_map c)")
  case None
  then show ?thesis by (simp add: andthen_apply so_map_remove_apply a_without_absent)
next
  case (Some ke)
  obtain k e where ke: "ke = (k, e)" by force
  have mem: "(k, e) \<in> set (so_map c)" "bk k = q" using a_find_SomeD [OF Some] ke by simp_all
  have key: "se_key e = k" using so_rowsD(1) [OF so_wf_rows [OF assms] mem(1)] by simp
  have "bt_remove (stamped_rank bk) (as_stamped e) (so_keys c) = filter (\<lambda>s. s \<noteq> stamp_of (k, e)) (so_keys c)"
    using so_keys_cut [OF assms mem(1)] by (simp add: stamp_of_pair)
  then show ?thesis
    using Some ke key mem(2) by (simp add: so_report_def so_apply so_gone_def a_without_all_Cons)
qed

lemma so_remove_expired_entry_apply:
  assumes "so_wf bk c"
  shows "so_remove_expired_entry bk q c = (case a_find bk q (so_map c) of
       None \<Rightarrow> (Returns (), c)
     | Some (k, e) \<Rightarrow> (if cb_ok (so_on_evict c) k (se_value e) then Returns () else Panics,
         so_gone bk [(k, e)] [(k, e)] c))"
proof -
  have "so_remove_expired_entry bk q c = andthen (so_map_remove bk q) (\<lambda>found. case found of
       None \<Rightarrow> ret ()
     | Some e \<Rightarrow> andthen (so_keys_remove bk (as_stamped e)) (\<lambda>_. andthen (so_report e) ret)) c"
    unfolding so_remove_expired_entry_def andthen_ret_right ..
  also note so_remove_then [OF assms]
  finally show ?thesis by (simp add: ret_apply andthen_apply split: option.split)
qed

end
