(* ===== verification/Ttl_Sorted_Machine.thy ===== *)
theory Ttl_Sorted_Machine
  imports Ttl_Sorted_Effects
begin

text \<open>
  \<open>TtlSortedCache\<close> as a state machine, and the invariant that every call keeps, whether it returns
  or panics: the map and the index are in lockstep, the size limit is not zero, and, as long as the
  callback does not panic, the map is within the limit and every eviction has been reported.
\<close>

section \<open>Operations\<close>

datatype (plugins only: code size) (dead 'k, dead 'v, dead 'q, dead 'e) sorted_op =
    SGet usize instant 'q
  | SGetMut usize instant 'q "'v \<Rightarrow> 'v"
  | SGetRead usize instant 'q
  | SGetStatus usize instant 'q
  | SSet 'k 'v instant
  | SCacheSet 'k 'v instant
  | SSetWith "('k, 'v) set_builder" instant
  | SGetOrSet usize instant instant 'k "'v outcome" "'v \<Rightarrow> 'v"
  | STryGetOrSet usize instant instant 'k "('e + 'v) outcome" "'v \<Rightarrow> 'v"
  | SAsyncGetOrSet usize instant instant 'k "'v outcome" "'v \<Rightarrow> 'v"
  | SAsyncTryGetOrSet usize instant instant 'k "('e + 'v) outcome" "'v \<Rightarrow> 'v"
  | SRemove instant 'q
  | SRemoveEntry 'q
  | SContains instant 'q
  | SRetain "('k, 'v) predicate" instant
  | SRetainLatest usize bool instant
  | SEvict instant
  | SSetMaxSize usize instant
  | STrySetMaxSize usize instant
  | SReserve "usize \<Rightarrow> bool" usize
  | SSetTtl duration
  | SUnsetTtl
  | SClear
  | SClearWithOnEvict
  | SResetMetrics
  | SReset instant

datatype (plugins only: code size) (dead 'k, dead 'v, dead 'e) sorted_result =
    SoUnit | SoValue 'v | SoTry "'e + 'v" | SoLookup "'v option" | SoStatus "'v option \<times> bool"
  | SoEntry "('k \<times> 'v) option" | SoBool bool | SoCount usize | SoDuration "duration option"
  | SoSize "usize option" | SoTrySize "set_max_size_error + usize option"

fun sorted_exec :: "('k \<Rightarrow> 'q::linorder) \<Rightarrow> ('k, 'v, 'q, 'e) sorted_op
    \<Rightarrow> (('k, 'v) sorted_cache, ('k, 'v, 'e) sorted_result) comp" where
  "sorted_exec bk (SGet th now q) = as_result (sorted_cache_get bk th now q) SoLookup"
| "sorted_exec bk (SGetMut th now q upd) = as_result (sorted_cache_get_mut bk th now q upd) SoLookup"
| "sorted_exec bk (SGetRead th now q) = as_result (sorted_cache_get_read bk th now q) SoLookup"
| "sorted_exec bk (SGetStatus th now q) = as_result (sorted_cache_get_with_expiry_status bk th now q) SoStatus"
| "sorted_exec bk (SSet k v now) = as_result (sorted_set bk k v now) SoLookup"
| "sorted_exec bk (SCacheSet k v now) = as_result (sorted_cache_set bk k v now) SoLookup"
| "sorted_exec bk (SSetWith b now) = as_result (set_builder_set bk b now) SoLookup"
| "sorted_exec bk (SGetOrSet th now later k f upd) =
     as_result (sorted_cache_get_or_set_with_mut bk th now later k f upd) SoValue"
| "sorted_exec bk (STryGetOrSet th now later k g upd) =
     as_result (sorted_cache_try_get_or_set_with_mut bk th now later k g upd) SoTry"
| "sorted_exec bk (SAsyncGetOrSet th now later k f upd) =
     as_result (sorted_async_cache_get_or_set_with_mut bk th now later k f upd) SoValue"
| "sorted_exec bk (SAsyncTryGetOrSet th now later k g upd) =
     as_result (sorted_async_cache_try_get_or_set_with_mut bk th now later k g upd) SoTry"
| "sorted_exec bk (SRemove now q) = as_result (sorted_cache_remove bk now q) SoLookup"
| "sorted_exec bk (SRemoveEntry q) = as_result (sorted_cache_remove_entry bk q) SoEntry"
| "sorted_exec bk (SContains now q) = as_result (sorted_cache_contains bk now q) SoBool"
| "sorted_exec bk (SRetain keep now) = as_result (sorted_retain bk keep now) SoCount"
| "sorted_exec bk (SRetainLatest n evict now) = as_result (sorted_retain_latest bk n evict now) SoCount"
| "sorted_exec bk (SEvict now) = as_result (sorted_evict bk now) SoCount"
| "sorted_exec bk (SSetMaxSize n now) = as_result (sorted_set_max_size bk n now) SoSize"
| "sorted_exec bk (STrySetMaxSize n now) = as_result (sorted_try_set_max_size bk n now) SoTrySize"
| "sorted_exec bk (SReserve alloc n) = as_result (sorted_reserve alloc n) (\<lambda>_. SoUnit)"
| "sorted_exec bk (SSetTtl d) = as_result (sorted_set_ttl d) SoDuration"
| "sorted_exec bk SUnsetTtl = as_result sorted_unset_ttl SoDuration"
| "sorted_exec bk SClear = as_result sorted_cache_clear (\<lambda>_. SoUnit)"
| "sorted_exec bk SClearWithOnEvict = as_result sorted_cache_clear_with_on_evict (\<lambda>_. SoUnit)"
| "sorted_exec bk SResetMetrics = as_result sorted_cache_reset_metrics (\<lambda>_. SoUnit)"
| "sorted_exec bk (SReset now) = as_result (sorted_cache_reset now) (\<lambda>_. SoUnit)"

fun resets :: "('k, 'v, 'q, 'e) sorted_op \<Rightarrow> bool" where
  "resets SResetMetrics = True"
| "resets (SReset now) = True"
| "resets _ = False"

section \<open>The invariant\<close>

text \<open>\<open>counting\<close> says whether the metrics have not been reset.\<close>

definition so_ok :: "bool \<Rightarrow> ('k \<Rightarrow> 'q::linorder) \<Rightarrow> ('k, 'v) sorted_cache \<Rightarrow> bool" where
  "so_ok counting bk c \<longleftrightarrow> so_wf bk c \<and> so_size_limit c \<noteq> Some 0 \<and>
     (counting \<and> quiet (so_on_evict c) \<and> so_on_evict c \<noteq> None \<longrightarrow>
        so_evictions c = of_nat (length (so_calls c)))"

definition so_fit :: "('k, 'v) sorted_cache \<Rightarrow> bool" where
  "so_fit c \<longleftrightarrow> (quiet (so_on_evict c) \<longrightarrow>
     (\<forall>limit. so_size_limit c = Some limit \<longrightarrow> length (so_map c) \<le> limit))"

definition so_inv :: "bool \<Rightarrow> ('k \<Rightarrow> 'q::linorder) \<Rightarrow> ('k, 'v) sorted_cache \<Rightarrow> bool" where
  "so_inv counting bk c \<longleftrightarrow> so_ok counting bk c \<and> so_fit c"

lemma so_wf_fields [simp]:
  "so_wf bk (c\<lparr>so_hits := h\<rparr>) = so_wf bk c" "so_wf bk (c\<lparr>so_misses := h\<rparr>) = so_wf bk c"
  "so_wf bk (c\<lparr>so_evictions := n\<rparr>) = so_wf bk c" "so_wf bk (c\<lparr>so_calls := tr\<rparr>) = so_wf bk c"
  "so_wf bk (c\<lparr>so_ttl := d\<rparr>) = so_wf bk c" "so_wf bk (c\<lparr>so_size_limit := l\<rparr>) = so_wf bk c"
  by (simp_all add: so_wf_def)

lemma so_wf_empty [simp]: "so_wf bk (c\<lparr>so_map := [], so_keys := []\<rparr>)"
  by (simp add: so_wf_def so_sync_def so_rows_def)

lemma so_ok_wf: "so_ok b bk c \<Longrightarrow> so_wf bk c"
  by (simp add: so_ok_def)

lemma so_inv_ok: "so_inv b bk c \<Longrightarrow> so_ok b bk c" "so_inv b bk c \<Longrightarrow> so_wf bk c"
  by (simp_all add: so_inv_def so_ok_def)

lemma so_ok_gone:
  assumes "so_ok b bk c" "set es \<subseteq> set (so_map c)" "quiet (so_on_evict c) \<Longrightarrow> told = es"
  shows "so_ok b bk (so_gone bk es told c)"
  using assms so_wf_gone [OF so_ok_wf [OF assms(1)] assms(2)]
  by (auto simp: so_ok_def cb_calls_def split: option.splits)

lemma length_a_without_all: "length (a_without_all bk es m) \<le> length m"
  by (simp add: a_without_all_def)

lemma so_inv_gone:
  assumes "so_inv b bk c" "set es \<subseteq> set (so_map c)" "quiet (so_on_evict c) \<Longrightarrow> told = es"
  shows "so_inv b bk (so_gone bk es told c)"
  using assms so_ok_gone [OF _ assms(2,3)] length_a_without_all [of bk es "so_map c"]
  by (auto simp: so_inv_def so_fit_def)

lemma heard_quiet: "quiet cb \<Longrightarrow> heard cb es = es"
  by (simp add: heard_all)

lemma so_fit_fields [simp]:
  "so_fit (c\<lparr>so_hits := h\<rparr>) = so_fit c" "so_fit (c\<lparr>so_misses := h\<rparr>) = so_fit c"
  "so_fit (c\<lparr>so_ttl := d\<rparr>) = so_fit c" "so_fit (c\<lparr>so_evictions := n\<rparr>) = so_fit c"
  by (simp_all add: so_fit_def)

lemma so_inv_parts [keeps_rules]:
  "keeps (so_inv b bk) (so_hit th)" "keeps (so_inv b bk) (so_miss th)"
  by (auto simp: keeps_def so_inv_def so_ok_def so_apply)

lemma so_inv_write [keeps_rules]: "keeps (so_inv b bk) (so_write bk q upd)"
proof (rule keepsI)
  fix c :: "('a, 'b) sorted_cache" assume "so_inv b bk c"
  then show "so_inv b bk (snd (so_write bk q upd c))"
    using so_sync_write [of bk "so_map c" "so_keys c" "\<lambda>e. e\<lparr>se_value := upd (se_value e)\<rparr>" q]
    by (simp add: so_write_apply so_inv_def so_ok_def so_fit_def so_wf_def)
qed

lemma so_inv_settings [keeps_rules]:
  "keeps (so_inv b bk) (sorted_set_ttl ttl)" "keeps (so_inv b bk) sorted_unset_ttl"
  "keeps (so_inv b bk) (sorted_reserve alloc n)"
  by (simp_all add: keeps_def sorted_set_ttl_def sorted_unset_ttl_def sorted_reserve_def so_inv_def
      so_ok_def comp_simps Let_def)

section \<open>Removals and sweeps\<close>

lemma so_inv_remove_then [keeps_rules]:
  assumes "keeps (so_inv b bk) y" "\<And>e u. keeps (so_inv b bk) (x e u)"
  shows "keeps (so_inv b bk) (andthen (so_map_remove bk q) (\<lambda>found. case found of
       None \<Rightarrow> y
     | Some e \<Rightarrow> andthen (so_keys_remove bk (as_stamped e)) (\<lambda>_. andthen (so_report e) (x e))))"
proof (rule keepsI)
  fix c :: "('a, 'b) sorted_cache" assume c: "so_inv b bk c"
  have gone: "so_inv b bk (so_gone bk [(k, e)] [(k, e)] c)" if "a_find bk q (so_map c) = Some (k, e)" for k e
    using a_find_SomeD [OF that] by (intro so_inv_gone [OF c]) auto
  show "so_inv b bk (snd (andthen (so_map_remove bk q) (\<lambda>found. case found of
       None \<Rightarrow> y
     | Some e \<Rightarrow> andthen (so_keys_remove bk (as_stamped e)) (\<lambda>_. andthen (so_report e) (x e))) c))"
    unfolding so_remove_then [OF so_inv_ok(2) [OF c]]
    using gone keepsD [OF assms(1) c] keepsD [OF assms(2)]
    by (auto simp: andthen_apply split: option.split)
qed

lemma so_inv_remove_expired [keeps_rules]: "keeps (so_inv b bk) (so_remove_expired_entry bk q)"
proof (rule keepsI)
  fix c :: "('a, 'b) sorted_cache" assume c: "so_inv b bk c"
  have "so_inv b bk (so_gone bk [(k, e)] [(k, e)] c)" if "a_find bk q (so_map c) = Some (k, e)" for k e
    using a_find_SomeD [OF that] by (intro so_inv_gone [OF c]) auto
  then show "so_inv b bk (snd (so_remove_expired_entry bk q c))"
    using c by (auto simp: so_remove_expired_entry_apply [OF so_inv_ok(2) [OF c]] split: option.split)
qed

lemma so_inv_lookups [keeps_rules]:
  "keeps (so_inv b bk) (sorted_cache_get bk th now q)"
  "keeps (so_inv b bk) (sorted_cache_get_mut bk th now q upd)"
  "keeps (so_inv b bk) (sorted_cache_get_read bk th now q)"
  "keeps (so_inv b bk) (sorted_cache_get_with_expiry_status bk th now q)"
  "keeps (so_inv b bk) (sorted_cache_contains bk now q)"
  "keeps (so_inv b bk) (sorted_cache_remove bk now q)"
  "keeps (so_inv b bk) (sorted_cache_remove_entry bk q)"
  "keeps (so_inv b bk) (so_serve bk th q upd)"
  unfolding sorted_cache_get_def sorted_cache_get_mut_def sorted_cache_get_read_def
    sorted_cache_get_with_expiry_status_def sorted_cache_contains_def sorted_cache_remove_def
    sorted_cache_remove_entry_def so_serve_def
  by (intro keeps_rules keeps_expect)+

lemma so_inv_evict_at [keeps_rules]: "keeps (so_inv b bk) (sorted_evict_at bk t)"
proof (rule keepsI)
  fix c :: "('a, 'b) sorted_cache" assume c: "so_inv b bk c"
  show "so_inv b bk (snd (sorted_evict_at bk t c))"
    unfolding sorted_evict_at_apply [OF so_inv_ok(2) [OF c]] Let_def snd_conv
    by (rule so_inv_gone [OF c]) (auto simp: expired_rows_def heard_quiet)
qed

lemma so_inv_retain [keeps_rules]: "keeps (so_inv b bk) (sorted_retain bk keep now)"
proof (rule keepsI)
  fix c :: "('a, 'b) sorted_cache" assume c: "so_inv b bk c"
  have "so_inv b bk (so_gone bk out (heard (so_on_evict c) out) c)"
    if "filter_closure (retain_verdict keep now) (so_map c) = Some out" for out
    using filter_closure_rows(1) [OF that] by (intro so_inv_gone [OF c]) (auto simp: heard_quiet)
  then show "so_inv b bk (snd (sorted_retain bk keep now c))"
    using c by (simp add: sorted_retain_apply [OF so_inv_ok(2) [OF c]] split: option.split)
qed

lemma sorted_cache_clear_with_on_evict_apply:
  assumes "so_wf bk c"
  shows "sorted_cache_clear_with_on_evict c = (if so_on_evict c = None then (Returns (), c\<lparr>so_map := [], so_keys := []\<rparr>)
    else (if all_ok (so_on_evict c) (se_pairs (so_map c)) then Returns () else Panics,
      c\<lparr>so_map := [], so_keys := [], so_evictions := so_evictions c + of_nat (length (so_map c)),
        so_calls := so_calls c @ cb_calls (so_on_evict c) (se_pairs (heard (so_on_evict c) (so_map c)))\<rparr>))"
proof -
  have keys: "\<And>ke. ke \<in> set (so_map c) \<Longrightarrow> se_key (snd ke) = fst ke"
    using so_rowsD(1) [OF so_wf_rows [OF assms]] by blast
  have "foreach es (\<lambda>(_, e). so_notify (se_key e) (se_value e)) = foreach es (\<lambda>(k, e). so_notify k (se_value e))"
    if "\<forall>ke\<in>set es. se_key (snd ke) = fst ke" for es :: "('a, 'c) row list"
    using that by (induction es) auto
  then have each: "foreach (so_map c) (\<lambda>(_, e). so_notify (se_key e) (se_value e)) =
      foreach (so_map c) (\<lambda>(k, e). so_notify k (se_value e))"
    using keys by blast
  have "cwhen (so_map c \<noteq> []) (so_count (length (so_map c))) d =
      (Returns (), d\<lparr>so_evictions := so_evictions d + of_nat (length (so_map c))\<rparr>)" for d :: "('a, 'c) sorted_cache"
    by (cases "so_map c") (simp_all add: cwhen_def so_apply)
  then show ?thesis
    by (simp add: sorted_cache_clear_with_on_evict_def sorted_cache_clear_def comp_simps each so_notify_rows)
qed

lemma so_inv_clears [keeps_rules]:
  "keeps (so_inv b bk) sorted_cache_clear"
  "keeps (so_inv b bk) (sorted_cache_clear_with_on_evict :: (('k, 'v) sorted_cache, unit) comp)"
proof -
  show "keeps (so_inv b bk) sorted_cache_clear"
    by (auto simp: keeps_def sorted_cache_clear_def so_inv_def so_ok_def so_fit_def comp_simps)
  show "keeps (so_inv b bk) (sorted_cache_clear_with_on_evict :: (('k, 'v) sorted_cache, unit) comp)"
  proof (rule keepsI)
    fix c :: "('k, 'v) sorted_cache" assume c: "so_inv b bk c"
    show "so_inv b bk (snd (sorted_cache_clear_with_on_evict c))"
      using c unfolding sorted_cache_clear_with_on_evict_apply [OF so_inv_ok(2) [OF c]]
      by (auto simp: so_inv_def so_ok_def so_fit_def so_wf_def so_sync_def so_rows_def heard_quiet)
  qed
qed

lemma so_inv_resets [keeps_rules]:
  "keeps (so_inv False bk) sorted_cache_reset_metrics" "keeps (so_inv False bk) (sorted_cache_reset now)"
  by (auto simp: keeps_def sorted_cache_reset_metrics_def sorted_cache_reset_def so_inv_def so_ok_def
      so_fit_def so_wf_def so_sync_def so_rows_def comp_simps)

section \<open>Trims\<close>

lemma length_a_without_all_exact:
  assumes "a_wf bk m" "a_wf bk es" "set es \<subseteq> set m"
  shows "length (a_without_all bk es m) = length m - length es"
  using assms
proof (induction es arbitrary: m)
  case (Cons ke es)
  have "a_find bk (bk (fst ke)) m = Some ke" using Cons.prems by (simp add: a_find_Some_iff)
  then have "length (a_without bk (bk (fst ke)) m) = length m - 1"
    using length_a_without [OF Cons.prems(1), of "bk (fst ke)"] by simp
  moreover have "length (a_without_all bk es (a_without bk (bk (fst ke)) m)) =
      length (a_without bk (bk (fst ke)) m) - length es"
    using Cons.prems by (intro Cons.IH) (auto simp: a_wf_Cons set_a_without)
  ultimately show ?case by (simp add: a_without_all_Cons)
qed simp

lemma victims_rows:
  assumes "so_rows bk m"
  shows "set (victims need cutoff (candidates bk p m)) \<subseteq> set m"
    "a_wf bk (victims need cutoff (candidates bk p m))"
proof -
  show "set (victims need cutoff (candidates bk p m)) \<subseteq> set m"
    using set_victims set_candidates by (metis order_trans)
  have "a_wf bk (candidates bk p m)"
    using so_rows_by_expiry [OF assms] by (simp add: candidates_def so_rows_def)
  then show "a_wf bk (victims need cutoff (candidates bk p m))"
    using victims_prefix [of "candidates bk p m" need cutoff] a_wf_take
    by (metis append_eq_conv_conj)
qed

text \<open>A trim protects at most one row.\<close>

lemma length_candidates_protected:
  assumes "so_rows bk m"
  shows "length m \<le> length (candidates bk p m) + (if p = None then 0 else 1)"
proof (cases p)
  case None
  then show ?thesis by (simp add: candidates_None)
next
  case (Some s)
  have "length (filter (protects bk p) (by_expiry bk m)) \<le> 1"
  proof -
    have "distinct (filter (protects bk p) (by_expiry bk m))"
      using so_rows_by_expiry [OF assms] by (auto simp: so_rows_def a_wf_def distinct_map)
    moreover have "x = y" if "x \<in> set (filter (protects bk p) (by_expiry bk m))"
      "y \<in> set (filter (protects bk p) (by_expiry bk m))" for x y
      using that by (intro protects_unique [OF assms, of x y p]) auto
    ultimately have "card (set (filter (protects bk p) (by_expiry bk m))) \<le> 1"
      by (metis One_nat_def card_le_Suc0_iff_eq finite_set)
    then show ?thesis using \<open>distinct _\<close> by (simp only: distinct_card)
  qed
  then show ?thesis
    using sum_length_filter_compl [of "protects bk p" "by_expiry bk m"] Some by (simp add: candidates_def)
qed

lemma so_ok_retain_latest [keeps_rules]:
  "keeps (so_ok b bk :: ('k, 'v) sorted_cache \<Rightarrow> bool) (sorted_retain_latest_at_protecting bk cnt cutoff p)"
proof (rule keepsI)
  fix c :: "('k, 'v) sorted_cache" assume c: "so_ok b bk c"
  show "so_ok b bk (snd (sorted_retain_latest_at_protecting bk cnt cutoff p c))"
    unfolding sorted_retain_latest_at_protecting_apply [OF so_ok_wf [OF c]] Let_def snd_conv
    using victims_rows(1) [OF so_wf_rows [OF so_ok_wf [OF c]]] set_heard
    by (intro so_ok_gone [OF c]) (auto simp: heard_quiet, blast+)
qed

lemma retain_latest_shrinks:
  assumes "so_wf bk c" "quiet (so_on_evict c)" "p = None \<or> 0 < cnt"
  shows "length (so_map (snd (sorted_retain_latest_at_protecting bk cnt cutoff p c))) \<le> min cnt (length (so_map c))"
proof -
  let ?vs = "victims (length (so_map c) - cnt) cutoff (candidates bk p (so_map c))"
  have rows: "so_rows bk (so_map c)" by (rule so_wf_rows [OF assms(1)])
  have "length (so_map c) - cnt \<le> length ?vs"
    using enough_victims [of "candidates bk p (so_map c)" "length (so_map c) - cnt" cutoff]
      length_candidates_protected [OF rows, of p] assms(3) by (auto split: if_splits)
  moreover have "length (a_without_all bk ?vs (so_map c)) = length (so_map c) - length ?vs"
    using victims_rows [OF rows] rows by (intro length_a_without_all_exact) (auto simp: so_rows_def)
  ultimately show ?thesis
    by (simp add: sorted_retain_latest_at_protecting_apply [OF assms(1)] Let_def heard_quiet [OF assms(2)])
qed

lemma so_inv_retain_latest [keeps_rules]:
  "keeps (so_inv b bk :: ('k, 'v) sorted_cache \<Rightarrow> bool) (sorted_retain_latest_at_protecting bk cnt cutoff p)"
proof (rule keepsI)
  fix c :: "('k, 'v) sorted_cache" assume c: "so_inv b bk c"
  show "so_inv b bk (snd (sorted_retain_latest_at_protecting bk cnt cutoff p c))"
    unfolding sorted_retain_latest_at_protecting_apply [OF so_inv_ok(2) [OF c]] Let_def snd_conv
    using victims_rows(1) [OF so_wf_rows [OF so_inv_ok(2) [OF c]]] set_heard
    by (intro so_inv_gone [OF c]) (auto simp: heard_quiet, blast+)
qed

section \<open>Insertions\<close>

lemma so_ok_put: "so_ok b bk c \<Longrightarrow> so_ok b bk (so_put bk key expiry val c)"
  by (simp add: so_ok_def so_wf_put)

lemma so_displace_apply:
  "so_displace old now c = (case old of
     Some (k, e) \<Rightarrow>
       if is_expired_at e now
       then (if cb_ok (so_on_evict c) (se_key e) (se_value e) then Returns None else Panics,
         c\<lparr>so_evictions := so_evictions c + 1,
           so_calls := so_calls c @ cb_calls (so_on_evict c) [(se_key e, se_value e)]\<rparr>)
       else (Returns (Some (se_value e)), c)
   | None \<Rightarrow> (Returns None, c))"
  by (auto simp: so_displace_def so_report_def so_apply split: option.split)

lemma so_ok_displace: "keeps (so_ok b bk) (so_displace old now)"
  by (auto simp: keeps_def so_displace_apply so_ok_def split: option.split)

lemma so_displace_fields:
  "so_size_limit (snd (so_displace old now c)) = so_size_limit c"
  "so_on_evict (snd (so_displace old now c)) = so_on_evict c"
  "so_map (snd (so_displace old now c)) = so_map c"
  "so_keys (snd (so_displace old now c)) = so_keys c"
  "quiet (so_on_evict c) \<Longrightarrow> \<exists>v. fst (so_displace old now c) = Returns v"
  by (auto simp: so_displace_apply split: option.split)

lemma so_fit_not_quiet: "\<not> quiet (so_on_evict c) \<Longrightarrow> so_fit c"
  by (simp add: so_fit_def)

lemma so_retain_latest_fields:
  assumes "so_wf bk c"
  shows "so_size_limit (snd (sorted_retain_latest_at_protecting bk cnt cutoff p c)) = so_size_limit c"
    "so_on_evict (snd (sorted_retain_latest_at_protecting bk cnt cutoff p c)) = so_on_evict c"
  by (simp_all add: sorted_retain_latest_at_protecting_apply [OF assms] Let_def)

lemma snd_andthen_ret: "snd (andthen m (\<lambda>x. ret (f x)) s) = snd (m s)"
  by (auto simp: andthen_apply ret_apply split: prod.splits outcome.splits)

lemma so_settle_inv:
  assumes "so_ok b bk c"
  shows "so_ok b bk (snd (so_settle bk (so_size_limit c) evict skip now c))"
    "\<not> skip \<Longrightarrow> so_fit (snd (so_settle bk (so_size_limit c) evict skip now c))"
proof -
  note wf = so_ok_wf [OF assms]
  have evict_at: "so_ok b bk (snd (sorted_evict_at bk now c))"
    unfolding sorted_evict_at_apply [OF wf] Let_def snd_conv
    by (rule so_ok_gone [OF assms]) (auto simp: expired_rows_def heard_quiet)
  have evict_fields: "so_size_limit (snd (sorted_evict_at bk now c)) = so_size_limit c"
    by (simp add: sorted_evict_at_apply [OF wf] Let_def)
  show "so_ok b bk (snd (so_settle bk (so_size_limit c) evict skip now c))"
    using assms evict_at keepsD [OF so_ok_retain_latest assms]
    by (simp add: so_settle_def snd_andthen_ret sorted_retain_latest_at_def ret_apply split: option.split)
  show "so_fit (snd (so_settle bk (so_size_limit c) evict skip now c))" if "\<not> skip"
    using that retain_latest_shrinks [OF wf] so_retain_latest_fields [OF wf] evict_fields
    by (auto simp: so_fit_def so_settle_def snd_andthen_ret sorted_retain_latest_at_def ret_apply
        split: option.splits)
qed

lemma sorted_set_inner_inv:
  assumes "so_ok b bk c"
  shows "so_ok b bk (snd (sorted_set_inner bk key val ttl evict skip now c))"
    "\<not> skip \<Longrightarrow> so_fit (snd (sorted_set_inner bk key val ttl evict skip now c))"
proof -
  let ?old = "a_find bk (bk key) (so_map c)"
  define p where "p = so_put bk key (so_expiry ttl now c) val c"
  define d where "d = snd (so_displace ?old now p)"
  have p: "so_ok b bk p" "so_size_limit p = so_size_limit c"
    unfolding p_def using so_ok_put [OF assms] by simp_all
  have d: "so_ok b bk d" "so_size_limit d = so_size_limit c" "so_on_evict d = so_on_evict p"
    unfolding d_def using keepsD [OF so_ok_displace p(1)] p(2) by (simp_all add: so_displace_fields)
  have "snd (sorted_set_inner bk key val ttl evict skip now c) =
      (case fst (so_displace ?old now p) of
         Returns v \<Rightarrow> snd (so_settle bk (so_size_limit d) evict skip now d) | _ \<Rightarrow> d)"
    unfolding sorted_set_inner_put [OF so_ok_wf [OF assms]] p_def [symmetric] d(2)
    by (simp add: andthen_apply [of "so_displace ?old now"] snd_andthen_ret d_def
        split: prod.splits outcome.splits)
  then show "so_ok b bk (snd (sorted_set_inner bk key val ttl evict skip now c))"
    "\<not> skip \<Longrightarrow> so_fit (snd (sorted_set_inner bk key val ttl evict skip now c))"
    using so_settle_inv [OF d(1)] d so_displace_fields(5) [of p ?old now] so_fit_not_quiet [of d]
    by (auto split: outcome.splits)
qed

lemma so_inv_set_inner [keeps_rules]:
  "keeps (so_inv b bk) (sorted_set_inner bk key val ttl evict False now)"
  by (rule keepsI) (auto simp: so_inv_def intro: sorted_set_inner_inv)

lemma so_inv_sets [keeps_rules]:
  "keeps (so_inv b bk) (sorted_set bk key val now)"
  "keeps (so_inv b bk) (sorted_cache_set bk key val now)"
  "keeps (so_inv b bk) (set_builder_set bk sb now)"
  unfolding sorted_set_def sorted_cache_set_def set_builder_set_def by (intro keeps_rules)+

section \<open>Insertion that hands out the new value\<close>

definition so_enforce :: "('k \<Rightarrow> 'q::linorder) \<Rightarrow> 'k stamped \<Rightarrow> (('k, 'v) sorted_cache, unit) comp" where
  "so_enforce bk protected = andthen get_state (\<lambda>c. case so_size_limit c of
       Some size_limit \<Rightarrow>
         if length (so_map c) > size_limit
         then andthen (sorted_retain_latest_at_protecting bk size_limit None (Some protected)) (\<lambda>_. ret ())
         else ret ()
     | None \<Rightarrow> ret ())"

definition so_hand_out :: "('k \<Rightarrow> 'q) \<Rightarrow> 'q \<Rightarrow> ('v \<Rightarrow> 'v) \<Rightarrow> (('k, 'v) sorted_cache, 'v) comp" where
  "so_hand_out bk q upd =
     andthen get_state (\<lambda>c.
     andthen (expect (hm_get bk q (so_map c))) (\<lambda>e.
     andthen (so_write bk q upd) (\<lambda>_.
     ret (se_value e))))"

lemma andthen_at: "m s = m' t \<Longrightarrow> andthen m f s = andthen m' f t"
  by (simp add: andthen_def)

lemma sorted_set_and_get_mut_apply:
  fixes c :: "('k, 'v) sorted_cache"
  assumes "so_wf bk c"
  shows "sorted_set_and_get_mut bk key val upd now c =
    andthen (so_displace (a_find bk (bk key) (so_map c)) now) (\<lambda>_.
    andthen (so_enforce bk \<lparr>st_expiry = so_expiry None now c, st_key = Some (so_stored_key bk key c)\<rparr>) (\<lambda>_.
    so_hand_out bk (bk (so_stored_key bk key c)) upd)) (so_put bk key (so_expiry None now c) val c)"
proof -
  let ?s = "\<lparr>st_expiry = so_expiry None now c, st_key = Some (so_stored_key bk key c)\<rparr>"
  have "andthen (sorted_set_inner bk key val None False True now) f c =
      andthen (andthen (so_displace (a_find bk (bk key) (so_map c)) now) (\<lambda>old_value.
        andthen (so_settle bk (so_size_limit c) False True now) (\<lambda>_. ret (old_value, ?s)))) f
      (so_put bk key (so_expiry None now c) val c)"
    for f :: "'v option \<times> 'k stamped \<Rightarrow> (('k, 'v) sorted_cache, 'v) comp"
    by (rule andthen_at) (rule sorted_set_inner_put [OF assms])
  then show ?thesis
    unfolding sorted_set_and_get_mut_def
    by (simp add: andthen_assoc so_settle_def expect_Some so_enforce_def so_hand_out_def)
qed

lemma so_protected_stays:
  assumes "so_wf bk c" "a_find bk q (so_map c) = Some ke" "protects bk (Some s) ke"
  shows "a_find bk q (so_map (snd (sorted_retain_latest_at_protecting bk cnt cutoff (Some s) c))) = Some ke"
proof -
  let ?vs = "heard (so_on_evict c) (victims (length (so_map c) - cnt) cutoff (candidates bk (Some s) (so_map c)))"
  have rows: "so_rows bk (so_map c)" by (rule so_wf_rows [OF assms(1)])
  have ke: "ke \<in> set (so_map c)" "bk (fst ke) = q" using a_find_SomeD [OF assms(2)] by simp_all
  have vs: "set ?vs \<subseteq> set (candidates bk (Some s) (so_map c))"
    using set_heard set_victims by (metis order_trans)
  have "bk (fst ke) \<notin> (\<lambda>d. bk (fst d)) ` set ?vs"
  proof
    assume "bk (fst ke) \<in> (\<lambda>d. bk (fst d)) ` set ?vs"
    then obtain d where d: "d \<in> set ?vs" "bk (fst ke) = bk (fst d)" by blast
    then have cand: "d \<in> set (candidates bk (Some s) (so_map c))" using vs by blast
    then have "ke = d" using so_rowsD(2) [OF rows ke(1) _ d(2)] set_candidates by blast
    then show False using cand assms(3) by (simp add: candidates_def)
  qed
  then have "a_find bk q (a_without_all bk ?vs (so_map c)) = Some ke"
    using rows assms(2) by (simp add: a_without_all_def a_find_filter so_rows_def)
  then show ?thesis by (simp add: sorted_retain_latest_at_protecting_apply [OF assms(1)] Let_def)
qed

lemma so_enforce_inv:
  assumes "so_ok b bk c"
  shows "so_inv b bk (snd (so_enforce bk s c))"
proof -
  note wf = so_ok_wf [OF assms]
  have pos: "0 < n" if "so_size_limit c = Some n" for n using assms that by (cases n) (auto simp: so_ok_def)
  show ?thesis
    using assms keepsD [OF so_ok_retain_latest assms] retain_latest_shrinks [OF wf _ disjI2 [OF pos]]
      so_retain_latest_fields [OF wf]
    by (auto simp: so_enforce_def andthen_get_state snd_andthen_ret so_inv_def so_fit_def ret_apply
        split: option.splits)
qed

lemma so_enforce_stays:
  assumes "so_wf bk c" "a_find bk q (so_map c) = Some ke" "protects bk (Some s) ke"
  shows "a_find bk q (so_map (snd (so_enforce bk s c))) = Some ke"
    "quiet (so_on_evict c) \<Longrightarrow> fst (so_enforce bk s c) = Returns ()"
proof -
  show "a_find bk q (so_map (snd (so_enforce bk s c))) = Some ke"
    using assms(2) so_protected_stays [OF assms]
    by (simp add: so_enforce_def andthen_get_state snd_andthen_ret ret_apply split: option.split)
  show "quiet (so_on_evict c) \<Longrightarrow> fst (so_enforce bk s c) = Returns ()"
    by (simp add: so_enforce_def andthen_apply get_state_apply ret_apply
        sorted_retain_latest_at_protecting_apply [OF assms(1)] Let_def split: option.split)
qed

lemma so_inv_hand_out [keeps_rules]: "keeps (so_inv b bk) (so_hand_out bk q upd)"
  unfolding so_hand_out_def by (intro keeps_rules keeps_expect)

lemma so_inv_set_and_get_mut [keeps_rules]:
  "keeps (so_inv b bk) (sorted_set_and_get_mut bk key val upd now)"
proof (rule keepsI)
  fix c :: "('a, 'b) sorted_cache" assume c: "so_inv b bk c"
  let ?old = "a_find bk (bk key) (so_map c)"
  let ?s = "\<lparr>st_expiry = so_expiry None now c, st_key = Some (so_stored_key bk key c)\<rparr>"
  define p where "p = so_put bk key (so_expiry None now c) val c"
  define d where "d = snd (so_displace ?old now p)"
  have p: "so_ok b bk p" unfolding p_def by (rule so_ok_put [OF so_inv_ok(1) [OF c]])
  have d: "so_ok b bk d" unfolding d_def by (rule keepsD [OF so_ok_displace p])
  have "(\<exists>v. fst (so_displace ?old now p) = Returns v) \<or> so_inv b bk d"
    using d so_displace_fields(2,5) so_fit_not_quiet by (metis d_def so_inv_def)
  moreover have "so_inv b bk (snd (andthen (so_enforce bk ?s) (\<lambda>_. so_hand_out bk (bk (so_stored_key bk key c)) upd) d))"
    by (rule keeps_after [where I = "so_inv b bk"]) (rule so_enforce_inv [OF d], rule so_inv_hand_out)
  ultimately show "so_inv b bk (snd (sorted_set_and_get_mut bk key val upd now c))"
    unfolding sorted_set_and_get_mut_apply [OF so_inv_ok(2) [OF c]] p_def [symmetric]
    by (auto simp: andthen_apply [of "so_displace ?old now"] d_def split: prod.splits outcome.splits)
qed

lemma so_inv_get_or_set [keeps_rules]:
  "keeps (so_inv b bk) (sorted_cache_get_or_set_with_mut bk th now later key f upd)"
  "keeps (so_inv b bk) (sorted_cache_try_get_or_set_with_mut bk th now later key g upd)"
  unfolding sorted_cache_get_or_set_with_mut_def sorted_cache_try_get_or_set_with_mut_def
  by (intro keeps_rules)+

lemma sorted_async_eq:
  "sorted_async_cache_get_or_set_with_mut = sorted_cache_get_or_set_with_mut"
  "sorted_async_cache_try_get_or_set_with_mut = sorted_cache_try_get_or_set_with_mut"
  unfolding sorted_async_cache_get_or_set_with_mut_def sorted_cache_get_or_set_with_mut_def
    sorted_async_cache_try_get_or_set_with_mut_def sorted_cache_try_get_or_set_with_mut_def
    await_run_closure by simp_all

section \<open>Size limits\<close>

lemma so_inv_set_max_size [keeps_rules]: "keeps (so_inv b bk :: ('k, 'v) sorted_cache \<Rightarrow> bool) (sorted_set_max_size bk n now)"
proof (rule keepsI)
  fix c :: "('k, 'v) sorted_cache" assume c: "so_inv b bk c"
  let ?c = "c\<lparr>so_size_limit := Some n\<rparr>"
  show "so_inv b bk (snd (sorted_set_max_size bk n now c))"
  proof (cases "n = 0")
    case True
    then show ?thesis using c by (simp add: sorted_set_max_size_def panic_apply)
  next
    case False
    then have ok: "so_ok b bk ?c" using c by (simp add: so_inv_def so_ok_def)
    let ?d = "snd (sorted_retain_latest_at_protecting bk n None None ?c)"
    have d: "so_ok b bk ?d" by (rule keepsD [OF so_ok_retain_latest ok])
    have fit: "so_fit ?d"
      using retain_latest_shrinks [OF so_ok_wf [OF ok], of None n None] so_retain_latest_fields [OF so_ok_wf [OF ok]]
      by (auto simp: so_fit_def)
    have "snd (sorted_set_max_size bk n now c) = (if n < length (so_map c) then ?d else ?c)"
      using False by (simp add: sorted_set_max_size_def andthen_get_state so_update_then snd_andthen_ret
          sorted_retain_latest_def sorted_retain_latest_at_def ret_apply)
    then show ?thesis using ok d fit by (simp add: so_inv_def so_fit_def)
  qed
qed

lemma so_inv_sizes [keeps_rules]:
  "keeps (so_inv b bk) (sorted_try_set_max_size bk n now)"
  "keeps (so_inv b bk) (sorted_retain_latest bk n evict now)"
  "keeps (so_inv b bk) (sorted_evict bk now)"
  unfolding sorted_try_set_max_size_def sorted_retain_latest_def sorted_retain_latest_at_def sorted_evict_def
  by (intro keeps_rules)+

section \<open>The callback never changes\<close>

definition so_cb :: "('k, 'v) callback option \<Rightarrow> ('k, 'v) sorted_cache \<Rightarrow> bool" where
  "so_cb cb c \<longleftrightarrow> so_on_evict c = cb"

lemma so_cb_modify: "(\<And>c. so_on_evict (f c) = so_on_evict c) \<Longrightarrow> keeps (so_cb cb) (modify f)"
  by (simp add: keeps_def so_cb_def modify_apply)

lemma so_cb_parts [keeps_rules]:
  "keeps (so_cb cb) (so_hit th)" "keeps (so_cb cb) (so_miss th)" "keeps (so_cb cb) (so_count n)"
  "keeps (so_cb cb) (so_notify k v)" "keeps (so_cb cb) (so_map_remove bk q)"
  "keeps (so_cb cb) (so_keys_insert bk s)" "keeps (so_cb cb) (so_keys_remove bk s)"
  "keeps (so_cb cb) so_keys_pop_first" "keeps (so_cb cb) (so_write bk q upd)"
  by (simp_all add: keeps_def so_cb_def so_apply)

lemma keeps_diverges [keeps_rules]: "keeps I (\<lambda>c. (Diverges, c))"
  by (simp add: keeps_def)

lemma so_cb_loops [keeps_rules]:
  "keeps (so_cb cb) (so_remove_stamps bk ss)" "keeps (so_cb cb) (so_unlink_all bk ss)"
  by (induction ss; simp; intro keeps_rules; assumption?)+

lemma so_cb_report [keeps_rules]: "keeps (so_cb cb) (so_report e)"
  unfolding so_report_def by (intro keeps_rules)

lemma so_cb_trim [keeps_rules]: "keeps (so_cb cb) (so_trim_loop n bk need cutoff p dropped)"
  by (induction n arbitrary: dropped)
    (simp_all add: so_pop_first_unprotected_def, (intro keeps_rules; assumption?)+)

lemma so_cb_sweeps [keeps_rules]:
  "keeps (so_cb cb) (sorted_evict_at bk t)" "keeps (so_cb cb) (sorted_retain bk keep now)"
  unfolding sorted_evict_at_def sorted_retain_def Let_def
  by (intro keeps_rules so_cb_modify; simp)+

lemma so_cb_retain_latest [keeps_rules]:
  "keeps (so_cb cb) (sorted_retain_latest_at_protecting bk cnt cutoff p)"
  unfolding sorted_retain_latest_at_protecting_def Let_def by (intro keeps_rules)

lemma so_cb_set_inner [keeps_rules]:
  "keeps (so_cb cb) (sorted_set_inner bk key val ttl evict skip now)"
  unfolding sorted_set_inner_def sorted_retain_latest_at_def Let_def
  by (intro keeps_rules so_cb_modify) simp

lemma so_cb_set_and_get_mut [keeps_rules]:
  "keeps (so_cb cb) (sorted_set_and_get_mut bk key val upd now)"
  unfolding sorted_set_and_get_mut_def by (intro keeps_rules)

lemma so_cb_exec: "keeps (so_cb cb) (sorted_exec bk op)"
  by (cases op; simp only: sorted_exec.simps;
      (unfold sorted_cache_get_def sorted_cache_get_mut_def sorted_cache_get_read_def
        sorted_cache_get_with_expiry_status_def sorted_set_def sorted_cache_set_def set_builder_set_def
        sorted_cache_get_or_set_with_mut_def sorted_cache_try_get_or_set_with_mut_def sorted_async_eq
        so_serve_def sorted_cache_remove_def sorted_cache_remove_entry_def sorted_cache_contains_def
        so_remove_expired_entry_def sorted_retain_latest_def sorted_retain_latest_at_def sorted_evict_def
        sorted_set_max_size_def sorted_try_set_max_size_def sorted_reserve_def sorted_set_ttl_def
        sorted_unset_ttl_def sorted_cache_clear_def sorted_cache_clear_with_on_evict_def
        sorted_cache_reset_metrics_def sorted_cache_reset_def Let_def)?;
      intro keeps_rules so_cb_modify; simp?)

lemma sorted_execution_callback:
  "execution (sorted_exec bk) c tr d \<Longrightarrow> so_on_evict d = so_on_evict c"
proof (induction rule: execution.induct)
  case (call tr s op r t)
  then show ?case using keepsD [OF so_cb_exec [of "so_on_evict c" bk op], of s] by (simp add: so_cb_def)
qed simp

section \<open>Executions\<close>

lemma sorted_exec_keeps: "\<not> (b \<and> resets op) \<Longrightarrow> keeps (so_inv b bk) (sorted_exec bk op)"
  by (cases op; cases b)
    (simp_all only: sorted_exec.simps sorted_async_eq resets.simps simp_thms, (intro keeps_rules)+)

interpretation sorted: machine_invariant "sorted_exec bk" "so_inv False bk" for bk :: "'k \<Rightarrow> 'q::linorder"
  by unfold_locales (simp add: keepsD [OF sorted_exec_keeps])

lemma sorted_execution_inv:
  assumes "execution (sorted_exec bk) c tr d" "so_inv b bk c" "b \<Longrightarrow> \<forall>(op, r) \<in> set tr. \<not> resets op"
  shows "so_inv b bk d"
  using assms
proof (induction rule: execution.induct)
  case (call tr s op r t)
  then have "so_inv b bk s" "b \<Longrightarrow> \<not> resets op" by auto
  then show ?case using keepsD [OF sorted_exec_keeps [of b op bk], of s] call(2) by auto
qed simp

lemma sorted_build_inv:
  assumes "sorted_build alloc now bd = Inr c"
  shows "so_inv b bk c" "so_on_evict c = sob_on_evict bd"
  using assms
  by (auto simp: sorted_build_def so_inv_def so_ok_def so_fit_def so_wf_def so_sync_def so_rows_def Let_def
      split: option.splits sum.splits if_splits)

end
