(* ===== verification/Ttl_Sorted_Correct.thy ===== *)
theory Ttl_Sorted_Correct
  imports Ttl_Sorted_Machine
begin

text \<open>
  What \<open>TtlSortedCache\<close> promises: its index mirrors its map in every state a client can reach, the
  sweeps that read only the front of the index remove what a scan of the whole map would remove, a
  trim keeps the entries that expire last, and a get-or-set hands out the value it stored.
\<close>

section \<open>The index mirrors the map\<close>

text \<open>
  C17. In every state that calls can reach from a built cache, by any clock readings and whatever the
  callbacks, predicates and factories did (a call that panics counts, with the state it leaves),
  the keys of the map are distinct and the index holds the stamps of the entries of the map, each
  once, in strictly ascending order of expiry and key.
\<close>

theorem sorted_lockstep:
  assumes "sorted_build alloc t bd = Inr c" "execution (sorted_exec bk) c tr d"
  shows "distinct (map (\<lambda>ke. bk (fst ke)) (so_map d)) \<and>
    mset (so_keys d) = image_mset (\<lambda>ke. as_stamped (snd ke)) (mset (so_map d)) \<and>
    sorted_wrt (\<lambda>s s'. stamped_rank bk s < stamped_rank bk s') (so_keys d)"
proof -
  have "so_inv False bk d"
    by (rule sorted.inv_execution [OF assms(2) sorted_build_inv(1) [OF assms(1)]])
  then have wf: "so_wf bk d" by (rule so_inv_ok)
  have "mset (so_keys d) = image_mset (\<lambda>ke. as_stamped (snd ke)) (mset (so_map d))"
    using so_wf_keys [OF wf] by (simp add: stamp_of_def [abs_def])
  then show ?thesis
    using wf by (simp add: so_wf_def so_sync_def so_rows_def a_wf_def bt_wf_def)
qed


section \<open>Sweeps\<close>

text \<open>The reference for \<open>evict\<close>: a scan of the whole map that rebuilds the index.\<close>

definition sorted_evict_scan :: "('k \<Rightarrow> 'q::linorder) \<Rightarrow> instant \<Rightarrow> (('k, 'v) sorted_cache, usize) comp" where
  "sorted_evict_scan bk now c =
     (let stale = (\<lambda>ke. case se_expiry (snd ke) of None \<Rightarrow> False | Some t \<Rightarrow> t < now);
          out = by_expiry bk (filter stale (so_map c));
          kept = filter (\<lambda>ke. \<not> stale ke) (so_map c);
          cb = so_on_evict c in
      (if all_ok cb (se_pairs out) then Returns (length out) else Panics,
       c\<lparr>so_map := kept, so_keys := map (\<lambda>ke. as_stamped (snd ke)) (by_expiry bk kept),
         so_evictions := so_evictions c + of_nat (length out),
         so_calls := so_calls c @ cb_calls cb (processed cb (se_pairs out))\<rparr>))"

text \<open>
  C19. The index makes \<open>evict\<close> cheap and changes nothing else: on a cache whose index mirrors its map,
  the sweep that detaches the expired front of the index has the result and leaves the state of a
  scan of the whole map. Exactly the entries whose expiry lies before the reading of the clock leave,
  the soonest to expire first, all of them counted before the first is reported.
\<close>

theorem sorted_evict_is_scan:
  assumes "so_wf bk c"
  shows "sorted_evict bk now c = sorted_evict_scan bk now c"
proof -
  let ?stale = "\<lambda>ke. case se_expiry (snd ke) of None \<Rightarrow> False | Some t \<Rightarrow> t < now"
  let ?out = "expired_rows bk now (so_map c)"
  let ?d = "so_gone bk ?out (heard (so_on_evict c) ?out) c"
  have rows: "so_rows bk (so_map c)" by (rule so_wf_rows [OF assms])
  have out: "?out = by_expiry bk (filter ?stale (so_map c))"
    by (simp add: expired_rows_def by_expiry_def filter_sort expired_before_def)
  have kept: "a_without_all bk ?out (so_map c) = filter (\<lambda>ke. \<not> ?stale ke) (so_map c)"
    using a_without_all_filter [of bk "so_map c" "\<lambda>ke. \<not> ?stale ke"] rows
    by (simp add: a_without_all_def out so_rows_def)
  have "so_wf bk ?d" by (rule so_wf_gone [OF assms]) (auto simp: expired_rows_def)
  then have keys: "so_keys ?d = map (\<lambda>ke. as_stamped (snd ke)) (by_expiry bk (filter (\<lambda>ke. \<not> ?stale ke) (so_map c)))"
    using so_wf_keys [of bk ?d] kept by (simp add: stamp_of_def)
  have "?d = c\<lparr>so_map := so_map ?d, so_keys := so_keys ?d, so_evictions := so_evictions ?d, so_calls := so_calls ?d\<rparr>"
    by (simp add: so_gone_def)
  then have "?d = c\<lparr>so_map := filter (\<lambda>ke. \<not> ?stale ke) (so_map c),
      so_keys := map (\<lambda>ke. as_stamped (snd ke)) (by_expiry bk (filter (\<lambda>ke. \<not> ?stale ke) (so_map c))),
      so_evictions := so_evictions c + of_nat (length ?out),
      so_calls := so_calls c @ cb_calls (so_on_evict c) (processed (so_on_evict c) (se_pairs ?out))\<rparr>"
    unfolding keys by (simp add: kept se_pairs_heard)
  then show ?thesis
    by (simp add: sorted_evict_def sorted_evict_at_apply [OF assms] sorted_evict_scan_def Let_def out)
qed

section \<open>Trims\<close>

lemma victims_sorted_take:
  assumes "bt_wf (row_rank bk) es"
  shows "victims need cutoff es = take (max need (length (filter (\<lambda>ke. expired_before cutoff (stamp_of ke)) es))) es"
  using assms
proof (induction es arbitrary: need)
  case (Cons ke es)
  let ?P = "\<lambda>ke. expired_before cutoff (stamp_of ke)"
  have "filter ?P es = []" if "\<not> ?P ke"
  proof (cases cutoff)
    case None
    then show ?thesis by (simp add: expired_before_def)
  next
    case (Some t)
    then show ?thesis
      using Cons.prems that
      by (auto simp: filter_empty_conv row_rank_def dest: less_trans simp flip: rank_below_bound [of bk])
  qed
  then show ?case using Cons by (cases need) auto
qed simp

lemma set_drop_rows:
  assumes "a_wf bk es" "set m = set es"
  shows "set (a_without_all bk (take k es) m) = set (drop k es)"
proof -
  have "distinct (map (\<lambda>ke. bk (fst ke)) (take k es @ drop k es))" using assms(1) by (simp add: a_wf_def)
  then have disj: "(\<lambda>ke. bk (fst ke)) ` set (take k es) \<inter> (\<lambda>ke. bk (fst ke)) ` set (drop k es) = {}"
    by (simp only: map_append distinct_append set_map)
  have "set m = set (take k es) \<union> set (drop k es)" by (metis append_take_drop_id assms(2) set_append)
  then show ?thesis using disj by (auto simp: a_without_all_def)
qed

text \<open>
  C20. \<open>retain_latest\<close> always comes to an end: its loop uses up the index. With a callback that returns
  normally it drops the entries at the front of the order of expiry, as many as are over \<open>n\<close> and, if
  it was asked to sweep, at least all that have expired, returns their number and keeps the others:
  those that expire last, or never.
\<close>

theorem sorted_retain_latest_effect:
  assumes "so_wf bk c" "sorted_retain_latest bk n evict now c = (r, d)"
  shows "r \<noteq> Diverges \<and> (quiet (so_on_evict c) \<longrightarrow>
    (let expired = filter (\<lambda>ke. case se_expiry (snd ke) of None \<Rightarrow> False | Some t \<Rightarrow> t < now) (so_map c);
         k = max (length (so_map c) - n) (if evict then length expired else 0) in
     r = Returns k \<and> set (so_map d) = set (drop k (by_expiry bk (so_map c))) \<and>
     so_evictions d = so_evictions c + of_nat k))"
proof -
  let ?es = "by_expiry bk (so_map c)"
  let ?cutoff = "if evict then Some now else None"
  let ?E = "filter (\<lambda>ke. case se_expiry (snd ke) of None \<Rightarrow> False | Some t \<Rightarrow> t < now) (so_map c)"
  define k where "k = max (length (so_map c) - n) (if evict then length ?E else 0)"
  let ?vs = "victims (length (so_map c) - n) ?cutoff ?es"
  have rows: "so_rows bk (so_map c)" by (rule so_wf_rows [OF assms(1)])
  note apply_eq = sorted_retain_latest_at_protecting_apply [OF assms(1), of n ?cutoff None]
  have rd: "(r, d) = sorted_retain_latest_at_protecting bk n ?cutoff None c"
    using assms(2) by (simp add: sorted_retain_latest_def sorted_retain_latest_at_def)
  have "length (filter (\<lambda>ke. expired_before ?cutoff (stamp_of ke)) ?es) = (if evict then length ?E else 0)"
    by (simp add: expired_before_def by_expiry_def filter_sort)
  then have vs: "?vs = take k ?es" using victims_sorted_take [OF bt_wf_by_expiry [OF rows]] by (simp add: k_def)
  have len: "length (take k ?es) = k" using length_filter_le [of _ "so_map c"] by (auto simp: k_def)
  have left: "set (a_without_all bk (take k ?es) (so_map c)) = set (drop k ?es)"
    using so_rows_by_expiry [OF rows] by (intro set_drop_rows) (simp_all add: so_rows_def)
  have "r \<noteq> Diverges" using rd unfolding apply_eq by (auto simp: Let_def)
  moreover have "r = Returns k \<and> d = so_gone bk (take k ?es) (take k ?es) c" if "quiet (so_on_evict c)"
    using rd unfolding apply_eq Let_def candidates_None vs len heard_quiet [OF that] by (simp add: that)
  ultimately show ?thesis unfolding Let_def k_def [symmetric] using left len by auto
qed

section \<open>Get or set\<close>





section \<open>Witnesses\<close>

definition sorted_demo_builder :: "(nat, nat) sorted_builder" where
  "sorted_demo_builder = sorted_builder_on_evict (\<lambda>k v. True)
     (sorted_builder_max_size 2 (sorted_builder_ttl 10 sorted_builder_default))"

definition sorted_demo :: "(nat, nat) sorted_cache" where
  "sorted_demo = (case sorted_build (\<lambda>_. True) 0 sorted_demo_builder of Inr c \<Rightarrow> c | Inl _ \<Rightarrow> undefined)"

lemma sorted_demo_built: "sorted_build (\<lambda>_. True) 0 sorted_demo_builder = Inr sorted_demo"
  by (simp add: sorted_demo_def sorted_demo_builder_def sorted_build_def sorted_builder_on_evict_def
      sorted_builder_max_size_def sorted_builder_ttl_def sorted_builder_default_def validate_ttl_def Let_def)


text \<open>Three insertions into a cache of two, a lookup and a sweep.\<close>

definition sorted_demo_ops :: "(nat, nat, nat, unit) sorted_op list" where
  "sorted_demo_ops = [SSet 1 100 0, SSet 2 200 5, SGet 0 7 1, SSet 3 300 8, SEvict 16]"

definition sorted_demo_end :: "(nat, nat) sorted_cache" where
  "sorted_demo_end = snd (run (sorted_exec id) sorted_demo_ops sorted_demo)"

lemma sorted_demo_execution:
  "execution (sorted_exec id) sorted_demo (fst (run (sorted_exec id) sorted_demo_ops sorted_demo)) sorted_demo_end"
  unfolding sorted_demo_end_def by (rule run_execution)


lemma sorted_demo_end_map: "map fst (so_map sorted_demo_end) = [3] \<and> sorted_cache_capacity sorted_demo_end = Some 2"
  by code_simp

theorem sorted_lockstep_witness:
  "map fst (so_map sorted_demo_end) = [3] \<and>
   mset (so_keys sorted_demo_end) = image_mset (\<lambda>ke. as_stamped (snd ke)) (mset (so_map sorted_demo_end))"
  using sorted_lockstep [OF sorted_demo_built sorted_demo_execution] sorted_demo_end_map by blast


text \<open>Two entries, the first expiring at 10 and the second at 15.\<close>

definition sorted_filled :: "(nat, nat) sorted_cache" where
  "sorted_filled = sorted_demo\<lparr>
     so_map := [(2, \<lparr>se_expiry = Some 15, se_key = 2, se_value = 200\<rparr>),
       (1, \<lparr>se_expiry = Some 10, se_key = 1, se_value = 100\<rparr>)],
     so_keys := [\<lparr>st_expiry = Some 10, st_key = Some 1\<rparr>, \<lparr>st_expiry = Some 15, st_key = Some 2\<rparr>]\<rparr>"

lemma sorted_filled_wf: "so_wf id sorted_filled"
  by (auto simp: so_wf_def so_sync_def so_rows_def a_wf_def sorted_filled_def stamped_rank_def
      stamp_of_def as_stamped_def)

lemma sorted_filled_fields:
  "so_on_evict sorted_filled = Some (\<lambda>k v. True)" "so_size_limit sorted_filled = Some 2"
  "so_ttl sorted_filled = 10" "length (so_map sorted_filled) = 2"
  by (simp_all add: sorted_filled_def sorted_demo_def sorted_demo_builder_def sorted_build_def sorted_builder_on_evict_def
      sorted_builder_max_size_def sorted_builder_ttl_def sorted_builder_default_def validate_ttl_def Let_def)

lemma sorted_filled_quiet: "quiet (so_on_evict sorted_filled)"
  by (simp add: sorted_filled_fields quiet_def)

theorem sorted_evict_is_scan_witness:
  "sorted_evict id 12 sorted_filled = sorted_evict_scan id 12 sorted_filled \<and>
   map fst (so_map (snd (sorted_evict id 12 sorted_filled))) = [2]"
  by (rule conjI, rule sorted_evict_is_scan [OF sorted_filled_wf]) code_simp

theorem sorted_retain_latest_effect_witness:
  "fst (sorted_retain_latest id 1 False 0 sorted_filled) = Returns 1 \<and>
   set (so_map (snd (sorted_retain_latest id 1 False 0 sorted_filled))) = set (drop 1 (by_expiry id (so_map sorted_filled)))"
  using sorted_retain_latest_effect [OF sorted_filled_wf prod.collapse [symmetric], of 1 False 0]
    sorted_filled_quiet sorted_filled_fields(4) by (simp add: Let_def)


end
