(* ===== verification/Concurrent.thy ===== *)
theory Concurrent
  imports State_Machine
begin

text \<open>
  Calls that run concurrently. The sharded stores are shared between threads: a call takes the lock
  of a shard, works on the shard, releases the lock, and then bumps atomic counters or runs callbacks
  without a lock. A call is therefore a \<open>proc\<close>, a sequence of atomic steps (a critical section, an
  atomic update, a callback) between which the steps of other threads may run. Run alone, it is a
  computation (\<open>run_proc\<close>). A step may have to wait for a lock that another step took (\<open>Await\<close>): run
  alone, a call that waits for a lock waits forever.
\<close>

section \<open>Sequences of atomic steps\<close>

datatype ('s, 'r) proc =
    Done "'r outcome"
  | Atomic "'s \<Rightarrow> ('s, 'r) proc \<times> 's"
  | Await "'s \<Rightarrow> bool" "'s \<Rightarrow> ('s, 'r) proc \<times> 's"

primrec run_proc :: "('s, 'r) proc \<Rightarrow> ('s, 'r) comp" where
  "run_proc (Done r) = (\<lambda>s. (r, s))"
| "run_proc (Atomic f) = (\<lambda>s. case (map_prod run_proc id \<circ> f) s of (m, t) \<Rightarrow> m t)"
| "run_proc (Await g f) = (\<lambda>s. if g s then case (map_prod run_proc id \<circ> f) s of (m, t) \<Rightarrow> m t else (Diverges, s))"

definition pret :: "'r \<Rightarrow> ('s, 'r) proc" where
  "pret x = Done (Returns x)"

text \<open>One atomic step, and one that waits until the guard holds.\<close>

definition atomically :: "('s, 'r) comp \<Rightarrow> ('s, 'r) proc" where
  "atomically m = Atomic (\<lambda>s. map_prod Done id (m s))"

definition await_then :: "('s \<Rightarrow> bool) \<Rightarrow> ('s, 'r) comp \<Rightarrow> ('s, 'r) proc" where
  "await_then g m = Await g (\<lambda>s. map_prod Done id (m s))"

primrec pbind :: "('s, 'a) proc \<Rightarrow> ('a \<Rightarrow> ('s, 'b) proc) \<Rightarrow> ('s, 'b) proc" where
  "pbind (Done r) k = (case r of Returns x \<Rightarrow> k x | Panics \<Rightarrow> Done Panics | Diverges \<Rightarrow> Done Diverges)"
| "pbind (Atomic f) k = Atomic (map_prod (\<lambda>p. pbind p k) id \<circ> f)"
| "pbind (Await g f) k = Await g (map_prod (\<lambda>p. pbind p k) id \<circ> f)"

text \<open>What the drop of a guard does when a call ends, by a return or by a panic.\<close>

primrec pfinal :: "('s, 'r) proc \<Rightarrow> ('s \<Rightarrow> 's) \<Rightarrow> ('s, 'r) proc" where
  "pfinal (Done r) release = Atomic (\<lambda>s. (Done r, release s))"
| "pfinal (Atomic f) release = Atomic (map_prod (\<lambda>p. pfinal p release) id \<circ> f)"
| "pfinal (Await g f) release = Await g (map_prod (\<lambda>p. pfinal p release) id \<circ> f)"

primrec pforeach :: "'a list \<Rightarrow> ('a \<Rightarrow> ('s, unit) proc) \<Rightarrow> ('s, unit) proc" where
  "pforeach [] body = pret ()"
| "pforeach (x # xs) body = pbind (body x) (\<lambda>_. pforeach xs body)"

definition presult :: "('s, 'a) proc \<Rightarrow> ('a \<Rightarrow> 'r) \<Rightarrow> ('s, 'r) proc" where
  "presult p f = pbind p (\<lambda>x. pret (f x))"

text \<open>A loop that carries an accumulator.\<close>

primrec pfold :: "'a list \<Rightarrow> ('a \<Rightarrow> 'b \<Rightarrow> ('s, 'b) proc) \<Rightarrow> 'b \<Rightarrow> ('s, 'b) proc" where
  "pfold [] body acc = pret acc"
| "pfold (x # xs) body acc = pbind (body x acc) (pfold xs body)"

lemma run_proc_Atomic: "run_proc (Atomic f) s = run_proc (fst (f s)) (snd (f s))"
  by (cases "f s") simp

lemma run_proc_Await: "run_proc (Await g f) s = (if g s then run_proc (fst (f s)) (snd (f s)) else (Diverges, s))"
  by (cases "f s") simp

lemma run_pret [simp]: "run_proc (pret x) = ret x"
  by (simp add: pret_def ret_def fun_eq_iff)

lemma run_atomically [simp]: "run_proc (atomically m) = m"
  by (simp add: atomically_def fun_eq_iff case_prod_beta)

lemma run_pbind [simp]: "run_proc (pbind p k) = andthen (run_proc p) (\<lambda>x. run_proc (k x))"
proof (induction p)
  case (Done r)
  then show ?case by (cases r) (simp_all add: fun_eq_iff andthen_apply)
next
  case (Atomic f)
  have "run_proc (pbind (fst (f s)) k) = andthen (run_proc (fst (f s))) (\<lambda>x. run_proc (k x))" for s
    by (rule Atomic.IH [of "f s" "fst (f s)"]) (auto simp: fsts.simps)
  then show ?case
    by (simp add: fun_eq_iff case_prod_beta andthen_apply)
next
  case (Await g f)
  have "run_proc (pbind (fst (f s)) k) = andthen (run_proc (fst (f s))) (\<lambda>x. run_proc (k x))" for s
    by (rule Await.IH [of "f s" "fst (f s)"]) (auto simp: fsts.simps)
  then show ?case
    unfolding pbind.simps fun_eq_iff andthen_apply run_proc_Await by (simp add: andthen_apply)
qed

lemma run_pforeach [simp]: "run_proc (pforeach xs body) = foreach xs (\<lambda>x. run_proc (body x))"
  by (induction xs) simp_all

lemma pbind_pret [simp]: "pbind (pret x) k = k x"
  by (simp add: pret_def)

lemma pbind_assoc: "pbind (pbind p f) g = pbind p (\<lambda>x. pbind (f x) g)"
proof (induction p)
  case (Done r)
  then show ?case by (cases r) simp_all
next
  case (Atomic h)
  have "pbind (pbind (fst (h s)) f) g = pbind (fst (h s)) (\<lambda>x. pbind (f x) g)" for s
    by (rule Atomic.IH [of "h s" "fst (h s)"]) (auto simp: fsts.simps)
  then show ?case by (simp add: fun_eq_iff map_prod_def case_prod_beta)
next
  case (Await b h)
  have "pbind (pbind (fst (h s)) f) g = pbind (fst (h s)) (\<lambda>x. pbind (f x) g)" for s
    by (rule Await.IH [of "h s" "fst (h s)"]) (auto simp: fsts.simps)
  then show ?case by (simp add: fun_eq_iff map_prod_def case_prod_beta)
qed

lemma pbind_atomically: "pbind (atomically m) k = Atomic (\<lambda>s. (pbind (Done (fst (m s))) k, snd (m s)))"
  by (simp add: atomically_def fun_eq_iff map_prod_def case_prod_beta)

lemma pbind_await_then: "pbind (await_then g m) k = Await g (\<lambda>s. (pbind (Done (fst (m s))) k, snd (m s)))"
  by (simp add: await_then_def fun_eq_iff map_prod_def case_prod_beta)

section \<open>Threads\<close>

text \<open>
  A thread issues its calls one after the other: \<open>th_now\<close> is the call it is in and what is left of
  it, \<open>th_todo\<close> the calls to come, \<open>th_done\<close> the calls it has made with their outcomes. The scheduler
  may let any thread make the next step.
\<close>

record ('s, 'op, 'r) thread =
  th_now :: "('op \<times> ('s, 'r) proc) option"
  th_todo :: "'op list"
  th_done :: "('op \<times> 'r outcome) list"

definition fresh_thread :: "'op list \<Rightarrow> ('s, 'op, 'r) thread" where
  "fresh_thread ops = \<lparr>th_now = None, th_todo = ops, th_done = []\<rparr>"

inductive thread_step :: "('op \<Rightarrow> ('s, 'r) proc) \<Rightarrow> ('s, 'op, 'r) thread \<times> 's
    \<Rightarrow> ('s, 'op, 'r) thread \<times> 's \<Rightarrow> bool" for body :: "'op \<Rightarrow> ('s, 'r) proc" where
  invoke: "th_now t = None \<Longrightarrow> th_todo t = op # ops \<Longrightarrow>
    thread_step body (t, s) (t\<lparr>th_now := Some (op, body op), th_todo := ops\<rparr>, s)"
| step: "th_now t = Some (op, Atomic f) \<Longrightarrow> f s = (p, s') \<Longrightarrow>
    thread_step body (t, s) (t\<lparr>th_now := Some (op, p)\<rparr>, s')"
| wake: "th_now t = Some (op, Await g f) \<Longrightarrow> g s \<Longrightarrow> f s = (p, s') \<Longrightarrow>
    thread_step body (t, s) (t\<lparr>th_now := Some (op, p)\<rparr>, s')"
| return: "th_now t = Some (op, Done r) \<Longrightarrow>
    thread_step body (t, s) (t\<lparr>th_now := None, th_done := th_done t @ [(op, r)]\<rparr>, s)"

inductive interleaving :: "('op \<Rightarrow> ('s, 'r) proc) \<Rightarrow> ('s, 'op, 'r) thread list \<times> 's
    \<Rightarrow> ('s, 'op, 'r) thread list \<times> 's \<Rightarrow> bool" for body :: "'op \<Rightarrow> ('s, 'r) proc" and c0 where
  start: "interleaving body c0 c0"
| next_step: "interleaving body c0 (ts, s) \<Longrightarrow> i < length ts \<Longrightarrow>
    thread_step body (ts ! i, s) (t, s') \<Longrightarrow> interleaving body c0 (ts[i := t], s')"

inductive_cases thread_stepE: "thread_step body (t, s) (t', s')"

text \<open>
  A scheduler: the list says which thread makes each step; a thread with nothing to do, or that waits
  for a lock, makes none.
\<close>

fun schedule :: "('op \<Rightarrow> ('s, 'r) proc) \<Rightarrow> nat list \<Rightarrow> ('s, 'op, 'r) thread list \<times> 's
    \<Rightarrow> ('s, 'op, 'r) thread list \<times> 's" where
  "schedule body [] c = c"
| "schedule body (i # is) (ts, s) = schedule body is
     (if i < length ts then
        (case th_now (ts ! i) of
           None \<Rightarrow> (case th_todo (ts ! i) of
               [] \<Rightarrow> (ts, s)
             | op # ops \<Rightarrow> (ts[i := (ts ! i)\<lparr>th_now := Some (op, body op), th_todo := ops\<rparr>], s))
         | Some (op, Atomic f) \<Rightarrow>
             (case f s of (p, s') \<Rightarrow> (ts[i := (ts ! i)\<lparr>th_now := Some (op, p)\<rparr>], s'))
         | Some (op, Await g f) \<Rightarrow>
             (if g s then case f s of (p, s') \<Rightarrow> (ts[i := (ts ! i)\<lparr>th_now := Some (op, p)\<rparr>], s') else (ts, s))
         | Some (op, Done r) \<Rightarrow>
             (ts[i := (ts ! i)\<lparr>th_now := None, th_done := th_done (ts ! i) @ [(op, r)]\<rparr>], s))
      else (ts, s))"

lemma schedule_threads: "length (fst (schedule body is c)) = length (fst c)"
proof (induction body "is" c rule: schedule.induct)
  case (2 body i "is" ts s)
  then show ?case
    by (simp only: schedule.simps) (simp split: option.split list.split proc.split prod.split)
qed simp

lemma schedule_interleaving: "interleaving body c0 c \<Longrightarrow> interleaving body c0 (schedule body is c)"
proof (induction body "is" c rule: schedule.induct)
  case (2 body i "is" ts s)
  have "interleaving body c0
     (if i < length ts then
        (case th_now (ts ! i) of
           None \<Rightarrow> (case th_todo (ts ! i) of
               [] \<Rightarrow> (ts, s)
             | op # ops \<Rightarrow> (ts[i := (ts ! i)\<lparr>th_now := Some (op, body op), th_todo := ops\<rparr>], s))
         | Some (op, Atomic f) \<Rightarrow>
             (case f s of (p, s') \<Rightarrow> (ts[i := (ts ! i)\<lparr>th_now := Some (op, p)\<rparr>], s'))
         | Some (op, Await g f) \<Rightarrow>
             (if g s then case f s of (p, s') \<Rightarrow> (ts[i := (ts ! i)\<lparr>th_now := Some (op, p)\<rparr>], s') else (ts, s))
         | Some (op, Done r) \<Rightarrow>
             (ts[i := (ts ! i)\<lparr>th_now := None, th_done := th_done (ts ! i) @ [(op, r)]\<rparr>], s))
      else (ts, s))"
    using "2.prems"
    by (auto split: option.split list.split proc.split prod.split
        intro!: interleaving.next_step intro: thread_step.intros)
  then show ?case by (simp only: schedule.simps "2.IH")
qed simp

section \<open>Invariants under every interleaving\<close>

text \<open>
  Every step of the call keeps \<open>I\<close>, whatever the other threads do to the state between the steps as
  long as they keep \<open>I\<close>, and if the call ends, its outcome satisfies \<open>Q\<close>.
\<close>

inductive safe :: "('s \<Rightarrow> bool) \<Rightarrow> ('r outcome \<Rightarrow> bool) \<Rightarrow> ('s, 'r) proc \<Rightarrow> bool"
  for I :: "'s \<Rightarrow> bool" and Q :: "'r outcome \<Rightarrow> bool" where
  finished: "Q r \<Longrightarrow> safe I Q (Done r)"
| step: "(\<And>s. I s \<Longrightarrow> I (snd (f s)) \<and> safe I Q (fst (f s))) \<Longrightarrow> safe I Q (Atomic f)"
| wait: "(\<And>s. I s \<Longrightarrow> g s \<Longrightarrow> I (snd (f s)) \<and> safe I Q (fst (f s))) \<Longrightarrow> safe I Q (Await g f)"

inductive_simps safe_simps [simp]: "safe I Q (Done r)" "safe I Q (Atomic f)" "safe I Q (Await g f)"

named_theorems safe_rules

lemma safe_mono: "safe I Q p \<Longrightarrow> (\<And>r. Q r \<Longrightarrow> Q' r) \<Longrightarrow> safe I Q' p"
  by (induction rule: safe.induct) auto

lemma safe_pret [safe_rules]: "Q (Returns x) \<Longrightarrow> safe I Q (pret x)"
  by (simp add: pret_def)

lemma safe_atomically: "(\<And>s. I s \<Longrightarrow> I (snd (m s)) \<and> Q (fst (m s))) \<Longrightarrow> safe I Q (atomically m)"
  by (simp add: atomically_def)

lemma safe_await_then: "(\<And>s. I s \<Longrightarrow> g s \<Longrightarrow> I (snd (m s)) \<and> Q (fst (m s))) \<Longrightarrow> safe I Q (await_then g m)"
  by (simp add: await_then_def)

lemma safe_pbind:
  assumes "safe I Q p" "\<And>x. Q (Returns x) \<Longrightarrow> safe I R (k x)"
    and "Q Panics \<Longrightarrow> R Panics" "Q Diverges \<Longrightarrow> R Diverges"
  shows "safe I R (pbind p k)"
  using assms(1) by (induction rule: safe.induct) (auto simp: assms(2-4) split: outcome.split)

lemma safe_pfinal: "safe I Q p \<Longrightarrow> (\<And>s. I s \<Longrightarrow> I (release s)) \<Longrightarrow> safe I Q (pfinal p release)"
  by (induction rule: safe.induct) auto

lemma safe_keeps [safe_rules]: "keeps I m \<Longrightarrow> safe I (\<lambda>_. True) (atomically m)"
  by (rule safe_atomically) (simp add: keepsD)

lemma safe_pbind_any [safe_rules]:
  "safe I (\<lambda>_. True) p \<Longrightarrow> (\<And>x. safe I (\<lambda>_. True) (k x)) \<Longrightarrow> safe I (\<lambda>_. True) (pbind p k)"
  by (erule safe_pbind) simp_all

lemma safe_pforeach [safe_rules]:
  "(\<And>x. x \<in> set xs \<Longrightarrow> safe I (\<lambda>_. True) (body x)) \<Longrightarrow> safe I (\<lambda>_. True) (pforeach xs body)"
  by (induction xs) (auto intro: safe_rules)

lemma safe_pfold [safe_rules]:
  "(\<And>x acc. x \<in> set xs \<Longrightarrow> safe I (\<lambda>_. True) (body x acc)) \<Longrightarrow> safe I (\<lambda>_. True) (pfold xs body acc)"
  by (induction xs arbitrary: acc) (auto intro: safe_rules)

lemma safe_run:
  "safe I Q p \<Longrightarrow> I s \<Longrightarrow> I (snd (run_proc p s)) \<and> (Q (fst (run_proc p s)) \<or> fst (run_proc p s) = Diverges)"
  by (induction arbitrary: s rule: safe.induct) (auto simp: run_proc_Atomic run_proc_Await simp del: run_proc.simps(2,3))

text \<open>
  The contract of calls that keep an invariant: then they keep it in every interleaving, and every
  call that has returned has an outcome that its contract allows.
\<close>

definition thread_ok :: "('s \<Rightarrow> bool) \<Rightarrow> ('op \<Rightarrow> 'r outcome \<Rightarrow> bool) \<Rightarrow> ('s, 'op, 'r) thread \<Rightarrow> bool" where
  "thread_ok I Q t \<longleftrightarrow> list_all (\<lambda>(op, r). Q op r) (th_done t) \<and>
     (case th_now t of None \<Rightarrow> True | Some (op, p) \<Rightarrow> safe I (Q op) p)"

locale safe_calls =
  fixes body :: "'op \<Rightarrow> ('s, 'r) proc"
    and I :: "'s \<Rightarrow> bool"
    and Q :: "'op \<Rightarrow> 'r outcome \<Rightarrow> bool"
  assumes safe: "safe I (Q op) (body op)"
begin

lemma thread_step_safe:
  assumes "thread_step body (t, s) (t', s')" "I s" "thread_ok I Q t"
  shows "I s' \<and> thread_ok I Q t'"
  using assms(1)
proof (cases rule: thread_step.cases)
  case (invoke op ops)
  then show ?thesis using assms(2,3) safe by (simp add: thread_ok_def)
next
  case (step op f p)
  then have "safe I (Q op) (Atomic f)" using assms(3) by (simp add: thread_ok_def)
  then have "I (snd (f s)) \<and> safe I (Q op) (fst (f s))" using assms(2) by simp
  then show ?thesis using step assms(3) by (simp add: thread_ok_def)
next
  case (wake op g f p)
  then have "safe I (Q op) (Await g f)" using assms(3) by (simp add: thread_ok_def)
  then have "I (snd (f s)) \<and> safe I (Q op) (fst (f s))" using assms(2) wake(3) by simp
  then show ?thesis using wake assms(3) by (simp add: thread_ok_def)
next
  case (return op r)
  then show ?thesis using assms by (simp add: thread_ok_def)
qed

lemma interleaving_safe:
  assumes "interleaving body c0 c" "c0 = (map fresh_thread opss, s0)" "I s0"
  shows "I (snd c) \<and> list_all (thread_ok I Q) (fst c)"
  using assms
proof (induction rule: interleaving.induct)
  case start
  then show ?case by (simp add: fresh_thread_def thread_ok_def list_all_length)
next
  case (next_step ts s i t s')
  then have "I s' \<and> thread_ok I Q t"
    by (intro thread_step_safe [of "ts ! i" s]) (simp_all add: list_all_length)
  then show ?case using next_step.IH [OF next_step.prems] 
    by (auto simp: list_all_iff dest!: set_update_subset_insert [THEN subsetD])
qed

lemma holds: "interleaving body (map fresh_thread opss, s0) (ts, s) \<Longrightarrow> I s0 \<Longrightarrow> I s"
  using interleaving_safe [OF _ refl] by fastforce

lemma finished_calls:
  assumes "interleaving body (map fresh_thread opss, s0) (ts, s)" "I s0" "t \<in> set ts" "(op, r) \<in> set (th_done t)"
  shows "Q op r"
  using interleaving_safe [OF assms(1) refl assms(2)] assms(3,4) by (auto simp: list_all_iff thread_ok_def)

end

section \<open>Linearizability\<close>

text \<open>
  What is left of a call after its critical section: its outcome is settled, and its steps change
  nothing that \<open>view\<close> shows.
\<close>

inductive settled :: "('s \<Rightarrow> bool) \<Rightarrow> ('s \<Rightarrow> 'v) \<Rightarrow> 'r outcome \<Rightarrow> ('s, 'r) proc \<Rightarrow> bool"
  for wf :: "'s \<Rightarrow> bool" and view :: "'s \<Rightarrow> 'v" and r :: "'r outcome" where
  finished: "settled wf view r (Done r)"
| step: "(\<And>s. wf s \<Longrightarrow> wf (snd (f s)) \<and> view (snd (f s)) = view s \<and> settled wf view r (fst (f s))) \<Longrightarrow>
    settled wf view r (Atomic f)"
| wait: "(\<And>s. wf s \<Longrightarrow> g s \<Longrightarrow> wf (snd (f s)) \<and> view (snd (f s)) = view s \<and> settled wf view r (fst (f s))) \<Longrightarrow>
    settled wf view r (Await g f)"

inductive_simps settled_simps [simp]:
  "settled ok view r (Done r')" "settled ok view r (Atomic f)" "settled ok view r (Await g f)"

lemma settled_pbind:
  assumes "\<And>s. ok s \<Longrightarrow> fst (m s) = out \<and> ok (snd (m s)) \<and> view (snd (m s)) = view s"
    and "settled ok view r (pbind (Done out) k)"
  shows "settled ok view r (pbind (atomically m) k)"
  unfolding pbind_atomically by (rule settled.step) (use assms in auto)

lemma commits:
  assumes "p = pbind (atomically m) k"
    and "\<And>s. ok s \<Longrightarrow> ok (snd (m s)) \<and> view (snd (m s)) = snd (sp (view s)) \<and>
      settled ok view (fst (sp (view s))) (pbind (Done (fst (m s))) k)"
  shows "\<exists>f. p = Atomic f \<and> (\<forall>s. ok s \<longrightarrow> ok (snd (f s)) \<and>
    view (snd (f s)) = snd (sp (view s)) \<and> settled ok view (fst (sp (view s))) (fst (f s)))"
  unfolding assms(1) pbind_atomically
  by (rule exI, rule conjI [OF refl], intro allI impI, drule assms(2), simp only: fst_conv snd_conv simp_thms)

text \<open>
  The history \<open>h\<close> of a thread: the calls it has made and, if the call it is in has committed, that
  call with its settled outcome.
\<close>

definition history_ok :: "('op \<Rightarrow> ('s, 'r) proc) \<Rightarrow> ('s \<Rightarrow> bool) \<Rightarrow> ('s \<Rightarrow> 'v) \<Rightarrow> ('s, 'op, 'r) thread
    \<Rightarrow> ('op \<times> 'r outcome) list \<Rightarrow> bool" where
  "history_ok body ok view t h \<longleftrightarrow> (case th_now t of
       None \<Rightarrow> h = th_done t
     | Some (op, p) \<Rightarrow> p = body op \<and> h = th_done t \<or> (\<exists>r. settled ok view r p \<and> h = th_done t @ [(op, r)]))"

text \<open>
  The contract of a call: its first step does to the view of the state what the specification
  \<open>spec\<close> of the operation does, and settles the outcome that the specification gives.
\<close>

locale linearizable =
  fixes body :: "'op \<Rightarrow> ('s, 'r) proc"
    and spec :: "'op \<Rightarrow> ('v, 'r) comp"
    and wf :: "'s \<Rightarrow> bool"
    and view :: "'s \<Rightarrow> 'v"
  assumes commit: "\<exists>f. body op = Atomic f \<and> (\<forall>s. wf s \<longrightarrow> wf (snd (f s)) \<and>
    view (snd (f s)) = snd (spec op (view s)) \<and> settled wf view (fst (spec op (view s))) (fst (f s)))"
begin

lemma thread_step_history:
  assumes "thread_step body (t, s) (t', s')" "wf s" "history_ok body wf view t h"
  shows "wf s' \<and> (view s' = view s \<and> history_ok body wf view t' h \<or>
    (\<exists>op. history_ok body wf view t' (h @ [(op, fst (spec op (view s)))]) \<and> view s' = snd (spec op (view s))))"
  using assms(1)
proof (cases rule: thread_step.cases)
  case (invoke op ops)
  then show ?thesis using assms(2,3) by (simp add: history_ok_def)
next
  case (step op f p)
  obtain g where g: "body op = Atomic g" "\<And>s. wf s \<Longrightarrow> wf (snd (g s)) \<and>
      view (snd (g s)) = snd (spec op (view s)) \<and> settled wf view (fst (spec op (view s))) (fst (g s))"
    using commit [of op] by blast
  from assms(3) step consider (uncommitted) "Atomic f = body op" "h = th_done t"
    | (committed) r where "settled wf view r (Atomic f)" "h = th_done t @ [(op, r)]"
    by (auto simp: history_ok_def)
  then show ?thesis
  proof cases
    case uncommitted
    then have "f = g" using g(1) by simp
    then have "wf s'" "view s' = snd (spec op (view s))" "settled wf view (fst (spec op (view s))) p"
      using g(2) [OF assms(2)] step by simp_all
    moreover from this have "history_ok body wf view t' (h @ [(op, fst (spec op (view s)))])"
      using step uncommitted by (auto simp: history_ok_def)
    ultimately show ?thesis by blast
  next
    case committed
    have "wf (snd (f s)) \<and> view (snd (f s)) = view s \<and> settled wf view r (fst (f s))"
      using committed(1) assms(2) by (auto elim: settled.cases)
    then have "wf s'" "view s' = view s" "settled wf view r p" using step by simp_all
    moreover from this have "history_ok body wf view t' h"
      using step committed by (auto simp: history_ok_def)
    ultimately show ?thesis by blast
  qed
next
  case (wake op b f p)
  have "Await b f \<noteq> body op" using commit [of op] by auto
  then obtain r where r: "settled wf view r (Await b f)" "h = th_done t @ [(op, r)]"
    using assms(3) wake by (auto simp: history_ok_def)
  have "wf (snd (f s)) \<and> view (snd (f s)) = view s \<and> settled wf view r (fst (f s))"
    using r(1) assms(2) wake by (auto elim: settled.cases)
  then have "wf s'" "view s' = view s" "settled wf view r p" using wake by simp_all
  moreover from this have "history_ok body wf view t' h"
    using wake r by (auto simp: history_ok_def)
  ultimately show ?thesis by blast
next
  case (return op r)
  have "Done r \<noteq> body op" using commit [of op] by auto
  then show ?thesis using return assms(2,3) by (auto simp: history_ok_def)
qed

lemma interleaving_history:
  assumes "interleaving body c0 c" "c0 = (map fresh_thread opss, s0)" "wf s0"
  shows "wf (snd c) \<and> length (fst c) = length opss \<and> (\<exists>tr. execution spec (view s0) (map snd tr) (view (snd c)) \<and>
    (\<forall>i < length (fst c). history_ok body wf view (fst c ! i) (map snd (filter (\<lambda>x. fst x = i) tr))))"
  using assms
proof (induction rule: interleaving.induct)
  case start
  then show ?case
    by (intro conjI exI [of _ "[]"]) (simp_all add: history_ok_def fresh_thread_def)
next
  case (next_step ts s i t s')
  then obtain tr where tr: "execution spec (view s0) (map snd tr) (view s)"
      "\<And>j. j < length ts \<Longrightarrow> history_ok body wf view (ts ! j) (map snd (filter (\<lambda>x. fst x = j) tr))"
    and wf: "wf s" "length ts = length opss" by auto
  let ?h = "map snd (filter (\<lambda>x. fst x = i) tr)"
  from thread_step_history [OF next_step.hyps(3) wf(1) tr(2) [OF next_step.hyps(2)]]
  consider (silent) "wf s'" "view s' = view s" "history_ok body wf view t ?h"
    | (commit) op where "wf s'" "history_ok body wf view t (?h @ [(op, fst (spec op (view s)))])" "view s' = snd (spec op (view s))"
    by blast
  then show ?case
  proof cases
    case silent
    have "history_ok body wf view (ts[i := t] ! j) (map snd (filter (\<lambda>x. fst x = j) tr))" if "j < length ts" for j
      using that tr(2) silent(3) next_step.hyps(2) by (cases "j = i") auto
    then show ?thesis using silent tr(1) wf by auto
  next
    case commit
    let ?tr = "tr @ [(i, op, fst (spec op (view s)))]"
    have "execution spec (view s0) (map snd ?tr) (view s')"
      using execution.call [OF tr(1), of op] commit(3) by (simp add: prod_eq_iff)
    moreover have "history_ok body wf view (ts[i := t] ! j) (map snd (filter (\<lambda>x. fst x = j) ?tr))" if "j < length ts" for j
      using that tr(2) commit(2) next_step.hyps(2) by (cases "j = i") auto
    ultimately show ?thesis using commit(1) wf by (intro conjI exI [of _ ?tr]) auto
  qed
qed

lemma linearizes:
  assumes "interleaving body (map fresh_thread opss, s0) (ts, s)" "wf s0" "\<forall>t\<in>set ts. th_now t = None"
  shows "\<exists>tr. execution spec (view s0) (map snd tr) (view s) \<and>
    (\<forall>i < length ts. map snd (filter (\<lambda>x. fst x = i) tr) = th_done (ts ! i))"
  using interleaving_history [OF assms(1) refl assms(2)] assms(3) by (auto simp: history_ok_def)

end

end
