(* ===== verification/Sharded_Common.thy ===== *)
theory Sharded_Common
  imports Store_Common Concurrent
begin

unbundle bit_operations_syntax

text \<open>
  \<open>src/stores/sharded/mod.rs\<close>: what the sharded stores share. A store is a boxed slice of shards,
  each a lock around an inner store with its own counters. The number of shards is a power of two and
  a key goes to the shard that the upper half of its hash selects under a mask. \<open>parallelism\<close> is what
  \<open>std::thread::available_parallelism\<close> reports, if it succeeds.
\<close>

record 's shard =
  sh_store :: 's
  sh_hits :: u64
  sh_misses :: u64
  sh_evictions :: u64

definition shard_new :: "'s \<Rightarrow> 's shard" where
  "shard_new store = \<lparr>sh_store = store, sh_hits = 0, sh_misses = 0, sh_evictions = 0\<rparr>"

section \<open>Arithmetic on \<open>usize\<close>\<close>

text \<open>The smallest power of two at or above \<open>n\<close>: doubling \<open>n\<close> times is enough, as \<open>n < 2 ^ n\<close>.\<close>

fun doubled :: "nat \<Rightarrow> nat \<Rightarrow> nat \<Rightarrow> nat" where
  "doubled 0 p n = p"
| "doubled (Suc fuel) p n = (if n \<le> p then p else doubled fuel (2 * p) n)"

definition next_power_of_two :: "usize \<Rightarrow> usize" where
  "next_power_of_two n = doubled n 1 n"

definition usize_checked_next_power_of_two :: "usize \<Rightarrow> usize option" where
  "usize_checked_next_power_of_two n =
     (if next_power_of_two n \<le> usize_max then Some (next_power_of_two n) else None)"

definition usize_clamp :: "usize \<Rightarrow> usize \<Rightarrow> usize \<Rightarrow> usize" where
  "usize_clamp lo hi x = (if x < lo then lo else if x > hi then hi else x)"

definition usize_div_ceil :: "usize \<Rightarrow> usize \<Rightarrow> usize" where
  "usize_div_ceil a b = (let d = a div b in if a mod b > 0 then d + 1 else d)"

definition usize_saturating_mul :: "usize \<Rightarrow> usize \<Rightarrow> usize" where
  "usize_saturating_mul a b = min usize_max (a * b)"

text \<open>For evaluation the comparisons with the largest \<open>usize\<close> are made on integers.\<close>

lemma usize_checked_next_power_of_two_code [code]:
  "usize_checked_next_power_of_two n = (let p = next_power_of_two n in
     if int p \<le> 18446744073709551615 then Some p else None)"
  by (simp add: usize_checked_next_power_of_two_def usize_max_def Let_def)

lemma usize_saturating_mul_code [code]:
  "usize_saturating_mul a b = (let m = int a * int b in if m \<le> 18446744073709551615 then nat m else usize_max)"
  by (simp add: usize_saturating_mul_def usize_max_def Let_def min_def nat_mult_distrib flip: of_nat_mult)

section \<open>Shard counts and capacities\<close>

definition default_shard_count :: "usize option \<Rightarrow> usize" where
  "default_shard_count parallelism =
     (let n = usize_saturating_mul (case parallelism of Some n \<Rightarrow> n | None \<Rightarrow> 4) 4
      in next_power_of_two (usize_clamp 8 1024 n))"

definition default_shard_count_for_capacity :: "usize option \<Rightarrow> usize option \<Rightarrow> usize" where
  "default_shard_count_for_capacity parallelism max_size = (case max_size of
       Some n \<Rightarrow> usize_clamp 1 (default_shard_count parallelism) (next_power_of_two (n div 16))
     | None \<Rightarrow> default_shard_count parallelism)"

definition checked_per_shard_cap_from_total :: "usize \<Rightarrow> usize \<Rightarrow> set_max_size_error + usize \<times> usize" where
  "checked_per_shard_cap_from_total tot n_shards =
     (let per_shard = usize_div_ceil tot n_shards;
          per_shard = (if n_shards > 1 then max per_shard 16 else per_shard)
      in (case usize_checked_mul n_shards per_shard of
            None \<Rightarrow> Inl CapacityOverflow
          | Some total_cap \<Rightarrow> Inr (per_shard, total_cap)))"

text \<open>\<open>expect\<close> on the checked division: \<open>None\<close> is its panic.\<close>

definition per_shard_cap_from_total :: "usize \<Rightarrow> usize \<Rightarrow> (usize \<times> usize) option" where
  "per_shard_cap_from_total tot n_shards =
     (case checked_per_shard_cap_from_total tot n_shards of Inl _ \<Rightarrow> None | Inr caps \<Rightarrow> Some caps)"

definition checked_shard_count :: "usize option \<Rightarrow> usize option \<Rightarrow> build_error + usize" where
  "checked_shard_count parallelism shards =
     (if shards = Some 0 then Inl (InvalidValue ''shards'' ''shard count must be >= 1'')
      else (case usize_checked_next_power_of_two
                (case shards of Some n \<Rightarrow> n | None \<Rightarrow> default_shard_count parallelism) of
              None \<Rightarrow> Inl (InvalidValue ''shards'' ''rounded shard count overflows usize'')
            | Some n \<Rightarrow> Inr n))"

definition shard_index :: "u64 \<Rightarrow> usize \<Rightarrow> usize" where
  "shard_index hash shard_mask = unat (drop_bit 32 hash) AND shard_mask"

section \<open>Lifetimes as nanoseconds\<close>

definition encode_ttl :: "duration \<Rightarrow> u64" where
  "encode_ttl ttl = of_nat (min ttl (2 ^ 64 - 1))"

lemma encode_ttl_code [code]:
  "encode_ttl ttl = (if int ttl \<le> 18446744073709551615 then of_nat ttl else 18446744073709551615)"
proof (cases "int ttl \<le> 18446744073709551615")
  case False
  then have "min ttl (2 ^ 64 - 1) = 18446744073709551615" by (simp add: min_def)
  then show ?thesis using False by (simp add: encode_ttl_def)
qed (simp add: encode_ttl_def min_def)

definition decode_ttl :: "u64 \<Rightarrow> duration option" where
  "decode_ttl nanos = (if nanos = 0 then None else Some (unat nanos))"

section \<open>Powers of two\<close>

lemma doubled_power:
  assumes "p = 2 ^ k" "n \<le> p * 2 ^ fuel"
  shows "(\<exists>j. doubled fuel p n = 2 ^ j) \<and> n \<le> doubled fuel p n \<and> (doubled fuel p n < 2 * n \<or> doubled fuel p n = p)"
  using assms
proof (induction fuel arbitrary: p k)
  case (Suc fuel)
  show ?case
  proof (cases "n \<le> p")
    case False
    have "2 * p = 2 ^ Suc k" "n \<le> 2 * p * 2 ^ fuel" using Suc.prems by simp_all
    then show ?thesis using Suc.IH [of "2 * p" "Suc k"] False by auto
  qed (use Suc.prems in auto)
qed auto

lemma next_power_of_two:
  "\<exists>k. next_power_of_two n = 2 ^ k" "n \<le> next_power_of_two n" "0 < next_power_of_two n"
  "next_power_of_two n < 2 * n \<or> next_power_of_two n = 1"
proof -
  have "n \<le> 1 * 2 ^ n" by (simp add: less_imp_le)
  note d = doubled_power [of 1 0 n n, OF _ this]
  show "\<exists>k. next_power_of_two n = 2 ^ k" "n \<le> next_power_of_two n"
    "next_power_of_two n < 2 * n \<or> next_power_of_two n = 1"
    using d by (auto simp: next_power_of_two_def)
  then show "0 < next_power_of_two n" by auto
qed

lemma doubled_eq_power:
  "doubled fuel (2 ^ j) (2 ^ k) = 2 ^ max j (min k (j + fuel))"
proof (induction fuel arbitrary: j)
  case (Suc fuel)
  have "(2 :: nat) * 2 ^ j = 2 ^ Suc j" by simp
  then show ?case using Suc.IH [of "Suc j"] by (auto simp: max_def min_def simp del: power_Suc)
qed (simp add: max_def)

lemma next_power_of_two_power [simp]: "next_power_of_two (2 ^ k) = 2 ^ k"
  using doubled_eq_power [of "2 ^ k" 0 k] by (simp add: next_power_of_two_def min_def)

lemma default_shard_count_power:
  "\<exists>k. default_shard_count parallelism = 2 ^ k" "default_shard_count parallelism \<le> 1024"
    "8 \<le> default_shard_count parallelism"
proof -
  let ?n = "usize_clamp 8 1024 (usize_saturating_mul (case parallelism of Some n \<Rightarrow> n | None \<Rightarrow> 4) 4)"
  have n: "8 \<le> ?n" "?n \<le> 1024" by (auto simp: usize_clamp_def)
  show pow: "\<exists>k. default_shard_count parallelism = 2 ^ k"
    using next_power_of_two(1) by (simp add: default_shard_count_def Let_def)
  show "8 \<le> default_shard_count parallelism"
    using n(1) next_power_of_two(2) [of ?n] by (simp add: default_shard_count_def Let_def)
  obtain k where k: "default_shard_count parallelism = 2 ^ k" using pow by blast
  have "(2::nat) ^ k < 2 ^ 11"
    using next_power_of_two(4) [of ?n] n k by (auto simp: default_shard_count_def Let_def)
  then have "k \<le> 10" using power_less_imp_less_exp [of "2::nat" k 11] by simp
  then have "(2::nat) ^ k \<le> 2 ^ 10" by (intro power_increasing) simp_all
  then show "default_shard_count parallelism \<le> 1024" using k by simp
qed

lemma usize_clamp_power:
  assumes "\<exists>i. x = (2::nat) ^ i" "\<exists>j. hi = (2::nat) ^ j"
  shows "\<exists>k. usize_clamp 1 hi x = 2 ^ k"
  using assms power_0 [of "2::nat"] unfolding usize_clamp_def by (metis (full_types))

lemma default_shard_count_for_capacity_power:
  "\<exists>k. default_shard_count_for_capacity parallelism max_size = 2 ^ k"
  using usize_clamp_power [OF next_power_of_two(1) default_shard_count_power(1)] default_shard_count_power(1)
  by (simp add: default_shard_count_for_capacity_def split: option.split)

lemma checked_shard_count_power:
  "checked_shard_count parallelism shards = Inr n \<Longrightarrow> \<exists>k. n = 2 ^ k"
  using next_power_of_two(1)
  by (auto simp: checked_shard_count_def usize_checked_next_power_of_two_def split: if_splits option.splits)

text \<open>Under the mask of a power of two the index is within the slice.\<close>

lemma shard_index_mod: "shard_index h (2 ^ k - 1) = unat (drop_bit 32 h) mod 2 ^ k"
  unfolding shard_index_def
  by (metis mask_eq_exp_minus_1 take_bit_eq_mask take_bit_eq_mod)

lemma shard_index_bound: "\<exists>k. n = 2 ^ k \<Longrightarrow> shard_index h (n - 1) < n"
  using shard_index_mod by auto

section \<open>Capacities\<close>

lemma usize_div_ceil_bounds:
  assumes "0 < b"
  shows "a \<le> b * usize_div_ceil a b" "b * usize_div_ceil a b < a + b" "0 < a \<Longrightarrow> 0 < usize_div_ceil a b"
proof -
  define d r where "d = a div b" and "r = a mod b"
  have a: "a = b * d + r" "r < b" using assms by (simp_all add: d_def r_def)
  have "usize_div_ceil a b = (if r > 0 then d + 1 else d)" by (simp add: usize_div_ceil_def d_def r_def)
  then show "a \<le> b * usize_div_ceil a b" "b * usize_div_ceil a b < a + b"
    using a assms by auto
  then show "0 < a \<Longrightarrow> 0 < usize_div_ceil a b" by (cases "usize_div_ceil a b") auto
qed

lemma checked_per_shard_cap:
  assumes "checked_per_shard_cap_from_total tot n = Inr (per_shard, cap)" "0 < n" "0 < tot"
  shows "cap = n * per_shard" "tot \<le> cap" "0 < per_shard" "cap \<le> usize_max"
    "cap < tot + n \<or> per_shard = 16"
proof -
  let ?d = "usize_div_ceil tot n"
  have eq: "per_shard = (if n > 1 then max ?d 16 else ?d)" "cap = n * per_shard" "cap \<le> usize_max"
    using assms(1) by (auto simp: checked_per_shard_cap_from_total_def Let_def usize_checked_mul_def
        split: option.splits if_splits)
  note d = usize_div_ceil_bounds [OF assms(2), of tot]
  show "cap = n * per_shard" "cap \<le> usize_max" by (rule eq)+
  have "n * ?d \<le> n * per_shard" using eq(1) by (intro mult_le_mono2) auto
  then show "tot \<le> cap" using d(1) eq(2) by linarith
  show "0 < per_shard" using d(3) assms(3) eq(1) by auto
  show "cap < tot + n \<or> per_shard = 16" using d(2) eq by (auto simp: max_def split: if_splits)
qed

lemma decode_encode_ttl:
  "decode_ttl (encode_ttl ttl) = (if ttl = 0 then None else Some (min ttl (2 ^ 64 - 1)))"
proof -
  define n where "n = min ttl (2 ^ 64 - 1)"
  have n: "n < 2 ^ 64" "n = 0 \<longleftrightarrow> ttl = 0" by (auto simp: n_def)
  have u: "unat (of_nat n :: u64) = n"
    using n(1) by (simp add: unsigned_of_nat take_bit_nat_eq_self)
  have "n = 0" if "(of_nat n :: u64) = 0" using u unfolding that by simp
  then have "(of_nat n :: u64) = 0 \<longleftrightarrow> ttl = 0" using n(2) by auto
  then show ?thesis unfolding decode_ttl_def encode_ttl_def n_def [symmetric] using u by simp
qed

section \<open>A sharded store\<close>

text \<open>
  The fields that the \<open>Inner\<close> structs have in common; \<open>sd_calls\<close> is the trace of the callback. The
  shards of the slice are fixed when the store is built, as are mask, hasher and callback.
\<close>

record ('s, 'k, 'v) sharded =
  sd_shards :: "'s shard list"
  sd_mask :: usize
  sd_hasher :: "'k \<Rightarrow> u64"
  sd_on_evict :: "('k, 'v) callback option"
  sd_calls :: "('k, 'v) trace"

definition sd_index :: "'k \<Rightarrow> ('s, 'k, 'v, 'z) sharded_scheme \<Rightarrow> usize" where
  "sd_index k c = shard_index (sd_hasher c k) (sd_mask c)"

text \<open>
  A critical section: \<open>m\<close> runs on the inner store of a shard under its lock. A panic inside (of a
  callback) leaves the shard as it is at that point: the locks do not poison.
\<close>

definition sd_locked :: "usize \<Rightarrow> ('s, 'a) comp \<Rightarrow> (('s, 'k, 'v, 'z) sharded_scheme, 'a) comp" where
  "sd_locked i m c = (case vget (sd_shards c) i of
       None \<Rightarrow> (Panics, c)
     | Some sh \<Rightarrow> (case m (sh_store sh) of
         (r, s) \<Rightarrow> (r, c\<lparr>sd_shards := (sd_shards c)[i := sh\<lparr>sh_store := s\<rparr>]\<rparr>)))"

definition sd_on :: "'k \<Rightarrow> ('s, 'a) comp \<Rightarrow> (('s, 'k, 'v, 'z) sharded_scheme, 'a) comp" where
  "sd_on k m c = sd_locked (sd_index k c) m c"

text \<open>An atomic update of the counters of a shard.\<close>

definition sd_counters :: "usize \<Rightarrow> ('s shard \<Rightarrow> 's shard) \<Rightarrow> (('s, 'k, 'v, 'z) sharded_scheme, unit) comp" where
  "sd_counters i f c = (case vget (sd_shards c) i of
       None \<Rightarrow> (Panics, c)
     | Some sh \<Rightarrow> (Returns (), c\<lparr>sd_shards := (sd_shards c)[i := f sh]\<rparr>))"

definition sd_hit :: "'k \<Rightarrow> (('s, 'k, 'v, 'z) sharded_scheme, unit) comp" where
  "sd_hit k c = sd_counters (sd_index k c) (\<lambda>sh. sh\<lparr>sh_hits := sh_hits sh + 1\<rparr>) c"

definition sd_miss :: "'k \<Rightarrow> (('s, 'k, 'v, 'z) sharded_scheme, unit) comp" where
  "sd_miss k c = sd_counters (sd_index k c) (\<lambda>sh. sh\<lparr>sh_misses := sh_misses sh + 1\<rparr>) c"

definition sd_notify :: "'k \<Rightarrow> 'v \<Rightarrow> (('s, 'k, 'v, 'z) sharded_scheme, unit) comp" where
  "sd_notify k v c = notify sd_calls_update (sd_on_evict c) k v c"

text \<open>A loop over the shards of the slice, in order.\<close>

definition sd_each :: "(usize \<Rightarrow> (('s, 'k, 'v, 'z) sharded_scheme, unit) proc)
    \<Rightarrow> (('s, 'k, 'v, 'z) sharded_scheme, unit) proc" where
  "sd_each body = pbind (atomically get_state) (\<lambda>c. pforeach [0..<length (sd_shards c)] body)"

definition sd_fold :: "(usize \<Rightarrow> 'a \<Rightarrow> (('s, 'k, 'v, 'z) sharded_scheme, 'a) proc) \<Rightarrow> 'a
    \<Rightarrow> (('s, 'k, 'v, 'z) sharded_scheme, 'a) proc" where
  "sd_fold body acc = pbind (atomically get_state) (\<lambda>c. pfold [0..<length (sd_shards c)] body acc)"

text \<open>Loading a counter of a shard.\<close>

definition sd_load :: "usize \<Rightarrow> ('s shard \<Rightarrow> 'a) \<Rightarrow> (('s, 'k, 'v, 'z) sharded_scheme, 'a) comp" where
  "sd_load i f c = (case vget (sd_shards c) i of None \<Rightarrow> (Panics, c) | Some sh \<Rightarrow> (Returns (f sh), c))"

record cache_metrics =
  cm_hits :: "u64 option"
  cm_misses :: "u64 option"
  cm_evictions :: "u64 option"
  cm_entry_count :: "usize option"
  cm_capacity :: "usize option"

text \<open>Reading an inner store under its lock, and the sums and lists over the shards built from it.\<close>

definition sd_read :: "usize \<Rightarrow> ('s \<Rightarrow> 'a) \<Rightarrow> (('s, 'k, 'v, 'z) sharded_scheme, 'a) proc" where
  "sd_read i f = atomically (sd_locked i (\<lambda>s. (Returns (f s), s)))"

definition sd_sum_read :: "('s \<Rightarrow> 'n :: monoid_add) \<Rightarrow> (('s, 'k, 'v, 'z) sharded_scheme, 'n) proc" where
  "sd_sum_read f = sd_fold (\<lambda>i n. pbind (sd_read i f) (\<lambda>m. pret (n + m))) 0"

definition sd_list_read :: "('s \<Rightarrow> 'a) \<Rightarrow> (('s, 'k, 'v, 'z) sharded_scheme, 'a list) proc" where
  "sd_list_read f = sd_fold (\<lambda>i xs. pbind (sd_read i f) (\<lambda>x. pret (xs @ [x]))) []"

text \<open>\<open>all\<close> stops at the first shard whose store does not satisfy the predicate.\<close>

definition sd_all_read :: "('s \<Rightarrow> bool) \<Rightarrow> (('s, 'k, 'v, 'z) sharded_scheme, bool) proc" where
  "sd_all_read f = sd_fold (\<lambda>i b. if \<not> b then pret False else sd_read i f) True"

definition sd_sum_load :: "('s shard \<Rightarrow> u64) \<Rightarrow> (('s, 'k, 'v, 'z) sharded_scheme, u64) proc" where
  "sd_sum_load f = sd_fold (\<lambda>i n. pbind (atomically (sd_load i f)) (\<lambda>m. pret (n + m))) 0"

definition sd_notify_all :: "('k \<times> 'v) list \<Rightarrow> (('s, 'k, 'v, 'z) sharded_scheme, unit) proc" where
  "sd_notify_all removed = pforeach removed (\<lambda>(k, v). atomically (sd_notify k v))"

text \<open>\<open>collect\<close> into a \<open>Result\<close>: the first error ends the iteration.\<close>

primrec collect_results :: "('a \<Rightarrow> 'e + 'b) \<Rightarrow> 'a list \<Rightarrow> 'e + 'b list" where
  "collect_results f [] = Inr []"
| "collect_results f (x # xs) = (case f x of
     Inl e \<Rightarrow> Inl e
   | Inr y \<Rightarrow> (case collect_results f xs of Inl e \<Rightarrow> Inl e | Inr ys \<Rightarrow> Inr (y # ys)))"

lemma collect_results_Inr: "collect_results f xs = Inr ys \<Longrightarrow> list_all2 (\<lambda>x y. f x = Inr y) xs ys"
  by (induction xs arbitrary: ys) (auto split: sum.splits)

text \<open>
  Calls on a store that no other thread can see yet, one after the other: \<open>None\<close> when one of them
  panics.
\<close>

primrec run_calls :: "('a \<Rightarrow> ('c, 'r) proc) \<Rightarrow> 'a list \<Rightarrow> 'c \<Rightarrow> 'c option" where
  "run_calls body [] c = Some c"
| "run_calls body (x # xs) c = (case run_proc (body x) c of
     (Returns _, d) \<Rightarrow> run_calls body xs d
   | (_, d) \<Rightarrow> None)"

section \<open>The default methods of \<open>ConcurrentCached\<close> and \<open>ConcurrentCachedAsync\<close>\<close>

text \<open>
  \<open>src/lib.rs\<close>: the methods that the traits derive from the required ones, for stores whose error
  type is empty. The lookup and the insertion are two calls: between them, and while the factory runs,
  the calls of other threads may happen. The asynchronous ones await the factory instead of calling it.
\<close>

definition cc_cache_delete :: "('s, ('k \<times> 'v) option) proc \<Rightarrow> ('s, bool) proc" where
  "cc_cache_delete cache_remove_entry = pbind cache_remove_entry (\<lambda>removed. pret (removed \<noteq> None))"

definition cc_cache_get_or_set_with :: "('k \<Rightarrow> ('s, 'v option) proc) \<Rightarrow> ('k \<Rightarrow> 'v \<Rightarrow> ('s, 'v option) proc)
    \<Rightarrow> 'k \<Rightarrow> 'v outcome \<Rightarrow> ('s, 'v) proc" where
  "cc_cache_get_or_set_with cache_get cache_set k f =
     pbind (cache_get k) (\<lambda>r. case r of
       Some v \<Rightarrow> pret v
     | None \<Rightarrow> pbind (atomically (run_closure f)) (\<lambda>v.
         pbind (cache_set k v) (\<lambda>_. pret v)))"

definition cc_cache_try_get_or_set_with :: "('k \<Rightarrow> ('s, 'v option) proc) \<Rightarrow> ('k \<Rightarrow> 'v \<Rightarrow> ('s, 'v option) proc)
    \<Rightarrow> 'k \<Rightarrow> ('e + 'v) outcome \<Rightarrow> ('s, 'e + 'v) proc" where
  "cc_cache_try_get_or_set_with cache_get cache_set k f =
     pbind (cache_get k) (\<lambda>r. case r of
       Some v \<Rightarrow> pret (Inr v)
     | None \<Rightarrow> pbind (atomically (run_closure f)) (\<lambda>r. case r of
         Inr v \<Rightarrow> pbind (cache_set k v) (\<lambda>_. pret (Inr v))
       | Inl e \<Rightarrow> pret (Inl e)))"

definition cc_async_cache_delete :: "('s, ('k \<times> 'v) option) proc \<Rightarrow> ('s, bool) proc" where
  "cc_async_cache_delete async_cache_remove_entry = pbind async_cache_remove_entry (\<lambda>r. pret (r \<noteq> None))"

definition cc_async_cache_get_or_set_with :: "('k \<Rightarrow> ('s, 'v option) proc) \<Rightarrow> ('k \<Rightarrow> 'v \<Rightarrow> ('s, 'v option) proc)
    \<Rightarrow> 'k \<Rightarrow> 'v outcome \<Rightarrow> ('s, 'v) proc" where
  "cc_async_cache_get_or_set_with async_cache_get async_cache_set k f =
     pbind (async_cache_get k) (\<lambda>r. case r of
       Some v \<Rightarrow> pret v
     | None \<Rightarrow> pbind (atomically (await f)) (\<lambda>v.
         pbind (async_cache_set k v) (\<lambda>_. pret v)))"

definition cc_async_cache_try_get_or_set_with :: "('k \<Rightarrow> ('s, 'v option) proc)
    \<Rightarrow> ('k \<Rightarrow> 'v \<Rightarrow> ('s, 'v option) proc) \<Rightarrow> 'k \<Rightarrow> ('e + 'v) outcome \<Rightarrow> ('s, 'e + 'v) proc" where
  "cc_async_cache_try_get_or_set_with async_cache_get async_cache_set k f =
     pbind (async_cache_get k) (\<lambda>r. case r of
       Some v \<Rightarrow> pret (Inr v)
     | None \<Rightarrow> pbind (atomically (await f)) (\<lambda>r. case r of
         Inr v \<Rightarrow> pbind (async_cache_set k v) (\<lambda>_. pret (Inr v))
       | Inl e \<Rightarrow> pret (Inl e)))"

end
