(* ===== verification/Sharded_Unbound.thy ===== *)
theory Sharded_Unbound
  imports Hash_Map Sharded_Common
begin

text \<open>
  \<open>src/stores/sharded/unbound.rs\<close>: \<open>ShardedUnboundCache\<close>, hash maps behind one lock per shard. A
  call on one key takes the lock of the shard of the key once; the counters are bumped and the
  callback runs after the lock is released. A call on the whole cache goes through the shards one
  after the other and holds at most one lock at a time. The default methods that
  \<open>ConcurrentCached\<close> (\<open>src/lib.rs\<close>) adds are here as well: \<open>cache_delete\<close> and the get-or-set methods,
  which look up and insert in two separate critical sections with the factory in between.
\<close>

type_synonym ('k, 'v) sharded_unbound = "(('k, 'v) hash_map, 'k, 'v) sharded"

record ('k, 'v) sharded_unbound_builder =
  sub_shards :: "usize option"
  sub_per_shard_initial_capacity :: "usize option"
  sub_hasher :: "'k \<Rightarrow> u64"
  sub_on_evict :: "('k, 'v) callback option"

text \<open>
  \<open>random\<close> is the hasher that \<open>DefaultShardHasher::default()\<close> draws. The initial capacity only sizes the
  tables of the shards: no entry and no counter depends on it.
\<close>

definition su_builder_default :: "('k \<Rightarrow> u64) \<Rightarrow> ('k, 'v) sharded_unbound_builder" where
  "su_builder_default random = \<lparr>sub_shards = None, sub_per_shard_initial_capacity = None,
     sub_hasher = random, sub_on_evict = None\<rparr>"

definition su_builder_shards :: "usize \<Rightarrow> ('k, 'v) sharded_unbound_builder \<Rightarrow> ('k, 'v) sharded_unbound_builder" where
  "su_builder_shards n b = b\<lparr>sub_shards := Some n\<rparr>"

definition su_builder_per_shard_initial_capacity ::
    "usize \<Rightarrow> ('k, 'v) sharded_unbound_builder \<Rightarrow> ('k, 'v) sharded_unbound_builder" where
  "su_builder_per_shard_initial_capacity n b = b\<lparr>sub_per_shard_initial_capacity := Some n\<rparr>"

definition su_builder_hasher :: "('k \<Rightarrow> u64) \<Rightarrow> ('k, 'v) sharded_unbound_builder \<Rightarrow> ('k, 'v) sharded_unbound_builder" where
  "su_builder_hasher h b = b\<lparr>sub_hasher := h\<rparr>"

definition su_builder_on_evict :: "('k, 'v) callback \<Rightarrow> ('k, 'v) sharded_unbound_builder \<Rightarrow> ('k, 'v) sharded_unbound_builder" where
  "su_builder_on_evict f b = b\<lparr>sub_on_evict := Some f\<rparr>"

definition su_build :: "usize option \<Rightarrow> ('k, 'v) sharded_unbound_builder \<Rightarrow> build_error + ('k, 'v) sharded_unbound" where
  "su_build parallelism b = (case checked_shard_count parallelism (sub_shards b) of
       Inl e \<Rightarrow> Inl e
     | Inr n \<Rightarrow> Inr \<lparr>sd_shards = map (\<lambda>_. shard_new []) [0..<n], sd_mask = n - 1,
         sd_hasher = sub_hasher b, sd_on_evict = sub_on_evict b, sd_calls = []\<rparr>)"

definition su_new :: "usize option \<Rightarrow> ('k \<Rightarrow> u64) \<Rightarrow> ('k, 'v) sharded_unbound option" where
  "su_new parallelism random =
     (case su_build parallelism (su_builder_default random) of Inl _ \<Rightarrow> None | Inr c \<Rightarrow> Some c)"

section \<open>Calls on one key\<close>

definition su_cache_get :: "('k \<Rightarrow> 'q) \<Rightarrow> 'k \<Rightarrow> (('k, 'v) sharded_unbound, 'v option) proc" where
  "su_cache_get bk k =
     pbind (atomically (sd_on k (hmc_cache_get bk (bk k)))) (\<lambda>found. case found of
       Some v \<Rightarrow> pbind (atomically (sd_hit k)) (\<lambda>_. pret (Some v))
     | None \<Rightarrow> pbind (atomically (sd_miss k)) (\<lambda>_. pret None))"

definition su_cache_set :: "('k \<Rightarrow> 'q) \<Rightarrow> 'k \<Rightarrow> 'v \<Rightarrow> (('k, 'v) sharded_unbound, 'v option) proc" where
  "su_cache_set bk k v = atomically (sd_on k (hmc_cache_set bk k v))"

definition su_cache_remove_entry :: "('k \<Rightarrow> 'q) \<Rightarrow> 'k \<Rightarrow> (('k, 'v) sharded_unbound, ('k \<times> 'v) option) proc" where
  "su_cache_remove_entry bk k =
     pbind (atomically (sd_on k (hmc_cache_remove_entry bk (bk k)))) (\<lambda>removed. case removed of
       Some (stored_k, v) \<Rightarrow> pbind (atomically (sd_notify stored_k v)) (\<lambda>_. pret removed)
     | None \<Rightarrow> pret None)"

definition su_cache_remove :: "('k \<Rightarrow> 'q) \<Rightarrow> 'k \<Rightarrow> (('k, 'v) sharded_unbound, 'v option) proc" where
  "su_cache_remove bk k = pbind (su_cache_remove_entry bk k) (\<lambda>r. pret (map_option snd r))"

definition su_cache_delete :: "('k \<Rightarrow> 'q) \<Rightarrow> 'k \<Rightarrow> (('k, 'v) sharded_unbound, bool) proc" where
  "su_cache_delete bk k = cc_cache_delete (su_cache_remove_entry bk k)"

definition su_cache_contains :: "('k \<Rightarrow> 'q) \<Rightarrow> 'k \<Rightarrow> (('k, 'v) sharded_unbound, bool) proc" where
  "su_cache_contains bk k = atomically (sd_on k (andthen get_state (\<lambda>m. ret (a_find bk (bk k) m \<noteq> None))))"

definition su_peek :: "('k \<Rightarrow> 'q) \<Rightarrow> 'k \<Rightarrow> (('k, 'v) sharded_unbound, 'v option) proc" where
  "su_peek bk k = atomically (sd_on k (hmc_cache_get bk (bk k)))"

definition su_cache_peek :: "('k \<Rightarrow> 'q) \<Rightarrow> 'k \<Rightarrow> (('k, 'v) sharded_unbound, 'v option) proc" where
  "su_cache_peek bk k = su_peek bk k"

definition su_cache_get_or_set_with :: "('k \<Rightarrow> 'q) \<Rightarrow> 'k \<Rightarrow> 'v outcome
    \<Rightarrow> (('k, 'v) sharded_unbound, 'v) proc" where
  "su_cache_get_or_set_with bk = cc_cache_get_or_set_with (su_cache_get bk) (su_cache_set bk)"

definition su_cache_try_get_or_set_with :: "('k \<Rightarrow> 'q) \<Rightarrow> 'k \<Rightarrow> ('e + 'v) outcome
    \<Rightarrow> (('k, 'v) sharded_unbound, 'e + 'v) proc" where
  "su_cache_try_get_or_set_with bk = cc_cache_try_get_or_set_with (su_cache_get bk) (su_cache_set bk)"

section \<open>Calls on the whole cache\<close>

definition su_clear :: "(('k, 'v) sharded_unbound, unit) proc" where
  "su_clear = sd_each (\<lambda>i. atomically (sd_locked i hmc_cache_clear))"

definition su_cache_clear :: "(('k, 'v) sharded_unbound, unit) proc" where
  "su_cache_clear = su_clear"

definition su_cache_clear_with_on_evict :: "(('k, 'v) sharded_unbound, unit) proc" where
  "su_cache_clear_with_on_evict =
     pbind (atomically get_state) (\<lambda>c.
     case sd_on_evict c of
       None \<Rightarrow> su_clear
     | Some _ \<Rightarrow> sd_each (\<lambda>i.
         pbind (atomically (sd_locked i (andthen get_state (\<lambda>m. andthen hmc_cache_clear (\<lambda>_. ret m))))) (\<lambda>entries.
         sd_notify_all entries)))"

definition su_retain :: "('k, 'v) predicate \<Rightarrow> (('k, 'v) sharded_unbound, usize) proc" where
  "su_retain keep = sd_fold (\<lambda>i total_removed.
     pbind (atomically (sd_locked i (andthen get_state (\<lambda>m.
       andthen (expect (take_doomed (\<lambda>k v. map_option Not (keep k v)) m)) (\<lambda>(removed, m').
       andthen (modify (\<lambda>_. m')) (\<lambda>_. ret removed)))))) (\<lambda>removed.
     pbind (sd_notify_all removed) (\<lambda>_.
     pret (total_removed + length removed)))) 0"

definition su_len :: "(('k, 'v) sharded_unbound, usize) proc" where
  "su_len = sd_sum_read hmc_cache_size"

definition su_cache_size :: "(('k, 'v) sharded_unbound, usize option) proc" where
  "su_cache_size = pbind su_len (\<lambda>n. pret (Some n))"

definition su_is_empty :: "(('k, 'v) sharded_unbound, bool) proc" where
  "su_is_empty = sd_all_read (\<lambda>m. m = [])"

definition su_shards :: "('k, 'v) sharded_unbound \<Rightarrow> usize" where
  "su_shards c = length (sd_shards c)"

definition su_shard_sizes :: "(('k, 'v) sharded_unbound, usize list) proc" where
  "su_shard_sizes = sd_list_read hmc_cache_size"

definition su_metrics :: "(('k, 'v) sharded_unbound, cache_metrics) proc" where
  "su_metrics = pbind (sd_fold (\<lambda>i (hits, misses, n).
       pbind (atomically (sd_load i sh_hits)) (\<lambda>h.
       pbind (atomically (sd_load i sh_misses)) (\<lambda>ms.
       pbind (sd_read i hmc_cache_size) (\<lambda>l.
       pret (hits + h, misses + ms, n + l))))) (0, 0, 0)) (\<lambda>(hits, misses, n).
     pret \<lparr>cm_hits = Some hits, cm_misses = Some misses, cm_evictions = None,
       cm_entry_count = Some n, cm_capacity = None\<rparr>)"

definition su_cache_hits :: "(('k, 'v) sharded_unbound, u64 option) proc" where
  "su_cache_hits = pbind (sd_sum_load sh_hits) (\<lambda>n. pret (Some n))"

definition su_cache_misses :: "(('k, 'v) sharded_unbound, u64 option) proc" where
  "su_cache_misses = pbind (sd_sum_load sh_misses) (\<lambda>n. pret (Some n))"

definition su_cache_reset_metrics :: "(('k, 'v) sharded_unbound, unit) proc" where
  "su_cache_reset_metrics = sd_each (\<lambda>i.
     pbind (atomically (sd_counters i (\<lambda>sh. sh\<lparr>sh_hits := 0\<rparr>))) (\<lambda>_.
     atomically (sd_counters i (\<lambda>sh. sh\<lparr>sh_misses := 0\<rparr>))))"

definition su_cache_reset :: "(('k, 'v) sharded_unbound, unit) proc" where
  "su_cache_reset = pbind su_clear (\<lambda>_. su_cache_reset_metrics)"

text \<open>
  \<open>deep_clone\<close> copies each shard under its read lock. The two counter loads happen while the lock is
  held and are taken as part of the same step.
\<close>

definition su_deep_clone :: "(('k, 'v) sharded_unbound, ('k, 'v) sharded_unbound) proc" where
  "su_deep_clone =
     pbind (sd_fold (\<lambda>i shards. pbind (atomically (sd_load i (\<lambda>sh. sh\<lparr>sh_evictions := 0\<rparr>))) (\<lambda>sh.
       pret (shards @ [sh]))) []) (\<lambda>shards.
     pbind (atomically get_state) (\<lambda>c.
     pret \<lparr>sd_shards = shards, sd_mask = sd_mask c, sd_hasher = sd_hasher c, sd_on_evict = sd_on_evict c,
       sd_calls = []\<rparr>))"

text \<open>
  \<open>copy_from\<close>: the entries of each shard of the existing cache, read under its lock, are inserted into
  the new cache, which no other thread can see yet. \<open>Done Panics\<close> stands for a panic of the insertion.
\<close>

definition su_copy_from :: "usize option \<Rightarrow> ('k \<Rightarrow> 'q) \<Rightarrow> ('k, 'v) sharded_unbound_builder
    \<Rightarrow> (('k, 'v) sharded_unbound, build_error + ('k, 'v) sharded_unbound) proc" where
  "su_copy_from parallelism bk b = (case su_build parallelism b of
       Inl e \<Rightarrow> pret (Inl e)
     | Inr new_cache \<Rightarrow>
         pbind (sd_fold (\<lambda>i c. pbind (atomically (sd_load i sh_store)) (\<lambda>entries.
           case run_calls (\<lambda>(k, v). su_cache_set bk k v) entries c of Some d \<Rightarrow> pret d | None \<Rightarrow> Done Panics)) new_cache) (\<lambda>c.
         pret (Inr c)))"

section \<open>Shorthands and asynchronous twins\<close>

definition su_get :: "('k \<Rightarrow> 'q) \<Rightarrow> 'k \<Rightarrow> (('k, 'v) sharded_unbound, 'v option) proc" where
  "su_get = su_cache_get"

definition su_set :: "('k \<Rightarrow> 'q) \<Rightarrow> 'k \<Rightarrow> 'v \<Rightarrow> (('k, 'v) sharded_unbound, 'v option) proc" where
  "su_set = su_cache_set"

definition su_get_or_set_with :: "('k \<Rightarrow> 'q) \<Rightarrow> 'k \<Rightarrow> 'v outcome \<Rightarrow> (('k, 'v) sharded_unbound, 'v) proc" where
  "su_get_or_set_with = su_cache_get_or_set_with"

definition su_remove :: "('k \<Rightarrow> 'q) \<Rightarrow> 'k \<Rightarrow> (('k, 'v) sharded_unbound, 'v option) proc" where
  "su_remove = su_cache_remove"

definition su_remove_entry :: "('k \<Rightarrow> 'q) \<Rightarrow> 'k \<Rightarrow> (('k, 'v) sharded_unbound, ('k \<times> 'v) option) proc" where
  "su_remove_entry = su_cache_remove_entry"

definition su_delete :: "('k \<Rightarrow> 'q) \<Rightarrow> 'k \<Rightarrow> (('k, 'v) sharded_unbound, bool) proc" where
  "su_delete = su_cache_delete"

definition su_reset :: "(('k, 'v) sharded_unbound, unit) proc" where
  "su_reset = su_cache_reset"

definition su_contains :: "('k \<Rightarrow> 'q) \<Rightarrow> 'k \<Rightarrow> (('k, 'v) sharded_unbound, bool) proc" where
  "su_contains = su_cache_contains"

text \<open>The asynchronous methods call the synchronous ones: they complete on the first poll.\<close>

definition su_async_cache_get :: "('k \<Rightarrow> 'q) \<Rightarrow> 'k \<Rightarrow> (('k, 'v) sharded_unbound, 'v option) proc" where
  "su_async_cache_get = su_cache_get"

definition su_async_cache_set :: "('k \<Rightarrow> 'q) \<Rightarrow> 'k \<Rightarrow> 'v \<Rightarrow> (('k, 'v) sharded_unbound, 'v option) proc" where
  "su_async_cache_set = su_cache_set"

definition su_async_cache_remove :: "('k \<Rightarrow> 'q) \<Rightarrow> 'k \<Rightarrow> (('k, 'v) sharded_unbound, 'v option) proc" where
  "su_async_cache_remove = su_cache_remove"

definition su_async_cache_remove_entry :: "('k \<Rightarrow> 'q) \<Rightarrow> 'k \<Rightarrow> (('k, 'v) sharded_unbound, ('k \<times> 'v) option) proc" where
  "su_async_cache_remove_entry = su_cache_remove_entry"

definition su_async_cache_clear :: "(('k, 'v) sharded_unbound, unit) proc" where
  "su_async_cache_clear = su_cache_clear"

definition su_async_cache_reset :: "(('k, 'v) sharded_unbound, unit) proc" where
  "su_async_cache_reset = su_cache_reset"

definition su_async_cache_reset_metrics :: "(('k, 'v) sharded_unbound, unit) proc" where
  "su_async_cache_reset_metrics = su_cache_reset_metrics"

definition su_async_cache_contains :: "('k \<Rightarrow> 'q) \<Rightarrow> 'k \<Rightarrow> (('k, 'v) sharded_unbound, bool) proc" where
  "su_async_cache_contains = su_cache_contains"

definition su_async_cache_peek :: "('k \<Rightarrow> 'q) \<Rightarrow> 'k \<Rightarrow> (('k, 'v) sharded_unbound, 'v option) proc" where
  "su_async_cache_peek = su_cache_peek"

end
