(* ===== verification/Sharded_Refine.thy ===== *)
theory Sharded_Refine
  imports Sharded_Common
begin

text \<open>
  Reasoning about sharded stores once for all inner stores. The number of shards, hasher and callback
  never change (\<open>sharding\<close>); \<open>sd_sound\<close> says so and that every shard satisfies the invariant \<open>ok\<close> of the
  inner store. If a critical section refines an operation of the specification of the inner store,
  the call that is built from it refines that operation at one position of a list of specifications
  (\<open>at_shard\<close>); if it keeps an invariant of the inner store, the call keeps it for all shards.
\<close>

record ('k, 'v) sharding =
  sg_count :: usize
  sg_hasher :: "'k \<Rightarrow> u64"
  sg_on_evict :: "('k, 'v) callback option"

definition sd_sound :: "('k, 'v) sharding \<Rightarrow> ('s \<Rightarrow> bool) \<Rightarrow> ('s, 'k, 'v, 'z) sharded_scheme \<Rightarrow> bool" where
  "sd_sound g ok c \<longleftrightarrow> (\<exists>j. sg_count g = 2 ^ j) \<and> length (sd_shards c) = sg_count g \<and> sd_mask c = sg_count g - 1 \<and>
     sd_hasher c = sg_hasher g \<and> sd_on_evict c = sg_on_evict g \<and> (\<forall>sh \<in> set (sd_shards c). ok (sh_store sh))"

definition sd_view :: "('s \<Rightarrow> 'a) \<Rightarrow> ('s, 'k, 'v, 'z) sharded_scheme \<Rightarrow> 'a list" where
  "sd_view av c = map (\<lambda>sh. av (sh_store sh)) (sd_shards c)"

definition sd_sharding :: "('s, 'k, 'v, 'z) sharded_scheme \<Rightarrow> ('k, 'v) sharding" where
  "sd_sharding c = \<lparr>sg_count = length (sd_shards c), sg_hasher = sd_hasher c, sg_on_evict = sd_on_evict c\<rparr>"

text \<open>The shard of a key, and an operation on one of a list of specifications.\<close>

definition route :: "('k, 'v) sharding \<Rightarrow> 'k \<Rightarrow> usize" where
  "route g k = shard_index (sg_hasher g k) (sg_count g - 1)"

definition at_shard :: "usize \<Rightarrow> ('a, 'r) comp \<Rightarrow> ('a list, 'r) comp" where
  "at_shard i m ss = (case vget ss i of
       None \<Rightarrow> (Panics, ss)
     | Some s \<Rightarrow> (case m s of (r, t) \<Rightarrow> (r, ss[i := t])))"

lemma route_bound: "\<exists>j. sg_count g = 2 ^ j \<Longrightarrow> route g k < sg_count g"
  unfolding route_def by (rule shard_index_bound)

lemma sd_soundD:
  "sd_sound g ok c \<Longrightarrow> sh \<in> set (sd_shards c) \<Longrightarrow> ok (sh_store sh)"
  "sd_sound g ok c \<Longrightarrow> i < length (sd_shards c) \<Longrightarrow> ok (sh_store (sd_shards c ! i))"
  by (simp_all add: sd_sound_def)

lemma sd_sound_update:
  assumes "sd_sound g ok c" "i < length (sd_shards c) \<Longrightarrow> ok (sh_store sh)"
  shows "sd_sound g ok (c\<lparr>sd_shards := (sd_shards c)[i := sh]\<rparr>)"
proof (cases "i < length (sd_shards c)")
  case True
  then show ?thesis
    using assms set_update_subset_insert [of "sd_shards c" i sh] by (auto simp: sd_sound_def)
qed (use assms(1) in \<open>simp add: sd_sound_def list_update_beyond\<close>)

lemma sd_index_route: "sd_sound g ok c \<Longrightarrow> sd_index k c = route g k"
  by (simp add: sd_sound_def sd_index_def route_def)

lemma sd_on_route: "sd_sound g ok c \<Longrightarrow> sd_on k m c = sd_locked (route g k) m c"
  by (simp add: sd_on_def sd_index_route)

lemma vget_view: "vget (sd_view av c) i = map_option (\<lambda>sh. av (sh_store sh)) (vget (sd_shards c) i)"
  by (simp add: vget_def sd_view_def)

text \<open>The inner store of the shard of a key, and replacing it.\<close>

definition sd_store :: "'k \<Rightarrow> ('s, 'k, 'v, 'z) sharded_scheme \<Rightarrow> 's" where
  "sd_store k c = sh_store (sd_shards c ! sd_index k c)"

definition sd_put :: "'k \<Rightarrow> 's \<Rightarrow> ('s, 'k, 'v, 'z) sharded_scheme \<Rightarrow> ('s, 'k, 'v, 'z) sharded_scheme" where
  "sd_put k s c = c\<lparr>sd_shards := (sd_shards c)[sd_index k c := (sd_shards c ! sd_index k c)\<lparr>sh_store := s\<rparr>]\<rparr>"

lemma sd_index_bound: "sd_sound g ok c \<Longrightarrow> sd_index k c < length (sd_shards c)"
  using route_bound [of g k] by (simp add: sd_index_route) (simp add: sd_sound_def)

lemma sd_store_ok: "sd_sound g ok c \<Longrightarrow> ok (sd_store k c)"
  by (simp add: sd_store_def sd_soundD sd_index_bound)

lemma sd_on_apply: "sd_sound g ok c \<Longrightarrow> sd_on k m c = (fst (m (sd_store k c)), sd_put k (snd (m (sd_store k c))) c)"
  by (simp add: sd_on_def sd_locked_def sd_put_def sd_store_def vget_def sd_index_bound split: prod.split)

lemma sd_store_put:
  assumes "sd_sound g ok c"
  shows "sd_store k' (sd_put k s c) = (if sd_index k' c = sd_index k c then s else sd_store k' c)"
proof -
  have "sd_index k' (sd_put k s c) = sd_index k' c" by (simp add: sd_put_def sd_index_def)
  then show ?thesis
    using sd_index_bound [OF assms, of k] by (auto simp: sd_store_def sd_put_def)
qed

lemma sd_put_same [simp]: "sd_put k (sd_store k c) c = c"
proof -
  have "(sd_shards c ! i)\<lparr>sh_store := sh_store (sd_shards c ! i)\<rparr> = sd_shards c ! i" for i
    by (cases "sd_shards c ! i") simp
  then show ?thesis by (simp add: sd_put_def sd_store_def)
qed

lemma sd_put_sound: "sd_sound g ok c \<Longrightarrow> ok s \<Longrightarrow> sd_sound g ok (sd_put k s c)"
  by (simp add: sd_put_def sd_sound_update)

lemma sd_store_view:
  assumes "sd_sound g ok c" "sd_sound g ok d" "sd_view (\<lambda>s. s) d = sd_view (\<lambda>s. s) c"
  shows "sd_store k d = sd_store k c"
proof -
  have "sd_store k c = sd_view (\<lambda>s. s) c ! route g k" "sd_store k d = sd_view (\<lambda>s. s) d ! route g k"
    using sd_index_bound [OF assms(1), of k] sd_index_bound [OF assms(2), of k]
    by (simp_all add: sd_store_def sd_view_def sd_index_route [OF assms(1)] sd_index_route [OF assms(2)])
  then show ?thesis using assms(3) by simp
qed

section \<open>Critical sections\<close>

lemma refines_locked_at:
  assumes "refines ok av m n" and c: "sd_sound g ok c"
  shows "refines_at (sd_sound g ok) (sd_view av) (sd_locked i m) (at_shard i n) c"
proof (cases "i < length (sd_shards c)")
  case False
  then have v: "vget (sd_shards c) i = None" by (simp add: vget_def)
  then have "vget (sd_view av c) i = None" by (simp add: vget_view)
  then show ?thesis using c v by (simp add: refines_at_def sd_locked_def at_shard_def)
next
  case True
  let ?sh = "sd_shards c ! i"
  obtain r s where m: "m (sh_store ?sh) = (r, s)" by force
  have ok: "ok s" "n (av (sh_store ?sh)) = (r, av s)"
    using refinesD [OF assms(1) sd_soundD(2) [OF c True]] m by simp_all
  have v: "vget (sd_shards c) i = Some ?sh" using True by (simp add: vget_def)
  then have "vget (sd_view av c) i = Some (av (sh_store ?sh))" by (simp add: vget_view)
  then show ?thesis
    using sd_sound_update [OF c, of i "?sh\<lparr>sh_store := s\<rparr>"] v m ok
    by (simp add: refines_at_def sd_locked_def at_shard_def sd_view_def map_update)
qed

lemma refines_locked [refines_rules]:
  "refines ok av m n \<Longrightarrow> refines (sd_sound g ok) (sd_view av) (sd_locked i m) (at_shard i n)"
  by (rule refinesI) (rule refines_locked_at)

lemma refines_on:
  assumes "refines ok av m n"
  shows "refines (sd_sound g ok) (sd_view av) (sd_on k m) (at_shard (route g k) n)"
  using refines_locked [OF assms] by (simp add: refines_def refines_at_def sd_on_route)

lemma sd_counters_sound:
  assumes "sd_sound g ok c" "\<And>sh. sh_store (f sh) = sh_store sh"
  shows "sd_sound g ok (snd (sd_counters i f c))" "sd_view av (snd (sd_counters i f c)) = sd_view av c"
proof -
  show "sd_sound g ok (snd (sd_counters i f c))"
    using assms sd_sound_update [OF assms(1), of i "f (sd_shards c ! i)"]
    by (auto simp: sd_counters_def vget_def sd_soundD)
  have "map (\<lambda>sh. av (sh_store sh)) ((sd_shards c)[i := f (sd_shards c ! i)]) = map (\<lambda>sh. av (sh_store sh)) (sd_shards c)"
    by (simp add: map_update assms(2) list_update_same_conv)
      (metis (no_types, lifting) length_map linorder_not_less list_update_beyond list_update_id nth_map)
  then show "sd_view av (snd (sd_counters i f c)) = sd_view av c"
    by (simp add: sd_counters_def sd_view_def vget_def)
qed

lemma sd_counters_returns: "i < length (sd_shards c) \<Longrightarrow> fst (sd_counters i f c) = Returns ()"
  by (simp add: sd_counters_def vget_def)

lemma sd_notify_sound:
  "sd_sound g ok c \<Longrightarrow> sd_sound g ok (snd (sd_notify k v c))"
  "sd_view av (snd (sd_notify k v c)) = sd_view av c"
  "sd_sound g ok c \<Longrightarrow> fst (sd_notify k v c) = (if cb_ok (sg_on_evict g) k v then Returns () else Panics)"
  by (simp_all add: sd_notify_def notify_apply sd_sound_def sd_view_def)

section \<open>Calls on one key commit in their critical section\<close>

datatype ('k, 'v) key_op =
    UGet 'k | USet 'k 'v | URemove 'k | URemoveEntry 'k | UDelete 'k | UContains 'k | UPeek 'k

datatype ('k, 'v) key_result = ULookup "'v option" | UEntry "('k \<times> 'v) option" | UBool bool

text \<open>The outcome of a call that tells the callback about the entry it has removed.\<close>

definition reported :: "('k, 'v) callback option \<Rightarrow> (('k \<times> 'v) option \<Rightarrow> 'r) \<Rightarrow> ('k \<times> 'v) option \<Rightarrow> 'r outcome" where
  "reported cb f removed = (case removed of
       None \<Rightarrow> Returns (f None)
     | Some (k, v) \<Rightarrow> if cb_ok cb k v then Returns (f removed) else Panics)"

lemma settled_pret: "settled ok view (Returns r) (pret r)"
  by (simp add: pret_def)

lemma sd_counted:
  assumes "p = sd_hit k \<or> p = sd_miss k" and c: "sd_sound g ok c"
  shows "fst (p c) = Returns () \<and> sd_sound g ok (snd (p c)) \<and> sd_view av (snd (p c)) = sd_view av c"
proof -
  have "sd_index k c < length (sd_shards c)"
    using c route_bound [of g] by (simp only: sd_index_route [OF c]) (simp add: sd_sound_def)
  then show ?thesis
    using assms(1) c
    by (auto simp: sd_hit_def sd_miss_def sd_counters_returns intro!: sd_counters_sound)
qed

lemma settled_counted:
  assumes "p = sd_hit k \<or> p = sd_miss k"
  shows "settled (sd_sound g ok) (sd_view av) (Returns r) (pbind (atomically p) (\<lambda>_. pret r))"
  by (rule settled_pbind [where out = "Returns ()"], rule sd_counted [OF assms]) (simp_all add: settled_pret)

lemma settled_reported:
  "settled (sd_sound g ok) (sd_view av) (reported (sg_on_evict g) f removed)
     (pbind (case removed of
        Some (k, v) \<Rightarrow> pbind (atomically (sd_notify k v)) (\<lambda>_. pret removed) | None \<Rightarrow> pret None) (\<lambda>r. pret (f r)))"
proof (cases removed)
  case (Some kv)
  obtain k v where kv: "kv = (k, v)" by force
  show ?thesis
    unfolding Some kv reported_def option.case prod.case pbind_assoc
    by (rule settled_pbind [where out = "if cb_ok (sg_on_evict g) k v then Returns () else Panics"])
      (simp_all add: sd_notify_sound settled_pret)
qed (simp add: reported_def settled_pret)

lemma commits_on_at:
  assumes "refines ok av m n" "\<And>x. settled (sd_sound g ok) (sd_view av) (out x) (rest x)" and c: "sd_sound g ok c"
    and "spec = andthen (at_shard (route g k) n) (\<lambda>x. run_closure (out x))"
  shows "sd_sound g ok (snd (sd_on k m c)) \<and> sd_view av (snd (sd_on k m c)) = snd (spec (sd_view av c)) \<and>
    settled (sd_sound g ok) (sd_view av) (fst (spec (sd_view av c))) (pbind (Done (fst (sd_on k m c))) rest)"
proof -
  obtain r d where m: "sd_on k m c = (r, d)" by force
  have "sd_sound g ok d" "at_shard (route g k) n (sd_view av c) = (r, sd_view av d)"
    using refinesD [OF refines_on [OF assms(1)] c, of k] m by simp_all
  then show ?thesis
    using assms(2) m by (cases r) (simp_all add: assms(4) andthen_apply run_closure_def)
qed

lemma commits_on:
  assumes "refines ok av m n" "\<And>x. settled (sd_sound g ok) (sd_view av) (out x) (rest x)"
    and "p = pbind (atomically (sd_on k m)) rest"
    and "spec = andthen (at_shard (route g k) n) (\<lambda>x. run_closure (out x))"
  shows "\<exists>h. p = Atomic h \<and> (\<forall>c. sd_sound g ok c \<longrightarrow> sd_sound g ok (snd (h c)) \<and>
    sd_view av (snd (h c)) = snd (spec (sd_view av c)) \<and>
    settled (sd_sound g ok) (sd_view av) (fst (spec (sd_view av c))) (fst (h c)))"
  by (rule commits [OF assms(3)]) (rule commits_on_at [OF assms(1,2) _ assms(4)])

lemma ret_run_closure: "ret x = run_closure (Returns x)"
  by (simp add: ret_def run_closure_def)

lemma settled_lookup:
  "settled (sd_sound g ok) (sd_view av) (Returns (ULookup x)) (pbind (case x of
       None \<Rightarrow> pbind (atomically (sd_miss k)) (\<lambda>_. pret None)
     | Some v \<Rightarrow> pbind (atomically (sd_hit k)) (\<lambda>_. pret (Some v))) (\<lambda>r. pret (ULookup r)))"
  by (cases x) (simp_all add: pbind_assoc settled_counted [OF disjI1 [OF refl]] settled_counted [OF disjI2 [OF refl]])

section \<open>Every call keeps an invariant of the inner stores\<close>

lemma refines_keeps:
  assumes "refines ok av m n" "keeps J n"
  shows "keeps (\<lambda>s. ok s \<and> J (av s)) m"
proof (rule keepsI)
  fix s assume s: "ok s \<and> J (av s)"
  then show "ok (snd (m s)) \<and> J (av (snd (m s)))"
    using refinesD [OF assms(1), of s] keepsD [OF assms(2), of "av s"] by simp
qed

lemma sd_locked_sound:
  assumes "keeps ok m" "sd_sound g ok c"
  shows "sd_sound g ok (snd (sd_locked i m c))"
  using sd_sound_update [OF assms(2), of i "(sd_shards c ! i)\<lparr>sh_store := snd (m (sh_store (sd_shards c ! i)))\<rparr>"]
    keepsD [OF assms(1)] sd_soundD(2) [OF assms(2)] assms(2)
  by (auto simp: sd_locked_def vget_def case_prod_beta)

lemma sd_keeps [keeps_rules]:
  "keeps ok m \<Longrightarrow> keeps (sd_sound g ok) (sd_locked i m)"
  "keeps ok m \<Longrightarrow> keeps (sd_sound g ok) (sd_on k m)"
  "keeps (sd_sound g ok) (sd_notify k v)"
  "keeps (sd_sound g ok) (sd_hit k)"
  "keeps (sd_sound g ok) (sd_miss k)"
  "keeps (sd_sound g ok) (sd_load i f)"
  by (rule keepsI; simp add: sd_locked_sound sd_on_def sd_notify_sound sd_hit_def sd_miss_def sd_counters_sound
      sd_load_def split: option.split)+

lemma keeps_counters:
  "(\<And>sh. sh_store (f sh) = sh_store sh) \<Longrightarrow> keeps (sd_sound g ok) (sd_counters i f)"
  by (rule keepsI) (rule sd_counters_sound)

lemma sd_safe [safe_rules]:
  "(\<And>i. safe (sd_sound g ok) (\<lambda>_. True) (body i)) \<Longrightarrow> safe (sd_sound g ok) (\<lambda>_. True) (sd_each body)"
  "(\<And>i x. safe (sd_sound g ok) (\<lambda>_. True) (step i x)) \<Longrightarrow> safe (sd_sound g ok) (\<lambda>_. True) (sd_fold step acc)"
  "safe (sd_sound g ok) (\<lambda>_. True) (sd_notify_all removed)"
  "safe (sd_sound g ok) (\<lambda>_. True) (sd_read i f)"
  unfolding sd_each_def sd_fold_def sd_notify_all_def sd_read_def
  by (intro safe_rules keeps_rules; auto intro!: safe_rules keeps_rules)+
     (auto simp: keeps_def intro!: safe_rules keeps_rules)


declare TrueI [safe_rules]

lemma keeps_await [keeps_rules]: "keeps I (await r)"
  by (simp add: keeps_def await_def)

lemma safe_cases [safe_rules]:
  "safe I Q p \<Longrightarrow> (\<And>a. safe I Q (q a)) \<Longrightarrow> safe I Q (case x of None \<Rightarrow> p | Some a \<Rightarrow> q a)"
  "(\<And>a b. safe I Q (f a b)) \<Longrightarrow> safe I Q (case y of (a, b) \<Rightarrow> f a b)"
  "(\<And>a. safe I Q (h a)) \<Longrightarrow> (\<And>a. safe I Q (q a)) \<Longrightarrow> safe I Q (case z of Inl a \<Rightarrow> h a | Inr a \<Rightarrow> q a)"
  "safe I Q p \<Longrightarrow> safe I Q p' \<Longrightarrow> safe I Q (if b then p else p')"
  by (simp_all split: option.split prod.split sum.split)

lemma safe_any [safe_rules]:
  "safe I (\<lambda>_. True) (Done r)"
  "safe I (\<lambda>_. True) p \<Longrightarrow> safe I (\<lambda>_. True) (presult p h)"
  "safe I (\<lambda>_. True) rm \<Longrightarrow> safe I (\<lambda>_. True) (cc_cache_delete rm)"
  by (auto simp: presult_def cc_cache_delete_def intro!: safe_rules)

text \<open>The trait defaults keep an invariant if the calls they are made of do.\<close>

lemma safe_get_or_set:
  assumes "\<And>k. safe I (\<lambda>_. True) (get k)" "\<And>k v. safe I (\<lambda>_. True) (put k v)"
  shows "safe I (\<lambda>_. True) (cc_cache_get_or_set_with get put k f)"
    "safe I (\<lambda>_. True) (cc_cache_try_get_or_set_with get put k f')"
    "safe I (\<lambda>_. True) (cc_async_cache_get_or_set_with get put k f)"
    "safe I (\<lambda>_. True) (cc_async_cache_try_get_or_set_with get put k f')"
  unfolding cc_cache_get_or_set_with_def cc_cache_try_get_or_set_with_def
    cc_async_cache_get_or_set_with_def cc_async_cache_try_get_or_set_with_def
  by (intro safe_rules keeps_rules assms)+

end
