(* ===== verification/Sharded_Unbound_Correct.thy ===== *)
theory Sharded_Unbound_Correct
  imports Sharded_Unbound Sharded_Refine
begin

text \<open>
  \<open>ShardedUnboundCache\<close> is one map: every key lives in the shard that its hash selects, and concurrent
  calls on single keys take effect one at a time, in an order that respects the order of each
  thread.
\<close>

section \<open>Routing\<close>

definition su_routed :: "('k \<Rightarrow> 'q) \<Rightarrow> ('k, 'v) sharded_unbound \<Rightarrow> bool" where
  "su_routed bk c \<longleftrightarrow> (\<forall>i < length (sd_shards c). a_wf bk (sh_store (sd_shards c ! i)) \<and>
     (\<forall>kv \<in> set (sh_store (sd_shards c ! i)). sd_index (fst kv) c = i))"

definition su_wf :: "('k \<Rightarrow> 'q) \<Rightarrow> ('k, 'v) callback option \<Rightarrow> ('k, 'v) sharded_unbound \<Rightarrow> bool" where
  "su_wf bk cb c \<longleftrightarrow> (\<exists>k. length (sd_shards c) = 2 ^ k) \<and> sd_mask c = length (sd_shards c) - 1 \<and>
     (\<forall>k k'. bk k = bk k' \<longrightarrow> sd_hasher c k = sd_hasher c k') \<and> sd_on_evict c = cb \<and> su_routed bk c"

text \<open>The map that the shards hold together.\<close>

definition su_view :: "('k \<Rightarrow> 'q) \<Rightarrow> ('k, 'v) sharded_unbound \<Rightarrow> 'q \<Rightarrow> ('k \<times> 'v) option" where
  "su_view bk c q = a_find bk q (concat (map sh_store (sd_shards c)))"

lemma a_find_concat_None: "(\<And>xs. xs \<in> set xss \<Longrightarrow> a_find bk q xs = None) \<Longrightarrow> a_find bk q (concat xss) = None"
  by (induction xss) (auto simp: a_find_append)

lemma a_find_concat:
  assumes "i < length xss" "\<And>j. j < length xss \<Longrightarrow> j \<noteq> i \<Longrightarrow> a_find bk q (xss ! j) = None"
  shows "a_find bk q (concat xss) = a_find bk q (xss ! i)"
proof -
  have xss: "concat xss = concat (take i xss) @ xss ! i @ concat (drop (Suc i) xss)"
    by (metis assms(1) concat.simps(2) concat_append id_take_nth_drop)
  have "a_find bk q xs = None" if "xs \<in> set (take i xss)" for xs
    using that assms by (auto simp: in_set_conv_nth)
  moreover have "a_find bk q xs = None" if "xs \<in> set (drop (Suc i) xss)" for xs
    using that assms(2) by (auto simp: in_set_conv_nth)
  ultimately have "a_find bk q (concat (take i xss)) = None" "a_find bk q (concat (drop (Suc i) xss)) = None"
    by (blast intro: a_find_concat_None)+
  then show ?thesis by (simp add: xss a_find_append split: option.split)
qed

lemma su_wfD:
  "su_wf bk cb c \<Longrightarrow> \<exists>k. length (sd_shards c) = 2 ^ k"
  "su_wf bk cb c \<Longrightarrow> sd_mask c = length (sd_shards c) - 1"
  "su_wf bk cb c \<Longrightarrow> bk k = bk k' \<Longrightarrow> sd_hasher c k = sd_hasher c k'"
  "su_wf bk cb c \<Longrightarrow> sd_on_evict c = cb"
  "su_wf bk cb c \<Longrightarrow> su_routed bk c"
  unfolding su_wf_def by blast+

lemma su_wf_same:
  assumes "su_wf bk cb c" "length (sd_shards d) = length (sd_shards c)" "sd_mask d = sd_mask c"
    "sd_hasher d = sd_hasher c" "sd_on_evict d = sd_on_evict c" "su_routed bk d"
  shows "su_wf bk cb d"
  using assms(1,6) unfolding su_wf_def assms(2-5) by blast

lemma su_index_bound: "su_wf bk cb c \<Longrightarrow> sd_index k c < length (sd_shards c)"
  unfolding sd_index_def by (frule su_wfD(2), drule su_wfD(1)) (simp only: shard_index_bound)

lemma su_index_cong: "su_wf bk cb c \<Longrightarrow> bk k = bk k' \<Longrightarrow> sd_index k c = sd_index k' c"
  by (drule (1) su_wfD(3)) (simp add: sd_index_def)

lemma su_view_at:
  assumes "su_wf bk cb c"
  shows "su_view bk c (bk k) = a_find bk (bk k) (sh_store (sd_shards c ! sd_index k c))"
proof -
  let ?xss = "map sh_store (sd_shards c)"
  have "a_find bk (bk k) (?xss ! j) = None" if j: "j < length ?xss" "j \<noteq> sd_index k c" for j
  proof -
    have "bk (fst kv) \<noteq> bk k" if "kv \<in> set (sh_store (sd_shards c ! j))" for kv
      using that j su_wfD(5) [OF assms] su_index_cong [OF assms, of "fst kv" k] by (auto simp: su_routed_def)
    then show ?thesis using j(1) by (simp add: a_find_None_iff)
  qed
  then show ?thesis
    using a_find_concat [of "sd_index k c" ?xss bk "bk k"] su_index_bound [OF assms] by (simp add: su_view_def)
qed

lemma su_view_none: "q \<notin> range bk \<Longrightarrow> su_view bk c q = None"
  by (auto simp: su_view_def a_find_None_iff)

text \<open>Replacing the map of the shard of \<open>k\<close> by one that differs at \<open>k\<close> only.\<close>

definition su_put_shard :: "'k \<Rightarrow> ('k, 'v) hash_map \<Rightarrow> ('k, 'v) sharded_unbound \<Rightarrow> ('k, 'v) sharded_unbound" where
  "su_put_shard k m c = c\<lparr>sd_shards := (sd_shards c)[sd_index k c := (sd_shards c ! sd_index k c)\<lparr>sh_store := m\<rparr>]\<rparr>"

lemma su_put_shard_index [simp]: "sd_index k' (su_put_shard k m c) = sd_index k' c"
  by (simp add: su_put_shard_def sd_index_def)

lemma su_put_shard_effect:
  assumes "su_wf bk cb c" "a_wf bk m" "\<And>kv. kv \<in> set m \<Longrightarrow> sd_index (fst kv) c = sd_index k c"
    and "\<And>q. q \<noteq> bk k \<Longrightarrow> a_find bk q m = a_find bk q (sh_store (sd_shards c ! sd_index k c))"
  shows "su_wf bk cb (su_put_shard k m c)"
    "su_view bk (su_put_shard k m c) = (su_view bk c)(bk k := a_find bk (bk k) m)"
proof -
  let ?d = "su_put_shard k m c"
  have i: "sd_index k c < length (sd_shards c)" by (rule su_index_bound [OF assms(1)])
  have st: "sh_store (sd_shards ?d ! j) = (if j = sd_index k c then m else sh_store (sd_shards c ! j))"
    if "j < length (sd_shards c)" for j
    using that by (simp add: su_put_shard_def nth_list_update)
  have len: "length (sd_shards ?d) = length (sd_shards c)" by (simp add: su_put_shard_def)
  have "su_routed bk ?d"
    using su_wfD(5) [OF assms(1)] assms(2,3) by (auto simp: su_routed_def len st)
  then show wf: "su_wf bk cb ?d"
    by (rule su_wf_same [OF assms(1) len, rotated -1]) (simp_all add: su_put_shard_def)
  show "su_view bk ?d = (su_view bk c)(bk k := a_find bk (bk k) m)"
  proof
    fix q
    show "su_view bk ?d q = ((su_view bk c)(bk k := a_find bk (bk k) m)) q"
    proof (cases "q \<in> range bk")
      case True
      then obtain k' where q: "q = bk k'" by blast
      have "sd_index k' c = sd_index k c" if "q = bk k" using that q su_index_cong [OF assms(1)] by metis
      then show ?thesis
        using su_view_at [OF wf, of k'] su_view_at [OF assms(1), of k'] assms(4) [of q]
          su_index_bound [OF assms(1), of k'] i by (auto simp: q st)
    qed (auto simp: su_view_none)
  qed
qed

section \<open>Calls on one key\<close>

fun su_body :: "('k \<Rightarrow> 'q) \<Rightarrow> ('k, 'v) key_op \<Rightarrow> (('k, 'v) sharded_unbound, ('k, 'v) key_result) proc" where
  "su_body bk (UGet k) = presult (su_cache_get bk k) ULookup"
| "su_body bk (USet k v) = presult (su_cache_set bk k v) ULookup"
| "su_body bk (URemove k) = presult (su_cache_remove bk k) ULookup"
| "su_body bk (URemoveEntry k) = presult (su_cache_remove_entry bk k) UEntry"
| "su_body bk (UDelete k) = presult (su_cache_delete bk k) UBool"
| "su_body bk (UContains k) = presult (su_cache_contains bk k) UBool"
| "su_body bk (UPeek k) = presult (su_peek bk k) ULookup"

text \<open>
  The specification: one map from keys to the stored key and value. A removal reports to the callback
  and panics if the callback does, after the entry is gone.
\<close>

type_synonym ('q, 'k, 'v) kv_map = "'q \<Rightarrow> ('k \<times> 'v) option"

definition kv_remove :: "('k, 'v) callback option \<Rightarrow> (('k \<times> 'v) option \<Rightarrow> 'r) \<Rightarrow> 'q
    \<Rightarrow> (('q, 'k, 'v) kv_map, 'r) comp" where
  "kv_remove cb f q m = (case m q of
       Some (k, v) \<Rightarrow> (if cb_ok cb k v then Returns (f (m q)) else Panics, m(q := None))
     | None \<Rightarrow> (Returns (f None), m))"

fun kv_spec :: "('k \<Rightarrow> 'q) \<Rightarrow> ('k, 'v) callback option \<Rightarrow> ('k, 'v) key_op
    \<Rightarrow> (('q, 'k, 'v) kv_map, ('k, 'v) key_result) comp" where
  "kv_spec bk cb (UGet k) m = (Returns (ULookup (map_option snd (m (bk k)))), m)"
| "kv_spec bk cb (USet k v) m = (Returns (ULookup (map_option snd (m (bk k)))),
     m(bk k := Some (case m (bk k) of Some kv \<Rightarrow> fst kv | None \<Rightarrow> k, v)))"
| "kv_spec bk cb (URemove k) m = kv_remove cb (\<lambda>r. ULookup (map_option snd r)) (bk k) m"
| "kv_spec bk cb (URemoveEntry k) m = kv_remove cb UEntry (bk k) m"
| "kv_spec bk cb (UDelete k) m = kv_remove cb (\<lambda>r. UBool (r \<noteq> None)) (bk k) m"
| "kv_spec bk cb (UContains k) m = (Returns (UBool (m (bk k) \<noteq> None)), m)"
| "kv_spec bk cb (UPeek k) m = (Returns (ULookup (map_option snd (m (bk k)))), m)"

abbreviation su_shard :: "'k \<Rightarrow> ('k, 'v) sharded_unbound \<Rightarrow> ('k, 'v) hash_map" where
  "su_shard k c \<equiv> sh_store (sd_shards c ! sd_index k c)"

lemma su_on_apply:
  assumes "su_wf bk cb c"
  shows "sd_on k m c = (fst (m (su_shard k c)), su_put_shard k (snd (m (su_shard k c))) c)"
  using su_index_bound [OF assms, of k]
  by (simp add: sd_on_def sd_locked_def su_put_shard_def split: prod.split)

lemma su_put_shard_same [simp]: "su_put_shard k (su_shard k c) c = c"
proof -
  have "sh\<lparr>sh_store := sh_store sh\<rparr> = sh" for sh :: "('a, 'b) hash_map shard" by (cases sh) simp
  then show ?thesis by (simp add: su_put_shard_def)
qed

lemma su_shard_wf:
  assumes "su_wf bk cb c"
  shows "a_wf bk (su_shard k c)" "kv \<in> set (su_shard k c) \<Longrightarrow> sd_index (fst kv) c = sd_index k c"
  using su_wfD(5) [OF assms] su_index_bound [OF assms] by (simp_all add: su_routed_def)

lemma su_set_effect:
  assumes "su_wf bk cb c"
  shows "su_wf bk cb (su_put_shard k (snd (hm_insert bk k v (su_shard k c))) c)"
    "su_view bk (su_put_shard k (snd (hm_insert bk k v (su_shard k c))) c) =
      (su_view bk c)(bk k := Some (case su_view bk c (bk k) of Some kv \<Rightarrow> fst kv | None \<Rightarrow> k, v))"
proof -
  let ?m = "snd (hm_insert bk k v (su_shard k c))"
  have keys: "sd_index (fst kv) c = sd_index k c" if "kv \<in> set ?m" for kv
  proof -
    have "fst kv = k \<or> fst kv \<in> fst ` set (su_shard k c)"
      using that by (force simp: hm_insert_def hm_update_def split: option.splits if_splits)
    then show ?thesis using su_shard_wf(2) [OF assms] by auto
  qed
  have other: "a_find bk q ?m = a_find bk q (su_shard k c)" if "q \<noteq> bk k" for q
    using that by (simp add: a_find_insert)
  note effect = su_put_shard_effect [OF assms a_wf_insert [OF su_shard_wf(1) [OF assms]] keys other]
  show "su_wf bk cb (su_put_shard k ?m c)" by (rule effect)
  show "su_view bk (su_put_shard k ?m c) =
      (su_view bk c)(bk k := Some (case su_view bk c (bk k) of Some kv \<Rightarrow> fst kv | None \<Rightarrow> k, v))"
    using effect(2) by (simp add: a_find_insert su_view_at [OF assms] split: option.split)
qed

lemma su_remove_effect:
  assumes "su_wf bk cb c"
  shows "su_wf bk cb (su_put_shard k (a_without bk (bk k) (su_shard k c)) c)"
    "su_view bk (su_put_shard k (a_without bk (bk k) (su_shard k c)) c) = (su_view bk c)(bk k := None)"
  using su_put_shard_effect [OF assms, of "a_without bk (bk k) (su_shard k c)" k] su_shard_wf [OF assms]
  by (simp_all add: set_a_without a_find_without)

text \<open>Counters and callbacks are not part of the map.\<close>

lemma su_counters_effect:
  assumes "su_wf bk cb c" "\<And>sh. sh_store (f sh) = sh_store sh"
  shows "fst (sd_counters (sd_index k c) f c) = Returns () \<and>
    su_wf bk cb (snd (sd_counters (sd_index k c) f c)) \<and>
    su_view bk (snd (sd_counters (sd_index k c) f c)) = su_view bk c"
proof -
  let ?d = "c\<lparr>sd_shards := (sd_shards c)[sd_index k c := f (sd_shards c ! sd_index k c)]\<rparr>"
  have nth: "sh_store (sd_shards ?d ! j) = sh_store (sd_shards c ! j)" if "j < length (sd_shards c)" for j
    using that by (cases "j = sd_index k c") (simp_all add: assms(2))
  then have st: "map sh_store (sd_shards ?d) = map sh_store (sd_shards c)"
    by (intro nth_equalityI) simp_all
  have idx: "sd_index k' ?d = sd_index k' c" for k' by (simp add: sd_index_def)
  have "su_routed bk ?d"
    using su_wfD(5) [OF assms(1)] nth unfolding su_routed_def idx by simp
  then have "su_wf bk cb ?d" by (rule su_wf_same [OF assms(1), rotated -1]) simp_all
  moreover have "su_view bk ?d = su_view bk c" unfolding su_view_def st by simp
  ultimately show ?thesis using su_index_bound [OF assms(1)] by (simp add: sd_counters_def)
qed

lemma su_notify_effect:
  assumes "su_wf bk cb c"
  shows "fst (sd_notify k v c) = (if cb_ok cb k v then Returns () else Panics) \<and>
    su_wf bk cb (snd (sd_notify k v c)) \<and> su_view bk (snd (sd_notify k v c)) = su_view bk c"
proof -
  let ?d = "snd (sd_notify k v c)"
  have d: "sd_shards ?d = sd_shards c" "sd_mask ?d = sd_mask c" "sd_hasher ?d = sd_hasher c"
      "sd_on_evict ?d = sd_on_evict c" "fst (sd_notify k v c) = (if cb_ok cb k v then Returns () else Panics)"
    using su_wfD(4) [OF assms] by (simp_all add: sd_notify_def notify_apply)
  have "su_routed bk ?d" using su_wfD(5) [OF assms] by (simp add: su_routed_def sd_index_def d)
  then have "su_wf bk cb ?d" by (rule su_wf_same [OF assms, rotated -1]) (simp_all add: d)
  moreover have "su_view bk ?d = su_view bk c" by (simp add: fun_eq_iff su_view_def d)
  ultimately show ?thesis using d(5) by simp
qed


lemma su_settled_counters:
  assumes "\<And>sh. sh_store (f sh) = sh_store sh" "g = (\<lambda>c. sd_counters (sd_index k c) f c)"
  shows "settled (su_wf bk cb) (su_view bk) (Returns r) (pbind (atomically g) (\<lambda>_. pret r))"
  by (rule settled_pbind [where out = "Returns ()"])
    (auto simp: assms(2) pret_def dest: su_counters_effect [OF _ assms(1)])

lemma su_settled_hit: "settled (su_wf bk cb) (su_view bk) (Returns r) (pbind (atomically (sd_hit k)) (\<lambda>_. pret r))"
  by (rule su_settled_counters [of "\<lambda>sh. sh\<lparr>sh_hits := sh_hits sh + 1\<rparr>"]) (simp_all add: sd_hit_def [abs_def])

lemma su_settled_miss: "settled (su_wf bk cb) (su_view bk) (Returns r) (pbind (atomically (sd_miss k)) (\<lambda>_. pret r))"
  by (rule su_settled_counters [of "\<lambda>sh. sh\<lparr>sh_misses := sh_misses sh + 1\<rparr>"]) (simp_all add: sd_miss_def [abs_def])

lemma su_settled_notify:
  "settled (su_wf bk cb) (su_view bk) (if cb_ok cb k v then Returns r else Panics)
     (pbind (atomically (sd_notify k v)) (\<lambda>_. pret r))"
  by (rule settled_pbind [where out = "if cb_ok cb k v then Returns () else Panics"], erule su_notify_effect)
    (simp add: pret_def)

lemma su_read_effect:
  assumes "su_wf bk cb c"
  shows "sd_on k (andthen get_state (\<lambda>m. ret (f m))) c = (Returns (f (su_shard k c)), c)"
  by (simp add: su_on_apply [OF assms] andthen_apply get_state_def ret_def)

lemma su_commit_remove:
  fixes bk :: "'k \<Rightarrow> 'q" and cb :: "('k, 'v) callback option"
  shows "\<exists>h. presult (su_cache_remove_entry bk k) f = Atomic h \<and> (\<forall>c. su_wf bk cb c \<longrightarrow> su_wf bk cb (snd (h c)) \<and>
    su_view bk (snd (h c)) = snd (kv_remove cb f (bk k) (su_view bk c)) \<and>
    settled (su_wf bk cb) (su_view bk) (fst (kv_remove cb f (bk k) (su_view bk c))) (fst (h c)))"
  unfolding presult_def su_cache_remove_entry_def pbind_assoc
proof (rule commits [OF refl])
  fix c :: "('k, 'v) sharded_unbound"
  assume wf: "su_wf bk cb c"
  let ?m = "sd_on k (hmc_cache_remove_entry bk (bk k))"
  have m: "?m c = (Returns (su_view bk c (bk k)), su_put_shard k (a_without bk (bk k) (su_shard k c)) c)"
    by (simp add: su_on_apply [OF wf] hmc_cache_remove_entry_def andthen_apply get_state_def modify_def ret_def
        hm_remove_entry_def su_view_at [OF wf])
  show "su_wf bk cb (snd (?m c)) \<and> su_view bk (snd (?m c)) = snd (kv_remove cb f (bk k) (su_view bk c)) \<and>
    settled (su_wf bk cb) (su_view bk) (fst (kv_remove cb f (bk k) (su_view bk c)))
     (pbind (Done (fst (?m c))) (\<lambda>x. pbind (case x of
          None \<Rightarrow> pret None | Some (stored_k, v) \<Rightarrow> pbind (atomically (sd_notify stored_k v)) (\<lambda>_. pret x))
        (\<lambda>x. pret (f x))))"
  proof (cases "su_view bk c (bk k)")
    case None
    then have "(su_view bk c)(bk k := None) = su_view bk c" by (simp add: fun_upd_idem)
    then show ?thesis using su_remove_effect [OF wf, of k] None by (simp add: m kv_remove_def pret_def)
  next
    case (Some kv)
    moreover obtain stored_k v where "kv = (stored_k, v)" by fastforce
    ultimately show ?thesis
      using su_remove_effect [OF wf, of k] su_settled_notify [of bk cb stored_k v "f (Some (stored_k, v))"]
      by (simp add: m kv_remove_def pbind_assoc split: if_splits)
  qed
qed

text \<open>Every call on one key commits in its critical section.\<close>

interpretation su: linearizable "su_body bk" "kv_spec bk cb" "su_wf bk cb" "su_view bk"
  for bk :: "'k \<Rightarrow> 'q" and cb :: "('k, 'v) callback option"
proof unfold_locales
  fix op :: "('k, 'v) key_op"
  let ?commits = "\<lambda>h. su_body bk op = Atomic h \<and> (\<forall>c. su_wf bk cb c \<longrightarrow> su_wf bk cb (snd (h c)) \<and>
    su_view bk (snd (h c)) = snd (kv_spec bk cb op (su_view bk c)) \<and>
    settled (su_wf bk cb) (su_view bk) (fst (kv_spec bk cb op (su_view bk c))) (fst (h c)))"
  show "\<exists>h. ?commits h"
  proof (cases op)
    case (UGet k)
    show ?thesis
      unfolding UGet su_body.simps presult_def su_cache_get_def pbind_assoc hmc_cache_get_def
      by (rule commits [OF refl])
        (simp add: su_read_effect hm_get_def su_view_at pbind_assoc su_settled_hit su_settled_miss split: option.split)
  next
    case (USet k v)
    show ?thesis
      unfolding USet su_body.simps presult_def su_cache_set_def
      by (rule commits [OF refl])
        (simp add: su_on_apply hmc_cache_set_def andthen_apply get_state_def modify_def ret_def su_set_effect
          hm_get_def su_view_at pret_def fun_upd_def)
  next
    case (URemove k)
    show ?thesis
      using su_commit_remove [of bk k "\<lambda>r. ULookup (map_option snd r)" cb]
      by (simp add: URemove su_cache_remove_def presult_def pbind_assoc)
  next
    case (URemoveEntry k)
    show ?thesis using su_commit_remove [of bk k UEntry cb] by (simp add: URemoveEntry)
  next
    case (UDelete k)
    show ?thesis
      using su_commit_remove [of bk k "\<lambda>r. UBool (r \<noteq> None)" cb]
      by (simp add: UDelete su_cache_delete_def cc_cache_delete_def presult_def pbind_assoc)
  next
    case (UContains k)
    show ?thesis
      unfolding UContains su_body.simps presult_def su_cache_contains_def
      by (rule commits [OF refl]) (simp add: su_read_effect su_view_at pret_def)
  next
    case (UPeek k)
    show ?thesis
      unfolding UPeek su_body.simps presult_def su_peek_def hmc_cache_get_def
      by (rule commits [OF refl]) (simp add: su_read_effect hm_get_def su_view_at pret_def)
  qed
qed

lemma su_build_wf:
  assumes "su_build parallelism b = Inr c" "\<And>k k'. bk k = bk k' \<Longrightarrow> sub_hasher b k = sub_hasher b k'"
  shows "su_wf bk (sub_on_evict b) c" "su_view bk c = Map.empty"
proof -
  obtain n where n: "checked_shard_count parallelism (sub_shards b) = Inr n"
    and c: "c = \<lparr>sd_shards = map (\<lambda>_. shard_new []) [0..<n], sd_mask = n - 1,
         sd_hasher = sub_hasher b, sd_on_evict = sub_on_evict b, sd_calls = []\<rparr>"
    using assms(1) by (auto simp: su_build_def split: sum.splits)
  have parts: "sd_hasher c = sub_hasher b" "length (sd_shards c) = n" "sd_mask c = n - 1"
      "sd_on_evict c = sub_on_evict b" "su_routed bk c"
    by (simp_all add: su_routed_def c shard_new_def a_wf_def)
  show "su_wf bk (sub_on_evict b) c"
    unfolding su_wf_def parts using checked_shard_count_power [OF n] assms(2) parts(5) by blast
  show "su_view bk c = Map.empty"
    by (auto simp: fun_eq_iff su_view_def c shard_new_def intro!: a_find_concat_None)
qed

section \<open>Properties\<close>

text \<open>
  C22. A freshly built \<open>ShardedUnboundCache\<close> is linearizable: let any number of threads call \<open>cache_get\<close>,
  \<open>cache_set\<close>, \<open>cache_remove\<close>, \<open>cache_remove_entry\<close>, \<open>cache_delete\<close>, \<open>cache_contains\<close> and
  \<open>peek\<close> in any interleaving of their critical sections, counter updates and callbacks. When all calls
  have returned there is one order of them all that keeps the order of each thread and in which every
  call has the outcome that it has on a single map, and the shards hold what that map holds. The
  hasher must send equal keys to the same hash.
\<close>

theorem su_linearizable:
  assumes "su_build parallelism b = Inr c"
    and "\<And>k k'. bk k = bk k' \<Longrightarrow> sub_hasher b k = sub_hasher b k'"
    and "interleaving (su_body bk) (map fresh_thread opss, c) (ts, d)"
    and "\<forall>t \<in> set ts. th_now t = None"
  shows "\<exists>tr. execution (kv_spec bk (sub_on_evict b)) Map.empty (map snd tr) (su_view bk d) \<and>
    (\<forall>i < length ts. map snd (filter (\<lambda>x. fst x = i) tr) = th_done (ts ! i))"
  using su.linearizes [OF assms(3) su_build_wf(1) [OF assms(1,2)] assms(4)]
  by (simp add: su_build_wf(2) [OF assms(1,2)])

text \<open>
  Two threads on a cache of two shards: one stores the keys 1 and 2 and looks 1 up, the other one
  removes 1 after it was stored.
\<close>

definition su_demo_builder :: "(nat, nat) sharded_unbound_builder" where
  "su_demo_builder = su_builder_on_evict (\<lambda>k v. v < 50) (su_builder_shards 2
     (su_builder_default (\<lambda>k. if even k then 0 else 0x100000000)))"

definition su_demo :: "(nat, nat) sharded_unbound" where
  "su_demo = (case su_build None su_demo_builder of Inr c \<Rightarrow> c)"

definition su_demo_run :: "((nat, nat) sharded_unbound, (nat, nat) key_op, (nat, nat) key_result) thread list \<times>
    (nat, nat) sharded_unbound" where
  "su_demo_run = schedule (su_body id) [0, 0, 1, 1, 0, 1, 0, 0, 1, 0, 0, 0, 0, 0, 0, 1]
     (map fresh_thread [[USet 1 10, USet 2 20, UGet 1], [URemove 1]], su_demo)"

theorem su_linearizable_witness:
  "map th_done (fst su_demo_run) =
     [[(USet 1 10, Returns (ULookup None)), (USet 2 20, Returns (ULookup None)), (UGet 1, Returns (ULookup None))],
      [(URemove 1, Returns (ULookup (Some 10)))]] \<and>
   (\<exists>tr. execution (kv_spec id (sub_on_evict su_demo_builder)) Map.empty (map snd tr) (su_view id (snd su_demo_run)) \<and>
    (\<forall>i < length (fst su_demo_run). map snd (filter (\<lambda>x. fst x = i) tr) = th_done (fst su_demo_run ! i)))"
proof
  show "map th_done (fst su_demo_run) =
     [[(USet 1 10, Returns (ULookup None)), (USet 2 20, Returns (ULookup None)), (UGet 1, Returns (ULookup None))],
      [(URemove 1, Returns (ULookup (Some 10)))]]" by code_simp
  have "case su_build None su_demo_builder of Inl _ \<Rightarrow> False | Inr _ \<Rightarrow> True" by code_simp
  then have build: "su_build None su_demo_builder = Inr su_demo"
    unfolding su_demo_def by (cases "su_build None su_demo_builder") simp_all
  have run: "interleaving (su_body id) (map fresh_thread [[USet 1 10, USet 2 20, UGet 1], [URemove 1]], su_demo)
      (fst su_demo_run, snd su_demo_run)"
    unfolding su_demo_run_def prod.collapse by (intro schedule_interleaving interleaving.start)
  have "list_all (\<lambda>t. Option.is_none (th_now t)) (fst su_demo_run)" by code_simp
  then have idle: "\<forall>t \<in> set (fst su_demo_run). th_now t = None"
    by (simp add: list_all_iff Option.is_none_def)
  show "\<exists>tr. execution (kv_spec id (sub_on_evict su_demo_builder)) Map.empty (map snd tr) (su_view id (snd su_demo_run)) \<and>
    (\<forall>i < length (fst su_demo_run). map snd (filter (\<lambda>x. fst x = i) tr) = th_done (fst su_demo_run ! i))"
    by (rule su_linearizable [OF build _ run idle]) simp
qed

end
