(* ===== verification/Sharded_Lru.thy ===== *)
theory Sharded_Lru
  imports Lru_Cache Sharded_Common
begin

text \<open>
  \<open>src/stores/sharded/lru.rs\<close>: \<open>ShardedLruCache\<close>, one \<open>LruCache\<close> per shard behind the shard's lock.
  A capacity eviction runs the callback inside the critical section, as the inner cache carries the
  callback (its trace is \<open>lru_calls\<close> of the shard); removals run it after the lock is released (trace
  \<open>sd_calls\<close>). The inner caches do not count hits and misses: the shards do, after the lock is
  released. Evictions are counted by the inner caches.

  The inner caches are built with a hash builder each, drawn at random: \<open>random i\<close> is the one of shard
  \<open>i\<close>. \<open>table_alloc i\<close> and \<open>list_alloc i\<close> say whether its memory can be had.
\<close>

record ('s, 'k, 'v) sharded_sized = "('s, 'k, 'v) sharded" +
  sd_total_capacity :: usize

type_synonym ('k, 'v, 'q, 't) sharded_lru = "(('k, 'v, 'q, 't) lru_cache, 'k, 'v) sharded_sized"

section \<open>Building\<close>

record ('k, 'v) sharded_lru_builder =
  slb_shards :: "usize option"
  slb_max_size :: "usize option"
  slb_per_shard_max_size :: "usize option"
  slb_hasher :: "'k \<Rightarrow> u64"
  slb_on_evict :: "('k, 'v) callback option"

definition sl_builder_default :: "('k \<Rightarrow> u64) \<Rightarrow> ('k, 'v) sharded_lru_builder" where
  "sl_builder_default random = \<lparr>slb_shards = None, slb_max_size = None, slb_per_shard_max_size = None,
     slb_hasher = random, slb_on_evict = None\<rparr>"

definition sl_builder_max_size :: "usize \<Rightarrow> ('k, 'v) sharded_lru_builder \<Rightarrow> ('k, 'v) sharded_lru_builder" where
  "sl_builder_max_size n b = b\<lparr>slb_max_size := Some n\<rparr>"

definition sl_builder_per_shard_max_size :: "usize \<Rightarrow> ('k, 'v) sharded_lru_builder \<Rightarrow> ('k, 'v) sharded_lru_builder" where
  "sl_builder_per_shard_max_size n b = b\<lparr>slb_per_shard_max_size := Some n\<rparr>"

definition sl_builder_shards :: "usize \<Rightarrow> ('k, 'v) sharded_lru_builder \<Rightarrow> ('k, 'v) sharded_lru_builder" where
  "sl_builder_shards n b = b\<lparr>slb_shards := Some n\<rparr>"

definition sl_builder_hasher :: "('k \<Rightarrow> u64) \<Rightarrow> ('k, 'v) sharded_lru_builder \<Rightarrow> ('k, 'v) sharded_lru_builder" where
  "sl_builder_hasher h b = b\<lparr>slb_hasher := h\<rparr>"

definition sl_builder_on_evict :: "('k, 'v) callback \<Rightarrow> ('k, 'v) sharded_lru_builder \<Rightarrow> ('k, 'v) sharded_lru_builder" where
  "sl_builder_on_evict f b = b\<lparr>slb_on_evict := Some f\<rparr>"

definition sl_resolve_per_shard_cap :: "('k, 'v) sharded_lru_builder \<Rightarrow> usize \<Rightarrow> build_error + usize" where
  "sl_resolve_per_shard_cap b n_shards = (case (slb_max_size b, slb_per_shard_max_size b) of
       (Some _, Some _) \<Rightarrow> Inl (InvalidValue ''max_size / per_shard_max_size''
         ''`max_size` and `per_shard_max_size` are mutually exclusive'')
     | (None, None) \<Rightarrow> Inl (MissingRequired ''max_size'')
     | (Some tot, None) \<Rightarrow>
         if tot = 0 then Inl (InvalidValue ''max_size'' ''must be greater than zero'')
         else (let cap = usize_div_ceil tot n_shards in
           Inr (if n_shards > 1 then max cap 16 else cap))
     | (None, Some per) \<Rightarrow>
         if per = 0 then Inl (InvalidValue ''per_shard_max_size'' ''must be greater than zero'')
         else Inr per)"

definition sl_total_capacity :: "('k, 'v) sharded_lru_builder \<Rightarrow> usize \<Rightarrow> usize \<Rightarrow> build_error + usize" where
  "sl_total_capacity b n_shards per_shard_cap =
     (let field = (if slb_per_shard_max_size b \<noteq> None then ''per_shard_max_size'' else ''max_size'')
      in (case usize_checked_mul n_shards per_shard_cap of
            None \<Rightarrow> Inl (InvalidValue field ''effective sharded capacity overflows usize'')
          | Some tot \<Rightarrow> Inr tot))"

definition sl_resolve_shard_count :: "usize option \<Rightarrow> ('k, 'v) sharded_lru_builder \<Rightarrow> build_error + usize" where
  "sl_resolve_shard_count parallelism b = (case slb_shards b of
       Some _ \<Rightarrow> checked_shard_count parallelism (slb_shards b)
     | None \<Rightarrow> Inr (default_shard_count_for_capacity parallelism (slb_max_size b)))"

text \<open>One inner cache: it gets the callback, and stops counting hits and misses.\<close>

definition sl_build_shard :: "'t table_ops \<Rightarrow> (usize \<Rightarrow> bool) \<Rightarrow> (usize \<Rightarrow> bool) \<Rightarrow> ('q \<Rightarrow> u64)
    \<Rightarrow> usize \<Rightarrow> ('k, 'v) callback option \<Rightarrow> build_error + ('k, 'v, 'q, 't) lru_cache shard" where
  "sl_build_shard T table_alloc list_alloc random per_shard_cap on_evict =
     (case lru_build T table_alloc list_alloc (lru_builder_max_size per_shard_cap (lru_builder_default random)) of
        Inl e \<Rightarrow> Inl e
      | Inr lru \<Rightarrow> Inr (shard_new (lru_disable_hit_miss_tracking (lru\<lparr>lru_on_evict := on_evict\<rparr>))))"

definition sl_build :: "usize option \<Rightarrow> 't table_ops \<Rightarrow> (usize \<Rightarrow> usize \<Rightarrow> bool) \<Rightarrow> (usize \<Rightarrow> usize \<Rightarrow> bool)
    \<Rightarrow> (usize \<Rightarrow> 'q \<Rightarrow> u64) \<Rightarrow> ('k, 'v) sharded_lru_builder \<Rightarrow> build_error + ('k, 'v, 'q, 't) sharded_lru" where
  "sl_build parallelism T table_alloc list_alloc random b =
     (case sl_resolve_shard_count parallelism b of
        Inl e \<Rightarrow> Inl e
      | Inr n \<Rightarrow> (case sl_resolve_per_shard_cap b n of
          Inl e \<Rightarrow> Inl e
        | Inr per_shard_cap \<Rightarrow> (case sl_total_capacity b n per_shard_cap of
            Inl e \<Rightarrow> Inl e
          | Inr total_cap \<Rightarrow> (case collect_results (\<lambda>i. sl_build_shard T (table_alloc i) (list_alloc i)
                (random i) per_shard_cap (slb_on_evict b)) [0..<n] of
              Inl e \<Rightarrow> Inl e
            | Inr shards \<Rightarrow> Inr \<lparr>sd_shards = shards, sd_mask = n - 1, sd_hasher = slb_hasher b,
                sd_on_evict = slb_on_evict b, sd_calls = [], sd_total_capacity = total_cap\<rparr>))))"

text \<open>\<open>new\<close> panics (\<open>None\<close>) where building fails.\<close>

definition sl_new :: "usize option \<Rightarrow> 't table_ops \<Rightarrow> (usize \<Rightarrow> usize \<Rightarrow> bool) \<Rightarrow> (usize \<Rightarrow> usize \<Rightarrow> bool)
    \<Rightarrow> (usize \<Rightarrow> 'q \<Rightarrow> u64) \<Rightarrow> ('k \<Rightarrow> u64) \<Rightarrow> usize \<Rightarrow> ('k, 'v, 'q, 't) sharded_lru option" where
  "sl_new parallelism T table_alloc list_alloc random shard_random max_size =
     (case sl_build parallelism T table_alloc list_alloc random
         (sl_builder_max_size max_size (sl_builder_default shard_random)) of
        Inl _ \<Rightarrow> None | Inr c \<Rightarrow> Some c)"

section \<open>Calls on one key\<close>

definition sl_cache_get :: "'t table_ops \<Rightarrow> ('k \<Rightarrow> 'q) \<Rightarrow> 'k \<Rightarrow> (('k, 'v, 'q, 't) sharded_lru, 'v option) proc" where
  "sl_cache_get T bk k =
     pbind (atomically (sd_on k (lru_cache_get T bk (bk k)))) (\<lambda>val. case val of
       Some v \<Rightarrow> pbind (atomically (sd_hit k)) (\<lambda>_. pret (Some v))
     | None \<Rightarrow> pbind (atomically (sd_miss k)) (\<lambda>_. pret None))"

definition sl_cache_set :: "'t table_ops \<Rightarrow> ('k \<Rightarrow> 'q) \<Rightarrow> 'k \<Rightarrow> 'v
    \<Rightarrow> (('k, 'v, 'q, 't) sharded_lru, 'v option) proc" where
  "sl_cache_set T bk k v = atomically (sd_on k (lru_cache_set T bk k v))"

text \<open>The critical section of a removal: the entry is popped and counted.\<close>

definition sl_pop_counted :: "'t table_ops \<Rightarrow> ('k \<Rightarrow> 'q) \<Rightarrow> 'q
    \<Rightarrow> (('k, 'v, 'q, 't) lru_cache, ('k \<times> 'v) option) comp" where
  "sl_pop_counted T bk q =
     andthen (lru_pop_raw T bk q) (\<lambda>removed.
     andthen (cwhen (removed \<noteq> None) (lru_count_evictions 1)) (\<lambda>_.
     ret removed))"

definition sl_cache_remove_entry :: "'t table_ops \<Rightarrow> ('k \<Rightarrow> 'q) \<Rightarrow> 'k
    \<Rightarrow> (('k, 'v, 'q, 't) sharded_lru, ('k \<times> 'v) option) proc" where
  "sl_cache_remove_entry T bk k =
     pbind (atomically (sd_on k (sl_pop_counted T bk (bk k)))) (\<lambda>removed. case removed of
       Some (stored_k, v) \<Rightarrow> pbind (atomically (sd_notify stored_k v)) (\<lambda>_. pret removed)
     | None \<Rightarrow> pret None)"

definition sl_cache_remove :: "'t table_ops \<Rightarrow> ('k \<Rightarrow> 'q) \<Rightarrow> 'k
    \<Rightarrow> (('k, 'v, 'q, 't) sharded_lru, 'v option) proc" where
  "sl_cache_remove T bk k = pbind (sl_cache_remove_entry T bk k) (\<lambda>r. pret (map_option snd r))"

definition sl_cache_delete :: "'t table_ops \<Rightarrow> ('k \<Rightarrow> 'q) \<Rightarrow> 'k \<Rightarrow> (('k, 'v, 'q, 't) sharded_lru, bool) proc" where
  "sl_cache_delete T bk k = cc_cache_delete (sl_cache_remove_entry T bk k)"

definition sl_cache_contains :: "'t table_ops \<Rightarrow> ('k \<Rightarrow> 'q) \<Rightarrow> 'k \<Rightarrow> (('k, 'v, 'q, 't) sharded_lru, bool) proc" where
  "sl_cache_contains T bk k =
     atomically (sd_on k (andthen (lru_cache_peek T bk (bk k)) (\<lambda>v. ret (v \<noteq> None))))"

definition sl_peek :: "'t table_ops \<Rightarrow> ('k \<Rightarrow> 'q) \<Rightarrow> 'k \<Rightarrow> (('k, 'v, 'q, 't) sharded_lru, 'v option) proc" where
  "sl_peek T bk k = atomically (sd_on k (lru_cache_peek T bk (bk k)))"

definition sl_cache_peek :: "'t table_ops \<Rightarrow> ('k \<Rightarrow> 'q) \<Rightarrow> 'k \<Rightarrow> (('k, 'v, 'q, 't) sharded_lru, 'v option) proc" where
  "sl_cache_peek T bk k = sl_peek T bk k"

definition sl_cache_get_or_set_with :: "'t table_ops \<Rightarrow> ('k \<Rightarrow> 'q) \<Rightarrow> 'k \<Rightarrow> 'v outcome
    \<Rightarrow> (('k, 'v, 'q, 't) sharded_lru, 'v) proc" where
  "sl_cache_get_or_set_with T bk = cc_cache_get_or_set_with (sl_cache_get T bk) (sl_cache_set T bk)"

definition sl_cache_try_get_or_set_with :: "'t table_ops \<Rightarrow> ('k \<Rightarrow> 'q) \<Rightarrow> 'k \<Rightarrow> ('e + 'v) outcome
    \<Rightarrow> (('k, 'v, 'q, 't) sharded_lru, 'e + 'v) proc" where
  "sl_cache_try_get_or_set_with T bk = cc_cache_try_get_or_set_with (sl_cache_get T bk) (sl_cache_set T bk)"

section \<open>Calls on the whole cache\<close>

definition sl_clear :: "'t table_ops \<Rightarrow> (('k, 'v, 'q, 't) sharded_lru, unit) proc" where
  "sl_clear T = sd_each (\<lambda>i. atomically (sd_locked i (lru_cache_clear T)))"

definition sl_cache_clear :: "'t table_ops \<Rightarrow> (('k, 'v, 'q, 't) sharded_lru, unit) proc" where
  "sl_cache_clear T = sl_clear T"

definition sl_drain_counted :: "'t table_ops \<Rightarrow> (('k, 'v, 'q, 't) lru_cache, ('k \<times> 'v) list) comp" where
  "sl_drain_counted T =
     andthen (lru_drain_all T) (\<lambda>removed.
     andthen (cwhen (removed \<noteq> []) (lru_count_evictions (length removed))) (\<lambda>_.
     ret removed))"

definition sl_cache_clear_with_on_evict :: "'t table_ops \<Rightarrow> (('k, 'v, 'q, 't) sharded_lru, unit) proc" where
  "sl_cache_clear_with_on_evict T = sd_each (\<lambda>i.
     pbind (atomically (sd_locked i (sl_drain_counted T))) sd_notify_all)"

text \<open>
  The critical section of \<open>retain\<close>: the keys that the predicate dooms are collected, in the order of
  the recency list, then popped one after the other; all are counted at once.
\<close>

primrec sl_pop_each :: "'t table_ops \<Rightarrow> ('k \<Rightarrow> 'q) \<Rightarrow> 'k list
    \<Rightarrow> (('k, 'v, 'q, 't) lru_cache, ('k \<times> 'v) list) comp" where
  "sl_pop_each T bk [] = ret []"
| "sl_pop_each T bk (k # ks) =
     andthen (lru_pop_raw T bk (bk k)) (\<lambda>pair.
     andthen (sl_pop_each T bk ks) (\<lambda>pairs.
     ret (case pair of Some kv \<Rightarrow> kv # pairs | None \<Rightarrow> pairs)))"

definition sl_retain_section :: "'t table_ops \<Rightarrow> ('k \<Rightarrow> 'q) \<Rightarrow> ('k, 'v) predicate
    \<Rightarrow> (('k, 'v, 'q, 't) lru_cache, ('k \<times> 'v) list) comp" where
  "sl_retain_section T bk keep =
     andthen get_state (\<lambda>c.
     andthen (expect (ll_iter (lru_order c))) (\<lambda>entries.
     andthen (expect (filter_closure (\<lambda>(k, v). map_option Not (keep k v)) entries)) (\<lambda>doomed.
     andthen (sl_pop_each T bk (map fst doomed)) (\<lambda>removed.
     andthen (cwhen (removed \<noteq> []) (lru_count_evictions (length removed))) (\<lambda>_.
     ret removed)))))"

text \<open>
  Sweeping a shard of the stores with expiry, which count elsewhere: the keys of the doomed entries are collected in the order of the recency list,
  then popped one after the other. A panic of the predicate strikes before anything is removed.
\<close>

definition sl_sweep_section :: "'t table_ops \<Rightarrow> ('k \<Rightarrow> 'q) \<Rightarrow> ('k, 'v) predicate
    \<Rightarrow> (('k, 'v, 'q, 't) lru_cache, ('k \<times> 'v) list) comp" where
  "sl_sweep_section T bk doomed =
     andthen get_state (\<lambda>c.
     andthen (expect (ll_iter (lru_order c))) (\<lambda>entries.
     andthen (expect (filter_closure (\<lambda>(k, v). doomed k v) entries)) (\<lambda>doomed.
     sl_pop_each T bk (map fst doomed))))"

definition sl_retain :: "'t table_ops \<Rightarrow> ('k \<Rightarrow> 'q) \<Rightarrow> ('k, 'v) predicate
    \<Rightarrow> (('k, 'v, 'q, 't) sharded_lru, usize) proc" where
  "sl_retain T bk keep = sd_fold (\<lambda>i total_removed.
     pbind (atomically (sd_locked i (sl_retain_section T bk keep))) (\<lambda>removed.
     pbind (sd_notify_all removed) (\<lambda>_.
     pret (total_removed + length removed)))) 0"

definition sl_capacity :: "(('k, 'v, 'q, 't) sharded_lru, usize) proc" where
  "sl_capacity = atomically (\<lambda>c. (Returns (sd_total_capacity c), c))"

text \<open>
  The new capacity is published only after every shard has adopted its share. \<open>Done Panics\<close> is the
  \<open>assert!\<close> on zero and the \<open>expect\<close> on a capacity that overflows.
\<close>

definition sl_set_max_size :: "'t table_ops \<Rightarrow> ('k \<Rightarrow> 'q) \<Rightarrow> usize
    \<Rightarrow> (('k, 'v, 'q, 't) sharded_lru, usize option) proc" where
  "sl_set_max_size T bk max_size =
     (if max_size = 0 then Done Panics
      else pbind (atomically get_state) (\<lambda>c.
        case per_shard_cap_from_total max_size (length (sd_shards c)) of
          None \<Rightarrow> Done Panics
        | Some (per_shard_cap, total_cap) \<Rightarrow>
            pbind (sd_each (\<lambda>i. pbind (atomically (sd_locked i (lru_set_max_size T bk per_shard_cap)))
              (\<lambda>_. pret ()))) (\<lambda>_.
            pbind (atomically (\<lambda>c. (Returns (sd_total_capacity c), c\<lparr>sd_total_capacity := total_cap\<rparr>))) (\<lambda>prev.
            pret (Some prev)))))"

definition sl_try_set_max_size :: "'t table_ops \<Rightarrow> ('k \<Rightarrow> 'q) \<Rightarrow> usize
    \<Rightarrow> (('k, 'v, 'q, 't) sharded_lru, set_max_size_error + usize option) proc" where
  "sl_try_set_max_size T bk max_size =
     (if max_size = 0 then pret (Inl ZeroMaxSize)
      else pbind (atomically get_state) (\<lambda>c.
        case checked_per_shard_cap_from_total max_size (length (sd_shards c)) of
          Inl e \<Rightarrow> pret (Inl e)
        | Inr _ \<Rightarrow> pbind (sl_set_max_size T bk max_size) (\<lambda>p. pret (Inr p))))"

definition sl_len :: "'t table_ops \<Rightarrow> (('k, 'v, 'q, 't) sharded_lru, usize) proc" where
  "sl_len T = sd_sum_read (lru_cache_size T)"

definition sl_cache_size :: "'t table_ops \<Rightarrow> (('k, 'v, 'q, 't) sharded_lru, usize option) proc" where
  "sl_cache_size T = pbind (sl_len T) (\<lambda>n. pret (Some n))"

definition sl_is_empty :: "'t table_ops \<Rightarrow> (('k, 'v, 'q, 't) sharded_lru, bool) proc" where
  "sl_is_empty T = sd_all_read (\<lambda>s. lru_cache_size T s = 0)"

definition sl_shards :: "('k, 'v, 'q, 't) sharded_lru \<Rightarrow> usize" where
  "sl_shards c = length (sd_shards c)"

definition sl_shard_sizes :: "'t table_ops \<Rightarrow> (('k, 'v, 'q, 't) sharded_lru, usize list) proc" where
  "sl_shard_sizes T = sd_list_read (lru_cache_size T)"

definition sl_cache_hits :: "(('k, 'v, 'q, 't) sharded_lru, u64 option) proc" where
  "sl_cache_hits = pbind (sd_sum_load sh_hits) (\<lambda>n. pret (Some n))"

definition sl_cache_misses :: "(('k, 'v, 'q, 't) sharded_lru, u64 option) proc" where
  "sl_cache_misses = pbind (sd_sum_load sh_misses) (\<lambda>n. pret (Some n))"

definition sl_cache_capacity :: "(('k, 'v, 'q, 't) sharded_lru, usize option) proc" where
  "sl_cache_capacity = pbind sl_capacity (\<lambda>n. pret (Some n))"

definition sl_cache_evictions :: "(('k, 'v, 'q, 't) sharded_lru, u64 option) proc" where
  "sl_cache_evictions = pbind (sd_fold (\<lambda>i n.
       pbind (sd_read i lru_cache_evictions) (\<lambda>e. pret (case e of Some m \<Rightarrow> n + m | None \<Rightarrow> n))) 0) (\<lambda>n.
     pret (Some n))"

definition sl_metrics :: "'t table_ops \<Rightarrow> (('k, 'v, 'q, 't) sharded_lru, cache_metrics) proc" where
  "sl_metrics T = pbind (sd_fold (\<lambda>i (hits, misses, evictions, n).
       pbind (atomically (sd_load i sh_hits)) (\<lambda>h.
       pbind (atomically (sd_load i sh_misses)) (\<lambda>m.
       pbind (sd_read i (\<lambda>s. (lru_cache_evictions s, lru_cache_size T s))) (\<lambda>(e, l).
       pret (hits + h, misses + m, (case e of Some x \<Rightarrow> evictions + x | None \<Rightarrow> evictions), n + l)))))
       (0, 0, 0, 0)) (\<lambda>(hits, misses, evictions, n).
     pbind sl_capacity (\<lambda>cap.
     pret \<lparr>cm_hits = Some hits, cm_misses = Some misses, cm_evictions = Some evictions,
       cm_entry_count = Some n, cm_capacity = Some cap\<rparr>))"

definition sl_cache_reset_metrics :: "(('k, 'v, 'q, 't) sharded_lru, unit) proc" where
  "sl_cache_reset_metrics = sd_each (\<lambda>i.
     pbind (atomically (sd_counters i (\<lambda>sh. sh\<lparr>sh_hits := 0\<rparr>))) (\<lambda>_.
     pbind (atomically (sd_counters i (\<lambda>sh. sh\<lparr>sh_misses := 0\<rparr>))) (\<lambda>_.
     atomically (sd_locked i lru_cache_reset_metrics))))"

definition sl_cache_reset :: "'t table_ops \<Rightarrow> (('k, 'v, 'q, 't) sharded_lru, unit) proc" where
  "sl_cache_reset T = pbind (sl_clear T) (\<lambda>_. sl_cache_reset_metrics)"

text \<open>The counters of a shard are loaded while its read lock is held: one step with the copy.\<close>

definition sl_deep_clone :: "(('k, 'v, 'q, 't) sharded_lru, ('k, 'v, 'q, 't) sharded_lru) proc" where
  "sl_deep_clone =
     pbind (sd_fold (\<lambda>i shards. pbind (atomically (sd_load i (\<lambda>sh.
         \<lparr>sh_store = lru_clone (sh_store sh), sh_hits = sh_hits sh, sh_misses = sh_misses sh, sh_evictions = 0\<rparr>)))
       (\<lambda>sh. pret (shards @ [sh]))) []) (\<lambda>shards.
     pbind (atomically get_state) (\<lambda>c.
     pret \<lparr>sd_shards = shards, sd_mask = sd_mask c, sd_hasher = sd_hasher c, sd_on_evict = sd_on_evict c,
       sd_calls = [], sd_total_capacity = sd_total_capacity c\<rparr>))"

text \<open>
  \<open>copy_from\<close>: the entries of each shard, least recently used first, are inserted into the new cache,
  which no other thread can see yet. A callback that panics during an insertion ends the call.
\<close>

definition sl_copy_from :: "usize option \<Rightarrow> 't table_ops \<Rightarrow> ('k \<Rightarrow> 'q) \<Rightarrow> (usize \<Rightarrow> usize \<Rightarrow> bool)
    \<Rightarrow> (usize \<Rightarrow> usize \<Rightarrow> bool) \<Rightarrow> (usize \<Rightarrow> 'q \<Rightarrow> u64) \<Rightarrow> ('k, 'v) sharded_lru_builder
    \<Rightarrow> (('k, 'v, 'q, 't) sharded_lru, build_error + ('k, 'v, 'q, 't) sharded_lru) proc" where
  "sl_copy_from parallelism T bk table_alloc list_alloc random b =
     (case sl_build parallelism T table_alloc list_alloc random b of
        Inl e \<Rightarrow> pret (Inl e)
      | Inr new_cache \<Rightarrow>
          pbind (sd_fold (\<lambda>i c.
            pbind (atomically (sd_locked i (andthen get_state (\<lambda>s. expect (lru_iter_order_raw s))))) (\<lambda>entries.
            case run_calls (\<lambda>(k, v). sl_cache_set T bk k v) (rev entries) c of
              Some d \<Rightarrow> pret d | None \<Rightarrow> Done Panics)) new_cache) (\<lambda>c.
          pret (Inr c)))"

section \<open>Shorthands and asynchronous twins\<close>

definition sl_get :: "'t table_ops \<Rightarrow> ('k \<Rightarrow> 'q) \<Rightarrow> 'k \<Rightarrow> (('k, 'v, 'q, 't) sharded_lru, 'v option) proc" where
  "sl_get = sl_cache_get"

definition sl_set :: "'t table_ops \<Rightarrow> ('k \<Rightarrow> 'q) \<Rightarrow> 'k \<Rightarrow> 'v \<Rightarrow> (('k, 'v, 'q, 't) sharded_lru, 'v option) proc" where
  "sl_set = sl_cache_set"

definition sl_get_or_set_with :: "'t table_ops \<Rightarrow> ('k \<Rightarrow> 'q) \<Rightarrow> 'k \<Rightarrow> 'v outcome
    \<Rightarrow> (('k, 'v, 'q, 't) sharded_lru, 'v) proc" where
  "sl_get_or_set_with = sl_cache_get_or_set_with"

definition sl_remove :: "'t table_ops \<Rightarrow> ('k \<Rightarrow> 'q) \<Rightarrow> 'k \<Rightarrow> (('k, 'v, 'q, 't) sharded_lru, 'v option) proc" where
  "sl_remove = sl_cache_remove"

definition sl_remove_entry :: "'t table_ops \<Rightarrow> ('k \<Rightarrow> 'q) \<Rightarrow> 'k
    \<Rightarrow> (('k, 'v, 'q, 't) sharded_lru, ('k \<times> 'v) option) proc" where
  "sl_remove_entry = sl_cache_remove_entry"

definition sl_delete :: "'t table_ops \<Rightarrow> ('k \<Rightarrow> 'q) \<Rightarrow> 'k \<Rightarrow> (('k, 'v, 'q, 't) sharded_lru, bool) proc" where
  "sl_delete = sl_cache_delete"

definition sl_reset :: "'t table_ops \<Rightarrow> (('k, 'v, 'q, 't) sharded_lru, unit) proc" where
  "sl_reset = sl_cache_reset"

definition sl_contains :: "'t table_ops \<Rightarrow> ('k \<Rightarrow> 'q) \<Rightarrow> 'k \<Rightarrow> (('k, 'v, 'q, 't) sharded_lru, bool) proc" where
  "sl_contains = sl_cache_contains"

definition sl_async_cache_get :: "'t table_ops \<Rightarrow> ('k \<Rightarrow> 'q) \<Rightarrow> 'k \<Rightarrow> (('k, 'v, 'q, 't) sharded_lru, 'v option) proc" where
  "sl_async_cache_get = sl_cache_get"

definition sl_async_cache_set :: "'t table_ops \<Rightarrow> ('k \<Rightarrow> 'q) \<Rightarrow> 'k \<Rightarrow> 'v
    \<Rightarrow> (('k, 'v, 'q, 't) sharded_lru, 'v option) proc" where
  "sl_async_cache_set = sl_cache_set"

definition sl_async_cache_remove :: "'t table_ops \<Rightarrow> ('k \<Rightarrow> 'q) \<Rightarrow> 'k
    \<Rightarrow> (('k, 'v, 'q, 't) sharded_lru, 'v option) proc" where
  "sl_async_cache_remove = sl_cache_remove"

definition sl_async_cache_remove_entry :: "'t table_ops \<Rightarrow> ('k \<Rightarrow> 'q) \<Rightarrow> 'k
    \<Rightarrow> (('k, 'v, 'q, 't) sharded_lru, ('k \<times> 'v) option) proc" where
  "sl_async_cache_remove_entry = sl_cache_remove_entry"

definition sl_async_cache_clear :: "'t table_ops \<Rightarrow> (('k, 'v, 'q, 't) sharded_lru, unit) proc" where
  "sl_async_cache_clear = sl_cache_clear"

definition sl_async_cache_reset :: "'t table_ops \<Rightarrow> (('k, 'v, 'q, 't) sharded_lru, unit) proc" where
  "sl_async_cache_reset = sl_cache_reset"

definition sl_async_cache_reset_metrics :: "(('k, 'v, 'q, 't) sharded_lru, unit) proc" where
  "sl_async_cache_reset_metrics = sl_cache_reset_metrics"

definition sl_async_cache_contains :: "'t table_ops \<Rightarrow> ('k \<Rightarrow> 'q) \<Rightarrow> 'k
    \<Rightarrow> (('k, 'v, 'q, 't) sharded_lru, bool) proc" where
  "sl_async_cache_contains = sl_cache_contains"

definition sl_async_cache_peek :: "'t table_ops \<Rightarrow> ('k \<Rightarrow> 'q) \<Rightarrow> 'k
    \<Rightarrow> (('k, 'v, 'q, 't) sharded_lru, 'v option) proc" where
  "sl_async_cache_peek = sl_cache_peek"

definition sl_async_cache_get_or_set_with :: "'t table_ops \<Rightarrow> ('k \<Rightarrow> 'q) \<Rightarrow> 'k \<Rightarrow> 'v outcome
    \<Rightarrow> (('k, 'v, 'q, 't) sharded_lru, 'v) proc" where
  "sl_async_cache_get_or_set_with T bk =
     cc_async_cache_get_or_set_with (sl_async_cache_get T bk) (sl_async_cache_set T bk)"

definition sl_async_cache_try_get_or_set_with :: "'t table_ops \<Rightarrow> ('k \<Rightarrow> 'q) \<Rightarrow> 'k \<Rightarrow> ('e + 'v) outcome
    \<Rightarrow> (('k, 'v, 'q, 't) sharded_lru, 'e + 'v) proc" where
  "sl_async_cache_try_get_or_set_with T bk =
     cc_async_cache_try_get_or_set_with (sl_async_cache_get T bk) (sl_async_cache_set T bk)"

end
