(* ===== verification/Sharded_Lru_Correct.thy ===== *)
theory Sharded_Lru_Correct
  imports Sharded_Lru Sharded_Refine Lru_Invariants
begin

text \<open>
  \<open>ShardedLruCache\<close> is a row of independent LRU caches: concurrent calls on single keys take effect
  one at a time on the specification of the cache that the hash of the key selects, and no interleaving
  of calls makes a shard exceed its share of the capacity.
\<close>

section \<open>Critical sections\<close>

definition al_pop_counted :: "('k \<Rightarrow> 'q) \<Rightarrow> 'q \<Rightarrow> (('k, 'v) alru, ('k \<times> 'v) option) comp" where
  "al_pop_counted bk q =
     andthen (al_pop bk q) (\<lambda>removed.
     andthen (cwhen (removed \<noteq> None) (al_count_evictions 1)) (\<lambda>_.
     ret removed))"

definition al_drain_counted :: "(('k, 'v) alru, ('k \<times> 'v) list) comp" where
  "al_drain_counted =
     andthen (andthen get_state (\<lambda>s. andthen (al_set_items []) (\<lambda>_. ret (al_items s)))) (\<lambda>removed.
     andthen (cwhen (removed \<noteq> []) (al_count_evictions (length removed))) (\<lambda>_.
     ret removed))"

primrec al_pop_each :: "('k \<Rightarrow> 'q) \<Rightarrow> 'k list \<Rightarrow> (('k, 'v) alru, ('k \<times> 'v) list) comp" where
  "al_pop_each bk [] = ret []"
| "al_pop_each bk (k # ks) =
     andthen (al_pop bk (bk k)) (\<lambda>pair.
     andthen (al_pop_each bk ks) (\<lambda>pairs.
     ret (case pair of Some kv \<Rightarrow> kv # pairs | None \<Rightarrow> pairs)))"

definition al_retain_section :: "('k \<Rightarrow> 'q) \<Rightarrow> ('k, 'v) predicate \<Rightarrow> (('k, 'v) alru, ('k \<times> 'v) list) comp" where
  "al_retain_section bk keep =
     andthen get_state (\<lambda>s.
     andthen (expect (filter_closure (\<lambda>(k, v). map_option Not (keep k v)) (al_items s))) (\<lambda>doomed.
     andthen (al_pop_each bk (map fst doomed)) (\<lambda>removed.
     andthen (cwhen (removed \<noteq> []) (al_count_evictions (length removed))) (\<lambda>_.
     ret removed))))"

context hash_table
begin

lemma refines_pop_counted [refines_rules]:
  "refines (lru_wf entries bk) lru_abs (sl_pop_counted T bk q) (al_pop_counted bk q)"
  unfolding sl_pop_counted_def al_pop_counted_def by (intro refines_rules)

lemma refines_drain_counted [refines_rules]:
  "refines (lru_wf entries bk) lru_abs (sl_drain_counted T) al_drain_counted"
  unfolding sl_drain_counted_def al_drain_counted_def by (intro refines_rules)

lemma refines_pop_each [refines_rules]:
  "refines (lru_wf entries bk) lru_abs (sl_pop_each T bk ks) (al_pop_each bk ks)"
  by (induction ks) (auto intro!: refines_rules)

lemma refines_retain_section [refines_rules]:
  "refines (lru_wf entries bk) lru_abs (sl_retain_section T bk keep) (al_retain_section bk keep)"
  unfolding sl_retain_section_def al_retain_section_def
  by (rule refines_read) (simp add: lru_iter_wf expect_Some, intro refines_rules)

end

section \<open>Calls on one key\<close>

fun sl_body :: "'t table_ops \<Rightarrow> ('k \<Rightarrow> 'q) \<Rightarrow> ('k, 'v) key_op
    \<Rightarrow> (('k, 'v, 'q, 't) sharded_lru, ('k, 'v) key_result) proc" where
  "sl_body T bk (UGet k) = presult (sl_cache_get T bk k) ULookup"
| "sl_body T bk (USet k v) = presult (sl_cache_set T bk k v) ULookup"
| "sl_body T bk (URemove k) = presult (sl_cache_remove T bk k) ULookup"
| "sl_body T bk (URemoveEntry k) = presult (sl_cache_remove_entry T bk k) UEntry"
| "sl_body T bk (UDelete k) = presult (sl_cache_delete T bk k) UBool"
| "sl_body T bk (UContains k) = presult (sl_cache_contains T bk k) UBool"
| "sl_body T bk (UPeek k) = presult (sl_peek T bk k) ULookup"

text \<open>
  The specification: a list of LRU caches, one per shard. A removal panics if the callback does, after
  the entry is gone.
\<close>

definition al_remove_at :: "('k \<Rightarrow> 'q) \<Rightarrow> ('k, 'v) sharding \<Rightarrow> 'k \<Rightarrow> (('k \<times> 'v) option \<Rightarrow> 'r)
    \<Rightarrow> (('k, 'v) alru list, 'r) comp" where
  "al_remove_at bk g k f = andthen (at_shard (route g k) (al_pop_counted bk (bk k))) (\<lambda>removed.
     run_closure (reported (sg_on_evict g) f removed))"

fun al_keyed :: "('k \<Rightarrow> 'q) \<Rightarrow> ('k, 'v) sharding \<Rightarrow> ('k, 'v) key_op
    \<Rightarrow> (('k, 'v) alru list, ('k, 'v) key_result) comp" where
  "al_keyed bk g (UGet k) = andthen (at_shard (route g k) (al_get_mut_if bk (bk k) (\<lambda>_. True) id)) (\<lambda>r. ret (ULookup r))"
| "al_keyed bk g (USet k v) = andthen (at_shard (route g k) (andthen (al_set bk k v) (\<lambda>d. ret (map_option snd d))))
     (\<lambda>r. ret (ULookup r))"
| "al_keyed bk g (URemove k) = al_remove_at bk g k (\<lambda>r. ULookup (map_option snd r))"
| "al_keyed bk g (URemoveEntry k) = al_remove_at bk g k UEntry"
| "al_keyed bk g (UDelete k) = al_remove_at bk g k (\<lambda>r. UBool (r \<noteq> None))"
| "al_keyed bk g (UContains k) = andthen (at_shard (route g k) (andthen (al_peek bk (bk k)) (\<lambda>v. ret (v \<noteq> None))))
     (\<lambda>r. ret (UBool r))"
| "al_keyed bk g (UPeek k) = andthen (at_shard (route g k) (al_peek bk (bk k))) (\<lambda>r. ret (ULookup r))"

context hash_table
begin

lemma sl_commit_remove:
  "\<exists>h. presult (sl_cache_remove_entry T bk k) f = Atomic h \<and> (\<forall>c. sd_sound g (lru_wf entries bk) c \<longrightarrow>
    sd_sound g (lru_wf entries bk) (snd (h c)) \<and>
    sd_view lru_abs (snd (h c)) = snd (al_remove_at bk g k f (sd_view lru_abs c)) \<and>
    settled (sd_sound g (lru_wf entries bk)) (sd_view lru_abs) (fst (al_remove_at bk g k f (sd_view lru_abs c))) (fst (h c)))"
  by (rule commits_on [OF refines_pop_counted settled_reported])
    (simp_all add: presult_def sl_cache_remove_entry_def pbind_assoc al_remove_at_def)

end

sublocale hash_table \<subseteq> sl: linearizable "sl_body T bk" "al_keyed bk g" "sd_sound g (lru_wf entries bk)" "sd_view lru_abs"
  for bk :: "'k \<Rightarrow> 'q" and g :: "('k, 'v) sharding"
proof unfold_locales
  fix op :: "('k, 'v) key_op"
  let ?commits = "\<lambda>h. sl_body T bk op = Atomic h \<and> (\<forall>c. sd_sound g (lru_wf entries bk) c \<longrightarrow>
    sd_sound g (lru_wf entries bk) (snd (h c)) \<and> sd_view lru_abs (snd (h c)) = snd (al_keyed bk g op (sd_view lru_abs c)) \<and>
    settled (sd_sound g (lru_wf entries bk)) (sd_view lru_abs) (fst (al_keyed bk g op (sd_view lru_abs c))) (fst (h c)))"
  show "\<exists>h. ?commits h"
  proof (cases op)
    case (UGet k)
    show ?thesis
      unfolding UGet sl_body.simps presult_def sl_cache_get_def pbind_assoc
      by (rule commits_on [OF refines_cache_get settled_lookup refl]) (simp add: ret_run_closure)
  next
    case (USet k v)
    show ?thesis
      unfolding USet sl_body.simps presult_def sl_cache_set_def
      by (rule commits_on [OF refines_cache_set settled_pret refl]) (simp add: ret_run_closure)
  next
    case (URemove k)
    show ?thesis
      using sl_commit_remove [of bk k "\<lambda>r. ULookup (map_option snd r)" g]
      by (simp add: URemove sl_cache_remove_def presult_def pbind_assoc)
  next
    case (URemoveEntry k)
    show ?thesis using sl_commit_remove [of bk k UEntry g] by (simp add: URemoveEntry)
  next
    case (UDelete k)
    show ?thesis
      using sl_commit_remove [of bk k "\<lambda>r. UBool (r \<noteq> None)" g]
      by (simp add: UDelete sl_cache_delete_def cc_cache_delete_def presult_def pbind_assoc)
  next
    case (UContains k)
    show ?thesis
      unfolding UContains sl_body.simps presult_def sl_cache_contains_def
      by (rule commits_on [OF refines_andthen [OF refines_peek refines_ret] settled_pret refl])
        (simp add: ret_run_closure)
  next
    case (UPeek k)
    show ?thesis
      unfolding UPeek sl_body.simps presult_def sl_peek_def
      by (rule commits_on [OF refines_peek settled_pret refl]) (simp add: ret_run_closure)
  qed
qed

section \<open>A fresh cache\<close>

definition al_fresh :: "usize \<Rightarrow> ('k, 'v) callback option \<Rightarrow> ('k, 'v) alru" where
  "al_fresh cap cb = \<lparr>al_items = [], al_capacity = cap, al_hits = 0, al_misses = 0, al_evictions = 0,
     al_on_evict = cb, al_track_hit_miss = False, al_calls = []\<rparr>"

lemma lru_wf_tracking [simp]:
  "lru_wf entries bk (lru_disable_hit_miss_tracking c) = lru_wf entries bk c"
  "lru_wf entries bk (c\<lparr>lru_on_evict := cb\<rparr>) = lru_wf entries bk c"
  by (simp_all add: lru_wf_def lru_slots_def lru_disable_hit_miss_tracking_def)

lemma sl_resolve_shard_count_power: "sl_resolve_shard_count parallelism b = Inr n \<Longrightarrow> \<exists>j. n = 2 ^ j"
  using default_shard_count_for_capacity_power checked_shard_count_power
  by (auto simp: sl_resolve_shard_count_def split: option.splits)

context hash_table
begin

lemma sl_build_shard_wf:
  assumes "sl_build_shard T table_alloc list_alloc hb cap cb = Inr sh"
  shows "lru_wf entries bk (sh_store sh)" "lru_abs (sh_store sh) = al_fresh cap cb"
proof -
  obtain lru where lru: "lru_build T table_alloc list_alloc (lru_builder_max_size cap (lru_builder_default hb)) = Inr lru"
    and sh: "sh = shard_new (lru_disable_hit_miss_tracking (lru\<lparr>lru_on_evict := cb\<rparr>))"
    using assms by (auto simp: sl_build_shard_def split: sum.splits)
  note w = lru_build_wf [OF lru]
  show "lru_wf entries bk (sh_store sh)" using w(1) by (simp add: sh shard_new_def)
  have "lru_abs (sh_store sh) = (lru_abs lru)\<lparr>al_on_evict := cb, al_track_hit_miss := False\<rparr>"
    by (simp add: sh shard_new_def lru_disable_hit_miss_tracking_def lru_abs_def lru_items_def)
  then show "lru_abs (sh_store sh) = al_fresh cap cb"
    using w(2) by (simp add: al_fresh_def lru_builder_max_size_def)
qed

lemma sl_build_sound:
  assumes "sl_build parallelism T table_alloc list_alloc random b = Inr c"
  obtains cap where "sd_sound (sd_sharding c) (lru_wf entries bk) c"
    "sd_view lru_abs c = replicate (length (sd_shards c)) (al_fresh cap (slb_on_evict b))"
    "sl_resolve_per_shard_cap b (length (sd_shards c)) = Inr cap"
    "sd_total_capacity c = length (sd_shards c) * cap" "0 < length (sd_shards c)" "sd_on_evict c = slb_on_evict b"
proof -
  let ?shard = "\<lambda>cap i. sl_build_shard T (table_alloc i) (list_alloc i) (random i) cap (slb_on_evict b)"
  obtain n cap tot shards where n: "sl_resolve_shard_count parallelism b = Inr n"
      and cap: "sl_resolve_per_shard_cap b n = Inr cap" and tot: "sl_total_capacity b n cap = Inr tot"
      and shards: "collect_results (?shard cap) [0..<n] = Inr shards"
      and c: "c = \<lparr>sd_shards = shards, sd_mask = n - 1, sd_hasher = slb_hasher b,
                sd_on_evict = slb_on_evict b, sd_calls = [], sd_total_capacity = tot\<rparr>"
    using assms by (auto simp: sl_build_def split: sum.splits)
  have all: "list_all2 (\<lambda>i sh. ?shard cap i = Inr sh) [0..<n] shards"
    by (rule collect_results_Inr [OF shards])
  have len: "length shards = n" using list_all2_lengthD [OF all] by simp
  have each: "?shard cap i = Inr (shards ! i)" if "i < n" for i
    using list_all2_nthD [OF all, of i] that by simp
  have wf: "lru_wf entries bk (sh_store sh) \<and> lru_abs (sh_store sh) = al_fresh cap (slb_on_evict b)"
    if "sh \<in> set shards" for sh
    using that sl_build_shard_wf [OF each] by (auto simp: in_set_conv_nth len)
  have pow: "\<exists>j. n = 2 ^ j" by (rule sl_resolve_shard_count_power [OF n])
  have v: "sd_view lru_abs c = replicate (length (sd_shards c)) (al_fresh cap (slb_on_evict b))"
    using wf by (auto simp: sd_view_def c intro!: replicate_eqI)
  have "tot = n * cap"
    using tot by (auto simp: sl_total_capacity_def usize_checked_mul_def Let_def split: option.splits if_splits)
  then show ?thesis
    using that [of cap] wf pow v cap by (auto simp: sd_sound_def sd_sharding_def c len)
qed

lemma sharded_lru_linearizes:
  assumes "sl_build parallelism T table_alloc list_alloc random b = Inr c"
    and "interleaving (sl_body T bk) (map fresh_thread opss, c) (ts, d)"
    and "\<forall>t \<in> set ts. th_now t = None"
  shows "\<exists>tr. execution (al_keyed bk (sd_sharding c)) (sd_view lru_abs c) (map snd tr) (sd_view lru_abs d) \<and>
    (\<forall>i < length ts. map snd (filter (\<lambda>x. fst x = i) tr) = th_done (ts ! i))"
proof -
  have "sd_sound (sd_sharding c) (lru_wf entries bk) c" by (rule sl_build_sound [OF assms(1)])
  then show ?thesis by (rule sl.linearizes [OF assms(2) _ assms(3)])
qed

end

section \<open>All calls\<close>

text \<open>
  The calls that do not change the capacity, reading ones included, and the ones that do.
\<close>

datatype (plugins only: code size) (dead 'k, dead 'v, dead 'e) sl_call =
    SKey "('k, 'v) key_op"
  | SGetOrSet 'k "'v outcome"
  | STryGetOrSet 'k "('e + 'v) outcome"
  | SAsyncGetOrSet 'k "'v outcome"
  | SAsyncTryGetOrSet 'k "('e + 'v) outcome"
  | SRetain "('k, 'v) predicate"
  | SClear
  | SClearWithOnEvict
  | SReset
  | SResetMetrics
  | SLen
  | SIsEmpty
  | SShardSizes
  | SMetrics
  | SCapacity

datatype (plugins only: code size) (dead 'k, dead 'v, dead 'e) sl_resizing_call =
    SCall "('k, 'v, 'e) sl_call"
  | SSetMaxSize usize
  | STrySetMaxSize usize

datatype (plugins only: code size) (dead 'k, dead 'v, dead 'e) sl_result =
    SKeyResult "('k, 'v) key_result"
  | SValue 'v
  | STry "'e + 'v"
  | SUnit
  | SFlag bool
  | SCount usize
  | SCounts "usize list"
  | SMetricsResult cache_metrics
  | SPrevious "usize option"
  | STryPrevious "set_max_size_error + usize option"

fun sl_call_body :: "'t table_ops \<Rightarrow> ('k \<Rightarrow> 'q) \<Rightarrow> ('k, 'v, 'e) sl_call
    \<Rightarrow> (('k, 'v, 'q, 't) sharded_lru, ('k, 'v, 'e) sl_result) proc" where
  "sl_call_body T bk (SKey op) = presult (sl_body T bk op) SKeyResult"
| "sl_call_body T bk (SGetOrSet k f) = presult (sl_cache_get_or_set_with T bk k f) SValue"
| "sl_call_body T bk (STryGetOrSet k f) = presult (sl_cache_try_get_or_set_with T bk k f) STry"
| "sl_call_body T bk (SAsyncGetOrSet k f) = presult (sl_async_cache_get_or_set_with T bk k f) SValue"
| "sl_call_body T bk (SAsyncTryGetOrSet k f) = presult (sl_async_cache_try_get_or_set_with T bk k f) STry"
| "sl_call_body T bk (SRetain keep) = presult (sl_retain T bk keep) SCount"
| "sl_call_body T bk SClear = presult (sl_clear T) (\<lambda>_. SUnit)"
| "sl_call_body T bk SClearWithOnEvict = presult (sl_cache_clear_with_on_evict T) (\<lambda>_. SUnit)"
| "sl_call_body T bk SReset = presult (sl_cache_reset T) (\<lambda>_. SUnit)"
| "sl_call_body T bk SResetMetrics = presult sl_cache_reset_metrics (\<lambda>_. SUnit)"
| "sl_call_body T bk SLen = presult (sl_len T) SCount"
| "sl_call_body T bk SIsEmpty = presult (sl_is_empty T) SFlag"
| "sl_call_body T bk SShardSizes = presult (sl_shard_sizes T) SCounts"
| "sl_call_body T bk SMetrics = presult (sl_metrics T) SMetricsResult"
| "sl_call_body T bk SCapacity = presult sl_capacity SCount"

fun sl_resizing_body :: "'t table_ops \<Rightarrow> ('k \<Rightarrow> 'q) \<Rightarrow> ('k, 'v, 'e) sl_resizing_call
    \<Rightarrow> (('k, 'v, 'q, 't) sharded_lru, ('k, 'v, 'e) sl_result) proc" where
  "sl_resizing_body T bk (SCall op) = sl_call_body T bk op"
| "sl_resizing_body T bk (SSetMaxSize n) = presult (sl_set_max_size T bk n) SPrevious"
| "sl_resizing_body T bk (STrySetMaxSize n) = presult (sl_try_set_max_size T bk n) STryPrevious"

text \<open>
  The invariant of a shard: that of the LRU specification and, if \<open>fixed\<close> is given, that the capacity
  is the one the shard was built with.
\<close>

definition al_bounded :: "('k \<Rightarrow> 'q) \<Rightarrow> ('k, 'v) callback option \<Rightarrow> usize option \<Rightarrow> ('k, 'v) alru \<Rightarrow> bool" where
  "al_bounded bk cb fixed s \<longleftrightarrow> al_inv bk cb s \<and> (\<forall>cap. fixed = Some cap \<longrightarrow> al_capacity s = cap)"

lemma keeps_bounded:
  assumes "keeps (al_inv bk cb) m" "\<And>cap. keeps (\<lambda>s. al_capacity s = cap) m"
  shows "keeps (al_bounded bk cb fixed) m"
  using assms by (simp add: keeps_def al_bounded_def)

lemma al_capacity_steps:
  "keeps (\<lambda>s. al_capacity s = cap) (al_set_items xs)"
  "keeps (\<lambda>s. al_capacity s = cap) al_record_hit" "keeps (\<lambda>s. al_capacity s = cap) al_record_miss"
  "keeps (\<lambda>s. al_capacity s = cap) (al_count_evictions n)" "keeps (\<lambda>s. al_capacity s = cap) (al_notify k v)"
  "keeps (\<lambda>s. al_capacity s = cap) al_reset_metrics" "keeps (\<lambda>s. al_capacity s = cap) (al_drop_entry bk kv)"
  by (simp_all add: keeps_def al_set_items_def al_record_hit_def al_record_miss_def al_count_evictions_def
      al_notify_apply al_reset_metrics_def modify_def al_drop_entry_apply)

lemma al_capacity_check: "keeps (\<lambda>s. al_capacity s = cap) (al_check_capacity bk)"
  by (rule keepsI, unfold al_check_capacity_def, rule keepsD [OF keeps_foreach [OF al_capacity_steps(7)]]) simp

lemmas al_capacity_rules = al_capacity_steps al_capacity_check keeps_rules

lemma al_inv_pop_each: "keeps (al_inv bk cb) (al_pop_each bk ks)"
  by (induction ks) (auto intro!: keeps_rules)

lemma al_capacity_pop: "keeps (\<lambda>s. al_capacity s = cap) (al_pop bk q)"
  unfolding al_pop_def by (intro al_capacity_rules)

lemma al_capacity_pop_each: "keeps (\<lambda>s. al_capacity s = cap) (al_pop_each bk ks)"
  by (induction ks) (auto intro!: al_capacity_pop keeps_rules)

lemma al_bounded_sections:
  "keeps (al_bounded bk cb fixed) (al_get_mut_if bk q is_valid upd)"
  "keeps (al_bounded bk cb fixed) (andthen (al_set bk k v) (\<lambda>d. ret (map_option snd d)))"
  "keeps (al_bounded bk cb fixed) (al_pop_counted bk q)"
  "keeps (al_bounded bk cb fixed) (al_peek bk q)"
  "keeps (al_bounded bk cb fixed) (al_set_items [])"
  "keeps (al_bounded bk cb fixed) al_drain_counted"
  "keeps (al_bounded bk cb fixed) (al_retain_section bk keep)"
  "keeps (al_bounded bk cb fixed) al_reset_metrics"
  unfolding al_pop_counted_def al_drain_counted_def al_retain_section_def
  by (intro keeps_bounded keeps_rules al_inv_pop_each;
      (simp add: al_get_mut_if_def al_set_def al_peek_def)?, intro al_capacity_rules al_capacity_pop al_capacity_pop_each)+

definition sl_shard_ok :: "('t \<Rightarrow> (u64 \<times> usize) multiset) \<Rightarrow> ('k \<Rightarrow> 'q) \<Rightarrow> ('k, 'v) callback option \<Rightarrow> usize option
    \<Rightarrow> ('k, 'v, 'q, 't) lru_cache \<Rightarrow> bool" where
  "sl_shard_ok entries bk cb fixed = (\<lambda>s. lru_wf entries bk s \<and> al_bounded bk cb fixed (lru_abs s))"

context hash_table
begin

lemma sl_sections:
  "keeps (sl_shard_ok entries bk cb fixed) (lru_cache_get T bk q)"
  "keeps (sl_shard_ok entries bk cb fixed) (lru_cache_set T bk k v)"
  "keeps (sl_shard_ok entries bk cb fixed) (sl_pop_counted T bk q)"
  "keeps (sl_shard_ok entries bk cb fixed) (lru_cache_peek T bk q)"
  "keeps (sl_shard_ok entries bk cb fixed) (lru_cache_clear T)"
  "keeps (sl_shard_ok entries bk cb fixed) (sl_drain_counted T)"
  "keeps (sl_shard_ok entries bk cb fixed) (sl_retain_section T bk keep)"
  "keeps (sl_shard_ok entries bk cb fixed) lru_cache_reset_metrics"
  unfolding sl_shard_ok_def by (rule refines_keeps, rule refines_rules, rule al_bounded_sections)+

lemma sl_safe_parts:
  "safe (sd_sound g (sl_shard_ok entries bk cb fixed)) (\<lambda>_. True) (sl_cache_get T bk k)"
  "safe (sd_sound g (sl_shard_ok entries bk cb fixed)) (\<lambda>_. True) (sl_cache_set T bk k v)"
  "safe (sd_sound g (sl_shard_ok entries bk cb fixed)) (\<lambda>_. True) (sl_cache_remove_entry T bk k)"
  "safe (sd_sound g (sl_shard_ok entries bk cb fixed)) (\<lambda>_. True) (sl_clear T)"
  "safe (sd_sound g (sl_shard_ok entries bk cb fixed)) (\<lambda>_. True) sl_cache_reset_metrics"
  unfolding sl_cache_get_def sl_cache_set_def sl_cache_remove_entry_def sl_clear_def sl_cache_reset_metrics_def
  by (intro safe_rules keeps_rules sl_sections keeps_counters; simp)+

lemma sl_safe_reads:
  "safe (sd_sound g (sl_shard_ok entries bk cb fixed)) (\<lambda>_. True) (sl_len T)"
  "safe (sd_sound g (sl_shard_ok entries bk cb fixed)) (\<lambda>_. True) (sl_is_empty T)"
  "safe (sd_sound g (sl_shard_ok entries bk cb fixed)) (\<lambda>_. True) (sl_shard_sizes T)"
  "safe (sd_sound g (sl_shard_ok entries bk cb fixed)) (\<lambda>_. True) sl_capacity"
  "safe (sd_sound g (sl_shard_ok entries bk cb fixed)) (\<lambda>_. True) (sl_metrics T)"
  unfolding sl_len_def sl_is_empty_def sl_shard_sizes_def sl_capacity_def sl_metrics_def
    sd_sum_read_def sd_all_read_def sd_list_read_def
  by (intro safe_rules keeps_rules | simp add: keeps_def)+

lemma sl_safe_call: "safe (sd_sound g (sl_shard_ok entries bk cb fixed)) (\<lambda>_. True) (sl_call_body T bk op)"
proof (cases op)
  case (SKey op')
  show ?thesis
    unfolding SKey
    by (cases op') (simp_all add: sl_cache_remove_def sl_cache_delete_def sl_cache_contains_def sl_peek_def;
      (intro safe_rules keeps_rules sl_safe_parts sl_sections))+
qed (simp_all add: sl_cache_get_or_set_with_def sl_cache_try_get_or_set_with_def sl_async_cache_get_or_set_with_def
    sl_async_cache_try_get_or_set_with_def sl_async_cache_get_def sl_async_cache_set_def sl_retain_def
    sl_cache_clear_with_on_evict_def sl_cache_reset_def;
    (intro safe_rules keeps_rules safe_get_or_set sl_safe_parts sl_safe_reads sl_sections))+

lemma sl_set_max_size_keeps: "keeps (sl_shard_ok entries bk cb None) (lru_set_max_size T bk n)"
  unfolding sl_shard_ok_def
  by (rule refines_keeps [OF refines_set_max_size]) (simp add: keeps_def al_bounded_def al_inv_set_max_size_at)

lemma sl_safe_resizing:
  "safe (sd_sound g (sl_shard_ok entries bk cb None)) (\<lambda>_. True) (sl_resizing_body T bk op)"
proof -
  have "keeps (sd_sound g (sl_shard_ok entries bk cb None))
      (\<lambda>c. (Returns (sd_total_capacity c), c\<lparr>sd_total_capacity := n\<rparr>))" for n
    by (simp add: keeps_def sd_sound_def)
  then have resize: "safe (sd_sound g (sl_shard_ok entries bk cb None)) (\<lambda>_. True) (sl_set_max_size T bk n)" for n
    unfolding sl_set_max_size_def
    by (intro safe_rules keeps_rules sl_set_max_size_keeps)
  show ?thesis
    by (cases op; simp only: sl_resizing_body.simps sl_try_set_max_size_def)
      (intro safe_rules keeps_rules sl_safe_call resize)+
qed

end

text \<open>The invariant is the contract of \<open>safe_calls\<close>: it holds in every interleaving of the calls.\<close>

sublocale hash_table \<subseteq> sl_calls: safe_calls "sl_call_body T bk" "sd_sound g (sl_shard_ok entries bk cb fixed)" "\<lambda>_ _. True"
  for bk :: "'k \<Rightarrow> 'q" and g :: "('k, 'v) sharding" and cb fixed
  by unfold_locales (rule sl_safe_call)

sublocale hash_table \<subseteq> sl_resizing: safe_calls "sl_resizing_body T bk" "sd_sound g (sl_shard_ok entries bk cb None)" "\<lambda>_ _. True"
  for bk :: "'k \<Rightarrow> 'q" and g :: "('k, 'v) sharding" and cb
  by unfold_locales (rule sl_safe_resizing)

lemma sl_resolve_per_shard_cap_pos:
  assumes "sl_resolve_per_shard_cap b n = Inr cap" "0 < n"
  shows "0 < cap"
  using assms usize_div_ceil_bounds(3) [OF assms(2)]
  by (auto simp: sl_resolve_per_shard_cap_def Let_def split: option.splits if_splits)

lemma al_fresh_bounded: "0 < cap \<Longrightarrow> fixed = None \<or> fixed = Some cap \<Longrightarrow> al_bounded bk cb fixed (al_fresh cap cb)"
  by (auto simp: al_bounded_def al_inv_def al_fresh_def)

context hash_table
begin

lemma sl_build_bounded:
  assumes "sl_build parallelism T table_alloc list_alloc random b = Inr c"
  obtains cap where "sd_sound (sd_sharding c) (sl_shard_ok entries bk (slb_on_evict b) (Some cap)) c"
    "sd_sound (sd_sharding c) (sl_shard_ok entries bk (slb_on_evict b) None) c"
    "sd_total_capacity c = length (sd_shards c) * cap"
proof -
  obtain cap where c: "sd_sound (sd_sharding c) (lru_wf entries bk) c"
    "sd_view lru_abs c = replicate (length (sd_shards c)) (al_fresh cap (slb_on_evict b))"
    "sl_resolve_per_shard_cap b (length (sd_shards c)) = Inr cap"
    "sd_total_capacity c = length (sd_shards c) * cap" "0 < length (sd_shards c)"
    using sl_build_sound [OF assms] by metis
  have "lru_abs (sh_store sh) = al_fresh cap (slb_on_evict b)" if "sh \<in> set (sd_shards c)" for sh
    using that c(2) by (metis (no_types, lifting) in_set_replicate length_map list.set_map image_eqI sd_view_def)
  then have "sd_sound (sd_sharding c) (sl_shard_ok entries bk (slb_on_evict b) fixed) c"
    if "fixed = None \<or> fixed = Some cap" for fixed
    using c(1) al_fresh_bounded [OF sl_resolve_per_shard_cap_pos [OF c(3,5)] that, of bk "slb_on_evict b"]
    by (simp add: sd_sound_def sl_shard_ok_def)
  then show ?thesis using that [of cap] c(4) by simp
qed

lemma sl_shard_ok_size:
  assumes "sl_shard_ok entries bk cb fixed s" "quiet cb"
  shows "lru_cache_size T s \<le> lru_capacity s" "fixed = Some cap \<Longrightarrow> lru_capacity s = cap"
  using assms by (auto simp: sl_shard_ok_def al_bounded_def al_inv_def lru_size_wf)

lemma sharded_lru_total:
  assumes "sl_build parallelism T table_alloc list_alloc random b = Inr c" "quiet (slb_on_evict b)"
    and "interleaving (sl_call_body T bk) (map fresh_thread opss, c) (ts, d)"
  shows "(\<Sum>sh\<leftarrow>sd_shards d. lru_cache_size T (sh_store sh)) \<le> sd_total_capacity c"
proof -
  obtain cap where c: "sd_sound (sd_sharding c) (sl_shard_ok entries bk (slb_on_evict b) (Some cap)) c"
    "sd_total_capacity c = length (sd_shards c) * cap"
    using sl_build_bounded [OF assms(1)] by metis
  have d: "sd_sound (sd_sharding c) (sl_shard_ok entries bk (slb_on_evict b) (Some cap)) d"
    by (rule sl_calls.holds [OF assms(3) c(1)])
  have "lru_cache_size T (sh_store sh) \<le> cap" if "sh \<in> set (sd_shards d)" for sh
    using sl_shard_ok_size [OF sd_soundD(1) [OF d that] assms(2)] by simp
  then have "(\<Sum>sh\<leftarrow>sd_shards d. lru_cache_size T (sh_store sh)) \<le> (\<Sum>sh\<leftarrow>sd_shards d. cap)"
    by (rule sum_list_mono)
  then show ?thesis using d c(2) by (simp add: sd_sound_def sd_sharding_def sum_list_triv)
qed

lemma sharded_lru_resizing:
  assumes "sl_build parallelism T table_alloc list_alloc random b = Inr c" "quiet (slb_on_evict b)"
    and "interleaving (sl_resizing_body T bk) (map fresh_thread opss, c) (ts, d)" "sh \<in> set (sd_shards d)"
  shows "lru_cache_size T (sh_store sh) \<le> lru_capacity (sh_store sh)"
proof -
  have "sd_sound (sd_sharding c) (sl_shard_ok entries bk (slb_on_evict b) None) c"
    using sl_build_bounded [OF assms(1)] by metis
  then have "sd_sound (sd_sharding c) (sl_shard_ok entries bk (slb_on_evict b) None) d"
    by (rule sl_resizing.holds [OF assms(3)])
  then show ?thesis by (rule sl_shard_ok_size(1) [OF sd_soundD(1) [OF _ assms(4)] assms(2)])
qed

end

section \<open>Properties\<close>

text \<open>
  C29. A freshly built \<open>ShardedLruCache\<close> is linearizable with respect to a row of LRU caches: let any
  number of threads call \<open>cache_get\<close>, \<open>cache_set\<close>, \<open>cache_remove\<close>, \<open>cache_remove_entry\<close>,
  \<open>cache_delete\<close>, \<open>cache_contains\<close> and \<open>peek\<close> in any interleaving of their critical sections, counter
  updates and callbacks. When all calls have returned there is one order of them all that keeps the
  order of each thread and in which every call has the outcome it has on the LRU specification of the
  shard that the hash of its key selects, evictions and panics of the callback included; the shards
  hold the entries, in the order of their last use, that the specifications hold.
\<close>

theorem sl_linearizable:
  assumes "hash_table T entries" "sl_build parallelism T table_alloc list_alloc random b = Inr c"
    and "interleaving (sl_body T bk) (map fresh_thread opss, c) (ts, d)"
    and "\<forall>t \<in> set ts. th_now t = None"
  shows "\<exists>tr. execution (al_keyed bk (sd_sharding c)) (sd_view lru_abs c) (map snd tr) (sd_view lru_abs d) \<and>
    (\<forall>i < length ts. map snd (filter (\<lambda>x. fst x = i) tr) = th_done (ts ! i))"
  by (rule hash_table.sharded_lru_linearizes [OF assms])

text \<open>
  A cache of two shards of one entry each; even keys go to the first shard. One thread stores 1 and 3,
  which evicts 1, and looks both up; the other one stores 2 and removes 3.
\<close>

definition sl_demo_builder :: "(nat, nat) sharded_lru_builder" where
  "sl_demo_builder = sl_builder_on_evict (\<lambda>k v. True) (sl_builder_per_shard_max_size 1 (sl_builder_shards 2
     (sl_builder_default (\<lambda>k. if even k then 0 else 0x100000000))))"

definition sl_demo :: "(nat, nat, nat, (u64 \<times> usize) list) sharded_lru" where
  "sl_demo = (case sl_build None list_table (\<lambda>_ _. True) (\<lambda>_ _. True) (\<lambda>_ _. 0) sl_demo_builder of Inr c \<Rightarrow> c)"

definition sl_demo_ops :: "(nat, nat) key_op list list" where
  "sl_demo_ops = [[USet 1 10, USet 3 30, UGet 1, UGet 3], [USet 2 20, URemove 3]]"

definition sl_demo_run :: "((nat, nat, nat, (u64 \<times> usize) list) sharded_lru, (nat, nat) key_op, (nat, nat) key_result) thread list \<times>
    (nat, nat, nat, (u64 \<times> usize) list) sharded_lru" where
  "sl_demo_run = schedule (sl_body list_table id) [0, 0, 0, 0, 1, 1, 0, 1, 0, 1, 1, 0, 0, 0, 0, 1, 0, 0, 0, 0, 1]
     (map fresh_thread sl_demo_ops, sl_demo)"

lemma sl_demo_build:
  "sl_build None list_table (\<lambda>_ _. True) (\<lambda>_ _. True) (\<lambda>_ _. 0) sl_demo_builder = Inr sl_demo"
proof -
  have "case sl_build None list_table (\<lambda>_ _. True) (\<lambda>_ _. True) (\<lambda>_ _. 0) sl_demo_builder of
      Inl _ \<Rightarrow> False | Inr (_ :: (nat, nat, nat, (u64 \<times> usize) list) sharded_lru) \<Rightarrow> True" by code_simp
  then show ?thesis unfolding sl_demo_def by (auto split: sum.splits)
qed

theorem sl_linearizable_witness:
  "map th_done (fst sl_demo_run) =
     [[(USet 1 10, Returns (ULookup None)), (USet 3 30, Returns (ULookup None)), (UGet 1, Returns (ULookup None)),
       (UGet 3, Returns (ULookup None))],
      [(USet 2 20, Returns (ULookup None)), (URemove 3, Returns (ULookup (Some 30)))]] \<and>
   (\<exists>tr. execution (al_keyed id (sd_sharding sl_demo)) (sd_view lru_abs sl_demo) (map snd tr) (sd_view lru_abs (snd sl_demo_run)) \<and>
    (\<forall>i < length (fst sl_demo_run). map snd (filter (\<lambda>x. fst x = i) tr) = th_done (fst sl_demo_run ! i)))"
proof
  show "map th_done (fst sl_demo_run) =
     [[(USet 1 10, Returns (ULookup None)), (USet 3 30, Returns (ULookup None)), (UGet 1, Returns (ULookup None)),
       (UGet 3, Returns (ULookup None))],
      [(USet 2 20, Returns (ULookup None)), (URemove 3, Returns (ULookup (Some 30)))]]" by code_simp
  have run: "interleaving (sl_body list_table id) (map fresh_thread sl_demo_ops, sl_demo) (fst sl_demo_run, snd sl_demo_run)"
    unfolding sl_demo_run_def prod.collapse by (intro schedule_interleaving interleaving.start)
  have "list_all (\<lambda>t. Option.is_none (th_now t)) (fst sl_demo_run)" by code_simp
  then have idle: "\<forall>t \<in> set (fst sl_demo_run). th_now t = None"
    by (simp add: list_all_iff Option.is_none_def)
  show "\<exists>tr. execution (al_keyed id (sd_sharding sl_demo)) (sd_view lru_abs sl_demo) (map snd tr) (sd_view lru_abs (snd sl_demo_run)) \<and>
    (\<forall>i < length (fst sl_demo_run). map snd (filter (\<lambda>x. fst x = i) tr) = th_done (fst sl_demo_run ! i))"
    by (rule sl_linearizable [OF lt.hash_table_axioms sl_demo_build run idle])
qed





text \<open>
  Resizing a \<open>ShardedLruCache\<close> while other threads use it never leaves a shard over the capacity
  the shard has: at every moment of every interleaving of all calls, \<open>set_max_size\<close> and
  \<open>try_set_max_size\<close> included, every shard holds at most as many entries as its own capacity allows,
  if the callback does not panic.
\<close>

theorem sl_resize_bounded:
  assumes "hash_table T entries" "sl_build parallelism T table_alloc list_alloc random b = Inr c"
    and "quiet (slb_on_evict b)" "interleaving (sl_resizing_body T bk) (map fresh_thread opss, c) (ts, d)"
    and "sh \<in> set (sd_shards d)"
  shows "lru_cache_size T (sh_store sh) \<le> lru_capacity (sh_store sh)"
  by (rule hash_table.sharded_lru_resizing [OF assms])

text \<open>A cache of one shard is shrunk from three entries to one while another thread inserts.\<close>

definition sl_one_builder :: "(nat, nat) sharded_lru_builder" where
  "sl_one_builder = sl_builder_max_size 3 (sl_builder_shards 1 (sl_builder_default (\<lambda>k. 0)))"

definition sl_one :: "(nat, nat, nat, (u64 \<times> usize) list) sharded_lru" where
  "sl_one = (case sl_build None list_table (\<lambda>_ _. True) (\<lambda>_ _. True) (\<lambda>_ _. 0) sl_one_builder of Inr c \<Rightarrow> c)"

definition sl_one_calls :: "(nat, nat, unit) sl_resizing_call list list" where
  "sl_one_calls = [[SCall (SKey (USet 1 10)), SCall (SKey (USet 2 20)), SCall (SKey (USet 3 30))], [SSetMaxSize 1]]"

definition sl_one_run :: "((nat, nat, nat, (u64 \<times> usize) list) sharded_lru, (nat, nat, unit) sl_resizing_call,
    (nat, nat, unit) sl_result) thread list \<times> (nat, nat, nat, (u64 \<times> usize) list) sharded_lru" where
  "sl_one_run = schedule (sl_resizing_body list_table id) [0, 0, 0, 1, 0, 0, 0, 1, 1, 1, 1, 0, 0, 1, 1, 1]
     (map fresh_thread sl_one_calls, sl_one)"

lemma sl_one_build: "sl_build None list_table (\<lambda>_ _. True) (\<lambda>_ _. True) (\<lambda>_ _. 0) sl_one_builder = Inr sl_one"
proof -
  have "case sl_build None list_table (\<lambda>_ _. True) (\<lambda>_ _. True) (\<lambda>_ _. 0) sl_one_builder of
      Inl _ \<Rightarrow> False | Inr (_ :: (nat, nat, nat, (u64 \<times> usize) list) sharded_lru) \<Rightarrow> True" by code_simp
  then show ?thesis unfolding sl_one_def by (auto split: sum.splits)
qed

theorem sl_resize_bounded_witness:
  "map (\<lambda>sh. lru_items (sh_store sh)) (sd_shards (snd sl_one_run)) = [[(3, 30)]] \<and>
   lru_cache_size list_table (sh_store (hd (sd_shards (snd sl_one_run)))) \<le> lru_capacity (sh_store (hd (sd_shards (snd sl_one_run))))"
proof
  show items: "map (\<lambda>sh. lru_items (sh_store sh)) (sd_shards (snd sl_one_run)) = [[(3, 30)]]" by code_simp
  have run: "interleaving (sl_resizing_body list_table id) (map fresh_thread sl_one_calls, sl_one) (fst sl_one_run, snd sl_one_run)"
    unfolding sl_one_run_def prod.collapse by (intro schedule_interleaving interleaving.start)
  have q: "quiet (slb_on_evict sl_one_builder)"
    by (simp add: quiet_def sl_one_builder_def sl_builder_max_size_def sl_builder_shards_def sl_builder_default_def)
  have "hd (sd_shards (snd sl_one_run)) \<in> set (sd_shards (snd sl_one_run))"
    using items by (intro hd_in_set) auto
  then show "lru_cache_size list_table (sh_store (hd (sd_shards (snd sl_one_run)))) \<le> lru_capacity (sh_store (hd (sd_shards (snd sl_one_run))))"
    by (rule sl_resize_bounded [OF lt.hash_table_axioms sl_one_build q run])
qed

end
