(* ===== verification/Sharded_Clock.thy ===== *)
theory Sharded_Clock
  imports Sharded_Refine
begin

text \<open>
  What the sharded stores with expiry share: the clock, which every step may read and which only moves
  forward, the lifetime and the refresh flag as atomics, and the counting and reporting of dropped
  entries. Where the code reads the clock or the lifetime inside a critical section, the reading is
  part of that step.
\<close>

record ('s, 'k, 'v) sharded_clocked = "('s, 'k, 'v) sharded" +
  sd_clock :: instant

record ('s, 'k, 'v) sharded_timed = "('s, 'k, 'v) sharded_clocked" +
  sd_ttl_nanos :: u64
  sd_refresh :: bool

definition sd_now :: "(('s, 'k, 'v, 'z) sharded_clocked_scheme, instant) comp" where
  "sd_now c = (Returns (sd_clock c), c)"

text \<open>A critical section on the shard of a key that also reads the clock.\<close>

definition sd_on_now :: "'k \<Rightarrow> (instant \<Rightarrow> ('s, 'a) comp) \<Rightarrow> (('s, 'k, 'v, 'z) sharded_clocked_scheme, 'a) comp" where
  "sd_on_now k m c = sd_on k (m (sd_clock c)) c"

definition sd_locked_now :: "usize \<Rightarrow> (instant \<Rightarrow> ('s, 'a) comp) \<Rightarrow> (('s, 'k, 'v, 'z) sharded_clocked_scheme, 'a) comp" where
  "sd_locked_now i m c = sd_locked i (m (sd_clock c)) c"

text \<open>Counting evictions at a shard, and telling the callback about the entries that were dropped.\<close>

definition sd_count_at :: "usize \<Rightarrow> nat \<Rightarrow> (('s, 'k, 'v, 'z) sharded_scheme, unit) comp" where
  "sd_count_at i n = sd_counters i (\<lambda>sh. sh\<lparr>sh_evictions := sh_evictions sh + of_nat n\<rparr>)"

definition sd_evicted :: "'k \<Rightarrow> 'k \<Rightarrow> 'v \<Rightarrow> (('s, 'k, 'v, 'z) sharded_scheme, unit) proc" where
  "sd_evicted k stored_k v =
     pbind (atomically (\<lambda>c. sd_count_at (sd_index k c) 1 c)) (\<lambda>_. atomically (sd_notify stored_k v))"

definition sd_evicted_all :: "usize \<Rightarrow> ('k \<times> 'v) list \<Rightarrow> (('s, 'k, 'v, 'z) sharded_scheme, unit) proc" where
  "sd_evicted_all i removed =
     (if removed = [] then pret ()
      else pbind (atomically (sd_count_at i (length removed))) (\<lambda>_. sd_notify_all removed))"

text \<open>The dropped entries of shard \<open>i\<close> when there is no callback: only their number matters.\<close>

definition sd_dropped :: "usize \<Rightarrow> nat \<Rightarrow> (('s, 'k, 'v, 'z) sharded_scheme, unit) proc" where
  "sd_dropped i n = (if n > 0 then atomically (sd_count_at i n) else pret ())"

text \<open>Counting a hit or a miss before the call returns \<open>r\<close>.\<close>

definition sd_count_hit :: "'k \<Rightarrow> 'r \<Rightarrow> (('s, 'k, 'v, 'z) sharded_scheme, 'r) proc" where
  "sd_count_hit k r = pbind (atomically (sd_hit k)) (\<lambda>_. pret r)"

definition sd_count_miss :: "'k \<Rightarrow> 'r \<Rightarrow> (('s, 'k, 'v, 'z) sharded_scheme, 'r) proc" where
  "sd_count_miss k r = pbind (atomically (sd_miss k)) (\<lambda>_. pret r)"

section \<open>Lifetimes\<close>

definition sd_ttl :: "(('s, 'k, 'v, 'z) sharded_timed_scheme, duration option) proc" where
  "sd_ttl = atomically (\<lambda>c. (Returns (decode_ttl (sd_ttl_nanos c)), c))"

definition sd_set_ttl :: "duration \<Rightarrow> (('s, 'k, 'v, 'z) sharded_timed_scheme, duration option) proc" where
  "sd_set_ttl ttl = atomically (\<lambda>c. (Returns (decode_ttl (sd_ttl_nanos c)), c\<lparr>sd_ttl_nanos := encode_ttl ttl\<rparr>))"

definition sd_unset_ttl :: "(('s, 'k, 'v, 'z) sharded_timed_scheme, duration option) proc" where
  "sd_unset_ttl = atomically (\<lambda>c. (Returns (decode_ttl (sd_ttl_nanos c)), c\<lparr>sd_ttl_nanos := 0\<rparr>))"

definition sd_try_set_ttl :: "duration \<Rightarrow> (('s, 'k, 'v, 'z) sharded_timed_scheme, set_ttl_error + duration option) proc" where
  "sd_try_set_ttl ttl = (if ttl = 0 then pret (Inl ZeroTtl) else pbind (sd_set_ttl ttl) (\<lambda>p. pret (Inr p)))"

definition sd_refresh_on_hit :: "(('s, 'k, 'v, 'z) sharded_timed_scheme, bool) proc" where
  "sd_refresh_on_hit = atomically (\<lambda>c. (Returns (sd_refresh c), c))"

definition sd_set_refresh_on_hit :: "bool \<Rightarrow> (('s, 'k, 'v, 'z) sharded_timed_scheme, bool) proc" where
  "sd_set_refresh_on_hit refresh = atomically (\<lambda>c. (Returns (sd_refresh c), c\<lparr>sd_refresh := refresh\<rparr>))"

definition expired_at :: "'v timed_entry \<Rightarrow> instant \<Rightarrow> bool" where
  "expired_at entry now = (case te_expires_at entry of None \<Rightarrow> False | Some t \<Rightarrow> now \<ge> t)"

definition nanos_expires_at :: "u64 \<Rightarrow> instant \<Rightarrow> instant option" where
  "nanos_expires_at nanos now = (if nanos = 0 then None else instant_checked_add now (unat nanos))"

section \<open>Steps that keep the shards sound\<close>

lemma expired_at_mono: "expired_at e now \<Longrightarrow> now \<le> later \<Longrightarrow> expired_at e later"
  by (auto simp: expired_at_def split: option.splits)

lemma nanos_expires_at_live: "\<not> expired_at \<lparr>te_expires_at = nanos_expires_at nanos now, te_value = v\<rparr> now"
proof (cases "nanos = 0")
  case False
  then have "0 < unat nanos" using unat_eq_zero [of nanos] by simp
  then show ?thesis by (simp add: expired_at_def nanos_expires_at_def instant_checked_add_def)
qed (simp add: expired_at_def nanos_expires_at_def)

lemma sd_clock_keeps [keeps_rules]:
  "(\<And>now. keeps ok (m now)) \<Longrightarrow> keeps (sd_sound g ok) (sd_on_now k m)"
  "(\<And>now. keeps ok (m now)) \<Longrightarrow> keeps (sd_sound g ok) (sd_locked_now i m)"
  "keeps (sd_sound g ok) (sd_count_at i n)"
  "keeps (sd_sound g ok) (\<lambda>c. sd_count_at (f c) n c)"
  "keeps (sd_sound g ok) sd_now"
  by (rule keepsI; simp add: sd_on_now_def sd_locked_now_def sd_count_at_def sd_counters_sound sd_now_def
      keepsD [OF sd_keeps(1)] keepsD [OF sd_keeps(2)])+

lemma sd_clock_safe [safe_rules]:
  "safe (sd_sound g ok) (\<lambda>_. True) (sd_evicted k stored_k v)"
  "safe (sd_sound g ok) (\<lambda>_. True) (sd_evicted_all i removed)"
  "safe (sd_sound g ok) (\<lambda>_. True) (sd_dropped i n)"
  unfolding sd_evicted_def sd_evicted_all_def sd_dropped_def by (intro safe_rules keeps_rules)+

text \<open>Counting and reporting change no inner store; a panic of the callback ends the call.\<close>

lemma sd_count_at_sound:
  assumes "sd_sound g ok c"
  shows "sd_count_at (sd_index k c) n c = (Returns (), snd (sd_count_at (sd_index k c) n c))"
    "sd_sound g ok (snd (sd_count_at i n c))" "sd_view av (snd (sd_count_at i n c)) = sd_view av c"
  using sd_counters_returns [OF sd_index_bound [OF assms]]
  by (simp_all add: sd_count_at_def sd_counters_sound [OF assms] prod_eq_iff)

lemma settled_evicted:
  assumes "settled (sd_sound g ok) (sd_view av) r rest"
  shows "settled (sd_sound g ok) (sd_view av) (if cb_ok (sg_on_evict g) stored_k v then r else Panics)
    (pbind (sd_evicted k stored_k v) (\<lambda>_. rest))"
  unfolding sd_evicted_def pbind_assoc
proof (rule settled_pbind [where out = "Returns ()"])
  show "settled (sd_sound g ok) (sd_view av) (if cb_ok (sg_on_evict g) stored_k v then r else Panics)
      (pbind (Done (Returns ())) (\<lambda>_. pbind (atomically (sd_notify stored_k v)) (\<lambda>_. rest)))"
    unfolding pbind.simps outcome.case
    by (rule settled_pbind [where out = "if cb_ok (sg_on_evict g) stored_k v then Returns () else Panics"])
      (use assms in \<open>simp_all add: sd_notify_sound\<close>)
qed (metis sd_count_at_sound fst_conv)

lemma sd_counted_settled:
  "settled (sd_sound g ok) (sd_view av) (Returns r) (sd_count_hit k r)"
  "settled (sd_sound g ok) (sd_view av) (Returns r) (sd_count_miss k r)"
  unfolding sd_count_hit_def sd_count_miss_def
  by (rule settled_counted [OF disjI1 [OF refl]], rule settled_counted [OF disjI2 [OF refl]])

lemma sd_counted_safe [safe_rules]:
  "safe (sd_sound g ok) (\<lambda>_. True) (sd_count_hit k r)" "safe (sd_sound g ok) (\<lambda>_. True) (sd_count_miss k r)"
  unfolding sd_count_hit_def sd_count_miss_def by (intro safe_rules keeps_rules)+

lemma sd_timed_safe [safe_rules]:
  "safe (sd_sound g ok) (\<lambda>_. True) (sd_set_ttl d)" "safe (sd_sound g ok) (\<lambda>_. True) sd_unset_ttl"
  "safe (sd_sound g ok) (\<lambda>_. True) (sd_set_refresh_on_hit b)" "safe (sd_sound g ok) (\<lambda>_. True) (sd_try_set_ttl d)"
  unfolding sd_set_ttl_def sd_unset_ttl_def sd_set_refresh_on_hit_def sd_try_set_ttl_def
  by (intro safe_rules; simp add: keeps_def sd_sound_def)+

lemma sd_read_state [keeps_rules]: "keeps I (\<lambda>c. (Returns (f c), c))"
  by (simp add: keeps_def)

end
