(* ===== verification/Sharded_Ttl.thy ===== *)
theory Sharded_Ttl
  imports Hash_Map Sharded_Clock
begin

text \<open>
  \<open>src/stores/sharded/ttl.rs\<close>: \<open>ShardedTtlCache\<close>, hash maps of entries with an expiry instant behind one
  lock per shard. A lookup without refresh-on-hit reads under the read lock; if the entry has expired
  it takes the write lock and looks again, against the same instant, before it removes the entry.
  Dropped entries are counted and reported after the lock is released, in this order.
\<close>

type_synonym ('k, 'v) sharded_ttl = "(('k, 'v timed_entry) hash_map, 'k, 'v) sharded_timed"

section \<open>Building\<close>

record ('k, 'v) sharded_ttl_builder =
  stb_shards :: "usize option"
  stb_per_shard_initial_capacity :: "usize option"
  stb_ttl :: "duration option"
  stb_refresh :: bool
  stb_hasher :: "'k \<Rightarrow> u64"
  stb_on_evict :: "('k, 'v) callback option"

definition st_builder_default :: "('k \<Rightarrow> u64) \<Rightarrow> ('k, 'v) sharded_ttl_builder" where
  "st_builder_default random = \<lparr>stb_shards = None, stb_per_shard_initial_capacity = None, stb_ttl = None,
     stb_refresh = False, stb_hasher = random, stb_on_evict = None\<rparr>"

definition st_builder_ttl :: "duration \<Rightarrow> ('k, 'v) sharded_ttl_builder \<Rightarrow> ('k, 'v) sharded_ttl_builder" where
  "st_builder_ttl ttl b = b\<lparr>stb_ttl := Some ttl\<rparr>"

definition st_builder_ttl_secs :: "nat \<Rightarrow> ('k, 'v) sharded_ttl_builder \<Rightarrow> ('k, 'v) sharded_ttl_builder" where
  "st_builder_ttl_secs secs b = st_builder_ttl (secs * 1000000000) b"

definition st_builder_ttl_millis :: "nat \<Rightarrow> ('k, 'v) sharded_ttl_builder \<Rightarrow> ('k, 'v) sharded_ttl_builder" where
  "st_builder_ttl_millis millis b = st_builder_ttl (millis * 1000000) b"

definition st_builder_shards :: "usize \<Rightarrow> ('k, 'v) sharded_ttl_builder \<Rightarrow> ('k, 'v) sharded_ttl_builder" where
  "st_builder_shards n b = b\<lparr>stb_shards := Some n\<rparr>"

definition st_builder_per_shard_initial_capacity ::
    "usize \<Rightarrow> ('k, 'v) sharded_ttl_builder \<Rightarrow> ('k, 'v) sharded_ttl_builder" where
  "st_builder_per_shard_initial_capacity n b = b\<lparr>stb_per_shard_initial_capacity := Some n\<rparr>"

definition st_builder_refresh_on_hit :: "bool \<Rightarrow> ('k, 'v) sharded_ttl_builder \<Rightarrow> ('k, 'v) sharded_ttl_builder" where
  "st_builder_refresh_on_hit refresh b = b\<lparr>stb_refresh := refresh\<rparr>"

definition st_builder_hasher :: "('k \<Rightarrow> u64) \<Rightarrow> ('k, 'v) sharded_ttl_builder \<Rightarrow> ('k, 'v) sharded_ttl_builder" where
  "st_builder_hasher h b = b\<lparr>stb_hasher := h\<rparr>"

definition st_builder_on_evict :: "('k, 'v) callback \<Rightarrow> ('k, 'v) sharded_ttl_builder \<Rightarrow> ('k, 'v) sharded_ttl_builder" where
  "st_builder_on_evict f b = b\<lparr>stb_on_evict := Some f\<rparr>"

text \<open>\<open>now\<close> is what the clock shows when the store is built.\<close>

definition st_build :: "usize option \<Rightarrow> instant \<Rightarrow> ('k, 'v) sharded_ttl_builder \<Rightarrow> build_error + ('k, 'v) sharded_ttl" where
  "st_build parallelism now b = (case stb_ttl b of
       None \<Rightarrow> Inl (MissingRequired ''ttl'')
     | Some ttl \<Rightarrow> (case validate_ttl ttl of
         Inl e \<Rightarrow> Inl e
       | Inr _ \<Rightarrow> (case checked_shard_count parallelism (stb_shards b) of
           Inl e \<Rightarrow> Inl e
         | Inr n \<Rightarrow> Inr \<lparr>sd_shards = map (\<lambda>_. shard_new []) [0..<n], sd_mask = n - 1, sd_hasher = stb_hasher b,
             sd_on_evict = stb_on_evict b, sd_calls = [], sd_clock = now, sd_ttl_nanos = encode_ttl ttl,
             sd_refresh = stb_refresh b\<rparr>)))"

definition st_new :: "usize option \<Rightarrow> ('k \<Rightarrow> u64) \<Rightarrow> instant \<Rightarrow> duration \<Rightarrow> ('k, 'v) sharded_ttl option" where
  "st_new parallelism random now ttl =
     (case st_build parallelism now (st_builder_ttl ttl (st_builder_default random)) of Inl _ \<Rightarrow> None | Inr c \<Rightarrow> Some c)"

section \<open>Lookups\<close>

text \<open>What a lookup finds in the shard; an expired entry is removed in the same critical section.\<close>

datatype ('k, 'v) st_found =
    Absent
  | Expired "('k \<times> 'v timed_entry) option"
  | Live 'v

definition st_get_refreshing :: "('k \<Rightarrow> 'q) \<Rightarrow> 'q \<Rightarrow> u64 \<Rightarrow> instant
    \<Rightarrow> (('k, 'v timed_entry) hash_map, ('k, 'v) st_found) comp" where
  "st_get_refreshing bk q nanos now m = (case hm_get bk q m of
       None \<Rightarrow> (Returns Absent, m)
     | Some entry \<Rightarrow>
         if expired_at entry now
         then (case hm_remove_entry bk q m of (removed, m') \<Rightarrow> (Returns (Expired removed), m'))
         else (Returns (Live (te_value entry)), hm_update bk q (\<lambda>e. e\<lparr>te_expires_at :=
           (case nanos_expires_at nanos now of Some t \<Rightarrow> Some t | None \<Rightarrow> te_expires_at e)\<rparr>) m))"

text \<open>The look under the read lock: whether the entry has expired, its value if not, and the instant.\<close>

definition st_get_reading :: "('k \<Rightarrow> 'q) \<Rightarrow> 'q \<Rightarrow> instant
    \<Rightarrow> (('k, 'v timed_entry) hash_map, (bool \<times> 'v option \<times> instant) option) comp" where
  "st_get_reading bk q now m = (case hm_get bk q m of
       None \<Rightarrow> (Returns None, m)
     | Some entry \<Rightarrow>
         let expired = expired_at entry now
         in (Returns (Some (expired, if \<not> expired then Some (te_value entry) else None, now)), m))"

text \<open>The second look, under the write lock.\<close>

definition st_get_rechecking :: "('k \<Rightarrow> 'q) \<Rightarrow> 'q \<Rightarrow> instant
    \<Rightarrow> (('k, 'v timed_entry) hash_map, ('k, 'v) st_found) comp" where
  "st_get_rechecking bk q now m = (case (case hm_get bk q m of
         Some entry \<Rightarrow> if \<not> expired_at entry now then Some (te_value entry) else None | None \<Rightarrow> None) of
       Some fresh_value \<Rightarrow> (Returns (Live fresh_value), m)
     | None \<Rightarrow> (case hm_remove_entry bk q m of (removed, m') \<Rightarrow> (Returns (Expired removed), m')))"

definition st_finish :: "'k \<Rightarrow> ('k, 'v) st_found \<Rightarrow> (('k, 'v) sharded_ttl, 'v option) proc" where
  "st_finish k found = (case found of
       Live v \<Rightarrow> sd_count_hit k (Some v)
     | Expired removed \<Rightarrow> pbind (case removed of
           Some (stored_k, entry) \<Rightarrow> sd_evicted k stored_k (te_value entry)
         | None \<Rightarrow> pret ()) (\<lambda>_. sd_count_miss k None)
     | Absent \<Rightarrow> sd_count_miss k None)"

definition st_cache_get :: "('k \<Rightarrow> 'q) \<Rightarrow> 'k \<Rightarrow> (('k, 'v) sharded_ttl, 'v option) proc" where
  "st_cache_get bk k =
     pbind (atomically (\<lambda>c. (Returns (sd_refresh c), c))) (\<lambda>refresh.
     if refresh
     then pbind (atomically (\<lambda>c. sd_on_now k (st_get_refreshing bk (bk k) (sd_ttl_nanos c)) c)) (st_finish k)
     else pbind (atomically (sd_on_now k (st_get_reading bk (bk k)))) (\<lambda>found. case found of
         None \<Rightarrow> sd_count_miss k None
       | Some (expired, val, now) \<Rightarrow>
           if expired then pbind (atomically (sd_on k (st_get_rechecking bk (bk k) now))) (st_finish k)
           else sd_count_hit k val))"

text \<open>Peeking: under the read lock, nothing is counted and nothing removed.\<close>

definition st_peek :: "('k \<Rightarrow> 'q) \<Rightarrow> 'k \<Rightarrow> (('k, 'v) sharded_ttl, 'v option) proc" where
  "st_peek bk k = atomically (sd_on_now k (\<lambda>now m. (Returns (case hm_get bk (bk k) m of
       Some entry \<Rightarrow> if \<not> expired_at entry now then Some (te_value entry) else None | None \<Rightarrow> None), m)))"

definition st_cache_peek :: "('k \<Rightarrow> 'q) \<Rightarrow> 'k \<Rightarrow> (('k, 'v) sharded_ttl, 'v option) proc" where
  "st_cache_peek bk k = st_peek bk k"

definition st_cache_contains :: "('k \<Rightarrow> 'q) \<Rightarrow> 'k \<Rightarrow> (('k, 'v) sharded_ttl, bool) proc" where
  "st_cache_contains bk k = atomically (sd_on_now k (\<lambda>now m. (Returns (case hm_get bk (bk k) m of
       Some entry \<Rightarrow> \<not> expired_at entry now | None \<Rightarrow> False), m)))"

definition st_cache_get_with_expiry_status :: "('k \<Rightarrow> 'q) \<Rightarrow> 'k \<Rightarrow> (('k, 'v) sharded_ttl, 'v option \<times> bool) proc" where
  "st_cache_get_with_expiry_status bk k =
     pbind (atomically (\<lambda>c. (Returns (sd_refresh c), c))) (\<lambda>refresh.
     pbind (atomically (\<lambda>c. sd_on_now k (\<lambda>now m. case hm_get bk (bk k) m of
         None \<Rightarrow> (Returns None, m)
       | Some entry \<Rightarrow>
           let expired = expired_at entry now;
               m' = (if refresh \<and> \<not> expired
                     then hm_update bk (bk k) (\<lambda>e. e\<lparr>te_expires_at :=
                       (case nanos_expires_at (sd_ttl_nanos c) now of Some t \<Rightarrow> Some t | None \<Rightarrow> te_expires_at e)\<rparr>) m
                     else m)
           in (Returns (Some (te_value entry, expired)), m')) c)) (\<lambda>found. case found of
       None \<Rightarrow> sd_count_miss k (None, False)
     | Some (v, expired) \<Rightarrow> if expired then sd_count_miss k (Some v, True) else sd_count_hit k (Some v, False)))"

definition st_cache_peek_with_expiry_status :: "('k \<Rightarrow> 'q) \<Rightarrow> 'k \<Rightarrow> (('k, 'v) sharded_ttl, 'v option \<times> bool) proc" where
  "st_cache_peek_with_expiry_status bk k = atomically (sd_on_now k (\<lambda>now m. (Returns (case hm_get bk (bk k) m of
       None \<Rightarrow> (None, False) | Some entry \<Rightarrow> (Some (te_value entry), expired_at entry now)), m)))"

section \<open>Updates\<close>

text \<open>The displaced entry, and whether it had expired at the instant that stamps the new one.\<close>

definition st_replace :: "('k \<Rightarrow> 'q) \<Rightarrow> 'k \<Rightarrow> 'v timed_entry \<Rightarrow> instant
    \<Rightarrow> (('k, 'v timed_entry) hash_map, ('v timed_entry \<times> bool) option) comp" where
  "st_replace bk k new_entry now m = (case hm_get bk (bk k) m of
       Some e \<Rightarrow> (Returns (Some (e, expired_at e now)), hm_update bk (bk k) (\<lambda>_. new_entry) m)
     | None \<Rightarrow> (Returns None, snd (hm_insert bk k new_entry m)))"

definition st_cache_set :: "('k \<Rightarrow> 'q) \<Rightarrow> 'k \<Rightarrow> 'v \<Rightarrow> (('k, 'v) sharded_ttl, 'v option) proc" where
  "st_cache_set bk k v =
     pbind (atomically sd_now) (\<lambda>now.
     pbind (atomically (\<lambda>c. (Returns (nanos_expires_at (sd_ttl_nanos c) now), c))) (\<lambda>expires_at.
     pbind (atomically (sd_on k (st_replace bk k \<lparr>te_expires_at = expires_at, te_value = v\<rparr> now))) (\<lambda>old.
     case old of
       Some (entry, True) \<Rightarrow> pbind (sd_evicted k k (te_value entry)) (\<lambda>_. pret None)
     | Some (entry, False) \<Rightarrow> pret (Some (te_value entry))
     | None \<Rightarrow> pret None)))"

definition st_take :: "('k \<Rightarrow> 'q) \<Rightarrow> 'q \<Rightarrow> (('k, 'v timed_entry) hash_map, ('k \<times> 'v timed_entry) option) comp" where
  "st_take bk q m = (case hm_remove_entry bk q m of (removed, m') \<Rightarrow> (Returns removed, m'))"

definition st_cache_remove :: "('k \<Rightarrow> 'q) \<Rightarrow> 'k \<Rightarrow> (('k, 'v) sharded_ttl, 'v option) proc" where
  "st_cache_remove bk k =
     pbind (atomically (sd_on k (st_take bk (bk k)))) (\<lambda>removed. case removed of
       Some (stored_k, entry) \<Rightarrow>
         pbind (sd_evicted k stored_k (te_value entry)) (\<lambda>_.
         case te_expires_at entry of
           None \<Rightarrow> pret (Some (te_value entry))
         | Some t \<Rightarrow> pbind (atomically sd_now) (\<lambda>now.
             pret (if now \<ge> t then None else Some (te_value entry))))
     | None \<Rightarrow> pret None)"

definition st_cache_remove_entry :: "('k \<Rightarrow> 'q) \<Rightarrow> 'k \<Rightarrow> (('k, 'v) sharded_ttl, ('k \<times> 'v) option) proc" where
  "st_cache_remove_entry bk k =
     pbind (atomically (sd_on k (st_take bk (bk k)))) (\<lambda>removed. case removed of
       Some (stored_k, entry) \<Rightarrow>
         pbind (sd_evicted k stored_k (te_value entry)) (\<lambda>_. pret (Some (stored_k, te_value entry)))
     | None \<Rightarrow> pret None)"

definition st_cache_delete :: "('k \<Rightarrow> 'q) \<Rightarrow> 'k \<Rightarrow> (('k, 'v) sharded_ttl, bool) proc" where
  "st_cache_delete bk k = cc_cache_delete (st_cache_remove_entry bk k)"

definition st_cache_get_or_set_with :: "('k \<Rightarrow> 'q) \<Rightarrow> 'k \<Rightarrow> 'v outcome \<Rightarrow> (('k, 'v) sharded_ttl, 'v) proc" where
  "st_cache_get_or_set_with bk = cc_cache_get_or_set_with (st_cache_get bk) (st_cache_set bk)"

definition st_cache_try_get_or_set_with :: "('k \<Rightarrow> 'q) \<Rightarrow> 'k \<Rightarrow> ('e + 'v) outcome
    \<Rightarrow> (('k, 'v) sharded_ttl, 'e + 'v) proc" where
  "st_cache_try_get_or_set_with bk = cc_cache_try_get_or_set_with (st_cache_get bk) (st_cache_set bk)"

section \<open>Calls on the whole cache\<close>

definition st_values :: "('k \<times> 'v timed_entry) list \<Rightarrow> ('k \<times> 'v) list" where
  "st_values removed = map (apsnd te_value) removed"

definition st_clear :: "(('k, 'v) sharded_ttl, unit) proc" where
  "st_clear = sd_each (\<lambda>i. atomically (sd_locked i (\<lambda>_. (Returns (), []))))"

definition st_cache_clear :: "(('k, 'v) sharded_ttl, unit) proc" where
  "st_cache_clear = st_clear"

definition st_cache_clear_with_on_evict :: "(('k, 'v) sharded_ttl, unit) proc" where
  "st_cache_clear_with_on_evict =
     pbind (atomically get_state) (\<lambda>c.
     case sd_on_evict c of
       None \<Rightarrow> sd_each (\<lambda>i. pbind (atomically (sd_locked i (\<lambda>m. (Returns (length m), [])))) (sd_dropped i))
     | Some _ \<Rightarrow> sd_each (\<lambda>i. pbind (atomically (sd_locked i (\<lambda>m. (Returns m, [])))) (\<lambda>removed.
         sd_evicted_all i (st_values removed))))"

text \<open>Sweeping expired entries: in place without a callback, by \<open>extract_if\<close> with one.\<close>

definition st_drop_expired :: "instant \<Rightarrow> (('k, 'v timed_entry) hash_map, usize) comp" where
  "st_drop_expired now m = (let m' = filter (\<lambda>(_, e). \<not> expired_at e now) m in (Returns (length m - length m'), m'))"

definition st_extract_expired :: "instant \<Rightarrow> (('k, 'v timed_entry) hash_map, ('k \<times> 'v timed_entry) list) comp" where
  "st_extract_expired now m =
     (case extract_if (map (\<lambda>(_, e). expired_at e now) m) m of (removed, m') \<Rightarrow> (Returns removed, m'))"

definition st_evict :: "(('k, 'v) sharded_ttl, usize) proc" where
  "st_evict =
     pbind (atomically sd_now) (\<lambda>now.
     pbind (atomically get_state) (\<lambda>c.
     case sd_on_evict c of
       None \<Rightarrow> sd_fold (\<lambda>i n. pbind (atomically (sd_locked i (st_drop_expired now))) (\<lambda>removed.
         pbind (sd_dropped i removed) (\<lambda>_. pret (n + removed)))) 0
     | Some _ \<Rightarrow> sd_fold (\<lambda>i n. pbind (atomically (sd_locked i (st_extract_expired now))) (\<lambda>removed.
         pbind (sd_evicted_all i (st_values removed)) (\<lambda>_. pret (n + length removed)))) 0))"

definition st_retain_section :: "('k, 'v) predicate \<Rightarrow> instant
    \<Rightarrow> (('k, 'v timed_entry) hash_map, ('k \<times> 'v timed_entry) list) comp" where
  "st_retain_section keep now m =
     (case take_doomed (\<lambda>k e. if expired_at e now then Some True else map_option Not (keep k (te_value e))) m of
        None \<Rightarrow> (Panics, m)
      | Some (removed, m') \<Rightarrow> (Returns removed, m'))"

definition st_retain :: "('k, 'v) predicate \<Rightarrow> (('k, 'v) sharded_ttl, usize) proc" where
  "st_retain keep =
     pbind (atomically sd_now) (\<lambda>now.
     sd_fold (\<lambda>i n. pbind (atomically (sd_locked i (st_retain_section keep now))) (\<lambda>removed.
       pbind (sd_evicted_all i (st_values removed)) (\<lambda>_. pret (n + length removed)))) 0)"

definition st_len :: "(('k, 'v) sharded_ttl, usize) proc" where
  "st_len = sd_sum_read length"

definition st_cache_size :: "(('k, 'v) sharded_ttl, usize option) proc" where
  "st_cache_size = pbind st_len (\<lambda>n. pret (Some n))"

definition st_is_empty :: "(('k, 'v) sharded_ttl, bool) proc" where
  "st_is_empty = sd_all_read (\<lambda>m. m = [])"

definition st_shards :: "('k, 'v) sharded_ttl \<Rightarrow> usize" where
  "st_shards c = length (sd_shards c)"

definition st_shard_sizes :: "(('k, 'v) sharded_ttl, usize list) proc" where
  "st_shard_sizes = sd_list_read length"

definition st_cache_hits :: "(('k, 'v) sharded_ttl, u64 option) proc" where
  "st_cache_hits = pbind (sd_sum_load sh_hits) (\<lambda>n. pret (Some n))"

definition st_cache_misses :: "(('k, 'v) sharded_ttl, u64 option) proc" where
  "st_cache_misses = pbind (sd_sum_load sh_misses) (\<lambda>n. pret (Some n))"

definition st_cache_evictions :: "(('k, 'v) sharded_ttl, u64 option) proc" where
  "st_cache_evictions = pbind (sd_sum_load sh_evictions) (\<lambda>n. pret (Some n))"

definition st_metrics :: "(('k, 'v) sharded_ttl, cache_metrics) proc" where
  "st_metrics = pbind (sd_fold (\<lambda>i (hits, misses, evictions, n).
       pbind (atomically (sd_load i sh_hits)) (\<lambda>h.
       pbind (atomically (sd_load i sh_misses)) (\<lambda>ms.
       pbind (atomically (sd_load i sh_evictions)) (\<lambda>e.
       pbind (sd_read i length) (\<lambda>l.
       pret (hits + h, misses + ms, evictions + e, n + l)))))) (0, 0, 0, 0)) (\<lambda>(hits, misses, evictions, n).
     pret \<lparr>cm_hits = Some hits, cm_misses = Some misses, cm_evictions = Some evictions,
       cm_entry_count = Some n, cm_capacity = None\<rparr>)"

definition st_cache_reset_metrics :: "(('k, 'v) sharded_ttl, unit) proc" where
  "st_cache_reset_metrics = sd_each (\<lambda>i.
     pbind (atomically (sd_counters i (\<lambda>sh. sh\<lparr>sh_hits := 0\<rparr>))) (\<lambda>_.
     pbind (atomically (sd_counters i (\<lambda>sh. sh\<lparr>sh_misses := 0\<rparr>))) (\<lambda>_.
     atomically (sd_counters i (\<lambda>sh. sh\<lparr>sh_evictions := 0\<rparr>)))))"

definition st_cache_reset :: "(('k, 'v) sharded_ttl, unit) proc" where
  "st_cache_reset = pbind st_clear (\<lambda>_. st_cache_reset_metrics)"

definition st_deep_clone :: "(('k, 'v) sharded_ttl, ('k, 'v) sharded_ttl) proc" where
  "st_deep_clone =
     pbind (sd_fold (\<lambda>i shards. pbind (atomically (sd_load i (\<lambda>sh. sh))) (\<lambda>sh. pret (shards @ [sh]))) []) (\<lambda>shards.
     pbind (atomically (\<lambda>c. (Returns (sd_ttl_nanos c), c))) (\<lambda>nanos.
     pbind (atomically (\<lambda>c. (Returns (sd_refresh c), c))) (\<lambda>refresh.
     pbind (atomically get_state) (\<lambda>c.
     pret \<lparr>sd_shards = shards, sd_mask = sd_mask c, sd_hasher = sd_hasher c, sd_on_evict = sd_on_evict c,
       sd_calls = [], sd_clock = sd_clock c, sd_ttl_nanos = nanos, sd_refresh = refresh\<rparr>))))"

text \<open>
  \<open>copy_from\<close>: the live entries of each shard are inserted with their expiry into the new cache, which
  no other thread can see yet.
\<close>

definition st_copy_from :: "usize option \<Rightarrow> ('k \<Rightarrow> 'q) \<Rightarrow> ('k, 'v) sharded_ttl_builder
    \<Rightarrow> (('k, 'v) sharded_ttl, build_error + ('k, 'v) sharded_ttl) proc" where
  "st_copy_from parallelism bk b =
     pbind (atomically sd_now) (\<lambda>start. case st_build parallelism start b of
       Inl e \<Rightarrow> pret (Inl e)
     | Inr new_cache \<Rightarrow>
         pbind (sd_fold (\<lambda>i c. pbind (atomically (sd_locked_now i (\<lambda>now m.
             (Returns (filter (\<lambda>(_, e). case te_expires_at e of None \<Rightarrow> True | Some t \<Rightarrow> now < t) m), m)))) (\<lambda>entries.
           case run_calls (\<lambda>(k, e). atomically (sd_on k (hmc_cache_set bk k e))) entries c of
             Some d \<Rightarrow> pret d | None \<Rightarrow> Done Panics)) new_cache) (\<lambda>c.
         pret (Inr c)))"

section \<open>Lifetime and refresh\<close>

definition st_ttl :: "(('k, 'v) sharded_ttl, duration option) proc" where
  "st_ttl = sd_ttl"

definition st_set_ttl :: "duration \<Rightarrow> (('k, 'v) sharded_ttl, duration option) proc" where
  "st_set_ttl = sd_set_ttl"

definition st_unset_ttl :: "(('k, 'v) sharded_ttl, duration option) proc" where
  "st_unset_ttl = sd_unset_ttl"

definition st_refresh_on_hit :: "(('k, 'v) sharded_ttl, bool) proc" where
  "st_refresh_on_hit = sd_refresh_on_hit"

definition st_set_refresh_on_hit :: "bool \<Rightarrow> (('k, 'v) sharded_ttl, bool) proc" where
  "st_set_refresh_on_hit = sd_set_refresh_on_hit"

section \<open>Shorthands and asynchronous twins\<close>

definition st_get :: "('k \<Rightarrow> 'q) \<Rightarrow> 'k \<Rightarrow> (('k, 'v) sharded_ttl, 'v option) proc" where
  "st_get = st_cache_get"

definition st_set :: "('k \<Rightarrow> 'q) \<Rightarrow> 'k \<Rightarrow> 'v \<Rightarrow> (('k, 'v) sharded_ttl, 'v option) proc" where
  "st_set = st_cache_set"

definition st_get_or_set_with :: "('k \<Rightarrow> 'q) \<Rightarrow> 'k \<Rightarrow> 'v outcome \<Rightarrow> (('k, 'v) sharded_ttl, 'v) proc" where
  "st_get_or_set_with = st_cache_get_or_set_with"

definition st_remove :: "('k \<Rightarrow> 'q) \<Rightarrow> 'k \<Rightarrow> (('k, 'v) sharded_ttl, 'v option) proc" where
  "st_remove = st_cache_remove"

definition st_remove_entry :: "('k \<Rightarrow> 'q) \<Rightarrow> 'k \<Rightarrow> (('k, 'v) sharded_ttl, ('k \<times> 'v) option) proc" where
  "st_remove_entry = st_cache_remove_entry"

definition st_delete :: "('k \<Rightarrow> 'q) \<Rightarrow> 'k \<Rightarrow> (('k, 'v) sharded_ttl, bool) proc" where
  "st_delete = st_cache_delete"

definition st_reset :: "(('k, 'v) sharded_ttl, unit) proc" where
  "st_reset = st_cache_reset"

definition st_contains :: "('k \<Rightarrow> 'q) \<Rightarrow> 'k \<Rightarrow> (('k, 'v) sharded_ttl, bool) proc" where
  "st_contains = st_cache_contains"

definition st_async_cache_get :: "('k \<Rightarrow> 'q) \<Rightarrow> 'k \<Rightarrow> (('k, 'v) sharded_ttl, 'v option) proc" where
  "st_async_cache_get = st_cache_get"

definition st_async_cache_set :: "('k \<Rightarrow> 'q) \<Rightarrow> 'k \<Rightarrow> 'v \<Rightarrow> (('k, 'v) sharded_ttl, 'v option) proc" where
  "st_async_cache_set = st_cache_set"

definition st_async_cache_remove :: "('k \<Rightarrow> 'q) \<Rightarrow> 'k \<Rightarrow> (('k, 'v) sharded_ttl, 'v option) proc" where
  "st_async_cache_remove = st_cache_remove"

definition st_async_cache_remove_entry :: "('k \<Rightarrow> 'q) \<Rightarrow> 'k \<Rightarrow> (('k, 'v) sharded_ttl, ('k \<times> 'v) option) proc" where
  "st_async_cache_remove_entry = st_cache_remove_entry"

definition st_async_cache_clear :: "(('k, 'v) sharded_ttl, unit) proc" where
  "st_async_cache_clear = st_cache_clear"

definition st_async_cache_reset :: "(('k, 'v) sharded_ttl, unit) proc" where
  "st_async_cache_reset = st_cache_reset"

definition st_async_cache_reset_metrics :: "(('k, 'v) sharded_ttl, unit) proc" where
  "st_async_cache_reset_metrics = st_cache_reset_metrics"

definition st_async_cache_contains :: "('k \<Rightarrow> 'q) \<Rightarrow> 'k \<Rightarrow> (('k, 'v) sharded_ttl, bool) proc" where
  "st_async_cache_contains = st_cache_contains"

definition st_async_cache_peek :: "('k \<Rightarrow> 'q) \<Rightarrow> 'k \<Rightarrow> (('k, 'v) sharded_ttl, 'v option) proc" where
  "st_async_cache_peek = st_cache_peek"

definition st_async_cache_get_or_set_with :: "('k \<Rightarrow> 'q) \<Rightarrow> 'k \<Rightarrow> 'v outcome \<Rightarrow> (('k, 'v) sharded_ttl, 'v) proc" where
  "st_async_cache_get_or_set_with bk =
     cc_async_cache_get_or_set_with (st_async_cache_get bk) (st_async_cache_set bk)"

definition st_async_cache_try_get_or_set_with :: "('k \<Rightarrow> 'q) \<Rightarrow> 'k \<Rightarrow> ('e + 'v) outcome
    \<Rightarrow> (('k, 'v) sharded_ttl, 'e + 'v) proc" where
  "st_async_cache_try_get_or_set_with bk =
     cc_async_cache_try_get_or_set_with (st_async_cache_get bk) (st_async_cache_set bk)"

end
