(* ===== verification/Call_Contracts.thy ===== *)
theory Call_Contracts
  imports Concurrent
begin

text \<open>
  Contracts that explain the outcome of a call by the states it met. While other threads run, a call
  sees the shared state only at its own steps: \<open>observe\<close> makes a call return, with its outcome, the
  list of its steps, each with the state before and after it. A contract \<open>K seen r\<close> relates the steps to
  the outcome, whatever the other threads do in between (\<open>explained\<close>). Observation is a ghost: every
  interleaving of the calls is one of the observed calls (\<open>observed_interleaving\<close>).
\<close>

type_synonym 's steps = "('s \<times> 's) list"

section \<open>Observed calls\<close>

primrec observe :: "('s, 'r) proc \<Rightarrow> 's steps \<Rightarrow> ('s, 's steps \<times> 'r outcome) proc" where
  "observe (Done r) = (\<lambda>seen. Done (Returns (seen, r)))"
| "observe (Atomic f) = (\<lambda>seen. Atomic (\<lambda>s.
     case (map_prod observe id \<circ> f) s of (p, t) \<Rightarrow> (p (seen @ [(s, t)]), t)))"
| "observe (Await g f) = (\<lambda>seen. Await g (\<lambda>s.
     case (map_prod observe id \<circ> f) s of (p, t) \<Rightarrow> (p (seen @ [(s, t)]), t)))"

definition observed :: "('op \<Rightarrow> ('s, 'r) proc) \<Rightarrow> 'op \<Rightarrow> ('s, 's steps \<times> 'r outcome) proc" where
  "observed body op = observe (body op) []"

text \<open>A thread and the same thread with its calls observed.\<close>

definition same_outcomes :: "('op \<times> ('s steps \<times> 'r outcome) outcome) list \<Rightarrow> ('op \<times> 'r outcome) list \<Rightarrow> bool" where
  "same_outcomes = list_all2 (\<lambda>(op, w) (op', r). op = op' \<and> (\<exists>seen. w = Returns (seen, r)))"

definition same_thread :: "('s, 'op, 's steps \<times> 'r outcome) thread \<Rightarrow> ('s, 'op, 'r) thread \<Rightarrow> bool" where
  "same_thread u t \<longleftrightarrow> th_todo u = th_todo t \<and> same_outcomes (th_done u) (th_done t) \<and>
     (case th_now t of None \<Rightarrow> th_now u = None
      | Some (op, p) \<Rightarrow> \<exists>seen. th_now u = Some (op, observe p seen))"

lemma same_outcomes_snoc:
  "same_outcomes xs ys \<Longrightarrow> same_outcomes (xs @ [(op, Returns (seen, r))]) (ys @ [(op, r)])"
  by (auto simp: same_outcomes_def intro!: list_all2_appendI)

lemma same_thread_step:
  assumes "thread_step body (t, s) (t', s')" "same_thread u t"
  shows "\<exists>u'. thread_step (observed body) (u, s) (u', s') \<and> same_thread u' t'"
  using assms(1)
proof (cases rule: thread_step.cases)
  case (invoke op ops)
  let ?u = "u\<lparr>th_now := Some (op, observed body op), th_todo := ops\<rparr>"
  have "thread_step (observed body) (u, s) (?u, s)"
    using invoke assms(2) by (intro thread_step.invoke) (auto simp: same_thread_def)
  moreover have "same_thread ?u t'"
    using invoke assms(2) by (auto simp: same_thread_def observed_def)
  ultimately show ?thesis using invoke by blast
next
  case (step op f p)
  then obtain seen where now: "th_now u = Some (op, observe (Atomic f) seen)"
    using assms(2) by (auto simp: same_thread_def)
  have "thread_step (observed body) (u, s) (u\<lparr>th_now := Some (op, observe p (seen @ [(s, s')]))\<rparr>, s')"
    by (rule thread_step.step [OF now [unfolded observe.simps]]) (simp add: step)
  then show ?thesis using step assms(2) by (intro exI conjI) (auto simp: same_thread_def)
next
  case (wake op g f p)
  then obtain seen where now: "th_now u = Some (op, observe (Await g f) seen)"
    using assms(2) by (auto simp: same_thread_def)
  have "thread_step (observed body) (u, s) (u\<lparr>th_now := Some (op, observe p (seen @ [(s, s')]))\<rparr>, s')"
    by (rule thread_step.wake [OF now [unfolded observe.simps]]) (simp_all add: wake)
  then show ?thesis using wake assms(2) by (intro exI conjI) (auto simp: same_thread_def)
next
  case (return op r)
  then obtain seen where now: "th_now u = Some (op, Done (Returns (seen, r)))"
    using assms(2) by (auto simp: same_thread_def)
  let ?u = "u\<lparr>th_now := None, th_done := th_done u @ [(op, Returns (seen, r))]\<rparr>"
  have "thread_step (observed body) (u, s) (?u, s)" by (rule thread_step.return [OF now])
  moreover have "same_thread ?u t'"
    using return assms(2) by (auto simp: same_thread_def intro!: same_outcomes_snoc)
  ultimately show ?thesis using return by blast
qed

lemma observed_interleaving:
  assumes "interleaving body c0 c" "c0 = (map fresh_thread opss, s0)"
  shows "\<exists>us. interleaving (observed body) (map fresh_thread opss, s0) (us, snd c) \<and> list_all2 same_thread us (fst c)"
  using assms
proof (induction rule: interleaving.induct)
  case start
  have "list_all2 same_thread (map fresh_thread opss) (map fresh_thread opss)"
    by (auto simp: list_all2_conv_all_nth same_thread_def same_outcomes_def fresh_thread_def)
  then show ?case using start by (auto intro: interleaving.start)
next
  case (next_step ts s i t s')
  then obtain us where us: "interleaving (observed body) (map fresh_thread opss, s0) (us, s)"
    and same: "list_all2 same_thread us ts" by auto
  have i: "i < length us" "same_thread (us ! i) (ts ! i)"
    using same next_step.hyps(2) by (auto simp: list_all2_conv_all_nth)
  obtain u where u: "thread_step (observed body) (us ! i, s) (u, s')" "same_thread u t"
    using same_thread_step [OF next_step.hyps(3) i(2)] by blast
  show ?case
    using interleaving.next_step [OF us i(1) u(1)] list_all2_update_cong [OF same u(2)]
    by (intro exI [of _ "us[i := u]"]) simp
qed

section \<open>Contracts\<close>

inductive explained :: "('s \<Rightarrow> bool) \<Rightarrow> ('s steps \<Rightarrow> 'r outcome \<Rightarrow> bool) \<Rightarrow> 's steps \<Rightarrow> ('s, 'r) proc \<Rightarrow> bool"
  for I :: "'s \<Rightarrow> bool" and K :: "'s steps \<Rightarrow> 'r outcome \<Rightarrow> bool" where
  finished: "K seen r \<Longrightarrow> explained I K seen (Done r)"
| step: "(\<And>s. I s \<Longrightarrow> I (snd (f s)) \<and> explained I K (seen @ [(s, snd (f s))]) (fst (f s))) \<Longrightarrow>
    explained I K seen (Atomic f)"
| wait: "(\<And>s. I s \<Longrightarrow> g s \<Longrightarrow> I (snd (f s)) \<and> explained I K (seen @ [(s, snd (f s))]) (fst (f s))) \<Longrightarrow>
    explained I K seen (Await g f)"

inductive_simps explained_simps [simp]:
  "explained I K seen (Done r)" "explained I K seen (Atomic f)" "explained I K seen (Await g f)"

lemma explained_pbind:
  assumes "\<And>s. I s \<Longrightarrow> I (snd (m s)) \<and> explained I K (seen @ [(s, snd (m s))]) (pbind (Done (fst (m s))) k)"
  shows "explained I K seen (pbind (atomically m) k)"
  unfolding pbind_atomically using assms by simp

lemma explained_read:
  assumes "\<And>s. I s \<Longrightarrow> explained I K (seen @ [(s, s)]) (k (f s))"
  shows "explained I K seen (pbind (atomically (\<lambda>s. (Returns (f s), s))) k)"
  by (rule explained_pbind) (simp add: assms)

text \<open>
  The rest of a call whose steps do not matter to the contract any more: it may take any steps that
  keep the invariant, as long as the contract accepts its outcome.
\<close>

lemma explained_rest:
  assumes "safe I Q p" "\<And>r seen'. Q r \<Longrightarrow> K (seen @ seen') r"
  shows "explained I K seen p"
proof -
  have "explained I K (seen @ seen') p" for seen'
    using assms(1) assms(2) [of _ seen']
  proof (induction arbitrary: seen' rule: safe.induct)
    case (step f)
    then show ?case using assms(2) by (simp add: append.assoc)
  next
    case (wait g f)
    then show ?case using assms(2) by (simp add: append.assoc)
  qed simp
  from this [of "[]"] show ?thesis by simp
qed

text \<open>The rest of a call that changes nothing \<open>view\<close> shows and whose outcome is settled.\<close>

lemma explained_settled:
  assumes "settled I view r p"
    and "\<And>seen'. (\<And>s t. (s, t) \<in> set seen' \<Longrightarrow> I s \<and> I t \<and> view t = view s) \<Longrightarrow> K (seen @ seen') r"
  shows "explained I K seen p"
proof -
  have "(\<And>s t. (s, t) \<in> set seen' \<Longrightarrow> I s \<and> I t \<and> view t = view s) \<Longrightarrow> explained I K (seen @ seen') p" for seen'
    using assms(1)
  proof (induction p arbitrary: seen' rule: settled.induct)
    case finished
    then show ?case using assms(2) by simp
  next
    case (step f)
    have "explained I K (seen @ seen' @ [(s, snd (f s))]) (fst (f s))" if "I s" for s
      using step(1) [OF that] step(2) that by auto
    then show ?case using step(1) by simp
  next
    case (wait g f)
    have "explained I K (seen @ seen' @ [(s, snd (f s))]) (fst (f s))" if "I s" "g s" for s
      using wait(1) [OF that] wait(2) that by auto
    then show ?case using wait(1) by simp
  qed
  from this [of "[]"] show ?thesis by simp
qed

lemma explained_presult:
  assumes "explained I K seen p" "\<And>seen r. K seen r \<Longrightarrow> K' seen (map_outcome f r)"
  shows "explained I K' seen (presult p f)"
  unfolding presult_def using assms(1)
proof (induction rule: explained.induct)
  case (finished seen r)
  then show ?case using assms(2) [OF finished] by (cases r) (simp_all add: pret_def)
qed auto

lemma Returns_map_outcome: "Returns (f r) = map_outcome f out \<longleftrightarrow> (\<exists>x. out = Returns x \<and> f x = f r)"
  by (cases out) auto

lemma explained_any: "safe I (\<lambda>_. True) p \<Longrightarrow> (\<And>seen r. K seen r) \<Longrightarrow> explained I K [] p"
  by (rule explained_rest)

text \<open>A call each of whose steps is in a relation: what it guarantees to the other threads.\<close>

inductive guards :: "('s \<Rightarrow> bool) \<Rightarrow> ('s \<Rightarrow> 's \<Rightarrow> bool) \<Rightarrow> ('s, 'r) proc \<Rightarrow> bool"
  for I :: "'s \<Rightarrow> bool" and G :: "'s \<Rightarrow> 's \<Rightarrow> bool" where
  finished: "guards I G (Done r)"
| step: "(\<And>s. I s \<Longrightarrow> I (snd (f s)) \<and> G s (snd (f s)) \<and> guards I G (fst (f s))) \<Longrightarrow> guards I G (Atomic f)"
| wait: "(\<And>s. I s \<Longrightarrow> g s \<Longrightarrow> I (snd (f s)) \<and> G s (snd (f s)) \<and> guards I G (fst (f s))) \<Longrightarrow> guards I G (Await g f)"

inductive_simps guards_simps [simp]: "guards I G (Done r)" "guards I G (Atomic f)" "guards I G (Await g f)"

named_theorems guards_rules

lemma guards_Done [guards_rules]: "guards I G (Done r)" "guards I G (pret x)"
  by (simp_all add: pret_def)

lemma guards_atomically: "(\<And>s. I s \<Longrightarrow> I (snd (m s)) \<and> G s (snd (m s))) \<Longrightarrow> guards I G (atomically m)"
  by (simp add: atomically_def)

lemma guards_pbind [guards_rules]:
  assumes "guards I G p" "\<And>x. guards I G (k x)"
  shows "guards I G (pbind p k)"
  using assms(1) by (induction rule: guards.induct) (auto simp: assms(2) split: outcome.split)

lemma guards_loops [guards_rules]:
  "(\<And>x. guards I G (body x)) \<Longrightarrow> guards I G (pforeach xs body)"
  "(\<And>x acc. guards I G (step x acc)) \<Longrightarrow> guards I G (pfold ys step a)"
  by (induction xs) (auto intro: guards_rules, induction ys arbitrary: a, auto intro: guards_rules)

lemma guards_cases [guards_rules]:
  "guards I G p \<Longrightarrow> (\<And>a. guards I G (q a)) \<Longrightarrow> guards I G (case x of None \<Rightarrow> p | Some a \<Rightarrow> q a)"
  "(\<And>a b. guards I G (f a b)) \<Longrightarrow> guards I G (case y of (a, b) \<Rightarrow> f a b)"
  "(\<And>a. guards I G (h a)) \<Longrightarrow> (\<And>a. guards I G (q a)) \<Longrightarrow> guards I G (case z of Inl a \<Rightarrow> h a | Inr a \<Rightarrow> q a)"
  "guards I G p \<Longrightarrow> guards I G p' \<Longrightarrow> guards I G (if b then p else p')"
  "guards I G p \<Longrightarrow> guards I G (presult p r)"
  by (auto simp: presult_def intro: guards_rules split: option.split prod.split sum.split)

lemma guards_explained:
  assumes "guards I G p" "\<forall>(s, t) \<in> set seen. G s t"
  shows "explained I (\<lambda>seen _. \<forall>(s, t) \<in> set seen. G s t) seen p"
  using assms by (induction arbitrary: seen rule: guards.induct) auto

lemma guards_safe: "guards I G p \<Longrightarrow> safe I (\<lambda>_. True) p"
  by (induction rule: guards.induct) auto

lemma explained_first: "safe I (\<lambda>_. True) p \<Longrightarrow> x \<in> set seen \<Longrightarrow> explained I (\<lambda>seen _. x \<in> set seen) seen p"
  by (erule explained_rest) simp

lemma guards_mono:
  "guards I G p \<Longrightarrow> (\<And>s t. I s \<Longrightarrow> I t \<Longrightarrow> G s t \<Longrightarrow> G' s t) \<Longrightarrow> guards I G' p"
  by (induction rule: guards.induct) auto

lemma explained_conj:
  assumes "explained I K seen p" "explained I K' seen p"
  shows "explained I (\<lambda>seen r. K seen r \<and> K' seen r) seen p"
  using assms by (induction rule: explained.induct) auto

lemma explained_mono: "explained I K seen p \<Longrightarrow> (\<And>seen r. K seen r \<Longrightarrow> K' seen r) \<Longrightarrow> explained I K' seen p"
  by (induction rule: explained.induct) auto

lemma explained_observe:
  "explained I K seen p \<Longrightarrow> safe I (\<lambda>w. \<exists>seen' r. w = Returns (seen', r) \<and> K seen' r) (observe p seen)"
  by (induction rule: explained.induct) (auto simp: case_prod_beta)

locale explained_calls =
  fixes body :: "'op \<Rightarrow> ('s, 'r) proc"
    and I :: "'s \<Rightarrow> bool"
    and K :: "'op \<Rightarrow> 's steps \<Rightarrow> 'r outcome \<Rightarrow> bool"
  assumes explained: "explained I (K op) [] (body op)"
begin

lemma observed_safe: "safe I (\<lambda>w. \<exists>seen r. w = Returns (seen, r) \<and> K op seen r) (observed body op)"
  unfolding observed_def by (rule explained_observe) (rule explained)

end

sublocale explained_calls \<subseteq> obs: safe_calls "observed body" I "\<lambda>op w. \<exists>seen r. w = Returns (seen, r) \<and> K op seen r"
  by unfold_locales (rule observed_safe)

context explained_calls
begin

lemma outcome_explained:
  assumes "interleaving (observed body) (map fresh_thread opss, s0) (ts, s)" "I s0"
    and "t \<in> set ts" "(op, Returns (seen, r)) \<in> set (th_done t)"
  shows "K op seen r"
  using obs.finished_calls [OF assms] by simp

end

end
