(* ===== verification/Sharded_Calls.thy ===== *)
theory Sharded_Calls
  imports Hash_Map Sharded_Clock Call_Contracts
begin

text \<open>
  The calls that the sharded stores with expiry offer to their clients, and what a call guarantees of
  every step it takes. \<open>CTick d\<close> lets the clock advance by \<open>d\<close>; \<open>COwn\<close> are the calls that one store has
  and another has not.
\<close>

datatype (plugins only: code size) (dead 'k, dead 'v, dead 'e, dead 'x) sh_call =
    CGet 'k
  | CSet 'k 'v
  | CPeek 'k
  | CContains 'k
  | CGetStatus 'k
  | CPeekStatus 'k
  | CRemove 'k
  | CRemoveEntry 'k
  | CDelete 'k
  | CGetOrSet 'k "'v outcome"
  | CTryGetOrSet 'k "('e + 'v) outcome"
  | CRetain "('k, 'v) predicate"
  | CEvict
  | CClear
  | CClearWithOnEvict
  | CReset
  | CResetMetrics
  | CLen
  | CIsEmpty
  | CShardSizes
  | CMetrics
  | CTick duration
  | COwn 'x

datatype (plugins only: code size) (dead 'k, dead 'v, dead 'e, dead 'y) sh_result =
    RLookup "'v option"
  | RStatus "'v option \<times> bool"
  | REntry "('k \<times> 'v) option"
  | RValue 'v
  | RTry "'e + 'v"
  | RBool bool
  | RCount usize
  | RCounts "usize list"
  | RMetrics cache_metrics
  | RUnit
  | ROwn 'y

definition sd_tick :: "duration \<Rightarrow> (('s, 'k, 'v, 'z) sharded_clocked_scheme, unit) proc" where
  "sd_tick d = atomically (\<lambda>c. (Returns (), c\<lparr>sd_clock := sd_clock c + d\<rparr>))"

text \<open>The calls that look up, inspect or sweep out expired entries; the others may drop live entries.\<close>

fun sparing :: "('k, 'v, 'e, 'x) sh_call \<Rightarrow> bool" where
  "sparing (CGet k) = True"
| "sparing (CPeek k) = True"
| "sparing (CContains k) = True"
| "sparing (CGetStatus k) = True"
| "sparing (CPeekStatus k) = True"
| "sparing CEvict = True"
| "sparing CResetMetrics = True"
| "sparing CLen = True"
| "sparing CIsEmpty = True"
| "sparing CShardSizes = True"
| "sparing CMetrics = True"
| "sparing _ = False"

lemma sd_tick_safe [safe_rules]: "safe (sd_sound g ok) (\<lambda>_. True) (sd_tick d)"
  unfolding sd_tick_def by (intro safe_rules) (simp add: keeps_def sd_sound_def)

lemma a_wf_clears [keeps_rules]: "keeps (a_wf bk) (\<lambda>m. (Returns (f m), []))"
  by (simp add: keeps_def a_wf_def)

text \<open>Recognizing the outcome of an observed lookup.\<close>

definition sh_is_lookup :: "'v option \<Rightarrow> ('k, 'v, 'e, 'y) sh_result outcome \<Rightarrow> bool" where
  "sh_is_lookup r out = (case out of Returns res \<Rightarrow> (case res of RLookup r' \<Rightarrow> r' = r | _ \<Rightarrow> False) | _ \<Rightarrow> False)"

definition sh_looked_up :: "'v option \<Rightarrow> ('s steps \<times> ('k, 'v, 'e, 'y) sh_result outcome) outcome \<Rightarrow> bool" where
  "sh_looked_up r w = (case w of Returns (seen, out) \<Rightarrow> sh_is_lookup r out | _ \<Rightarrow> False)"

lemma sh_is_lookupD: "sh_is_lookup r out \<Longrightarrow> out = Returns (RLookup r)"
  unfolding sh_is_lookup_def by (cases out; simp) (rename_tac res, case_tac res; simp)

lemma sh_looked_upD: "sh_looked_up r w \<Longrightarrow> \<exists>seen. w = Returns (seen, Returns (RLookup r))"
  by (auto simp: sh_looked_up_def dest: sh_is_lookupD split: outcome.splits)

definition sh_swept :: "('k, 'v, 'e, 'x) sh_call \<times> 'o outcome \<Rightarrow> bool" where
  "sh_swept call = (case call of (op, w) \<Rightarrow>
     (case op of CEvict \<Rightarrow> True | _ \<Rightarrow> False) \<and> (case w of Returns _ \<Rightarrow> True | _ \<Rightarrow> False))"

lemma sh_swept_iff: "sh_swept (op, w) \<longleftrightarrow> op = CEvict \<and> (\<exists>seen out. w = Returns (seen, out))"
  by (cases op; cases w) (auto simp: sh_swept_def)

lemma sh_sweptD: "list_ex sh_swept calls \<Longrightarrow> \<exists>seen out. (CEvict, Returns (seen, out)) \<in> set calls"
  by (fastforce simp: list_ex_iff sh_swept_iff)

text \<open>The value of an entry that is live at an instant.\<close>

definition live_value :: "instant \<Rightarrow> 'v timed_entry option \<Rightarrow> 'v option" where
  "live_value now e = (case e of None \<Rightarrow> None | Some e \<Rightarrow> if expired_at e now then None else Some (te_value e))"

section \<open>What a call guarantees of every shard\<close>

text \<open>The inner stores before and after a step are related, given the instant of the step.\<close>

definition sd_guard :: "(instant \<Rightarrow> 's \<Rightarrow> 's \<Rightarrow> bool) \<Rightarrow> ('s, 'k, 'v, 'z) sharded_clocked_scheme
    \<Rightarrow> ('s, 'k, 'v, 'z) sharded_clocked_scheme \<Rightarrow> bool" where
  "sd_guard R c d \<longleftrightarrow> list_all2 (R (sd_clock c)) (sd_view (\<lambda>s. s) c) (sd_view (\<lambda>s. s) d)"

lemma sd_guard_store:
  assumes "sd_guard R c d" "sd_sound g ok c" "sd_sound g ok d"
  shows "R (sd_clock c) (sd_store k c) (sd_store k d)"
proof -
  have "length (sd_shards c) = length (sd_shards d)" using assms(2,3) by (simp add: sd_sound_def)
  then show ?thesis
    using assms(1) sd_index_bound [OF assms(2), of k] sd_index_bound [OF assms(3), of k]
    by (simp add: sd_guard_def sd_view_def list_all2_conv_all_nth sd_store_def
        sd_index_route [OF assms(2)] sd_index_route [OF assms(3)])
qed

lemma sd_guard_same: "(\<And>now s. R now s s) \<Longrightarrow> sd_view (\<lambda>s. s) d = sd_view (\<lambda>s. s) c \<Longrightarrow> sd_guard R c d"
  by (simp add: sd_guard_def list.rel_refl)

lemma sd_guard_locked:
  assumes "\<And>now s. R now s s" "sd_sound g ok c" "\<And>s. ok s \<Longrightarrow> R (sd_clock c) s (snd (m s))"
  shows "sd_guard R c (snd (sd_locked i m c))"
  using assms(1,3) sd_soundD(2) [OF assms(2)]
  by (auto simp: sd_guard_def sd_locked_def sd_view_def vget_def case_prod_beta list_all2_conv_all_nth nth_list_update)

text \<open>Steps that keep the stores sound and meet a reflexive guarantee.\<close>

lemma guards_sections [guards_rules]:
  assumes "\<And>now s. R now s s"
  shows "(\<And>now. keeps ok m) \<Longrightarrow> (\<And>now s. ok s \<Longrightarrow> R now s (snd (m s))) \<Longrightarrow> guards (sd_sound g ok) (sd_guard R) (atomically (sd_on k m))"
    "(\<And>now. keeps ok (n now)) \<Longrightarrow> (\<And>now s. ok s \<Longrightarrow> R now s (snd (n now s))) \<Longrightarrow> guards (sd_sound g ok) (sd_guard R) (atomically (sd_on_now k n))"
    "(\<And>now. keeps ok (n now)) \<Longrightarrow> (\<And>now s. ok s \<Longrightarrow> R now s (snd (n now s))) \<Longrightarrow> guards (sd_sound g ok) (sd_guard R) (atomically (sd_locked_now i n))"
    "(\<And>now. keeps ok m) \<Longrightarrow> (\<And>now s. ok s \<Longrightarrow> R now s (snd (m s))) \<Longrightarrow> guards (sd_sound g ok) (sd_guard R) (atomically (sd_locked i m))"
  using assms
  by (auto simp: sd_on_def sd_on_now_def sd_locked_now_def sd_locked_sound intro!: guards_atomically sd_guard_locked)

lemma guards_on_state:
  fixes m :: "('s, 'k, 'v, 'z) sharded_clocked_scheme \<Rightarrow> ('s, 'a) comp"
  assumes "\<And>now s. R now s s" "\<And>c. keeps ok (m c)" "\<And>c now s. ok s \<Longrightarrow> R now s (snd (m c s))"
  shows "guards (sd_sound g ok) (sd_guard R) (atomically (\<lambda>c. sd_on k (m c) c))"
proof (rule guards_atomically)
  fix c :: "('s, 'k, 'v, 'z) sharded_clocked_scheme" assume c: "sd_sound g ok c"
  have "sd_guard R c (snd (sd_locked (sd_index k c) (m c) c))"
    by (rule sd_guard_locked [OF assms(1) c]) (rule assms(3))
  then show "sd_sound g ok (snd (sd_on k (m c) c)) \<and> sd_guard R c (snd (sd_on k (m c) c))"
    using keepsD [OF sd_keeps(2) [OF assms(2)] c] by (simp add: sd_on_def)
qed

lemma guards_quiet:
  assumes "\<And>now s. R now s s" "keeps (sd_sound g ok) m"
    and "\<And>c. sd_sound g ok c \<Longrightarrow> sd_view (\<lambda>s. s) (snd (m c)) = sd_view (\<lambda>s. s) c"
  shows "guards (sd_sound g ok) (sd_guard R) (atomically m)"
  using assms by (auto intro!: guards_atomically sd_guard_same keepsD [OF assms(2)])

lemma guards_counters [guards_rules]:
  assumes R: "\<And>now s. R now s s"
  shows "guards (sd_sound g ok) (sd_guard R) (sd_count_hit k r)" "guards (sd_sound g ok) (sd_guard R) (sd_count_miss k r)"
    "guards (sd_sound g ok) (sd_guard R) (atomically (sd_notify k' v))"
    "guards (sd_sound g ok) (sd_guard R) (sd_evicted k k' v)" "guards (sd_sound g ok) (sd_guard R) (sd_evicted_all i removed)"
    "guards (sd_sound g ok) (sd_guard R) (atomically get_state)" "guards (sd_sound g ok) (sd_guard R) (atomically sd_now)"
    "guards (sd_sound g ok) (sd_guard R) (sd_read i f)" "guards (sd_sound g ok) (sd_guard R) (atomically (sd_load i h))"
proof -
  show notify: "guards (sd_sound g ok) (sd_guard R) (atomically (sd_notify k' v))" for k' v
    by (rule guards_quiet [OF R sd_keeps(3)]) (simp add: sd_notify_sound)
  have count: "guards (sd_sound g ok) (sd_guard R) (atomically (\<lambda>c. sd_count_at (f c) n c))" for f n
    by (rule guards_quiet [OF R sd_clock_keeps(4)]) (simp add: sd_count_at_sound)
  show "guards (sd_sound g ok) (sd_guard R) (sd_count_hit k r)" "guards (sd_sound g ok) (sd_guard R) (sd_count_miss k r)"
    unfolding sd_count_hit_def sd_count_miss_def
    by (intro guards_rules guards_quiet [OF R] sd_keeps; simp add: sd_hit_def sd_miss_def sd_counters_sound)+
  show "guards (sd_sound g ok) (sd_guard R) (sd_evicted k k' v)"
    unfolding sd_evicted_def by (intro guards_rules notify count)
  show "guards (sd_sound g ok) (sd_guard R) (sd_evicted_all i removed)"
    unfolding sd_evicted_all_def sd_notify_all_def by (intro guards_rules notify count)
  show "guards (sd_sound g ok) (sd_guard R) (atomically get_state)" "guards (sd_sound g ok) (sd_guard R) (atomically sd_now)"
    "guards (sd_sound g ok) (sd_guard R) (atomically (sd_load i h))"
    by (rule guards_quiet [OF R]; simp add: keeps_def get_state_def sd_now_def sd_load_def split: option.split)+
  show "guards (sd_sound g ok) (sd_guard R) (sd_read i f)"
    unfolding sd_read_def by (intro guards_rules R) (simp_all add: keeps_def R)
qed

lemma guards_reset [guards_rules]:
  assumes R: "\<And>now s. R now s s" and "\<And>sh. sh_store (f sh) = sh_store sh"
  shows "guards (sd_sound g ok) (sd_guard R) (atomically (sd_counters i f))"
  by (rule guards_quiet [OF R keeps_counters [OF assms(2)]]) (simp add: sd_counters_sound assms(2))

lemma guards_shards [guards_rules]:
  assumes R: "\<And>now s. R now s s"
  shows "(\<And>i. guards (sd_sound g ok) (sd_guard R) (body i)) \<Longrightarrow> guards (sd_sound g ok) (sd_guard R) (sd_each body)"
    "(\<And>i x. guards (sd_sound g ok) (sd_guard R) (step i x)) \<Longrightarrow> guards (sd_sound g ok) (sd_guard R) (sd_fold step acc)"
  unfolding sd_each_def sd_fold_def by (intro guards_rules R; simp)+

end
