(* ===== verification/Sharded_Ttl_Correct.thy ===== *)
theory Sharded_Ttl_Correct
  imports Sharded_Ttl Sharded_Calls
begin

text \<open>
  What a client of a \<open>ShardedTtlCache\<close> can rely on while other threads use it and time passes: a lookup
  returns what the shard held at a moment of the call, judged by a reading of the clock during the
  call, and it removes nothing that has not expired.
\<close>

section \<open>What a lookup can see\<close>

definition st_entry :: "('k \<Rightarrow> 'q) \<Rightarrow> 'k \<Rightarrow> ('k, 'v) sharded_ttl \<Rightarrow> 'v timed_entry option" where
  "st_entry bk k c = hm_get bk (bk k) (sd_store k c)"

text \<open>\<open>r\<close> is the live value of \<open>k\<close> in the state of one step, at the instant of one step, of the call.\<close>

definition st_saw :: "('k \<Rightarrow> 'q) \<Rightarrow> 'k \<Rightarrow> ('k, 'v) sharded_ttl steps \<Rightarrow> 'v option \<Rightarrow> bool" where
  "st_saw bk k seen r \<longleftrightarrow> list_ex (\<lambda>(s, _). list_ex (\<lambda>(u, _). live_value (sd_clock u) (st_entry bk k s) = r) seen) seen"

text \<open>A step loses no value unless the entry had expired at the instant of a step of the call.\<close>

definition st_keeps_live :: "('k \<Rightarrow> 'q) \<Rightarrow> ('k, 'v) sharded_ttl steps \<Rightarrow> bool" where
  "st_keeps_live bk seen \<longleftrightarrow> (\<forall>(s, t) \<in> set seen. \<forall>k e. st_entry bk k s = Some e \<longrightarrow>
     map_option te_value (st_entry bk k t) = Some (te_value e) \<or> (\<exists>(u, _) \<in> set seen. expired_at e (sd_clock u)))"

definition st_lookup_contract :: "('k \<Rightarrow> 'q) \<Rightarrow> 'k \<Rightarrow> ('k, 'v) sharded_ttl steps \<Rightarrow> 'v option outcome \<Rightarrow> bool" where
  "st_lookup_contract bk k seen out \<longleftrightarrow> (\<forall>r. out = Returns r \<longrightarrow> st_saw bk k seen r) \<and> st_keeps_live bk seen"

lemma st_sawI:
  "(s, t) \<in> set seen \<Longrightarrow> (u, w) \<in> set seen \<Longrightarrow> live_value (sd_clock u) (st_entry bk k s) = r \<Longrightarrow> st_saw bk k seen r"
  by (force simp: st_saw_def list_ex_iff)

lemma st_saw_append: "st_saw bk k seen r \<Longrightarrow> st_saw bk k (seen @ seen') r"
  by (auto simp: st_saw_def list_ex_iff)

lemma st_keeps_live_Nil [simp]: "st_keeps_live bk []"
  by (simp add: st_keeps_live_def)

lemma st_keeps_live_append:
  assumes "st_keeps_live bk seen"
    and "\<And>s t k e. (s, t) \<in> set seen' \<Longrightarrow> st_entry bk k s = Some e \<Longrightarrow>
      map_option te_value (st_entry bk k t) = Some (te_value e) \<or> (\<exists>(u, _) \<in> set (seen @ seen'). expired_at e (sd_clock u))"
  shows "st_keeps_live bk (seen @ seen')"
  using assms unfolding st_keeps_live_def by fastforce

lemma st_keeps_live_quiet:
  assumes "st_keeps_live bk seen"
    and "\<And>s t. (s, t) \<in> set seen' \<Longrightarrow> sd_sound g ok s \<and> sd_sound g ok t \<and> sd_view (\<lambda>s. s) t = sd_view (\<lambda>s. s) s"
  shows "st_keeps_live bk (seen @ seen')"
  by (rule st_keeps_live_append [OF assms(1)]) (use assms(2) sd_store_view in \<open>fastforce simp: st_entry_def\<close>)

text \<open>A critical section on the shard of \<open>k\<close> that loses only entries that have expired at \<open>now\<close>.\<close>

lemma st_keeps_live_section:
  assumes "st_keeps_live bk seen" "sd_sound g ok s" "t = sd_put k m s"
    and "\<And>q e. hm_get bk q (sd_store k s) = Some e \<Longrightarrow>
      map_option te_value (hm_get bk q m) = Some (te_value e) \<or> expired_at e now"
    and "(u, w) \<in> set (seen @ [(s, t)])" "sd_clock u = now"
  shows "st_keeps_live bk (seen @ [(s, t)])"
proof (rule st_keeps_live_append [OF assms(1)])
  fix s' t' k' e
  assume "(s', t') \<in> set [(s, t)]" and e: "st_entry bk k' s' = Some e"
  then have st: "s' = s" "t' = t" by simp_all
  show "map_option te_value (st_entry bk k' t') = Some (te_value e) \<or> (\<exists>(u, _) \<in> set (seen @ [(s, t)]). expired_at e (sd_clock u))"
  proof (cases "sd_index k' s = sd_index k s")
    case True
    then have "sd_store k' s = sd_store k s" by (simp add: sd_store_def)
    then show ?thesis
      using assms(4) [of "bk k'" e] e assms(5,6) True
      by (auto simp: st st_entry_def assms(3) sd_store_put [OF assms(2)] bex_Un)
  qed (use e in \<open>simp add: st st_entry_def assms(3) sd_store_put [OF assms(2)]\<close>)
qed

section \<open>The sections of a lookup\<close>

lemma st_get_refreshing_effect:
  shows "\<exists>found. fst (st_get_refreshing bk q nanos now m) = Returns found \<and>
      live_value now (hm_get bk q m) = (case found of Live v \<Rightarrow> Some v | _ \<Rightarrow> None)"
    "hm_get bk q' m = Some e \<Longrightarrow> map_option te_value (hm_get bk q' (snd (st_get_refreshing bk q nanos now m))) = Some (te_value e) \<or>
      expired_at e now"
  by (auto simp: st_get_refreshing_def live_value_def hm_remove_entry_def hm_get_without hm_get_update
      split: option.splits)

lemma st_get_rechecking_effect:
  shows "\<exists>found. fst (st_get_rechecking bk q now m) = Returns found \<and>
      live_value now (hm_get bk q m) = (case found of Live v \<Rightarrow> Some v | _ \<Rightarrow> None)"
    "hm_get bk q' m = Some e \<Longrightarrow> map_option te_value (hm_get bk q' (snd (st_get_rechecking bk q now m))) = Some (te_value e) \<or>
      expired_at e now"
  by (auto simp: st_get_rechecking_def live_value_def hm_remove_entry_def hm_get_without split: option.splits)

lemma a_wf_sections [keeps_rules]:
  "keeps (a_wf bk) (st_get_refreshing bk q nanos now)" "keeps (a_wf bk) (st_get_rechecking bk q now)"
  "keeps (a_wf bk) (st_get_reading bk q now)" "keeps (a_wf bk) (st_replace bk k e now)"
  "keeps (a_wf bk) (st_take bk q)"
  by (auto simp: keeps_def st_get_refreshing_def st_get_rechecking_def st_get_reading_def st_replace_def st_take_def
      hm_remove_entry_def Let_def split: option.splits)

text \<open>What remains once the shard has been left: counters and, for an expired entry, the callback.\<close>

lemma st_finish_settled:
  "\<exists>out. settled (sd_sound g ok) (sd_view av) out (st_finish k found) \<and>
     (\<forall>r. out = Returns r \<longrightarrow> r = (case found of Live v \<Rightarrow> Some v | _ \<Rightarrow> None))"
proof (cases found)
  case (Expired removed)
  show ?thesis
  proof (cases removed)
    case None
    then show ?thesis
      using sd_counted_settled(2) by (intro exI [of _ "Returns None"]) (simp add: st_finish_def Expired)
  next
    case (Some ke)
    then show ?thesis
      using settled_evicted [OF sd_counted_settled(2)]
      by (cases ke) (force simp: st_finish_def Expired split: if_splits)
  qed
next
  case Absent
  then show ?thesis
    using sd_counted_settled(2) by (intro exI [of _ "Returns None"]) (simp add: st_finish_def)
next
  case (Live v)
  then show ?thesis
    using sd_counted_settled(1) by (intro exI [of _ "Returns (Some v)"]) (simp add: st_finish_def)
qed

text \<open>A lookup that has left the shard has met its contract.\<close>

lemma st_finish_explained:
  assumes "st_keeps_live bk seen" "st_saw bk k seen (case found of Live v \<Rightarrow> Some v | _ \<Rightarrow> None)"
  shows "explained (sd_sound g ok) (st_lookup_contract bk k) seen (st_finish k found)"
proof -
  obtain out where out: "settled (sd_sound g ok) (sd_view (\<lambda>s. s)) out (st_finish k found)"
      "\<And>r. out = Returns r \<Longrightarrow> r = (case found of Live v \<Rightarrow> Some v | _ \<Rightarrow> None)"
    using st_finish_settled by metis
  show ?thesis
    by (rule explained_settled [OF out(1)])
      (use assms out(2) in \<open>auto simp: st_lookup_contract_def intro: st_saw_append st_keeps_live_quiet\<close>)
qed

lemma st_section_finish:
  assumes c: "sd_sound g (a_wf bk) c" and "st_keeps_live bk seen" "keeps (a_wf bk) (m now)"
    and found: "\<exists>found. fst (m now (sd_store k c)) = Returns found \<and>
      live_value now (hm_get bk (bk k) (sd_store k c)) = (case found of Live v \<Rightarrow> Some v | _ \<Rightarrow> None)"
    and lost: "\<And>q e. hm_get bk q (sd_store k c) = Some e \<Longrightarrow>
      map_option te_value (hm_get bk q (snd (m now (sd_store k c)))) = Some (te_value e) \<or> expired_at e now"
    and u: "\<And>d. \<exists>u w. (u, w) \<in> set (seen @ [(c, d)]) \<and> sd_clock u = now"
  shows "sd_sound g (a_wf bk) (snd (sd_on k (m now) c)) \<and>
    explained (sd_sound g (a_wf bk)) (st_lookup_contract bk k) (seen @ [(c, snd (sd_on k (m now) c))])
      (pbind (Done (fst (sd_on k (m now) c))) (st_finish k))"
proof -
  let ?d = "sd_put k (snd (m now (sd_store k c))) c"
  have d: "sd_sound g (a_wf bk) ?d"
    by (rule sd_put_sound [OF c]) (rule keepsD [OF assms(3) sd_store_ok [OF c]])
  obtain u w where uw: "(u, w) \<in> set (seen @ [(c, ?d)])" "sd_clock u = now" using u by blast
  obtain x where x: "fst (m now (sd_store k c)) = Returns x"
      "live_value now (hm_get bk (bk k) (sd_store k c)) = (case x of Live v \<Rightarrow> Some v | _ \<Rightarrow> None)"
    using found by blast
  have "st_keeps_live bk (seen @ [(c, ?d)])"
    by (rule st_keeps_live_section [OF assms(2) c refl lost uw])
  moreover have "st_saw bk k (seen @ [(c, ?d)]) (case x of Live v \<Rightarrow> Some v | _ \<Rightarrow> None)"
    by (rule st_sawI [OF _ uw(1), of c ?d]) (simp_all add: st_entry_def uw(2) x(2))
  ultimately show ?thesis
    using d x(1) by (simp add: sd_on_apply [OF c] st_finish_explained)
qed

lemma st_get_reading_apply: "st_get_reading bk q now m = (Returns (case hm_get bk q m of
     None \<Rightarrow> None | Some entry \<Rightarrow> Some (expired_at entry now, live_value now (Some entry), now)), m)"
  by (simp add: st_get_reading_def live_value_def Let_def split: option.split)

lemma st_keeps_live_read: "st_keeps_live bk seen \<Longrightarrow> st_keeps_live bk (seen @ [(c, c)])"
  by (rule st_keeps_live_append) auto

lemma st_reading_explained:
  assumes c: "sd_sound g (a_wf bk) c" and seen: "st_keeps_live bk seen"
  shows "explained (sd_sound g (a_wf bk)) (st_lookup_contract bk k) (seen @ [(c, c)])
    (case (case st_entry bk k c of None \<Rightarrow> None
         | Some entry \<Rightarrow> Some (expired_at entry (sd_clock c), live_value (sd_clock c) (Some entry), sd_clock c)) of
       None \<Rightarrow> sd_count_miss k None
     | Some (expired, val, now) \<Rightarrow>
         if expired then pbind (atomically (sd_on k (st_get_rechecking bk (bk k) now))) (st_finish k) else sd_count_hit k val)"
proof (cases "st_entry bk k c")
  case None
  have "st_saw bk k (seen @ [(c, c)]) None"
    by (rule st_sawI [of c c _ c c]) (simp_all add: None live_value_def)
  then show ?thesis
    using st_finish_explained [OF st_keeps_live_read [OF seen], where k = k and found = Absent] None
    by (simp add: st_finish_def)
next
  case (Some e)
  show ?thesis
  proof (cases "expired_at e (sd_clock c)")
    case False
    have "st_saw bk k (seen @ [(c, c)]) (Some (te_value e))"
      by (rule st_sawI [of c c _ c c]) (simp_all add: Some live_value_def False)
    then show ?thesis
      using st_finish_explained [OF st_keeps_live_read [OF seen], where k = k and found = "Live (te_value e)"] Some False
      by (simp add: st_finish_def live_value_def)
  next
    case True
    have "explained (sd_sound g (a_wf bk)) (st_lookup_contract bk k) (seen @ [(c, c)])
        (pbind (atomically (sd_on k (st_get_rechecking bk (bk k) (sd_clock c)))) (st_finish k))"
      by (rule explained_pbind, rule st_section_finish [OF _ st_keeps_live_read [OF seen] a_wf_sections(2)
            st_get_rechecking_effect(1) st_get_rechecking_effect(2)]) auto
    then show ?thesis using Some True by simp
  qed
qed

lemma st_cache_get_explained:
  fixes bk :: "'k \<Rightarrow> 'q"
  shows "explained (sd_sound g (a_wf bk)) (st_lookup_contract bk k) [] (st_cache_get bk k :: (('k, 'v) sharded_ttl, 'v option) proc)"
  unfolding st_cache_get_def
proof (rule explained_pbind, intro conjI)
  fix c0 :: "('k, 'v) sharded_ttl" assume c0: "sd_sound g (a_wf bk) c0"
  then show "sd_sound g (a_wf bk) (snd (Returns (sd_refresh c0), c0))" by simp
  have seen: "st_keeps_live bk [(c0, c0)]" using st_keeps_live_read [of bk "[]"] by simp
  have refreshing: "explained (sd_sound g (a_wf bk)) (st_lookup_contract bk k) [(c0, c0)]
      (pbind (atomically (\<lambda>c. sd_on_now k (st_get_refreshing bk (bk k) (sd_ttl_nanos c)) c)) (st_finish k))"
  proof (rule explained_pbind)
    fix c :: "('k, 'v) sharded_ttl" assume c: "sd_sound g (a_wf bk) c"
    show "sd_sound g (a_wf bk) (snd (sd_on_now k (st_get_refreshing bk (bk k) (sd_ttl_nanos c)) c)) \<and>
      explained (sd_sound g (a_wf bk)) (st_lookup_contract bk k)
        ([(c0, c0)] @ [(c, snd (sd_on_now k (st_get_refreshing bk (bk k) (sd_ttl_nanos c)) c))])
        (pbind (Done (fst (sd_on_now k (st_get_refreshing bk (bk k) (sd_ttl_nanos c)) c))) (st_finish k))"
      unfolding sd_on_now_def
      by (rule st_section_finish [OF c seen a_wf_sections(1) st_get_refreshing_effect(1) st_get_refreshing_effect(2)])
        auto
  qed
  have reading: "explained (sd_sound g (a_wf bk)) (st_lookup_contract bk k) [(c0, c0)]
      (pbind (atomically (sd_on_now k (st_get_reading bk (bk k)))) (\<lambda>found. case found of
         None \<Rightarrow> sd_count_miss k None
       | Some (expired, val, now) \<Rightarrow>
           if expired then pbind (atomically (sd_on k (st_get_rechecking bk (bk k) now))) (st_finish k)
           else sd_count_hit k val))"
  proof (rule explained_pbind)
    fix c :: "('k, 'v) sharded_ttl" assume c: "sd_sound g (a_wf bk) c"
    show "sd_sound g (a_wf bk) (snd (sd_on_now k (st_get_reading bk (bk k)) c)) \<and>
      explained (sd_sound g (a_wf bk)) (st_lookup_contract bk k)
        ([(c0, c0)] @ [(c, snd (sd_on_now k (st_get_reading bk (bk k)) c))])
        (pbind (Done (fst (sd_on_now k (st_get_reading bk (bk k)) c))) (\<lambda>found. case found of
         None \<Rightarrow> sd_count_miss k None
       | Some (expired, val, now) \<Rightarrow>
           if expired then pbind (atomically (sd_on k (st_get_rechecking bk (bk k) now))) (st_finish k)
           else sd_count_hit k val))"
      using st_reading_explained [OF c seen, of k] c
      by (simp add: sd_on_now_def sd_on_apply [OF c] st_get_reading_apply flip: st_entry_def)
  qed
  show "explained (sd_sound g (a_wf bk)) (st_lookup_contract bk k) ([] @ [(c0, snd (Returns (sd_refresh c0), c0))])
      (pbind (Done (fst (Returns (sd_refresh c0), c0))) (\<lambda>refresh.
         if refresh
         then pbind (atomically (\<lambda>c. sd_on_now k (st_get_refreshing bk (bk k) (sd_ttl_nanos c)) c)) (st_finish k)
         else pbind (atomically (sd_on_now k (st_get_reading bk (bk k)))) (\<lambda>found. case found of
             None \<Rightarrow> sd_count_miss k None
           | Some (expired, val, now) \<Rightarrow>
               if expired then pbind (atomically (sd_on k (st_get_rechecking bk (bk k) now))) (st_finish k)
               else sd_count_hit k val)))"
    using refreshing reading by simp
qed

section \<open>Insertions\<close>

text \<open>
  An insertion stores the value with an expiry computed from the clock and the lifetime as they were
  during the call, and returns the value it displaced if that was live at the same instant.
\<close>

definition st_set_contract :: "('k \<Rightarrow> 'q) \<Rightarrow> 'k \<Rightarrow> 'v \<Rightarrow> ('k, 'v) sharded_ttl steps \<Rightarrow> 'v option outcome \<Rightarrow> bool" where
  "st_set_contract bk k v seen out \<longleftrightarrow> (\<exists>(u, _) \<in> set seen. \<exists>(w, _) \<in> set seen. \<exists>(s, t) \<in> set seen.
     st_entry bk k t = Some \<lparr>te_expires_at = nanos_expires_at (sd_ttl_nanos w) (sd_clock u), te_value = v\<rparr> \<and>
     (\<forall>r. out = Returns r \<longrightarrow> r = live_value (sd_clock u) (st_entry bk k s)))"

lemma st_set_contractI:
  "(u, u') \<in> set seen \<Longrightarrow> (w, w') \<in> set seen \<Longrightarrow> (s, t) \<in> set seen \<Longrightarrow>
   st_entry bk k t = Some \<lparr>te_expires_at = nanos_expires_at (sd_ttl_nanos w) (sd_clock u), te_value = v\<rparr> \<Longrightarrow>
   (\<And>r. out = Returns r \<Longrightarrow> r = live_value (sd_clock u) (st_entry bk k s)) \<Longrightarrow> st_set_contract bk k v seen out"
  unfolding st_set_contract_def by blast

lemma st_replace_effect:
  "fst (st_replace bk k e now m) = Returns (map_option (\<lambda>e. (e, expired_at e now)) (hm_get bk (bk k) m))"
  "hm_get bk (bk k) (snd (st_replace bk k e now m)) = Some e"
  by (auto simp: st_replace_def hm_get_update split: option.split) (auto simp: hm_get_def a_find_insert)

definition st_set_rest :: "'k \<Rightarrow> ('v timed_entry \<times> bool) option \<Rightarrow> (('k, 'v) sharded_ttl, 'v option) proc" where
  "st_set_rest k old = (case old of
       Some (entry, True) \<Rightarrow> pbind (sd_evicted k k (te_value entry)) (\<lambda>_. pret None)
     | Some (entry, False) \<Rightarrow> pret (Some (te_value entry))
     | None \<Rightarrow> pret None)"

lemma st_set_rest_safe:
  "safe (sd_sound g ok) (\<lambda>out. \<forall>r. out = Returns r \<longrightarrow> r = live_value now e) (st_set_rest k (map_option (\<lambda>e. (e, expired_at e now)) e))"
proof (cases e)
  case (Some x)
  have "safe (sd_sound g ok) (\<lambda>out. \<forall>r. out = Returns r \<longrightarrow> r = None) (pbind (sd_evicted k k (te_value x)) (\<lambda>_. pret None))"
    by (rule safe_pbind [OF sd_clock_safe(1)]) (simp_all add: pret_def)
  then show ?thesis using Some by (cases "expired_at x now") (simp_all add: st_set_rest_def live_value_def pret_def)
qed (simp add: st_set_rest_def live_value_def pret_def)

lemma st_cache_set_explained:
  fixes bk :: "'k \<Rightarrow> 'q"
  shows "explained (sd_sound g (a_wf bk)) (st_set_contract bk k v) [] (st_cache_set bk k v :: (('k, 'v) sharded_ttl, 'v option) proc)"
  unfolding st_cache_set_def st_set_rest_def [symmetric] sd_now_def [abs_def]
proof (rule explained_read, rule explained_read, rule explained_pbind)
  fix u w c :: "('k, 'v) sharded_ttl"
  let ?e = "\<lparr>te_expires_at = nanos_expires_at (sd_ttl_nanos w) (sd_clock u), te_value = v\<rparr>"
  let ?m = "st_replace bk k ?e (sd_clock u)"
  assume c: "sd_sound g (a_wf bk) c"
  let ?d = "sd_put k (snd (?m (sd_store k c))) c"
  let ?seen = "([] @ [(u, u)]) @ [(w, w)]"
  have d: "sd_sound g (a_wf bk) ?d"
    by (rule sd_put_sound [OF c]) (rule keepsD [OF a_wf_sections(4) sd_store_ok [OF c]])
  have stored: "st_entry bk k ?d = Some ?e"
    by (simp add: st_entry_def sd_store_put [OF c] st_replace_effect(2))
  have "explained (sd_sound g (a_wf bk)) (st_set_contract bk k v) (?seen @ [(c, ?d)])
      (st_set_rest k (map_option (\<lambda>e. (e, expired_at e (sd_clock u))) (st_entry bk k c)))"
    by (rule explained_rest [OF st_set_rest_safe], rule st_set_contractI [OF _ _ _ stored, where u' = u and w' = w and s = c])
      simp_all
  then show "sd_sound g (a_wf bk) (snd (sd_on k ?m c)) \<and>
      explained (sd_sound g (a_wf bk)) (st_set_contract bk k v) (?seen @ [(c, snd (sd_on k ?m c))])
        (pbind (Done (fst (sd_on k ?m c))) (st_set_rest k))"
    using d by (simp add: sd_on_apply [OF c] st_replace_effect(1) flip: st_entry_def)
qed

section \<open>All calls\<close>

text \<open>The calls of a client, and time: \<open>TTick d\<close> lets the clock advance by \<open>d\<close>.\<close>

datatype (plugins only: code size) (dead 'k, dead 'v, dead 'e) st_op =
    TGet 'k
  | TSet 'k 'v
  | TPeek 'k
  | TContains 'k
  | TGetStatus 'k
  | TPeekStatus 'k
  | TRemove 'k
  | TRemoveEntry 'k
  | TDelete 'k
  | TGetOrSet 'k "'v outcome"
  | TTryGetOrSet 'k "('e + 'v) outcome"
  | TRetain "('k, 'v) predicate"
  | TEvict
  | TClear
  | TClearWithOnEvict
  | TReset
  | TResetMetrics
  | TLen
  | TIsEmpty
  | TShardSizes
  | TMetrics
  | TSetTtl duration
  | TTrySetTtl duration
  | TUnsetTtl
  | TSetRefresh bool
  | TTick duration

datatype (plugins only: code size) (dead 'k, dead 'v, dead 'e) st_result =
    TLookup "'v option"
  | TStatus "'v option \<times> bool"
  | TEntry "('k \<times> 'v) option"
  | TValue 'v
  | TTry "'e + 'v"
  | TBool bool
  | TCount usize
  | TCounts "usize list"
  | TMetricsResult cache_metrics
  | TTtl "duration option"
  | TTryTtl "set_ttl_error + duration option"
  | TUnit

fun st_body :: "('k \<Rightarrow> 'q) \<Rightarrow> ('k, 'v, 'e) st_op \<Rightarrow> (('k, 'v) sharded_ttl, ('k, 'v, 'e) st_result) proc" where
  "st_body bk (TGet k) = presult (st_cache_get bk k) TLookup"
| "st_body bk (TSet k v) = presult (st_cache_set bk k v) TLookup"
| "st_body bk (TPeek k) = presult (st_peek bk k) TLookup"
| "st_body bk (TContains k) = presult (st_cache_contains bk k) TBool"
| "st_body bk (TGetStatus k) = presult (st_cache_get_with_expiry_status bk k) TStatus"
| "st_body bk (TPeekStatus k) = presult (st_cache_peek_with_expiry_status bk k) TStatus"
| "st_body bk (TRemove k) = presult (st_cache_remove bk k) TLookup"
| "st_body bk (TRemoveEntry k) = presult (st_cache_remove_entry bk k) TEntry"
| "st_body bk (TDelete k) = presult (st_cache_delete bk k) TBool"
| "st_body bk (TGetOrSet k f) = presult (st_cache_get_or_set_with bk k f) TValue"
| "st_body bk (TTryGetOrSet k f) = presult (st_cache_try_get_or_set_with bk k f) TTry"
| "st_body bk (TRetain keep) = presult (st_retain keep) TCount"
| "st_body bk TEvict = presult st_evict TCount"
| "st_body bk TClear = presult st_clear (\<lambda>_. TUnit)"
| "st_body bk TClearWithOnEvict = presult st_cache_clear_with_on_evict (\<lambda>_. TUnit)"
| "st_body bk TReset = presult st_cache_reset (\<lambda>_. TUnit)"
| "st_body bk TResetMetrics = presult st_cache_reset_metrics (\<lambda>_. TUnit)"
| "st_body bk TLen = presult st_len TCount"
| "st_body bk TIsEmpty = presult st_is_empty TBool"
| "st_body bk TShardSizes = presult st_shard_sizes TCounts"
| "st_body bk TMetrics = presult st_metrics TMetricsResult"
| "st_body bk (TSetTtl d) = presult (st_set_ttl d) TTtl"
| "st_body bk (TTrySetTtl d) = presult (sd_try_set_ttl d) TTryTtl"
| "st_body bk TUnsetTtl = presult st_unset_ttl TTtl"
| "st_body bk (TSetRefresh b) = presult (st_set_refresh_on_hit b) TBool"
| "st_body bk (TTick d) = atomically (\<lambda>c. (Returns TUnit, c\<lparr>sd_clock := sd_clock c + d\<rparr>))"

fun st_contract :: "('k \<Rightarrow> 'q) \<Rightarrow> ('k, 'v, 'e) st_op \<Rightarrow> ('k, 'v) sharded_ttl steps \<Rightarrow> ('k, 'v, 'e) st_result outcome \<Rightarrow> bool" where
  "st_contract bk (TGet k) seen out = (\<exists>o'. out = map_outcome TLookup o' \<and> st_lookup_contract bk k seen o')"
| "st_contract bk (TSet k v) seen out = (\<exists>o'. out = map_outcome TLookup o' \<and> st_set_contract bk k v seen o')"
| "st_contract bk _ seen out = True"

lemma a_wf_sections2 [keeps_rules]:
  "keeps (a_wf bk) (st_drop_expired now)" "keeps (a_wf bk) (st_extract_expired now)"
  "keeps (a_wf bk) (st_retain_section keep now)"
  by (auto simp: keeps_def st_drop_expired_def st_extract_expired_def st_retain_section_def Let_def case_prod_beta
      extract_if_map a_wf_def distinct_map_filter split: option.splits
      dest: a_wf_take_doomed [unfolded a_wf_def])

lemma st_safe_parts [safe_rules]:
  "safe (sd_sound g (a_wf bk)) (\<lambda>_. True) st_clear" "safe (sd_sound g ok) (\<lambda>_. True) st_cache_reset_metrics"
  unfolding st_clear_def st_cache_reset_metrics_def
  by (intro safe_rules keeps_rules keeps_counters; simp)+

lemma st_finish_safe [safe_rules]: "safe (sd_sound g ok) (\<lambda>_. True) (st_finish k found)"
  unfolding st_finish_def by (cases found) (simp_all, (intro safe_rules)+)

lemma st_get_set_safe [safe_rules]:
  "safe (sd_sound g (a_wf bk)) (\<lambda>_. True) (st_cache_get bk k)" "safe (sd_sound g (a_wf bk)) (\<lambda>_. True) (st_cache_set bk k v)"
proof -
  have "keeps (sd_sound g (a_wf bk)) (\<lambda>c. sd_on_now k (st_get_refreshing bk q (sd_ttl_nanos c)) c)" for q
    using keepsD [OF sd_clock_keeps(1) [OF a_wf_sections(1)]] by (auto simp: keeps_def)
  then show "safe (sd_sound g (a_wf bk)) (\<lambda>_. True) (st_cache_get bk k)"
    unfolding st_cache_get_def by (intro safe_rules keeps_rules)
  show "safe (sd_sound g (a_wf bk)) (\<lambda>_. True) (st_cache_set bk k v)"
    unfolding st_cache_set_def
    by (intro safe_rules keeps_rules) (auto split: option.split bool.split intro!: safe_rules)
qed

lemma sd_on_now_state: "(\<And>c now. keeps ok (m c now)) \<Longrightarrow> keeps (sd_sound g ok) (\<lambda>c. sd_on_now k (m c) c)"
  by (rule keepsI) (rule keepsD [OF sd_clock_keeps(1)])

lemma st_status_safe [safe_rules]: "safe (sd_sound g (a_wf bk)) (\<lambda>_. True) (st_cache_get_with_expiry_status bk k)"
  unfolding st_cache_get_with_expiry_status_def
  by (intro safe_rules keeps_rules sd_on_now_state) (auto simp: keeps_def Let_def split: option.split)

lemma st_whole_safe [safe_rules]:
  "safe (sd_sound g (a_wf bk)) (\<lambda>_. True) (st_retain keep)" "safe (sd_sound g (a_wf bk)) (\<lambda>_. True) st_evict"
  "safe (sd_sound g (a_wf bk)) (\<lambda>_. True) st_cache_clear_with_on_evict" "safe (sd_sound g (a_wf bk)) (\<lambda>_. True) st_metrics"
  unfolding st_retain_def st_evict_def st_cache_clear_with_on_evict_def st_metrics_def
  by (intro safe_rules keeps_rules)+

lemma st_safe: "safe (sd_sound g (a_wf bk)) (\<lambda>_. True) (st_body bk op)"
proof (cases op)
  case (TTick d)
  have "keeps (sd_sound g (a_wf bk)) (\<lambda>c. (Returns TUnit, c\<lparr>sd_clock := sd_clock c + d\<rparr>))"
    by (simp add: keeps_def sd_sound_def)
  then show ?thesis unfolding TTick st_body.simps by (rule safe_keeps)
next
  case (TSet k v)
  show ?thesis unfolding TSet st_body.simps by (intro safe_rules)
qed (simp_all only: st_body.simps st_peek_def st_cache_contains_def st_cache_peek_with_expiry_status_def
    st_cache_remove_def st_cache_remove_entry_def st_cache_delete_def st_cache_get_or_set_with_def
    st_cache_try_get_or_set_with_def st_cache_reset_def st_len_def st_is_empty_def st_shard_sizes_def
    sd_sum_read_def sd_all_read_def sd_list_read_def st_set_ttl_def st_unset_ttl_def st_set_refresh_on_hit_def,
    (intro safe_rules keeps_rules safe_get_or_set)+)

interpretation st: explained_calls "st_body bk" "sd_sound g (a_wf bk)" "st_contract bk"
  for bk :: "'k \<Rightarrow> 'q" and g :: "('k, 'v) sharding"
proof unfold_locales
  fix op :: "('k, 'v, 'e) st_op"
  show "explained (sd_sound g (a_wf bk)) (st_contract bk op) [] (st_body bk op)"
  proof (cases op)
    case (TGet k)
    show ?thesis unfolding TGet st_body.simps by (rule explained_presult [OF st_cache_get_explained]) auto
  next
    case (TSet k v)
    show ?thesis unfolding TSet st_body.simps by (rule explained_presult [OF st_cache_set_explained]) auto
  qed (rule explained_any [OF st_safe]; simp)+
qed

lemma st_build_sound:
  assumes "st_build parallelism now b = Inr c"
  shows "sd_sound (sd_sharding c) (a_wf bk) c"
proof -
  obtain n where "checked_shard_count parallelism (stb_shards b) = Inr n"
      "sd_shards c = map (\<lambda>_. shard_new []) [0..<n]" "sd_mask c = n - 1"
    using assms by (auto simp: st_build_def split: option.splits sum.splits)
  then show ?thesis
    using checked_shard_count_power by (auto simp: sd_sound_def sd_sharding_def shard_new_def a_wf_def)
qed

section \<open>A race\<close>

text \<open>
  One shard, entries live for ten nanoseconds. The first thread stores a value under 1, lets time pass
  and looks 1 up: it sees the expired entry under the read lock. Before it takes the write lock, the
  second thread stores a new value.
\<close>

definition st_demo_builder :: "(nat, nat) sharded_ttl_builder" where
  "st_demo_builder = st_builder_shards 1 (st_builder_ttl 10 (st_builder_default (\<lambda>k. 0)))"

definition st_demo :: "(nat, nat) sharded_ttl" where
  "st_demo = (case st_build None 0 st_demo_builder of Inr c \<Rightarrow> c)"

definition st_demo_ops :: "(nat, nat, unit) st_op list list" where
  "st_demo_ops = [[TSet 1 10, TTick 20, TGet 1], [TSet 1 11]]"

definition st_demo_run :: "((nat, nat) sharded_ttl, (nat, nat, unit) st_op,
    (nat, nat) sharded_ttl steps \<times> (nat, nat, unit) st_result outcome) thread list \<times> (nat, nat) sharded_ttl" where
  "st_demo_run = schedule (observed (st_body id)) [0, 0, 0, 0, 0, 0, 0, 0, 0, 0, 0, 1, 1, 1, 1, 1, 1, 1, 0, 0, 0, 0]
     (map fresh_thread st_demo_ops, st_demo)"

lemma st_demo_build: "st_build None 0 st_demo_builder = Inr st_demo"
proof -
  have "case st_build None 0 st_demo_builder of Inl _ \<Rightarrow> False | Inr _ \<Rightarrow> True" by code_simp
  then show ?thesis unfolding st_demo_def by (auto split: sum.splits)
qed

lemma st_demo_interleaving:
  "interleaving (observed (st_body id)) (map fresh_thread st_demo_ops, st_demo) (fst st_demo_run, snd st_demo_run)"
  unfolding st_demo_run_def prod.collapse by (intro schedule_interleaving interleaving.start)

lemma st_demo_thread: "fst st_demo_run ! 0 \<in> set (fst st_demo_run)" "fst st_demo_run ! 1 \<in> set (fst st_demo_run)"
proof -
  have "length (fst st_demo_run) = 2" by (simp only: st_demo_run_def schedule_threads fst_conv length_map) (simp add: st_demo_ops_def)
  then show "fst st_demo_run ! 0 \<in> set (fst st_demo_run)" "fst st_demo_run ! 1 \<in> set (fst st_demo_run)" by simp_all
qed

definition st_is_lookup :: "'v option \<Rightarrow> ('k, 'v, 'e) st_result outcome \<Rightarrow> bool" where
  "st_is_lookup r out = (case out of Returns res \<Rightarrow> (case res of TLookup r' \<Rightarrow> r' = r | _ \<Rightarrow> False) | _ \<Rightarrow> False)"

definition st_looked_up :: "'v option \<Rightarrow> ('s steps \<times> ('k, 'v, 'e) st_result outcome) outcome \<Rightarrow> bool" where
  "st_looked_up r w = (case w of Returns (seen, out) \<Rightarrow> st_is_lookup r out | _ \<Rightarrow> False)"

lemma st_is_lookupD: "st_is_lookup r out \<Longrightarrow> out = Returns (TLookup r)"
  unfolding st_is_lookup_def by (cases out; simp) (rename_tac res, case_tac res; simp)

lemma st_looked_upD: "st_looked_up r w \<Longrightarrow> \<exists>seen. w = Returns (seen, Returns (TLookup r))"
  by (auto simp: st_looked_up_def dest: st_is_lookupD split: outcome.splits)

lemma st_demo_lookup:
  obtains seen where "(TGet 1, Returns (seen, Returns (TLookup (Some 11)))) \<in> set (th_done (fst st_demo_run ! 0))"
proof -
  have "list_ex (\<lambda>(op, w). (case op of TGet k \<Rightarrow> k = 1 | _ \<Rightarrow> False) \<and> st_looked_up (Some 11) w)
      (th_done (fst st_demo_run ! 0))" by code_simp
  moreover have "(case op of TGet k \<Rightarrow> k = 1 | _ \<Rightarrow> False) \<Longrightarrow> op = TGet 1" for op :: "(nat, nat, unit) st_op"
    by (cases op) simp_all
  ultimately show ?thesis using that by (fastforce simp: list_ex_iff dest: st_looked_upD)
qed

section \<open>Properties\<close>

text \<open>
  C31. A lookup in a \<open>ShardedTtlCache\<close> tells the truth about a moment of the call: whatever the other
  threads do (lookups, insertions, removals, sweeps, clearing, changes of the lifetime and of
  refresh-on-hit) and however time passes, the result of a \<open>cache_get\<close> that returned is the value that the
  shard of the key held in the state of one of its steps, or nothing if there was none or it had
  expired at the instant of one of its steps. So it never returns a value that had expired when the
  call began, even on the path that upgrades from the read to the write lock.
\<close>

theorem st_lookup_truthful:
  assumes "st_build parallelism now b = Inr c"
    and "interleaving (observed (st_body bk)) (map fresh_thread opss, c) (ts, d)"
    and "t \<in> set ts" "(TGet k, Returns (seen, Returns (TLookup r))) \<in> set (th_done t)"
  shows "st_saw bk k seen r"
  using st.outcome_explained [OF assms(2) st_build_sound [OF assms(1)] assms(3,4)]
  by (simp add: Returns_map_outcome st_lookup_contract_def)

theorem st_lookup_truthful_witness:
  "\<exists>seen. (TGet 1, Returns (seen, Returns (TLookup (Some 11)))) \<in> set (th_done (fst st_demo_run ! 0)) \<and>
     st_saw id 1 seen (Some 11)"
proof -
  obtain seen where seen: "(TGet 1, Returns (seen, Returns (TLookup (Some 11)))) \<in> set (th_done (fst st_demo_run ! 0))"
    by (rule st_demo_lookup)
  then have "st_saw id 1 seen (Some 11)"
    by (rule st_lookup_truthful [OF st_demo_build st_demo_interleaving st_demo_thread(1)])
  then show ?thesis using seen by blast
qed

text \<open>
  C32. A lookup never costs another thread a live entry: no step of a \<open>cache_get\<close>, whether the call
  returned or its callback panicked, takes a value out of the cache, or replaces it, unless the
  entry had expired at the instant of a step of the call. In particular the removal under the write
  lock spares an entry that another thread has stored since the expired one was seen.
\<close>

theorem st_lookup_spares_live:
  assumes "st_build parallelism now b = Inr c"
    and "interleaving (observed (st_body bk)) (map fresh_thread opss, c) (ts, d)"
    and "t \<in> set ts" "(TGet k, Returns (seen, out)) \<in> set (th_done t)"
  shows "st_keeps_live bk seen"
  using st.outcome_explained [OF assms(2) st_build_sound [OF assms(1)] assms(3,4)]
  by (auto simp: st_lookup_contract_def)

theorem st_lookup_spares_live_witness:
  "\<exists>seen. (TGet 1, Returns (seen, Returns (TLookup (Some 11)))) \<in> set (th_done (fst st_demo_run ! 0)) \<and>
     st_keeps_live id seen"
proof -
  obtain seen where seen: "(TGet 1, Returns (seen, Returns (TLookup (Some 11)))) \<in> set (th_done (fst st_demo_run ! 0))"
    by (rule st_demo_lookup)
  then have "st_keeps_live id seen"
    by (rule st_lookup_spares_live [OF st_demo_build st_demo_interleaving st_demo_thread(1)])
  then show ?thesis using seen by blast
qed

text \<open>
  An insertion into a \<open>ShardedTtlCache\<close> takes effect at one moment of the call: in the state after
  one of its steps the shard holds the value, with an expiry computed from the clock and the lifetime
  as they were at steps of the call, and if the call returned, it returned the live value that the
  entry replaced, judged at the same instant as the new expiry.
\<close>

theorem st_set_takes_effect:
  assumes "st_build parallelism now b = Inr c"
    and "interleaving (observed (st_body bk)) (map fresh_thread opss, c) (ts, d)"
    and "t \<in> set ts" "(TSet k v, Returns (seen, Returns (TLookup r))) \<in> set (th_done t)"
  shows "st_set_contract bk k v seen (Returns r)"
  using st.outcome_explained [OF assms(2) st_build_sound [OF assms(1)] assms(3,4)]
  by (simp add: Returns_map_outcome)

theorem st_set_takes_effect_witness:
  "\<exists>seen. (TSet 1 11, Returns (seen, Returns (TLookup None))) \<in> set (th_done (fst st_demo_run ! 1)) \<and>
     st_set_contract id 1 11 seen (Returns None)"
proof -
  have "list_ex (\<lambda>(op, w). (case op of TSet k v \<Rightarrow> k = 1 \<and> v = 11 | _ \<Rightarrow> False) \<and> st_looked_up None w)
      (th_done (fst st_demo_run ! 1))" by code_simp
  moreover have "(case op of TSet k v \<Rightarrow> k = 1 \<and> v = 11 | _ \<Rightarrow> False) \<Longrightarrow> op = TSet 1 11" for op :: "(nat, nat, unit) st_op"
    by (cases op) simp_all
  ultimately obtain seen where seen: "(TSet 1 11, Returns (seen, Returns (TLookup None))) \<in> set (th_done (fst st_demo_run ! 1))"
    by (fastforce simp: list_ex_iff dest: st_looked_upD)
  then have "st_set_contract id 1 11 seen (Returns None)"
    by (rule st_set_takes_effect [OF st_demo_build st_demo_interleaving st_demo_thread(2)])
  then show ?thesis using seen by blast
qed

end
