(* ===== verification/Sharded_Expiring.thy ===== *)
theory Sharded_Expiring
  imports Hash_Map Sharded_Clock
begin

text \<open>
  \<open>src/stores/sharded/expiring.rs\<close>: \<open>ShardedExpiringCache\<close>, hash maps behind one lock per shard whose
  values say themselves whether they have expired. \<open>Expires::is_expired\<close> is user code and its answer
  changes with time: \<open>exp now v\<close> is what it answers at the instant \<open>now\<close>, and \<open>None\<close> is a panic of it,
  which leaves the shard as it is at that point and ends the call.
\<close>

type_synonym ('k, 'v) sharded_expiring = "(('k, 'v) hash_map, 'k, 'v) sharded_clocked"
type_synonym 'v expires_at = "instant \<Rightarrow> 'v \<Rightarrow> bool option"

section \<open>Building\<close>

record ('k, 'v) sharded_expiring_builder =
  seb_shards :: "usize option"
  seb_per_shard_initial_capacity :: "usize option"
  seb_hasher :: "'k \<Rightarrow> u64"
  seb_on_evict :: "('k, 'v) callback option"

definition se_builder_default :: "('k \<Rightarrow> u64) \<Rightarrow> ('k, 'v) sharded_expiring_builder" where
  "se_builder_default random = \<lparr>seb_shards = None, seb_per_shard_initial_capacity = None, seb_hasher = random,
     seb_on_evict = None\<rparr>"

definition se_builder_shards :: "usize \<Rightarrow> ('k, 'v) sharded_expiring_builder \<Rightarrow> ('k, 'v) sharded_expiring_builder" where
  "se_builder_shards n b = b\<lparr>seb_shards := Some n\<rparr>"

definition se_builder_per_shard_initial_capacity ::
    "usize \<Rightarrow> ('k, 'v) sharded_expiring_builder \<Rightarrow> ('k, 'v) sharded_expiring_builder" where
  "se_builder_per_shard_initial_capacity n b = b\<lparr>seb_per_shard_initial_capacity := Some n\<rparr>"

definition se_builder_hasher :: "('k \<Rightarrow> u64) \<Rightarrow> ('k, 'v) sharded_expiring_builder \<Rightarrow> ('k, 'v) sharded_expiring_builder" where
  "se_builder_hasher h b = b\<lparr>seb_hasher := h\<rparr>"

definition se_builder_on_evict ::
    "('k, 'v) callback \<Rightarrow> ('k, 'v) sharded_expiring_builder \<Rightarrow> ('k, 'v) sharded_expiring_builder" where
  "se_builder_on_evict f b = b\<lparr>seb_on_evict := Some f\<rparr>"

definition se_build :: "usize option \<Rightarrow> instant \<Rightarrow> ('k, 'v) sharded_expiring_builder
    \<Rightarrow> build_error + ('k, 'v) sharded_expiring" where
  "se_build parallelism now b = (case checked_shard_count parallelism (seb_shards b) of
       Inl e \<Rightarrow> Inl e
     | Inr n \<Rightarrow> Inr \<lparr>sd_shards = map (\<lambda>_. shard_new []) [0..<n], sd_mask = n - 1, sd_hasher = seb_hasher b,
         sd_on_evict = seb_on_evict b, sd_calls = [], sd_clock = now\<rparr>)"

text \<open>\<open>new\<close> panics (\<open>None\<close>) where building fails.\<close>

definition se_new :: "usize option \<Rightarrow> ('k \<Rightarrow> u64) \<Rightarrow> instant \<Rightarrow> ('k, 'v) sharded_expiring option" where
  "se_new parallelism random now =
     (case se_build parallelism now (se_builder_default random) of Inl _ \<Rightarrow> None | Inr c \<Rightarrow> Some c)"

section \<open>Lookups\<close>

text \<open>The look under the read lock: whether the value has expired, and the value if not.\<close>

definition se_get_reading :: "('k \<Rightarrow> 'q) \<Rightarrow> 'v expires_at \<Rightarrow> 'q \<Rightarrow> instant
    \<Rightarrow> (('k, 'v) hash_map, (bool \<times> 'v option) option) comp" where
  "se_get_reading bk exp q now m = (case hm_get bk q m of
       None \<Rightarrow> (Returns None, m)
     | Some v \<Rightarrow> (case exp now v of
         None \<Rightarrow> (Panics, m)
       | Some expired \<Rightarrow> (Returns (Some (expired, if \<not> expired then Some v else None)), m)))"

text \<open>The second look, under the write lock: a fresh value (\<open>Inl\<close>), or what was removed (\<open>Inr\<close>).\<close>

definition se_get_rechecking :: "('k \<Rightarrow> 'q) \<Rightarrow> 'v expires_at \<Rightarrow> 'q \<Rightarrow> instant
    \<Rightarrow> (('k, 'v) hash_map, 'v + ('k \<times> 'v) option) comp" where
  "se_get_rechecking bk exp q now m =
     (case (case hm_get bk q m of
         None \<Rightarrow> Some None
       | Some v \<Rightarrow> map_option (\<lambda>expired. if \<not> expired then Some v else None) (exp now v)) of
        None \<Rightarrow> (Panics, m)
      | Some (Some fresh_val) \<Rightarrow> (Returns (Inl fresh_val), m)
      | Some None \<Rightarrow> (case hm_remove_entry bk q m of (removed, m') \<Rightarrow> (Returns (Inr removed), m')))"

definition se_finish :: "'k \<Rightarrow> 'v + ('k \<times> 'v) option \<Rightarrow> (('k, 'v) sharded_expiring, 'v option) proc" where
  "se_finish k found = (case found of
       Inl fresh_val \<Rightarrow> sd_count_hit k (Some fresh_val)
     | Inr removed \<Rightarrow> pbind (case removed of
           Some (stored_k, v) \<Rightarrow> sd_evicted k stored_k v
         | None \<Rightarrow> pret ()) (\<lambda>_. sd_count_miss k None))"

definition se_cache_get :: "('k \<Rightarrow> 'q) \<Rightarrow> 'v expires_at \<Rightarrow> 'k \<Rightarrow> (('k, 'v) sharded_expiring, 'v option) proc" where
  "se_cache_get bk exp k =
     pbind (atomically (sd_on_now k (se_get_reading bk exp (bk k)))) (\<lambda>found. case found of
       None \<Rightarrow> sd_count_miss k None
     | Some (expired, val) \<Rightarrow>
         if expired then pbind (atomically (sd_on_now k (se_get_rechecking bk exp (bk k)))) (se_finish k)
         else sd_count_hit k val)"

text \<open>The value under a key and whether it has expired, for the calls that leave the shard as it is.\<close>

definition se_status :: "('k \<Rightarrow> 'q) \<Rightarrow> 'v expires_at \<Rightarrow> 'q \<Rightarrow> instant
    \<Rightarrow> (('k, 'v) hash_map, ('v \<times> bool) option) comp" where
  "se_status bk exp q now m = (case hm_get bk q m of
       None \<Rightarrow> (Returns None, m)
     | Some v \<Rightarrow> (case exp now v of None \<Rightarrow> (Panics, m) | Some expired \<Rightarrow> (Returns (Some (v, expired)), m)))"

definition se_peek :: "('k \<Rightarrow> 'q) \<Rightarrow> 'v expires_at \<Rightarrow> 'k \<Rightarrow> (('k, 'v) sharded_expiring, 'v option) proc" where
  "se_peek bk exp k = pbind (atomically (sd_on_now k (se_status bk exp (bk k)))) (\<lambda>found.
     pret (case found of Some (v, False) \<Rightarrow> Some v | _ \<Rightarrow> None))"

definition se_cache_peek :: "('k \<Rightarrow> 'q) \<Rightarrow> 'v expires_at \<Rightarrow> 'k \<Rightarrow> (('k, 'v) sharded_expiring, 'v option) proc" where
  "se_cache_peek bk exp k = se_peek bk exp k"

definition se_cache_contains :: "('k \<Rightarrow> 'q) \<Rightarrow> 'v expires_at \<Rightarrow> 'k \<Rightarrow> (('k, 'v) sharded_expiring, bool) proc" where
  "se_cache_contains bk exp k = pbind (atomically (sd_on_now k (se_status bk exp (bk k)))) (\<lambda>found.
     pret (case found of Some (_, expired) \<Rightarrow> \<not> expired | None \<Rightarrow> False))"

definition se_cache_get_with_expiry_status :: "('k \<Rightarrow> 'q) \<Rightarrow> 'v expires_at \<Rightarrow> 'k
    \<Rightarrow> (('k, 'v) sharded_expiring, 'v option \<times> bool) proc" where
  "se_cache_get_with_expiry_status bk exp k =
     pbind (atomically (sd_on_now k (se_status bk exp (bk k)))) (\<lambda>found. case found of
       None \<Rightarrow> sd_count_miss k (None, False)
     | Some (v, expired) \<Rightarrow> if expired then sd_count_miss k (Some v, True) else sd_count_hit k (Some v, False))"

definition se_cache_peek_with_expiry_status :: "('k \<Rightarrow> 'q) \<Rightarrow> 'v expires_at \<Rightarrow> 'k
    \<Rightarrow> (('k, 'v) sharded_expiring, 'v option \<times> bool) proc" where
  "se_cache_peek_with_expiry_status bk exp k =
     pbind (atomically (sd_on_now k (se_status bk exp (bk k)))) (\<lambda>found.
     pret (case found of None \<Rightarrow> (None, False) | Some (v, expired) \<Rightarrow> (Some v, expired)))"

section \<open>Updates\<close>

text \<open>
  The critical section of an insertion: an overwrite keeps the stored key and swaps the value, then
  asks the old value whether it has expired. If that panics, the new value stays.
\<close>

definition se_replace :: "('k \<Rightarrow> 'q) \<Rightarrow> 'v expires_at \<Rightarrow> 'k \<Rightarrow> 'v \<Rightarrow> instant
    \<Rightarrow> (('k, 'v) hash_map, ('v \<times> bool) option) comp" where
  "se_replace bk exp k v now m = (case hm_get bk (bk k) m of
       Some old_v \<Rightarrow>
         let m' = hm_update bk (bk k) (\<lambda>_. v) m
         in (case exp now old_v of
               None \<Rightarrow> (Panics, m')
             | Some expired \<Rightarrow> (Returns (Some (old_v, expired)), m'))
     | None \<Rightarrow> (Returns None, snd (hm_insert bk k v m)))"

definition se_cache_set :: "('k \<Rightarrow> 'q) \<Rightarrow> 'v expires_at \<Rightarrow> 'k \<Rightarrow> 'v \<Rightarrow> (('k, 'v) sharded_expiring, 'v option) proc" where
  "se_cache_set bk exp k v =
     pbind (atomically (sd_on_now k (se_replace bk exp k v))) (\<lambda>old. case old of
       Some (old_v, True) \<Rightarrow> pbind (sd_evicted k k old_v) (\<lambda>_. pret None)
     | Some (old_v, False) \<Rightarrow> pret (Some old_v)
     | None \<Rightarrow> pret None)"

definition se_take :: "('k \<Rightarrow> 'q) \<Rightarrow> 'q \<Rightarrow> (('k, 'v) hash_map, ('k \<times> 'v) option) comp" where
  "se_take bk q m = (case hm_remove_entry bk q m of (removed, m') \<Rightarrow> (Returns removed, m'))"

text \<open>The removed value is asked whether it has expired only after it was counted and reported.\<close>

definition se_cache_remove :: "('k \<Rightarrow> 'q) \<Rightarrow> 'v expires_at \<Rightarrow> 'k \<Rightarrow> (('k, 'v) sharded_expiring, 'v option) proc" where
  "se_cache_remove bk exp k =
     pbind (atomically (sd_on k (se_take bk (bk k)))) (\<lambda>removed. case removed of
       Some (stored_k, v) \<Rightarrow>
         pbind (sd_evicted k stored_k v) (\<lambda>_.
         pbind (atomically sd_now) (\<lambda>now. case exp now v of
           None \<Rightarrow> Done Panics
         | Some expired \<Rightarrow> pret (if expired then None else Some v)))
     | None \<Rightarrow> pret None)"

definition se_cache_remove_entry :: "('k \<Rightarrow> 'q) \<Rightarrow> 'k \<Rightarrow> (('k, 'v) sharded_expiring, ('k \<times> 'v) option) proc" where
  "se_cache_remove_entry bk k =
     pbind (atomically (sd_on k (se_take bk (bk k)))) (\<lambda>removed. case removed of
       Some (stored_k, v) \<Rightarrow> pbind (sd_evicted k stored_k v) (\<lambda>_. pret (Some (stored_k, v)))
     | None \<Rightarrow> pret None)"

definition se_cache_delete :: "('k \<Rightarrow> 'q) \<Rightarrow> 'k \<Rightarrow> (('k, 'v) sharded_expiring, bool) proc" where
  "se_cache_delete bk k = cc_cache_delete (se_cache_remove_entry bk k)"

definition se_cache_get_or_set_with :: "('k \<Rightarrow> 'q) \<Rightarrow> 'v expires_at \<Rightarrow> 'k \<Rightarrow> 'v outcome
    \<Rightarrow> (('k, 'v) sharded_expiring, 'v) proc" where
  "se_cache_get_or_set_with bk exp = cc_cache_get_or_set_with (se_cache_get bk exp) (se_cache_set bk exp)"

definition se_cache_try_get_or_set_with :: "('k \<Rightarrow> 'q) \<Rightarrow> 'v expires_at \<Rightarrow> 'k \<Rightarrow> ('e + 'v) outcome
    \<Rightarrow> (('k, 'v) sharded_expiring, 'e + 'v) proc" where
  "se_cache_try_get_or_set_with bk exp = cc_cache_try_get_or_set_with (se_cache_get bk exp) (se_cache_set bk exp)"

section \<open>Calls on the whole cache\<close>

definition se_clear :: "(('k, 'v) sharded_expiring, unit) proc" where
  "se_clear = sd_each (\<lambda>i. atomically (sd_locked i (\<lambda>_. (Returns (), []))))"

definition se_cache_clear :: "(('k, 'v) sharded_expiring, unit) proc" where
  "se_cache_clear = se_clear"

definition se_cache_clear_with_on_evict :: "(('k, 'v) sharded_expiring, unit) proc" where
  "se_cache_clear_with_on_evict =
     pbind (atomically get_state) (\<lambda>c.
     case sd_on_evict c of
       None \<Rightarrow> sd_each (\<lambda>i. pbind (atomically (sd_locked i (\<lambda>m. (Returns (length m), [])))) (sd_dropped i))
     | Some _ \<Rightarrow> sd_each (\<lambda>i. pbind (atomically (sd_locked i (\<lambda>m. (Returns m, [])))) (sd_evicted_all i)))"

text \<open>Sweeping a shard: the entries to remove are selected first; a panic of user code removes nothing.\<close>

definition se_take_doomed :: "(instant \<Rightarrow> ('k, 'v) predicate) \<Rightarrow> instant
    \<Rightarrow> (('k, 'v) hash_map, ('k \<times> 'v) list) comp" where
  "se_take_doomed doomed now m = (case take_doomed (doomed now) m of
       None \<Rightarrow> (Panics, m)
     | Some (removed, m') \<Rightarrow> (Returns removed, m'))"

definition se_sweep :: "(instant \<Rightarrow> ('k, 'v) predicate) \<Rightarrow> (('k, 'v) sharded_expiring, usize) proc" where
  "se_sweep doomed = sd_fold (\<lambda>i n. pbind (atomically (sd_locked_now i (se_take_doomed doomed))) (\<lambda>removed.
     pbind (sd_evicted_all i removed) (\<lambda>_. pret (n + length removed)))) 0"

definition se_evict :: "'v expires_at \<Rightarrow> (('k, 'v) sharded_expiring, usize) proc" where
  "se_evict exp = se_sweep (\<lambda>now _ v. exp now v)"

definition se_retain :: "'v expires_at \<Rightarrow> ('k, 'v) predicate \<Rightarrow> (('k, 'v) sharded_expiring, usize) proc" where
  "se_retain exp keep = se_sweep (\<lambda>now k v. do {
     expired \<leftarrow> exp now v;
     if expired then Some True else map_option Not (keep k v)
   })"

definition se_len :: "(('k, 'v) sharded_expiring, usize) proc" where
  "se_len = sd_sum_read length"

definition se_cache_size :: "(('k, 'v) sharded_expiring, usize option) proc" where
  "se_cache_size = pbind se_len (\<lambda>n. pret (Some n))"

definition se_is_empty :: "(('k, 'v) sharded_expiring, bool) proc" where
  "se_is_empty = sd_all_read (\<lambda>m. m = [])"

definition se_shards :: "('k, 'v) sharded_expiring \<Rightarrow> usize" where
  "se_shards c = length (sd_shards c)"

definition se_shard_sizes :: "(('k, 'v) sharded_expiring, usize list) proc" where
  "se_shard_sizes = sd_list_read length"

definition se_cache_hits :: "(('k, 'v) sharded_expiring, u64 option) proc" where
  "se_cache_hits = pbind (sd_sum_load sh_hits) (\<lambda>n. pret (Some n))"

definition se_cache_misses :: "(('k, 'v) sharded_expiring, u64 option) proc" where
  "se_cache_misses = pbind (sd_sum_load sh_misses) (\<lambda>n. pret (Some n))"

definition se_cache_evictions :: "(('k, 'v) sharded_expiring, u64 option) proc" where
  "se_cache_evictions = pbind (sd_sum_load sh_evictions) (\<lambda>n. pret (Some n))"

definition se_metrics :: "(('k, 'v) sharded_expiring, cache_metrics) proc" where
  "se_metrics = pbind (sd_fold (\<lambda>i (hits, misses, evictions, n).
       pbind (atomically (sd_load i sh_hits)) (\<lambda>h.
       pbind (atomically (sd_load i sh_misses)) (\<lambda>ms.
       pbind (atomically (sd_load i sh_evictions)) (\<lambda>e.
       pbind (sd_read i length) (\<lambda>l.
       pret (hits + h, misses + ms, evictions + e, n + l)))))) (0, 0, 0, 0)) (\<lambda>(hits, misses, evictions, n).
     pret \<lparr>cm_hits = Some hits, cm_misses = Some misses, cm_evictions = Some evictions,
       cm_entry_count = Some n, cm_capacity = None\<rparr>)"

definition se_cache_reset_metrics :: "(('k, 'v) sharded_expiring, unit) proc" where
  "se_cache_reset_metrics = sd_each (\<lambda>i.
     pbind (atomically (sd_counters i (\<lambda>sh. sh\<lparr>sh_hits := 0\<rparr>))) (\<lambda>_.
     pbind (atomically (sd_counters i (\<lambda>sh. sh\<lparr>sh_misses := 0\<rparr>))) (\<lambda>_.
     atomically (sd_counters i (\<lambda>sh. sh\<lparr>sh_evictions := 0\<rparr>)))))"

definition se_cache_reset :: "(('k, 'v) sharded_expiring, unit) proc" where
  "se_cache_reset = pbind se_clear (\<lambda>_. se_cache_reset_metrics)"

definition se_deep_clone :: "(('k, 'v) sharded_expiring, ('k, 'v) sharded_expiring) proc" where
  "se_deep_clone =
     pbind (sd_fold (\<lambda>i shards. pbind (atomically (sd_load i (\<lambda>sh. sh))) (\<lambda>sh. pret (shards @ [sh]))) []) (\<lambda>shards.
     pbind (atomically get_state) (\<lambda>c.
     pret \<lparr>sd_shards = shards, sd_mask = sd_mask c, sd_hasher = sd_hasher c, sd_on_evict = sd_on_evict c,
       sd_calls = [], sd_clock = sd_clock c\<rparr>))"

text \<open>
  \<open>copy_from\<close>: the live entries of each shard are inserted into the new cache, which no other thread can
  see yet; its clock is set to the instant of the copy. A panic of \<open>is_expired\<close> ends the call.
\<close>

definition se_live_entries :: "'v expires_at \<Rightarrow> instant \<Rightarrow> (('k, 'v) hash_map, instant \<times> ('k \<times> 'v) list) comp" where
  "se_live_entries exp now m = (case filter_closure (\<lambda>(_, v). map_option Not (exp now v)) m of
       None \<Rightarrow> (Panics, m)
     | Some entries \<Rightarrow> (Returns (now, entries), m))"

definition se_copy_from :: "usize option \<Rightarrow> ('k \<Rightarrow> 'q) \<Rightarrow> 'v expires_at \<Rightarrow> ('k, 'v) sharded_expiring_builder
    \<Rightarrow> (('k, 'v) sharded_expiring, build_error + ('k, 'v) sharded_expiring) proc" where
  "se_copy_from parallelism bk exp b =
     pbind (atomically sd_now) (\<lambda>start. case se_build parallelism start b of
       Inl e \<Rightarrow> pret (Inl e)
     | Inr new_cache \<Rightarrow>
         pbind (sd_fold (\<lambda>i c. pbind (atomically (sd_locked_now i (se_live_entries exp))) (\<lambda>(now, entries).
           case run_calls (\<lambda>(k, v). se_cache_set bk exp k v) entries (c\<lparr>sd_clock := now\<rparr>) of
             Some d \<Rightarrow> pret d | None \<Rightarrow> Done Panics)) new_cache) (\<lambda>c.
         pret (Inr c)))"

section \<open>Shorthands and asynchronous twins\<close>

definition se_get :: "('k \<Rightarrow> 'q) \<Rightarrow> 'v expires_at \<Rightarrow> 'k \<Rightarrow> (('k, 'v) sharded_expiring, 'v option) proc" where
  "se_get = se_cache_get"

definition se_set :: "('k \<Rightarrow> 'q) \<Rightarrow> 'v expires_at \<Rightarrow> 'k \<Rightarrow> 'v \<Rightarrow> (('k, 'v) sharded_expiring, 'v option) proc" where
  "se_set = se_cache_set"

definition se_get_or_set_with :: "('k \<Rightarrow> 'q) \<Rightarrow> 'v expires_at \<Rightarrow> 'k \<Rightarrow> 'v outcome \<Rightarrow> (('k, 'v) sharded_expiring, 'v) proc" where
  "se_get_or_set_with = se_cache_get_or_set_with"

definition se_remove :: "('k \<Rightarrow> 'q) \<Rightarrow> 'v expires_at \<Rightarrow> 'k \<Rightarrow> (('k, 'v) sharded_expiring, 'v option) proc" where
  "se_remove = se_cache_remove"

definition se_remove_entry :: "('k \<Rightarrow> 'q) \<Rightarrow> 'k \<Rightarrow> (('k, 'v) sharded_expiring, ('k \<times> 'v) option) proc" where
  "se_remove_entry = se_cache_remove_entry"

definition se_delete :: "('k \<Rightarrow> 'q) \<Rightarrow> 'k \<Rightarrow> (('k, 'v) sharded_expiring, bool) proc" where
  "se_delete = se_cache_delete"

definition se_reset :: "(('k, 'v) sharded_expiring, unit) proc" where
  "se_reset = se_cache_reset"

definition se_contains :: "('k \<Rightarrow> 'q) \<Rightarrow> 'v expires_at \<Rightarrow> 'k \<Rightarrow> (('k, 'v) sharded_expiring, bool) proc" where
  "se_contains = se_cache_contains"

definition se_async_cache_get :: "('k \<Rightarrow> 'q) \<Rightarrow> 'v expires_at \<Rightarrow> 'k \<Rightarrow> (('k, 'v) sharded_expiring, 'v option) proc" where
  "se_async_cache_get = se_cache_get"

definition se_async_cache_set :: "('k \<Rightarrow> 'q) \<Rightarrow> 'v expires_at \<Rightarrow> 'k \<Rightarrow> 'v \<Rightarrow> (('k, 'v) sharded_expiring, 'v option) proc" where
  "se_async_cache_set = se_cache_set"

definition se_async_cache_remove :: "('k \<Rightarrow> 'q) \<Rightarrow> 'v expires_at \<Rightarrow> 'k \<Rightarrow> (('k, 'v) sharded_expiring, 'v option) proc" where
  "se_async_cache_remove = se_cache_remove"

definition se_async_cache_remove_entry :: "('k \<Rightarrow> 'q) \<Rightarrow> 'k \<Rightarrow> (('k, 'v) sharded_expiring, ('k \<times> 'v) option) proc" where
  "se_async_cache_remove_entry = se_cache_remove_entry"

definition se_async_cache_clear :: "(('k, 'v) sharded_expiring, unit) proc" where
  "se_async_cache_clear = se_cache_clear"

definition se_async_cache_reset :: "(('k, 'v) sharded_expiring, unit) proc" where
  "se_async_cache_reset = se_cache_reset"

definition se_async_cache_reset_metrics :: "(('k, 'v) sharded_expiring, unit) proc" where
  "se_async_cache_reset_metrics = se_cache_reset_metrics"

definition se_async_cache_contains :: "('k \<Rightarrow> 'q) \<Rightarrow> 'v expires_at \<Rightarrow> 'k \<Rightarrow> (('k, 'v) sharded_expiring, bool) proc" where
  "se_async_cache_contains = se_cache_contains"

definition se_async_cache_peek :: "('k \<Rightarrow> 'q) \<Rightarrow> 'v expires_at \<Rightarrow> 'k \<Rightarrow> (('k, 'v) sharded_expiring, 'v option) proc" where
  "se_async_cache_peek = se_cache_peek"

definition se_async_cache_get_or_set_with :: "('k \<Rightarrow> 'q) \<Rightarrow> 'v expires_at \<Rightarrow> 'k \<Rightarrow> 'v outcome \<Rightarrow> (('k, 'v) sharded_expiring, 'v) proc" where
  "se_async_cache_get_or_set_with bk exp =
     cc_async_cache_get_or_set_with (se_async_cache_get bk exp) (se_async_cache_set bk exp)"

definition se_async_cache_try_get_or_set_with :: "('k \<Rightarrow> 'q) \<Rightarrow> 'v expires_at \<Rightarrow> 'k \<Rightarrow> ('e + 'v) outcome
    \<Rightarrow> (('k, 'v) sharded_expiring, 'e + 'v) proc" where
  "se_async_cache_try_get_or_set_with bk exp =
     cc_async_cache_try_get_or_set_with (se_async_cache_get bk exp) (se_async_cache_set bk exp)"

end
