(* ===== verification/Sharded_Expiring_Correct.thy ===== *)
theory Sharded_Expiring_Correct
  imports Sharded_Expiring Sharded_Calls
begin

text \<open>
  What a client of a \<open>ShardedExpiringCache\<close> can rely on while other threads use it and time passes: the
  result of a lookup is what the value under the key said of itself in one of the steps of the call,
  and neither a lookup nor a sweep takes out a value that does not report itself expired in that step.
\<close>

section \<open>Lookups\<close>

definition se_value :: "('k \<Rightarrow> 'q) \<Rightarrow> 'k \<Rightarrow> ('k, 'v) sharded_expiring \<Rightarrow> 'v option" where
  "se_value bk k c = hm_get bk (bk k) (sd_store k c)"

text \<open>The live value under \<open>k\<close> at the instant of \<open>c\<close>; \<open>None\<close> if asking the value panics.\<close>

definition se_judged :: "('k \<Rightarrow> 'q) \<Rightarrow> 'v expires_at \<Rightarrow> 'k \<Rightarrow> ('k, 'v) sharded_expiring \<Rightarrow> 'v option option" where
  "se_judged bk exp k c = (case se_value bk k c of
       None \<Rightarrow> Some None
     | Some v \<Rightarrow> map_option (\<lambda>expired. if expired then None else Some v) (exp (sd_clock c) v))"

definition se_saw :: "('k \<Rightarrow> 'q) \<Rightarrow> 'v expires_at \<Rightarrow> 'k \<Rightarrow> ('k, 'v) sharded_expiring steps \<Rightarrow> 'v option outcome \<Rightarrow> bool" where
  "se_saw bk exp k seen out \<longleftrightarrow> (\<forall>r. out = Returns r \<longrightarrow> list_ex (\<lambda>(s, _). se_judged bk exp k s = Some r) seen)"

lemma se_sawI: "(s, t) \<in> set seen \<Longrightarrow> (\<And>r. out = Returns r \<Longrightarrow> se_judged bk exp k s = Some r) \<Longrightarrow> se_saw bk exp k seen out"
  by (force simp: se_saw_def list_ex_iff)

lemma se_saw_panics [simp]: "se_saw bk exp k seen Panics"
  by (simp add: se_saw_def)

lemma se_get_reading_apply:
  "se_get_reading bk exp q now m = (case hm_get bk q m of
       None \<Rightarrow> Returns None
     | Some v \<Rightarrow> (case exp now v of None \<Rightarrow> Panics | Some e \<Rightarrow> Returns (Some (e, if e then None else Some v))), m)"
  by (simp add: se_get_reading_def split: option.split)

lemma a_wf_se_sections [keeps_rules]:
  "keeps (a_wf bk) (se_get_reading bk exp q now)" "keeps (a_wf bk) (se_get_rechecking bk exp q now)"
  "keeps (a_wf bk) (se_status bk exp q now)" "keeps (a_wf bk) (se_replace bk exp k v now)"
  "keeps (a_wf bk) (se_take bk q)" "keeps (a_wf bk) (se_take_doomed doomed now)"
  by (auto simp: keeps_def se_get_reading_def se_get_rechecking_def se_status_def se_replace_def se_take_def
      se_take_doomed_def hm_remove_entry_def Let_def split: option.splits prod.splits dest: a_wf_take_doomed)

lemma se_finish_safe:
  assumes "\<And>r. r = (case found of Inl v \<Rightarrow> Some v | Inr _ \<Rightarrow> None) \<Longrightarrow> Q (Returns r)" "Q Panics" "Q Diverges"
  shows "safe (sd_sound g ok) Q (se_finish k found)"
proof -
  have "safe (sd_sound g ok) Q (pbind (atomically p) (\<lambda>_. pret r))"
    if "p = sd_hit k \<or> p = sd_miss k" "r = (case found of Inl v \<Rightarrow> Some v | Inr _ \<Rightarrow> None)" for p r
    using that(1) sd_keeps(4,5)
    by (intro safe_pbind [OF safe_keeps] safe_pret) (auto intro: assms(1) assms(2,3) simp: that(2))
  note counted = this
  show ?thesis
  proof (cases found)
    case (Inl v)
    then show ?thesis using counted [of "sd_hit k" "Some v"] by (simp add: se_finish_def sd_count_hit_def)
  next
    case (Inr removed)
    then show ?thesis
      unfolding se_finish_def Inr sum.case sd_count_miss_def
      by (intro safe_pbind [where Q = "\<lambda>_. True"] safe_rules counted assms) (simp_all add: Inr)
  qed
qed

lemma se_rechecking_judged:
  assumes "se_get_rechecking bk exp (bk k) (sd_clock c) (sd_store k c) = (Returns found, m)"
  shows "se_judged bk exp k c = Some (case found of Inl v \<Rightarrow> Some v | Inr _ \<Rightarrow> None)"
proof (cases "hm_get bk (bk k) (sd_store k c)")
  case None
  then show ?thesis
    using assms by (auto simp: se_get_rechecking_def se_judged_def se_value_def case_prod_beta)
next
  case (Some v)
  then show ?thesis
    using assms by (cases "exp (sd_clock c) v") (auto simp: se_get_rechecking_def se_judged_def se_value_def case_prod_beta split: if_splits)
qed

lemma se_recheck_explained:
  fixes bk :: "'k \<Rightarrow> 'q" and g :: "('k, 'v) sharding"
  shows "explained (sd_sound g (a_wf bk)) (se_saw bk exp k) seen
    (pbind (atomically (sd_on_now k (se_get_rechecking bk exp (bk k)))) (se_finish k))"
proof (rule explained_pbind, rule conjI)
  fix c :: "('k, 'v) sharded_expiring" assume c: "sd_sound g (a_wf bk) c"
  let ?m = "se_get_rechecking bk exp (bk k)"
  show "sd_sound g (a_wf bk) (snd (sd_on_now k ?m c))"
    by (rule keepsD [OF sd_clock_keeps(1) c]) (rule a_wf_se_sections)
  obtain out m where m: "?m (sd_clock c) (sd_store k c) = (out, m)" by force
  show "explained (sd_sound g (a_wf bk)) (se_saw bk exp k) (seen @ [(c, snd (sd_on_now k ?m c))])
      (pbind (Done (fst (sd_on_now k ?m c))) (se_finish k))"
  proof (cases out)
    case (Returns found)
    let ?Q = "\<lambda>out. \<forall>r. out = Returns r \<longrightarrow> se_judged bk exp k c = Some r"
    have "safe (sd_sound g (a_wf bk)) ?Q (se_finish k found)"
      by (rule se_finish_safe) (use se_rechecking_judged m Returns in auto)
    then have "explained (sd_sound g (a_wf bk)) (se_saw bk exp k) (seen @ [(c, snd (sd_on_now k ?m c))]) (se_finish k found)"
      by (rule explained_rest) (rule se_sawI [of c], auto)
    then show ?thesis by (simp add: sd_on_now_def sd_on_apply [OF c] m Returns)
  qed (simp_all add: sd_on_now_def sd_on_apply [OF c] m se_saw_def)
qed

lemma se_cache_get_explained:
  fixes bk :: "'k \<Rightarrow> 'q" and g :: "('k, 'v) sharding"
  shows "explained (sd_sound g (a_wf bk)) (se_saw bk exp k) [] (se_cache_get bk exp k)"
  unfolding se_cache_get_def
proof (rule explained_pbind, rule conjI)
  fix c :: "('k, 'v) sharded_expiring" assume c: "sd_sound g (a_wf bk) c"
  let ?m = "se_get_reading bk exp (bk k)"
  show "sd_sound g (a_wf bk) (snd (sd_on_now k ?m c))"
    by (rule keepsD [OF sd_clock_keeps(1) c]) (rule a_wf_se_sections)
  have counted: "explained (sd_sound g (a_wf bk)) (se_saw bk exp k) [(c, c)] p"
    if "settled (sd_sound g (a_wf bk)) (sd_view (\<lambda>s. s)) (Returns r) p" "se_judged bk exp k c = Some r" for p r
    by (rule explained_settled [OF that(1)]) (rule se_sawI [of c c], simp_all add: that(2))
  show "explained (sd_sound g (a_wf bk)) (se_saw bk exp k) ([] @ [(c, snd (sd_on_now k ?m c))])
      (pbind (Done (fst (sd_on_now k ?m c))) (\<lambda>found. case found of
         None \<Rightarrow> sd_count_miss k None
       | Some (expired, val) \<Rightarrow>
           if expired then pbind (atomically (sd_on_now k (se_get_rechecking bk exp (bk k)))) (se_finish k)
           else sd_count_hit k val))"
    using counted [OF sd_counted_settled(2)] counted [OF sd_counted_settled(1)] se_recheck_explained
    by (auto simp: sd_on_now_def sd_on_apply [OF c] se_get_reading_apply se_judged_def se_saw_def
        simp flip: se_value_def split: option.split)
qed

section \<open>Nothing live is lost\<close>

definition se_loses_expired :: "('k \<Rightarrow> 'q) \<Rightarrow> 'v expires_at \<Rightarrow> instant \<Rightarrow> ('k, 'v) hash_map \<Rightarrow> ('k, 'v) hash_map \<Rightarrow> bool" where
  "se_loses_expired bk exp now m m' \<longleftrightarrow>
     (\<forall>q v. hm_get bk q m = Some v \<longrightarrow> hm_get bk q m' = Some v \<or> exp now v = Some True)"

definition se_spares :: "('k \<Rightarrow> 'q) \<Rightarrow> 'v expires_at \<Rightarrow> ('k, 'v) sharded_expiring steps \<Rightarrow> bool" where
  "se_spares bk exp seen \<longleftrightarrow> (\<forall>(s, t) \<in> set seen. \<forall>k v. se_value bk k s = Some v \<longrightarrow>
     se_value bk k t = Some v \<or> exp (sd_clock s) v = Some True)"

lemma se_loses_refl [simp]: "se_loses_expired bk exp now m m"
  by (simp add: se_loses_expired_def)

lemma se_sections_lose:
  "se_loses_expired bk exp now m (snd (se_get_reading bk exp q now m))"
  "se_loses_expired bk exp now m (snd (se_get_rechecking bk exp q now m))"
  "se_loses_expired bk exp now m (snd (se_status bk exp q now m))"
  by (auto simp: se_loses_expired_def se_get_reading_def se_get_rechecking_def se_status_def hm_remove_entry_def
      hm_get_without split: option.splits if_splits)

lemma se_evict_loses:
  assumes "a_wf bk m"
  shows "se_loses_expired bk exp now m (snd (se_take_doomed (\<lambda>now _ v. exp now v) now m))"
proof (cases "take_doomed (\<lambda>_ v. exp now v) m")
  case (Some r)
  have "exp now v = Some (exp now v = Some True)" if "(k, v) \<in> set m" for k v
    using take_doomed_panic [OF that, of "\<lambda>_ v. exp now v"] Some by (cases "exp now v") auto
  then have "take_doomed (\<lambda>_ v. exp now v) m =
      Some (filter (\<lambda>kv. exp now (snd kv) = Some True) m, filter (\<lambda>kv. exp now (snd kv) \<noteq> Some True) m)"
    by (rule take_doomed_total)
  then show ?thesis
    by (auto simp: se_take_doomed_def se_loses_expired_def hm_get_def a_find_filter [OF assms] split: option.splits)
qed (simp add: se_take_doomed_def)

section \<open>All calls\<close>

datatype se_own = SDeepClone

fun se_body :: "('k \<Rightarrow> 'q) \<Rightarrow> 'v expires_at \<Rightarrow> ('k, 'v, 'e, se_own) sh_call
    \<Rightarrow> (('k, 'v) sharded_expiring, ('k, 'v, 'e, ('k, 'v) sharded_expiring) sh_result) proc" where
  "se_body bk exp (CGet k) = presult (se_cache_get bk exp k) RLookup"
| "se_body bk exp (CSet k v) = presult (se_cache_set bk exp k v) RLookup"
| "se_body bk exp (CPeek k) = presult (se_peek bk exp k) RLookup"
| "se_body bk exp (CContains k) = presult (se_cache_contains bk exp k) RBool"
| "se_body bk exp (CGetStatus k) = presult (se_cache_get_with_expiry_status bk exp k) RStatus"
| "se_body bk exp (CPeekStatus k) = presult (se_cache_peek_with_expiry_status bk exp k) RStatus"
| "se_body bk exp (CRemove k) = presult (se_cache_remove bk exp k) RLookup"
| "se_body bk exp (CRemoveEntry k) = presult (se_cache_remove_entry bk k) REntry"
| "se_body bk exp (CDelete k) = presult (se_cache_delete bk k) RBool"
| "se_body bk exp (CGetOrSet k f) = presult (se_cache_get_or_set_with bk exp k f) RValue"
| "se_body bk exp (CTryGetOrSet k f) = presult (se_cache_try_get_or_set_with bk exp k f) RTry"
| "se_body bk exp (CRetain keep) = presult (se_retain exp keep) RCount"
| "se_body bk exp CEvict = presult (se_evict exp) RCount"
| "se_body bk exp CClear = presult se_clear (\<lambda>_. RUnit)"
| "se_body bk exp CClearWithOnEvict = presult se_cache_clear_with_on_evict (\<lambda>_. RUnit)"
| "se_body bk exp CReset = presult se_cache_reset (\<lambda>_. RUnit)"
| "se_body bk exp CResetMetrics = presult se_cache_reset_metrics (\<lambda>_. RUnit)"
| "se_body bk exp CLen = presult se_len RCount"
| "se_body bk exp CIsEmpty = presult se_is_empty RBool"
| "se_body bk exp CShardSizes = presult se_shard_sizes RCounts"
| "se_body bk exp CMetrics = presult se_metrics RMetrics"
| "se_body bk exp (CTick d) = presult (sd_tick d) (\<lambda>_. RUnit)"
| "se_body bk exp (COwn SDeepClone) = presult se_deep_clone ROwn"

lemma se_parts_safe [safe_rules]:
  "safe (sd_sound g (a_wf bk)) (\<lambda>_. True) (se_cache_get bk exp k)"
  "safe (sd_sound g (a_wf bk)) (\<lambda>_. True) (se_cache_set bk exp k v)"
  "safe (sd_sound g (a_wf bk)) (\<lambda>_. True) (se_sweep doomed)"
  "safe (sd_sound g (a_wf bk)) (\<lambda>_. True) se_clear"
  "safe (sd_sound g ok) (\<lambda>_. True) se_cache_reset_metrics"
  unfolding se_cache_get_def se_cache_set_def se_finish_def se_sweep_def se_clear_def se_cache_reset_metrics_def
  by (intro safe_rules keeps_rules keeps_counters; simp split: option.split bool.split; auto intro!: safe_rules)+

lemma se_safe: "safe (sd_sound g (a_wf bk)) (\<lambda>_. True) (se_body bk exp op)"
proof (cases op)
  case (COwn x)
  then show ?thesis by (cases x) (simp only: se_body.simps se_deep_clone_def, (intro safe_rules keeps_rules)+)
qed (simp_all only: se_body.simps se_peek_def se_cache_contains_def se_cache_get_with_expiry_status_def
    se_cache_peek_with_expiry_status_def se_cache_remove_def se_cache_remove_entry_def se_cache_delete_def
    se_cache_get_or_set_with_def se_cache_try_get_or_set_with_def se_retain_def se_evict_def
    se_cache_clear_with_on_evict_def se_cache_reset_def se_len_def se_is_empty_def se_shard_sizes_def se_metrics_def
    sd_sum_read_def sd_all_read_def sd_list_read_def,
    (intro safe_rules keeps_rules safe_get_or_set)+)

lemma se_finish_guards [guards_rules]: "guards (sd_sound g ok) (sd_guard (se_loses_expired bk exp)) (se_finish k found)"
  unfolding se_finish_def by (intro guards_rules se_loses_refl)

lemma se_guards: "sparing op \<Longrightarrow> guards (sd_sound g (a_wf bk)) (sd_guard (se_loses_expired bk exp)) (se_body bk exp op)"
  by (cases op; simp only: sparing.simps simp_thms; simp only: se_body.simps se_cache_get_def se_peek_def
    se_cache_contains_def se_cache_get_with_expiry_status_def se_cache_peek_with_expiry_status_def se_evict_def
    se_sweep_def se_cache_reset_metrics_def se_len_def se_is_empty_def se_shard_sizes_def se_metrics_def
    sd_sum_read_def sd_all_read_def sd_list_read_def;
    intro guards_rules keeps_rules se_loses_refl se_sections_lose se_evict_loses; simp)

definition se_contract :: "('k \<Rightarrow> 'q) \<Rightarrow> 'v expires_at \<Rightarrow> ('k, 'v, 'e, se_own) sh_call \<Rightarrow> ('k, 'v) sharded_expiring steps
    \<Rightarrow> ('k, 'v, 'e, ('k, 'v) sharded_expiring) sh_result outcome \<Rightarrow> bool" where
  "se_contract bk exp op seen out \<longleftrightarrow>
     (\<forall>k. op = CGet k \<longrightarrow> (\<exists>r. out = map_outcome RLookup r \<and> se_saw bk exp k seen r)) \<and>
     (sparing op \<longrightarrow> se_spares bk exp seen)"

lemma se_spares_explained:
  "explained (sd_sound g (a_wf bk)) (\<lambda>seen _. sparing op \<longrightarrow> se_spares bk exp seen) [] (se_body bk exp op)"
proof (cases "sparing op")
  case True
  let ?G = "\<lambda>s t. \<forall>k v. se_value bk k s = Some v \<longrightarrow> se_value bk k t = Some v \<or> exp (sd_clock s) v = Some True"
  have "guards (sd_sound g (a_wf bk)) ?G (se_body bk exp op)"
    by (rule guards_mono [OF se_guards [OF True]])
      (use sd_guard_store in \<open>force simp: se_value_def se_loses_expired_def\<close>)
  then show ?thesis by (rule explained_mono [OF guards_explained]) (simp_all add: se_spares_def)
qed (simp add: explained_any [OF se_safe])

interpretation se: explained_calls "se_body bk exp" "sd_sound g (a_wf bk)" "se_contract bk exp"
  for bk :: "'k \<Rightarrow> 'q" and exp :: "'v expires_at" and g :: "('k, 'v) sharding"
proof unfold_locales
  fix op :: "('k, 'v, 'e, se_own) sh_call"
  show "explained (sd_sound g (a_wf bk)) (se_contract bk exp op) [] (se_body bk exp op)"
    unfolding se_contract_def
  proof (rule explained_conj [OF _ se_spares_explained])
    show "explained (sd_sound g (a_wf bk))
        (\<lambda>seen out. \<forall>k. op = CGet k \<longrightarrow> (\<exists>r. out = map_outcome RLookup r \<and> se_saw bk exp k seen r)) [] (se_body bk exp op)"
    proof (cases "\<exists>k. op = CGet k")
      case True
      then obtain k where op: "op = CGet k" by blast
      show ?thesis unfolding op se_body.simps by (rule explained_presult [OF se_cache_get_explained]) auto
    qed (auto intro!: explained_any [OF se_safe])
  qed
qed

lemma se_build_sound:
  assumes "se_build parallelism now b = Inr c"
  shows "sd_sound (sd_sharding c) (a_wf bk) c"
proof -
  obtain n where "checked_shard_count parallelism (seb_shards b) = Inr n"
      "sd_shards c = map (\<lambda>_. shard_new []) [0..<n]" "sd_mask c = n - 1"
    using assms by (auto simp: se_build_def split: sum.splits)
  then show ?thesis
    using checked_shard_count_power by (auto simp: sd_sound_def sd_sharding_def shard_new_def a_wf_def)
qed

section \<open>A race\<close>

text \<open>
  One shard; a value is the instant from which on it says that it has expired. The first thread
  stores 10 under 1, lets twenty nanoseconds pass and looks 1 up: it sees the expired value under the
  read lock. Before it takes the write lock, the second thread stores 50.
\<close>

definition se_demo_exp :: "nat expires_at" where
  "se_demo_exp now v = Some (v \<le> now)"

definition se_demo_builder :: "(nat, nat) sharded_expiring_builder" where
  "se_demo_builder = se_builder_shards 1 (se_builder_default (\<lambda>k. 0))"

definition se_demo :: "(nat, nat) sharded_expiring" where
  "se_demo = (case se_build None 0 se_demo_builder of Inr c \<Rightarrow> c)"

definition se_demo_ops :: "(nat, nat, unit, se_own) sh_call list list" where
  "se_demo_ops = [[CSet 1 10, CTick 20, CGet 1, CEvict], [CSet 1 50]]"

definition se_demo_run :: "((nat, nat) sharded_expiring, (nat, nat, unit, se_own) sh_call, (nat, nat) sharded_expiring steps \<times>
    (nat, nat, unit, (nat, nat) sharded_expiring) sh_result outcome) thread list \<times> (nat, nat) sharded_expiring" where
  "se_demo_run = schedule (observed (se_body id se_demo_exp))
     [0, 0, 0, 0, 0, 0, 0, 0, 1, 1, 1, 1, 1, 0, 0, 0, 0, 0, 0, 0] (map fresh_thread se_demo_ops, se_demo)"

lemma se_demo_build: "se_build None 0 se_demo_builder = Inr se_demo"
proof -
  have "case se_build None 0 se_demo_builder of Inl _ \<Rightarrow> False | Inr _ \<Rightarrow> True" by code_simp
  then show ?thesis unfolding se_demo_def by (auto split: sum.splits)
qed

lemma se_demo_interleaving:
  "interleaving (observed (se_body id se_demo_exp)) (map fresh_thread se_demo_ops, se_demo) (fst se_demo_run, snd se_demo_run)"
  unfolding se_demo_run_def prod.collapse by (intro schedule_interleaving interleaving.start)

lemma se_demo_thread: "fst se_demo_run ! 0 \<in> set (fst se_demo_run)"
proof -
  have "length (fst se_demo_run) = 2" by (simp only: se_demo_run_def schedule_threads fst_conv length_map) (simp add: se_demo_ops_def)
  then show "fst se_demo_run ! 0 \<in> set (fst se_demo_run)" by simp
qed

lemma se_demo_lookup:
  obtains seen where "(CGet 1, Returns (seen, Returns (RLookup (Some 50)))) \<in> set (th_done (fst se_demo_run ! 0))"
proof -
  have "list_ex (\<lambda>(op, w). (case op of CGet k \<Rightarrow> k = 1 | _ \<Rightarrow> False) \<and> sh_looked_up (Some 50) w)
      (th_done (fst se_demo_run ! 0))" by code_simp
  moreover have "(case op of CGet k \<Rightarrow> k = 1 | _ \<Rightarrow> False) \<Longrightarrow> op = CGet 1" for op :: "(nat, nat, unit, se_own) sh_call"
    by (cases op) simp_all
  ultimately show ?thesis using that by (fastforce simp: list_ex_iff dest: sh_looked_upD)
qed

section \<open>Properties\<close>

text \<open>
  C33. A lookup in a \<open>ShardedExpiringCache\<close> tells the truth about a moment of the call: whatever the
  other threads do and however time passes, the result of a \<open>cache_get\<close> that returned is what the shard
  of the key held in the state of one of its steps, judged by what \<open>is_expired\<close> answered in that very
  step. On the path that upgrades from the read to the write lock the value is asked again.
\<close>

theorem se_lookup_truthful:
  assumes "se_build parallelism now b = Inr c"
    and "interleaving (observed (se_body bk exp)) (map fresh_thread opss, c) (ts, d)"
    and "t \<in> set ts" "(CGet k, Returns (seen, Returns (RLookup r))) \<in> set (th_done t)"
  shows "list_ex (\<lambda>(s, _). se_judged bk exp k s = Some r) seen"
  using se.outcome_explained [OF assms(2) se_build_sound [OF assms(1)] assms(3,4)]
  by (simp add: se_contract_def Returns_map_outcome se_saw_def)

theorem se_lookup_truthful_witness:
  "\<exists>seen. (CGet 1, Returns (seen, Returns (RLookup (Some 50)))) \<in> set (th_done (fst se_demo_run ! 0)) \<and>
     list_ex (\<lambda>(s, _). se_judged id se_demo_exp 1 s = Some (Some 50)) seen"
proof -
  obtain seen where seen: "(CGet 1, Returns (seen, Returns (RLookup (Some 50)))) \<in> set (th_done (fst se_demo_run ! 0))"
    by (rule se_demo_lookup)
  then have "list_ex (\<lambda>(s, _). se_judged id se_demo_exp 1 s = Some (Some 50)) seen"
    by (rule se_lookup_truthful [OF se_demo_build se_demo_interleaving se_demo_thread])
  then show ?thesis using seen by blast
qed

text \<open>
  C34. Only values that say they have expired are swept out of a \<open>ShardedExpiringCache\<close>: no step of a
  \<open>cache_get\<close>, of a peek or of an \<open>evict\<close> sweep over all shards, whether the call returned or user code
  panicked in it, takes a value out of the cache or replaces it, unless \<open>is_expired\<close> answers \<open>true\<close> for
  that value in that step.
\<close>

theorem se_sweeps_spare_live:
  assumes "se_build parallelism now b = Inr c"
    and "interleaving (observed (se_body bk exp)) (map fresh_thread opss, c) (ts, d)"
    and "t \<in> set ts" "(op, Returns (seen, out)) \<in> set (th_done t)" "sparing op"
  shows "se_spares bk exp seen"
  using se.outcome_explained [OF assms(2) se_build_sound [OF assms(1)] assms(3,4)] assms(5)
  by (simp add: se_contract_def)

theorem se_sweeps_spare_live_witness:
  "\<exists>seen. (CGet 1, Returns (seen, Returns (RLookup (Some 50)))) \<in> set (th_done (fst se_demo_run ! 0)) \<and>
     se_spares id se_demo_exp seen"
proof -
  obtain seen where seen: "(CGet 1, Returns (seen, Returns (RLookup (Some 50)))) \<in> set (th_done (fst se_demo_run ! 0))"
    by (rule se_demo_lookup)
  then have "se_spares id se_demo_exp seen"
    by (rule se_sweeps_spare_live [OF se_demo_build se_demo_interleaving se_demo_thread]) simp
  then show ?thesis using seen by blast
qed

end
