(* ===== verification/Sharded_Lru_Ttl.thy ===== *)
theory Sharded_Lru_Ttl
  imports Sharded_Lru Sharded_Clock
begin

text \<open>
  \<open>src/stores/sharded/lru_ttl.rs\<close>: \<open>ShardedLruTtlCache\<close>, one \<open>LruCache\<close> of entries with an expiry instant
  per shard, behind the shard's lock. The clock is read once per lookup, insertion or sweep, before the
  lock is taken. Evictions for capacity are counted by the inner cache, which runs the callback inside
  the critical section (trace \<open>lru_calls\<close> of the shard); all others are counted by the shard and
  reported after the lock is released (trace \<open>sd_calls\<close>). As for \<open>ShardedLruCache\<close>, \<open>random\<close> are the
  hash builders of the inner caches and \<open>table_alloc\<close>, \<open>list_alloc\<close> say whether memory can be had.
\<close>

record ('s, 'k, 'v) sharded_timed_sized = "('s, 'k, 'v) sharded_timed" +
  sdt_total_capacity :: usize

type_synonym ('k, 'v, 'q, 't) sharded_lru_ttl =
  "(('k, 'v timed_entry, 'q, 't) lru_cache, 'k, 'v) sharded_timed_sized"

section \<open>Building\<close>

record ('k, 'v) sharded_lru_ttl_builder =
  sltb_shards :: "usize option"
  sltb_max_size :: "usize option"
  sltb_per_shard_max_size :: "usize option"
  sltb_ttl :: "duration option"
  sltb_refresh :: bool
  sltb_hasher :: "'k \<Rightarrow> u64"
  sltb_on_evict :: "('k, 'v) callback option"

definition slt_builder_default :: "('k \<Rightarrow> u64) \<Rightarrow> ('k, 'v) sharded_lru_ttl_builder" where
  "slt_builder_default random = \<lparr>sltb_shards = None, sltb_max_size = None, sltb_per_shard_max_size = None,
     sltb_ttl = None, sltb_refresh = False, sltb_hasher = random, sltb_on_evict = None\<rparr>"

definition slt_builder_max_size :: "usize \<Rightarrow> ('k, 'v) sharded_lru_ttl_builder \<Rightarrow> ('k, 'v) sharded_lru_ttl_builder" where
  "slt_builder_max_size n b = b\<lparr>sltb_max_size := Some n\<rparr>"

definition slt_builder_per_shard_max_size :: "usize \<Rightarrow> ('k, 'v) sharded_lru_ttl_builder \<Rightarrow> ('k, 'v) sharded_lru_ttl_builder" where
  "slt_builder_per_shard_max_size n b = b\<lparr>sltb_per_shard_max_size := Some n\<rparr>"

definition slt_builder_ttl :: "duration \<Rightarrow> ('k, 'v) sharded_lru_ttl_builder \<Rightarrow> ('k, 'v) sharded_lru_ttl_builder" where
  "slt_builder_ttl ttl b = b\<lparr>sltb_ttl := Some ttl\<rparr>"

definition slt_builder_ttl_secs :: "nat \<Rightarrow> ('k, 'v) sharded_lru_ttl_builder \<Rightarrow> ('k, 'v) sharded_lru_ttl_builder" where
  "slt_builder_ttl_secs secs b = slt_builder_ttl (secs * 1000000000) b"

definition slt_builder_ttl_millis :: "nat \<Rightarrow> ('k, 'v) sharded_lru_ttl_builder \<Rightarrow> ('k, 'v) sharded_lru_ttl_builder" where
  "slt_builder_ttl_millis millis b = slt_builder_ttl (millis * 1000000) b"

definition slt_builder_shards :: "usize \<Rightarrow> ('k, 'v) sharded_lru_ttl_builder \<Rightarrow> ('k, 'v) sharded_lru_ttl_builder" where
  "slt_builder_shards n b = b\<lparr>sltb_shards := Some n\<rparr>"

definition slt_builder_refresh_on_hit :: "bool \<Rightarrow> ('k, 'v) sharded_lru_ttl_builder \<Rightarrow> ('k, 'v) sharded_lru_ttl_builder" where
  "slt_builder_refresh_on_hit refresh b = b\<lparr>sltb_refresh := refresh\<rparr>"

definition slt_builder_hasher :: "('k \<Rightarrow> u64) \<Rightarrow> ('k, 'v) sharded_lru_ttl_builder \<Rightarrow> ('k, 'v) sharded_lru_ttl_builder" where
  "slt_builder_hasher h b = b\<lparr>sltb_hasher := h\<rparr>"

definition slt_builder_on_evict :: "('k, 'v) callback \<Rightarrow> ('k, 'v) sharded_lru_ttl_builder \<Rightarrow> ('k, 'v) sharded_lru_ttl_builder" where
  "slt_builder_on_evict f b = b\<lparr>sltb_on_evict := Some f\<rparr>"

definition slt_resolve_per_shard_cap :: "('k, 'v) sharded_lru_ttl_builder \<Rightarrow> usize \<Rightarrow> build_error + usize" where
  "slt_resolve_per_shard_cap b n_shards = (case (sltb_max_size b, sltb_per_shard_max_size b) of
       (Some _, Some _) \<Rightarrow> Inl (InvalidValue ''max_size / per_shard_max_size''
         ''`max_size` and `per_shard_max_size` are mutually exclusive'')
     | (None, None) \<Rightarrow> Inl (MissingRequired ''max_size'')
     | (Some tot, None) \<Rightarrow>
         if tot = 0 then Inl (InvalidValue ''max_size'' ''must be greater than zero'')
         else (let cap = usize_div_ceil tot n_shards in
           Inr (if n_shards > 1 then max cap 16 else cap))
     | (None, Some per) \<Rightarrow>
         if per = 0 then Inl (InvalidValue ''per_shard_max_size'' ''must be greater than zero'')
         else Inr per)"

definition slt_total_capacity :: "('k, 'v) sharded_lru_ttl_builder \<Rightarrow> usize \<Rightarrow> usize \<Rightarrow> build_error + usize" where
  "slt_total_capacity b n_shards per_shard_cap =
     (let field = (if sltb_per_shard_max_size b \<noteq> None then ''per_shard_max_size'' else ''max_size'')
      in (case usize_checked_mul n_shards per_shard_cap of
            None \<Rightarrow> Inl (InvalidValue field ''effective sharded capacity overflows usize'')
          | Some tot \<Rightarrow> Inr tot))"

definition slt_resolve_shard_count :: "usize option \<Rightarrow> ('k, 'v) sharded_lru_ttl_builder \<Rightarrow> build_error + usize" where
  "slt_resolve_shard_count parallelism b = (case sltb_shards b of
       Some _ \<Rightarrow> checked_shard_count parallelism (sltb_shards b)
     | None \<Rightarrow> Inr (default_shard_count_for_capacity parallelism (sltb_max_size b)))"

definition slt_validated_parts :: "usize option \<Rightarrow> ('k, 'v) sharded_lru_ttl_builder
    \<Rightarrow> build_error + duration \<times> usize \<times> usize \<times> usize" where
  "slt_validated_parts parallelism b = (case sltb_ttl b of
       None \<Rightarrow> Inl (MissingRequired ''ttl'')
     | Some ttl \<Rightarrow> (case validate_ttl ttl of
         Inl e \<Rightarrow> Inl e
       | Inr _ \<Rightarrow> (case slt_resolve_shard_count parallelism b of
           Inl e \<Rightarrow> Inl e
         | Inr n \<Rightarrow> (case slt_resolve_per_shard_cap b n of
             Inl e \<Rightarrow> Inl e
           | Inr per_shard_cap \<Rightarrow> (case slt_total_capacity b n per_shard_cap of
               Inl e \<Rightarrow> Inl e
             | Inr total_cap \<Rightarrow> Inr (ttl, n - 1, per_shard_cap, total_cap))))))"

text \<open>
  The two \<open>build\<close> methods differ in the callback only: the inner caches get one that passes the value
  of the entry on, if there is one. The inner caches do not count hits and misses.
\<close>

definition slt_lru_on_evict :: "('k, 'v) callback option \<Rightarrow> ('k, 'v timed_entry) callback option" where
  "slt_lru_on_evict on_evict = map_option (\<lambda>cb k entry. cb k (te_value entry)) on_evict"

definition slt_build :: "usize option \<Rightarrow> 't table_ops \<Rightarrow> (usize \<Rightarrow> usize \<Rightarrow> bool) \<Rightarrow> (usize \<Rightarrow> usize \<Rightarrow> bool)
    \<Rightarrow> (usize \<Rightarrow> 'q \<Rightarrow> u64) \<Rightarrow> instant \<Rightarrow> ('k, 'v) sharded_lru_ttl_builder
    \<Rightarrow> build_error + ('k, 'v, 'q, 't) sharded_lru_ttl" where
  "slt_build parallelism T table_alloc list_alloc random now b =
     (case slt_validated_parts parallelism b of
        Inl e \<Rightarrow> Inl e
      | Inr (ttl, msk, per_shard_cap, total_cap) \<Rightarrow>
          (case collect_results (\<lambda>i. sl_build_shard T (table_alloc i) (list_alloc i) (random i) per_shard_cap
              (slt_lru_on_evict (sltb_on_evict b))) [0..<msk + 1] of
             Inl e \<Rightarrow> Inl e
           | Inr shards \<Rightarrow> Inr \<lparr>sd_shards = shards, sd_mask = msk, sd_hasher = sltb_hasher b,
               sd_on_evict = sltb_on_evict b, sd_calls = [], sd_clock = now, sd_ttl_nanos = encode_ttl ttl,
               sd_refresh = sltb_refresh b, sdt_total_capacity = total_cap\<rparr>))"

definition slt_new :: "usize option \<Rightarrow> 't table_ops \<Rightarrow> (usize \<Rightarrow> usize \<Rightarrow> bool) \<Rightarrow> (usize \<Rightarrow> usize \<Rightarrow> bool)
    \<Rightarrow> (usize \<Rightarrow> 'q \<Rightarrow> u64) \<Rightarrow> ('k \<Rightarrow> u64) \<Rightarrow> instant \<Rightarrow> usize \<Rightarrow> duration
    \<Rightarrow> ('k, 'v, 'q, 't) sharded_lru_ttl option" where
  "slt_new parallelism T table_alloc list_alloc random shard_random now max_size ttl =
     (case slt_build parallelism T table_alloc list_alloc random now
         (slt_builder_ttl ttl (slt_builder_max_size max_size (slt_builder_default shard_random))) of
        Inl _ \<Rightarrow> None | Inr c \<Rightarrow> Some c)"

section \<open>Lookups\<close>

definition slt_refreshed :: "u64 \<Rightarrow> instant \<Rightarrow> 'v timed_entry \<Rightarrow> 'v timed_entry" where
  "slt_refreshed nanos now e = e\<lparr>te_expires_at :=
     (case nanos_expires_at nanos now of Some t \<Rightarrow> Some t | None \<Rightarrow> te_expires_at e)\<rparr>"

text \<open>A live entry is promoted, and refreshed if asked; otherwise the inner cache stays as it is.\<close>

definition slt_get_live :: "'t table_ops \<Rightarrow> ('k \<Rightarrow> 'q) \<Rightarrow> bool \<Rightarrow> u64 \<Rightarrow> instant \<Rightarrow> 'q
    \<Rightarrow> (('k, 'v timed_entry, 'q, 't) lru_cache, 'v option) comp" where
  "slt_get_live T bk refresh nanos now q =
     andthen (if refresh
       then lru_get_mut_if T bk q (\<lambda>e. \<not> expired_at e now) (slt_refreshed nanos now)
       else lru_get_if T bk q (\<lambda>e. \<not> expired_at e now)) (\<lambda>e.
     ret (map_option te_value e))"

text \<open>The critical section of a lookup: the live value (\<open>Inl\<close>), or the expired entry taken out (\<open>Inr\<close>).\<close>

definition slt_get_section :: "'t table_ops \<Rightarrow> ('k \<Rightarrow> 'q) \<Rightarrow> bool \<Rightarrow> u64 \<Rightarrow> instant \<Rightarrow> 'q
    \<Rightarrow> (('k, 'v timed_entry, 'q, 't) lru_cache, 'v + ('k \<times> 'v timed_entry) option) comp" where
  "slt_get_section T bk refresh nanos now q =
     andthen (slt_get_live T bk refresh nanos now q) (\<lambda>val. case val of
       Some v \<Rightarrow> ret (Inl v)
     | None \<Rightarrow> andthen (lru_pop_raw T bk q) (\<lambda>removed. ret (Inr removed)))"

definition slt_finish :: "'k \<Rightarrow> 'v + ('k \<times> 'v timed_entry) option \<Rightarrow> (('k, 'v, 'q, 't) sharded_lru_ttl, 'v option) proc" where
  "slt_finish k found = (case found of
       Inl v \<Rightarrow> sd_count_hit k (Some v)
     | Inr removed \<Rightarrow> pbind (case removed of
           Some (stored_k, entry) \<Rightarrow> sd_evicted k stored_k (te_value entry)
         | None \<Rightarrow> pret ()) (\<lambda>_. sd_count_miss k None))"

definition slt_cache_get :: "'t table_ops \<Rightarrow> ('k \<Rightarrow> 'q) \<Rightarrow> 'k \<Rightarrow> (('k, 'v, 'q, 't) sharded_lru_ttl, 'v option) proc" where
  "slt_cache_get T bk k =
     pbind (atomically (\<lambda>c. (Returns (sd_refresh c), c))) (\<lambda>refresh.
     pbind (atomically sd_now) (\<lambda>now.
     pbind (atomically (\<lambda>c. sd_on k (slt_get_section T bk refresh (sd_ttl_nanos c) now (bk k)) c)) (slt_finish k)))"

text \<open>The entry under a key and whether it has expired, read under the read lock.\<close>

definition slt_status :: "'t table_ops \<Rightarrow> ('k \<Rightarrow> 'q) \<Rightarrow> 'q \<Rightarrow> instant
    \<Rightarrow> (('k, 'v timed_entry, 'q, 't) lru_cache, ('v \<times> bool) option) comp" where
  "slt_status T bk q now = andthen (lru_cache_peek T bk q) (\<lambda>e.
     ret (map_option (\<lambda>e. (te_value e, expired_at e now)) e))"

definition slt_peek :: "'t table_ops \<Rightarrow> ('k \<Rightarrow> 'q) \<Rightarrow> 'k \<Rightarrow> (('k, 'v, 'q, 't) sharded_lru_ttl, 'v option) proc" where
  "slt_peek T bk k = pbind (atomically (sd_on_now k (slt_status T bk (bk k)))) (\<lambda>found.
     pret (case found of Some (v, False) \<Rightarrow> Some v | _ \<Rightarrow> None))"

definition slt_cache_peek :: "'t table_ops \<Rightarrow> ('k \<Rightarrow> 'q) \<Rightarrow> 'k \<Rightarrow> (('k, 'v, 'q, 't) sharded_lru_ttl, 'v option) proc" where
  "slt_cache_peek T bk k = slt_peek T bk k"

definition slt_cache_contains :: "'t table_ops \<Rightarrow> ('k \<Rightarrow> 'q) \<Rightarrow> 'k \<Rightarrow> (('k, 'v, 'q, 't) sharded_lru_ttl, bool) proc" where
  "slt_cache_contains T bk k = pbind (atomically (sd_on_now k (slt_status T bk (bk k)))) (\<lambda>found.
     pret (case found of Some (_, expired) \<Rightarrow> \<not> expired | None \<Rightarrow> False))"

definition slt_status_section :: "'t table_ops \<Rightarrow> ('k \<Rightarrow> 'q) \<Rightarrow> bool \<Rightarrow> u64 \<Rightarrow> instant \<Rightarrow> 'q
    \<Rightarrow> (('k, 'v timed_entry, 'q, 't) lru_cache, 'v + 'v option) comp" where
  "slt_status_section T bk refresh nanos now q =
     andthen (slt_get_live T bk refresh nanos now q) (\<lambda>live. case live of
       Some v \<Rightarrow> ret (Inl v)
     | None \<Rightarrow> andthen (lru_cache_peek T bk q) (\<lambda>stale. ret (Inr (map_option te_value stale))))"

definition slt_cache_get_with_expiry_status :: "'t table_ops \<Rightarrow> ('k \<Rightarrow> 'q) \<Rightarrow> 'k
    \<Rightarrow> (('k, 'v, 'q, 't) sharded_lru_ttl, 'v option \<times> bool) proc" where
  "slt_cache_get_with_expiry_status T bk k =
     pbind (atomically (\<lambda>c. (Returns (sd_refresh c), c))) (\<lambda>refresh.
     pbind (atomically sd_now) (\<lambda>now.
     pbind (atomically (\<lambda>c. sd_on k (slt_status_section T bk refresh (sd_ttl_nanos c) now (bk k)) c)) (\<lambda>found. case found of
       Inl v \<Rightarrow> sd_count_hit k (Some v, False)
     | Inr stale \<Rightarrow> sd_count_miss k (case stale of Some v \<Rightarrow> (Some v, True) | None \<Rightarrow> (None, False)))))"

definition slt_cache_peek_with_expiry_status :: "'t table_ops \<Rightarrow> ('k \<Rightarrow> 'q) \<Rightarrow> 'k
    \<Rightarrow> (('k, 'v, 'q, 't) sharded_lru_ttl, 'v option \<times> bool) proc" where
  "slt_cache_peek_with_expiry_status T bk k =
     pbind (atomically (sd_on_now k (slt_status T bk (bk k)))) (\<lambda>found.
     pret (case found of None \<Rightarrow> (None, False) | Some (v, expired) \<Rightarrow> (Some v, expired)))"

section \<open>Updates\<close>

text \<open>
  The displaced entry, and whether it had expired at the instant that stamps the new one; the stored
  key is handed out only if there is a callback to report it to.
\<close>

definition slt_set_section :: "'t table_ops \<Rightarrow> ('k \<Rightarrow> 'q) \<Rightarrow> bool \<Rightarrow> 'k \<Rightarrow> 'v timed_entry \<Rightarrow> instant
    \<Rightarrow> (('k, 'v timed_entry, 'q, 't) lru_cache, ('k option \<times> 'v timed_entry \<times> bool) option) comp" where
  "slt_set_section T bk has_callback k new_entry now =
     (if has_callback
      then andthen (lru_cache_set_returning_entry T bk k new_entry) (\<lambda>old.
        ret (map_option (\<lambda>(ok, e). (Some ok, e, expired_at e now)) old))
      else andthen (lru_cache_set T bk k new_entry) (\<lambda>old.
        ret (map_option (\<lambda>e. (None, e, expired_at e now)) old)))"

definition slt_displaced :: "'k \<Rightarrow> ('k option \<times> 'v timed_entry \<times> bool) option
    \<Rightarrow> (('k, 'v, 'q, 't) sharded_lru_ttl, 'v option) proc" where
  "slt_displaced k old = (case old of
       Some (key, entry, True) \<Rightarrow>
         pbind (atomically (\<lambda>c. sd_count_at (sd_index k c) 1 c)) (\<lambda>_.
         pbind (case key of Some key \<Rightarrow> atomically (sd_notify key (te_value entry)) | None \<Rightarrow> pret ()) (\<lambda>_.
         pret None))
     | Some (_, entry, False) \<Rightarrow> pret (Some (te_value entry))
     | None \<Rightarrow> pret None)"

definition slt_cache_set :: "'t table_ops \<Rightarrow> ('k \<Rightarrow> 'q) \<Rightarrow> 'k \<Rightarrow> 'v
    \<Rightarrow> (('k, 'v, 'q, 't) sharded_lru_ttl, 'v option) proc" where
  "slt_cache_set T bk k v =
     pbind (atomically sd_now) (\<lambda>now.
     pbind (atomically (\<lambda>c. (Returns (nanos_expires_at (sd_ttl_nanos c) now), c))) (\<lambda>expires_at.
     pbind (atomically (\<lambda>c. sd_on k (slt_set_section T bk (sd_on_evict c \<noteq> None) k
       \<lparr>te_expires_at = expires_at, te_value = v\<rparr> now) c)) (slt_displaced k)))"

definition slt_cache_remove :: "'t table_ops \<Rightarrow> ('k \<Rightarrow> 'q) \<Rightarrow> 'k
    \<Rightarrow> (('k, 'v, 'q, 't) sharded_lru_ttl, 'v option) proc" where
  "slt_cache_remove T bk k =
     pbind (atomically (sd_on k (lru_pop_raw T bk (bk k)))) (\<lambda>removed. case removed of
       Some (key, entry) \<Rightarrow>
         pbind (sd_evicted k key (te_value entry)) (\<lambda>_.
         case te_expires_at entry of
           None \<Rightarrow> pret (Some (te_value entry))
         | Some t \<Rightarrow> pbind (atomically sd_now) (\<lambda>now.
             pret (if now \<ge> t then None else Some (te_value entry))))
     | None \<Rightarrow> pret None)"

definition slt_cache_remove_entry :: "'t table_ops \<Rightarrow> ('k \<Rightarrow> 'q) \<Rightarrow> 'k
    \<Rightarrow> (('k, 'v, 'q, 't) sharded_lru_ttl, ('k \<times> 'v) option) proc" where
  "slt_cache_remove_entry T bk k =
     pbind (atomically (sd_on k (lru_pop_raw T bk (bk k)))) (\<lambda>removed. case removed of
       Some (stored_k, entry) \<Rightarrow>
         pbind (sd_evicted k stored_k (te_value entry)) (\<lambda>_. pret (Some (stored_k, te_value entry)))
     | None \<Rightarrow> pret None)"

definition slt_cache_delete :: "'t table_ops \<Rightarrow> ('k \<Rightarrow> 'q) \<Rightarrow> 'k \<Rightarrow> (('k, 'v, 'q, 't) sharded_lru_ttl, bool) proc" where
  "slt_cache_delete T bk k = cc_cache_delete (slt_cache_remove_entry T bk k)"

definition slt_cache_get_or_set_with :: "'t table_ops \<Rightarrow> ('k \<Rightarrow> 'q) \<Rightarrow> 'k \<Rightarrow> 'v outcome
    \<Rightarrow> (('k, 'v, 'q, 't) sharded_lru_ttl, 'v) proc" where
  "slt_cache_get_or_set_with T bk = cc_cache_get_or_set_with (slt_cache_get T bk) (slt_cache_set T bk)"

definition slt_cache_try_get_or_set_with :: "'t table_ops \<Rightarrow> ('k \<Rightarrow> 'q) \<Rightarrow> 'k \<Rightarrow> ('e + 'v) outcome
    \<Rightarrow> (('k, 'v, 'q, 't) sharded_lru_ttl, 'e + 'v) proc" where
  "slt_cache_try_get_or_set_with T bk = cc_cache_try_get_or_set_with (slt_cache_get T bk) (slt_cache_set T bk)"

section \<open>Calls on the whole cache\<close>

definition slt_clear :: "'t table_ops \<Rightarrow> (('k, 'v, 'q, 't) sharded_lru_ttl, unit) proc" where
  "slt_clear T = sd_each (\<lambda>i. atomically (sd_locked i (lru_cache_clear T)))"

definition slt_cache_clear :: "'t table_ops \<Rightarrow> (('k, 'v, 'q, 't) sharded_lru_ttl, unit) proc" where
  "slt_cache_clear T = slt_clear T"

definition slt_values :: "('k \<times> 'v timed_entry) list \<Rightarrow> ('k \<times> 'v) list" where
  "slt_values removed = map (apsnd te_value) removed"

definition slt_cache_clear_with_on_evict :: "'t table_ops \<Rightarrow> (('k, 'v, 'q, 't) sharded_lru_ttl, unit) proc" where
  "slt_cache_clear_with_on_evict T = sd_each (\<lambda>i.
     pbind (atomically (sd_locked i (lru_drain_all T))) (\<lambda>removed. sd_evicted_all i (slt_values removed)))"

definition slt_sweep :: "'t table_ops \<Rightarrow> ('k \<Rightarrow> 'q) \<Rightarrow> (instant \<Rightarrow> ('k, 'v timed_entry) predicate)
    \<Rightarrow> (('k, 'v, 'q, 't) sharded_lru_ttl, usize) proc" where
  "slt_sweep T bk doomed =
     pbind (atomically sd_now) (\<lambda>now.
     sd_fold (\<lambda>i n. pbind (atomically (sd_locked i (sl_sweep_section T bk (doomed now)))) (\<lambda>removed.
       pbind (sd_evicted_all i (slt_values removed)) (\<lambda>_. pret (n + length removed)))) 0)"

definition slt_retain :: "'t table_ops \<Rightarrow> ('k \<Rightarrow> 'q) \<Rightarrow> ('k, 'v) predicate
    \<Rightarrow> (('k, 'v, 'q, 't) sharded_lru_ttl, usize) proc" where
  "slt_retain T bk keep = slt_sweep T bk (\<lambda>now k e.
     if expired_at e now then Some True else map_option Not (keep k (te_value e)))"

definition slt_evict :: "'t table_ops \<Rightarrow> ('k \<Rightarrow> 'q) \<Rightarrow> (('k, 'v, 'q, 't) sharded_lru_ttl, usize) proc" where
  "slt_evict T bk = slt_sweep T bk (\<lambda>now k e. Some (expired_at e now))"

definition slt_capacity :: "(('k, 'v, 'q, 't) sharded_lru_ttl, usize) proc" where
  "slt_capacity = atomically (\<lambda>c. (Returns (sdt_total_capacity c), c))"

text \<open>
  The new capacity is published only after every shard has adopted its share. \<open>Done Panics\<close> is the
  \<open>assert!\<close> on zero and the \<open>expect\<close> on a capacity that overflows.
\<close>

definition slt_set_max_size :: "'t table_ops \<Rightarrow> ('k \<Rightarrow> 'q) \<Rightarrow> usize
    \<Rightarrow> (('k, 'v, 'q, 't) sharded_lru_ttl, usize option) proc" where
  "slt_set_max_size T bk max_size =
     (if max_size = 0 then Done Panics
      else pbind (atomically get_state) (\<lambda>c.
        case per_shard_cap_from_total max_size (length (sd_shards c)) of
          None \<Rightarrow> Done Panics
        | Some (per_shard_cap, total_cap) \<Rightarrow>
            pbind (sd_each (\<lambda>i. pbind (atomically (sd_locked i (lru_set_max_size T bk per_shard_cap)))
              (\<lambda>_. pret ()))) (\<lambda>_.
            pbind (atomically (\<lambda>c. (Returns (sdt_total_capacity c), c\<lparr>sdt_total_capacity := total_cap\<rparr>))) (\<lambda>prev.
            pret (Some prev)))))"

definition slt_try_set_max_size :: "'t table_ops \<Rightarrow> ('k \<Rightarrow> 'q) \<Rightarrow> usize
    \<Rightarrow> (('k, 'v, 'q, 't) sharded_lru_ttl, set_max_size_error + usize option) proc" where
  "slt_try_set_max_size T bk max_size =
     (if max_size = 0 then pret (Inl ZeroMaxSize)
      else pbind (atomically get_state) (\<lambda>c.
        case checked_per_shard_cap_from_total max_size (length (sd_shards c)) of
          Inl e \<Rightarrow> pret (Inl e)
        | Inr _ \<Rightarrow> pbind (slt_set_max_size T bk max_size) (\<lambda>p. pret (Inr p))))"

definition slt_len :: "'t table_ops \<Rightarrow> (('k, 'v, 'q, 't) sharded_lru_ttl, usize) proc" where
  "slt_len T = sd_sum_read (lru_cache_size T)"

definition slt_cache_size :: "'t table_ops \<Rightarrow> (('k, 'v, 'q, 't) sharded_lru_ttl, usize option) proc" where
  "slt_cache_size T = pbind (slt_len T) (\<lambda>n. pret (Some n))"

definition slt_is_empty :: "'t table_ops \<Rightarrow> (('k, 'v, 'q, 't) sharded_lru_ttl, bool) proc" where
  "slt_is_empty T = sd_all_read (\<lambda>s. lru_cache_size T s = 0)"

definition slt_shards :: "('k, 'v, 'q, 't) sharded_lru_ttl \<Rightarrow> usize" where
  "slt_shards c = length (sd_shards c)"

definition slt_shard_sizes :: "'t table_ops \<Rightarrow> (('k, 'v, 'q, 't) sharded_lru_ttl, usize list) proc" where
  "slt_shard_sizes T = sd_list_read (lru_cache_size T)"

definition slt_cache_hits :: "(('k, 'v, 'q, 't) sharded_lru_ttl, u64 option) proc" where
  "slt_cache_hits = pbind (sd_sum_load sh_hits) (\<lambda>n. pret (Some n))"

definition slt_cache_misses :: "(('k, 'v, 'q, 't) sharded_lru_ttl, u64 option) proc" where
  "slt_cache_misses = pbind (sd_sum_load sh_misses) (\<lambda>n. pret (Some n))"

definition slt_cache_capacity :: "(('k, 'v, 'q, 't) sharded_lru_ttl, usize option) proc" where
  "slt_cache_capacity = pbind slt_capacity (\<lambda>n. pret (Some n))"

definition slt_non_capacity_evictions :: "(('k, 'v, 'q, 't) sharded_lru_ttl, u64) proc" where
  "slt_non_capacity_evictions = sd_sum_load sh_evictions"

definition slt_cache_evictions :: "(('k, 'v, 'q, 't) sharded_lru_ttl, u64 option) proc" where
  "slt_cache_evictions = pbind (sd_fold (\<lambda>i n.
       pbind (sd_read i lru_cache_evictions) (\<lambda>e. pret (case e of Some m \<Rightarrow> n + m | None \<Rightarrow> n))) 0) (\<lambda>n.
     pbind slt_non_capacity_evictions (\<lambda>m.
     pret (Some (n + m))))"

definition slt_metrics :: "'t table_ops \<Rightarrow> (('k, 'v, 'q, 't) sharded_lru_ttl, cache_metrics) proc" where
  "slt_metrics T = pbind (sd_fold (\<lambda>i (hits, misses, lru_evictions, evictions, n).
       pbind (atomically (sd_load i sh_hits)) (\<lambda>h.
       pbind (atomically (sd_load i sh_misses)) (\<lambda>m.
       pbind (atomically (sd_load i sh_evictions)) (\<lambda>x.
       pbind (sd_read i (\<lambda>s. (lru_cache_evictions s, lru_cache_size T s))) (\<lambda>(e, l).
       pret (hits + h, misses + m, (case e of Some y \<Rightarrow> lru_evictions + y | None \<Rightarrow> lru_evictions), evictions + x, n + l))))))
       (0, 0, 0, 0, 0)) (\<lambda>(hits, misses, lru_evictions, evictions, n).
     pbind slt_capacity (\<lambda>cap.
     pret \<lparr>cm_hits = Some hits, cm_misses = Some misses, cm_evictions = Some (lru_evictions + evictions),
       cm_entry_count = Some n, cm_capacity = Some cap\<rparr>))"

definition slt_cache_reset_metrics :: "(('k, 'v, 'q, 't) sharded_lru_ttl, unit) proc" where
  "slt_cache_reset_metrics = sd_each (\<lambda>i.
     pbind (atomically (sd_counters i (\<lambda>sh. sh\<lparr>sh_hits := 0\<rparr>))) (\<lambda>_.
     pbind (atomically (sd_counters i (\<lambda>sh. sh\<lparr>sh_misses := 0\<rparr>))) (\<lambda>_.
     pbind (atomically (sd_counters i (\<lambda>sh. sh\<lparr>sh_evictions := 0\<rparr>))) (\<lambda>_.
     atomically (sd_locked i lru_cache_reset_metrics)))))"

definition slt_cache_reset :: "'t table_ops \<Rightarrow> (('k, 'v, 'q, 't) sharded_lru_ttl, unit) proc" where
  "slt_cache_reset T = pbind (slt_clear T) (\<lambda>_. slt_cache_reset_metrics)"

text \<open>The counters of a shard are loaded while its read lock is held: one step with the copy.\<close>

definition slt_deep_clone :: "(('k, 'v, 'q, 't) sharded_lru_ttl, ('k, 'v, 'q, 't) sharded_lru_ttl) proc" where
  "slt_deep_clone =
     pbind (sd_fold (\<lambda>i shards. pbind (atomically (sd_load i (\<lambda>sh. sh\<lparr>sh_store := lru_clone (sh_store sh)\<rparr>)))
       (\<lambda>sh. pret (shards @ [sh]))) []) (\<lambda>shards.
     pbind (atomically (\<lambda>c. (Returns (sd_ttl_nanos c), c))) (\<lambda>nanos.
     pbind (atomically (\<lambda>c. (Returns (sd_refresh c), c))) (\<lambda>refresh.
     pbind (atomically (\<lambda>c. (Returns (sdt_total_capacity c), c))) (\<lambda>cap.
     pbind (atomically get_state) (\<lambda>c.
     pret \<lparr>sd_shards = shards, sd_mask = sd_mask c, sd_hasher = sd_hasher c, sd_on_evict = sd_on_evict c,
       sd_calls = [], sd_clock = sd_clock c, sd_ttl_nanos = nanos, sd_refresh = refresh,
       sdt_total_capacity = cap\<rparr>)))))"

text \<open>
  \<open>copy_from\<close>: the entries of each shard, least recently used first, are inserted with their expiry
  into the inner caches of the new cache, which no other thread can see yet; entries that had expired
  when the copying began are skipped.
\<close>

definition slt_copy_from_lru_ttl :: "'t table_ops \<Rightarrow> ('k \<Rightarrow> 'q) \<Rightarrow> ('k, 'v, 'q, 't) sharded_lru_ttl
    \<Rightarrow> (('k, 'v, 'q, 't) sharded_lru_ttl, ('k, 'v, 'q, 't) sharded_lru_ttl) proc" where
  "slt_copy_from_lru_ttl T bk new_cache =
     pbind (atomically sd_now) (\<lambda>now.
     sd_fold (\<lambda>i c.
       pbind (atomically (sd_locked i (andthen get_state (\<lambda>s. expect (lru_iter_order_raw s))))) (\<lambda>entries.
       case run_calls (\<lambda>(k, entry). atomically (sd_on k (lru_cache_set T bk k entry)))
           (filter (\<lambda>(_, entry). \<not> expired_at entry now) (rev entries)) c of
         Some d \<Rightarrow> pret d | None \<Rightarrow> Done Panics)) new_cache)"

definition slt_copy_from :: "usize option \<Rightarrow> 't table_ops \<Rightarrow> ('k \<Rightarrow> 'q) \<Rightarrow> (usize \<Rightarrow> usize \<Rightarrow> bool)
    \<Rightarrow> (usize \<Rightarrow> usize \<Rightarrow> bool) \<Rightarrow> (usize \<Rightarrow> 'q \<Rightarrow> u64) \<Rightarrow> ('k, 'v) sharded_lru_ttl_builder
    \<Rightarrow> (('k, 'v, 'q, 't) sharded_lru_ttl, build_error + ('k, 'v, 'q, 't) sharded_lru_ttl) proc" where
  "slt_copy_from parallelism T bk table_alloc list_alloc random b =
     pbind (atomically sd_now) (\<lambda>start.
     case slt_build parallelism T table_alloc list_alloc random start b of
       Inl e \<Rightarrow> pret (Inl e)
     | Inr new_cache \<Rightarrow> pbind (slt_copy_from_lru_ttl T bk new_cache) (\<lambda>c. pret (Inr c)))"

section \<open>Lifetime and refresh\<close>

definition slt_ttl :: "(('k, 'v, 'q, 't) sharded_lru_ttl, duration option) proc" where
  "slt_ttl = sd_ttl"

definition slt_set_ttl :: "duration \<Rightarrow> (('k, 'v, 'q, 't) sharded_lru_ttl, duration option) proc" where
  "slt_set_ttl = sd_set_ttl"

definition slt_unset_ttl :: "(('k, 'v, 'q, 't) sharded_lru_ttl, duration option) proc" where
  "slt_unset_ttl = sd_unset_ttl"

definition slt_refresh_on_hit :: "(('k, 'v, 'q, 't) sharded_lru_ttl, bool) proc" where
  "slt_refresh_on_hit = sd_refresh_on_hit"

definition slt_set_refresh_on_hit :: "bool \<Rightarrow> (('k, 'v, 'q, 't) sharded_lru_ttl, bool) proc" where
  "slt_set_refresh_on_hit = sd_set_refresh_on_hit"

section \<open>Shorthands and asynchronous twins\<close>

definition slt_get :: "'t table_ops \<Rightarrow> ('k \<Rightarrow> 'q) \<Rightarrow> 'k \<Rightarrow> (('k, 'v, 'q, 't) sharded_lru_ttl, 'v option) proc" where
  "slt_get = slt_cache_get"

definition slt_set :: "'t table_ops \<Rightarrow> ('k \<Rightarrow> 'q) \<Rightarrow> 'k \<Rightarrow> 'v \<Rightarrow> (('k, 'v, 'q, 't) sharded_lru_ttl, 'v option) proc" where
  "slt_set = slt_cache_set"

definition slt_get_or_set_with :: "'t table_ops \<Rightarrow> ('k \<Rightarrow> 'q) \<Rightarrow> 'k \<Rightarrow> 'v outcome
    \<Rightarrow> (('k, 'v, 'q, 't) sharded_lru_ttl, 'v) proc" where
  "slt_get_or_set_with = slt_cache_get_or_set_with"

definition slt_remove :: "'t table_ops \<Rightarrow> ('k \<Rightarrow> 'q) \<Rightarrow> 'k \<Rightarrow> (('k, 'v, 'q, 't) sharded_lru_ttl, 'v option) proc" where
  "slt_remove = slt_cache_remove"

definition slt_remove_entry :: "'t table_ops \<Rightarrow> ('k \<Rightarrow> 'q) \<Rightarrow> 'k
    \<Rightarrow> (('k, 'v, 'q, 't) sharded_lru_ttl, ('k \<times> 'v) option) proc" where
  "slt_remove_entry = slt_cache_remove_entry"

definition slt_delete :: "'t table_ops \<Rightarrow> ('k \<Rightarrow> 'q) \<Rightarrow> 'k \<Rightarrow> (('k, 'v, 'q, 't) sharded_lru_ttl, bool) proc" where
  "slt_delete = slt_cache_delete"

definition slt_reset :: "'t table_ops \<Rightarrow> (('k, 'v, 'q, 't) sharded_lru_ttl, unit) proc" where
  "slt_reset = slt_cache_reset"

definition slt_contains :: "'t table_ops \<Rightarrow> ('k \<Rightarrow> 'q) \<Rightarrow> 'k \<Rightarrow> (('k, 'v, 'q, 't) sharded_lru_ttl, bool) proc" where
  "slt_contains = slt_cache_contains"

definition slt_async_cache_get :: "'t table_ops \<Rightarrow> ('k \<Rightarrow> 'q) \<Rightarrow> 'k \<Rightarrow> (('k, 'v, 'q, 't) sharded_lru_ttl, 'v option) proc" where
  "slt_async_cache_get = slt_cache_get"

definition slt_async_cache_set :: "'t table_ops \<Rightarrow> ('k \<Rightarrow> 'q) \<Rightarrow> 'k \<Rightarrow> 'v
    \<Rightarrow> (('k, 'v, 'q, 't) sharded_lru_ttl, 'v option) proc" where
  "slt_async_cache_set = slt_cache_set"

definition slt_async_cache_remove :: "'t table_ops \<Rightarrow> ('k \<Rightarrow> 'q) \<Rightarrow> 'k
    \<Rightarrow> (('k, 'v, 'q, 't) sharded_lru_ttl, 'v option) proc" where
  "slt_async_cache_remove = slt_cache_remove"

definition slt_async_cache_remove_entry :: "'t table_ops \<Rightarrow> ('k \<Rightarrow> 'q) \<Rightarrow> 'k
    \<Rightarrow> (('k, 'v, 'q, 't) sharded_lru_ttl, ('k \<times> 'v) option) proc" where
  "slt_async_cache_remove_entry = slt_cache_remove_entry"

definition slt_async_cache_clear :: "'t table_ops \<Rightarrow> (('k, 'v, 'q, 't) sharded_lru_ttl, unit) proc" where
  "slt_async_cache_clear = slt_cache_clear"

definition slt_async_cache_reset :: "'t table_ops \<Rightarrow> (('k, 'v, 'q, 't) sharded_lru_ttl, unit) proc" where
  "slt_async_cache_reset = slt_cache_reset"

definition slt_async_cache_reset_metrics :: "(('k, 'v, 'q, 't) sharded_lru_ttl, unit) proc" where
  "slt_async_cache_reset_metrics = slt_cache_reset_metrics"

definition slt_async_cache_contains :: "'t table_ops \<Rightarrow> ('k \<Rightarrow> 'q) \<Rightarrow> 'k
    \<Rightarrow> (('k, 'v, 'q, 't) sharded_lru_ttl, bool) proc" where
  "slt_async_cache_contains = slt_cache_contains"

definition slt_async_cache_peek :: "'t table_ops \<Rightarrow> ('k \<Rightarrow> 'q) \<Rightarrow> 'k
    \<Rightarrow> (('k, 'v, 'q, 't) sharded_lru_ttl, 'v option) proc" where
  "slt_async_cache_peek = slt_cache_peek"

definition slt_async_cache_get_or_set_with :: "'t table_ops \<Rightarrow> ('k \<Rightarrow> 'q) \<Rightarrow> 'k \<Rightarrow> 'v outcome
    \<Rightarrow> (('k, 'v, 'q, 't) sharded_lru_ttl, 'v) proc" where
  "slt_async_cache_get_or_set_with T bk =
     cc_async_cache_get_or_set_with (slt_async_cache_get T bk) (slt_async_cache_set T bk)"

definition slt_async_cache_try_get_or_set_with :: "'t table_ops \<Rightarrow> ('k \<Rightarrow> 'q) \<Rightarrow> 'k \<Rightarrow> ('e + 'v) outcome
    \<Rightarrow> (('k, 'v, 'q, 't) sharded_lru_ttl, 'e + 'v) proc" where
  "slt_async_cache_try_get_or_set_with T bk =
     cc_async_cache_try_get_or_set_with (slt_async_cache_get T bk) (slt_async_cache_set T bk)"

end
