(* ===== verification/Sharded_Lru_Expiry.thy ===== *)
theory Sharded_Lru_Expiry
  imports Sharded_Lru_Correct Sharded_Calls
begin

text \<open>
  What the two sharded stores of LRU caches with expiry share: the sections that look up, insert and
  sweep keep the invariant of the shards, and what a sweep takes out.
\<close>

section \<open>Sections keep the invariant of a shard\<close>

lemma al_bounded_ops [keeps_rules]:
  "keeps (al_bounded bk cb fixed) (al_get_mut_if bk q is_valid upd)"
  "keeps (al_bounded bk cb fixed) (al_set bk k v)"
  "keeps (al_bounded bk cb fixed) (al_pop bk q)"
  "keeps (al_bounded bk cb fixed) (al_peek bk q)"
  "keeps (al_bounded bk cb fixed) (al_set_items [])"
  "keeps (al_bounded bk cb fixed) (al_pop_each bk ks)"
  "keeps (al_bounded bk cb fixed) al_reset_metrics"
  by (intro keeps_bounded keeps_rules al_inv_pop_each;
      (simp add: al_get_mut_if_def al_set_def al_peek_def)?, intro al_capacity_rules al_capacity_pop al_capacity_pop_each)+

definition al_sweep_section :: "('k \<Rightarrow> 'q) \<Rightarrow> ('k, 'v) predicate \<Rightarrow> (('k, 'v) alru, ('k \<times> 'v) list) comp" where
  "al_sweep_section bk doomed =
     andthen get_state (\<lambda>s.
     andthen (expect (filter_closure (\<lambda>(k, v). doomed k v) (al_items s))) (\<lambda>doomed.
     al_pop_each bk (map fst doomed)))"

lemma al_bounded_sweep [keeps_rules]: "keeps (al_bounded bk cb fixed) (al_sweep_section bk doomed)"
  unfolding al_sweep_section_def by (intro keeps_rules)

lemma al_bounded_wf: "al_bounded bk cb fixed s \<Longrightarrow> a_wf bk (al_items s)"
  by (simp add: al_bounded_def al_inv_def)

context hash_table
begin

lemma refines_sweep_section [refines_rules]:
  "refines (lru_wf entries bk) lru_abs (sl_sweep_section T bk doomed) (al_sweep_section bk doomed)"
  unfolding sl_sweep_section_def al_sweep_section_def
  by (rule refines_read) (simp add: lru_iter_wf expect_Some, intro refines_rules)

lemma shard_ok_refined:
  "refines (lru_wf entries bk) lru_abs m n \<Longrightarrow> keeps (al_bounded bk cb fixed) n \<Longrightarrow>
   keeps (sl_shard_ok entries bk cb fixed) m"
  unfolding sl_shard_ok_def by (rule refines_keeps)

lemma shard_ok_parts:
  "keeps (sl_shard_ok entries bk cb fixed) (lru_pop_raw T bk q)"
  "keeps (sl_shard_ok entries bk cb fixed) (lru_drain_all T)"
  "keeps (sl_shard_ok entries bk cb fixed) (lru_cache_clear T)"
  "keeps (sl_shard_ok entries bk cb fixed) (lru_cache_peek T bk q)"
  "keeps (sl_shard_ok entries bk cb fixed) lru_cache_reset_metrics"
  "keeps (sl_shard_ok entries bk cb fixed) (sl_sweep_section T bk doomed)"
  by (rule shard_ok_refined, rule refines_rules, intro keeps_rules)+

text \<open>A section acts on the entries of a shard as its specification does.\<close>

lemma section_effect:
  assumes "refines (lru_wf entries bk) lru_abs m n" "sl_shard_ok entries bk cb fixed s"
  shows "fst (m s) = fst (n (lru_abs s))" "lru_items (snd (m s)) = al_items (snd (n (lru_abs s)))"
    "a_wf bk (lru_items s)"
proof -
  have s: "lru_wf entries bk s" using assms(2) by (simp add: sl_shard_ok_def)
  then show "fst (m s) = fst (n (lru_abs s))" using refinesD(2) [OF assms(1) s] by simp
  show "lru_items (snd (m s)) = al_items (snd (n (lru_abs s)))"
    using refinesD(2) [OF assms(1) s] by (metis lru_abs_simps(1) snd_conv)
  show "a_wf bk (lru_items s)" using assms(2) al_bounded_wf [of bk cb fixed "lru_abs s"] by (simp add: sl_shard_ok_def)
qed

end

section \<open>A fresh row of shards\<close>

lemma sd_on_state: "(\<And>c. keeps ok (m c)) \<Longrightarrow> keeps (sd_sound g ok) (\<lambda>c. sd_on k (m c) c)"
  by (rule keepsI) (rule keepsD [OF sd_keeps(2)])

context hash_table
begin

lemma built_shards_ok:
  assumes "collect_results (\<lambda>i. sl_build_shard T (table_alloc i) (list_alloc i) (random i) cap cb) [0..<n] = Inr shards"
    and "0 < cap"
  shows "length shards = n" "sh \<in> set shards \<Longrightarrow> sl_shard_ok entries bk cb None (sh_store sh)"
proof -
  have all: "list_all2 (\<lambda>i sh. sl_build_shard T (table_alloc i) (list_alloc i) (random i) cap cb = Inr sh) [0..<n] shards"
    by (rule collect_results_Inr [OF assms(1)])
  show "length shards = n" using list_all2_lengthD [OF all] by simp
  assume "sh \<in> set shards"
  then obtain i where "sl_build_shard T (table_alloc i) (list_alloc i) (random i) cap cb = Inr sh"
    using all by (auto simp: list_all2_conv_all_nth in_set_conv_nth)
  from sl_build_shard_wf [OF this] show "sl_shard_ok entries bk cb None (sh_store sh)"
    using al_fresh_bounded [OF assms(2), of None bk cb] by (simp add: sl_shard_ok_def)
qed

end

section \<open>What a sweep takes out\<close>

definition lru_entry :: "('k \<Rightarrow> 'q) \<Rightarrow> 'q \<Rightarrow> ('k, 'v, 'q, 't) lru_cache \<Rightarrow> 'v option" where
  "lru_entry bk q s = map_option snd (a_find bk q (lru_items s))"

lemma al_pop_apply: "al_pop bk q s = (Returns (a_find bk q (al_items s)), s\<lparr>al_items := a_without bk q (al_items s)\<rparr>)"
  by (simp add: al_pop_def al_set_items_def comp_simps)

lemma al_pop_each_returns: "\<exists>r. fst (al_pop_each bk ks s) = Returns r"
proof (induction ks arbitrary: s)
  case (Cons k ks)
  obtain r where "fst (al_pop_each bk ks (s\<lparr>al_items := a_without bk (bk k) (al_items s)\<rparr>)) = Returns r"
    using Cons by blast
  then show ?case by (simp add: andthen_apply al_pop_apply ret_def case_prod_beta)
qed (simp add: ret_def)

lemma al_pop_each_find:
  "a_find bk q (al_items (snd (al_pop_each bk ks s))) = (if q \<in> bk ` set ks then None else a_find bk q (al_items s))"
proof (induction ks arbitrary: s)
  case (Cons k ks)
  let ?s = "s\<lparr>al_items := a_without bk (bk k) (al_items s)\<rparr>"
  obtain r where "fst (al_pop_each bk ks ?s) = Returns r" using al_pop_each_returns by blast
  then have "snd (al_pop_each bk (k # ks) s) = snd (al_pop_each bk ks ?s)"
    by (simp add: andthen_apply al_pop_apply ret_def case_prod_beta)
  then show ?case using Cons [of ?s] by (auto simp: a_find_without)
qed (simp add: ret_def)

lemma al_sweep_find:
  assumes "a_wf bk (al_items s)" "a_find bk q (al_items s) = Some (k, v)"
  shows "a_find bk q (al_items (snd (al_sweep_section bk doomed s))) = Some (k, v) \<or> doomed k v = Some True"
proof (cases "filter_closure (\<lambda>(k, v). doomed k v) (al_items s)")
  case None
  then show ?thesis using assms(2) by (simp add: al_sweep_section_def comp_simps)
next
  case (Some ds)
  have ds: "ds = filter (\<lambda>x. doomed (fst x) (snd x) = Some True) (al_items s)"
    using filter_closure_Some [OF Some] by (simp add: case_prod_beta)
  have "doomed k v = Some True" if "(k', v') \<in> set ds" "q = bk k'" for k' v'
  proof -
    have "a_find bk q (al_items s) = Some (k', v')" using that assms(1) by (auto simp: ds a_find_Some_iff)
    then show ?thesis using that(1) assms(2) by (simp add: ds)
  qed
  then show ?thesis using assms(2) Some by (auto simp: al_sweep_section_def comp_simps al_pop_each_find)
qed

end
