(* ===== verification/Sharded_Lru_Ttl_Correct.thy ===== *)
theory Sharded_Lru_Ttl_Correct
  imports Sharded_Lru_Ttl Sharded_Lru_Expiry
begin

text \<open>
  What a client of a \<open>ShardedLruTtlCache\<close> can rely on while other threads use and resize it and time
  passes: every shard stays within its capacity, a lookup returns what the shard held at a moment of
  the call, judged by a reading of the clock during the call, and neither a lookup nor a sweep removes
  anything that has not expired.
\<close>

section \<open>Specifications of the critical sections\<close>

definition al_get_live :: "('k \<Rightarrow> 'q) \<Rightarrow> bool \<Rightarrow> u64 \<Rightarrow> instant \<Rightarrow> 'q \<Rightarrow> (('k, 'v timed_entry) alru, 'v option) comp" where
  "al_get_live bk refresh nanos now q =
     andthen (al_get_mut_if bk q (\<lambda>e. \<not> expired_at e now) (if refresh then slt_refreshed nanos now else id)) (\<lambda>e.
     ret (map_option te_value e))"

definition al_get_section :: "('k \<Rightarrow> 'q) \<Rightarrow> bool \<Rightarrow> u64 \<Rightarrow> instant \<Rightarrow> 'q
    \<Rightarrow> (('k, 'v timed_entry) alru, 'v + ('k \<times> 'v timed_entry) option) comp" where
  "al_get_section bk refresh nanos now q =
     andthen (al_get_live bk refresh nanos now q) (\<lambda>val. case val of
       Some v \<Rightarrow> ret (Inl v)
     | None \<Rightarrow> andthen (al_pop bk q) (\<lambda>removed. ret (Inr removed)))"

definition al_status_section :: "('k \<Rightarrow> 'q) \<Rightarrow> bool \<Rightarrow> u64 \<Rightarrow> instant \<Rightarrow> 'q
    \<Rightarrow> (('k, 'v timed_entry) alru, 'v + 'v option) comp" where
  "al_status_section bk refresh nanos now q =
     andthen (al_get_live bk refresh nanos now q) (\<lambda>live. case live of
       Some v \<Rightarrow> ret (Inl v)
     | None \<Rightarrow> andthen (al_peek bk q) (\<lambda>stale. ret (Inr (map_option te_value stale))))"

definition al_status :: "('k \<Rightarrow> 'q) \<Rightarrow> 'q \<Rightarrow> instant \<Rightarrow> (('k, 'v timed_entry) alru, ('v \<times> bool) option) comp" where
  "al_status bk q now = andthen (al_peek bk q) (\<lambda>e. ret (map_option (\<lambda>e. (te_value e, expired_at e now)) e))"

definition al_set_section :: "('k \<Rightarrow> 'q) \<Rightarrow> bool \<Rightarrow> 'k \<Rightarrow> 'v timed_entry \<Rightarrow> instant
    \<Rightarrow> (('k, 'v timed_entry) alru, ('k option \<times> 'v timed_entry \<times> bool) option) comp" where
  "al_set_section bk has_callback k new_entry now =
     (if has_callback
      then andthen (al_set bk k new_entry) (\<lambda>old.
        ret (map_option (\<lambda>(ok, e). (Some ok, e, expired_at e now)) old))
      else andthen (andthen (al_set bk k new_entry) (\<lambda>d. ret (map_option snd d))) (\<lambda>old.
        ret (map_option (\<lambda>e. (None, e, expired_at e now)) old)))"

lemma al_bounded_slt [keeps_rules]:
  "keeps (al_bounded bk cb fixed) (al_get_live bk refresh nanos now q)"
  "keeps (al_bounded bk cb fixed) (al_get_section bk refresh nanos now q)"
  "keeps (al_bounded bk cb fixed) (al_status_section bk refresh nanos now q)"
  "keeps (al_bounded bk cb fixed) (al_status bk q now)"
  "keeps (al_bounded bk cb fixed) (al_set_section bk has_callback k e now)"
  unfolding al_get_live_def al_get_section_def al_status_section_def al_status_def al_set_section_def
  by (intro keeps_rules)+

context hash_table
begin

lemma refines_slt [refines_rules]:
  "refines (lru_wf entries bk) lru_abs (slt_get_live T bk refresh nanos now q) (al_get_live bk refresh nanos now q)"
  "refines (lru_wf entries bk) lru_abs (slt_get_section T bk refresh nanos now q) (al_get_section bk refresh nanos now q)"
  "refines (lru_wf entries bk) lru_abs (slt_status_section T bk refresh nanos now q) (al_status_section bk refresh nanos now q)"
  "refines (lru_wf entries bk) lru_abs (slt_status T bk q now) (al_status bk q now)"
  "refines (lru_wf entries bk) lru_abs (slt_set_section T bk has_callback k e now) (al_set_section bk has_callback k e now)"
proof -
  show live: "refines (lru_wf entries bk) lru_abs (slt_get_live T bk refresh nanos now q) (al_get_live bk refresh nanos now q)"
    for q by (cases refresh) (simp_all only: slt_get_live_def al_get_live_def if_True if_False, (intro refines_rules)+)
  show "refines (lru_wf entries bk) lru_abs (slt_get_section T bk refresh nanos now q) (al_get_section bk refresh nanos now q)"
    "refines (lru_wf entries bk) lru_abs (slt_status_section T bk refresh nanos now q) (al_status_section bk refresh nanos now q)"
    unfolding slt_get_section_def al_get_section_def slt_status_section_def al_status_section_def
    by (intro refines_rules live; simp)+
  show "refines (lru_wf entries bk) lru_abs (slt_status T bk q now) (al_status bk q now)"
    unfolding slt_status_def al_status_def by (intro refines_rules)
  show "refines (lru_wf entries bk) lru_abs (slt_set_section T bk has_callback k e now) (al_set_section bk has_callback k e now)"
    by (cases has_callback) (simp_all only: slt_set_section_def al_set_section_def if_True if_False, (intro refines_rules)+)
qed

lemma shard_ok_slt [keeps_rules]:
  "keeps (sl_shard_ok entries bk cb fixed) (slt_get_section T bk refresh nanos now q)"
  "keeps (sl_shard_ok entries bk cb fixed) (slt_status_section T bk refresh nanos now q)"
  "keeps (sl_shard_ok entries bk cb fixed) (slt_status T bk q now)"
  "keeps (sl_shard_ok entries bk cb fixed) (slt_set_section T bk has_callback k e now)"
  by (rule shard_ok_refined, rule refines_slt, rule al_bounded_slt)+

end

section \<open>Effects\<close>

lemma al_get_live_apply:
  "fst (al_get_live bk refresh nanos now q s) = Returns (live_value now (map_option snd (a_find bk q (al_items s))))"
  "al_items (snd (al_get_live bk refresh nanos now q s)) = (case a_find bk q (al_items s) of
       Some (k, e) \<Rightarrow> if expired_at e now then al_items s
         else (k, (if refresh then slt_refreshed nanos now else id) e) # a_without bk q (al_items s)
     | None \<Rightarrow> al_items s)"
  by (auto simp: al_get_live_def al_get_mut_if_def al_set_items_def al_record_hit_def al_record_miss_def live_value_def
      comp_simps split: option.split)

lemma slt_refreshed_value [simp]: "te_value (slt_refreshed nanos now e) = te_value e"
  by (simp add: slt_refreshed_def)

lemma al_get_section_apply:
  "\<exists>found. fst (al_get_section bk refresh nanos now q s) = Returns found \<and>
     live_value now (map_option snd (a_find bk q (al_items s))) = (case found of Inl v \<Rightarrow> Some v | Inr _ \<Rightarrow> None)"
  "al_items (snd (al_get_section bk refresh nanos now q s)) =
     (if live_value now (map_option snd (a_find bk q (al_items s))) = None then a_without bk q (al_items s)
      else al_items (snd (al_get_live bk refresh nanos now q s)))"
proof -
  obtain v s' where live: "al_get_live bk refresh nanos now q s = (Returns v, s')"
      "v = live_value now (map_option snd (a_find bk q (al_items s)))"
    using al_get_live_apply(1) [of bk refresh nanos now q s] by (metis prod.collapse)
  have items: "v = None \<Longrightarrow> al_items s' = al_items s"
    using al_get_live_apply(2) [of bk refresh nanos now q s] live
    by (auto simp: live_value_def split: option.splits if_splits)
  show "\<exists>found. fst (al_get_section bk refresh nanos now q s) = Returns found \<and>
     live_value now (map_option snd (a_find bk q (al_items s))) = (case found of Inl v \<Rightarrow> Some v | Inr _ \<Rightarrow> None)"
    using live(2) by (auto simp: al_get_section_def andthen_apply live(1) al_pop_apply ret_def split: option.split)
  show "al_items (snd (al_get_section bk refresh nanos now q s)) =
     (if live_value now (map_option snd (a_find bk q (al_items s))) = None then a_without bk q (al_items s)
      else al_items (snd (al_get_live bk refresh nanos now q s)))"
    using live(2) items by (auto simp: al_get_section_def andthen_apply live(1) al_pop_apply ret_def split: option.split)
qed

text \<open>A step that loses no value but of entries that have expired at \<open>now\<close>.\<close>

definition lru_loses :: "('k \<Rightarrow> 'q) \<Rightarrow> instant \<Rightarrow> ('k, 'v timed_entry, 'q, 't) lru_cache
    \<Rightarrow> ('k, 'v timed_entry, 'q, 't) lru_cache \<Rightarrow> bool" where
  "lru_loses bk now s s' \<longleftrightarrow> (\<forall>q e. lru_entry bk q s = Some e \<longrightarrow>
     map_option te_value (lru_entry bk q s') = Some (te_value e) \<or> expired_at e now)"

lemma lru_losesI:
  assumes "\<And>q k e. a_find bk q (lru_items s) = Some (k, e) \<Longrightarrow>
    map_option (te_value \<circ> snd) (a_find bk q (lru_items s')) = Some (te_value e) \<or> expired_at e now"
  shows "lru_loses bk now s s'"
  unfolding lru_loses_def
proof (intro allI impI)
  fix q e assume "lru_entry bk q s = Some e"
  then obtain k where "a_find bk q (lru_items s) = Some (k, e)" by (auto simp: lru_entry_def)
  then show "map_option te_value (lru_entry bk q s') = Some (te_value e) \<or> expired_at e now"
    using assms by (simp add: lru_entry_def option.map_comp)
qed

lemma lru_loses_same: "lru_items s' = lru_items s \<Longrightarrow> lru_loses bk now s s'"
  by (auto simp: lru_loses_def lru_entry_def)

lemma al_live_keeps:
  "a_find bk r (al_items s) = Some (k, e) \<Longrightarrow>
   map_option (te_value \<circ> snd) (a_find bk r (al_items (snd (al_get_live bk refresh nanos now q s)))) = Some (te_value e)"
  using a_find_SomeD [of bk q "al_items s"]
  by (auto simp: al_get_live_apply(2) a_find_Cons a_find_without split: option.splits)

context hash_table
begin

lemma slt_sections_lose:
  assumes "sl_shard_ok entries bk cb fixed s"
  shows "lru_loses bk now s (snd (slt_get_section T bk refresh nanos now q s))"
    "lru_loses bk now s (snd (slt_status_section T bk refresh nanos now q s))"
    "lru_loses bk now s (snd (sl_sweep_section T bk (\<lambda>k e. Some (expired_at e now)) s))"
proof -
  note eff = section_effect [OF _ assms]
  have "map_option (te_value \<circ> snd) (a_find bk r (al_items (snd (al_get_section bk refresh nanos now q (lru_abs s))))) =
      Some (te_value e) \<or> expired_at e now" if "a_find bk r (lru_items s) = Some (k, e)" for r k e
    using that al_live_keeps [of bk r "lru_abs s" k e refresh nanos now q]
    by (cases "r = q") (auto simp: al_get_section_apply(2) a_find_without live_value_def split: if_splits)
  then show "lru_loses bk now s (snd (slt_get_section T bk refresh nanos now q s))"
    by (intro lru_losesI) (simp only: eff(2) [OF refines_slt(2)])
  have "snd (al_status_section bk refresh nanos now q (lru_abs s)) = snd (al_get_live bk refresh nanos now q (lru_abs s))"
    using al_get_live_apply(1) [of bk refresh nanos now q "lru_abs s"]
    by (auto simp: al_status_section_def andthen_apply al_peek_def comp_simps case_prod_beta split: option.split)
  then show "lru_loses bk now s (snd (slt_status_section T bk refresh nanos now q s))"
    using al_live_keeps [of bk _ "lru_abs s"]
    by (intro lru_losesI) (simp only: eff(2) [OF refines_slt(3)] lru_abs_simps simp_thms)
  show "lru_loses bk now s (snd (sl_sweep_section T bk (\<lambda>k e. Some (expired_at e now)) s))"
    using al_sweep_find [of bk "lru_abs s" _ _ _ "\<lambda>k e. Some (expired_at e now)"] eff(3) [OF refines_slt(2)]
    by (intro lru_losesI) (fastforce simp: eff(2) [OF refines_sweep_section])
qed

lemma slt_reads_keep:
  assumes "sl_shard_ok entries bk cb fixed s"
  shows "lru_items (snd (slt_status T bk q now s)) = lru_items s" "lru_items (snd (lru_cache_reset_metrics s)) = lru_items s"
  using section_effect(2) [OF refines_slt(4) assms] section_effect(2) [OF refines_reset_metrics assms]
  by (simp_all add: al_status_def al_peek_def comp_simps al_reset_metrics_def modify_def)

end

section \<open>All calls\<close>

datatype slt_own =
    LSetMaxSize usize
  | LTrySetMaxSize usize
  | LCapacity
  | LSetTtl duration
  | LTrySetTtl duration
  | LUnsetTtl
  | LSetRefresh bool

datatype slt_own_result =
    LPrevious "usize option"
  | LTryPrevious "set_max_size_error + usize option"
  | LTotal usize
  | LTtl "duration option"
  | LTryTtl "set_ttl_error + duration option"
  | LFlag bool

fun slt_own_body :: "'t table_ops \<Rightarrow> ('k \<Rightarrow> 'q) \<Rightarrow> slt_own \<Rightarrow> (('k, 'v, 'q, 't) sharded_lru_ttl, slt_own_result) proc" where
  "slt_own_body T bk (LSetMaxSize n) = presult (slt_set_max_size T bk n) LPrevious"
| "slt_own_body T bk (LTrySetMaxSize n) = presult (slt_try_set_max_size T bk n) LTryPrevious"
| "slt_own_body T bk LCapacity = presult slt_capacity LTotal"
| "slt_own_body T bk (LSetTtl d) = presult (slt_set_ttl d) LTtl"
| "slt_own_body T bk (LTrySetTtl d) = presult (sd_try_set_ttl d) LTryTtl"
| "slt_own_body T bk LUnsetTtl = presult slt_unset_ttl LTtl"
| "slt_own_body T bk (LSetRefresh b) = presult (slt_set_refresh_on_hit b) LFlag"

fun slt_body :: "'t table_ops \<Rightarrow> ('k \<Rightarrow> 'q) \<Rightarrow> ('k, 'v, 'e, slt_own) sh_call
    \<Rightarrow> (('k, 'v, 'q, 't) sharded_lru_ttl, ('k, 'v, 'e, slt_own_result) sh_result) proc" where
  "slt_body T bk (CGet k) = presult (slt_cache_get T bk k) RLookup"
| "slt_body T bk (CSet k v) = presult (slt_cache_set T bk k v) RLookup"
| "slt_body T bk (CPeek k) = presult (slt_peek T bk k) RLookup"
| "slt_body T bk (CContains k) = presult (slt_cache_contains T bk k) RBool"
| "slt_body T bk (CGetStatus k) = presult (slt_cache_get_with_expiry_status T bk k) RStatus"
| "slt_body T bk (CPeekStatus k) = presult (slt_cache_peek_with_expiry_status T bk k) RStatus"
| "slt_body T bk (CRemove k) = presult (slt_cache_remove T bk k) RLookup"
| "slt_body T bk (CRemoveEntry k) = presult (slt_cache_remove_entry T bk k) REntry"
| "slt_body T bk (CDelete k) = presult (slt_cache_delete T bk k) RBool"
| "slt_body T bk (CGetOrSet k f) = presult (slt_cache_get_or_set_with T bk k f) RValue"
| "slt_body T bk (CTryGetOrSet k f) = presult (slt_cache_try_get_or_set_with T bk k f) RTry"
| "slt_body T bk (CRetain keep) = presult (slt_retain T bk keep) RCount"
| "slt_body T bk CEvict = presult (slt_evict T bk) RCount"
| "slt_body T bk CClear = presult (slt_clear T) (\<lambda>_. RUnit)"
| "slt_body T bk CClearWithOnEvict = presult (slt_cache_clear_with_on_evict T) (\<lambda>_. RUnit)"
| "slt_body T bk CReset = presult (slt_cache_reset T) (\<lambda>_. RUnit)"
| "slt_body T bk CResetMetrics = presult slt_cache_reset_metrics (\<lambda>_. RUnit)"
| "slt_body T bk CLen = presult (slt_len T) RCount"
| "slt_body T bk CIsEmpty = presult (slt_is_empty T) RBool"
| "slt_body T bk CShardSizes = presult (slt_shard_sizes T) RCounts"
| "slt_body T bk CMetrics = presult (slt_metrics T) RMetrics"
| "slt_body T bk (CTick d) = presult (sd_tick d) (\<lambda>_. RUnit)"
| "slt_body T bk (COwn x) = presult (slt_own_body T bk x) ROwn"

lemma slt_displaced_safe [safe_rules]: "safe (sd_sound g ok) (\<lambda>_. True) (slt_displaced k old)"
  unfolding slt_displaced_def by (auto split: option.split bool.split intro!: safe_rules keeps_rules)

lemma slt_finish_safe_any [safe_rules]: "safe (sd_sound g ok) (\<lambda>_. True) (slt_finish k found)"
  unfolding slt_finish_def by (intro safe_rules)

context hash_table
begin

lemma slt_parts_safe:
  "safe (sd_sound g (sl_shard_ok entries bk cb fixed)) (\<lambda>_. True) (slt_cache_get T bk k)"
  "safe (sd_sound g (sl_shard_ok entries bk cb fixed)) (\<lambda>_. True) (slt_cache_set T bk k v)"
  "safe (sd_sound g (sl_shard_ok entries bk cb fixed)) (\<lambda>_. True) (slt_cache_get_with_expiry_status T bk k)"
  "safe (sd_sound g (sl_shard_ok entries bk cb fixed)) (\<lambda>_. True) (slt_cache_remove_entry T bk k)"
  "safe (sd_sound g (sl_shard_ok entries bk cb fixed)) (\<lambda>_. True) (slt_sweep T bk doomed)"
  "safe (sd_sound g (sl_shard_ok entries bk cb fixed)) (\<lambda>_. True) (slt_clear T)"
  "safe (sd_sound g (sl_shard_ok entries bk cb fixed)) (\<lambda>_. True) slt_cache_reset_metrics"
  unfolding slt_cache_get_def slt_cache_set_def slt_cache_get_with_expiry_status_def slt_cache_remove_entry_def
    slt_sweep_def slt_clear_def slt_cache_reset_metrics_def
  by (intro safe_rules keeps_rules sd_on_state shard_ok_parts keeps_counters; simp)+

lemma slt_resize_safe: "safe (sd_sound g (sl_shard_ok entries bk cb None)) (\<lambda>_. True) (slt_set_max_size T bk n)"
proof -
  have "keeps (sd_sound g (sl_shard_ok entries bk cb None))
      (\<lambda>c. (Returns (sdt_total_capacity c), c\<lparr>sdt_total_capacity := m\<rparr>))" for m
    by (simp add: keeps_def sd_sound_def)
  then show ?thesis unfolding slt_set_max_size_def by (intro safe_rules keeps_rules sl_set_max_size_keeps)
qed

lemma slt_own_safe: "safe (sd_sound g (sl_shard_ok entries bk cb None)) (\<lambda>_. True) (slt_own_body T bk x)"
  by (cases x; simp only: slt_own_body.simps slt_try_set_max_size_def slt_capacity_def slt_set_ttl_def slt_unset_ttl_def
    slt_set_refresh_on_hit_def; intro safe_rules keeps_rules slt_resize_safe)

lemma slt_safe: "safe (sd_sound g (sl_shard_ok entries bk cb None)) (\<lambda>_. True) (slt_body T bk op)"
  by (cases op; simp only: slt_body.simps slt_peek_def slt_cache_contains_def slt_cache_peek_with_expiry_status_def
    slt_cache_remove_def slt_cache_delete_def slt_cache_get_or_set_with_def slt_cache_try_get_or_set_with_def
    slt_retain_def slt_evict_def slt_cache_clear_with_on_evict_def slt_cache_reset_def slt_len_def slt_is_empty_def
    slt_shard_sizes_def slt_metrics_def slt_capacity_def sd_sum_read_def sd_all_read_def sd_list_read_def;
    intro safe_rules keeps_rules safe_get_or_set slt_parts_safe slt_own_safe shard_ok_parts)

end

section \<open>What a lookup can see\<close>

definition slt_entry :: "('k \<Rightarrow> 'q) \<Rightarrow> 'k \<Rightarrow> ('k, 'v, 'q, 't) sharded_lru_ttl \<Rightarrow> 'v timed_entry option" where
  "slt_entry bk k c = lru_entry bk (bk k) (sd_store k c)"

text \<open>\<open>r\<close> is the live value of \<open>k\<close> in the state of one step, at the instant of one step, of the call.\<close>

definition slt_saw :: "('k \<Rightarrow> 'q) \<Rightarrow> 'k \<Rightarrow> ('k, 'v, 'q, 't) sharded_lru_ttl steps \<Rightarrow> 'v option \<Rightarrow> bool" where
  "slt_saw bk k seen r \<longleftrightarrow> list_ex (\<lambda>(s, _). list_ex (\<lambda>(u, _). live_value (sd_clock u) (slt_entry bk k s) = r) seen) seen"

text \<open>A step loses no value unless the entry had expired at the instant of a step of the call.\<close>

definition slt_spares :: "('k \<Rightarrow> 'q) \<Rightarrow> ('k, 'v, 'q, 't) sharded_lru_ttl steps \<Rightarrow> bool" where
  "slt_spares bk seen \<longleftrightarrow> (\<forall>(s, t) \<in> set seen. \<forall>k e. slt_entry bk k s = Some e \<longrightarrow>
     map_option te_value (slt_entry bk k t) = Some (te_value e) \<or> (\<exists>(u, _) \<in> set seen. expired_at e (sd_clock u)))"

definition slt_contract :: "('k \<Rightarrow> 'q) \<Rightarrow> ('k, 'v, 'e, slt_own) sh_call \<Rightarrow> ('k, 'v, 'q, 't) sharded_lru_ttl steps
    \<Rightarrow> ('k, 'v, 'e, slt_own_result) sh_result outcome \<Rightarrow> bool" where
  "slt_contract bk op seen out \<longleftrightarrow>
     (\<forall>k. op = CGet k \<longrightarrow> (\<exists>o'. out = map_outcome RLookup o' \<and> (\<forall>r. o' = Returns r \<longrightarrow> slt_saw bk k seen r))) \<and>
     (sparing op \<longrightarrow> slt_spares bk seen)"

lemma slt_sawI:
  "(s, t) \<in> set seen \<Longrightarrow> (u, w) \<in> set seen \<Longrightarrow> live_value (sd_clock u) (slt_entry bk k s) = r \<Longrightarrow> slt_saw bk k seen r"
  by (force simp: slt_saw_def list_ex_iff)

lemma slt_finish_safe:
  assumes "\<And>r. r = (case found of Inl v \<Rightarrow> Some v | Inr _ \<Rightarrow> None) \<Longrightarrow> Q (Returns r)" "Q Panics" "Q Diverges"
  shows "safe (sd_sound g ok) Q (slt_finish k found)"
proof (cases found)
  case (Inl v)
  then show ?thesis
    unfolding slt_finish_def Inl sum.case sd_count_hit_def
    by (intro safe_pbind [OF safe_keeps [OF sd_keeps(4)]] safe_pret assms) (simp add: Inl)
next
  case (Inr removed)
  then show ?thesis
    unfolding slt_finish_def Inr sum.case sd_count_miss_def
    by (intro safe_pbind [where Q = "\<lambda>_. True"] safe_rules keeps_rules assms) (simp add: Inr)
qed

text \<open>Guarantees at a fixed instant, of calls that read the clock first.\<close>

definition slt_lost_at :: "('k \<Rightarrow> 'q) \<Rightarrow> instant \<Rightarrow> ('k, 'v, 'q, 't) sharded_lru_ttl \<Rightarrow> ('k, 'v, 'q, 't) sharded_lru_ttl \<Rightarrow> bool" where
  "slt_lost_at bk now s t \<longleftrightarrow> (\<forall>k e. slt_entry bk k s = Some e \<longrightarrow>
     map_option te_value (slt_entry bk k t) = Some (te_value e) \<or> expired_at e now)"

lemma slt_lost_at_guard:
  fixes p :: "(('k, 'v, 'q, 't) sharded_lru_ttl, 'r) proc"
  assumes "guards (sd_sound g ok) (sd_guard (\<lambda>_. lru_loses bk now)) p"
  shows "guards (sd_sound g ok) (slt_lost_at bk now) p"
proof (rule guards_mono [OF assms])
  fix s t :: "('k, 'v, 'q, 't) sharded_lru_ttl"
  assume "sd_sound g ok s" "sd_sound g ok t" "sd_guard (\<lambda>_. lru_loses bk now) s t"
  then show "slt_lost_at bk now s t"
    using sd_guard_store [of "\<lambda>_. lru_loses bk now" s t g ok] by (auto simp: slt_lost_at_def slt_entry_def lru_loses_def)
qed

lemma slt_spares_at:
  assumes "guards (sd_sound g ok) (slt_lost_at bk now) p" "(u, u) \<in> set seen" "sd_clock u = now"
    and "\<forall>(s, t) \<in> set seen. slt_lost_at bk now s t"
  shows "explained (sd_sound g ok) (\<lambda>seen _. slt_spares bk seen) seen p"
proof (rule explained_mono)
  show "explained (sd_sound g ok) (\<lambda>seen _. (\<forall>(s, t) \<in> set seen. slt_lost_at bk now s t) \<and> (u, u) \<in> set seen) seen p"
    by (intro explained_conj guards_explained [OF assms(1,4)] explained_first [OF guards_safe [OF assms(1)]] assms(2))
  show "slt_spares bk seen'" if "(\<forall>(s, t) \<in> set seen'. slt_lost_at bk now s t) \<and> (u, u) \<in> set seen'" for seen'
    using that assms(3) unfolding slt_spares_def slt_lost_at_def by fastforce
qed

lemma slt_lost_refl [simp]: "slt_lost_at bk now s s"
  by (simp add: slt_lost_at_def)

context hash_table
begin

lemma slt_cache_get_explained:
  fixes bk :: "'k \<Rightarrow> 'q" and g :: "('k, 'v) sharding"
  shows "explained (sd_sound g (sl_shard_ok entries bk cb fixed)) (\<lambda>seen out. \<forall>r. out = Returns r \<longrightarrow> slt_saw bk k seen r) []
    (slt_cache_get T bk k)"
  unfolding slt_cache_get_def sd_now_def [abs_def]
proof (rule explained_read, rule explained_read, rule explained_pbind)
  fix c0 u c :: "('k, 'v, 'q, 't) sharded_lru_ttl"
  let ?ok = "sl_shard_ok entries bk cb fixed"
  let ?m = "slt_get_section T bk (sd_refresh c0) (sd_ttl_nanos c) (sd_clock u) (bk k)"
  let ?K = "\<lambda>seen out. \<forall>r. out = Returns r \<longrightarrow> slt_saw bk k seen r"
  assume c: "sd_sound g ?ok c"
  let ?d = "snd (sd_on k ?m c)" and ?seen = "([] @ [(c0, c0)]) @ [(u, u)]"
  have d: "sd_sound g ?ok ?d" by (rule keepsD [OF sd_keeps(2) c]) (rule shard_ok_slt)
  obtain found where f: "fst (?m (sd_store k c)) = Returns found"
      "live_value (sd_clock u) (slt_entry bk k c) = (case found of Inl v \<Rightarrow> Some v | Inr _ \<Rightarrow> None)"
    using section_effect(1) [OF refines_slt(2) sd_store_ok [OF c], of "sd_refresh c0" "sd_ttl_nanos c" "sd_clock u" "bk k"]
      al_get_section_apply(1) [of bk "sd_refresh c0" "sd_ttl_nanos c" "sd_clock u" "bk k" "lru_abs (sd_store k c)"]
    by (auto simp: slt_entry_def lru_entry_def)
  have "safe (sd_sound g ?ok) (\<lambda>out. \<forall>r. out = Returns r \<longrightarrow> live_value (sd_clock u) (slt_entry bk k c) = r) (slt_finish k found)"
    by (rule slt_finish_safe) (simp_all add: f(2))
  then have "explained (sd_sound g ?ok) ?K (?seen @ [(c, ?d)]) (slt_finish k found)"
    by (rule explained_rest) (intro allI impI slt_sawI [of c ?d _ u u]; simp)
  then show "sd_sound g ?ok ?d \<and> explained (sd_sound g ?ok) ?K (?seen @ [(c, ?d)]) (pbind (Done (fst (sd_on k ?m c))) (slt_finish k))"
    using d f(1) by (simp add: sd_on_apply [OF c])
qed

lemma slt_get_guards:
  "guards (sd_sound g (sl_shard_ok entries bk cb fixed)) (sd_guard (\<lambda>_. lru_loses bk now))
     (pbind (atomically (\<lambda>c. sd_on k (slt_get_section T bk refresh (sd_ttl_nanos c) now (bk k)) c)) (slt_finish k))"
  "guards (sd_sound g (sl_shard_ok entries bk cb fixed)) (sd_guard (\<lambda>_. lru_loses bk now))
     (pbind (atomically (\<lambda>c. sd_on k (slt_status_section T bk refresh (sd_ttl_nanos c) now (bk k)) c)) (\<lambda>found. case found of
       Inl v \<Rightarrow> sd_count_hit k (Some v, False)
     | Inr stale \<Rightarrow> sd_count_miss k (case stale of Some v \<Rightarrow> (Some v, True) | None \<Rightarrow> (None, False))))"
  "guards (sd_sound g (sl_shard_ok entries bk cb fixed)) (sd_guard (\<lambda>_. lru_loses bk now))
     (sd_fold (\<lambda>i n. pbind (atomically (sd_locked i (sl_sweep_section T bk (\<lambda>k e. Some (expired_at e now))))) (\<lambda>removed.
       pbind (sd_evicted_all i (slt_values removed)) (\<lambda>_. pret (n + length removed)))) 0)"
  unfolding slt_finish_def
  by (intro guards_rules guards_on_state shard_ok_slt shard_ok_parts lru_loses_same [OF refl] slt_sections_lose; assumption)+

lemma slt_read_guards:
  "guards (sd_sound g (sl_shard_ok entries bk cb fixed)) (sd_guard (\<lambda>_ s s'. lru_items s' = lru_items s))
     (atomically (sd_on_now k (slt_status T bk q)))"
  "guards (sd_sound g (sl_shard_ok entries bk cb fixed)) (sd_guard (\<lambda>_ s s'. lru_items s' = lru_items s))
     (atomically (sd_locked i lru_cache_reset_metrics))"
  by (intro guards_rules shard_ok_slt shard_ok_parts slt_reads_keep; simp?)+

end

lemma slt_spares_same:
  fixes p :: "(('k, 'v, 'q, 't) sharded_lru_ttl, 'r) proc"
  assumes "guards (sd_sound g ok) (sd_guard (\<lambda>_ s s'. lru_items s' = lru_items s)) p"
  shows "explained (sd_sound g ok) (\<lambda>seen _. slt_spares bk seen) [] p"
proof (rule explained_mono [OF guards_explained [OF guards_mono [OF assms]]])
  fix s t :: "('k, 'v, 'q, 't) sharded_lru_ttl"
  assume "sd_sound g ok s" "sd_sound g ok t" "sd_guard (\<lambda>_ s s'. lru_items s' = lru_items s) s t"
  then show "\<forall>k. slt_entry bk k t = slt_entry bk k s"
    using sd_guard_store [of "\<lambda>_ s s'. lru_items s' = lru_items s" s t g ok] by (simp add: slt_entry_def lru_entry_def)
qed (auto simp: slt_spares_def)

context hash_table
begin

lemma slt_timed_spares:
  fixes bk :: "'k \<Rightarrow> 'q" and g :: "('k, 'v) sharding"
  shows "explained (sd_sound g (sl_shard_ok entries bk cb fixed)) (\<lambda>seen _. slt_spares bk seen) [] (slt_cache_get T bk k)"
    "explained (sd_sound g (sl_shard_ok entries bk cb fixed)) (\<lambda>seen _. slt_spares bk seen) [] (slt_cache_get_with_expiry_status T bk k)"
    "explained (sd_sound g (sl_shard_ok entries bk cb fixed)) (\<lambda>seen _. slt_spares bk seen) [] (slt_evict T bk)"
  unfolding slt_cache_get_def slt_cache_get_with_expiry_status_def slt_evict_def slt_sweep_def sd_now_def [abs_def]
  by (intro explained_read; rule slt_spares_at [OF slt_lost_at_guard _ refl], rule slt_get_guards; simp)+

lemma slt_untimed_guards:
  "guards (sd_sound g (sl_shard_ok entries bk cb fixed)) (sd_guard (\<lambda>_ s s'. lru_items s' = lru_items s)) (slt_peek T bk k)"
  "guards (sd_sound g (sl_shard_ok entries bk cb fixed)) (sd_guard (\<lambda>_ s s'. lru_items s' = lru_items s)) (slt_cache_contains T bk k)"
  "guards (sd_sound g (sl_shard_ok entries bk cb fixed)) (sd_guard (\<lambda>_ s s'. lru_items s' = lru_items s)) (slt_cache_peek_with_expiry_status T bk k)"
  "guards (sd_sound g (sl_shard_ok entries bk cb fixed)) (sd_guard (\<lambda>_ s s'. lru_items s' = lru_items s)) slt_cache_reset_metrics"
  "guards (sd_sound g (sl_shard_ok entries bk cb fixed)) (sd_guard (\<lambda>_ s s'. lru_items s' = lru_items s)) (slt_len T)"
  "guards (sd_sound g (sl_shard_ok entries bk cb fixed)) (sd_guard (\<lambda>_ s s'. lru_items s' = lru_items s)) (slt_is_empty T)"
  "guards (sd_sound g (sl_shard_ok entries bk cb fixed)) (sd_guard (\<lambda>_ s s'. lru_items s' = lru_items s)) (slt_shard_sizes T)"
  "guards (sd_sound g (sl_shard_ok entries bk cb fixed)) (sd_guard (\<lambda>_ s s'. lru_items s' = lru_items s)) (slt_metrics T)"
  unfolding slt_peek_def slt_cache_contains_def slt_cache_peek_with_expiry_status_def slt_cache_reset_metrics_def
    slt_len_def slt_is_empty_def slt_shard_sizes_def slt_metrics_def slt_capacity_def
    sd_sum_read_def sd_all_read_def sd_list_read_def
  by (intro slt_read_guards guards_rules refl guards_quiet; simp add: keeps_def)+

lemma slt_spares_explained:
  fixes bk :: "'k \<Rightarrow> 'q" and g :: "('k, 'v) sharding"
  assumes "sparing op"
  shows "explained (sd_sound g (sl_shard_ok entries bk cb fixed)) (\<lambda>seen _. slt_spares bk seen) [] (slt_body T bk op)"
  using assms
  by (cases op; simp only: sparing.simps simp_thms; simp only: slt_body.simps)
    (rule explained_presult, rule slt_timed_spares slt_spares_same, (rule slt_untimed_guards)?, assumption)+

end

sublocale hash_table \<subseteq> slt: explained_calls "slt_body T bk" "sd_sound g (sl_shard_ok entries bk cb None)" "slt_contract bk"
  for bk :: "'k \<Rightarrow> 'q" and g :: "('k, 'v) sharding" and cb
proof unfold_locales
  fix op :: "('k, 'v, 'e, slt_own) sh_call"
  let ?I = "sd_sound g (sl_shard_ok entries bk cb None)"
  have spares: "explained ?I (\<lambda>seen _. sparing op \<longrightarrow> slt_spares bk seen) [] (slt_body T bk op)"
  proof (cases "sparing op")
    case True
    show ?thesis by (rule explained_mono [OF slt_spares_explained [OF True]]) simp
  qed (auto intro!: explained_any [OF slt_safe])
  have saw: "explained ?I (\<lambda>seen out. \<forall>k. op = CGet k \<longrightarrow>
      (\<exists>o'. out = map_outcome RLookup o' \<and> (\<forall>r. o' = Returns r \<longrightarrow> slt_saw bk k seen r))) [] (slt_body T bk op)"
  proof (cases "\<exists>k. op = CGet k")
    case True
    then obtain k where op: "op = CGet k" by blast
    show ?thesis unfolding op slt_body.simps by (rule explained_presult [OF slt_cache_get_explained]) auto
  qed (auto intro!: explained_any [OF slt_safe])
  show "explained ?I (slt_contract bk op) [] (slt_body T bk op)"
    unfolding slt_contract_def by (rule explained_conj [OF saw spares])
qed

section \<open>Building\<close>

lemma slt_resolve_shard_count_power: "slt_resolve_shard_count parallelism b = Inr n \<Longrightarrow> \<exists>j. n = 2 ^ j"
  using default_shard_count_for_capacity_power checked_shard_count_power
  by (auto simp: slt_resolve_shard_count_def split: option.splits)

lemma slt_resolve_per_shard_cap_pos:
  assumes "slt_resolve_per_shard_cap b n = Inr cap" "0 < n"
  shows "0 < cap"
  using assms usize_div_ceil_bounds(3) [OF assms(2)]
  by (auto simp: slt_resolve_per_shard_cap_def Let_def split: option.splits if_splits)

lemma slt_validated_parts_sound:
  assumes "slt_validated_parts parallelism b = Inr (ttl, msk, cap, tot)"
  shows "0 < cap" "\<exists>j. msk + 1 = 2 ^ j"
proof -
  obtain n where n: "slt_resolve_shard_count parallelism b = Inr n" "slt_resolve_per_shard_cap b n = Inr cap" "msk = n - 1"
    using assms by (auto simp: slt_validated_parts_def split: option.splits sum.splits)
  obtain j where "n = 2 ^ j" using slt_resolve_shard_count_power [OF n(1)] by blast
  then have "msk + 1 = 2 ^ j" "0 < n" using n(3) by simp_all
  then show "0 < cap" "\<exists>j. msk + 1 = 2 ^ j" using slt_resolve_per_shard_cap_pos [OF n(2)] by blast+
qed

context hash_table
begin

lemma slt_build_sound:
  assumes "slt_build parallelism T table_alloc list_alloc random now b = Inr c"
  shows "sd_sound (sd_sharding c) (sl_shard_ok entries bk (slt_lru_on_evict (sltb_on_evict b)) None) c"
proof -
  obtain ttl msk cap tot shards where parts: "slt_validated_parts parallelism b = Inr (ttl, msk, cap, tot)"
      and shards: "collect_results (\<lambda>i. sl_build_shard T (table_alloc i) (list_alloc i) (random i) cap
          (slt_lru_on_evict (sltb_on_evict b))) [0..<msk + 1] = Inr shards"
      and c: "sd_shards c = shards" "sd_mask c = msk"
    using assms by (auto simp: slt_build_def simp del: upt_Suc split: sum.splits)
  note built = built_shards_ok [OF shards slt_validated_parts_sound(1) [OF parts]]
  show ?thesis
    using slt_validated_parts_sound(2) [OF parts] built by (simp add: sd_sound_def sd_sharding_def c)
qed

lemma slt_bounded:
  assumes "slt_build parallelism T table_alloc list_alloc random now b = Inr c" "quiet (sltb_on_evict b)"
    and "interleaving (slt_body T bk) (map fresh_thread opss, c) (ts, d)" "sh \<in> set (sd_shards d)"
  shows "lru_cache_size T (sh_store sh) \<le> lru_capacity (sh_store sh)"
proof -
  obtain us where "interleaving (observed (slt_body T bk)) (map fresh_thread opss, c) (us, d)"
    using observed_interleaving [OF assms(3) refl] by auto
  then have "sd_sound (sd_sharding c) (sl_shard_ok entries bk (slt_lru_on_evict (sltb_on_evict b)) None) d"
    by (rule slt.obs.holds) (rule slt_build_sound [OF assms(1)])
  moreover have "quiet (slt_lru_on_evict (sltb_on_evict b))"
    using assms(2) by (cases "sltb_on_evict b") (auto simp: quiet_def slt_lru_on_evict_def)
  ultimately show ?thesis by (rule sl_shard_ok_size(1) [OF sd_soundD(1) [OF _ assms(4)]])
qed

lemma slt_outcome:
  assumes "slt_build parallelism T table_alloc list_alloc random now b = Inr c"
    and "interleaving (observed (slt_body T bk)) (map fresh_thread opss, c) (ts, d)"
    and "t \<in> set ts" "(op, Returns (seen, out)) \<in> set (th_done t)"
  shows "slt_contract bk op seen out"
  by (rule slt.outcome_explained [OF assms(2) slt_build_sound [OF assms(1)] assms(3,4)])

end

section \<open>A run\<close>

text \<open>
  One shard of two entries that live for ten nanoseconds. The first thread stores 1 and 2, lets twenty
  nanoseconds pass, looks 1 up and sweeps; the second one stores 3, shrinks the cache to one entry and
  looks 3 up.
\<close>

definition slt_demo_builder :: "(nat, nat) sharded_lru_ttl_builder" where
  "slt_demo_builder = slt_builder_on_evict (\<lambda>k v. True) (slt_builder_max_size 2 (slt_builder_shards 1
     (slt_builder_ttl 10 (slt_builder_default (\<lambda>k. 0)))))"

definition slt_demo :: "(nat, nat, nat, (u64 \<times> usize) list) sharded_lru_ttl" where
  "slt_demo = (case slt_build None list_table (\<lambda>_ _. True) (\<lambda>_ _. True) (\<lambda>_ _. 0) 0 slt_demo_builder of Inr c \<Rightarrow> c)"

definition slt_demo_ops :: "(nat, nat, unit, slt_own) sh_call list list" where
  "slt_demo_ops = [[CSet 1 10, CSet 2 20, CTick 20, CGet 1, CEvict], [CSet 3 30, COwn (LSetMaxSize 1), CGet 3]]"

definition slt_demo_schedule :: "nat list" where
  "slt_demo_schedule = [0, 0, 0, 0, 0, 0, 0, 0, 0, 0, 0, 0, 0, 0, 0, 0, 1, 1, 1, 1, 1, 0, 0, 0, 0, 0, 0, 0, 0, 0, 0, 0, 0, 0, 1, 1, 1, 1, 1, 1, 1, 1, 1, 1, 1, 1]"

type_synonym slt_demo_state = "(nat, nat, nat, (u64 \<times> usize) list) sharded_lru_ttl"

definition slt_demo_run :: "(slt_demo_state, (nat, nat, unit, slt_own) sh_call,
    slt_demo_state steps \<times> (nat, nat, unit, slt_own_result) sh_result outcome) thread list \<times> slt_demo_state" where
  "slt_demo_run = schedule (observed (slt_body list_table id)) slt_demo_schedule (map fresh_thread slt_demo_ops, slt_demo)"

lemma slt_demo_build:
  "slt_build None list_table (\<lambda>_ _. True) (\<lambda>_ _. True) (\<lambda>_ _. 0) 0 slt_demo_builder = Inr slt_demo"
proof -
  have "case slt_build None list_table (\<lambda>_ _. True) (\<lambda>_ _. True) (\<lambda>_ _. 0) 0 slt_demo_builder of
      Inl _ \<Rightarrow> False | Inr (_ :: (nat, nat, nat, (u64 \<times> usize) list) sharded_lru_ttl) \<Rightarrow> True" by code_simp
  then show ?thesis unfolding slt_demo_def by (auto split: sum.splits)
qed

lemma slt_demo_interleaving:
  "interleaving (observed (slt_body list_table id)) (map fresh_thread slt_demo_ops, slt_demo) (fst slt_demo_run, snd slt_demo_run)"
  unfolding slt_demo_run_def prod.collapse by (intro schedule_interleaving interleaving.start)

lemma slt_demo_thread: "fst slt_demo_run ! 0 \<in> set (fst slt_demo_run)" "fst slt_demo_run ! 1 \<in> set (fst slt_demo_run)"
proof -
  have "length (fst slt_demo_run) = 2" by (simp only: slt_demo_run_def schedule_threads fst_conv length_map) (simp add: slt_demo_ops_def)
  then show "fst slt_demo_run ! 0 \<in> set (fst slt_demo_run)" "fst slt_demo_run ! 1 \<in> set (fst slt_demo_run)" by simp_all
qed


section \<open>Properties\<close>



text \<open>
  C36. A lookup in a \<open>ShardedLruTtlCache\<close> tells the truth about a moment of the call: whatever the other
  threads do and however time passes, the result of a \<open>cache_get\<close> that returned is the value that the
  shard of the key held in the state of one of its steps, or nothing if there was none or it had
  expired at the instant of one of its steps.
\<close>

theorem slt_lookup_truthful:
  assumes "hash_table T entries" "slt_build parallelism T table_alloc list_alloc random now b = Inr c"
    and "interleaving (observed (slt_body T bk)) (map fresh_thread opss, c) (ts, d)"
    and "t \<in> set ts" "(CGet k, Returns (seen, Returns (RLookup r))) \<in> set (th_done t)"
  shows "slt_saw bk k seen r"
  using hash_table.slt_outcome [OF assms] by (simp add: slt_contract_def Returns_map_outcome)

theorem slt_lookup_truthful_witness:
  "\<exists>seen. (CGet 3, Returns (seen, Returns (RLookup (Some 30)))) \<in> set (th_done (fst slt_demo_run ! 1)) \<and>
     slt_saw id 3 seen (Some 30)"
proof -
  have "list_ex (\<lambda>(op, w). (case op of CGet k \<Rightarrow> k = 3 | _ \<Rightarrow> False) \<and> sh_looked_up (Some 30) w)
      (th_done (fst slt_demo_run ! 1))" by code_simp
  moreover have "(case op of CGet k \<Rightarrow> k = 3 | _ \<Rightarrow> False) \<Longrightarrow> op = CGet 3" for op :: "(nat, nat, unit, slt_own) sh_call"
    by (cases op) simp_all
  ultimately obtain seen where seen: "(CGet 3, Returns (seen, Returns (RLookup (Some 30)))) \<in> set (th_done (fst slt_demo_run ! 1))"
    by (fastforce simp: list_ex_iff dest: sh_looked_upD)
  then have "slt_saw id 3 seen (Some 30)"
    by (rule slt_lookup_truthful [OF lt.hash_table_axioms slt_demo_build slt_demo_interleaving slt_demo_thread(2)])
  then show ?thesis using seen by blast
qed

text \<open>
  C37. Only expired entries are swept out of a \<open>ShardedLruTtlCache\<close>: no step of a lookup, of a peek or
  of an \<open>evict\<close> sweep over all shards, whether the call returned or its callback panicked, takes a
  value out of the cache or replaces it, unless the entry had expired at the instant of a step of the
  call.
\<close>

theorem slt_sweeps_spare_live:
  assumes "hash_table T entries" "slt_build parallelism T table_alloc list_alloc random now b = Inr c"
    and "interleaving (observed (slt_body T bk)) (map fresh_thread opss, c) (ts, d)"
    and "t \<in> set ts" "(op, Returns (seen, out)) \<in> set (th_done t)" "sparing op"
  shows "slt_spares bk seen"
  using hash_table.slt_outcome [OF assms(1-5)] assms(6) by (simp add: slt_contract_def)

theorem slt_sweeps_spare_live_witness:
  "\<exists>seen out. (CEvict, Returns (seen, out)) \<in> set (th_done (fst slt_demo_run ! 0)) \<and> slt_spares id seen"
proof -
  have "list_ex sh_swept (th_done (fst slt_demo_run ! 0))" by code_simp
  then obtain seen out where seen: "(CEvict, Returns (seen, out)) \<in> set (th_done (fst slt_demo_run ! 0))"
    using sh_sweptD by blast
  then have "slt_spares id seen"
    by (rule slt_sweeps_spare_live [OF lt.hash_table_axioms slt_demo_build slt_demo_interleaving slt_demo_thread(1)]) simp
  then show ?thesis using seen by blast
qed

end
