(* ===== verification/Sharded_Expiring_Lru.thy ===== *)
theory Sharded_Expiring_Lru
  imports Sharded_Lru Sharded_Expiring
begin

text \<open>
  \<open>src/stores/sharded/expiring_lru.rs\<close>: \<open>ShardedExpiringLruCache\<close>, one \<open>LruCache\<close> per shard whose values say
  themselves whether they have expired: \<open>exp now v\<close> is what \<open>Expires::is_expired\<close> answers for \<open>v\<close> at the
  instant \<open>now\<close>, and \<open>None\<close> is a panic of it. Where the code asks a value inside a critical section, the
  reading of the clock is part of that step. Capacity evictions, removals and overwritten expired values
  are counted by the inner cache; expired values found by a lookup or a sweep are counted by the shard
  after the lock is released. As for \<open>ShardedLruCache\<close>, \<open>random\<close> are the hash builders of the inner
  caches and \<open>table_alloc\<close>, \<open>list_alloc\<close> say whether memory can be had.
\<close>

record ('s, 'k, 'v) sharded_clocked_sized = "('s, 'k, 'v) sharded_clocked" +
  sde_total_capacity :: usize

type_synonym ('k, 'v, 'q, 't) sharded_expiring_lru =
  "(('k, 'v, 'q, 't) lru_cache, 'k, 'v) sharded_clocked_sized"

section \<open>Building\<close>

record ('k, 'v) sharded_expiring_lru_builder =
  selb_shards :: "usize option"
  selb_max_size :: "usize option"
  selb_per_shard_max_size :: "usize option"
  selb_hasher :: "'k \<Rightarrow> u64"
  selb_on_evict :: "('k, 'v) callback option"

definition sel_builder_default :: "('k \<Rightarrow> u64) \<Rightarrow> ('k, 'v) sharded_expiring_lru_builder" where
  "sel_builder_default random = \<lparr>selb_shards = None, selb_max_size = None, selb_per_shard_max_size = None,
     selb_hasher = random, selb_on_evict = None\<rparr>"

definition sel_builder_max_size :: "usize \<Rightarrow> ('k, 'v) sharded_expiring_lru_builder \<Rightarrow> ('k, 'v) sharded_expiring_lru_builder" where
  "sel_builder_max_size n b = b\<lparr>selb_max_size := Some n\<rparr>"

definition sel_builder_per_shard_max_size :: "usize \<Rightarrow> ('k, 'v) sharded_expiring_lru_builder \<Rightarrow> ('k, 'v) sharded_expiring_lru_builder" where
  "sel_builder_per_shard_max_size n b = b\<lparr>selb_per_shard_max_size := Some n\<rparr>"

definition sel_builder_shards :: "usize \<Rightarrow> ('k, 'v) sharded_expiring_lru_builder \<Rightarrow> ('k, 'v) sharded_expiring_lru_builder" where
  "sel_builder_shards n b = b\<lparr>selb_shards := Some n\<rparr>"

definition sel_builder_hasher :: "('k \<Rightarrow> u64) \<Rightarrow> ('k, 'v) sharded_expiring_lru_builder \<Rightarrow> ('k, 'v) sharded_expiring_lru_builder" where
  "sel_builder_hasher h b = b\<lparr>selb_hasher := h\<rparr>"

definition sel_builder_on_evict :: "('k, 'v) callback \<Rightarrow> ('k, 'v) sharded_expiring_lru_builder \<Rightarrow> ('k, 'v) sharded_expiring_lru_builder" where
  "sel_builder_on_evict f b = b\<lparr>selb_on_evict := Some f\<rparr>"

definition sel_resolve_per_shard_cap :: "('k, 'v) sharded_expiring_lru_builder \<Rightarrow> usize \<Rightarrow> build_error + usize" where
  "sel_resolve_per_shard_cap b n_shards = (case (selb_max_size b, selb_per_shard_max_size b) of
       (Some _, Some _) \<Rightarrow> Inl (InvalidValue ''max_size / per_shard_max_size''
         ''`max_size` and `per_shard_max_size` are mutually exclusive'')
     | (None, None) \<Rightarrow> Inl (MissingRequired ''max_size'')
     | (Some tot, None) \<Rightarrow>
         if tot = 0 then Inl (InvalidValue ''max_size'' ''must be greater than zero'')
         else (let cap = usize_div_ceil tot n_shards in
           Inr (if n_shards > 1 then max cap 16 else cap))
     | (None, Some per) \<Rightarrow>
         if per = 0 then Inl (InvalidValue ''per_shard_max_size'' ''must be greater than zero'')
         else Inr per)"

definition sel_total_capacity :: "('k, 'v) sharded_expiring_lru_builder \<Rightarrow> usize \<Rightarrow> usize \<Rightarrow> build_error + usize" where
  "sel_total_capacity b n_shards per_shard_cap =
     (let field = (if selb_per_shard_max_size b \<noteq> None then ''per_shard_max_size'' else ''max_size'')
      in (case usize_checked_mul n_shards per_shard_cap of
            None \<Rightarrow> Inl (InvalidValue field ''effective sharded capacity overflows usize'')
          | Some tot \<Rightarrow> Inr tot))"

definition sel_resolve_shard_count :: "usize option \<Rightarrow> ('k, 'v) sharded_expiring_lru_builder \<Rightarrow> build_error + usize" where
  "sel_resolve_shard_count parallelism b = (case selb_shards b of
       Some _ \<Rightarrow> checked_shard_count parallelism (selb_shards b)
     | None \<Rightarrow> Inr (default_shard_count_for_capacity parallelism (selb_max_size b)))"

definition sel_build :: "usize option \<Rightarrow> 't table_ops \<Rightarrow> (usize \<Rightarrow> usize \<Rightarrow> bool) \<Rightarrow> (usize \<Rightarrow> usize \<Rightarrow> bool)
    \<Rightarrow> (usize \<Rightarrow> 'q \<Rightarrow> u64) \<Rightarrow> instant \<Rightarrow> ('k, 'v) sharded_expiring_lru_builder
    \<Rightarrow> build_error + ('k, 'v, 'q, 't) sharded_expiring_lru" where
  "sel_build parallelism T table_alloc list_alloc random now b =
     (case sel_resolve_shard_count parallelism b of
        Inl e \<Rightarrow> Inl e
      | Inr n \<Rightarrow> (case sel_resolve_per_shard_cap b n of
          Inl e \<Rightarrow> Inl e
        | Inr per_shard_cap \<Rightarrow> (case sel_total_capacity b n per_shard_cap of
            Inl e \<Rightarrow> Inl e
          | Inr total_cap \<Rightarrow> (case collect_results (\<lambda>i. sl_build_shard T (table_alloc i) (list_alloc i)
                (random i) per_shard_cap (selb_on_evict b)) [0..<n] of
              Inl e \<Rightarrow> Inl e
            | Inr shards \<Rightarrow> Inr \<lparr>sd_shards = shards, sd_mask = n - 1, sd_hasher = selb_hasher b,
                sd_on_evict = selb_on_evict b, sd_calls = [], sd_clock = now, sde_total_capacity = total_cap\<rparr>))))"

text \<open>\<open>new\<close> panics (\<open>None\<close>) where building fails.\<close>

definition sel_new :: "usize option \<Rightarrow> 't table_ops \<Rightarrow> (usize \<Rightarrow> usize \<Rightarrow> bool) \<Rightarrow> (usize \<Rightarrow> usize \<Rightarrow> bool)
    \<Rightarrow> (usize \<Rightarrow> 'q \<Rightarrow> u64) \<Rightarrow> ('k \<Rightarrow> u64) \<Rightarrow> instant \<Rightarrow> usize \<Rightarrow> ('k, 'v, 'q, 't) sharded_expiring_lru option" where
  "sel_new parallelism T table_alloc list_alloc random shard_random now max_size =
     (case sel_build parallelism T table_alloc list_alloc random now
         (sel_builder_max_size max_size (sel_builder_default shard_random)) of
        Inl _ \<Rightarrow> None | Inr c \<Rightarrow> Some c)"

section \<open>Lookups\<close>

text \<open>
  The value under a key and what it says of itself, if there is one. The inner cache stays as it is,
  also if the value panics.
\<close>

definition sel_status :: "'t table_ops \<Rightarrow> ('k \<Rightarrow> 'q) \<Rightarrow> 'v expires_at \<Rightarrow> 'q \<Rightarrow> instant
    \<Rightarrow> (('k, 'v, 'q, 't) lru_cache, ('v \<times> bool) option) comp" where
  "sel_status T bk exp q now = andthen (lru_cache_peek T bk q) (\<lambda>found. case found of
       None \<Rightarrow> ret None
     | Some v \<Rightarrow> andthen (expect (exp now v)) (\<lambda>expired. ret (Some (v, expired))))"

text \<open>
  \<open>get_if\<close> with the predicate \<open>!is_expired\<close>: it is asked before anything changes, so a panic of it strikes
  in the unchanged cache; a live value is promoted.
\<close>

definition sel_get_live :: "'t table_ops \<Rightarrow> ('k \<Rightarrow> 'q) \<Rightarrow> 'v expires_at \<Rightarrow> 'q \<Rightarrow> instant
    \<Rightarrow> (('k, 'v, 'q, 't) lru_cache, 'v option) comp" where
  "sel_get_live T bk exp q now =
     andthen (sel_status T bk exp q now) (\<lambda>_.
     lru_get_if T bk q (\<lambda>v. exp now v = Some False))"

text \<open>The critical section of a lookup: the live value (\<open>Inl\<close>), or the expired entry taken out (\<open>Inr\<close>).\<close>

definition sel_get_section :: "'t table_ops \<Rightarrow> ('k \<Rightarrow> 'q) \<Rightarrow> 'v expires_at \<Rightarrow> 'q \<Rightarrow> instant
    \<Rightarrow> (('k, 'v, 'q, 't) lru_cache, 'v + ('k \<times> 'v) option) comp" where
  "sel_get_section T bk exp q now =
     andthen (sel_get_live T bk exp q now) (\<lambda>val. case val of
       Some v \<Rightarrow> ret (Inl v)
     | None \<Rightarrow> andthen (lru_pop_raw T bk q) (\<lambda>removed. ret (Inr removed)))"

definition sel_finish :: "'k \<Rightarrow> 'v + ('k \<times> 'v) option \<Rightarrow> (('k, 'v, 'q, 't) sharded_expiring_lru, 'v option) proc" where
  "sel_finish k found = (case found of
       Inl v \<Rightarrow> sd_count_hit k (Some v)
     | Inr removed \<Rightarrow> pbind (case removed of
           Some (stored_k, v) \<Rightarrow> sd_evicted k stored_k v
         | None \<Rightarrow> pret ()) (\<lambda>_. sd_count_miss k None))"

definition sel_cache_get :: "'t table_ops \<Rightarrow> ('k \<Rightarrow> 'q) \<Rightarrow> 'v expires_at \<Rightarrow> 'k
    \<Rightarrow> (('k, 'v, 'q, 't) sharded_expiring_lru, 'v option) proc" where
  "sel_cache_get T bk exp k =
     pbind (atomically (sd_on_now k (sel_get_section T bk exp (bk k)))) (sel_finish k)"

definition sel_peek :: "'t table_ops \<Rightarrow> ('k \<Rightarrow> 'q) \<Rightarrow> 'v expires_at \<Rightarrow> 'k
    \<Rightarrow> (('k, 'v, 'q, 't) sharded_expiring_lru, 'v option) proc" where
  "sel_peek T bk exp k = pbind (atomically (sd_on_now k (sel_status T bk exp (bk k)))) (\<lambda>found.
     pret (case found of Some (v, False) \<Rightarrow> Some v | _ \<Rightarrow> None))"

definition sel_cache_peek :: "'t table_ops \<Rightarrow> ('k \<Rightarrow> 'q) \<Rightarrow> 'v expires_at \<Rightarrow> 'k
    \<Rightarrow> (('k, 'v, 'q, 't) sharded_expiring_lru, 'v option) proc" where
  "sel_cache_peek T bk exp k = sel_peek T bk exp k"

definition sel_cache_contains :: "'t table_ops \<Rightarrow> ('k \<Rightarrow> 'q) \<Rightarrow> 'v expires_at \<Rightarrow> 'k
    \<Rightarrow> (('k, 'v, 'q, 't) sharded_expiring_lru, bool) proc" where
  "sel_cache_contains T bk exp k = pbind (atomically (sd_on_now k (sel_status T bk exp (bk k)))) (\<lambda>found.
     pret (case found of Some (_, expired) \<Rightarrow> \<not> expired | None \<Rightarrow> False))"

text \<open>One section: the value is peeked at and asked; only a live one is looked up, which promotes it.\<close>

definition sel_status_section :: "'t table_ops \<Rightarrow> ('k \<Rightarrow> 'q) \<Rightarrow> 'v expires_at \<Rightarrow> 'q \<Rightarrow> instant
    \<Rightarrow> (('k, 'v, 'q, 't) lru_cache, ('v option \<times> bool) option) comp" where
  "sel_status_section T bk exp q now =
     andthen (sel_status T bk exp q now) (\<lambda>found. case found of
       None \<Rightarrow> ret None
     | Some (peeked, expired) \<Rightarrow>
         if expired then ret (Some (Some peeked, True))
         else andthen (lru_cache_get T bk q) (\<lambda>val. ret (Some (val, False))))"

definition sel_cache_get_with_expiry_status :: "'t table_ops \<Rightarrow> ('k \<Rightarrow> 'q) \<Rightarrow> 'v expires_at \<Rightarrow> 'k
    \<Rightarrow> (('k, 'v, 'q, 't) sharded_expiring_lru, 'v option \<times> bool) proc" where
  "sel_cache_get_with_expiry_status T bk exp k =
     pbind (atomically (sd_on_now k (sel_status_section T bk exp (bk k)))) (\<lambda>found. case found of
       None \<Rightarrow> sd_count_miss k (None, False)
     | Some (val, expired) \<Rightarrow> if expired then sd_count_miss k (val, True) else sd_count_hit k (val, False))"

definition sel_cache_peek_with_expiry_status :: "'t table_ops \<Rightarrow> ('k \<Rightarrow> 'q) \<Rightarrow> 'v expires_at \<Rightarrow> 'k
    \<Rightarrow> (('k, 'v, 'q, 't) sharded_expiring_lru, 'v option \<times> bool) proc" where
  "sel_cache_peek_with_expiry_status T bk exp k =
     pbind (atomically (sd_on_now k (sel_status T bk exp (bk k)))) (\<lambda>found.
     pret (case found of None \<Rightarrow> (None, False) | Some (v, expired) \<Rightarrow> (Some v, expired)))"

section \<open>Updates\<close>

text \<open>
  The critical section of an insertion. The displaced value is asked once, while the lock is held; if
  it has expired it is counted there. If it panics, the new value stays and nothing is counted.
\<close>

definition sel_displace :: "'v expires_at \<Rightarrow> instant \<Rightarrow> ('k option \<times> 'v) option
    \<Rightarrow> (('k, 'v, 'q, 't) lru_cache, ('k option \<times> 'v \<times> bool) option) comp" where
  "sel_displace exp now old = (case old of
       None \<Rightarrow> ret None
     | Some (key, ov) \<Rightarrow>
         andthen (expect (exp now ov)) (\<lambda>expired.
         andthen (cwhen expired (lru_count_evictions 1)) (\<lambda>_.
         ret (Some (key, ov, expired)))))"

definition sel_set_section :: "'t table_ops \<Rightarrow> ('k \<Rightarrow> 'q) \<Rightarrow> 'v expires_at \<Rightarrow> bool \<Rightarrow> 'k \<Rightarrow> 'v \<Rightarrow> instant
    \<Rightarrow> (('k, 'v, 'q, 't) lru_cache, ('k option \<times> 'v \<times> bool) option) comp" where
  "sel_set_section T bk exp has_callback k v now =
     (if has_callback
      then andthen (lru_cache_set_returning_entry T bk k v) (\<lambda>old.
        sel_displace exp now (map_option (\<lambda>(ok, ov). (Some ok, ov)) old))
      else andthen (lru_cache_set T bk k v) (\<lambda>old.
        sel_displace exp now (map_option (\<lambda>ov. (None, ov)) old)))"

definition sel_displaced :: "('k option \<times> 'v \<times> bool) option \<Rightarrow> (('k, 'v, 'q, 't) sharded_expiring_lru, 'v option) proc" where
  "sel_displaced old = (case old of
       Some (key, ov, True) \<Rightarrow>
         pbind (case key of Some key \<Rightarrow> atomically (sd_notify key ov) | None \<Rightarrow> pret ()) (\<lambda>_. pret None)
     | Some (_, ov, False) \<Rightarrow> pret (Some ov)
     | None \<Rightarrow> pret None)"

definition sel_cache_set :: "'t table_ops \<Rightarrow> ('k \<Rightarrow> 'q) \<Rightarrow> 'v expires_at \<Rightarrow> 'k \<Rightarrow> 'v
    \<Rightarrow> (('k, 'v, 'q, 't) sharded_expiring_lru, 'v option) proc" where
  "sel_cache_set T bk exp k v =
     pbind (atomically (\<lambda>c. sd_on k (sel_set_section T bk exp (sd_on_evict c \<noteq> None) k v (sd_clock c)) c)) sel_displaced"

definition sel_cache_remove_entry :: "'t table_ops \<Rightarrow> ('k \<Rightarrow> 'q) \<Rightarrow> 'k
    \<Rightarrow> (('k, 'v, 'q, 't) sharded_expiring_lru, ('k \<times> 'v) option) proc" where
  "sel_cache_remove_entry T bk k =
     pbind (atomically (sd_on k (sl_pop_counted T bk (bk k)))) (\<lambda>removed. case removed of
       Some (key, val) \<Rightarrow> pbind (atomically (sd_notify key val)) (\<lambda>_. pret (Some (key, val)))
     | None \<Rightarrow> pret None)"

text \<open>The removed value is asked whether it has expired only after it was counted and reported.\<close>

definition sel_cache_remove :: "'t table_ops \<Rightarrow> ('k \<Rightarrow> 'q) \<Rightarrow> 'v expires_at \<Rightarrow> 'k
    \<Rightarrow> (('k, 'v, 'q, 't) sharded_expiring_lru, 'v option) proc" where
  "sel_cache_remove T bk exp k =
     pbind (atomically (sd_on k (sl_pop_counted T bk (bk k)))) (\<lambda>removed. case removed of
       Some (key, val) \<Rightarrow>
         pbind (atomically (sd_notify key val)) (\<lambda>_.
         pbind (atomically sd_now) (\<lambda>now. case exp now val of
           None \<Rightarrow> Done Panics
         | Some expired \<Rightarrow> pret (if expired then None else Some val)))
     | None \<Rightarrow> pret None)"

definition sel_cache_delete :: "'t table_ops \<Rightarrow> ('k \<Rightarrow> 'q) \<Rightarrow> 'k \<Rightarrow> (('k, 'v, 'q, 't) sharded_expiring_lru, bool) proc" where
  "sel_cache_delete T bk k = cc_cache_delete (sel_cache_remove_entry T bk k)"

definition sel_cache_get_or_set_with :: "'t table_ops \<Rightarrow> ('k \<Rightarrow> 'q) \<Rightarrow> 'v expires_at \<Rightarrow> 'k \<Rightarrow> 'v outcome
    \<Rightarrow> (('k, 'v, 'q, 't) sharded_expiring_lru, 'v) proc" where
  "sel_cache_get_or_set_with T bk exp = cc_cache_get_or_set_with (sel_cache_get T bk exp) (sel_cache_set T bk exp)"

definition sel_cache_try_get_or_set_with :: "'t table_ops \<Rightarrow> ('k \<Rightarrow> 'q) \<Rightarrow> 'v expires_at \<Rightarrow> 'k \<Rightarrow> ('e + 'v) outcome
    \<Rightarrow> (('k, 'v, 'q, 't) sharded_expiring_lru, 'e + 'v) proc" where
  "sel_cache_try_get_or_set_with T bk exp =
     cc_cache_try_get_or_set_with (sel_cache_get T bk exp) (sel_cache_set T bk exp)"

section \<open>Calls on the whole cache\<close>

definition sel_clear :: "'t table_ops \<Rightarrow> (('k, 'v, 'q, 't) sharded_expiring_lru, unit) proc" where
  "sel_clear T = sd_each (\<lambda>i. atomically (sd_locked i (lru_cache_clear T)))"

definition sel_cache_clear :: "'t table_ops \<Rightarrow> (('k, 'v, 'q, 't) sharded_expiring_lru, unit) proc" where
  "sel_cache_clear T = sel_clear T"

definition sel_cache_clear_with_on_evict :: "'t table_ops \<Rightarrow> (('k, 'v, 'q, 't) sharded_expiring_lru, unit) proc" where
  "sel_cache_clear_with_on_evict T = sd_each (\<lambda>i.
     pbind (atomically (sd_locked i (sl_drain_counted T))) sd_notify_all)"

definition sel_sweep :: "'t table_ops \<Rightarrow> ('k \<Rightarrow> 'q) \<Rightarrow> (instant \<Rightarrow> ('k, 'v) predicate)
    \<Rightarrow> (('k, 'v, 'q, 't) sharded_expiring_lru, usize) proc" where
  "sel_sweep T bk doomed = sd_fold (\<lambda>i n.
     pbind (atomically (sd_locked_now i (\<lambda>now. sl_sweep_section T bk (doomed now)))) (\<lambda>removed.
     pbind (sd_evicted_all i removed) (\<lambda>_. pret (n + length removed)))) 0"

definition sel_retain :: "'t table_ops \<Rightarrow> ('k \<Rightarrow> 'q) \<Rightarrow> 'v expires_at \<Rightarrow> ('k, 'v) predicate
    \<Rightarrow> (('k, 'v, 'q, 't) sharded_expiring_lru, usize) proc" where
  "sel_retain T bk exp keep = sel_sweep T bk (\<lambda>now k v. do {
     expired \<leftarrow> exp now v;
     if expired then Some True else map_option Not (keep k v)
   })"

definition sel_evict :: "'t table_ops \<Rightarrow> ('k \<Rightarrow> 'q) \<Rightarrow> 'v expires_at
    \<Rightarrow> (('k, 'v, 'q, 't) sharded_expiring_lru, usize) proc" where
  "sel_evict T bk exp = sel_sweep T bk (\<lambda>now k v. exp now v)"

definition sel_capacity :: "(('k, 'v, 'q, 't) sharded_expiring_lru, usize) proc" where
  "sel_capacity = atomically (\<lambda>c. (Returns (sde_total_capacity c), c))"

text \<open>
  The new capacity is published only after every shard has adopted its share. \<open>Done Panics\<close> is the
  \<open>assert!\<close> on zero and the \<open>expect\<close> on a capacity that overflows.
\<close>

definition sel_set_max_size :: "'t table_ops \<Rightarrow> ('k \<Rightarrow> 'q) \<Rightarrow> usize
    \<Rightarrow> (('k, 'v, 'q, 't) sharded_expiring_lru, usize option) proc" where
  "sel_set_max_size T bk max_size =
     (if max_size = 0 then Done Panics
      else pbind (atomically get_state) (\<lambda>c.
        case per_shard_cap_from_total max_size (length (sd_shards c)) of
          None \<Rightarrow> Done Panics
        | Some (per_shard_cap, total_cap) \<Rightarrow>
            pbind (sd_each (\<lambda>i. pbind (atomically (sd_locked i (lru_set_max_size T bk per_shard_cap)))
              (\<lambda>_. pret ()))) (\<lambda>_.
            pbind (atomically (\<lambda>c. (Returns (sde_total_capacity c), c\<lparr>sde_total_capacity := total_cap\<rparr>))) (\<lambda>prev.
            pret (Some prev)))))"

definition sel_try_set_max_size :: "'t table_ops \<Rightarrow> ('k \<Rightarrow> 'q) \<Rightarrow> usize
    \<Rightarrow> (('k, 'v, 'q, 't) sharded_expiring_lru, set_max_size_error + usize option) proc" where
  "sel_try_set_max_size T bk max_size =
     (if max_size = 0 then pret (Inl ZeroMaxSize)
      else pbind (atomically get_state) (\<lambda>c.
        case checked_per_shard_cap_from_total max_size (length (sd_shards c)) of
          Inl e \<Rightarrow> pret (Inl e)
        | Inr _ \<Rightarrow> pbind (sel_set_max_size T bk max_size) (\<lambda>p. pret (Inr p))))"

definition sel_len :: "'t table_ops \<Rightarrow> (('k, 'v, 'q, 't) sharded_expiring_lru, usize) proc" where
  "sel_len T = sd_sum_read (lru_cache_size T)"

definition sel_cache_size :: "'t table_ops \<Rightarrow> (('k, 'v, 'q, 't) sharded_expiring_lru, usize option) proc" where
  "sel_cache_size T = pbind (sel_len T) (\<lambda>n. pret (Some n))"

definition sel_is_empty :: "'t table_ops \<Rightarrow> (('k, 'v, 'q, 't) sharded_expiring_lru, bool) proc" where
  "sel_is_empty T = sd_all_read (\<lambda>s. lru_cache_size T s = 0)"

definition sel_shards :: "('k, 'v, 'q, 't) sharded_expiring_lru \<Rightarrow> usize" where
  "sel_shards c = length (sd_shards c)"

definition sel_shard_sizes :: "'t table_ops \<Rightarrow> (('k, 'v, 'q, 't) sharded_expiring_lru, usize list) proc" where
  "sel_shard_sizes T = sd_list_read (lru_cache_size T)"

definition sel_cache_hits :: "(('k, 'v, 'q, 't) sharded_expiring_lru, u64 option) proc" where
  "sel_cache_hits = pbind (sd_sum_load sh_hits) (\<lambda>n. pret (Some n))"

definition sel_cache_misses :: "(('k, 'v, 'q, 't) sharded_expiring_lru, u64 option) proc" where
  "sel_cache_misses = pbind (sd_sum_load sh_misses) (\<lambda>n. pret (Some n))"

definition sel_cache_capacity :: "(('k, 'v, 'q, 't) sharded_expiring_lru, usize option) proc" where
  "sel_cache_capacity = pbind sel_capacity (\<lambda>n. pret (Some n))"

definition sel_non_capacity_evictions :: "(('k, 'v, 'q, 't) sharded_expiring_lru, u64) proc" where
  "sel_non_capacity_evictions = sd_sum_load sh_evictions"

definition sel_cache_evictions :: "(('k, 'v, 'q, 't) sharded_expiring_lru, u64 option) proc" where
  "sel_cache_evictions = pbind (sd_fold (\<lambda>i n.
       pbind (sd_read i lru_cache_evictions) (\<lambda>e. pret (case e of Some m \<Rightarrow> n + m | None \<Rightarrow> n))) 0) (\<lambda>n.
     pbind sel_non_capacity_evictions (\<lambda>m.
     pret (Some (n + m))))"

definition sel_metrics :: "'t table_ops \<Rightarrow> (('k, 'v, 'q, 't) sharded_expiring_lru, cache_metrics) proc" where
  "sel_metrics T = pbind (sd_fold (\<lambda>i (hits, misses, lru_evictions, evictions, n).
       pbind (atomically (sd_load i sh_hits)) (\<lambda>h.
       pbind (atomically (sd_load i sh_misses)) (\<lambda>m.
       pbind (atomically (sd_load i sh_evictions)) (\<lambda>x.
       pbind (sd_read i (\<lambda>s. (lru_cache_evictions s, lru_cache_size T s))) (\<lambda>(e, l).
       pret (hits + h, misses + m, (case e of Some y \<Rightarrow> lru_evictions + y | None \<Rightarrow> lru_evictions), evictions + x, n + l))))))
       (0, 0, 0, 0, 0)) (\<lambda>(hits, misses, lru_evictions, evictions, n).
     pbind sel_capacity (\<lambda>cap.
     pret \<lparr>cm_hits = Some hits, cm_misses = Some misses, cm_evictions = Some (lru_evictions + evictions),
       cm_entry_count = Some n, cm_capacity = Some cap\<rparr>))"

definition sel_cache_reset_metrics :: "(('k, 'v, 'q, 't) sharded_expiring_lru, unit) proc" where
  "sel_cache_reset_metrics = sd_each (\<lambda>i.
     pbind (atomically (sd_counters i (\<lambda>sh. sh\<lparr>sh_hits := 0\<rparr>))) (\<lambda>_.
     pbind (atomically (sd_counters i (\<lambda>sh. sh\<lparr>sh_misses := 0\<rparr>))) (\<lambda>_.
     pbind (atomically (sd_counters i (\<lambda>sh. sh\<lparr>sh_evictions := 0\<rparr>))) (\<lambda>_.
     atomically (sd_locked i lru_cache_reset_metrics)))))"

definition sel_cache_reset :: "'t table_ops \<Rightarrow> (('k, 'v, 'q, 't) sharded_expiring_lru, unit) proc" where
  "sel_cache_reset T = pbind (sel_clear T) (\<lambda>_. sel_cache_reset_metrics)"

text \<open>The counters of a shard are loaded while its read lock is held: one step with the copy.\<close>

definition sel_deep_clone :: "(('k, 'v, 'q, 't) sharded_expiring_lru, ('k, 'v, 'q, 't) sharded_expiring_lru) proc" where
  "sel_deep_clone =
     pbind (sd_fold (\<lambda>i shards. pbind (atomically (sd_load i (\<lambda>sh. sh\<lparr>sh_store := lru_clone (sh_store sh)\<rparr>)))
       (\<lambda>sh. pret (shards @ [sh]))) []) (\<lambda>shards.
     pbind (atomically get_state) (\<lambda>c.
     pret \<lparr>sd_shards = shards, sd_mask = sd_mask c, sd_hasher = sd_hasher c, sd_on_evict = sd_on_evict c,
       sd_calls = [], sd_clock = sd_clock c, sde_total_capacity = sde_total_capacity c\<rparr>))"

text \<open>
  \<open>copy_from\<close>: the entries of each shard, least recently used first, are asked one after the other
  whether they have expired, outside of the lock, and the live ones are inserted into the new cache,
  which no other thread can see yet; its clock is set to the instant of the question. A panic of
  \<open>is_expired\<close> or of the callback of the new cache ends the call.
\<close>

primrec sel_copy_entries :: "'t table_ops \<Rightarrow> ('k \<Rightarrow> 'q) \<Rightarrow> 'v expires_at \<Rightarrow> ('k \<times> 'v) list
    \<Rightarrow> ('k, 'v, 'q, 't) sharded_expiring_lru
    \<Rightarrow> (('k, 'v, 'q, 't) sharded_expiring_lru, ('k, 'v, 'q, 't) sharded_expiring_lru) proc" where
  "sel_copy_entries T bk exp [] c = pret c"
| "sel_copy_entries T bk exp (kv # kvs) c =
     pbind (atomically sd_now) (\<lambda>now. case exp now (snd kv) of
       None \<Rightarrow> Done Panics
     | Some expired \<Rightarrow>
         if expired then sel_copy_entries T bk exp kvs c
         else (case run_calls (\<lambda>(k, v). sel_cache_set T bk exp k v) [kv] (c\<lparr>sd_clock := now\<rparr>) of
                 Some d \<Rightarrow> sel_copy_entries T bk exp kvs d
               | None \<Rightarrow> Done Panics))"

definition sel_copy_from :: "usize option \<Rightarrow> 't table_ops \<Rightarrow> ('k \<Rightarrow> 'q) \<Rightarrow> 'v expires_at \<Rightarrow> (usize \<Rightarrow> usize \<Rightarrow> bool)
    \<Rightarrow> (usize \<Rightarrow> usize \<Rightarrow> bool) \<Rightarrow> (usize \<Rightarrow> 'q \<Rightarrow> u64) \<Rightarrow> ('k, 'v) sharded_expiring_lru_builder
    \<Rightarrow> (('k, 'v, 'q, 't) sharded_expiring_lru, build_error + ('k, 'v, 'q, 't) sharded_expiring_lru) proc" where
  "sel_copy_from parallelism T bk exp table_alloc list_alloc random b =
     pbind (atomically sd_now) (\<lambda>start.
     case sel_build parallelism T table_alloc list_alloc random start b of
       Inl e \<Rightarrow> pret (Inl e)
     | Inr new_cache \<Rightarrow>
         pbind (sd_fold (\<lambda>i c.
           pbind (atomically (sd_locked i (andthen get_state (\<lambda>s. expect (lru_iter_order_raw s))))) (\<lambda>entries.
           sel_copy_entries T bk exp (rev entries) c)) new_cache) (\<lambda>c.
         pret (Inr c)))"

section \<open>Shorthands and asynchronous twins\<close>

definition sel_get :: "'t table_ops \<Rightarrow> ('k \<Rightarrow> 'q) \<Rightarrow> 'v expires_at \<Rightarrow> 'k
    \<Rightarrow> (('k, 'v, 'q, 't) sharded_expiring_lru, 'v option) proc" where
  "sel_get = sel_cache_get"

definition sel_set :: "'t table_ops \<Rightarrow> ('k \<Rightarrow> 'q) \<Rightarrow> 'v expires_at \<Rightarrow> 'k \<Rightarrow> 'v
    \<Rightarrow> (('k, 'v, 'q, 't) sharded_expiring_lru, 'v option) proc" where
  "sel_set = sel_cache_set"

definition sel_get_or_set_with :: "'t table_ops \<Rightarrow> ('k \<Rightarrow> 'q) \<Rightarrow> 'v expires_at \<Rightarrow> 'k \<Rightarrow> 'v outcome
    \<Rightarrow> (('k, 'v, 'q, 't) sharded_expiring_lru, 'v) proc" where
  "sel_get_or_set_with = sel_cache_get_or_set_with"

definition sel_remove :: "'t table_ops \<Rightarrow> ('k \<Rightarrow> 'q) \<Rightarrow> 'v expires_at \<Rightarrow> 'k
    \<Rightarrow> (('k, 'v, 'q, 't) sharded_expiring_lru, 'v option) proc" where
  "sel_remove = sel_cache_remove"

definition sel_remove_entry :: "'t table_ops \<Rightarrow> ('k \<Rightarrow> 'q) \<Rightarrow> 'k
    \<Rightarrow> (('k, 'v, 'q, 't) sharded_expiring_lru, ('k \<times> 'v) option) proc" where
  "sel_remove_entry = sel_cache_remove_entry"

definition sel_delete :: "'t table_ops \<Rightarrow> ('k \<Rightarrow> 'q) \<Rightarrow> 'k
    \<Rightarrow> (('k, 'v, 'q, 't) sharded_expiring_lru, bool) proc" where
  "sel_delete = sel_cache_delete"

definition sel_reset :: "'t table_ops \<Rightarrow> (('k, 'v, 'q, 't) sharded_expiring_lru, unit) proc" where
  "sel_reset = sel_cache_reset"

definition sel_contains :: "'t table_ops \<Rightarrow> ('k \<Rightarrow> 'q) \<Rightarrow> 'v expires_at \<Rightarrow> 'k
    \<Rightarrow> (('k, 'v, 'q, 't) sharded_expiring_lru, bool) proc" where
  "sel_contains = sel_cache_contains"

definition sel_async_cache_get :: "'t table_ops \<Rightarrow> ('k \<Rightarrow> 'q) \<Rightarrow> 'v expires_at \<Rightarrow> 'k
    \<Rightarrow> (('k, 'v, 'q, 't) sharded_expiring_lru, 'v option) proc" where
  "sel_async_cache_get = sel_cache_get"

definition sel_async_cache_set :: "'t table_ops \<Rightarrow> ('k \<Rightarrow> 'q) \<Rightarrow> 'v expires_at \<Rightarrow> 'k \<Rightarrow> 'v
    \<Rightarrow> (('k, 'v, 'q, 't) sharded_expiring_lru, 'v option) proc" where
  "sel_async_cache_set = sel_cache_set"

definition sel_async_cache_remove :: "'t table_ops \<Rightarrow> ('k \<Rightarrow> 'q) \<Rightarrow> 'v expires_at \<Rightarrow> 'k
    \<Rightarrow> (('k, 'v, 'q, 't) sharded_expiring_lru, 'v option) proc" where
  "sel_async_cache_remove = sel_cache_remove"

definition sel_async_cache_remove_entry :: "'t table_ops \<Rightarrow> ('k \<Rightarrow> 'q) \<Rightarrow> 'k
    \<Rightarrow> (('k, 'v, 'q, 't) sharded_expiring_lru, ('k \<times> 'v) option) proc" where
  "sel_async_cache_remove_entry = sel_cache_remove_entry"

definition sel_async_cache_clear :: "'t table_ops \<Rightarrow> (('k, 'v, 'q, 't) sharded_expiring_lru, unit) proc" where
  "sel_async_cache_clear = sel_cache_clear"

definition sel_async_cache_reset :: "'t table_ops \<Rightarrow> (('k, 'v, 'q, 't) sharded_expiring_lru, unit) proc" where
  "sel_async_cache_reset = sel_cache_reset"

definition sel_async_cache_reset_metrics :: "(('k, 'v, 'q, 't) sharded_expiring_lru, unit) proc" where
  "sel_async_cache_reset_metrics = sel_cache_reset_metrics"

definition sel_async_cache_contains :: "'t table_ops \<Rightarrow> ('k \<Rightarrow> 'q) \<Rightarrow> 'v expires_at \<Rightarrow> 'k
    \<Rightarrow> (('k, 'v, 'q, 't) sharded_expiring_lru, bool) proc" where
  "sel_async_cache_contains = sel_cache_contains"

definition sel_async_cache_peek :: "'t table_ops \<Rightarrow> ('k \<Rightarrow> 'q) \<Rightarrow> 'v expires_at \<Rightarrow> 'k
    \<Rightarrow> (('k, 'v, 'q, 't) sharded_expiring_lru, 'v option) proc" where
  "sel_async_cache_peek = sel_cache_peek"

definition sel_async_cache_get_or_set_with :: "'t table_ops \<Rightarrow> ('k \<Rightarrow> 'q) \<Rightarrow> 'v expires_at \<Rightarrow> 'k \<Rightarrow> 'v outcome
    \<Rightarrow> (('k, 'v, 'q, 't) sharded_expiring_lru, 'v) proc" where
  "sel_async_cache_get_or_set_with T bk exp =
     cc_async_cache_get_or_set_with (sel_async_cache_get T bk exp) (sel_async_cache_set T bk exp)"

definition sel_async_cache_try_get_or_set_with :: "'t table_ops \<Rightarrow> ('k \<Rightarrow> 'q) \<Rightarrow> 'v expires_at \<Rightarrow> 'k \<Rightarrow> ('e + 'v) outcome
    \<Rightarrow> (('k, 'v, 'q, 't) sharded_expiring_lru, 'e + 'v) proc" where
  "sel_async_cache_try_get_or_set_with T bk exp =
     cc_async_cache_try_get_or_set_with (sel_async_cache_get T bk exp) (sel_async_cache_set T bk exp)"

end
