(* ===== verification/Sharded_Expiring_Lru_Correct.thy ===== *)
theory Sharded_Expiring_Lru_Correct
  imports Sharded_Expiring_Lru Sharded_Lru_Expiry
begin

text \<open>
  What a client of a \<open>ShardedExpiringLruCache\<close> can rely on while other threads use and resize it and
  time passes: every shard stays within its capacity, a lookup returns what the value under the key
  said of itself in a step of the call, and neither a lookup nor a sweep takes out a value that does not
  report itself expired in that step.
\<close>

section \<open>Specifications of the critical sections\<close>

definition ale_status :: "('k \<Rightarrow> 'q) \<Rightarrow> 'v expires_at \<Rightarrow> 'q \<Rightarrow> instant \<Rightarrow> (('k, 'v) alru, ('v \<times> bool) option) comp" where
  "ale_status bk exp q now = andthen (al_peek bk q) (\<lambda>found. case found of
       None \<Rightarrow> ret None
     | Some v \<Rightarrow> andthen (expect (exp now v)) (\<lambda>expired. ret (Some (v, expired))))"

definition ale_get_section :: "('k \<Rightarrow> 'q) \<Rightarrow> 'v expires_at \<Rightarrow> 'q \<Rightarrow> instant
    \<Rightarrow> (('k, 'v) alru, 'v + ('k \<times> 'v) option) comp" where
  "ale_get_section bk exp q now =
     andthen (andthen (ale_status bk exp q now) (\<lambda>_.
       al_get_mut_if bk q (\<lambda>v. exp now v = Some False) id)) (\<lambda>val. case val of
       Some v \<Rightarrow> ret (Inl v)
     | None \<Rightarrow> andthen (al_pop bk q) (\<lambda>removed. ret (Inr removed)))"

definition ale_status_section :: "('k \<Rightarrow> 'q) \<Rightarrow> 'v expires_at \<Rightarrow> 'q \<Rightarrow> instant
    \<Rightarrow> (('k, 'v) alru, ('v option \<times> bool) option) comp" where
  "ale_status_section bk exp q now =
     andthen (ale_status bk exp q now) (\<lambda>found. case found of
       None \<Rightarrow> ret None
     | Some (peeked, expired) \<Rightarrow>
         if expired then ret (Some (Some peeked, True))
         else andthen (al_get_mut_if bk q (\<lambda>_. True) id) (\<lambda>val. ret (Some (val, False))))"

definition ale_displace :: "'v expires_at \<Rightarrow> instant \<Rightarrow> ('k option \<times> 'v) option
    \<Rightarrow> (('k, 'v) alru, ('k option \<times> 'v \<times> bool) option) comp" where
  "ale_displace exp now old = (case old of
       None \<Rightarrow> ret None
     | Some (key, ov) \<Rightarrow>
         andthen (expect (exp now ov)) (\<lambda>expired.
         andthen (cwhen expired (al_count_evictions 1)) (\<lambda>_.
         ret (Some (key, ov, expired)))))"

definition ale_set_section :: "('k \<Rightarrow> 'q) \<Rightarrow> 'v expires_at \<Rightarrow> bool \<Rightarrow> 'k \<Rightarrow> 'v \<Rightarrow> instant
    \<Rightarrow> (('k, 'v) alru, ('k option \<times> 'v \<times> bool) option) comp" where
  "ale_set_section bk exp has_callback k v now =
     (if has_callback
      then andthen (al_set bk k v) (\<lambda>old. ale_displace exp now (map_option (\<lambda>(ok, ov). (Some ok, ov)) old))
      else andthen (andthen (al_set bk k v) (\<lambda>d. ret (map_option snd d))) (\<lambda>old.
        ale_displace exp now (map_option (\<lambda>ov. (None, ov)) old)))"

lemma al_bounded_count [keeps_rules]: "keeps (al_bounded bk cb fixed) (al_count_evictions n)"
  by (intro keeps_bounded keeps_rules al_capacity_rules)

lemma al_bounded_sel [keeps_rules]:
  "keeps (al_bounded bk cb fixed) (ale_status bk exp q now)"
  "keeps (al_bounded bk cb fixed) (ale_get_section bk exp q now)"
  "keeps (al_bounded bk cb fixed) (ale_status_section bk exp q now)"
  "keeps (al_bounded bk cb fixed) (ale_displace exp now old)"
  "keeps (al_bounded bk cb fixed) (ale_set_section bk exp has_callback k v now)"
  unfolding ale_get_section_def ale_status_section_def ale_set_section_def ale_status_def ale_displace_def
  by (intro keeps_rules)+

context hash_table
begin

lemma refines_sel [refines_rules]:
  "refines (lru_wf entries bk) lru_abs (sel_status T bk exp q now) (ale_status bk exp q now)"
  "refines (lru_wf entries bk) lru_abs (sel_get_section T bk exp q now) (ale_get_section bk exp q now)"
  "refines (lru_wf entries bk) lru_abs (sel_status_section T bk exp q now) (ale_status_section bk exp q now)"
  "refines (lru_wf entries bk) lru_abs (sel_set_section T bk exp has_callback k v now) (ale_set_section bk exp has_callback k v now)"
proof -
  show status: "refines (lru_wf entries bk) lru_abs (sel_status T bk exp q now) (ale_status bk exp q now)" for q
    unfolding sel_status_def ale_status_def by (intro refines_rules; simp)
  show "refines (lru_wf entries bk) lru_abs (sel_get_section T bk exp q now) (ale_get_section bk exp q now)"
    "refines (lru_wf entries bk) lru_abs (sel_status_section T bk exp q now) (ale_status_section bk exp q now)"
    unfolding sel_get_section_def ale_get_section_def sel_get_live_def sel_status_section_def ale_status_section_def
    by (intro refines_rules status; simp)+
  have displace: "refines (lru_wf entries bk) lru_abs (sel_displace exp now old) (ale_displace exp now old)" for old
    unfolding sel_displace_def ale_displace_def by (intro refines_rules; simp)
  show "refines (lru_wf entries bk) lru_abs (sel_set_section T bk exp has_callback k v now)
      (ale_set_section bk exp has_callback k v now)"
    by (cases has_callback) (simp_all only: sel_set_section_def ale_set_section_def if_True if_False, (intro refines_rules displace)+)
qed

lemma shard_ok_sel [keeps_rules]:
  "keeps (sl_shard_ok entries bk cb fixed) (sel_status T bk exp q now)"
  "keeps (sl_shard_ok entries bk cb fixed) (sel_get_section T bk exp q now)"
  "keeps (sl_shard_ok entries bk cb fixed) (sel_status_section T bk exp q now)"
  "keeps (sl_shard_ok entries bk cb fixed) (sel_set_section T bk exp has_callback k v now)"
  by (rule shard_ok_refined, rule refines_sel, rule al_bounded_sel)+

end

section \<open>Effects\<close>

lemma ale_status_apply:
  "ale_status bk exp q now s = (case a_find bk q (al_items s) of
       None \<Rightarrow> (Returns None, s)
     | Some (k, v) \<Rightarrow> (case exp now v of None \<Rightarrow> (Panics, s) | Some e \<Rightarrow> (Returns (Some (v, e)), s)))"
  by (auto simp: ale_status_def al_peek_def comp_simps split: option.split)

lemma ale_get_section_apply:
  "fst (ale_get_section bk exp q now s) = (case a_find bk q (al_items s) of
       None \<Rightarrow> Returns (Inr None)
     | Some (k, v) \<Rightarrow> (case exp now v of
         None \<Rightarrow> Panics
       | Some e \<Rightarrow> Returns (if e then Inr (Some (k, v)) else Inl v)))"
  "al_items (snd (ale_get_section bk exp q now s)) = (case a_find bk q (al_items s) of
       None \<Rightarrow> a_without bk q (al_items s)
     | Some (k, v) \<Rightarrow> (case exp now v of
         None \<Rightarrow> al_items s
       | Some e \<Rightarrow> if e then a_without bk q (al_items s) else (k, v) # a_without bk q (al_items s)))"
  by (auto simp: ale_get_section_def andthen_apply ale_status_apply al_get_mut_if_def al_pop_apply al_set_items_def
      al_record_hit_def al_record_miss_def comp_simps split: option.split)

lemma ale_status_section_apply:
  "al_items (snd (ale_status_section bk exp q now s)) = (case a_find bk q (al_items s) of
       None \<Rightarrow> al_items s
     | Some (k, v) \<Rightarrow> if exp now v = Some False then (k, v) # a_without bk q (al_items s) else al_items s)"
  by (auto simp: ale_status_section_def andthen_apply ale_status_apply al_get_mut_if_def al_set_items_def
      al_record_hit_def al_record_miss_def comp_simps split: option.split)

text \<open>A step that loses no value but those that say at \<open>now\<close> that they have expired.\<close>

definition lru_loses_expired :: "('k \<Rightarrow> 'q) \<Rightarrow> 'v expires_at \<Rightarrow> instant \<Rightarrow> ('k, 'v, 'q, 't) lru_cache
    \<Rightarrow> ('k, 'v, 'q, 't) lru_cache \<Rightarrow> bool" where
  "lru_loses_expired bk exp now s s' \<longleftrightarrow> (\<forall>q v. lru_entry bk q s = Some v \<longrightarrow>
     lru_entry bk q s' = Some v \<or> exp now v = Some True)"

lemma lru_loses_expiredI:
  assumes "\<And>q k v. a_find bk q (lru_items s) = Some (k, v) \<Longrightarrow>
    map_option snd (a_find bk q (lru_items s')) = Some v \<or> exp now v = Some True"
  shows "lru_loses_expired bk exp now s s'"
  using assms by (fastforce simp: lru_loses_expired_def lru_entry_def)

lemma lru_loses_expired_same: "lru_items s' = lru_items s \<Longrightarrow> lru_loses_expired bk exp now s s'"
  by (simp add: lru_loses_expired_def lru_entry_def)

context hash_table
begin

lemma sel_sections_lose:
  assumes "sl_shard_ok entries bk cb fixed s"
  shows "lru_loses_expired bk exp now s (snd (sel_get_section T bk exp q now s))"
    "lru_loses_expired bk exp now s (snd (sel_status_section T bk exp q now s))"
    "lru_loses_expired bk exp now s (snd (sel_status T bk exp q now s))"
    "lru_loses_expired bk exp now s (snd (sl_sweep_section T bk (\<lambda>k v. exp now v) s))"
    "lru_loses_expired bk exp now s (snd (lru_cache_reset_metrics s))"
proof -
  note eff = section_effect [OF _ assms]
  note found = a_find_SomeD [of bk q "lru_items s"]
  have "map_option snd (a_find bk r (al_items (snd (ale_get_section bk exp q now (lru_abs s))))) = Some v \<or>
      exp now v = Some True" if "a_find bk r (lru_items s) = Some (k, v)" for r k v
    using that found by (auto simp: ale_get_section_apply(2) a_find_Cons a_find_without split: option.splits)
  then show "lru_loses_expired bk exp now s (snd (sel_get_section T bk exp q now s))"
    by (intro lru_loses_expiredI) (simp only: eff(2) [OF refines_sel(2)])
  have "map_option snd (a_find bk r (al_items (snd (ale_status_section bk exp q now (lru_abs s))))) = Some v"
    if "a_find bk r (lru_items s) = Some (k, v)" for r k v
    using that found by (auto simp: ale_status_section_apply a_find_Cons a_find_without split: option.splits)
  then show "lru_loses_expired bk exp now s (snd (sel_status_section T bk exp q now s))"
    by (intro lru_loses_expiredI) (simp only: eff(2) [OF refines_sel(3)] simp_thms)
  show "lru_loses_expired bk exp now s (snd (sel_status T bk exp q now s))"
    by (rule lru_loses_expired_same)
      (simp add: eff(2) [OF refines_sel(1)] ale_status_apply split: option.split)
  show "lru_loses_expired bk exp now s (snd (sl_sweep_section T bk (\<lambda>k v. exp now v) s))"
    using al_sweep_find [of bk "lru_abs s" _ _ _ "\<lambda>k v. exp now v"] eff(3) [OF refines_sel(1)]
    by (intro lru_loses_expiredI) (fastforce simp: eff(2) [OF refines_sweep_section])
  show "lru_loses_expired bk exp now s (snd (lru_cache_reset_metrics s))"
    by (rule lru_loses_expired_same) (simp add: eff(2) [OF refines_reset_metrics] al_reset_metrics_def modify_def)
qed

end

section \<open>All calls\<close>

datatype sel_own =
    ESetMaxSize usize
  | ETrySetMaxSize usize
  | ECapacity

datatype sel_own_result =
    EPrevious "usize option"
  | ETryPrevious "set_max_size_error + usize option"
  | ETotal usize

fun sel_own_body :: "'t table_ops \<Rightarrow> ('k \<Rightarrow> 'q) \<Rightarrow> sel_own
    \<Rightarrow> (('k, 'v, 'q, 't) sharded_expiring_lru, sel_own_result) proc" where
  "sel_own_body T bk (ESetMaxSize n) = presult (sel_set_max_size T bk n) EPrevious"
| "sel_own_body T bk (ETrySetMaxSize n) = presult (sel_try_set_max_size T bk n) ETryPrevious"
| "sel_own_body T bk ECapacity = presult sel_capacity ETotal"

fun sel_body :: "'t table_ops \<Rightarrow> ('k \<Rightarrow> 'q) \<Rightarrow> 'v expires_at \<Rightarrow> ('k, 'v, 'e, sel_own) sh_call
    \<Rightarrow> (('k, 'v, 'q, 't) sharded_expiring_lru, ('k, 'v, 'e, sel_own_result) sh_result) proc" where
  "sel_body T bk exp (CGet k) = presult (sel_cache_get T bk exp k) RLookup"
| "sel_body T bk exp (CSet k v) = presult (sel_cache_set T bk exp k v) RLookup"
| "sel_body T bk exp (CPeek k) = presult (sel_peek T bk exp k) RLookup"
| "sel_body T bk exp (CContains k) = presult (sel_cache_contains T bk exp k) RBool"
| "sel_body T bk exp (CGetStatus k) = presult (sel_cache_get_with_expiry_status T bk exp k) RStatus"
| "sel_body T bk exp (CPeekStatus k) = presult (sel_cache_peek_with_expiry_status T bk exp k) RStatus"
| "sel_body T bk exp (CRemove k) = presult (sel_cache_remove T bk exp k) RLookup"
| "sel_body T bk exp (CRemoveEntry k) = presult (sel_cache_remove_entry T bk k) REntry"
| "sel_body T bk exp (CDelete k) = presult (sel_cache_delete T bk k) RBool"
| "sel_body T bk exp (CGetOrSet k f) = presult (sel_cache_get_or_set_with T bk exp k f) RValue"
| "sel_body T bk exp (CTryGetOrSet k f) = presult (sel_cache_try_get_or_set_with T bk exp k f) RTry"
| "sel_body T bk exp (CRetain keep) = presult (sel_retain T bk exp keep) RCount"
| "sel_body T bk exp CEvict = presult (sel_evict T bk exp) RCount"
| "sel_body T bk exp CClear = presult (sel_clear T) (\<lambda>_. RUnit)"
| "sel_body T bk exp CClearWithOnEvict = presult (sel_cache_clear_with_on_evict T) (\<lambda>_. RUnit)"
| "sel_body T bk exp CReset = presult (sel_cache_reset T) (\<lambda>_. RUnit)"
| "sel_body T bk exp CResetMetrics = presult sel_cache_reset_metrics (\<lambda>_. RUnit)"
| "sel_body T bk exp CLen = presult (sel_len T) RCount"
| "sel_body T bk exp CIsEmpty = presult (sel_is_empty T) RBool"
| "sel_body T bk exp CShardSizes = presult (sel_shard_sizes T) RCounts"
| "sel_body T bk exp CMetrics = presult (sel_metrics T) RMetrics"
| "sel_body T bk exp (CTick d) = presult (sd_tick d) (\<lambda>_. RUnit)"
| "sel_body T bk exp (COwn x) = presult (sel_own_body T bk x) ROwn"

lemma sel_displaced_safe [safe_rules]: "safe (sd_sound g ok) (\<lambda>_. True) (sel_displaced old)"
  unfolding sel_displaced_def by (auto split: option.split bool.split intro!: safe_rules keeps_rules)

lemma sel_finish_safe_any [safe_rules]: "safe (sd_sound g ok) (\<lambda>_. True) (sel_finish k found)"
  unfolding sel_finish_def by (intro safe_rules)

context hash_table
begin

lemma sel_parts_safe:
  "safe (sd_sound g (sl_shard_ok entries bk cb fixed)) (\<lambda>_. True) (sel_cache_get T bk exp k)"
  "safe (sd_sound g (sl_shard_ok entries bk cb fixed)) (\<lambda>_. True) (sel_cache_set T bk exp k v)"
  "safe (sd_sound g (sl_shard_ok entries bk cb fixed)) (\<lambda>_. True) (sel_cache_get_with_expiry_status T bk exp k)"
  "safe (sd_sound g (sl_shard_ok entries bk cb fixed)) (\<lambda>_. True) (sel_cache_remove_entry T bk k)"
  "safe (sd_sound g (sl_shard_ok entries bk cb fixed)) (\<lambda>_. True) (sel_sweep T bk doomed)"
  "safe (sd_sound g (sl_shard_ok entries bk cb fixed)) (\<lambda>_. True) (sel_clear T)"
  "safe (sd_sound g (sl_shard_ok entries bk cb fixed)) (\<lambda>_. True) sel_cache_reset_metrics"
  unfolding sel_cache_get_def sel_cache_set_def sel_cache_get_with_expiry_status_def sel_cache_remove_entry_def
    sel_sweep_def sel_clear_def sel_cache_reset_metrics_def
  by (intro safe_rules keeps_rules sd_on_state shard_ok_parts sl_sections keeps_counters; simp)+

lemma sel_resize_safe: "safe (sd_sound g (sl_shard_ok entries bk cb None)) (\<lambda>_. True) (sel_set_max_size T bk n)"
proof -
  have "keeps (sd_sound g (sl_shard_ok entries bk cb None))
      (\<lambda>c. (Returns (sde_total_capacity c), c\<lparr>sde_total_capacity := m\<rparr>))" for m
    by (simp add: keeps_def sd_sound_def)
  then show ?thesis unfolding sel_set_max_size_def by (intro safe_rules keeps_rules sl_set_max_size_keeps)
qed

lemma sel_own_safe: "safe (sd_sound g (sl_shard_ok entries bk cb None)) (\<lambda>_. True) (sel_own_body T bk x)"
  by (cases x; simp only: sel_own_body.simps sel_try_set_max_size_def sel_capacity_def;
    intro safe_rules keeps_rules sel_resize_safe)

lemma sel_safe: "safe (sd_sound g (sl_shard_ok entries bk cb None)) (\<lambda>_. True) (sel_body T bk exp op)"
  by (cases op; simp only: sel_body.simps sel_peek_def sel_cache_contains_def sel_cache_peek_with_expiry_status_def
    sel_cache_remove_def sel_cache_delete_def sel_cache_get_or_set_with_def sel_cache_try_get_or_set_with_def
    sel_retain_def sel_evict_def sel_cache_clear_with_on_evict_def sel_cache_reset_def sel_len_def sel_is_empty_def
    sel_shard_sizes_def sel_metrics_def sel_capacity_def sd_sum_read_def sd_all_read_def sd_list_read_def;
    intro safe_rules keeps_rules safe_get_or_set sel_parts_safe sel_own_safe shard_ok_parts sl_sections)

end

section \<open>What a lookup can see\<close>

definition sel_value :: "('k \<Rightarrow> 'q) \<Rightarrow> 'k \<Rightarrow> ('k, 'v, 'q, 't) sharded_expiring_lru \<Rightarrow> 'v option" where
  "sel_value bk k c = lru_entry bk (bk k) (sd_store k c)"

text \<open>The live value under \<open>k\<close> at the instant of \<open>c\<close>; \<open>None\<close> if asking the value panics.\<close>

definition sel_judged :: "('k \<Rightarrow> 'q) \<Rightarrow> 'v expires_at \<Rightarrow> 'k \<Rightarrow> ('k, 'v, 'q, 't) sharded_expiring_lru \<Rightarrow> 'v option option" where
  "sel_judged bk exp k c = (case sel_value bk k c of
       None \<Rightarrow> Some None
     | Some v \<Rightarrow> map_option (\<lambda>expired. if expired then None else Some v) (exp (sd_clock c) v))"

definition sel_saw :: "('k \<Rightarrow> 'q) \<Rightarrow> 'v expires_at \<Rightarrow> 'k \<Rightarrow> ('k, 'v, 'q, 't) sharded_expiring_lru steps
    \<Rightarrow> 'v option outcome \<Rightarrow> bool" where
  "sel_saw bk exp k seen out \<longleftrightarrow> (\<forall>r. out = Returns r \<longrightarrow> list_ex (\<lambda>(s, _). sel_judged bk exp k s = Some r) seen)"

definition sel_spares :: "('k \<Rightarrow> 'q) \<Rightarrow> 'v expires_at \<Rightarrow> ('k, 'v, 'q, 't) sharded_expiring_lru steps \<Rightarrow> bool" where
  "sel_spares bk exp seen \<longleftrightarrow> (\<forall>(s, t) \<in> set seen. \<forall>k v. sel_value bk k s = Some v \<longrightarrow>
     sel_value bk k t = Some v \<or> exp (sd_clock s) v = Some True)"

definition sel_contract :: "('k \<Rightarrow> 'q) \<Rightarrow> 'v expires_at \<Rightarrow> ('k, 'v, 'e, sel_own) sh_call
    \<Rightarrow> ('k, 'v, 'q, 't) sharded_expiring_lru steps \<Rightarrow> ('k, 'v, 'e, sel_own_result) sh_result outcome \<Rightarrow> bool" where
  "sel_contract bk exp op seen out \<longleftrightarrow>
     (\<forall>k. op = CGet k \<longrightarrow> (\<exists>r. out = map_outcome RLookup r \<and> sel_saw bk exp k seen r)) \<and>
     (sparing op \<longrightarrow> sel_spares bk exp seen)"

lemma sel_sawI: "(s, t) \<in> set seen \<Longrightarrow> (\<And>r. out = Returns r \<Longrightarrow> sel_judged bk exp k s = Some r) \<Longrightarrow> sel_saw bk exp k seen out"
  by (force simp: sel_saw_def list_ex_iff)

lemma sel_finish_safe:
  assumes "\<And>r. r = (case found of Inl v \<Rightarrow> Some v | Inr _ \<Rightarrow> None) \<Longrightarrow> Q (Returns r)" "Q Panics" "Q Diverges"
  shows "safe (sd_sound g ok) Q (sel_finish k found)"
proof (cases found)
  case (Inl v)
  then show ?thesis
    unfolding sel_finish_def Inl sum.case sd_count_hit_def
    by (intro safe_pbind [OF safe_keeps [OF sd_keeps(4)]] safe_pret assms) (simp add: Inl)
next
  case (Inr removed)
  then show ?thesis
    unfolding sel_finish_def Inr sum.case sd_count_miss_def
    by (intro safe_pbind [where Q = "\<lambda>_. True"] safe_rules keeps_rules assms) (simp add: Inr)
qed

lemma sel_finish_guards [guards_rules]:
  "guards (sd_sound g ok) (sd_guard (lru_loses_expired bk exp)) (sel_finish k found)"
  unfolding sel_finish_def by (intro guards_rules lru_loses_expired_same refl)

context hash_table
begin

lemma sel_section_judged:
  fixes c :: "('k, 'v, 'q, 't) sharded_expiring_lru"
  assumes "sd_sound g (sl_shard_ok entries bk cb fixed) c"
    and "fst (sel_get_section T bk exp (bk k) (sd_clock c) (sd_store k c)) = Returns found"
  shows "sel_judged bk exp k c = Some (case found of Inl v \<Rightarrow> Some v | Inr _ \<Rightarrow> None)"
proof -
  let ?items = "lru_items (sd_store k c)"
  have found: "(case a_find bk (bk k) ?items of
       None \<Rightarrow> Returns (Inr None)
     | Some (k', v) \<Rightarrow> (case exp (sd_clock c) v of
         None \<Rightarrow> Panics
       | Some e \<Rightarrow> Returns (if e then Inr (Some (k', v)) else Inl v))) = Returns found"
    using assms(2) section_effect(1) [OF refines_sel(2) sd_store_ok [OF assms(1)], of exp "bk k" "sd_clock c"]
    by (simp add: ale_get_section_apply(1))
  show ?thesis
  proof (cases "a_find bk (bk k) ?items")
    case (Some kv)
    then show ?thesis
      using found by (cases kv; cases "exp (sd_clock c) (snd kv)")
        (auto simp: sel_judged_def sel_value_def lru_entry_def)
  qed (use found in \<open>auto simp: sel_judged_def sel_value_def lru_entry_def\<close>)
qed

lemma sel_cache_get_explained:
  fixes bk :: "'k \<Rightarrow> 'q" and g :: "('k, 'v) sharding"
  shows "explained (sd_sound g (sl_shard_ok entries bk cb fixed)) (sel_saw bk exp k) [] (sel_cache_get T bk exp k)"
  unfolding sel_cache_get_def
proof (rule explained_pbind, rule conjI)
  fix c :: "('k, 'v, 'q, 't) sharded_expiring_lru"
  let ?I = "sd_sound g (sl_shard_ok entries bk cb fixed)" and ?m = "sel_get_section T bk exp (bk k)"
  assume c: "?I c"
  let ?seen = "[] @ [(c, snd (sd_on_now k ?m c))]"
  show "?I (snd (sd_on_now k ?m c))" by (rule keepsD [OF sd_clock_keeps(1) c]) (rule shard_ok_sel)
  show "explained ?I (sel_saw bk exp k) ?seen (pbind (Done (fst (sd_on_now k ?m c))) (sel_finish k))"
  proof (cases "fst (?m (sd_clock c) (sd_store k c))")
    case (Returns found)
    have "safe ?I (\<lambda>out. \<forall>r. out = Returns r \<longrightarrow> sel_judged bk exp k c = Some r) (sel_finish k found)"
      by (rule sel_finish_safe) (use sel_section_judged [OF c Returns] in auto)
    then have "explained ?I (sel_saw bk exp k) ?seen (sel_finish k found)"
      by (rule explained_rest) (rule sel_sawI [of c], auto)
    then show ?thesis using Returns by (simp add: sd_on_now_def sd_on_apply [OF c])
  qed (simp_all add: sd_on_now_def sd_on_apply [OF c] sel_saw_def)
qed

lemma sel_guards:
  "sparing op \<Longrightarrow> guards (sd_sound g (sl_shard_ok entries bk cb fixed)) (sd_guard (lru_loses_expired bk exp)) (sel_body T bk exp op)"
  by (cases op; simp only: sparing.simps simp_thms; simp only: sel_body.simps sel_cache_get_def sel_peek_def
    sel_cache_contains_def sel_cache_get_with_expiry_status_def sel_cache_peek_with_expiry_status_def sel_evict_def
    sel_sweep_def sel_cache_reset_metrics_def sel_len_def sel_is_empty_def sel_shard_sizes_def sel_metrics_def
    sel_capacity_def sd_sum_read_def sd_all_read_def sd_list_read_def;
    intro guards_rules shard_ok_sel shard_ok_parts lru_loses_expired_same [OF refl] sel_sections_lose guards_quiet;
    simp add: keeps_def)

lemma sel_spares_explained:
  "explained (sd_sound g (sl_shard_ok entries bk cb None)) (\<lambda>seen _. sparing op \<longrightarrow> sel_spares bk exp seen) [] (sel_body T bk exp op)"
proof (cases "sparing op")
  case True
  let ?G = "\<lambda>s t. \<forall>k v. sel_value bk k s = Some v \<longrightarrow> sel_value bk k t = Some v \<or> exp (sd_clock s) v = Some True"
  have "guards (sd_sound g (sl_shard_ok entries bk cb None)) ?G (sel_body T bk exp op)"
    by (rule guards_mono [OF sel_guards [OF True]])
      (use sd_guard_store in \<open>force simp: sel_value_def lru_loses_expired_def\<close>)
  then show ?thesis by (rule explained_mono [OF guards_explained]) (simp_all add: sel_spares_def)
qed (simp add: explained_any [OF sel_safe])

end

sublocale hash_table \<subseteq> sel: explained_calls "sel_body T bk exp" "sd_sound g (sl_shard_ok entries bk cb None)" "sel_contract bk exp"
  for bk :: "'k \<Rightarrow> 'q" and exp :: "'v expires_at" and g :: "('k, 'v) sharding" and cb
proof unfold_locales
  fix op :: "('k, 'v, 'e, sel_own) sh_call"
  let ?I = "sd_sound g (sl_shard_ok entries bk cb None)"
  show "explained ?I (sel_contract bk exp op) [] (sel_body T bk exp op)"
    unfolding sel_contract_def
  proof (rule explained_conj [OF _ sel_spares_explained])
    show "explained ?I (\<lambda>seen out. \<forall>k. op = CGet k \<longrightarrow> (\<exists>r. out = map_outcome RLookup r \<and> sel_saw bk exp k seen r)) []
        (sel_body T bk exp op)"
    proof (cases "\<exists>k. op = CGet k")
      case True
      then obtain k where op: "op = CGet k" by blast
      show ?thesis unfolding op sel_body.simps by (rule explained_presult [OF sel_cache_get_explained]) auto
    qed (auto intro!: explained_any [OF sel_safe])
  qed
qed

section \<open>Building\<close>

lemma sel_resolve_shard_count_power: "sel_resolve_shard_count parallelism b = Inr n \<Longrightarrow> \<exists>j. n = 2 ^ j"
  using default_shard_count_for_capacity_power checked_shard_count_power
  by (auto simp: sel_resolve_shard_count_def split: option.splits)

lemma sel_resolve_per_shard_cap_pos:
  assumes "sel_resolve_per_shard_cap b n = Inr cap" "0 < n"
  shows "0 < cap"
  using assms usize_div_ceil_bounds(3) [OF assms(2)]
  by (auto simp: sel_resolve_per_shard_cap_def Let_def split: option.splits if_splits)

context hash_table
begin

lemma sel_build_sound:
  assumes "sel_build parallelism T table_alloc list_alloc random now b = Inr c"
  shows "sd_sound (sd_sharding c) (sl_shard_ok entries bk (selb_on_evict b) None) c"
proof -
  obtain n cap shards where n: "sel_resolve_shard_count parallelism b = Inr n" "sel_resolve_per_shard_cap b n = Inr cap"
      and shards: "collect_results (\<lambda>i. sl_build_shard T (table_alloc i) (list_alloc i) (random i) cap (selb_on_evict b))
          [0..<n] = Inr shards"
      and c: "sd_shards c = shards" "sd_mask c = n - 1"
    using assms by (auto simp: sel_build_def split: sum.splits)
  obtain j where j: "n = 2 ^ j" using sel_resolve_shard_count_power [OF n(1)] by blast
  then have "0 < cap" using sel_resolve_per_shard_cap_pos [OF n(2)] by simp
  note built = built_shards_ok [OF shards this]
  show ?thesis using j built by (auto simp: sd_sound_def sd_sharding_def c)
qed

lemma sel_bounded:
  assumes "sel_build parallelism T table_alloc list_alloc random now b = Inr c" "quiet (selb_on_evict b)"
    and "interleaving (sel_body T bk exp) (map fresh_thread opss, c) (ts, d)" "sh \<in> set (sd_shards d)"
  shows "lru_cache_size T (sh_store sh) \<le> lru_capacity (sh_store sh)"
proof -
  obtain us where "interleaving (observed (sel_body T bk exp)) (map fresh_thread opss, c) (us, d)"
    using observed_interleaving [OF assms(3) refl] by auto
  then have "sd_sound (sd_sharding c) (sl_shard_ok entries bk (selb_on_evict b) None) d"
    by (rule sel.obs.holds) (rule sel_build_sound [OF assms(1)])
  then show ?thesis using assms(2) by (rule sl_shard_ok_size(1) [OF sd_soundD(1) [OF _ assms(4)]])
qed

lemma sel_outcome:
  assumes "sel_build parallelism T table_alloc list_alloc random now b = Inr c"
    and "interleaving (observed (sel_body T bk exp)) (map fresh_thread opss, c) (ts, d)"
    and "t \<in> set ts" "(op, Returns (seen, out)) \<in> set (th_done t)"
  shows "sel_contract bk exp op seen out"
  by (rule sel.outcome_explained [OF assms(2) sel_build_sound [OF assms(1)] assms(3,4)])

end

section \<open>A run\<close>

text \<open>
  One shard of two entries; a value is the instant from which on it says that it has expired. The
  first thread stores 10 under 1 and 90 under 2, lets twenty nanoseconds pass, looks 1 up and sweeps;
  the second one stores 80 under 3, shrinks the cache to one entry and looks 3 up.
\<close>

definition sel_demo_exp :: "nat expires_at" where
  "sel_demo_exp now v = Some (v \<le> now)"

definition sel_demo_builder :: "(nat, nat) sharded_expiring_lru_builder" where
  "sel_demo_builder = sel_builder_on_evict (\<lambda>k v. True) (sel_builder_max_size 2 (sel_builder_shards 1
     (sel_builder_default (\<lambda>k. 0))))"

type_synonym sel_demo_state = "(nat, nat, nat, (u64 \<times> usize) list) sharded_expiring_lru"

definition sel_demo :: sel_demo_state where
  "sel_demo = (case sel_build None list_table (\<lambda>_ _. True) (\<lambda>_ _. True) (\<lambda>_ _. 0) 0 sel_demo_builder of Inr c \<Rightarrow> c)"

definition sel_demo_ops :: "(nat, nat, unit, sel_own) sh_call list list" where
  "sel_demo_ops = [[CSet 1 10, CSet 2 90, CTick 20, CGet 1, CEvict], [CSet 3 80, COwn (ESetMaxSize 1), CGet 3]]"

definition sel_demo_schedule :: "nat list" where
  "sel_demo_schedule = [0, 0, 0, 0, 0, 0, 0, 0, 0, 0, 0, 1, 1, 0, 0, 0, 0, 0, 0, 0, 1, 1, 1, 1, 1, 1, 1, 1, 1, 1, 1, 1, 0, 0, 0, 0, 0, 0]"

definition sel_demo_run :: "(sel_demo_state, (nat, nat, unit, sel_own) sh_call,
    sel_demo_state steps \<times> (nat, nat, unit, sel_own_result) sh_result outcome) thread list \<times> sel_demo_state" where
  "sel_demo_run = schedule (observed (sel_body list_table id sel_demo_exp)) sel_demo_schedule
     (map fresh_thread sel_demo_ops, sel_demo)"


lemma sel_demo_build:
  "sel_build None list_table (\<lambda>_ _. True) (\<lambda>_ _. True) (\<lambda>_ _. 0) 0 sel_demo_builder = Inr sel_demo"
proof -
  have "case sel_build None list_table (\<lambda>_ _. True) (\<lambda>_ _. True) (\<lambda>_ _. 0) 0 sel_demo_builder of
      Inl _ \<Rightarrow> False | Inr (_ :: sel_demo_state) \<Rightarrow> True" by code_simp
  then show ?thesis unfolding sel_demo_def by (auto split: sum.splits)
qed

lemma sel_demo_interleaving:
  "interleaving (observed (sel_body list_table id sel_demo_exp)) (map fresh_thread sel_demo_ops, sel_demo)
     (fst sel_demo_run, snd sel_demo_run)"
  unfolding sel_demo_run_def prod.collapse by (intro schedule_interleaving interleaving.start)

lemma sel_demo_thread: "fst sel_demo_run ! 0 \<in> set (fst sel_demo_run)" "fst sel_demo_run ! 1 \<in> set (fst sel_demo_run)"
proof -
  have "length (fst sel_demo_run) = 2" by (simp only: sel_demo_run_def schedule_threads fst_conv length_map) (simp add: sel_demo_ops_def)
  then show "fst sel_demo_run ! 0 \<in> set (fst sel_demo_run)" "fst sel_demo_run ! 1 \<in> set (fst sel_demo_run)" by simp_all
qed

section \<open>Properties\<close>



text \<open>
  C39. A lookup in a \<open>ShardedExpiringLruCache\<close> tells the truth about a moment of the call: whatever the
  other threads do and however time passes, the result of a \<open>cache_get\<close> that returned is what the shard
  of the key held in the state of one of its steps, judged by what \<open>is_expired\<close> answered in that very
  step.
\<close>

theorem sel_lookup_truthful:
  assumes "hash_table T entries" "sel_build parallelism T table_alloc list_alloc random now b = Inr c"
    and "interleaving (observed (sel_body T bk exp)) (map fresh_thread opss, c) (ts, d)"
    and "t \<in> set ts" "(CGet k, Returns (seen, Returns (RLookup r))) \<in> set (th_done t)"
  shows "list_ex (\<lambda>(s, _). sel_judged bk exp k s = Some r) seen"
  using hash_table.sel_outcome [OF assms] by (simp add: sel_contract_def Returns_map_outcome sel_saw_def)

theorem sel_lookup_truthful_witness:
  "\<exists>seen. (CGet 3, Returns (seen, Returns (RLookup (Some 80)))) \<in> set (th_done (fst sel_demo_run ! 1)) \<and>
     list_ex (\<lambda>(s, _). sel_judged id sel_demo_exp 3 s = Some (Some 80)) seen"
proof -
  have "list_ex (\<lambda>(op, w). (case op of CGet k \<Rightarrow> k = 3 | _ \<Rightarrow> False) \<and> sh_looked_up (Some 80) w)
      (th_done (fst sel_demo_run ! 1))" by code_simp
  moreover have "(case op of CGet k \<Rightarrow> k = 3 | _ \<Rightarrow> False) \<Longrightarrow> op = CGet 3" for op :: "(nat, nat, unit, sel_own) sh_call"
    by (cases op) simp_all
  ultimately obtain seen where seen: "(CGet 3, Returns (seen, Returns (RLookup (Some 80)))) \<in> set (th_done (fst sel_demo_run ! 1))"
    by (fastforce simp: list_ex_iff dest: sh_looked_upD)
  then have "list_ex (\<lambda>(s, _). sel_judged id sel_demo_exp 3 s = Some (Some 80)) seen"
    by (rule sel_lookup_truthful [OF lt.hash_table_axioms sel_demo_build sel_demo_interleaving sel_demo_thread(2)])
  then show ?thesis using seen by blast
qed

text \<open>
  C40. Only values that say they have expired are swept out of a \<open>ShardedExpiringLruCache\<close>: no step of
  a lookup, of a peek or of an \<open>evict\<close> sweep over all shards, whether the call returned or user code
  panicked in it, takes a value out of the cache or replaces it, unless \<open>is_expired\<close> answers \<open>true\<close> for
  that value in that step.
\<close>

theorem sel_sweeps_spare_live:
  assumes "hash_table T entries" "sel_build parallelism T table_alloc list_alloc random now b = Inr c"
    and "interleaving (observed (sel_body T bk exp)) (map fresh_thread opss, c) (ts, d)"
    and "t \<in> set ts" "(op, Returns (seen, out)) \<in> set (th_done t)" "sparing op"
  shows "sel_spares bk exp seen"
  using hash_table.sel_outcome [OF assms(1-5)] assms(6) by (simp add: sel_contract_def)

theorem sel_sweeps_spare_live_witness:
  "\<exists>seen out. (CEvict, Returns (seen, out)) \<in> set (th_done (fst sel_demo_run ! 0)) \<and> sel_spares id sel_demo_exp seen"
proof -
  have "list_ex sh_swept (th_done (fst sel_demo_run ! 0))" by code_simp
  then obtain seen out where seen: "(CEvict, Returns (seen, out)) \<in> set (th_done (fst sel_demo_run ! 0))"
    using sh_sweptD by blast
  then have "sel_spares id sel_demo_exp seen"
    by (rule sel_sweeps_spare_live [OF lt.hash_table_axioms sel_demo_build sel_demo_interleaving sel_demo_thread(1)]) simp
  then show ?thesis using seen by blast
qed

end
