(* ===== verification/Macro_Helpers.thy ===== *)
theory Macro_Helpers
  imports Prelude
begin

text \<open>
  The part of \<open>cached_proc_macro/src/helpers.rs\<close> that decides: which attribute lists are refused, what is
  the type of the stored value and of the key, and which lifetime a static gets. The macros work on
  syntax trees of the crates \<open>syn\<close> and \<open>darling\<close>; the trees are modelled as far as the macros look
  into them, and their parsers are parameters. The position of an error in the source text is not
  modelled: an error is the diagnostic.
\<close>

section \<open>Syntax trees\<close>

datatype (plugins only: code size) rust_type =
    TyPath "path_segment list"
  | TyReference rust_type
  | TyOther string
and path_segment = PathSegment (seg_ident: string) (seg_args: path_arguments)
and path_arguments = ArgsNone | ArgsAngle "generic_argument list" | ArgsParen
and generic_argument = GenType rust_type | GenOther string

datatype return_type = ReturnDefault | ReturnTyped rust_type

datatype rust_pat = PatIdent bool string | PatOther string

datatype fn_arg = Receiver | Typed rust_pat rust_type

datatype (plugins only: code size) rust_expr =
    ExprLit string
  | ExprBlock bool bool "rust_stmt list"
  | ExprOther string
and rust_stmt = StmtExpr rust_expr | StmtOther string

text \<open>An entry of an attribute list: its name, when it has a simple one, or a bare literal.\<close>

datatype nested_meta = MetaNamed string | MetaPath | MetaLit

text \<open>The parsers of \<open>syn\<close>.\<close>

record syn_parsers =
  parse_type :: "string \<Rightarrow> rust_type option"
  parse_expr :: "string \<Rightarrow> rust_expr option"
  parse_visibility :: "string \<Rightarrow> bool"
  parse_ident :: "string \<Rightarrow> bool"

section \<open>Diagnostics\<close>

datatype (plugins only: code size) macro_error =
    ConcurrentOnly string
  | CompanionsVisUnparsable
  | SelfWithoutInImpl
  | InImplWithoutSelf
  | CompanionsVisInert
  | GenericWithoutConvert
  | MaxSizeZero
  | ExpiresConflict string
  | TtlExclusive
  | TtlSecsZero
  | TtlMillisZero
  | TtlUnparsable
  | Removed string
  | RefreshWithoutTtl
  | WithCachedFlagType
  | CacheErrNotResult
  | CacheNoneNotOption
  | CacheErrFallback
  | FallbackWithFlag
  | CacheNoneWithFlag
  | ResultAndOption
  | NoInnerReturnType
  | NoInnerType
  | TypeTooComplex
  | NameNotIdent
  | NameReserved
  | KeyUnparsable
  | KeyWithoutConvert
  | ConvertWithoutKey
  | CreateConflict "string list"
  | CacheTypeUnparsable
  | TyWithoutCreate
  | CreateWithoutTy
  | StoresExclusive
  | BucketsInert
  | BucketsZero
  | FallbackWithSyncWrites
  | FallbackNotResult
  | FallbackStore
  | UnsyncMutex
  | UnsyncStore
  | ForceRefreshLiteral

section \<open>Sequencing of checks\<close>

definition try_then :: "'e + 'a \<Rightarrow> ('a \<Rightarrow> 'e + 'b) \<Rightarrow> 'e + 'b" where
  "try_then r k = (case r of Inl e \<Rightarrow> Inl e | Inr x \<Rightarrow> k x)"

text \<open>The first check that holds is the error that is reported.\<close>

fun first_error :: "(bool \<times> 'e) list \<Rightarrow> 'e + unit" where
  "first_error [] = Inr ()"
| "first_error ((bad, e) # checks) = (if bad then Inl e else first_error checks)"

lemma first_error_Inr: "first_error checks = Inr () \<longleftrightarrow> (\<forall>(bad, e) \<in> set checks. \<not> bad)"
  by (induction checks rule: first_error.induct) auto

declare first_error.simps [simp del]

lemma try_then_Inr: "try_then r k = Inr y \<longleftrightarrow> (\<exists>x. r = Inr x \<and> k x = Inr y)"
  by (simp add: try_then_def split: sum.split)

lemma try_then_simps [simp]: "try_then (Inl e) k = Inl e" "try_then (Inr x) k = k x"
  by (simp_all add: try_then_def)

section \<open>Attribute lists\<close>

definition reject_concurrent_only_attrs :: "nested_meta list \<Rightarrow> macro_error + unit" where
  "reject_concurrent_only_attrs attrs =
     (case find (\<lambda>m. case m of MetaNamed n \<Rightarrow>
           n \<in> {''disk'', ''redis'', ''map_error'', ''shards'', ''durable'', ''disk_dir'', ''cache_prefix_block''}
         | _ \<Rightarrow> False) attrs of
       Some (MetaNamed n) \<Rightarrow> Inl (ConcurrentOnly n)
     | _ \<Rightarrow> Inr ())"

text \<open>What the \<open>Duration\<close> token of the generated code is.\<close>

datatype ttl_tokens = TtlTokens rust_expr | FromSecs u64 | FromMillis u64

definition resolve_ttl_duration :: "syn_parsers \<Rightarrow> string option \<Rightarrow> u64 option \<Rightarrow> u64 option
    \<Rightarrow> macro_error + (bool \<times> ttl_tokens option)" where
  "resolve_ttl_duration syn ttl ttl_secs ttl_millis =
     (let set_count = of_bool (\<not> Option.is_none ttl) + of_bool (\<not> Option.is_none ttl_secs)
        + of_bool (\<not> Option.is_none ttl_millis) :: nat in
      if set_count > 1 then Inl TtlExclusive
      else if ttl_secs = Some 0 then Inl TtlSecsZero
      else if ttl_millis = Some 0 then Inl TtlMillisZero
      else try_then
        (case ttl of
           Some text \<Rightarrow> (case parse_expr syn text of None \<Rightarrow> Inl TtlUnparsable | Some e \<Rightarrow> Inr (Some (TtlTokens e)))
         | None \<Rightarrow> (case ttl_secs of
             Some secs \<Rightarrow> Inr (Some (FromSecs secs))
           | None \<Rightarrow> Inr (map_option FromMillis ttl_millis)))
        (\<lambda>ttl_duration. Inr (\<not> Option.is_none ttl_duration, ttl_duration)))"

datatype sync_write_mode = Disabled | Default | ByKey

definition sync_write_mode_from_word :: sync_write_mode where
  "sync_write_mode_from_word = Default"

definition sync_write_mode_from_bool :: "bool \<Rightarrow> sync_write_mode" where
  "sync_write_mode_from_bool value = (if value then Default else Disabled)"

definition sync_write_mode_from_string :: "string \<Rightarrow> sync_write_mode option" where
  "sync_write_mode_from_string value =
     (if value = ''default'' \<or> value = ''true'' then Some Default
      else if value = ''by_key'' then Some ByKey
      else if value = ''false'' \<or> value = ''disabled'' then Some Disabled
      else None)"

definition validate_sync_writes_buckets :: "usize \<Rightarrow> macro_error + unit" where
  "validate_sync_writes_buckets buckets = (if buckets = 0 then Inl BucketsZero else Inr ())"

section \<open>Return types\<close>

definition is_path_with_args :: "string \<Rightarrow> return_type \<Rightarrow> bool" where
  "is_path_with_args name output = (case output of
       ReturnTyped (TyPath segs) \<Rightarrow> segs \<noteq> [] \<and>
         (case seg_args (last segs) of ArgsNone \<Rightarrow> False | _ \<Rightarrow> True) \<and> seg_ident (last segs) = name
     | _ \<Rightarrow> False)"

definition is_result_return_type :: "return_type \<Rightarrow> bool" where
  "is_result_return_type = is_path_with_args ''Result''"

definition is_option_return_type :: "return_type \<Rightarrow> bool" where
  "is_option_return_type = is_path_with_args ''Option''"

text \<open>What is stored: the type of the function, or the first argument of its last path segment.\<close>

datatype value_type = WholeReturn return_type | InnerArg generic_argument

definition find_value_type :: "bool \<Rightarrow> bool \<Rightarrow> return_type \<Rightarrow> macro_error + value_type" where
  "find_value_type is_smart_result is_smart_option output =
     (case (is_smart_result, is_smart_option) of
        (False, False) \<Rightarrow> Inr (WholeReturn output)
      | (True, True) \<Rightarrow> Inl ResultAndOption
      | _ \<Rightarrow> (case output of
          ReturnDefault \<Rightarrow> Inl NoInnerReturnType
        | ReturnTyped (TyPath segs) \<Rightarrow>
            if segs = [] then Inl TypeTooComplex
            else (case seg_args (last segs) of
                ArgsAngle (a # as) \<Rightarrow> Inr (InnerArg a)
              | _ \<Rightarrow> Inl NoInnerType)
        | ReturnTyped _ \<Rightarrow> Inl TypeTooComplex))"

definition first_type_arg :: "rust_type \<Rightarrow> macro_error \<Rightarrow> macro_error \<Rightarrow> macro_error + generic_argument" where
  "first_type_arg ty not_path no_arg = (case ty of
       TyPath segs \<Rightarrow>
         if segs = [] then Inl no_arg
         else (case seg_args (last segs) of ArgsAngle (a # as) \<Rightarrow> Inr a | _ \<Rightarrow> Inl no_arg)
     | _ \<Rightarrow> Inl not_path)"

fun first_gen_type :: "generic_argument list \<Rightarrow> rust_type option" where
  "first_gen_type [] = None"
| "first_gen_type (GenType t # args) = Some t"
| "first_gen_type (GenOther s # args) = first_gen_type args"

lemma first_gen_type_size: "first_gen_type args = Some t \<Longrightarrow> size t < size_list size args"
  by (induction args rule: first_gen_type.induct) auto

text \<open>\<open>Return<T>\<close> or \<open>cached::Return<T>\<close>, under any number of \<open>Result\<close> and \<open>Option\<close> wrappers.\<close>

definition descend :: "path_arguments \<Rightarrow> rust_type option" where
  "descend args = (case args of ArgsAngle as \<Rightarrow> first_gen_type as | _ \<Rightarrow> None)"

lemma descend_size: "segs \<noteq> [] \<Longrightarrow> descend (seg_args (last segs)) = Some t \<Longrightarrow> size t < Suc (size_list size segs)"
proof -
  assume s: "segs \<noteq> []" and d: "descend (seg_args (last segs)) = Some t"
  obtain n args where l: "last segs = PathSegment n args" by (cases "last segs")
  obtain as where "args = ArgsAngle as" "first_gen_type as = Some t"
    using d l by (auto simp: descend_def split: path_arguments.splits)
  then have "size t < size (last segs)" using first_gen_type_size [of as t] l by simp
  also have "\<dots> \<le> size_list size segs"
    using size_list_estimation' [of "last segs" segs "size (last segs)" size] s by simp
  finally show ?thesis by simp
qed

function type_is_cached_return :: "rust_type \<Rightarrow> bool" where
  "type_is_cached_return (TyPath segs) =
     (if segs = [] then False
      else if seg_ident (last segs) = ''Result'' \<or> seg_ident (last segs) = ''Option''
      then (case descend (seg_args (last segs)) of
          Some inner \<Rightarrow> type_is_cached_return inner
        | None \<Rightarrow> False)
      else map seg_ident segs = [''Return''] \<or> map seg_ident segs = [''cached'', ''Return''])"
| "type_is_cached_return (TyReference t) = False"
| "type_is_cached_return (TyOther s) = False"
  by pat_completeness auto
termination by (relation "measure size") (auto dest: descend_size)

definition check_with_cache_flag :: "bool \<Rightarrow> return_type \<Rightarrow> bool" where
  "check_with_cache_flag with_cached_flag output =
     (if \<not> with_cached_flag then False
      else case output of
          ReturnDefault \<Rightarrow> True
        | ReturnTyped ty \<Rightarrow> \<not> type_is_cached_return ty)"

section \<open>Arguments and keys\<close>

definition match_pattern_type :: "rust_pat \<Rightarrow> rust_pat" where
  "match_pattern_type p = (case p of PatIdent _ n \<Rightarrow> PatIdent False n | PatOther s \<Rightarrow> PatOther s)"

definition get_mut_signature :: "fn_arg list \<Rightarrow> fn_arg list" where
  "get_mut_signature inputs = map (\<lambda>i. case i of Receiver \<Rightarrow> Receiver | Typed p t \<Rightarrow> Typed (match_pattern_type p) t) inputs"

definition get_input_names :: "fn_arg list \<Rightarrow> rust_pat list" where
  "get_input_names inputs = List.map_filter (\<lambda>i. case i of Receiver \<Rightarrow> None | Typed p t \<Rightarrow> Some (match_pattern_type p)) inputs"

definition get_input_types :: "fn_arg list \<Rightarrow> rust_type list" where
  "get_input_types inputs = List.map_filter (\<lambda>i. case i of Receiver \<Rightarrow> None | Typed p t \<Rightarrow> Some t) inputs"

definition strip_ref :: "rust_type \<Rightarrow> rust_type option" where
  "strip_ref ty = (case ty of TyReference t \<Rightarrow> Some t | _ \<Rightarrow> None)"

definition option_ref_inner :: "rust_type \<Rightarrow> rust_type option" where
  "option_ref_inner ty = (case ty of
       TyPath segs \<Rightarrow>
         if segs = [] \<or> seg_ident (last segs) \<noteq> ''Option'' then None
         else (case seg_args (last segs) of
             ArgsAngle (GenType inner # as) \<Rightarrow> strip_ref inner
           | _ \<Rightarrow> None)
     | _ \<Rightarrow> None)"

text \<open>
  A component of a default key: the type and the expression that owns it. \<open>KeyOwned\<close> is
  \<open><T as ToOwned>::Owned\<close> from \<open>name.to_owned()\<close>, \<open>KeyOptionOwned\<close> is the same under \<open>Option\<close>, from
  \<open>name.as_deref().map(to_owned)\<close>, and \<open>KeyClone\<close> is \<open>T\<close> from \<open>name.clone()\<close>.
\<close>

datatype key_part = KeyOwned rust_type rust_pat | KeyOptionOwned rust_type rust_pat | KeyClone rust_type rust_pat

definition key_part_of :: "rust_type \<Rightarrow> rust_pat \<Rightarrow> key_part" where
  "key_part_of ty name = (case strip_ref ty of
       Some inner \<Rightarrow> KeyOwned inner name
     | None \<Rightarrow> (case option_ref_inner ty of
         Some inner \<Rightarrow> KeyOptionOwned inner name
       | None \<Rightarrow> KeyClone ty name))"

definition expr_to_block :: "rust_expr \<Rightarrow> rust_stmt list" where
  "expr_to_block e = (case e of ExprBlock attrs label stmts \<Rightarrow> stmts | _ \<Rightarrow> [StmtExpr e])"

definition expr_value_tokens :: "rust_expr \<Rightarrow> rust_expr" where
  "expr_value_tokens e = (case e of
       ExprBlock False False [StmtExpr inner] \<Rightarrow> inner
     | _ \<Rightarrow> e)"

datatype key_plan =
    KeyGiven rust_type "rust_stmt list"
  | KeyInferred "rust_stmt list"
  | KeyTuple "key_part list"

definition make_cache_key_type :: "syn_parsers \<Rightarrow> string option \<Rightarrow> rust_expr option \<Rightarrow> string option
    \<Rightarrow> rust_type list \<Rightarrow> rust_pat list \<Rightarrow> macro_error + key_plan" where
  "make_cache_key_type syn key convert ty input_tys input_names = (case (key, convert, ty) of
       (Some key_str, Some convert_expr, _) \<Rightarrow> (case parse_type syn key_str of
           None \<Rightarrow> Inl KeyUnparsable
         | Some key_ty \<Rightarrow> Inr (KeyGiven key_ty (expr_to_block convert_expr)))
     | (None, Some convert_expr, Some _) \<Rightarrow> Inr (KeyInferred (expr_to_block convert_expr))
     | (None, None, _) \<Rightarrow> Inr (KeyTuple (map2 key_part_of input_tys input_names))
     | (Some _, None, _) \<Rightarrow> Inl KeyWithoutConvert
     | (None, Some _, None) \<Rightarrow> Inl ConvertWithoutKey)"

section \<open>\<open>force_refresh\<close>\<close>

definition parse_force_refresh_block :: "rust_expr option \<Rightarrow> macro_error + rust_stmt list option" where
  "parse_force_refresh_block force_refresh = (case force_refresh of
       Some (ExprLit s) \<Rightarrow> Inl ForceRefreshLiteral
     | Some e \<Rightarrow> Inr (Some (expr_to_block e))
     | None \<Rightarrow> Inr None)"

section \<open>Facts\<close>

lemma not_result_and_option: "is_result_return_type output \<Longrightarrow> \<not> is_option_return_type output"
  by (auto simp: is_result_return_type_def is_option_return_type_def is_path_with_args_def
      split: return_type.splits rust_type.splits)

lemma resolve_ttl_has: "resolve_ttl_duration syn ttl secs millis = Inr (has_ttl, d) \<Longrightarrow> has_ttl \<longleftrightarrow> d \<noteq> None"
  by (auto simp: resolve_ttl_duration_def Let_def try_then_Inr Option.is_none_def split: if_splits)

lemma resolve_ttl_positive:
  assumes "resolve_ttl_duration syn ttl secs millis = Inr (has_ttl, Some d)"
  shows "d \<noteq> FromSecs 0" "d \<noteq> FromMillis 0"
  using assms by (auto simp: resolve_ttl_duration_def Let_def try_then_Inr split: if_splits option.splits)

end
