(* ===== verification/Memo_Cached.thy ===== *)
theory Memo_Cached
  imports Store_Common Concurrent Macro_Helpers
begin

text \<open>
  \<open>cached_proc_macro/src/cached.rs\<close>: the function that \<open>#[cached]\<close> generates. The attribute turns a
  function into a wrapper around its body (\<open>fn_no_cache\<close>) and a static store behind a lock. The
  wrapper converts the arguments to a key, looks the key up, and on a miss runs the body and stores the
  result. The definitions below are the token blocks that the macro quotes, as sequences of atomic
  steps over the static: a critical section of the cache lock is one step that waits for the lock, and
  the body runs between the steps of other threads, with the cache lock held only under
  \<open>sync_writes = true\<close>. \<open>clock i\<close> is the reading of the clock that the \<open>i\<close>-th critical section of a call
  sees. The store is a parameter of the wrapper, as the type of the static is one of the macro.
\<close>

section \<open>What is stored and what is returned\<close>

text \<open>
  \<open>Return<T>\<close> of \<open>cached_proc_macro_types\<close>, for functions with \<open>with_cached_flag\<close>.
\<close>

record 'a returned =
  was_cached :: bool
  ret_value :: 'a

definition returned_new :: "'a \<Rightarrow> 'a returned" where
  "returned_new x = \<lparr>was_cached = False, ret_value = x\<rparr>"

definition set_was_cached :: "bool \<Rightarrow> 'a returned \<Rightarrow> 'a returned" where
  "set_was_cached b r = r\<lparr>was_cached := b\<rparr>"

definition into_inner :: "'a returned \<Rightarrow> 'a" where
  "into_inner r = ret_value r"

text \<open>
  The pair of \<open>set_cache_block\<close> and \<open>return_cache_block\<close>: \<open>vs_inner\<close> says what of a result goes into the
  store, if anything does, and \<open>vs_hit\<close> makes the result of a hit from a stored value. A \<open>Result\<close> is stored
  only when it is \<open>Ok\<close>, an \<open>Option\<close> only when it is \<open>Some\<close>, and any other result (or one forced by
  \<open>cache_err\<close> or \<open>cache_none\<close>) as it is.
\<close>

record ('r, 'v) value_shape =
  vs_inner :: "'r \<Rightarrow> 'v option"
  vs_hit :: "'v \<Rightarrow> 'r"

definition whole_shape :: "('r, 'r) value_shape" where
  "whole_shape = \<lparr>vs_inner = Some, vs_hit = (\<lambda>v. v)\<rparr>"

definition result_shape :: "('e + 'v, 'v) value_shape" where
  "result_shape = \<lparr>vs_inner = (\<lambda>r. case r of Inl e \<Rightarrow> None | Inr v \<Rightarrow> Some v), vs_hit = Inr\<rparr>"

definition option_shape :: "('v option, 'v) value_shape" where
  "option_shape = \<lparr>vs_inner = (\<lambda>r. r), vs_hit = Some\<rparr>"

text \<open>\<open>with_cached_flag\<close>: a hit is returned with the flag raised.\<close>

definition flagged_shape :: "('r, 'a returned) value_shape \<Rightarrow> ('r, 'a returned) value_shape" where
  "flagged_shape sh = sh\<lparr>vs_hit := (\<lambda>v. vs_hit sh (set_was_cached True v))\<rparr>"

section \<open>The static and its locks\<close>

text \<open>
  The static: the store, whether its write lock is held across a step, and for \<open>sync_writes = "by_key"\<close>
  (\<open>KeyedCache\<close> of \<open>src/lib.rs\<close>) which of the bucket locks are held. \<open>ms_user\<close> is whatever else the body
  of the function works on.
\<close>

record ('c, 'u) memo_state =
  ms_cache :: 'c
  ms_locked :: bool
  ms_buckets :: "bool list"
  ms_user :: 'u

definition keyed_cache_new :: "'c \<Rightarrow> usize \<Rightarrow> 'u \<Rightarrow> ('c, 'u) memo_state" where
  "keyed_cache_new c n u = \<lparr>ms_cache = c, ms_locked = False, ms_buckets = replicate n False, ms_user = u\<rparr>"

text \<open>\<open>hash\<close> is the randomly seeded hasher of the static.\<close>

definition bucket_for :: "('k \<Rightarrow> u64) \<Rightarrow> 'k \<Rightarrow> ('c, 'u) memo_state \<Rightarrow> usize" where
  "bucket_for hash key s = unat (hash key) mod length (ms_buckets s)"

definition ms_on :: "('c, 'a) comp \<Rightarrow> (('c, 'u) memo_state, 'a) comp" where
  "ms_on m s = (case m (ms_cache s) of (r, c) \<Rightarrow> (r, s\<lparr>ms_cache := c\<rparr>))"

text \<open>A critical section that ends with the step, and one under a lock that is already held.\<close>

definition ms_section :: "('c, 'a) comp \<Rightarrow> (('c, 'u) memo_state, 'a) proc" where
  "ms_section m = await_then (\<lambda>s. \<not> ms_locked s) (ms_on m)"

definition ms_held :: "('c, 'a) comp \<Rightarrow> (('c, 'u) memo_state, 'a) proc" where
  "ms_held m = atomically (ms_on m)"

definition ms_lock :: "(('c, 'u) memo_state, unit) proc" where
  "ms_lock = await_then (\<lambda>s. \<not> ms_locked s) (modify (\<lambda>s. s\<lparr>ms_locked := True\<rparr>))"

definition ms_unlock :: "('c, 'u) memo_state \<Rightarrow> ('c, 'u) memo_state" where
  "ms_unlock s = s\<lparr>ms_locked := False\<rparr>"

definition ms_lock_bucket :: "('k \<Rightarrow> u64) \<Rightarrow> 'k \<Rightarrow> (('c, 'u) memo_state, unit) proc" where
  "ms_lock_bucket hash key = await_then
     (\<lambda>s. \<not> ms_buckets s ! bucket_for hash key s)
     (modify (\<lambda>s. s\<lparr>ms_buckets := (ms_buckets s)[bucket_for hash key s := True]\<rparr>))"

definition ms_unlock_bucket :: "('k \<Rightarrow> u64) \<Rightarrow> 'k \<Rightarrow> ('c, 'u) memo_state \<Rightarrow> ('c, 'u) memo_state" where
  "ms_unlock_bucket hash key s = s\<lparr>ms_buckets := (ms_buckets s)[bucket_for hash key s := False]\<rparr>"

section \<open>The blocks of the wrapper\<close>

text \<open>
  What the macro takes from the annotated function and its attributes: the store calls \<open>cache_get\<close> and
  \<open>cache_set\<close> of the type of the static, the key conversion, the body, the shape of the stored value,
  the \<open>force_refresh\<close> block (user code over the arguments), and the hasher of the buckets.
\<close>

record ('a, 'k, 'v, 'r, 'c, 'u) cached_fn =
  cf_get :: "instant \<Rightarrow> 'k \<Rightarrow> ('c, 'v option) comp"
  cf_set :: "instant \<Rightarrow> 'k \<Rightarrow> 'v \<Rightarrow> ('c, 'v option) comp"
  cf_key :: "'a \<Rightarrow> 'k"
  cf_body :: "'a \<Rightarrow> (('c, 'u) memo_state, 'r) proc"
  cf_shape :: "('r, 'v) value_shape"
  cf_force_refresh :: "('a \<Rightarrow> bool outcome) option"
  cf_hash :: "'k \<Rightarrow> u64"

text \<open>\<open>build_force_refresh_guard\<close>: \<open>if !(block)\<close>, or \<open>if true\<close> without the attribute.\<close>

definition force_refresh_guard :: "('a, 'k, 'v, 'r, 'c, 'u) cached_fn \<Rightarrow> 'a \<Rightarrow> bool outcome" where
  "force_refresh_guard F x = (case cf_force_refresh F of
       Some block \<Rightarrow> map_outcome Not (block x)
     | None \<Rightarrow> Returns True)"

text \<open>
  \<open>cache_get_return_block\<close>: the guard wraps the whole lookup, so a bypassed entry is not even read.
  \<open>read\<close> is \<open>cache_get\<close>, or \<open>cache_get_read\<close> under \<open>unsync_reads\<close>.
\<close>

definition cache_get_return_block :: "('a, 'k, 'v, 'r, 'c, 'u) cached_fn \<Rightarrow> ('c, 'v option) comp \<Rightarrow> 'a
    \<Rightarrow> ('c, 'v option) comp" where
  "cache_get_return_block F read x =
     andthen (run_closure (force_refresh_guard F x)) (\<lambda>taken. if taken then read else ret None)"

definition set_cache_block :: "('a, 'k, 'v, 'r, 'c, 'u) cached_fn \<Rightarrow> instant \<Rightarrow> 'k \<Rightarrow> 'r \<Rightarrow> ('c, unit) comp" where
  "set_cache_block F now key r = (case vs_inner (cf_shape F) r of
       Some v \<Rightarrow> andthen (cf_set F now key v) (\<lambda>_. ret ())
     | None \<Rightarrow> ret ())"

text \<open>A hit returns; otherwise the rest of the wrapper runs.\<close>

definition return_cache_block :: "('a, 'k, 'v, 'r, 'c, 'u) cached_fn \<Rightarrow> 'v option
    \<Rightarrow> (('c, 'u) memo_state, 'r) proc \<Rightarrow> (('c, 'u) memo_state, 'r) proc" where
  "return_cache_block F found rest = (case found of Some v \<Rightarrow> pret (vs_hit (cf_shape F) v) | None \<Rightarrow> rest)"

section \<open>The wrapper in each mode\<close>

text \<open>\<open>sync_writes = false\<close>, the default: the body runs without any lock.\<close>

definition cached_disabled :: "('a, 'k, 'v, 'r, 'c, 'u) cached_fn \<Rightarrow> (instant \<Rightarrow> 'k \<Rightarrow> ('c, 'v option) comp)
    \<Rightarrow> (nat \<Rightarrow> instant) \<Rightarrow> 'a \<Rightarrow> (('c, 'u) memo_state, 'r) proc" where
  "cached_disabled F read clock x =
     pbind (ms_section (cache_get_return_block F (read (clock 0) (cf_key F x)) x)) (\<lambda>found.
     return_cache_block F found
       (pbind (cf_body F x) (\<lambda>r.
        pbind (ms_section (set_cache_block F (clock 1) (cf_key F x) r)) (\<lambda>_.
        pret r))))"

text \<open>\<open>sync_writes = true\<close>: the write lock of the cache is held from the lookup to the store.\<close>

definition cached_default :: "('a, 'k, 'v, 'r, 'c, 'u) cached_fn \<Rightarrow> (nat \<Rightarrow> instant) \<Rightarrow> 'a
    \<Rightarrow> (('c, 'u) memo_state, 'r) proc" where
  "cached_default F clock x =
     pbind ms_lock (\<lambda>_. pfinal
       (pbind (ms_held (cache_get_return_block F (cf_get F (clock 0) (cf_key F x)) x)) (\<lambda>found.
        return_cache_block F found
          (pbind (cf_body F x) (\<lambda>r.
           pbind (ms_held (set_cache_block F (clock 1) (cf_key F x) r)) (\<lambda>_.
           pret r)))))
       ms_unlock)"

text \<open>
  \<open>sync_writes = true\<close> with \<open>unsync_reads\<close>: a first look under the read lock, then a second one under the
  write lock. The \<open>force_refresh\<close> block is evaluated once, before both.
\<close>

definition cached_default_unsync :: "('a, 'k, 'v, 'r, 'c, 'u) cached_fn \<Rightarrow> (instant \<Rightarrow> 'k \<Rightarrow> ('c, bool) comp)
    \<Rightarrow> (instant \<Rightarrow> 'k \<Rightarrow> ('c, 'v option) comp) \<Rightarrow> (nat \<Rightarrow> instant) \<Rightarrow> 'a \<Rightarrow> (('c, 'u) memo_state, 'r) proc" where
  "cached_default_unsync F peek_is_some get_read clock x =
     pbind (atomically (run_closure (force_refresh_guard F x))) (\<lambda>taken.
     pbind (ms_section (if taken
         then andthen (peek_is_some (clock 0) (cf_key F x)) (\<lambda>there.
           if there then get_read (clock 0) (cf_key F x) else ret None)
         else ret None)) (\<lambda>found.
     return_cache_block F found
       (pbind ms_lock (\<lambda>_. pfinal
         (pbind (ms_held (if taken then cf_get F (clock 1) (cf_key F x) else ret None)) (\<lambda>found.
          return_cache_block F found
            (pbind (cf_body F x) (\<lambda>r.
             pbind (ms_held (set_cache_block F (clock 2) (cf_key F x) r)) (\<lambda>_.
             pret r)))))
         ms_unlock))))"

text \<open>\<open>sync_writes = "by_key"\<close>: the lock of the bucket of the key is held for the whole call.\<close>

definition cached_by_key :: "('a, 'k, 'v, 'r, 'c, 'u) cached_fn \<Rightarrow> (instant \<Rightarrow> 'k \<Rightarrow> ('c, 'v option) comp)
    \<Rightarrow> (nat \<Rightarrow> instant) \<Rightarrow> 'a \<Rightarrow> (('c, 'u) memo_state, 'r) proc" where
  "cached_by_key F read clock x =
     pbind (ms_lock_bucket (cf_hash F) (cf_key F x)) (\<lambda>_. pfinal
       (cached_disabled F read clock x)
       (ms_unlock_bucket (cf_hash F) (cf_key F x)))"

text \<open>
  \<open>result_fallback\<close>: an \<open>Err\<close> of the body is replaced by the last stored \<open>Ok\<close>, expired or not, and that
  value is stored again. The first section only serves a fresh hit; with \<open>force_refresh\<close> it peeks and
  discards.
\<close>

definition fallback_lookup :: "('a, 'k, 'v, 'r, 'c, 'u) cached_fn
    \<Rightarrow> ('c, 'v option \<times> bool) comp \<Rightarrow> ('c, 'v option \<times> bool) comp \<Rightarrow> bool \<Rightarrow> ('c, 'v option) comp" where
  "fallback_lookup F get_status peek_status taken =
     (if taken then andthen get_status (\<lambda>(found, has_expired). ret (if has_expired then None else found))
      else andthen peek_status (\<lambda>_. ret None))"

definition fallback_set :: "('a, 'k, 'v, 'r, 'c, 'u) cached_fn \<Rightarrow> ('c, 'v option \<times> bool) comp \<Rightarrow> instant \<Rightarrow> 'k
    \<Rightarrow> 'r \<Rightarrow> ('c, 'r) comp" where
  "fallback_set F peek_status now key r =
     andthen
       (case vs_inner (cf_shape F) r of
          None \<Rightarrow> andthen peek_status (\<lambda>(fallback, _). ret (case fallback of
              Some v \<Rightarrow> vs_hit (cf_shape F) v
            | None \<Rightarrow> r))
        | Some _ \<Rightarrow> ret r) (\<lambda>r.
     andthen (set_cache_block F now key r) (\<lambda>_. ret r))"

definition cached_fallback :: "('a, 'k, 'v, 'r, 'c, 'u) cached_fn
    \<Rightarrow> (instant \<Rightarrow> 'k \<Rightarrow> ('c, 'v option \<times> bool) comp) \<Rightarrow> (instant \<Rightarrow> 'k \<Rightarrow> ('c, 'v option \<times> bool) comp)
    \<Rightarrow> (nat \<Rightarrow> instant) \<Rightarrow> 'a \<Rightarrow> (('c, 'u) memo_state, 'r) proc" where
  "cached_fallback F get_status peek_status clock x =
     pbind (atomically (run_closure (force_refresh_guard F x))) (\<lambda>taken.
     pbind (ms_section (fallback_lookup F (get_status (clock 0) (cf_key F x))
        (peek_status (clock 0) (cf_key F x)) taken)) (\<lambda>found.
     return_cache_block F found
       (pbind (cf_body F x) (\<lambda>r.
        ms_section (fallback_set F (peek_status (clock 1) (cf_key F x)) (clock 1) (cf_key F x) r)))))"

text \<open>
  \<open>fn_prime_cache\<close> runs the body before it takes any lock, then stores the result; under \<open>by_key\<close> the
  store happens with the lock of the bucket held.
\<close>

definition cached_prime :: "('a, 'k, 'v, 'r, 'c, 'u) cached_fn \<Rightarrow> bool \<Rightarrow> (nat \<Rightarrow> instant) \<Rightarrow> 'a
    \<Rightarrow> (('c, 'u) memo_state, 'r) proc" where
  "cached_prime F by_key clock x =
     pbind (cf_body F x) (\<lambda>r.
     if by_key
     then pbind (ms_lock_bucket (cf_hash F) (cf_key F x)) (\<lambda>_. pfinal
       (pbind (ms_section (set_cache_block F (clock 0) (cf_key F x) r)) (\<lambda>_. pret r))
       (ms_unlock_bucket (cf_hash F) (cf_key F x)))
     else pbind (ms_section (set_cache_block F (clock 0) (cf_key F x) r)) (\<lambda>_. pret r))"

section \<open>The wrapper that the attributes select\<close>

text \<open>The calls of \<open>CachedRead\<close>, \<open>CachedPeek\<close> and \<open>CloneCached\<close>, where the store has them.\<close>

record ('c, 'k, 'v) memo_traits =
  mt_get_read :: "instant \<Rightarrow> 'k \<Rightarrow> ('c, 'v option) comp"
  mt_peek_is_some :: "instant \<Rightarrow> 'k \<Rightarrow> ('c, bool) comp"
  mt_get_status :: "instant \<Rightarrow> 'k \<Rightarrow> ('c, 'v option \<times> bool) comp"
  mt_peek_status :: "instant \<Rightarrow> 'k \<Rightarrow> ('c, 'v option \<times> bool) comp"

definition do_set_return_block :: "('a, 'k, 'v, 'r, 'c, 'u) cached_fn \<Rightarrow> ('c, 'k, 'v) memo_traits
    \<Rightarrow> sync_write_mode \<Rightarrow> bool \<Rightarrow> bool \<Rightarrow> (nat \<Rightarrow> instant) \<Rightarrow> 'a \<Rightarrow> (('c, 'u) memo_state, 'r) proc" where
  "do_set_return_block F tr sync_writes unsync_reads result_fallback clock x =
     (let read = (if unsync_reads then mt_get_read tr else cf_get F) in
      case sync_writes of
        ByKey \<Rightarrow> cached_by_key F read clock x
      | Default \<Rightarrow>
          if unsync_reads then cached_default_unsync F (mt_peek_is_some tr) (mt_get_read tr) clock x
          else cached_default F clock x
      | Disabled \<Rightarrow>
          if result_fallback then cached_fallback F (mt_get_status tr) (mt_peek_status tr) clock x
          else cached_disabled F read clock x)"

end
