(* ===== verification/Memo_Sound.thy ===== *)
theory Memo_Sound
  imports Memo_Cached
begin

text \<open>
  Memoization is sound: whatever the mode and however the calls of all threads interleave, a call
  returns what the body returned for these arguments, or what the body returned for arguments with the
  same key. The store enters through a contract, the locale \<open>memo_store\<close>: a lookup hands out a value
  that is stored under the key, and an update stores nothing but the value it was given.
\<close>

section \<open>The contract of a store\<close>

text \<open>
  \<open>contents c\<close> are the values that \<open>c\<close> can still hand out, live or expired, with the keys under which
  they are stored.
\<close>

definition draws :: "('c \<Rightarrow> bool) \<Rightarrow> ('c \<Rightarrow> ('q \<times> 'v) set) \<Rightarrow> ('x \<Rightarrow> 'v option) \<Rightarrow> 'q \<Rightarrow> ('c, 'x) comp \<Rightarrow> bool" where
  "draws ok contents found q m \<longleftrightarrow> (\<forall>c. ok c \<longrightarrow> ok (snd (m c)) \<and> contents (snd (m c)) \<subseteq> contents c \<and>
     (\<exists>x. fst (m c) = Returns x \<and> (\<forall>v. found x = Some v \<longrightarrow> (q, v) \<in> contents c)))"

definition puts :: "('c \<Rightarrow> bool) \<Rightarrow> ('c \<Rightarrow> ('q \<times> 'v) set) \<Rightarrow> 'q \<Rightarrow> 'v \<Rightarrow> ('c, 'x) comp \<Rightarrow> bool" where
  "puts ok contents q v m \<longleftrightarrow> (\<forall>c. ok c \<longrightarrow> ok (snd (m c)) \<and> contents (snd (m c)) \<subseteq> insert (q, v) (contents c) \<and>
     (\<exists>x. fst (m c) = Returns x))"

lemma drawsI:
  "(\<And>c r d. ok c \<Longrightarrow> m c = (r, d) \<Longrightarrow> ok d \<and> contents d \<subseteq> contents c \<and>
     (\<exists>x. r = Returns x \<and> (\<forall>v. found x = Some v \<longrightarrow> (q, v) \<in> contents c))) \<Longrightarrow> draws ok contents found q m"
  unfolding draws_def by (metis prod.collapse)

lemma putsI:
  "(\<And>c r d. ok c \<Longrightarrow> m c = (r, d) \<Longrightarrow> ok d \<and> contents d \<subseteq> insert (q, v) (contents c) \<and> (\<exists>x. r = Returns x)) \<Longrightarrow>
     puts ok contents q v m"
  unfolding puts_def by (metis prod.collapse)

lemma drawsE:
  assumes "draws ok contents found q m" "ok c"
  obtains x d where "m c = (Returns x, d)" "ok d" "contents d \<subseteq> contents c"
    "\<And>v. found x = Some v \<Longrightarrow> (q, v) \<in> contents c"
  using assms unfolding draws_def by (metis prod.collapse)

lemma putsE:
  assumes "puts ok contents q v m" "ok c"
  obtains x d where "m c = (Returns x, d)" "ok d" "contents d \<subseteq> insert (q, v) (contents c)"
  using assms unfolding puts_def by (metis prod.collapse)

text \<open>A value is good when the body produced it for some arguments with that key.\<close>

definition memo_good :: "('k \<Rightarrow> 'q) \<Rightarrow> ('a, 'k, 'v, 'r, 'c, 'u) cached_fn \<Rightarrow> ('a \<Rightarrow> 'r outcome \<Rightarrow> bool)
    \<Rightarrow> 'q \<Rightarrow> 'v \<Rightarrow> bool" where
  "memo_good bk F B q v \<longleftrightarrow> (\<exists>y r. bk (cf_key F y) = q \<and> B y (Returns r) \<and> vs_inner (cf_shape F) r = Some v)"

text \<open>
  What a call may end with: an outcome of the body on its own arguments, a hit on a good value, or the
  panic of the \<open>force_refresh\<close> block.
\<close>

definition memo_allowed :: "('k \<Rightarrow> 'q) \<Rightarrow> ('a, 'k, 'v, 'r, 'c, 'u) cached_fn \<Rightarrow> ('a \<Rightarrow> 'r outcome \<Rightarrow> bool)
    \<Rightarrow> 'a \<Rightarrow> 'r outcome \<Rightarrow> bool" where
  "memo_allowed bk F B x out \<longleftrightarrow> B x out \<or>
     (\<exists>v. memo_good bk F B (bk (cf_key F x)) v \<and> out = Returns (vs_hit (cf_shape F) v)) \<or>
     (case out of Returns _ \<Rightarrow> False
      | Panics \<Rightarrow> force_refresh_guard F x = Panics
      | Diverges \<Rightarrow> force_refresh_guard F x = Diverges)"

definition memo_inv :: "('c \<Rightarrow> bool) \<Rightarrow> ('c \<Rightarrow> ('q \<times> 'v) set) \<Rightarrow> ('q \<Rightarrow> 'v \<Rightarrow> bool) \<Rightarrow> ('c, 'u) memo_state \<Rightarrow> bool" where
  "memo_inv ok contents G s \<longleftrightarrow> ok (ms_cache s) \<and> (\<forall>q v. (q, v) \<in> contents (ms_cache s) \<longrightarrow> G q v)"

lemma memo_inv_locks [simp]:
  "memo_inv ok contents G (ms_unlock s) = memo_inv ok contents G s"
  "memo_inv ok contents G (ms_unlock_bucket hash key s) = memo_inv ok contents G s"
  by (simp_all add: memo_inv_def ms_unlock_def ms_unlock_bucket_def)

lemma memo_lock_safe:
  "safe (memo_inv ok contents G) (\<lambda>out. out = Returns ()) ms_lock"
  "safe (memo_inv ok contents G) (\<lambda>out. out = Returns ()) (ms_lock_bucket hash key)"
  by (auto simp: ms_lock_def ms_lock_bucket_def memo_inv_def modify_def intro!: safe_await_then)

text \<open>A critical section of which every step keeps the invariant.\<close>

lemma memo_section:
  assumes "\<And>c. ok c \<Longrightarrow> (\<forall>q v. (q, v) \<in> contents c \<longrightarrow> G q v) \<Longrightarrow>
      ok (snd (m c)) \<and> (\<forall>q v. (q, v) \<in> contents (snd (m c)) \<longrightarrow> G q v) \<and> Q (fst (m c))"
  shows "safe (memo_inv ok contents G) Q (ms_section m)" "safe (memo_inv ok contents G) Q (ms_held m)"
  using assms unfolding ms_section_def ms_held_def
  by (auto simp: memo_inv_def ms_on_def case_prod_beta intro!: safe_await_then safe_atomically)

lemma memo_lock:
  assumes "safe (memo_inv ok contents G) Q p"
  shows "safe (memo_inv ok contents G) Q (pbind ms_lock (\<lambda>_. pfinal p ms_unlock))"
    "safe (memo_inv ok contents G) Q (pbind (ms_lock_bucket hash key) (\<lambda>_. pfinal p (ms_unlock_bucket hash key)))"
  by (rule safe_pbind [OF memo_lock_safe(1)] safe_pbind [OF memo_lock_safe(2)];
      simp add: safe_pfinal assms)+

text \<open>The guard and the blocks of the wrapper.\<close>

definition found_good :: "('q \<Rightarrow> 'v \<Rightarrow> bool) \<Rightarrow> 'q \<Rightarrow> 'v option \<Rightarrow> bool" where
  "found_good G q found \<longleftrightarrow> (\<forall>v. found = Some v \<longrightarrow> G q v)"

definition lookup_allowed :: "('a, 'k, 'v, 'r, 'c, 'u) cached_fn \<Rightarrow> 'a \<Rightarrow> ('q \<Rightarrow> 'v \<Rightarrow> bool) \<Rightarrow> 'q \<Rightarrow> 'v option outcome \<Rightarrow> bool" where
  "lookup_allowed F x G q out \<longleftrightarrow> (case out of
       Returns found \<Rightarrow> found_good G q found
     | Panics \<Rightarrow> force_refresh_guard F x = Panics
     | Diverges \<Rightarrow> force_refresh_guard F x = Diverges)"

lemma draws_section:
  assumes "draws ok contents (\<lambda>x. x) q m"
  shows "safe (memo_inv ok contents G) (lookup_allowed F x G q)
      (ms_section (cache_get_return_block F m x))"
    "safe (memo_inv ok contents G) (lookup_allowed F x G q) (ms_held (cache_get_return_block F m x))"
proof -
  have keep: "ok (snd (cache_get_return_block F m x c)) \<and>
      (\<forall>q v. (q, v) \<in> contents (snd (cache_get_return_block F m x c)) \<longrightarrow> G q v) \<and>
      lookup_allowed F x G q (fst (cache_get_return_block F m x c))"
    if c: "ok c" "\<forall>q v. (q, v) \<in> contents c \<longrightarrow> G q v" for c
  proof -
    obtain found d where "m c = (Returns found, d)" "ok d" "contents d \<subseteq> contents c"
      "\<And>v. found = Some v \<Longrightarrow> (q, v) \<in> contents c"
      by (rule drawsE [OF assms c(1)]) blast
    then show ?thesis using c
      by (cases "force_refresh_guard F x")
        (auto simp: cache_get_return_block_def comp_simps lookup_allowed_def found_good_def)
  qed
  show "safe (memo_inv ok contents G) (lookup_allowed F x G q) (ms_section (cache_get_return_block F m x))"
    "safe (memo_inv ok contents G) (lookup_allowed F x G q) (ms_held (cache_get_return_block F m x))"
    by (rule memo_section, erule (1) keep)+
qed

lemma puts_section:
  assumes "\<And>v. puts ok contents (bk (cf_key F x)) v (cf_set F now (cf_key F x) v)" "B x (Returns r)"
  shows "safe (memo_inv ok contents (memo_good bk F B)) (\<lambda>out. out = Returns ()) (ms_section (set_cache_block F now (cf_key F x) r))"
    "safe (memo_inv ok contents (memo_good bk F B)) (\<lambda>out. out = Returns ()) (ms_held (set_cache_block F now (cf_key F x) r))"
proof -
  let ?G = "memo_good bk F B" and ?m = "set_cache_block F now (cf_key F x) r"
  have keep: "ok (snd (?m c)) \<and> (\<forall>q v. (q, v) \<in> contents (snd (?m c)) \<longrightarrow> ?G q v) \<and> fst (?m c) = Returns ()"
    if c: "ok c" "\<forall>q v. (q, v) \<in> contents c \<longrightarrow> ?G q v" for c
  proof (cases "vs_inner (cf_shape F) r")
    case None
    then show ?thesis using c by (simp add: set_cache_block_def comp_simps)
  next
    case (Some v)
    then have good: "?G (bk (cf_key F x)) v" using assms(2) by (auto simp: memo_good_def)
    obtain old d where "cf_set F now (cf_key F x) v c = (Returns old, d)" "ok d"
        "contents d \<subseteq> insert (bk (cf_key F x), v) (contents c)"
      by (rule putsE [OF assms(1) c(1)])
    then show ?thesis using Some c good by (auto simp: set_cache_block_def comp_simps)
  qed
  show "safe (memo_inv ok contents ?G) (\<lambda>out. out = Returns ()) (ms_section ?m)"
    "safe (memo_inv ok contents ?G) (\<lambda>out. out = Returns ()) (ms_held ?m)"
    by (rule memo_section, erule (1) keep)+
qed

text \<open>A wrapper is a lookup followed by a hit or by the rest.\<close>

lemma memo_lookup_then:
  assumes "safe I (lookup_allowed F x (memo_good bk F B) (bk (cf_key F x))) p"
    and "safe I (memo_allowed bk F B x) rest"
  shows "safe I (memo_allowed bk F B x) (pbind p (\<lambda>found. return_cache_block F found rest))"
  by (rule safe_pbind [OF assms(1)])
    (use assms(2) in \<open>auto simp: lookup_allowed_def found_good_def return_cache_block_def pret_def memo_allowed_def
      split: option.split\<close>)

lemma memo_body_then:
  assumes "safe I (B x) (cf_body F x)"
    and "\<And>r. B x (Returns r) \<Longrightarrow> safe I (memo_allowed bk F B x) (k r)"
  shows "safe I (memo_allowed bk F B x) (pbind (cf_body F x) k)"
  by (rule safe_pbind [OF assms]) (simp_all add: memo_allowed_def)

lemma memo_set_then:
  assumes "safe I (\<lambda>out. out = Returns ()) p" "B x (Returns r)"
  shows "safe I (memo_allowed bk F B x) (pbind p (\<lambda>_. pret r))"
  by (rule safe_pbind [OF assms(1)]) (use assms(2) in \<open>auto simp: memo_allowed_def intro: safe_pret\<close>)

section \<open>Soundness of every mode\<close>

locale memo_store =
  fixes get :: "instant \<Rightarrow> 'k \<Rightarrow> ('c, 'v option) comp"
    and set :: "instant \<Rightarrow> 'k \<Rightarrow> 'v \<Rightarrow> ('c, 'v option) comp"
    and bk :: "'k \<Rightarrow> 'q"
    and ok :: "'c \<Rightarrow> bool"
    and contents :: "'c \<Rightarrow> ('q \<times> 'v) set"
  assumes get: "draws ok contents (\<lambda>x. x) (bk k) (get now k)"
    and set: "puts ok contents (bk k) v (set now k v)"
begin

lemma disabled_safe:
  assumes "cf_set F = set" "\<And>now k. draws ok contents (\<lambda>x. x) (bk k) (read now k)"
    and "safe (memo_inv ok contents (memo_good bk F B)) (B x) (cf_body F x)"
  shows "safe (memo_inv ok contents (memo_good bk F B)) (memo_allowed bk F B x) (cached_disabled F read clock x)"
  unfolding cached_disabled_def
  by (intro memo_lookup_then draws_section assms(2) memo_body_then assms(3) memo_set_then puts_section)
    (simp_all add: assms(1) set)

lemma by_key_safe:
  assumes "cf_set F = set" "\<And>now k. draws ok contents (\<lambda>x. x) (bk k) (read now k)"
    and "safe (memo_inv ok contents (memo_good bk F B)) (B x) (cf_body F x)"
  shows "safe (memo_inv ok contents (memo_good bk F B)) (memo_allowed bk F B x) (cached_by_key F read clock x)"
  unfolding cached_by_key_def by (intro memo_lock disabled_safe assms)

lemma default_safe:
  assumes "cf_set F = set" "cf_get F = get"
    and "safe (memo_inv ok contents (memo_good bk F B)) (B x) (cf_body F x)"
  shows "safe (memo_inv ok contents (memo_good bk F B)) (memo_allowed bk F B x) (cached_default F clock x)"
  unfolding cached_default_def
  by (intro memo_lock memo_lookup_then draws_section memo_body_then assms(3) memo_set_then puts_section)
    (simp_all add: assms(1,2) get set)

lemma prime_safe:
  assumes "cf_set F = set" "safe (memo_inv ok contents (memo_good bk F B)) (B x) (cf_body F x)"
  shows "safe (memo_inv ok contents (memo_good bk F B)) (memo_allowed bk F B x) (cached_prime F by_key clock x)"
proof -
  have "safe (memo_inv ok contents (memo_good bk F B)) (memo_allowed bk F B x)
      (pbind (ms_section (set_cache_block F (clock 0) (cf_key F x) r)) (\<lambda>_. pret r))" if "B x (Returns r)" for r
    using that by (intro memo_set_then puts_section) (simp_all add: assms(1) set)
  then show ?thesis unfolding cached_prime_def by (intro memo_body_then assms(2)) (auto intro: memo_lock)
qed

end

text \<open>
  The contract of the calls behind \<open>unsync_reads\<close> (\<open>CachedRead\<close>) and behind \<open>result_fallback\<close>
  (\<open>CloneCached\<close>).
\<close>

lemma memo_guard: "safe I (\<lambda>out. out = force_refresh_guard F x) (atomically (run_closure (force_refresh_guard F x)))"
  by (rule safe_atomically) (simp add: run_closure_def)

lemma memo_guard_then:
  assumes "\<And>taken. safe I (memo_allowed bk F B x) (k taken)"
  shows "safe I (memo_allowed bk F B x) (pbind (atomically (run_closure (force_refresh_guard F x))) k)"
  by (rule safe_pbind [OF memo_guard assms]) (auto simp: memo_allowed_def)

lemma draws_lookup:
  assumes "draws ok contents (\<lambda>x. x) q m"
  shows "safe (memo_inv ok contents G) (lookup_allowed F x G q) (ms_section m)"
    "safe (memo_inv ok contents G) (lookup_allowed F x G q) (ms_held m)"
proof -
  have keep: "ok (snd (m c)) \<and> (\<forall>q v. (q, v) \<in> contents (snd (m c)) \<longrightarrow> G q v) \<and> lookup_allowed F x G q (fst (m c))"
    if c: "ok c" "\<forall>q v. (q, v) \<in> contents c \<longrightarrow> G q v" for c
  proof -
    obtain found d where "m c = (Returns found, d)" "ok d" "contents d \<subseteq> contents c"
      "\<And>v. found = Some v \<Longrightarrow> (q, v) \<in> contents c"
      by (rule drawsE [OF assms c(1)]) blast
    then show ?thesis using c by (auto simp: lookup_allowed_def found_good_def)
  qed
  show "safe (memo_inv ok contents G) (lookup_allowed F x G q) (ms_section m)"
    "safe (memo_inv ok contents G) (lookup_allowed F x G q) (ms_held m)"
    by (rule memo_section, erule (1) keep)+
qed

lemma draws_ret_None: "draws ok contents (\<lambda>x. x) q (ret None)"
  by (simp add: draws_def ret_def)

lemma draws_if: "draws ok contents f q m \<Longrightarrow> draws ok contents f q n \<Longrightarrow> draws ok contents f q (if b then m else n)"
  by simp

text \<open>A first computation that finds nothing, and one whose finding is narrowed.\<close>

lemma draws_andthen:
  assumes "draws ok contents f q m" "\<And>x. draws ok contents g q (k x)"
  shows "draws ok contents g q (andthen m k)"
proof (rule drawsI)
  fix c r e assume c: "ok c" and run: "andthen m k c = (r, e)"
  obtain x d where m: "m c = (Returns x, d)" "ok d" "contents d \<subseteq> contents c"
    by (rule drawsE [OF assms(1) c])
  obtain y e' where "k x d = (Returns y, e')" "ok e'" "contents e' \<subseteq> contents d"
      "\<And>v. g y = Some v \<Longrightarrow> (q, v) \<in> contents d"
    by (rule drawsE [OF assms(2) m(2)]) blast
  then show "ok e \<and> contents e \<subseteq> contents c \<and> (\<exists>y. r = Returns y \<and> (\<forall>v. g y = Some v \<longrightarrow> (q, v) \<in> contents c))"
    using m run by (auto simp: comp_simps)
qed

lemma draws_narrow:
  assumes "draws ok contents f q m" "\<And>x v. g (h x) = Some v \<Longrightarrow> f x = Some v"
  shows "draws ok contents g q (andthen m (\<lambda>x. ret (h x)))"
proof (rule drawsI)
  fix c r e assume c: "ok c" and run: "andthen m (\<lambda>x. ret (h x)) c = (r, e)"
  obtain x d where "m c = (Returns x, d)" "ok d" "contents d \<subseteq> contents c"
      "\<And>v. f x = Some v \<Longrightarrow> (q, v) \<in> contents c"
    by (rule drawsE [OF assms(1) c]) blast
  then show "ok e \<and> contents e \<subseteq> contents c \<and> (\<exists>y. r = Returns y \<and> (\<forall>v. g y = Some v \<longrightarrow> (q, v) \<in> contents c))"
    using run assms(2) by (auto simp: comp_simps)
qed

locale memo_read_store = memo_store +
  fixes get_read :: "instant \<Rightarrow> 'a \<Rightarrow> ('b, 'c option) comp"
    and peek_is_some :: "instant \<Rightarrow> 'a \<Rightarrow> ('b, bool) comp"
  assumes get_read: "draws ok contents (\<lambda>x. x) (bk k) (get_read now k)"
    and peek_is_some: "draws ok contents (\<lambda>_. None) (bk k) (peek_is_some now k)"
begin

lemma default_unsync_safe:
  assumes "cf_set F = set" "cf_get F = get"
    and "safe (memo_inv ok contents (memo_good bk F B)) (B x) (cf_body F x)"
  shows "safe (memo_inv ok contents (memo_good bk F B)) (memo_allowed bk F B x)
    (cached_default_unsync F peek_is_some get_read clock x)"
  unfolding cached_default_unsync_def
  by (intro memo_guard_then memo_lookup_then draws_lookup draws_if draws_andthen [OF peek_is_some] get_read
      draws_ret_None memo_lock memo_body_then assms(3) memo_set_then puts_section)
    (simp_all add: assms(1,2) get set)

end

locale memo_clone_store = memo_store +
  fixes get_status :: "instant \<Rightarrow> 'a \<Rightarrow> ('b, 'c option \<times> bool) comp"
    and peek_status :: "instant \<Rightarrow> 'a \<Rightarrow> ('b, 'c option \<times> bool) comp"
  assumes get_status: "draws ok contents fst (bk k) (get_status now k)"
    and peek_status: "draws ok contents fst (bk k) (peek_status now k)"
begin

lemma fallback_lookup_draws:
  "draws ok contents (\<lambda>x. x) (bk k) (fallback_lookup F (get_status now k) (peek_status now k) taken)"
proof (cases taken)
  case True
  have "draws ok contents (\<lambda>x. x) (bk k) (andthen (get_status now k)
      (\<lambda>p. ret (if snd p then None else fst p)))"
    by (rule draws_narrow [OF get_status]) (auto split: if_splits)
  then show ?thesis using True by (simp add: fallback_lookup_def split_def)
next
  case False
  then show ?thesis
    using draws_andthen [OF peek_status draws_ret_None] by (simp add: fallback_lookup_def)
qed

lemma fallback_set_safe:
  assumes "cf_set F = set" "B x (Returns r)"
    and "\<And>v v'. vs_inner (cf_shape F) (vs_hit (cf_shape F) v) = Some v' \<Longrightarrow> v' = v"
  shows "safe (memo_inv ok contents (memo_good bk F B)) (memo_allowed bk F B x)
    (ms_section (fallback_set F (peek_status now (cf_key F x)) now (cf_key F x) r))"
proof (rule memo_section)
  let ?G = "memo_good bk F B" and ?q = "bk (cf_key F x)"
  fix c assume c: "ok c" "\<forall>q v. (q, v) \<in> contents c \<longrightarrow> ?G q v"
  have store: "\<exists>d. set_cache_block F now (cf_key F x) r' d0 = (Returns (), d) \<and> ok d \<and> (\<forall>q v. (q, v) \<in> contents d \<longrightarrow> ?G q v)"
    if "ok d0" "\<forall>q v. (q, v) \<in> contents d0 \<longrightarrow> ?G q v" "\<And>v. vs_inner (cf_shape F) r' = Some v \<Longrightarrow> ?G ?q v" for r' d0
  proof (cases "vs_inner (cf_shape F) r'")
    case (Some v)
    obtain old d where "set now (cf_key F x) v d0 = (Returns old, d)" "ok d" "contents d \<subseteq> insert (?q, v) (contents d0)"
      by (rule putsE [OF set \<open>ok d0\<close>])
    then show ?thesis using that Some by (auto simp: set_cache_block_def comp_simps assms(1))
  qed (use that in \<open>simp add: set_cache_block_def comp_simps\<close>)
  show "ok (snd (fallback_set F (peek_status now (cf_key F x)) now (cf_key F x) r c)) \<and>
      (\<forall>q v. (q, v) \<in> contents (snd (fallback_set F (peek_status now (cf_key F x)) now (cf_key F x) r c)) \<longrightarrow> ?G q v) \<and>
      memo_allowed bk F B x (fst (fallback_set F (peek_status now (cf_key F x)) now (cf_key F x) r c))"
  proof (cases "vs_inner (cf_shape F) r")
    case (Some v)
    then have "?G ?q v'" if "vs_inner (cf_shape F) r = Some v'" for v'
      using that assms(2) by (auto simp: memo_good_def)
    from store [OF c this] obtain d where "set_cache_block F now (cf_key F x) r c = (Returns (), d)" "ok d"
        "\<forall>q v. (q, v) \<in> contents d \<longrightarrow> ?G q v" by blast
    then show ?thesis using Some assms(2) by (simp add: fallback_set_def comp_simps memo_allowed_def)
  next
    case None
    obtain st d where d: "peek_status now (cf_key F x) c = (Returns st, d)" "ok d" "contents d \<subseteq> contents c"
        "\<And>v. fst st = Some v \<Longrightarrow> (?q, v) \<in> contents c"
      by (rule drawsE [OF peek_status c(1)]) blast
    let ?r = "case fst st of Some v \<Rightarrow> vs_hit (cf_shape F) v | None \<Rightarrow> r"
    have "?G ?q v" if "vs_inner (cf_shape F) ?r = Some v" for v
      using that None assms(3) d(4) c(2) by (auto split: option.splits)
    moreover have "\<forall>q v. (q, v) \<in> contents d \<longrightarrow> ?G q v" using c(2) d(3) by blast
    ultimately obtain e where e: "set_cache_block F now (cf_key F x) ?r d = (Returns (), e)" "ok e"
        "\<forall>q v. (q, v) \<in> contents e \<longrightarrow> ?G q v"
      using store [OF d(2), of ?r] by blast
    have "memo_allowed bk F B x (Returns ?r)"
      using assms(2) d(4) c(2) by (auto simp: memo_allowed_def split: option.split)
    then show ?thesis using None d e by (simp add: fallback_set_def comp_simps case_prod_beta)
  qed
qed

lemma fallback_safe:
  assumes "cf_set F = set" "\<And>v v'. vs_inner (cf_shape F) (vs_hit (cf_shape F) v) = Some v' \<Longrightarrow> v' = v"
    and "safe (memo_inv ok contents (memo_good bk F B)) (B x) (cf_body F x)"
  shows "safe (memo_inv ok contents (memo_good bk F B)) (memo_allowed bk F B x)
    (cached_fallback F get_status peek_status clock x)"
  unfolding cached_fallback_def
  by (intro memo_guard_then memo_lookup_then draws_lookup fallback_lookup_draws memo_body_then assms fallback_set_safe)

end

end
