(* ===== verification/Memo_Stores.thy ===== *)
theory Memo_Stores
  imports Memo_Sound Unbound_Cache Ttl_Cache Expiring_Cache Lru_Ttl_Refine Expiring_Lru_Refine
begin

text \<open>
  The six stores that \<open>#[cached]\<close> can select meet the contract of \<open>Memo_Sound\<close>. The generated statics
  have no \<open>on_evict\<close> callback, and \<open>is_expired\<close> of the values is a total function here: then no call on
  the store panics.
\<close>

section \<open>Contents of entry lists\<close>

definition contents_of :: "('k \<Rightarrow> 'q) \<Rightarrow> ('v \<Rightarrow> 'w) \<Rightarrow> ('k \<times> 'v) list \<Rightarrow> ('q \<times> 'w) set" where
  "contents_of bk f xs = (\<lambda>kv. (bk (fst kv), f (snd kv))) ` set xs"

lemma contents_of_find: "a_find bk q xs = Some (k, v) \<Longrightarrow> f v = w \<Longrightarrow> (q, w) \<in> contents_of bk f xs"
  using a_find_SomeD [of bk q xs "(k, v)"] by (force simp: contents_of_def)

lemma contents_of_mono: "set xs \<subseteq> set ys \<Longrightarrow> contents_of bk f xs \<subseteq> contents_of bk f ys"
  by (auto simp: contents_of_def)

lemma contents_of_Cons [simp]: "contents_of bk f (kv # xs) = insert (bk (fst kv), f (snd kv)) (contents_of bk f xs)"
  by (simp add: contents_of_def)

lemma contents_of_without: "contents_of bk f (a_without bk q xs) \<subseteq> contents_of bk f xs"
  by (rule contents_of_mono) (simp add: set_a_without)

lemma contents_of_take: "contents_of bk f (take n xs) \<subseteq> contents_of bk f xs"
  by (rule contents_of_mono) (rule set_take_subset)

lemma contents_of_update:
  "(\<And>kv. kv \<in> set xs \<Longrightarrow> bk (fst kv) = q \<Longrightarrow> f (g (snd kv)) = f (snd kv)) \<Longrightarrow>
     contents_of bk f (hm_update bk q g xs) \<subseteq> contents_of bk f xs"
  by (force simp: contents_of_def hm_update_def)

lemma contents_of_insert:
  "contents_of bk f (snd (hm_insert bk k v xs)) \<subseteq> insert (bk k, f v) (contents_of bk f xs)"
  by (auto simp: contents_of_def hm_insert_def hm_update_def split: option.splits)

section \<open>The stores over hash maps\<close>

definition ub_plain :: "('k, 'v) unbound_cache \<Rightarrow> bool" where
  "ub_plain c \<longleftrightarrow> ub_on_evict c = None"

definition ub_contents :: "('k \<Rightarrow> 'q) \<Rightarrow> ('k, 'v) unbound_cache \<Rightarrow> ('q \<times> 'v) set" where
  "ub_contents bk c = contents_of bk (\<lambda>v. v) (ub_store c)"

interpretation unbound_memo: memo_read_store "\<lambda>now k. unbound_cache_get bk (bk k)" "\<lambda>now. unbound_cache_set bk" bk
    ub_plain "ub_contents bk" "\<lambda>now k. unbound_cache_get_read bk thread (bk k)"
    "\<lambda>now k. andthen get_state (\<lambda>c. ret (unbound_cache_peek bk (bk k) c \<noteq> None))"
  for bk :: "'k \<Rightarrow> 'q" and thread
proof unfold_locales
  note unbound_simps = ub_plain_def ub_contents_def unbound_cache_peek_def hm_get_def ub_hit_mut_def ub_miss_mut_def
    ub_set_store_def comp_simps
  note find = contents_of_find [where f = "\<lambda>v. v", OF _ refl]
  fix now :: instant and k :: 'k and v :: 'v
  show "draws ub_plain (ub_contents bk) (\<lambda>x. x) (bk k) (unbound_cache_get bk (bk k))"
    by (rule drawsI) (auto simp: unbound_cache_get_def unbound_simps find split: option.splits)
  show "draws ub_plain (ub_contents bk) (\<lambda>x. x) (bk k) (unbound_cache_get_read bk thread (bk k))"
    by (rule drawsI) (auto simp: unbound_cache_get_read_def unbound_simps find split: option.splits)
  show "draws ub_plain (ub_contents bk) (\<lambda>_. None) (bk k) (andthen get_state (\<lambda>c. ret (unbound_cache_peek bk (bk k) c \<noteq> None)))"
    by (rule drawsI) (auto simp: unbound_simps)
  show "puts ub_plain (ub_contents bk) (bk k) v (unbound_cache_set bk k v)"
    by (rule putsI) (auto simp: unbound_cache_set_def unbound_simps case_prod_beta
        dest: contents_of_insert [THEN subsetD])
qed

definition tc_plain :: "('k, 'v) ttl_cache \<Rightarrow> bool" where
  "tc_plain c \<longleftrightarrow> tc_on_evict c = None"

definition tc_contents :: "('k \<Rightarrow> 'q) \<Rightarrow> ('k, 'v) ttl_cache \<Rightarrow> ('q \<times> 'v) set" where
  "tc_contents bk c = contents_of bk te_value (tc_store c)"

interpretation ttl_memo: memo_clone_store "\<lambda>now k. ttl_cache_get bk now (bk k)" "ttl_cache_set bk" bk
    tc_plain "tc_contents bk" "\<lambda>now k. ttl_cache_get_with_expiry_status bk now (bk k)"
    "\<lambda>now k. andthen get_state (\<lambda>c. ret (ttl_cache_peek_with_expiry_status bk now (bk k) c))"
  for bk :: "'k \<Rightarrow> 'q"
proof unfold_locales
  note ttl_simps = tc_plain_def tc_contents_def hm_get_def tc_hit_def tc_miss_def tc_set_store_def tc_refresh_entry_def
    tc_report_def tc_count_def tc_notify_def notify_def hm_remove_entry_def comp_simps
  note find = contents_of_find [where f = te_value, OF _ refl]
  have refresh: "contents_of bk te_value (hm_update bk q (\<lambda>e. e\<lparr>te_expires_at := g e\<rparr>) xs) \<subseteq> contents_of bk te_value xs"
    for q and g :: "'v timed_entry \<Rightarrow> _" and xs :: "('k \<times> 'v timed_entry) list"
    by (rule contents_of_update) simp
  note subs = refresh [THEN subsetD] contents_of_without [THEN subsetD] contents_of_insert [THEN subsetD]
  fix now :: instant and k :: 'k and v :: 'v
  show "draws tc_plain (tc_contents bk) (\<lambda>x. x) (bk k) (ttl_cache_get bk now (bk k))"
    by (rule drawsI) (auto simp: ttl_cache_get_def ttl_simps find dest: subs split: option.splits if_splits)
  show "draws tc_plain (tc_contents bk) fst (bk k) (ttl_cache_get_with_expiry_status bk now (bk k))"
    by (rule drawsI) (auto simp: ttl_cache_get_with_expiry_status_def ttl_simps find dest: subs split: option.splits if_splits)
  show "draws tc_plain (tc_contents bk) fst (bk k)
      (andthen get_state (\<lambda>c. ret (ttl_cache_peek_with_expiry_status bk now (bk k) c)))"
    by (rule drawsI) (auto simp: ttl_cache_peek_with_expiry_status_def ttl_simps find split: option.splits)
  show "puts tc_plain (tc_contents bk) (bk k) v (ttl_cache_set bk now k v)"
    by (rule putsI) (auto simp: ttl_cache_set_def ttl_set_entry_def ttl_simps dest!: subs split: option.splits if_splits)
qed

definition ec_plain :: "('k, 'v) expiring_cache \<Rightarrow> bool" where
  "ec_plain c \<longleftrightarrow> ec_on_evict c = None"

definition ec_contents :: "('k \<Rightarrow> 'q) \<Rightarrow> ('k, 'v) expiring_cache \<Rightarrow> ('q \<times> 'v) set" where
  "ec_contents bk c = contents_of bk (\<lambda>v. v) (ec_store c)"

interpretation expiring_memo: memo_clone_store "\<lambda>now k. expiring_cache_get bk (\<lambda>v. Some (e v)) (bk k)"
    "\<lambda>now. expiring_cache_set bk (\<lambda>v. Some (e v))" bk ec_plain "ec_contents bk"
    "\<lambda>now k. expiring_cache_get_with_expiry_status bk (\<lambda>v. Some (e v)) (bk k)"
    "\<lambda>now k. expiring_cache_peek_with_expiry_status bk (\<lambda>v. Some (e v)) (bk k)"
  for bk :: "'k \<Rightarrow> 'q" and e :: "'v \<Rightarrow> bool"
proof unfold_locales
  note expiring_simps = ec_plain_def ec_contents_def hm_get_def ec_hit_def ec_miss_def ec_set_store_def
    ec_report_def ec_count_def ec_notify_def notify_def hm_remove_entry_def comp_simps
  note find = contents_of_find [where f = "\<lambda>v. v", OF _ refl]
  note subs = contents_of_without [THEN subsetD] contents_of_insert [THEN subsetD]
  fix now :: instant and k :: 'k and v :: 'v
  let ?exp = "\<lambda>v. Some (e v)"
  show "draws ec_plain (ec_contents bk) (\<lambda>x. x) (bk k) (expiring_cache_get bk ?exp (bk k))"
    by (rule drawsI) (auto simp: expiring_cache_get_def expiring_simps find dest: subs split: option.splits if_splits)
  show "draws ec_plain (ec_contents bk) fst (bk k) (expiring_cache_get_with_expiry_status bk ?exp (bk k))"
    by (rule drawsI) (auto simp: expiring_cache_get_with_expiry_status_def expiring_simps find split: option.splits if_splits)
  show "draws ec_plain (ec_contents bk) fst (bk k) (expiring_cache_peek_with_expiry_status bk ?exp (bk k))"
    by (rule drawsI) (auto simp: expiring_cache_peek_with_expiry_status_def expiring_simps find split: option.splits)
  show "puts ec_plain (ec_contents bk) (bk k) v (expiring_cache_set bk ?exp k v)"
    by (rule putsI) (auto simp: expiring_cache_set_def expiring_simps dest!: subs split: option.splits if_splits)
qed

section \<open>The stores over the LRU cache\<close>

text \<open>
  A computation has the contract when it refines one that has it. \<open>R\<close> is what the invariant of the
  implementation says of the specification.
\<close>

lemma refines_draws:
  assumes ref: "refines ok av m n" and R: "\<And>c. ok c \<Longrightarrow> R (av c)"
    and n: "\<And>a r b. P a \<Longrightarrow> R a \<Longrightarrow> n a = (r, b) \<Longrightarrow> P b \<and> contents b \<subseteq> contents a \<and>
      (\<exists>x. r = Returns x \<and> (\<forall>v. f x = Some v \<longrightarrow> (q, v) \<in> contents a))"
  shows "draws (\<lambda>c. ok c \<and> P (av c)) (\<lambda>c. contents (av c)) f q m"
proof (rule drawsI)
  fix c r d assume c: "ok c \<and> P (av c)" and m: "m c = (r, d)"
  have "ok d" "n (av c) = (r, av d)" using refines_result [OF ref _ m] c by simp_all
  then show "(ok d \<and> P (av d)) \<and> contents (av d) \<subseteq> contents (av c) \<and>
      (\<exists>x. r = Returns x \<and> (\<forall>v. f x = Some v \<longrightarrow> (q, v) \<in> contents (av c)))"
    using n [of "av c" r "av d"] R [of c] c by simp
qed

lemma refines_puts:
  assumes ref: "refines ok av m n" and R: "\<And>c. ok c \<Longrightarrow> R (av c)"
    and n: "\<And>a r b. P a \<Longrightarrow> R a \<Longrightarrow> n a = (r, b) \<Longrightarrow> P b \<and> contents b \<subseteq> insert (q, v) (contents a) \<and>
      (\<exists>x. r = Returns x)"
  shows "puts (\<lambda>c. ok c \<and> P (av c)) (\<lambda>c. contents (av c)) q v m"
proof (rule putsI)
  fix c r d assume c: "ok c \<and> P (av c)" and m: "m c = (r, d)"
  have "ok d" "n (av c) = (r, av d)" using refines_result [OF ref _ m] c by simp_all
  then show "(ok d \<and> P (av d)) \<and> contents (av d) \<subseteq> insert (q, v) (contents (av c)) \<and> (\<exists>x. r = Returns x)"
    using n [of "av c" r "av d"] R [of c] c by simp
qed

definition al_plain :: "('k, 'v) alru \<Rightarrow> bool" where
  "al_plain s \<longleftrightarrow> al_on_evict s = None"

definition al_contents :: "('k \<Rightarrow> 'q) \<Rightarrow> ('v \<Rightarrow> 'w) \<Rightarrow> ('k, 'v) alru \<Rightarrow> ('q \<times> 'w) set" where
  "al_contents bk f s = contents_of bk f (al_items s)"

lemma al_get_draws:
  assumes "al_plain c" "al_get_mut_if bk q is_valid upd c = (r, d)" "\<And>v. f (upd v) = f v"
  shows "al_plain d \<and> al_contents bk f d \<subseteq> al_contents bk f c \<and>
    (\<exists>x. r = Returns x \<and> (\<forall>v. x = Some v \<longrightarrow> (q, f v) \<in> al_contents bk f c))"
proof -
  note simps = al_plain_def al_contents_def al_get_mut_if_def al_set_items_def al_record_hit_def al_record_miss_def comp_simps
  show ?thesis
  proof (cases "a_find bk q (al_items c)")
    case None
    then show ?thesis using assms(1,2) by (auto simp: simps split: if_splits)
  next
    case (Some kv)
    then obtain k v where kv: "a_find bk q (al_items c) = Some (k, v)" by (cases kv) simp
    moreover have "(bk k, f (upd v)) \<in> contents_of bk f (al_items c)" "(q, f v) \<in> contents_of bk f (al_items c)"
      using contents_of_find [OF kv, of f "f v"] a_find_SomeD [OF kv] assms(3) by auto
    ultimately show ?thesis
      using assms(1,2) contents_of_without [of bk f q "al_items c"] by (cases "is_valid v"; cases "al_track_hit_miss c") (auto simp: simps)
  qed
qed

lemma al_set_puts:
  assumes "al_plain c" "a_wf bk (al_items c)" "al_set bk k v c = (r, d)"
  shows "al_plain d \<and> al_contents bk f d \<subseteq> insert (bk k, f v) (al_contents bk f c) \<and>
    r = Returns (a_find bk (bk k) (al_items c))"
proof -
  let ?p = "al_put bk k v c"
  have "contents_of bk f (take n (al_items ?p)) \<subseteq> insert (bk k, f v) (contents_of bk f (al_items c))" for n
    using contents_of_take [of bk f n "al_items ?p"] contents_of_without [of bk f "bk k" "al_items c"] by auto
  moreover have "r = Returns (a_find bk (bk k) (al_items c))" "d = al_evicted (victims ?p) ?p"
    using assms by (simp_all add: al_set_closed al_plain_def)
  ultimately show ?thesis
    using assms(1) by (simp add: al_plain_def al_contents_def al_evicted_def)
qed

sublocale hash_table \<subseteq> lru_memo: memo_store "\<lambda>now k. lru_cache_get T bk (bk k)" "\<lambda>now. lru_cache_set T bk" bk
    "\<lambda>c. lru_wf entries bk c \<and> al_plain (lru_abs c)" "\<lambda>c. al_contents bk (\<lambda>v. v) (lru_abs c)"
  for bk :: "'k \<Rightarrow> 'q"
proof unfold_locales
  fix now :: instant and k :: 'k and v :: 'v
  show "draws (\<lambda>c. lru_wf entries bk c \<and> al_plain (lru_abs c)) (\<lambda>c. al_contents bk (\<lambda>v. v) (lru_abs c)) (\<lambda>x. x) (bk k)
      (lru_cache_get T bk (bk k))"
    by (rule refines_draws [where R = "\<lambda>s. a_wf bk (al_items s)", OF refines_cache_get]) (auto simp: lru_wf_a_wf dest: al_get_draws [where f = "\<lambda>v. v"])
  show "puts (\<lambda>c. lru_wf entries bk c \<and> al_plain (lru_abs c)) (\<lambda>c. al_contents bk (\<lambda>v. v) (lru_abs c)) (bk k) v
      (lru_cache_set T bk k v)"
  proof (rule refines_puts [where R = "\<lambda>s. a_wf bk (al_items s)", OF refines_cache_set])
    fix a r b assume a: "al_plain a" "a_wf bk (al_items a)" "andthen (al_set bk k v) (\<lambda>d. ret (map_option snd d)) a = (r, b)"
    obtain rs ds where "al_set bk k v a = (rs, ds)" by force
    from al_set_puts [OF a(1,2) this, of "\<lambda>v. v"] this a(3)
    show "al_plain b \<and> al_contents bk (\<lambda>v. v) b \<subseteq> insert (bk k, v) (al_contents bk (\<lambda>v. v) a) \<and> (\<exists>x. r = Returns x)"
      by (auto simp: comp_simps simp del: insert_iff del: subsetI)
  qed (simp add: lru_wf_a_wf)
qed

text \<open>The inner LRU cache of \<open>LruTtlCache\<close> and \<open>ExpiringLruCache\<close> does not count and has no callback of its own.\<close>

definition lt_plain :: "('k, 'v, 's) lttl_cache \<Rightarrow> bool" where
  "lt_plain c \<longleftrightarrow> lt_on_evict c = None"

definition alt_ok :: "('k \<Rightarrow> 'q) \<Rightarrow> ('k, 'v) alttl \<Rightarrow> bool" where
  "alt_ok bk c \<longleftrightarrow> a_wf bk (al_items (lt_store c)) \<and> al_calls (lt_store c) = [] \<and> \<not> al_track_hit_miss (lt_store c) \<and>
     al_on_evict (lt_store c) = map_option lttl_callback (lt_on_evict c)"

definition alt_contents :: "('k \<Rightarrow> 'q) \<Rightarrow> ('k, 'v) alttl \<Rightarrow> ('q \<times> 'v) set" where
  "alt_contents bk c = contents_of bk te_value (al_items (lt_store c))"

lemma lt_touched_value [simp]: "te_value (lt_touched c now e) = te_value e"
  by (simp add: lt_touched_def lt_refreshed_def)

lemma alt_get_draws:
  assumes "lt_plain c" "alt_ok bk c" "alt_get_mut bk now q id c = (r, d)"
  shows "lt_plain d \<and> alt_contents bk d \<subseteq> alt_contents bk c \<and>
    (\<exists>x. r = Returns x \<and> (\<forall>v. x = Some v \<longrightarrow> (q, v) \<in> alt_contents bk c))"
proof (cases "a_find bk q (al_items (lt_store c))")
  case (Some ke)
  then obtain k e where ke: "a_find bk q (al_items (lt_store c)) = Some (k, e)" by (cases ke) simp
  then have "(q, te_value e) \<in> contents_of bk te_value (al_items (lt_store c))" "bk k = q"
    using contents_of_find [OF ke refl, of te_value] a_find_SomeD [OF ke] by auto
  then show ?thesis
    using assms ke contents_of_without [of bk te_value q "al_items (lt_store c)"]
    by (cases "lt_live now e")
      (auto simp: alt_ok_def alt_get_mut_closed lt_plain_def alt_contents_def)
qed (use assms in \<open>auto simp: alt_ok_def alt_get_mut_closed lt_plain_def alt_contents_def\<close>)

lemma alt_peek_draws:
  assumes "lt_plain c" "alt_peek bk q c = (r, d)"
  shows "lt_plain d \<and> alt_contents bk d \<subseteq> alt_contents bk c \<and>
    (\<exists>x. r = Returns x \<and> (\<forall>e. x = Some e \<longrightarrow> (q, te_value e) \<in> alt_contents bk c))"
  using assms by (auto simp: alt_peek_def comp_simps alt_contents_def contents_of_find)

lemma alt_status_draws:
  assumes "lt_plain c" "alt_ok bk c" "alt_get_with_expiry_status bk now q c = (r, d)"
  shows "lt_plain d \<and> alt_contents bk d \<subseteq> alt_contents bk c \<and>
    (\<exists>x. r = Returns x \<and> (\<forall>v. fst x = Some v \<longrightarrow> (q, v) \<in> alt_contents bk c))"
proof -
  obtain rm dm where m: "al_get_mut_if bk q (lt_live now) (lt_touched c now) (lt_store c) = (rm, dm)" by force
  obtain x where x: "rm = Returns x" "contents_of bk te_value (al_items dm) \<subseteq> alt_contents bk c"
    "\<And>e. x = Some e \<Longrightarrow> (q, te_value e) \<in> alt_contents bk c"
    using al_get_draws [OF _ m, of te_value] assms(1,2)
    by (auto simp: lt_plain_def alt_ok_def al_plain_def al_contents_def alt_contents_def)
  have f: "(q, te_value b) \<in> alt_contents bk c" if "a_find bk q (al_items dm) = Some (a, b)" for a b
    using contents_of_find [OF that refl, of te_value] x(2) by blast
  show ?thesis
    using assms(1,3) m x(1) x(2) [unfolded alt_contents_def] x(3) f
    by (cases x) (auto simp: alt_get_with_expiry_status_def alt_inner_def lt_plain_def lt_hit_def lt_miss_def alt_peek_def
        alt_contents_def comp_simps)
qed

lemma alt_set_puts:
  assumes "lt_plain c" "alt_ok bk c" "alt_set bk now k v c = (r, d)"
  shows "lt_plain d \<and> alt_contents bk d \<subseteq> insert (bk k, v) (alt_contents bk c) \<and> (\<exists>x. r = Returns x)"
proof -
  obtain rs ds where s: "al_set bk k (lt_fresh c now v) (lt_store c) = (rs, ds)" by force
  have "contents_of bk te_value (al_items ds) \<subseteq> insert (bk k, v) (alt_contents bk c)"
    "rs = Returns (a_find bk (bk k) (al_items (lt_store c)))"
    using al_set_puts [OF _ _ s, of te_value] assms(1,2)
    by (auto simp: lt_plain_def alt_ok_def al_plain_def al_contents_def alt_contents_def lt_fresh_def)
  then show ?thesis
    using assms(1,3) s
    by (cases "a_find bk (bk k) (al_items (lt_store c))")
      (auto simp: alt_set_def alt_inner_def lt_plain_def lt_report_def lt_count_def lt_notify_apply comp_simps
        alt_contents_def split: if_splits del: subsetI)
qed

lemma alt_ok_abs: "hash_table T entries \<Longrightarrow> lt_wf entries bk c \<Longrightarrow> alt_ok bk (lt_abs c)"
  by (simp add: alt_ok_def lt_wf_def hash_table.lru_wf_a_wf)

sublocale hash_table \<subseteq> lttl_memo: memo_clone_store "\<lambda>now k. lttl_cache_get T bk now (bk k)" "lttl_cache_set T bk" bk
    "\<lambda>c. lt_wf entries bk c \<and> lt_plain (lt_abs c)" "\<lambda>c. alt_contents bk (lt_abs c)"
    "\<lambda>now k. lttl_cache_get_with_expiry_status T bk now (bk k)"
    "\<lambda>now k. lttl_cache_peek_with_expiry_status T bk now (bk k)"
  for bk :: "'k \<Rightarrow> 'q"
proof unfold_locales
  fix now :: instant and k :: 'k and v :: 'v
  let ?ok = "\<lambda>c. lt_wf entries bk c \<and> lt_plain (lt_abs c)" and ?contents = "\<lambda>c. alt_contents bk (lt_abs c)"
  note ok = alt_ok_abs [OF hash_table_axioms]
  show "draws ?ok ?contents (\<lambda>x. x) (bk k) (lttl_cache_get T bk now (bk k))"
    by (rule refines_draws [where R = "alt_ok bk", OF refines_lt_lookups(1) ok], assumption) (rule alt_get_draws)
  show "draws ?ok ?contents fst (bk k) (lttl_cache_get_with_expiry_status T bk now (bk k))"
    by (rule refines_draws [where R = "alt_ok bk", OF refines_lt_lookups(2) ok], assumption) (rule alt_status_draws)
  have "draws ?ok ?contents (map_option te_value) (bk k) (lt_inner (lru_cache_peek T bk (bk k)))"
    by (rule refines_draws [where R = "\<lambda>_. True", OF refines_lt_peek]) (use alt_peek_draws in force)+
  then show "draws ?ok ?contents fst (bk k) (lttl_cache_peek_with_expiry_status T bk now (bk k))"
    unfolding lttl_cache_peek_with_expiry_status_def
    by (rule draws_narrow) (auto split: option.splits)
  show "puts ?ok ?contents (bk k) v (lttl_cache_set T bk now k v)"
    by (rule refines_puts [where R = "alt_ok bk", OF refines_lt_set ok], assumption) (rule alt_set_puts)
qed

definition el_plain :: "('k, 'v, 's) elru_cache \<Rightarrow> bool" where
  "el_plain c \<longleftrightarrow> el_on_evict c = None"

definition ael_ok :: "('k \<Rightarrow> 'q) \<Rightarrow> ('k, 'v) aelru \<Rightarrow> bool" where
  "ael_ok bk c \<longleftrightarrow> a_wf bk (al_items (el_store c)) \<and> al_calls (el_store c) = [] \<and> \<not> al_track_hit_miss (el_store c) \<and>
     al_on_evict (el_store c) = el_on_evict c"

definition ael_contents :: "('k \<Rightarrow> 'q) \<Rightarrow> ('k, 'v) aelru \<Rightarrow> ('q \<times> 'v) set" where
  "ael_contents bk c = contents_of bk (\<lambda>v. v) (al_items (el_store c))"

lemma ael_peek_draws:
  assumes "el_plain c" "ael_peek bk q c = (r, d)"
  shows "el_plain d \<and> ael_contents bk d \<subseteq> ael_contents bk c \<and>
    (\<exists>x. r = Returns x \<and> (\<forall>v. x = Some v \<longrightarrow> (q, v) \<in> ael_contents bk c))"
  using assms by (auto simp: ael_peek_def comp_simps ael_contents_def contents_of_find)

lemma ael_found:
  assumes "a_find bk q (al_items (el_store c)) = Some (k, v)"
  shows "(q, v) \<in> ael_contents bk c" "bk k = q"
    "contents_of bk (\<lambda>v. v) (a_without bk q (al_items (el_store c))) \<subseteq> ael_contents bk c"
  using contents_of_find [OF assms refl, of "\<lambda>v. v"] a_find_SomeD [OF assms]
    contents_of_without [of bk "\<lambda>v. v" q "al_items (el_store c)"] by (simp_all add: ael_contents_def)

lemma ael_get_draws:
  assumes "el_plain c" "ael_ok bk c" "ael_get_mut bk (\<lambda>v. Some (e v)) q id c = (r, d)"
  shows "el_plain d \<and> ael_contents bk d \<subseteq> ael_contents bk c \<and>
      (\<exists>x. r = Returns x \<and> (\<forall>v. x = Some v \<longrightarrow> (q, v) \<in> ael_contents bk c))"
proof (cases "a_find bk q (al_items (el_store c))")
  case None
  then show ?thesis
    using assms by (auto simp: ael_get_mut_def ael_stale_def ael_expire_def ael_inner_def al_pop_def al_set_items_def
        el_miss_def el_plain_def ael_contents_def a_without_absent comp_simps)
next
  case (Some kv)
  then obtain k v where kv: "a_find bk q (al_items (el_store c)) = Some (k, v)" by (cases kv) simp
  show ?thesis
    using assms kv ael_found [OF kv] ael_serve_apply [OF kv, of id]
    by (cases "e v")
      (auto simp: ael_get_mut_def ael_stale_def ael_expire_def ael_inner_def al_pop_def al_set_items_def el_miss_def
        el_report_apply el_plain_def ael_contents_def ael_ok_def comp_simps)
qed

lemma ael_status_draws:
  assumes "el_plain c" "ael_ok bk c" "ael_get_with_expiry_status bk (\<lambda>v. Some (e v)) q c = (r, d)"
  shows "el_plain d \<and> ael_contents bk d \<subseteq> ael_contents bk c \<and>
      (\<exists>x. r = Returns x \<and> (\<forall>v. fst x = Some v \<longrightarrow> (q, v) \<in> ael_contents bk c))"
proof (cases "a_find bk q (al_items (el_store c))")
  case None
  then show ?thesis
    using assms by (auto simp: ael_get_with_expiry_status_def ael_stale_def ael_peek_def el_miss_def el_plain_def
        ael_contents_def comp_simps)
next
  case (Some kv)
  then obtain k v where kv: "a_find bk q (al_items (el_store c)) = Some (k, v)" by (cases kv) simp
  show ?thesis
    using assms kv ael_found [OF kv] ael_serve_apply [OF kv, of id]
    by (cases "e v")
      (auto simp: ael_get_with_expiry_status_def ael_stale_def ael_peek_def el_miss_def el_plain_def
        ael_contents_def ael_ok_def comp_simps)
qed

lemma ael_set_puts:
  assumes "el_plain c" "ael_ok bk c" "ael_set bk (\<lambda>v. Some (e v)) k v c = (r, d)"
  shows "el_plain d \<and> ael_contents bk d \<subseteq> insert (bk k, v) (ael_contents bk c) \<and> (\<exists>x. r = Returns x)"
proof -
  obtain rs ds where s: "al_set bk k v (el_store c) = (rs, ds)" by force
  have "contents_of bk (\<lambda>v. v) (al_items ds) \<subseteq> insert (bk k, v) (ael_contents bk c)"
    "rs = Returns (a_find bk (bk k) (al_items (el_store c)))"
    using al_set_puts [OF _ _ s, of "\<lambda>v. v"] assms(1,2)
    by (auto simp: el_plain_def ael_ok_def al_plain_def al_contents_def ael_contents_def)
  then show ?thesis
    using assms(1,3) s
    by (cases "a_find bk (bk k) (al_items (el_store c))")
      (auto simp: ael_set_def ael_inner_def el_plain_def el_report_apply comp_simps
        ael_contents_def split: if_splits del: subsetI)
qed

lemma ael_ok_abs: "hash_table T entries \<Longrightarrow> el_wf entries bk c \<Longrightarrow> ael_ok bk (el_abs c)"
  by (simp add: ael_ok_def el_wf_def hash_table.lru_wf_a_wf)

sublocale hash_table \<subseteq> elru_memo: memo_clone_store "\<lambda>now k. elru_cache_get T bk (\<lambda>v. Some (e v)) (bk k)"
    "\<lambda>now. elru_cache_set T bk (\<lambda>v. Some (e v))" bk
    "\<lambda>c. el_wf entries bk c \<and> el_plain (el_abs c)" "\<lambda>c. ael_contents bk (el_abs c)"
    "\<lambda>now k. elru_cache_get_with_expiry_status T bk (\<lambda>v. Some (e v)) (bk k)"
    "\<lambda>now k. elru_cache_peek_with_expiry_status T bk (\<lambda>v. Some (e v)) (bk k)"
  for bk :: "'k \<Rightarrow> 'q" and e :: "'v \<Rightarrow> bool"
proof unfold_locales
  fix now :: instant and k :: 'k and v :: 'v
  let ?ok = "\<lambda>c. el_wf entries bk c \<and> el_plain (el_abs c)" and ?contents = "\<lambda>c. ael_contents bk (el_abs c)"
    and ?exp = "\<lambda>v. Some (e v)"
  note ok = ael_ok_abs [OF hash_table_axioms]
  show "draws ?ok ?contents (\<lambda>x. x) (bk k) (elru_cache_get T bk ?exp (bk k))"
    by (rule refines_draws [where R = "ael_ok bk", OF refines_el_lookups(2) ok], assumption) (rule ael_get_draws)
  show "draws ?ok ?contents fst (bk k) (elru_cache_get_with_expiry_status T bk ?exp (bk k))"
    by (rule refines_draws [where R = "ael_ok bk", OF refines_el_lookups(3) ok], assumption) (rule ael_status_draws)
  have "draws ?ok ?contents (\<lambda>x. x) (bk k) (el_inner (lru_cache_peek T bk (bk k)))"
    by (rule refines_draws [where R = "\<lambda>_. True", OF refines_el_peek]) (use ael_peek_draws in force)+
  then have "draws ?ok ?contents fst (bk k) (andthen (el_inner (lru_cache_peek T bk (bk k)))
      (\<lambda>found. ret (case found of Some v \<Rightarrow> (Some v, e v) | None \<Rightarrow> (None, False))))"
    by (rule draws_narrow) (auto split: option.splits)
  moreover have "elru_cache_peek_with_expiry_status T bk ?exp (bk k) = andthen (el_inner (lru_cache_peek T bk (bk k)))
      (\<lambda>found. ret (case found of Some v \<Rightarrow> (Some v, e v) | None \<Rightarrow> (None, False)))"
    unfolding elru_cache_peek_with_expiry_status_def
    by (rule arg_cong [of _ _ "andthen _"]) (simp add: fun_eq_iff comp_simps split: option.split)
  ultimately show "draws ?ok ?contents fst (bk k) (elru_cache_peek_with_expiry_status T bk ?exp (bk k))" by simp
  show "puts ?ok ?contents (bk k) v (elru_cache_set T bk ?exp k v)"
    by (rule refines_puts [where R = "ael_ok bk", OF refines_el_sets(1) ok], assumption) (rule ael_set_puts)
qed

end
