(* ===== verification/Cached_Attrs.thy ===== *)
theory Cached_Attrs
  imports Macro_Helpers
begin

text \<open>
  The expansion of \<open>#[cached]\<close> (\<open>cached_proc_macro/src/cached.rs\<close>): every check of the attributes and of the
  signature in the order of the code, and the plan of what is generated. \<open>Memo_Cached\<close> has the
  behaviour of the generated function. Documentation attributes, lint attributes and the position of
  tokens are not modelled. \<open>unreachable!\<close> and \<open>expect\<close> of the macro are panics here.
\<close>

section \<open>Attributes\<close>

datatype sync_lock = LockMutex | LockRwLock

definition sync_lock_from_string :: "string \<Rightarrow> sync_lock option" where
  "sync_lock_from_string value =
     (if value = ''mutex'' then Some LockMutex
      else if value = ''rwlock'' \<or> value = ''rw_lock'' then Some LockRwLock
      else None)"

record cached_macro_args =
  ca_name :: "string option"
  ca_unbound :: bool
  ca_max_size :: "usize option"
  ca_ttl :: "string option"
  ca_ttl_secs :: "u64 option"
  ca_ttl_millis :: "u64 option"
  ca_refresh :: bool
  ca_time :: "u64 option"
  ca_time_refresh :: "bool option"
  ca_size :: "usize option"
  ca_key :: "string option"
  ca_convert :: "rust_expr option"
  ca_cache_err :: bool
  ca_cache_none :: bool
  ca_sync_writes :: "sync_write_mode option"
  ca_sync_writes_buckets :: "usize option"
  ca_sync_lock :: "sync_lock option"
  ca_with_cached_flag :: bool
  ca_ty :: "string option"
  ca_create :: "rust_expr option"
  ca_result_fallback :: bool
  ca_unsync_reads :: bool
  ca_expires :: bool
  ca_force_refresh :: "rust_expr option"
  ca_companions_vis :: "string option"
  ca_companions :: "bool option"
  ca_in_impl :: bool
  ca_result :: "bool option"
  ca_option :: "bool option"

text \<open>\<open>#[darling(default)]\<close> on every field.\<close>

definition cached_macro_args_default :: cached_macro_args where
  "cached_macro_args_default = \<lparr>ca_name = None, ca_unbound = False, ca_max_size = None, ca_ttl = None,
     ca_ttl_secs = None, ca_ttl_millis = None, ca_refresh = False, ca_time = None, ca_time_refresh = None,
     ca_size = None, ca_key = None, ca_convert = None, ca_cache_err = False, ca_cache_none = False,
     ca_sync_writes = None, ca_sync_writes_buckets = None, ca_sync_lock = None, ca_with_cached_flag = False,
     ca_ty = None, ca_create = None, ca_result_fallback = False, ca_unsync_reads = False, ca_expires = False,
     ca_force_refresh = None, ca_companions_vis = None, ca_companions = None, ca_in_impl = False,
     ca_result = None, ca_option = None\<rparr>"

definition default_sync_writes_buckets :: usize where
  "default_sync_writes_buckets = 64"

text \<open>What the macros read of the signature of the annotated function.\<close>

record fn_signature =
  sg_ident :: string
  sg_inputs :: "fn_arg list"
  sg_output :: return_type
  sg_async :: bool
  sg_generic :: bool

definition has_receiver :: "fn_signature \<Rightarrow> bool" where
  "has_receiver sig = list_ex (\<lambda>i. case i of Receiver \<Rightarrow> True | _ \<Rightarrow> False) (sg_inputs sig)"

definition check_create_conflicts :: "cached_macro_args \<Rightarrow> macro_error + unit" where
  "check_create_conflicts args =
     (let conflicting = map snd (filter fst [
         (\<not> Option.is_none (ca_ttl args), ''ttl''),
         (\<not> Option.is_none (ca_ttl_secs args), ''ttl_secs''),
         (\<not> Option.is_none (ca_ttl_millis args), ''ttl_millis''),
         (ca_refresh args, ''refresh''),
         (\<not> Option.is_none (ca_max_size args), ''max_size'')])
      in if conflicting = [] then Inr () else Inl (CreateConflict conflicting))"

section \<open>The plan\<close>

datatype store_plan =
    PlanUnbound
  | PlanLru usize
  | PlanTtl ttl_tokens bool
  | PlanLruTtl usize ttl_tokens bool
  | PlanExpiring
  | PlanExpiringLru usize
  | PlanCustom rust_type rust_expr

record cached_plan =
  cp_store :: store_plan
  cp_key :: key_plan
  cp_value :: value_type
  cp_smart_result :: bool
  cp_smart_option :: bool
  cp_with_cached_flag :: bool
  cp_sync_writes :: sync_write_mode
  cp_buckets :: usize
  cp_use_rwlock :: bool
  cp_result_fallback :: bool
  cp_unsync_reads :: bool
  cp_force_refresh :: "rust_stmt list option"
  cp_cache_ident :: string
  cp_static_in_body :: bool
  cp_nest_origin_fn :: bool
  cp_prime_fn :: bool
  cp_time_stores_guard :: bool

definition strip_prefix :: "string \<Rightarrow> string \<Rightarrow> string option" where
  "strip_prefix p s = (if take (length p) s = p then Some (drop (length p) s) else None)"

text \<open>Identifiers are ASCII here; a lower case letter is a code from 97 to 122.\<close>

definition to_uppercase :: "string \<Rightarrow> string" where
  "to_uppercase s = map (\<lambda>c. let n = of_char c :: nat in if 97 \<le> n \<and> n \<le> 122 then char_of (n - 32) else c) s"

definition cache_ident_of :: "syn_parsers \<Rightarrow> string option \<Rightarrow> string \<Rightarrow> macro_error + string" where
  "cache_ident_of syn name fn_ident = (case name of
       Some name \<Rightarrow>
         if \<not> parse_ident syn name then Inl NameNotIdent
         else (let bare = (case strip_prefix ''r#'' name of Some s \<Rightarrow> s | None \<Rightarrow> name) in
           if strip_prefix ''__cached'' bare \<noteq> None then Inl NameReserved
           else Inr bare)
     | None \<Rightarrow> Inr (to_uppercase fn_ident))"

text \<open>The checks before the return type is looked at.\<close>

definition cached_check_target :: "syn_parsers \<Rightarrow> cached_macro_args \<Rightarrow> fn_signature \<Rightarrow> macro_error + unit" where
  "cached_check_target syn args sig =
     (let companions = (case ca_companions args of None \<Rightarrow> True | Some b \<Rightarrow> b);
          nest_origin_fn = (\<not> companions \<and> \<not> ca_in_impl args)
      in first_error [
       (case ca_companions_vis args of None \<Rightarrow> False | Some s \<Rightarrow> s \<noteq> '''' \<and> \<not> parse_visibility syn s, CompanionsVisUnparsable),
       (has_receiver sig \<and> \<not> ca_in_impl args, SelfWithoutInImpl),
       (ca_in_impl args \<and> \<not> has_receiver sig, InImplWithoutSelf),
       (nest_origin_fn \<and> \<not> Option.is_none (ca_companions_vis args), CompanionsVisInert),
       (sg_generic sig \<and> Option.is_none (ca_convert args), GenericWithoutConvert),
       (ca_max_size args = Some 0, MaxSizeZero),
       (ca_expires args \<and> \<not> Option.is_none (ca_ttl_secs args), ExpiresConflict ''ttl_secs''),
       (ca_expires args \<and> \<not> Option.is_none (ca_ttl_millis args), ExpiresConflict ''ttl_millis''),
       (ca_expires args \<and> \<not> Option.is_none (ca_ttl args), ExpiresConflict ''ttl'')])"

definition cached_check_attrs :: "cached_macro_args \<Rightarrow> bool \<Rightarrow> macro_error + unit" where
  "cached_check_attrs args has_ttl = first_error [
       (\<not> Option.is_none (ca_time args), Removed ''time''),
       (\<not> Option.is_none (ca_time_refresh args), Removed ''time_refresh''),
       (ca_unbound args, Removed ''unbound''),
       (\<not> Option.is_none (ca_size args), Removed ''size''),
       (\<not> Option.is_none (ca_result args), Removed ''result''),
       (\<not> Option.is_none (ca_option args), Removed ''option''),
       (ca_expires args \<and> \<not> Option.is_none (ca_ty args), ExpiresConflict ''ty''),
       (ca_expires args \<and> \<not> Option.is_none (ca_create args), ExpiresConflict ''create''),
       (ca_expires args \<and> ca_with_cached_flag args, ExpiresConflict ''with_cached_flag''),
       (ca_expires args \<and> ca_unsync_reads args, ExpiresConflict ''unsync_reads''),
       (ca_expires args \<and> ca_refresh args, ExpiresConflict ''refresh''),
       (ca_refresh args \<and> \<not> has_ttl \<and> \<not> ca_expires args \<and> Option.is_none (ca_create args), RefreshWithoutTtl),
       (ca_expires args \<and> ca_cache_none args, ExpiresConflict ''cache_none''),
       (ca_expires args \<and> ca_cache_err args, ExpiresConflict ''cache_err'')]"

definition cached_check_return :: "cached_macro_args \<Rightarrow> return_type \<Rightarrow> macro_error + unit" where
  "cached_check_return args output = first_error [
       (check_with_cache_flag (ca_with_cached_flag args) output, WithCachedFlagType),
       (ca_cache_err args \<and> \<not> is_result_return_type output, CacheErrNotResult),
       (ca_cache_none args \<and> \<not> is_option_return_type output, CacheNoneNotOption),
       (ca_cache_err args \<and> ca_result_fallback args, CacheErrFallback),
       (ca_result_fallback args \<and> ca_with_cached_flag args, FallbackWithFlag),
       (ca_cache_none args \<and> ca_with_cached_flag args, CacheNoneWithFlag)]"

text \<open>The store: \<open>cache_ty\<close> and \<open>cache_create\<close>. The value \<open>ttl_duration\<close> must be there when \<open>has_ttl\<close> is set.\<close>

definition cached_store :: "syn_parsers \<Rightarrow> cached_macro_args \<Rightarrow> bool \<Rightarrow> ttl_tokens option
    \<Rightarrow> (macro_error + store_plan) outcome" where
  "cached_store syn args has_ttl ttl_duration =
     (if ca_expires args then Returns (Inr (case ca_max_size args of
          Some n \<Rightarrow> PlanExpiringLru n | None \<Rightarrow> PlanExpiring))
      else case (ca_max_size args, has_ttl, ca_ty args, ca_create args) of
          (Some n, False, None, None) \<Rightarrow> Returns (Inr (PlanLru n))
        | (None, True, None, None) \<Rightarrow> (case ttl_duration of
            Some d \<Rightarrow> Returns (Inr (PlanTtl d (ca_refresh args))) | None \<Rightarrow> Panics)
        | (Some n, True, None, None) \<Rightarrow> (case ttl_duration of
            Some d \<Rightarrow> Returns (Inr (PlanLruTtl n d (ca_refresh args))) | None \<Rightarrow> Panics)
        | (None, False, None, None) \<Rightarrow> Returns (Inr PlanUnbound)
        | (None, False, Some type_str, Some create_expr) \<Rightarrow> Returns (case parse_type syn type_str of
            Some ty \<Rightarrow> Inr (PlanCustom ty (expr_value_tokens create_expr)) | None \<Rightarrow> Inl CacheTypeUnparsable)
        | (None, False, Some _, None) \<Rightarrow> Returns (Inl TyWithoutCreate)
        | (None, False, None, Some _) \<Rightarrow> Returns (Inl CreateWithoutTy)
        | _ \<Rightarrow> Returns (Inl StoresExclusive))"

definition cached_check_modes :: "cached_macro_args \<Rightarrow> return_type \<Rightarrow> bool \<Rightarrow> macro_error + usize" where
  "cached_check_modes args output has_ttl =
     (let sync_writes = (case ca_sync_writes args of None \<Rightarrow> Disabled | Some m \<Rightarrow> m);
          buckets = (case ca_sync_writes_buckets args of None \<Rightarrow> default_sync_writes_buckets | Some n \<Rightarrow> n)
      in try_then (first_error [(\<not> Option.is_none (ca_sync_writes_buckets args) \<and> sync_writes \<noteq> ByKey, BucketsInert)]) (\<lambda>_.
         try_then (validate_sync_writes_buckets buckets) (\<lambda>_.
         try_then (first_error [
           (ca_result_fallback args \<and> \<not> Option.is_none (ca_sync_writes args) \<and> sync_writes \<noteq> Disabled, FallbackWithSyncWrites),
           (ca_result_fallback args \<and> \<not> is_result_return_type output, FallbackNotResult),
           (ca_result_fallback args \<and> Option.is_none (ca_ty args) \<and> \<not> has_ttl \<and> \<not> ca_expires args, FallbackStore),
           (ca_unsync_reads args \<and> ca_sync_lock args = Some LockMutex, UnsyncMutex),
           (ca_unsync_reads args \<and> Option.is_none (ca_ty args) \<and> (\<not> Option.is_none (ca_max_size args) \<or> has_ttl), UnsyncStore)]) (\<lambda>_.
         Inr buckets))))"

text \<open>What is generated once every check has passed.\<close>

definition is_smart_result :: "cached_macro_args \<Rightarrow> fn_signature \<Rightarrow> bool" where
  "is_smart_result args sig \<longleftrightarrow> is_result_return_type (sg_output sig) \<and> \<not> ca_cache_err args"

definition is_smart_option :: "cached_macro_args \<Rightarrow> fn_signature \<Rightarrow> bool" where
  "is_smart_option args sig \<longleftrightarrow> is_option_return_type (sg_output sig) \<and> \<not> ca_cache_none args"

definition cached_plan_of :: "cached_macro_args \<Rightarrow> fn_signature \<Rightarrow> bool \<Rightarrow> value_type \<Rightarrow> string \<Rightarrow> key_plan
    \<Rightarrow> store_plan \<Rightarrow> usize \<Rightarrow> rust_stmt list option \<Rightarrow> cached_plan" where
  "cached_plan_of args sig has_ttl value_ty cache_ident key store buckets block =
     (let companions = (case ca_companions args of None \<Rightarrow> True | Some b \<Rightarrow> b) in
      \<lparr>cp_store = store, cp_key = key, cp_value = value_ty,
       cp_smart_result = is_smart_result args sig, cp_smart_option = is_smart_option args sig,
       cp_with_cached_flag = ca_with_cached_flag args,
       cp_sync_writes = (case ca_sync_writes args of None \<Rightarrow> Disabled | Some m \<Rightarrow> m), cp_buckets = buckets,
       cp_use_rwlock = (case ca_sync_lock args of Some LockMutex \<Rightarrow> False | _ \<Rightarrow> True),
       cp_result_fallback = ca_result_fallback args, cp_unsync_reads = ca_unsync_reads args,
       cp_force_refresh = block, cp_cache_ident = cache_ident, cp_static_in_body = ca_in_impl args,
       cp_nest_origin_fn = (\<not> companions \<and> \<not> ca_in_impl args),
       cp_prime_fn = (\<not> ca_in_impl args \<and> companions),
       cp_time_stores_guard = (has_ttl \<and> Option.is_none (ca_ty args))\<rparr>)"

text \<open>A check that ends the expansion with its error, followed by the rest of the expansion.\<close>

definition expand_then :: "macro_error + 'a \<Rightarrow> ('a \<Rightarrow> (macro_error + 'b) outcome) \<Rightarrow> (macro_error + 'b) outcome" where
  "expand_then r k = (case r of Inl e \<Rightarrow> Returns (Inl e) | Inr x \<Rightarrow> k x)"

definition expand_run :: "(macro_error + 'a) outcome \<Rightarrow> ('a \<Rightarrow> (macro_error + 'b) outcome) \<Rightarrow> (macro_error + 'b) outcome" where
  "expand_run m k = (case m of Returns r \<Rightarrow> expand_then r k | Panics \<Rightarrow> Panics | Diverges \<Rightarrow> Diverges)"

definition cached :: "syn_parsers \<Rightarrow> nested_meta list \<Rightarrow> cached_macro_args \<Rightarrow> fn_signature
    \<Rightarrow> (macro_error + cached_plan) outcome" where
  "cached syn attrs args sig =
    (expand_then (reject_concurrent_only_attrs attrs) (\<lambda>_.
      expand_then (cached_check_target syn args sig) (\<lambda>_.
      expand_then (resolve_ttl_duration syn (ca_ttl args) (ca_ttl_secs args) (ca_ttl_millis args)) (\<lambda>(has_ttl, ttl_duration).
      expand_then (cached_check_attrs args has_ttl) (\<lambda>_.
      expand_then (cached_check_return args (sg_output sig)) (\<lambda>_.
      expand_then (find_value_type (is_smart_result args sig) (is_smart_option args sig) (sg_output sig)) (\<lambda>value_ty.
      expand_then (cache_ident_of syn (ca_name args) (sg_ident sig)) (\<lambda>cache_ident.
      expand_then (make_cache_key_type syn (ca_key args) (ca_convert args) (ca_ty args)
          (get_input_types (sg_inputs sig)) (get_input_names (sg_inputs sig))) (\<lambda>key.
      expand_then (if Option.is_none (ca_create args) then Inr () else check_create_conflicts args) (\<lambda>_.
      expand_run (cached_store syn args has_ttl ttl_duration) (\<lambda>store.
          if is_smart_result args sig \<and> is_smart_option args sig then Panics
          else
            expand_then (cached_check_modes args (sg_output sig) has_ttl) (\<lambda>buckets.
            expand_then (parse_force_refresh_block (ca_force_refresh args)) (\<lambda>block.
            Returns (Inr (cached_plan_of args sig has_ttl value_ty cache_ident key store buckets block)))))))))))))))"

end
