(* ===== verification/Memo_Static.thy ===== *)
theory Memo_Static
  imports Memo_Stores Cached_Attrs
begin

text \<open>
  The static that \<open>#[cached]\<close> generates: one of the six stores of the crate, created by the builder calls
  of the plan, and the functions of the plan over it. Which trait methods a store has is decided by
  the \<open>impl\<close> blocks of \<open>src/stores\<close>; a call of a method that is not there does not compile, and is a panic
  here.
\<close>

section \<open>The store behind the lock\<close>

datatype ('k, 'v, 'q, 't) static_cache =
    SUnbound "('k, 'v) unbound_cache"
  | SLru "('k, 'v, 'q, 't) lru_cache"
  | STtl "('k, 'v) ttl_cache"
  | SLruTtl "('k, 'v, 'q, 't) lttl"
  | SExpiring "('k, 'v) expiring_cache"
  | SExpiringLru "('k, 'v, 'q, 't) elru"

text \<open>
  What the generated code relies on: the hash table and its hasher, the allocator, the equality of keys
  by the value that \<open>Borrow\<close> gives, \<open>is_expired\<close> of the values, and the value of a \<open>ttl\<close> expression.
\<close>

record ('k, 'v, 'q, 't) static_env =
  se_table :: "'t table_ops"
  se_table_alloc :: "usize \<Rightarrow> bool"
  se_list_alloc :: "usize \<Rightarrow> bool"
  se_hasher :: "'q \<Rightarrow> u64"
  se_borrow :: "'k \<Rightarrow> 'q"
  se_is_expired :: "'v \<Rightarrow> bool"
  se_stripe :: nat
  se_ttl :: "rust_expr \<Rightarrow> duration"
  se_create :: "rust_type \<Rightarrow> rust_expr \<Rightarrow> ('k, 'v, 'q, 't) static_cache outcome"

definition ttl_value :: "(rust_expr \<Rightarrow> duration) \<Rightarrow> ttl_tokens \<Rightarrow> duration" where
  "ttl_value eval d = (case d of
       TtlTokens e \<Rightarrow> eval e
     | FromSecs n \<Rightarrow> unat n * 1000000000
     | FromMillis n \<Rightarrow> unat n * 1000000)"

text \<open>\<open>build().unwrap_or_else(|e| panic!(...))\<close>.\<close>

definition unwrap_build :: "('c \<Rightarrow> 's) \<Rightarrow> build_error + 'c \<Rightarrow> 's outcome" where
  "unwrap_build C r = (case r of Inl e \<Rightarrow> Panics | Inr c \<Rightarrow> Returns (C c))"

definition cache_create :: "('k, 'v, 'q, 't) static_env \<Rightarrow> store_plan \<Rightarrow> ('k, 'v, 'q, 't) static_cache outcome" where
  "cache_create E store = (case store of
       PlanUnbound \<Rightarrow> unwrap_build SUnbound (unbound_build unbound_builder_default)
     | PlanLru n \<Rightarrow> unwrap_build SLru (lru_build (se_table E) (se_table_alloc E) (se_list_alloc E)
         (lru_builder_max_size n (lru_builder_default (se_hasher E))))
     | PlanTtl d refresh \<Rightarrow> unwrap_build STtl (ttl_build
         (ttl_builder_refresh_on_hit refresh (ttl_builder_ttl (ttl_value (se_ttl E) d) ttl_builder_default)))
     | PlanLruTtl n d refresh \<Rightarrow> unwrap_build SLruTtl (lttl_build_no_evict (se_table E) (se_table_alloc E) (se_list_alloc E)
         (lttl_builder_refresh_on_hit refresh (lttl_builder_ttl (ttl_value (se_ttl E) d)
           (lttl_builder_max_size n (lttl_builder_default (se_hasher E))))))
     | PlanExpiring \<Rightarrow> unwrap_build SExpiring (expiring_build expiring_builder_default)
     | PlanExpiringLru n \<Rightarrow> unwrap_build SExpiringLru (elru_build (se_table E) (se_table_alloc E) (se_list_alloc E)
         (elru_builder_max_size n (elru_builder_default (se_hasher E))))
     | PlanCustom ty expr \<Rightarrow> se_create E ty expr)"

section \<open>Calls on the store\<close>

definition lift_store :: "('c \<Rightarrow> 's) \<Rightarrow> ('c, 'a) comp \<Rightarrow> 'c \<Rightarrow> 'a outcome \<times> 's" where
  "lift_store C m c = (case m c of (r, d) \<Rightarrow> (r, C d))"

lemma lift_store_simps [simp]: "fst (lift_store C m c) = fst (m c)" "snd (lift_store C m c) = C (snd (m c))"
  by (simp_all add: lift_store_def case_prod_beta)

definition static_get :: "('k, 'v, 'q, 't) static_env \<Rightarrow> instant \<Rightarrow> 'k \<Rightarrow> (('k, 'v, 'q, 't) static_cache, 'v option) comp" where
  "static_get E now k s = (let bk = se_borrow E; T = se_table E; exp = (\<lambda>v. Some (se_is_expired E v)) in case s of
       SUnbound c \<Rightarrow> lift_store SUnbound (unbound_cache_get bk (bk k)) c
     | SLru c \<Rightarrow> lift_store SLru (lru_cache_get T bk (bk k)) c
     | STtl c \<Rightarrow> lift_store STtl (ttl_cache_get bk now (bk k)) c
     | SLruTtl c \<Rightarrow> lift_store SLruTtl (lttl_cache_get T bk now (bk k)) c
     | SExpiring c \<Rightarrow> lift_store SExpiring (expiring_cache_get bk exp (bk k)) c
     | SExpiringLru c \<Rightarrow> lift_store SExpiringLru (elru_cache_get T bk exp (bk k)) c)"

definition static_set :: "('k, 'v, 'q, 't) static_env \<Rightarrow> instant \<Rightarrow> 'k \<Rightarrow> 'v \<Rightarrow> (('k, 'v, 'q, 't) static_cache, 'v option) comp" where
  "static_set E now k v s = (let bk = se_borrow E; T = se_table E; exp = (\<lambda>v. Some (se_is_expired E v)) in case s of
       SUnbound c \<Rightarrow> lift_store SUnbound (unbound_cache_set bk k v) c
     | SLru c \<Rightarrow> lift_store SLru (lru_cache_set T bk k v) c
     | STtl c \<Rightarrow> lift_store STtl (ttl_cache_set bk now k v) c
     | SLruTtl c \<Rightarrow> lift_store SLruTtl (lttl_cache_set T bk now k v) c
     | SExpiring c \<Rightarrow> lift_store SExpiring (expiring_cache_set bk exp k v) c
     | SExpiringLru c \<Rightarrow> lift_store SExpiringLru (elru_cache_set T bk exp k v) c)"

text \<open>\<open>CachedRead\<close> and, where it is called with it, \<open>CachedPeek\<close>.\<close>

definition static_get_read :: "('k, 'v, 'q, 't) static_env \<Rightarrow> instant \<Rightarrow> 'k \<Rightarrow> (('k, 'v, 'q, 't) static_cache, 'v option) comp" where
  "static_get_read E now k s = (case s of
       SUnbound c \<Rightarrow> lift_store SUnbound (unbound_cache_get_read (se_borrow E) (se_stripe E) (se_borrow E k)) c
     | _ \<Rightarrow> (Panics, s))"

definition static_peek_is_some :: "('k, 'v, 'q, 't) static_env \<Rightarrow> instant \<Rightarrow> 'k \<Rightarrow> (('k, 'v, 'q, 't) static_cache, bool) comp" where
  "static_peek_is_some E now k s = (case s of
       SUnbound c \<Rightarrow> (Returns (\<not> Option.is_none (unbound_cache_peek (se_borrow E) (se_borrow E k) c)), s)
     | _ \<Rightarrow> (Panics, s))"

text \<open>\<open>CloneCached\<close>.\<close>

definition static_get_status :: "('k, 'v, 'q, 't) static_env \<Rightarrow> instant \<Rightarrow> 'k
    \<Rightarrow> (('k, 'v, 'q, 't) static_cache, 'v option \<times> bool) comp" where
  "static_get_status E now k s = (let bk = se_borrow E; T = se_table E; exp = (\<lambda>v. Some (se_is_expired E v)) in case s of
       STtl c \<Rightarrow> lift_store STtl (ttl_cache_get_with_expiry_status bk now (bk k)) c
     | SLruTtl c \<Rightarrow> lift_store SLruTtl (lttl_cache_get_with_expiry_status T bk now (bk k)) c
     | SExpiring c \<Rightarrow> lift_store SExpiring (expiring_cache_get_with_expiry_status bk exp (bk k)) c
     | SExpiringLru c \<Rightarrow> lift_store SExpiringLru (elru_cache_get_with_expiry_status T bk exp (bk k)) c
     | _ \<Rightarrow> (Panics, s))"

definition static_peek_status :: "('k, 'v, 'q, 't) static_env \<Rightarrow> instant \<Rightarrow> 'k
    \<Rightarrow> (('k, 'v, 'q, 't) static_cache, 'v option \<times> bool) comp" where
  "static_peek_status E now k s = (let bk = se_borrow E; T = se_table E; exp = (\<lambda>v. Some (se_is_expired E v)) in case s of
       STtl c \<Rightarrow> (Returns (ttl_cache_peek_with_expiry_status bk now (bk k) c), s)
     | SLruTtl c \<Rightarrow> lift_store SLruTtl (lttl_cache_peek_with_expiry_status T bk now (bk k)) c
     | SExpiring c \<Rightarrow> lift_store SExpiring (expiring_cache_peek_with_expiry_status bk exp (bk k)) c
     | SExpiringLru c \<Rightarrow> lift_store SExpiringLru (elru_cache_peek_with_expiry_status T bk exp (bk k)) c
     | _ \<Rightarrow> (Panics, s))"

definition static_traits :: "('k, 'v, 'q, 't) static_env \<Rightarrow> (('k, 'v, 'q, 't) static_cache, 'k, 'v) memo_traits" where
  "static_traits E = \<lparr>mt_get_read = static_get_read E, mt_peek_is_some = static_peek_is_some E,
     mt_get_status = static_get_status E, mt_peek_status = static_peek_status E\<rparr>"

section \<open>The generated functions\<close>

text \<open>
  The annotated function: the key of its arguments, its body, what of its result is stored, its
  \<open>force_refresh\<close> block.
\<close>

record ('a, 'k, 'v, 'r, 's) user_fn =
  uf_key :: "'a \<Rightarrow> 'k"
  uf_body :: "'a \<Rightarrow> ('s, 'r) proc"
  uf_shape :: "('r, 'v) value_shape"
  uf_force_refresh :: "('a \<Rightarrow> bool outcome) option"
  uf_bucket_hash :: "'k \<Rightarrow> u64"

type_synonym ('k, 'v, 'q, 't, 'u) static_state = "(('k, 'v, 'q, 't) static_cache, 'u) memo_state"

definition static_fn :: "('k, 'v, 'q, 't) static_env \<Rightarrow> ('a, 'k, 'v, 'r, ('k, 'v, 'q, 't, 'u) static_state) user_fn
    \<Rightarrow> ('a, 'k, 'v, 'r, ('k, 'v, 'q, 't) static_cache, 'u) cached_fn" where
  "static_fn E U = \<lparr>cf_get = static_get E, cf_set = static_set E, cf_key = uf_key U, cf_body = uf_body U,
     cf_shape = uf_shape U, cf_force_refresh = uf_force_refresh U, cf_hash = uf_bucket_hash U\<rparr>"

text \<open>A call of the function or of its \<open>_prime_cache\<close> companion, with the instants at which it reads the clock.\<close>

datatype 'a memo_call = MCall "nat \<Rightarrow> instant" (mc_args: 'a) | MPrime "nat \<Rightarrow> instant" (mc_args: 'a)

definition generated_fn :: "('k, 'v, 'q, 't) static_env \<Rightarrow> cached_plan
    \<Rightarrow> ('a, 'k, 'v, 'r, ('k, 'v, 'q, 't, 'u) static_state) user_fn
    \<Rightarrow> 'a memo_call \<Rightarrow> (('k, 'v, 'q, 't, 'u) static_state, 'r) proc" where
  "generated_fn E plan U call = (case call of
       MCall clock x \<Rightarrow> do_set_return_block (static_fn E U) (static_traits E) (cp_sync_writes plan)
         (cp_unsync_reads plan) (cp_result_fallback plan) clock x
     | MPrime clock x \<Rightarrow> cached_prime (static_fn E U) (cp_sync_writes plan = ByKey) clock x)"

definition static_init :: "('k, 'v, 'q, 't) static_env \<Rightarrow> cached_plan \<Rightarrow> 'u \<Rightarrow> ('k, 'v, 'q, 't, 'u) static_state outcome" where
  "static_init E plan u = map_outcome (\<lambda>c. keyed_cache_new c (cp_buckets plan) u) (cache_create E (cp_store plan))"

end
