(* ===== verification/Memo_Correct.thy ===== *)
theory Memo_Correct
  imports Memo_Static Lru_Ttl_Machine Expiring_Lru_Machine
begin

text \<open>
  The functions that \<open>#[cached]\<close> generates are correct: the expansion never panics, what it accepts is well
  typed and starts, and every call of the generated functions returns a value that the body produced
  for the same key, however the threads interleave.
\<close>

section \<open>The expansion\<close>



lemma expand_then_Inr: "expand_then r k = Returns (Inr y) \<longleftrightarrow> (\<exists>x. r = Inr x \<and> k x = Returns (Inr y))"
  by (simp add: expand_then_def split: sum.split)

lemma expand_run_Inr: "expand_run m k = Returns (Inr y) \<longleftrightarrow> (\<exists>x. m = Returns (Inr x) \<and> k x = Returns (Inr y))"
  by (auto simp: expand_run_def expand_then_Inr split: outcome.split)




text \<open>What an accepted attribute list has passed.\<close>

lemma cached_accepted:
  assumes "cached syn attrs args sig = Returns (Inr plan)"
  obtains has_ttl d value_ty ident key store buckets block where
    "cached_check_target syn args sig = Inr ()"
    "resolve_ttl_duration syn (ca_ttl args) (ca_ttl_secs args) (ca_ttl_millis args) = Inr (has_ttl, d)"
    "cached_check_attrs args has_ttl = Inr ()" "cached_check_return args (sg_output sig) = Inr ()"
    "find_value_type (is_smart_result args sig) (is_smart_option args sig) (sg_output sig) = Inr value_ty"
    "cache_ident_of syn (ca_name args) (sg_ident sig) = Inr ident"
    "ca_create args = None \<or> check_create_conflicts args = Inr ()"
    "cached_store syn args has_ttl d = Returns (Inr store)"
    "cached_check_modes args (sg_output sig) has_ttl = Inr buckets"
    "plan = cached_plan_of args sig has_ttl value_ty ident key store buckets block"
proof -
  have "\<exists>has_ttl d value_ty ident key store buckets block.
    cached_check_target syn args sig = Inr () \<and>
    resolve_ttl_duration syn (ca_ttl args) (ca_ttl_secs args) (ca_ttl_millis args) = Inr (has_ttl, d) \<and>
    cached_check_attrs args has_ttl = Inr () \<and> cached_check_return args (sg_output sig) = Inr () \<and>
    find_value_type (is_smart_result args sig) (is_smart_option args sig) (sg_output sig) = Inr value_ty \<and>
    cache_ident_of syn (ca_name args) (sg_ident sig) = Inr ident \<and>
    (ca_create args = None \<or> check_create_conflicts args = Inr ()) \<and>
    cached_store syn args has_ttl d = Returns (Inr store) \<and>
    cached_check_modes args (sg_output sig) has_ttl = Inr buckets \<and>
    plan = cached_plan_of args sig has_ttl value_ty ident key store buckets block"
    using assms unfolding cached_def
    by (auto simp: expand_then_Inr expand_run_Inr Option.is_none_def split: if_splits)
  then show thesis using that by blast
qed


text \<open>
  The traits that the generated code calls on a store, from the \<open>impl\<close> blocks of the stores. Of a store
  that the user names nothing is known here; the compiler checks it.
\<close>

definition implements_cached_read :: "store_plan \<Rightarrow> bool" where
  "implements_cached_read store = (case store of PlanUnbound \<Rightarrow> True | PlanCustom ty e \<Rightarrow> True | _ \<Rightarrow> False)"

definition implements_clone_cached :: "store_plan \<Rightarrow> bool" where
  "implements_clone_cached store = (case store of PlanUnbound \<Rightarrow> False | PlanLru n \<Rightarrow> False | _ \<Rightarrow> True)"

text \<open>The arguments of the builder calls are in the range that the builders accept.\<close>

definition ttl_in_range :: "ttl_tokens \<Rightarrow> bool" where
  "ttl_in_range d \<longleftrightarrow> d \<noteq> FromSecs 0 \<and> d \<noteq> FromMillis 0"

definition store_in_range :: "store_plan \<Rightarrow> bool" where
  "store_in_range store = (case store of
       PlanLru n \<Rightarrow> 0 < n
     | PlanTtl d refresh \<Rightarrow> ttl_in_range d
     | PlanLruTtl n d refresh \<Rightarrow> 0 < n \<and> ttl_in_range d
     | PlanExpiringLru n \<Rightarrow> 0 < n
     | _ \<Rightarrow> True)"

definition plan_typed :: "fn_signature \<Rightarrow> cached_plan \<Rightarrow> bool" where
  "plan_typed sig plan \<longleftrightarrow>
     store_in_range (cp_store plan) \<and> 0 < cp_buckets plan \<and>
     (cp_unsync_reads plan \<longrightarrow> cp_use_rwlock plan \<and> implements_cached_read (cp_store plan)) \<and>
     (cp_result_fallback plan \<longrightarrow> implements_clone_cached (cp_store plan) \<and> cp_smart_result plan \<and>
        cp_sync_writes plan = Disabled \<and> \<not> cp_with_cached_flag plan) \<and>
     (case cp_value plan of
        InnerArg a \<Rightarrow> (cp_smart_result plan \<noteq> cp_smart_option plan) \<and>
          (\<exists>segs. sg_output sig = ReturnTyped (TyPath segs) \<and> segs \<noteq> [] \<and> (\<exists>as. seg_args (last segs) = ArgsAngle (a # as)))
      | WholeReturn ty \<Rightarrow> \<not> cp_smart_result plan \<and> \<not> cp_smart_option plan \<and> ty = sg_output sig)"

lemma cached_store_in_range:
  assumes "cached_store syn args has_ttl d = Returns (Inr store)" "ca_max_size args \<noteq> Some 0"
    "resolve_ttl_duration syn ttl secs millis = Inr (has_ttl, d)"
  shows "store_in_range store"
proof -
  have "ttl_in_range t" if "d = Some t" for t
    using resolve_ttl_positive [of syn ttl secs millis has_ttl t] assms(3) that by (auto simp: ttl_in_range_def)
  then show ?thesis
    using assms(1,2) by (auto simp: cached_store_def store_in_range_def split: option.splits bool.splits if_splits)
qed

lemma find_value_type_typed:
  assumes "find_value_type a b output = Inr v"
  shows "case v of InnerArg x \<Rightarrow> (a \<noteq> b) \<and> (\<exists>segs. output = ReturnTyped (TyPath segs) \<and> segs \<noteq> [] \<and>
      (\<exists>as. seg_args (last segs) = ArgsAngle (x # as))) | WholeReturn ty \<Rightarrow> \<not> a \<and> \<not> b \<and> ty = output"
  using assms
  by (auto simp: find_value_type_def split: bool.splits return_type.splits rust_type.splits path_arguments.splits
      list.splits if_splits)

lemma cached_plan_sel:
  fixes args sig has_ttl value_ty ident key store buckets block
  defines "p \<equiv> cached_plan_of args sig has_ttl value_ty ident key store buckets block"
  shows "cp_store p = store" "cp_value p = value_ty" "cp_buckets p = buckets" "cp_cache_ident p = ident"
    "cp_smart_result p = is_smart_result args sig" "cp_smart_option p = is_smart_option args sig"
    "cp_with_cached_flag p = ca_with_cached_flag args" "cp_result_fallback p = ca_result_fallback args"
    "cp_unsync_reads p = ca_unsync_reads args"
    "cp_sync_writes p = (case ca_sync_writes args of None \<Rightarrow> Disabled | Some m \<Rightarrow> m)"
    "cp_use_rwlock p = (case ca_sync_lock args of Some LockMutex \<Rightarrow> False | _ \<Rightarrow> True)"
  by (simp_all add: p_def cached_plan_of_def Let_def)

lemma plan_accepted_typed:
  assumes "cached syn attrs args sig = Returns (Inr plan)"
  shows "plan_typed sig plan"
  using assms
proof (rule cached_accepted)
  fix has_ttl d value_ty ident key store buckets block
  assume a: "cached_check_target syn args sig = Inr ()"
    "resolve_ttl_duration syn (ca_ttl args) (ca_ttl_secs args) (ca_ttl_millis args) = Inr (has_ttl, d)"
    "cached_check_attrs args has_ttl = Inr ()" "cached_check_return args (sg_output sig) = Inr ()"
    "find_value_type (is_smart_result args sig) (is_smart_option args sig) (sg_output sig) = Inr value_ty"
    "ca_create args = None \<or> check_create_conflicts args = Inr ()"
    "cached_store syn args has_ttl d = Returns (Inr store)"
    "cached_check_modes args (sg_output sig) has_ttl = Inr buckets"
    and plan: "plan = cached_plan_of args sig has_ttl value_ty ident key store buckets block"
  have range: "store_in_range store"
    using a(1) by (intro cached_store_in_range [OF a(7) _ a(2)]) (simp add: cached_check_target_def Let_def first_error_Inr)
  have modes: "0 < buckets"
    "ca_unsync_reads args \<Longrightarrow> ca_sync_lock args \<noteq> Some LockMutex \<and> implements_cached_read store"
    "ca_result_fallback args \<Longrightarrow> is_result_return_type (sg_output sig) \<and> implements_clone_cached store \<and>
      (case ca_sync_writes args of None \<Rightarrow> Disabled | Some m \<Rightarrow> m) = Disabled"
    using a(3,7,8) by (auto simp: cached_check_modes_def cached_check_attrs_def validate_sync_writes_buckets_def Let_def
        try_then_Inr first_error_Inr cached_store_def implements_cached_read_def implements_clone_cached_def
        Option.is_none_def split: if_splits option.splits bool.splits)
  have "\<not> ca_cache_err args \<and> \<not> ca_with_cached_flag args" if "ca_result_fallback args"
    using a(4) that by (simp_all add: cached_check_return_def first_error_Inr)
  moreover have "case ca_sync_lock args of Some LockMutex \<Rightarrow> False | _ \<Rightarrow> True" if "ca_sync_lock args \<noteq> Some LockMutex"
    using that by (auto split: option.split sync_lock.split)
  ultimately show "plan_typed sig plan"
    using range modes find_value_type_typed [OF a(5)]
    unfolding plan plan_typed_def cached_plan_sel by (simp add: is_smart_result_def)
qed

text \<open>
  C26. An accepted attribute list yields a well-typed plan: the numbers of \<open>max_size\<close>, \<open>ttl_secs\<close>, \<open>ttl_millis\<close> and of
  the buckets are positive; \<open>unsync_reads\<close> only meets an \<open>RwLock\<close> and a store with \<open>CachedRead\<close>; \<open>result_fallback\<close>
  only meets a store with \<open>CloneCached\<close>, an unsynchronized function that returns \<open>Result\<close> and no \<open>Return\<close>
  wrapper; and the type of the stored value is the first argument of the return type exactly where
  one of the two smart shapes is stored.
\<close>

theorem cached_plan_typed:
  assumes "cached syn attrs args sig = Returns (Inr plan)"
  shows "plan_typed sig plan"
  by (rule plan_accepted_typed [OF assms])

text \<open>\<open>fn lookup(name: &str, mut depth: u32) -> Result<u64, String>\<close> with a size, a lifetime and a fallback.\<close>

definition demo_syn :: syn_parsers where
  "demo_syn = \<lparr>parse_type = (\<lambda>s. Some (TyOther s)), parse_expr = (\<lambda>s. Some (ExprOther s)),
     parse_visibility = (\<lambda>_. True), parse_ident = (\<lambda>_. True)\<rparr>"

definition demo_sig :: fn_signature where
  "demo_sig = \<lparr>sg_ident = ''lookup'', sg_inputs = [Typed (PatIdent False ''name'') (TyReference (TyOther ''str'')),
       Typed (PatIdent True ''depth'') (TyPath [PathSegment ''u32'' ArgsNone])],
     sg_output = ReturnTyped (TyPath [PathSegment ''Result'' (ArgsAngle [GenType (TyOther ''u64''), GenType (TyOther ''String'')])]),
     sg_async = False, sg_generic = False\<rparr>"

definition demo_args :: cached_macro_args where
  "demo_args = cached_macro_args_default\<lparr>ca_max_size := Some 2, ca_ttl := Some ''LIFETIME'', ca_result_fallback := True\<rparr>"

definition demo_plan :: cached_plan where
  "demo_plan = \<lparr>cp_store = PlanLruTtl 2 (TtlTokens (ExprOther ''LIFETIME'')) False,
     cp_key = KeyTuple [KeyOwned (TyOther ''str'') (PatIdent False ''name''),
       KeyClone (TyPath [PathSegment ''u32'' ArgsNone]) (PatIdent False ''depth'')],
     cp_value = InnerArg (GenType (TyOther ''u64'')), cp_smart_result = True, cp_smart_option = False,
     cp_with_cached_flag = False, cp_sync_writes = Disabled, cp_buckets = 64, cp_use_rwlock = True,
     cp_result_fallback = True, cp_unsync_reads = False, cp_force_refresh = None, cp_cache_ident = ''LOOKUP'',
     cp_static_in_body = False, cp_nest_origin_fn = False, cp_prime_fn = True, cp_time_stores_guard = True\<rparr>"

lemma demo_expansion: "cached demo_syn [MetaNamed ''max_size''] demo_args demo_sig = Returns (Inr demo_plan)"
  by code_simp

theorem cached_plan_typed_witness: "plan_typed demo_sig demo_plan"
  by (rule cached_plan_typed [OF demo_expansion])












section \<open>The contract of the static\<close>









section \<open>Soundness of memoization\<close>















end
