(* ===== verification/Serial_Calls.thy ===== *)
theory Serial_Calls
  imports Concurrent
begin

text \<open>
  Calls that hold one lock from their first step to their last are serializable: every interleaving
  has the outcomes of the calls made one after the other, in the order in which they took the lock.
\<close>

text \<open>What is left of a call that holds the lock: it keeps the lock up to its last step, which releases it.\<close>

inductive under :: "('s \<Rightarrow> bool) \<Rightarrow> ('s, 'r) proc \<Rightarrow> bool" for locked :: "'s \<Rightarrow> bool" where
  step: "(\<And>s. locked s \<Longrightarrow> locked (snd (f s)) \<and> under locked (fst (f s)) \<or>
    \<not> locked (snd (f s)) \<and> (\<exists>r. fst (f s) = Done r)) \<Longrightarrow> under locked (Atomic f)"

inductive_cases underE: "under locked p"

text \<open>Code that runs with the lock held and leaves it alone.\<close>

inductive keeps_lock :: "('s \<Rightarrow> bool) \<Rightarrow> ('s, 'r) proc \<Rightarrow> bool" for locked :: "'s \<Rightarrow> bool" where
  finished: "keeps_lock locked (Done r)"
| step: "(\<And>s. locked s \<Longrightarrow> locked (snd (f s)) \<and> keeps_lock locked (fst (f s))) \<Longrightarrow> keeps_lock locked (Atomic f)"

lemma keeps_lock_pbind: "keeps_lock locked p \<Longrightarrow> (\<And>x. keeps_lock locked (k x)) \<Longrightarrow> keeps_lock locked (pbind p k)"
  by (induction rule: keeps_lock.induct) (auto split: outcome.split intro!: keeps_lock.intros)

lemma keeps_lock_atomically: "(\<And>s. locked s \<Longrightarrow> locked (snd (m s))) \<Longrightarrow> keeps_lock locked (atomically m)"
  by (auto simp: atomically_def intro!: keeps_lock.intros)

lemma keeps_lock_pret: "keeps_lock locked (pret x)"
  by (simp add: pret_def keeps_lock.intros)

lemma run_pfinal:
  "keeps_lock locked p \<Longrightarrow> locked s \<Longrightarrow> run_proc (pfinal p release) s = (fst (run_proc p s), release (snd (run_proc p s)))"
proof (induction arbitrary: s rule: keeps_lock.induct)
  case (step f)
  then show ?case by (cases "f s") (use step in fastforce)
qed simp

lemma under_pfinal:
  "keeps_lock locked p \<Longrightarrow> (\<And>s. locked s \<Longrightarrow> \<not> locked (release s)) \<Longrightarrow> under locked (pfinal p release)"
  by (induction rule: keeps_lock.induct) (auto intro!: under.intros)

definition outside :: "('op \<Rightarrow> ('s, 'r) proc) \<Rightarrow> ('s, 'op, 'r) thread \<Rightarrow> ('op \<times> 'r outcome) list \<Rightarrow> bool" where
  "outside body t h \<longleftrightarrow> (case th_now t of
       None \<Rightarrow> h = th_done t
     | Some (op, p) \<Rightarrow> p = body op \<and> h = th_done t \<or> (\<exists>r. p = Done r \<and> h = th_done t @ [(op, r)]))"

definition inside :: "('s \<Rightarrow> bool) \<Rightarrow> 's \<Rightarrow> 's \<Rightarrow> ('s, 'op, 'r) thread \<Rightarrow> ('op \<times> 'r outcome) list \<Rightarrow> bool" where
  "inside locked s s1 t h \<longleftrightarrow> (\<exists>op p r. th_now t = Some (op, p) \<and> under locked p \<and> run_proc p s = (r, s1) \<and>
     h = th_done t @ [(op, r)])"

definition history :: "nat \<Rightarrow> (nat \<times> 'op \<times> 'r outcome) list \<Rightarrow> ('op \<times> 'r outcome) list" where
  "history i tr = map snd (filter (\<lambda>x. fst x = i) tr)"

lemma history_snoc [simp]: "history i (tr @ [(j, c)]) = (if i = j then history i tr @ [c] else history i tr)"
  by (simp add: history_def)

locale serial_calls =
  fixes body :: "'op \<Rightarrow> ('s, 'r) proc"
    and locked :: "'s \<Rightarrow> bool"
  assumes enter: "\<exists>f. body op = Await (\<lambda>s. \<not> locked s) f \<and>
    (\<forall>s. \<not> locked s \<longrightarrow> locked (snd (f s)) \<and> under locked (fst (f s)))"
begin

text \<open>A step of a thread that does not hold the lock.\<close>

lemma outside_step:
  assumes "thread_step body (t, s) (t', s')" "outside body t h"
  shows "s' = s \<and> outside body t' h \<or>
    (\<exists>op r s1. \<not> locked s \<and> locked s' \<and> run_proc (body op) s = (r, s1) \<and> inside locked s' s1 t' (h @ [(op, r)]))"
  using assms(1)
proof (cases rule: thread_step.cases)
  case (invoke op ops)
  then show ?thesis using assms(2) by (simp add: outside_def)
next
  case (step op f p)
  then show ?thesis using assms(2) enter [of op] by (auto simp: outside_def)
next
  case (wake op g f p)
  from enter [of op] obtain e where e: "body op = Await (\<lambda>s. \<not> locked s) e"
      "\<And>s. \<not> locked s \<Longrightarrow> locked (snd (e s)) \<and> under locked (fst (e s))" by blast
  have "g = (\<lambda>s. \<not> locked s)" "f = e" "h = th_done t" using wake assms(2) e(1) by (auto simp: outside_def)
  then have s: "\<not> locked s" "locked s'" "under locked p" "h = th_done t" using wake e(2) [of s] by auto
  obtain r s1 where r: "run_proc p s' = (r, s1)" by force
  have "run_proc (body op) s = (r, s1)" using e(1) r s(1) wake \<open>f = e\<close> by (simp add: run_proc_Await)
  moreover have "inside locked s' s1 t' (h @ [(op, r)])" using wake s r by (simp add: inside_def)
  ultimately show ?thesis using s by blast
next
  case (return op r)
  have "Done r \<noteq> body op" using enter [of op] by auto
  then show ?thesis using return assms(2) by (auto simp: outside_def)
qed

text \<open>A step of the thread that holds the lock.\<close>

lemma inside_step:
  assumes "thread_step body (t, s) (t', s')" "inside locked s s1 t h" "locked s"
  shows "locked s' \<and> inside locked s' s1 t' h \<or> \<not> locked s' \<and> s' = s1 \<and> outside body t' h"
proof -
  obtain op p r where p: "th_now t = Some (op, p)" "under locked p" "run_proc p s = (r, s1)" "h = th_done t @ [(op, r)]"
    using assms(2) by (auto simp: inside_def)
  obtain f where f: "p = Atomic f" "\<And>s. locked s \<Longrightarrow> locked (snd (f s)) \<and> under locked (fst (f s)) \<or>
      \<not> locked (snd (f s)) \<and> (\<exists>r. fst (f s) = Done r)"
    using p(2) by (cases rule: under.cases) blast
  from assms(1) have t: "t' = t\<lparr>th_now := Some (op, fst (f s))\<rparr>" "s' = snd (f s)"
    using p(1) f(1) by (auto elim!: thread_step.cases)
  have run: "run_proc (fst (f s)) (snd (f s)) = (r, s1)" using p(3) f(1) by (cases "f s") simp
  from f(2) [OF assms(3)] show ?thesis
    using t run p(4) by (auto simp: inside_def outside_def)
qed


lemma interleaving_serial:
  assumes "interleaving body c0 c" "c0 = (map fresh_thread opss, s0)" "\<not> locked s0"
  shows "\<exists>tr s1. execution (\<lambda>op. run_proc (body op)) s0 (map snd tr) s1 \<and>
    (\<not> locked (snd c) \<and> s1 = snd c \<and> (\<forall>i < length (fst c). outside body (fst c ! i) (history i tr)) \<or>
     locked (snd c) \<and> (\<exists>i < length (fst c). inside locked (snd c) s1 (fst c ! i) (history i tr) \<and>
       (\<forall>j < length (fst c). j \<noteq> i \<longrightarrow> outside body (fst c ! j) (history j tr))))"
  using assms
proof (induction rule: interleaving.induct)
  case start
  then show ?case
    by (intro exI [of _ "[]"] exI [of _ s0]) (simp add: outside_def fresh_thread_def history_def)
next
  case (next_step ts s i t s')
  then obtain tr s1 where tr: "execution (\<lambda>op. run_proc (body op)) s0 (map snd tr) s1"
    and st: "\<not> locked s \<and> s1 = s \<and> (\<forall>i < length ts. outside body (ts ! i) (history i tr)) \<or>
      locked s \<and> (\<exists>k < length ts. inside locked s s1 (ts ! k) (history k tr) \<and>
        (\<forall>j < length ts. j \<noteq> k \<longrightarrow> outside body (ts ! j) (history j tr)))" by auto
  note i = next_step.hyps(2) and step = next_step.hyps(3)
  from st consider
      (free) "\<not> locked s" "s1 = s" "\<And>j. j < length ts \<Longrightarrow> outside body (ts ! j) (history j tr)"
    | (held) k where "locked s" "k < length ts" "inside locked s s1 (ts ! k) (history k tr)"
        "\<And>j. j < length ts \<Longrightarrow> j \<noteq> k \<Longrightarrow> outside body (ts ! j) (history j tr)" by blast
  then show ?case
  proof cases
    case free
    from outside_step [OF step free(3) [OF i]] consider (silent) "s' = s" "outside body t (history i tr)"
      | (entered) op r s2 where "locked s'" "run_proc (body op) s = (r, s2)" "inside locked s' s2 t (history i tr @ [(op, r)])"
      by blast
    then show ?thesis
    proof cases
      case silent
      have "outside body (ts[i := t] ! j) (history j tr)" if "j < length ts" for j
        using that free(3) silent(2) i by (cases "j = i") simp_all
      then show ?thesis using tr free(1,2) silent(1) by (intro exI [of _ tr] exI [of _ s]) simp
    next
      case entered
      let ?tr = "tr @ [(i, op, r)]"
      have "execution (\<lambda>op. run_proc (body op)) s0 (map snd ?tr) s2"
        using execution.call [of _ s0 "map snd tr" s op r s2] tr free(2) entered(2) by simp
      moreover have "outside body (ts[i := t] ! j) (history j ?tr)" if "j < length ts" "j \<noteq> i" for j
        using that free(3) by simp
      moreover have "inside locked s' s2 (ts[i := t] ! i) (history i ?tr)" using entered(3) i by simp
      ultimately show ?thesis
        using entered(1) i by (intro exI [of _ ?tr] exI [of _ s2] conjI disjI2 exI [of _ i]) auto
    qed
  next
    case held
    show ?thesis
    proof (cases "i = k")
      case True
      have others: "outside body (ts[i := t] ! j) (history j tr)" if "j < length ts" "j \<noteq> k" for j
        using that held(4) True by simp
      from inside_step [OF step _ held(1), of s1 "history k tr"] held(3) True
      consider "locked s'" "inside locked s' s1 t (history k tr)" | "\<not> locked s'" "s' = s1" "outside body t (history k tr)"
        by blast
      then show ?thesis
      proof cases
        case 1
        then show ?thesis using tr others held(2) True
          by (intro exI [of _ tr] exI [of _ s1] conjI disjI2 exI [of _ k]) auto
      next
        case 2
        then have "outside body (ts[i := t] ! j) (history j tr)" if "j < length ts" for j
          using that others i True by (cases "j = k") simp_all
        then show ?thesis using tr 2 by (intro exI [of _ tr] exI [of _ s1]) simp
      qed
    next
      case False
      from outside_step [OF step held(4) [OF i False]] held(1) have "s' = s" "outside body t (history i tr)" by auto
      moreover have "outside body (ts[i := t] ! j) (history j tr)" if "j < length ts" "j \<noteq> k" for j
        using that held(4) \<open>outside body t (history i tr)\<close> i by (cases "j = i") simp_all
      ultimately show ?thesis using tr held(1-3) False
        by (intro exI [of _ tr] exI [of _ s1] conjI disjI2 exI [of _ k]) auto
    qed
  qed
qed

lemma serializes:
  assumes "interleaving body (map fresh_thread opss, s0) (ts, s)" "\<not> locked s0" "\<forall>t \<in> set ts. th_now t = None"
  shows "\<exists>tr. execution (\<lambda>op. run_proc (body op)) s0 (map snd tr) s \<and>
    (\<forall>i < length ts. history i tr = th_done (ts ! i))"
proof -
  have "th_now (ts ! i) = None" if "i < length ts" for i using assms(3) that by simp
  then show ?thesis
    using interleaving_serial [OF assms(1) refl assms(2)] by (auto simp: inside_def outside_def)
qed

end

end
