(* ===== verification/Spec2Isabelle.thy ===== *)
theory Spec2Isabelle
  imports Lru_Correct Unbound_Correct Ttl_Correct Expiring_Correct Lru_Ttl_Correct Expiring_Lru_Correct
    Ttl_Sorted_Correct Sharded_Unbound_Correct Sharded_Lru_Correct Sharded_Ttl_Correct
    Sharded_Expiring_Correct Sharded_Lru_Ttl_Correct Sharded_Expiring_Lru_Correct Memo_Correct Memo_Serial
begin

text \<open>
  Verification of \<open>cached\<close>, a Rust crate of in-memory caches and of procedural macros that memoize
  functions with them.

  \<^bold>\<open>The program.\<close> A \<^emph>\<open>store\<close> maps keys to values and decides what to drop: by recency
  (\<open>src/src/stores/lru.rs\<close> over the vector-backed list \<open>src/src/lru_list.rs\<close> and a hash table), by age
  (\<open>ttl.rs\<close>, \<open>ttl_sorted.rs\<close>), by what the values say themselves (\<open>expiring.rs\<close>), by both
  (\<open>lru_ttl.rs\<close>, \<open>expiring_lru.rs\<close>) or not at all (\<open>unbound.rs\<close>). All count hits, misses and evictions
  and report dropped entries to a user callback \<open>on_evict\<close>, which may panic, as may the factories,
  predicates and \<open>is_expired\<close> methods that a client passes in. The \<^emph>\<open>sharded\<close> stores
  (\<open>src/src/stores/sharded\<close>) put one store behind a lock per shard and are shared between threads. The
  macro \<open>#[cached]\<close> (\<open>src/cached_proc_macro\<close>) checks its attributes, chooses a store and generates a
  function that looks up, computes and stores under a lock.

  \<^bold>\<open>How it is modelled.\<close> A method is a computation \<open>('s, 'a) comp\<close> (\<open>Prelude\<close>): from a state
  it gives an outcome (\<open>Returns\<close>, \<open>Panics\<close> or \<open>Diverges\<close>) and the state at that point, so a panic of user
  code leaves the state in which it struck. Structs are records with the fields of the source;
  callbacks are functions that say whether they return, and a trace field (\<open>..._calls\<close>) records what they
  were called with. Rust indexing, \<open>expect\<close> and \<open>unwrap\<close> are panics; counters are 64-bit words; \<open>usize\<close> is
  a natural number with the overflow checks of the source written out. \<open>bk\<close> is the \<open>Borrow\<close> of the key
  type: equal keys need not be the same value. A method of a shared store is a \<open>proc\<close> (\<open>Concurrent\<close>): a
  sequence of atomic steps (a critical section, an atomic counter update, a callback) with the steps
  of other threads in between; \<open>interleaving\<close> is the relation of all schedules.

  \<^bold>\<open>Theories and sources.\<close>
  \<^item> \<open>Prelude\<close>, \<open>Entry_List\<close>: outcomes, computations, refinement (\<open>refines\<close>), callbacks, lists of entries.
    \<open>State_Machine\<close>: executions of a store, invariants and simulations as locales.
  \<^item> \<open>Store_Common\<close>, \<open>Hash_Map\<close>: \<open>stores/mod.rs\<close> (errors, \<open>StripedCounter\<close>, \<open>CacheValue\<close>, \<open>TimedEntry\<close>,
    \<open>take_doomed\<close>) and \<open>std::collections::HashMap\<close>. \<open>Hash_Table\<close>: the laws of the third-party
    \<open>hashbrown::HashTable\<close> as a locale, with an executable table that satisfies them.
  \<^item> \<open>Lru_List\<close>, \<open>Lru_Cache\<close>: \<open>lru_list.rs\<close> and \<open>lru.rs\<close>. \<open>Lru_Spec\<close> is an LRU cache as a list of entries;
    \<open>Lru_Refine\<close> and \<open>Lru_Machine\<close> show that the code implements it, \<open>Lru_Invariants\<close> and \<open>Lru_Correct\<close> what
    follows.
  \<^item> \<open>Unbound_Cache\<close>, \<open>Ttl_Cache\<close>, \<open>Expiring_Cache\<close>, \<open>Lru_Ttl_Cache\<close>, \<open>Expiring_Lru_Cache\<close>,
    \<open>Ttl_Sorted_Cache\<close> (with \<open>Expiry_Index\<close>): the store of that name; the theories \<open>..._Refine\<close>, \<open>..._Machine\<close>,
    \<open>..._Lockstep\<close>, \<open>..._Effects\<close> and \<open>..._Correct\<close> hold its specification, invariants and properties.
  \<^item> \<open>Concurrent\<close>: threads, interleavings, invariants under interference (\<open>safe_calls\<close>), linearizability.
    \<open>Serial_Calls\<close>: calls that hold one lock throughout are serializable. \<open>Call_Contracts\<close>: what the states at
    the steps of a call say about its outcome (\<open>explained\<close>) and what each step guarantees (\<open>guards\<close>).
  \<^item> \<open>Sharded_Common\<close>: \<open>sharded/mod.rs\<close> and the default methods of \<open>ConcurrentCached\<close> (\<open>lib.rs\<close>).
    \<open>Sharded_Refine\<close>: reasoning about shards once for all inner stores. \<open>Sharded_Unbound\<close>, \<open>Sharded_Lru\<close> and
    their \<open>..._Correct\<close>: \<open>sharded/unbound.rs\<close> and \<open>sharded/lru.rs\<close>.
  \<^item> \<open>Sharded_Clock\<close>: the clock, lifetimes and counters that the sharded stores with expiry share.
    \<open>Sharded_Ttl\<close>, \<open>Sharded_Expiring\<close>, \<open>Sharded_Lru_Ttl\<close>, \<open>Sharded_Expiring_Lru\<close> and their \<open>..._Correct\<close>: the
    files of that name in \<open>sharded\<close>. \<open>Sharded_Calls\<close> lists the calls that they offer and lifts guarantees of
    critical sections to calls, \<open>Sharded_Lru_Expiry\<close> holds what the two bounded ones share.
  \<^item> \<open>Macro_Helpers\<close>, \<open>Cached_Attrs\<close>: \<open>cached_proc_macro/src/helpers.rs\<close> and the expansion in \<open>cached.rs\<close>,
    from attributes and signature to a plan or a diagnostic. \<open>Memo_Cached\<close>, \<open>Memo_Static\<close>: the function that
    a plan generates. \<open>Memo_Sound\<close>, \<open>Memo_Stores\<close>, \<open>Memo_Correct\<close>, \<open>Memo_Serial\<close>: what it guarantees.

  \<^bold>\<open>What the theorems show.\<close> For every store: the effect of its operations on every branch, that
  it follows its specification for every sequence of calls (panics of user code included), that the
  capacity holds, and that every dropped entry is counted and reported once. For the sorted store:
  its map and its expiry index stay in step and sweeps do what a full scan would. For the sharded
  stores: linearizability of the calls on single keys (without expiry), and the capacity at every
  moment of every interleaving of all calls. For the sharded stores with expiry, however threads
  interleave and time passes: a lookup returns what its shard held at a step of the call, judged at a
  step of the call, and no step of a lookup or a sweep takes out a value that has not expired, also on
  the path that upgrades from the read to the write lock and when user code panics. For \<open>#[cached]\<close>: the expansion ends with a plan or a diagnostic, a plan is
  well typed, the generated function returns what the body returned for the same key in every
  interleaving and, with \<open>sync_writes\<close>, runs the body once per key.

  \<^bold>\<open>Loops, bounds and parameters.\<close> Loops over the recency list and the eviction loops carry fuel,
  chosen as the number of cells or entries; the proofs show that it is never used up (the result is
  never \<open>Diverges\<close> and the outcome is the specified one). Doubling to a power of two runs at most \<open>n\<close>
  times for \<open>n\<close>. Parameters are the hash table (laws in the locale \<open>hash_table\<close>), hash functions, whether
  an allocation succeeds, the instants that the clock shows and the degree of parallelism. \<open>Expires::is_expired\<close> is a parameter
  that may panic; for the sharded stores its answer also depends on the clock.

  \<^bold>\<open>Not modelled.\<close> The Redis and redb stores (\<open>redis.rs\<close>, \<open>redb.rs\<close>) are clients of a server and
  of a database file: what they do is the behaviour of those. \<open>#[once]\<close>, \<open>#[concurrent_cached]\<close>, the
  declarative macros and the remaining trait shorthands of \<open>lib.rs\<close> are generated text or forwarding.
  \<open>Debug\<close>, documentation and span handling carry no behaviour.
\<close>

end
